(* ===== verification/Prelude.thy ===== *)
theory Prelude
  imports Main "HOL-Library.Word" "HOL-Library.Sublist"
begin

text \<open>
  The prelude of the development: the collections of facts the component theories extend,
  the names of the machine types of the Go sources, and the generic lemmas on lists, maps,
  bytes and byte strings read as big-endian numbers that several components share.
\<close>

unbundle bit_operations_syntax

named_theorems go_defs \<open>definitions of library routines that component proofs unfold\<close>
named_theorems inv_intros \<open>preservation lemmas: an operation keeps an invariant\<close>

type_synonym byte = "8 word"
type_synonym bytes = "byte list"
type_synonym uint32 = "32 word"
type_synonym int64 = "64 word"

text \<open>
  The results of fallible routines: the left summand is the error of the routine's own error
  type, the right one the value it returns.
\<close>

type_synonym ('e, 'a) res = "'e + 'a"

abbreviation is_err :: "('e, 'a) res \<Rightarrow> bool" where
  "is_err r \<equiv> isl r"

abbreviation is_ok :: "('e, 'a) res \<Rightarrow> bool" where
  "is_ok r \<equiv> \<not> isl r"

subsection \<open>Big-endian numbers\<close>

text \<open>The number a byte string denotes, most significant byte first.\<close>

fun be_val :: "bytes \<Rightarrow> nat" where
  "be_val [] = 0"
| "be_val (b # bs) = unat b * 256 ^ length bs + be_val bs"

lemma byte_lt_256 [simp]: "unat (b :: byte) < 256"
  using unsigned_less [of b] by simp

lemma byte_le_255 [simp]: "unat (b :: byte) \<le> 255"
  using byte_lt_256 [of b] by linarith

lemma byte_255: "(255 :: byte) = - 1"
  by simp

lemma and_byte_255 [simp]: "(x :: byte) AND 255 = x"
  unfolding byte_255 by simp

lemma be_val_less: "be_val bs < 256 ^ length bs"
proof (induction bs)
  case Nil
  then show ?case by simp
next
  case (Cons b bs)
  have "unat b * 256 ^ length bs + be_val bs < (unat b + 1) * 256 ^ length bs"
    using Cons by simp
  also have "\<dots> \<le> 256 * 256 ^ length bs"
    using byte_lt_256 [of b] by (intro mult_right_mono) linarith+
  finally show ?case by simp
qed

lemma be_val_append: "be_val (xs @ ys) = be_val xs * 256 ^ length ys + be_val ys"
  by (induction xs) (simp_all add: power_add algebra_simps)

lemma mult_add_eq_iff:
  fixes a b c d m :: nat
  assumes "b < m" and "d < m"
  shows "a * m + b = c * m + d \<longleftrightarrow> a = c \<and> b = d"
proof
  assume eq: "a * m + b = c * m + d"
  have "(a * m + b) div m = a" and "(c * m + d) div m = c"
    using assms by simp_all
  with eq have "a = c" by metis
  with eq show "a = c \<and> b = d" by simp
qed simp

lemma be_val_inj: "length xs = length ys \<Longrightarrow> be_val xs = be_val ys \<longleftrightarrow> xs = ys"
proof (induction xs ys rule: list_induct2)
  case (Cons x xs y ys)
  have "be_val xs < 256 ^ length xs" and "be_val ys < 256 ^ length xs"
    using be_val_less [of xs] be_val_less [of ys] Cons.hyps by simp_all
  then show ?case
    using Cons by (simp add: mult_add_eq_iff unsigned_word_eqI word_unat_eq_iff)
qed simp

text \<open>The \<open>l\<close> bytes of a number, most significant byte first.\<close>

fun be_bytes :: "nat \<Rightarrow> nat \<Rightarrow> bytes" where
  "be_bytes 0 n = []"
| "be_bytes (Suc l) n = be_bytes l (n div 256) @ [of_nat (n mod 256)]"

lemma length_be_bytes [simp]: "length (be_bytes l n) = l"
  by (induction l arbitrary: n) simp_all

lemma unat_of_nat_byte [simp]: "unat (of_nat n :: byte) = n mod 256"
  by (simp add: unat_of_nat)

lemma be_val_be_bytes: "be_val (be_bytes l n) = n mod 256 ^ l"
proof (induction l arbitrary: n)
  case 0
  then show ?case by simp
next
  case (Suc l)
  have "n mod 256 ^ Suc l = 256 * (n div 256 mod 256 ^ l) + n mod 256"
    by (simp add: mod_mult2_eq)
  then show ?case using Suc by (simp add: be_val_append)
qed

lemma be_bytes_be_val: "length bs = l \<Longrightarrow> be_bytes l (be_val bs) = bs"
  by (metis be_val_be_bytes be_val_inj be_val_less length_be_bytes mod_less)

subsection \<open>Maps with a finite domain and an enumeration of their keys\<close>

text \<open>
  Go iterates over a map in an order the runtime picks. A routine whose result can depend on
  it takes the order as a list of keys; \<open>key_order m ks\<close> says that the list is one of the
  orders the runtime may pick for the map \<open>m\<close>.
\<close>

definition key_order :: "('k \<rightharpoonup> 'v) \<Rightarrow> 'k list \<Rightarrow> bool" where
  "key_order m ks \<longleftrightarrow> distinct ks \<and> set ks = dom m"

lemma key_order_length: "key_order m ks \<Longrightarrow> length ks = card (dom m)"
  by (metis distinct_card key_order_def)

lemma key_order_mem: "key_order m ks \<Longrightarrow> k \<in> set ks \<longleftrightarrow> (\<exists>v. m k = Some v)"
  by (auto simp: key_order_def)

lemma key_order_empty [simp]: "key_order Map.empty ks \<longleftrightarrow> ks = []"
  by (auto simp: key_order_def)

subsection \<open>Lists\<close>

lemma find_None_iff_all: "find P xs = None \<longleftrightarrow> (\<forall>x \<in> set xs. \<not> P x)"
  by (auto simp: find_None_iff)

lemma find_SomeD: "find P xs = Some x \<Longrightarrow> x \<in> set xs \<and> P x"
  by (auto simp: find_Some_iff)

lemma length4_cases:
  assumes "length xs = 4"
  obtains a b c d where "xs = [a, b, c, d]"
  using assms by (auto simp: length_Suc_conv numeral_eq_Suc)

end
