(* ===== verification/Go_Strings.thy ===== *)
theory Go_Strings
  imports Prelude
begin

text \<open>
  The parts of Go's packages \<open>strings\<close>, \<open>strconv\<close>, \<open>fmt\<close> and \<open>unicode/utf8\<close> that the
  sources use. A Go string is a sequence of bytes, so it is a \<^typ>\<open>string\<close> of HOL, whose
  characters are bytes. \<open>HasPrefix s p\<close> is \<^term>\<open>prefix p s\<close>, \<open>HasSuffix s p\<close> is
  \<^term>\<open>suffix p s\<close> and \<open>Contains s t\<close> is \<^term>\<open>sublist t s\<close>.
\<close>

subsection \<open>Cutting and joining\<close>

text \<open>\<open>strings.Split\<close> with a separator of one byte.\<close>

fun split_on :: "char \<Rightarrow> string \<Rightarrow> string list" where
  "split_on c [] = [[]]"
| "split_on c (x # xs) =
     (if x = c then [] # split_on c xs
      else (case split_on c xs of [] \<Rightarrow> [[x]] | y # ys \<Rightarrow> (x # y) # ys))"

text \<open>\<open>strings.Cut\<close> at the first byte \<open>c\<close>: \<open>None\<close> when there is none.\<close>

fun cut :: "char \<Rightarrow> string \<Rightarrow> (string \<times> string) option" where
  "cut c [] = None"
| "cut c (x # xs) =
     (if x = c then Some ([], xs)
      else (case cut c xs of None \<Rightarrow> None | Some (a, b) \<Rightarrow> Some (x # a, b)))"

text \<open>\<open>strings.Join\<close>.\<close>

fun join :: "string \<Rightarrow> string list \<Rightarrow> string" where
  "join sep [] = []"
| "join sep [s] = s"
| "join sep (s # t # ts) = s @ sep @ join sep (t # ts)"

text \<open>\<open>strings.TrimPrefix\<close> and \<open>strings.TrimSuffix\<close>.\<close>

definition trim_prefix :: "string \<Rightarrow> string \<Rightarrow> string" where
  "trim_prefix p s = (if prefix p s then drop (length p) s else s)"

definition trim_suffix :: "string \<Rightarrow> string \<Rightarrow> string" where
  "trim_suffix p s = (if suffix p s then take (length s - length p) s else s)"

text \<open>\<open>strings.ReplaceAll\<close> for a non-empty pattern: non-overlapping, from the left.\<close>

function replace_all :: "string \<Rightarrow> string \<Rightarrow> string \<Rightarrow> string" where
  "replace_all p r s =
     (if p = [] \<or> s = [] then s
      else if prefix p s then r @ replace_all p r (drop (length p) s)
      else hd s # replace_all p r (tl s))"
  by pat_completeness auto
termination
  by (relation "measure (\<lambda>(p, r, s). length s)") auto

declare replace_all.simps [simp del]

subsection \<open>Decimal numbers\<close>

definition digit_char :: "nat \<Rightarrow> char" where
  "digit_char d = char_of (48 + d)"

fun dec_of_nat :: "nat \<Rightarrow> string" where
  "dec_of_nat n = (if n < 10 then [digit_char n] else dec_of_nat (n div 10) @ [digit_char (n mod 10)])"

declare dec_of_nat.simps [simp del]

text \<open>\<open>strconv.Itoa\<close> and the verb \<open>%d\<close>.\<close>

definition dec_of_int :: "int \<Rightarrow> string" where
  "dec_of_int i = (if i < 0 then CHR ''-'' # dec_of_nat (nat (- i)) else dec_of_nat (nat i))"

definition is_digit :: "char \<Rightarrow> bool" where
  "is_digit c \<longleftrightarrow> 48 \<le> (of_char c :: nat) \<and> (of_char c :: nat) \<le> 57"

definition digit_val :: "char \<Rightarrow> nat" where
  "digit_val c = of_char c - 48"

text \<open>The value of a string of decimal digits.\<close>

definition dec_val :: "string \<Rightarrow> nat" where
  "dec_val s = foldl (\<lambda>n c. n * 10 + digit_val c) 0 s"

lemma of_char_digit_char [simp]: "d < 10 \<Longrightarrow> (of_char (digit_char d) :: nat) = 48 + d"
  by (simp add: digit_char_def)

lemma digit_char_is_digit [simp]: "d < 10 \<Longrightarrow> is_digit (digit_char d)"
  by (simp add: is_digit_def)

lemma digit_val_digit_char [simp]: "d < 10 \<Longrightarrow> digit_val (digit_char d) = d"
  by (simp add: digit_val_def)

lemma dec_of_nat_digits: "c \<in> set (dec_of_nat n) \<Longrightarrow> is_digit c"
proof (induction n rule: dec_of_nat.induct)
  case (1 n)
  then show ?case
    by (cases "n < 10") (auto simp: dec_of_nat.simps [of n])
qed

lemma dec_of_nat_ne [simp]: "dec_of_nat n \<noteq> []"
  by (subst dec_of_nat.simps) simp

lemma dec_val_snoc: "dec_val (s @ [c]) = dec_val s * 10 + digit_val c"
  by (simp add: dec_val_def)

lemma dec_val_dec_of_nat [simp]: "dec_val (dec_of_nat n) = n"
proof (induction n rule: dec_of_nat.induct)
  case (1 n)
  show ?case
  proof (cases "n < 10")
    case True
    then show ?thesis by (simp add: dec_of_nat.simps [of n] dec_val_def)
  next
    case False
    with 1 have "dec_val (dec_of_nat (n div 10)) = n div 10" by simp
    with False show ?thesis by (simp add: dec_of_nat.simps [of n] dec_val_snoc)
  qed
qed

lemma dec_of_nat_inj [simp]: "dec_of_nat m = dec_of_nat n \<longleftrightarrow> m = n"
  by (metis dec_val_dec_of_nat)

text \<open>No number is printed with a leading zero.\<close>

lemma hd_dec_of_nat: "0 < n \<Longrightarrow> hd (dec_of_nat n) \<noteq> CHR ''0''"
proof (induction n rule: dec_of_nat.induct)
  case (1 n)
  show ?case
  proof (cases "n < 10")
    case True
    then have "(of_char (hd (dec_of_nat n)) :: nat) = 48 + n"
      by (simp add: dec_of_nat.simps [of n])
    with "1.prems" show ?thesis by auto
  next
    case False
    with 1 show ?thesis by (simp add: dec_of_nat.simps [of n])
  qed
qed

lemma dec_of_nat_0 [simp]: "dec_of_nat 0 = ''0''"
  by (simp add: dec_of_nat.simps digit_char_def char_of_eq_iff)

subsection \<open>Facts on cutting and joining\<close>

lemma split_on_ne [simp]: "split_on c s \<noteq> []"
  by (induction s) (auto split: list.splits)

lemma split_on_no_sep: "c \<notin> set s \<Longrightarrow> split_on c s = [s]"
  by (induction s) auto

lemma split_on_append: "c \<notin> set s \<Longrightarrow> split_on c (s @ c # t) = s # split_on c t"
  by (induction s) auto

lemma cut_append: "c \<notin> set s \<Longrightarrow> cut c (s @ c # t) = Some (s, t)"
  by (induction s) auto

lemma cut_None_iff: "cut c s = None \<longleftrightarrow> c \<notin> set s"
  by (induction s) (auto split: option.splits)

lemma cut_SomeD: "cut c s = Some (a, b) \<Longrightarrow> s = a @ c # b \<and> c \<notin> set a"
  by (induction s arbitrary: a b) (auto split: option.splits if_splits)

lemma non_digit_notin_dec [simp]: "\<not> is_digit c \<Longrightarrow> c \<notin> set (dec_of_nat n)"
  using dec_of_nat_digits by blast

lemma is_digit_dot [simp]: "\<not> is_digit CHR ''.''" "\<not> is_digit CHR ''/''" "\<not> is_digit CHR '':''"
    "\<not> is_digit CHR ''-''" "\<not> is_digit CHR ''%''"
  by (simp_all add: is_digit_def)

subsection \<open>Runes\<close>

text \<open>
  \<open>for _, c := range s\<close> decodes UTF-8: an ill-formed byte yields U+FFFD and advances by one.
  \<open>rune_at\<close> follows \<open>utf8.DecodeRuneInString\<close>: the code point and its width.
\<close>

definition cont_byte :: "nat \<Rightarrow> bool" where
  "cont_byte b \<longleftrightarrow> 128 \<le> b \<and> b \<le> 191"

fun rune_at :: "nat list \<Rightarrow> nat \<times> nat" where
  "rune_at [] = (65533, 0)"
| "rune_at (b0 # bs) =
     (if b0 < 128 then (b0, 1)
      else if 194 \<le> b0 \<and> b0 \<le> 223 then
        (case bs of b1 # _ \<Rightarrow>
           if cont_byte b1 then ((b0 - 192) * 64 + (b1 - 128), 2) else (65533, 1)
         | [] \<Rightarrow> (65533, 1))
      else if 224 \<le> b0 \<and> b0 \<le> 239 then
        (case bs of b1 # b2 # _ \<Rightarrow>
           if cont_byte b1 \<and> cont_byte b2 \<and> (b0 = 224 \<longrightarrow> 160 \<le> b1) \<and> (b0 = 237 \<longrightarrow> b1 \<le> 159)
           then ((b0 - 224) * 4096 + (b1 - 128) * 64 + (b2 - 128), 3) else (65533, 1)
         | _ \<Rightarrow> (65533, 1))
      else if 240 \<le> b0 \<and> b0 \<le> 244 then
        (case bs of b1 # b2 # b3 # _ \<Rightarrow>
           if cont_byte b1 \<and> cont_byte b2 \<and> cont_byte b3 \<and> (b0 = 240 \<longrightarrow> 144 \<le> b1)
              \<and> (b0 = 244 \<longrightarrow> b1 \<le> 143)
           then ((b0 - 240) * 262144 + (b1 - 128) * 4096 + (b2 - 128) * 64 + (b3 - 128), 4)
           else (65533, 1)
         | _ \<Rightarrow> (65533, 1))
      else (65533, 1))"

lemma rune_at_width: "bs \<noteq> [] \<Longrightarrow> 0 < snd (rune_at bs)"
  by (cases bs) (auto split: list.splits)

function runes_of :: "nat list \<Rightarrow> nat list" where
  "runes_of bs = (if bs = [] then [] else fst (rune_at bs) # runes_of (drop (snd (rune_at bs)) bs))"
  by pat_completeness auto
termination
  by (relation "measure length") (auto simp: rune_at_width)

declare runes_of.simps [simp del]

definition runes :: "string \<Rightarrow> nat list" where
  "runes s = runes_of (map of_char s)"

lemma runes_of_ascii: "\<forall>b \<in> set bs. b < 128 \<Longrightarrow> runes_of bs = bs"
proof (induction bs)
  case Nil
  then show ?case by (simp add: runes_of.simps)
next
  case (Cons b bs)
  then show ?case by (subst runes_of.simps) simp
qed

lemma runes_ascii: "\<forall>c \<in> set s. (of_char c :: nat) < 128 \<Longrightarrow> runes s = map of_char s"
  by (simp add: runes_def runes_of_ascii)

end
