(* ===== verification/Go_Net.thy ===== *)
theory Go_Net
  imports Go_Strings
begin

text \<open>
  The parts of Go's package \<open>net\<close> (and of \<open>net/netip\<close>, on which it rests) that the sources
  use: IP addresses as byte slices of length 4 or 16, masks, networks, their textual form and
  the parsers. A nil address is the empty slice.
\<close>

subsection \<open>Addresses\<close>

type_synonym ip = bytes

definition v4_in_v6_prefix :: bytes where
  "v4_in_v6_prefix = replicate 10 0 @ [255, 255]"

text \<open>\<open>IP.To4\<close>: the four bytes of an IPv4 address in either form.\<close>

definition To4 :: "ip \<Rightarrow> ip option" where
  "To4 a = (if length a = 4 then Some a
            else if length a = 16 \<and> take 12 a = v4_in_v6_prefix then Some (drop 12 a)
            else None)"

text \<open>\<open>IP.Equal\<close>: an IPv4 address and its IPv6 form are equal.\<close>

definition ip_Equal :: "ip \<Rightarrow> ip \<Rightarrow> bool" where
  "ip_Equal a b =
     (if length a = length b then a = b
      else if length a = 4 \<and> length b = 16 then take 12 b = v4_in_v6_prefix \<and> a = drop 12 b
      else if length a = 16 \<and> length b = 4 then take 12 a = v4_in_v6_prefix \<and> drop 12 a = b
      else False)"

text \<open>The 16-byte form that the parsers return for an IPv4 address.\<close>

definition v4_mapped :: "bytes \<Rightarrow> ip" where
  "v4_mapped a = v4_in_v6_prefix @ a"

subsection \<open>Masks and networks\<close>

text \<open>\<open>net.CIDRMask\<close>: \<open>n\<close> ones followed by zeros, on \<open>l\<close> bytes.\<close>

fun cidr_mask :: "nat \<Rightarrow> nat \<Rightarrow> bytes" where
  "cidr_mask n 0 = []"
| "cidr_mask n (Suc l) =
     (if 8 \<le> n then 255 # cidr_mask (n - 8) l else NOT (drop_bit n 255) # cidr_mask 0 l)"

definition mask_bytes :: "bytes \<Rightarrow> bytes \<Rightarrow> bytes" where
  "mask_bytes m a = map2 (AND) a m"

text \<open>\<open>IP.Mask\<close>, which returns nil for a mask that does not fit.\<close>

definition ip_Mask :: "ip \<Rightarrow> bytes \<Rightarrow> ip" where
  "ip_Mask a m =
     (let m' = (if length m = 16 \<and> length a = 4 \<and> take 12 m = replicate 12 255 then drop 12 m else m);
          a' = (if length m' = 4 \<and> length a = 16 \<and> take 12 a = v4_in_v6_prefix then drop 12 a else a)
      in if length a' = length m' then mask_bytes m' a' else [])"

record ip_net =
  net_IP :: ip
  net_Mask :: bytes

text \<open>\<open>simpleMaskLength\<close>: the number of leading ones, \<open>None\<close> when ones follow a zero.\<close>

fun leading_ones :: "nat \<Rightarrow> byte \<Rightarrow> nat" where
  "leading_ones 0 b = 0"
| "leading_ones (Suc k) b = (if bit b k then Suc (leading_ones k b) else 0)"

fun simple_mask_length :: "bytes \<Rightarrow> nat option" where
  "simple_mask_length [] = Some 0"
| "simple_mask_length (b # bs) =
     (if b = 255 then map_option (\<lambda>n. n + 8) (simple_mask_length bs)
      else if b = NOT (drop_bit (leading_ones 8 b) 255) \<and> (\<forall>c \<in> set bs. c = 0)
      then Some (leading_ones 8 b) else None)"

text \<open>\<open>IPMask.Size\<close>: ones and bits, or 0 and 0 for a mask in no canonical form.\<close>

definition mask_Size :: "bytes \<Rightarrow> nat \<times> nat" where
  "mask_Size m = (case simple_mask_length m of None \<Rightarrow> (0, 0) | Some n \<Rightarrow> (n, 8 * length m))"

definition network_number_and_mask :: "ip_net \<Rightarrow> ip \<times> bytes" where
  "network_number_and_mask n =
     (let a = (case To4 (net_IP n) of Some x \<Rightarrow> x | None \<Rightarrow> net_IP n); m = net_Mask n
      in if length a \<noteq> 4 \<and> length a \<noteq> 16 then ([], [])
         else if length m = 4 then (if length a \<noteq> 4 then ([], []) else (a, m))
         else if length m = 16 then (if length a = 4 then (a, drop 12 m) else (a, m))
         else ([], []))"

definition Contains :: "ip_net \<Rightarrow> ip \<Rightarrow> bool" where
  "Contains n a =
     (let (nn, m) = network_number_and_mask n;
          x = (case To4 a of Some y \<Rightarrow> y | None \<Rightarrow> a)
      in length x = length nn \<and> mask_bytes m nn = mask_bytes m x)"

subsection \<open>Text\<close>

definition hex_digit :: "nat \<Rightarrow> char" where
  "hex_digit d = (if d < 10 then char_of (48 + d) else char_of (87 + d))"

fun hex_of_nat :: "nat \<Rightarrow> string" where
  "hex_of_nat n = (if n < 16 then [hex_digit n] else hex_of_nat (n div 16) @ [hex_digit (n mod 16)])"

declare hex_of_nat.simps [simp del]

definition hex_bytes :: "bytes \<Rightarrow> string" where
  "hex_bytes bs = concat (map (\<lambda>b. [hex_digit (unat b div 16), hex_digit (unat b mod 16)]) bs)"

definition dotted :: "bytes \<Rightarrow> string" where
  "dotted bs = join ''.'' (map (\<lambda>b. dec_of_nat (unat b)) bs)"

fun groups16 :: "bytes \<Rightarrow> nat list" where
  "groups16 (a # b # bs) = (unat a * 256 + unat b) # groups16 bs"
| "groups16 _ = []"

text \<open>
  The longest run of at least two zero groups, the first one of that length, as a pair of its
  start and its end, as \<open>appendTo6\<close> of \<open>netip\<close> finds it.
\<close>

definition zero_run :: "nat list \<Rightarrow> nat \<Rightarrow> nat" where
  "zero_run gs i = length (takeWhile (\<lambda>g. g = 0) (drop i gs))"

definition best_zero_run :: "nat list \<Rightarrow> (nat \<times> nat) option" where
  "best_zero_run gs =
     foldl (\<lambda>best i. let l = zero_run gs i in
              if 2 \<le> l \<and> (case best of None \<Rightarrow> True | Some (s, e) \<Rightarrow> e - s < l)
              then Some (i, i + l) else best)
       None [0..<length gs]"

definition v6_string :: "bytes \<Rightarrow> string" where
  "v6_string a =
     (let gs = groups16 a; hex = (\<lambda>xs. join '':'' (map hex_of_nat xs))
      in case best_zero_run gs of
           None \<Rightarrow> hex gs
         | Some (s, e) \<Rightarrow> hex (take s gs) @ ''::'' @ hex (drop e gs))"

text \<open>\<open>IP.String\<close>.\<close>

definition ip_String :: "ip \<Rightarrow> string" where
  "ip_String a =
     (if a = [] then ''<nil>''
      else if length a \<noteq> 4 \<and> length a \<noteq> 16 then ''?'' @ hex_bytes a
      else (case To4 a of Some b \<Rightarrow> dotted b | None \<Rightarrow> v6_string a))"

text \<open>\<open>IPNet.String\<close>.\<close>

definition net_String :: "ip_net \<Rightarrow> string" where
  "net_String n =
     (let (nn, m) = network_number_and_mask n
      in if nn = [] \<or> m = [] then ''<nil>''
         else (case simple_mask_length m of
                 None \<Rightarrow> ip_String nn @ ''/'' @ hex_bytes m
               | Some l \<Rightarrow> ip_String nn @ ''/'' @ dec_of_nat l))"

subsection \<open>Parsing\<close>

text \<open>One field of a dotted address: digits, no leading zero, at most 255.\<close>

definition parse_octet :: "string \<Rightarrow> byte option" where
  "parse_octet s =
     (if s \<noteq> [] \<and> list_all is_digit s \<and> (length s = 1 \<or> hd s \<noteq> CHR ''0'') \<and> dec_val s \<le> 255
      then Some (of_nat (dec_val s)) else None)"

fun parse_octets :: "string list \<Rightarrow> bytes option" where
  "parse_octets [] = Some []"
| "parse_octets (f # fs) =
     (case parse_octet f of None \<Rightarrow> None
      | Some b \<Rightarrow> map_option (\<lambda>bs. b # bs) (parse_octets fs))"

definition parse_ipv4 :: "string \<Rightarrow> bytes option" where
  "parse_ipv4 s = (let fs = split_on (CHR ''.'') s in if length fs = 4 then parse_octets fs else None)"

definition hex_val :: "char \<Rightarrow> nat option" where
  "hex_val c =
     (let n = of_char c in
      if 48 \<le> n \<and> n \<le> 57 then Some (n - 48)
      else if 97 \<le> n \<and> n \<le> 102 then Some (n - 87)
      else if 65 \<le> n \<and> n \<le> 70 then Some (n - 55)
      else None)"

text \<open>The leading hexadecimal digits of a text, their value and the rest.\<close>

fun hex_prefix :: "string \<Rightarrow> nat \<Rightarrow> nat \<Rightarrow> nat \<times> nat \<times> string" where
  "hex_prefix [] k acc = (k, acc, [])"
| "hex_prefix (c # cs) k acc =
     (case hex_val c of None \<Rightarrow> (k, acc, c # cs)
      | Some d \<Rightarrow> hex_prefix cs (Suc k) (acc * 16 + d))"

text \<open>
  The loop of \<open>parseIPv6\<close>: the bytes read so far, the position of the ellipsis if one was
  seen, and the text left. The first argument bounds the iterations: eight groups at most.
\<close>

fun parse_v6_groups :: "nat \<Rightarrow> bytes \<Rightarrow> nat option \<Rightarrow> string \<Rightarrow> (bytes \<times> nat option \<times> string) option" where
  "parse_v6_groups 0 bs e s = Some (bs, e, s)"
| "parse_v6_groups (Suc n) bs e s =
     (case hex_prefix s 0 0 of (k, acc, rest) \<Rightarrow>
        if k = 0 \<or> 4 < k then None
        else if rest \<noteq> [] \<and> hd rest = CHR ''.'' then
          (if e = None \<and> length bs \<noteq> 12 then None
           else if 16 < length bs + 4 then None
           else (case parse_ipv4 s of None \<Rightarrow> None | Some v \<Rightarrow> Some (bs @ v, e, [])))
        else
          (let bs' = bs @ [of_nat (acc div 256), of_nat (acc mod 256)] in
           case rest of
             [] \<Rightarrow> Some (bs', e, [])
           | c # s2 \<Rightarrow>
               if c \<noteq> CHR '':'' \<or> s2 = [] then None
               else if hd s2 = CHR '':'' then
                 (if e \<noteq> None then None
                  else if tl s2 = [] then Some (bs', Some (length bs'), [])
                  else parse_v6_groups n bs' (Some (length bs')) (tl s2))
               else parse_v6_groups n bs' e s2))"

definition parse_ipv6 :: "string \<Rightarrow> bytes option" where
  "parse_ipv6 s =
     (let lead = prefix ''::'' s; s' = (if lead then drop 2 s else s);
          e0 = (if lead then Some 0 else None)
      in if lead \<and> s' = [] then Some (replicate 16 0)
         else (case parse_v6_groups 8 [] e0 s' of
            None \<Rightarrow> None
          | Some (bs, e, rest) \<Rightarrow>
              if rest \<noteq> [] then None
              else if length bs < 16 then
                (case e of None \<Rightarrow> None
                 | Some i \<Rightarrow> Some (take i bs @ replicate (16 - length bs) 0 @ drop i bs))
              else (case e of None \<Rightarrow> Some bs | Some _ \<Rightarrow> None)))"

text \<open>
  \<open>netip.ParseAddr\<close> for an address without a zone: the first dot or colon decides the family,
  and a zone (a percent sign) is refused by both callers in \<open>net\<close>. The result is the address
  in its own width.
\<close>

definition parse_addr :: "string \<Rightarrow> bytes option" where
  "parse_addr s =
     (if CHR ''%'' \<in> set s then None
      else (case find (\<lambda>c. c = CHR ''.'' \<or> c = CHR '':'') s of
              None \<Rightarrow> None
            | Some c \<Rightarrow> if c = CHR ''.'' then parse_ipv4 s else parse_ipv6 s))"

definition as16 :: "bytes \<Rightarrow> ip" where
  "as16 a = (if length a = 4 then v4_mapped a else a)"

text \<open>\<open>net.ParseIP\<close>: the 16-byte form, nil when the text is no address.\<close>

definition ParseIP :: "string \<Rightarrow> ip option" where
  "ParseIP s = map_option as16 (parse_addr s)"

text \<open>\<open>net.ParseCIDR\<close>: the address in its 16-byte form and the network it lies in.\<close>

definition net_ParseCIDR :: "string \<Rightarrow> (ip \<times> ip_net) option" where
  "net_ParseCIDR s =
     (case cut (CHR ''/'') s of
        None \<Rightarrow> None
      | Some (addr, pl) \<Rightarrow>
          (case parse_addr addr of
             None \<Rightarrow> None
           | Some a \<Rightarrow>
               if pl = [] \<or> \<not> list_all is_digit pl \<or> 8 * length a < dec_val pl then None
               else let m = cidr_mask (dec_val pl) (length a)
                    in Some (as16 a, \<lparr>net_IP = ip_Mask (as16 a) m, net_Mask = m\<rparr>)))"


subsection \<open>IPv4 addresses in either form\<close>

lemma length_v4_prefix [simp]: "length v4_in_v6_prefix = 12"
  by (simp add: v4_in_v6_prefix_def)

lemma length_v4_mapped [simp]: "length (v4_mapped a) = 12 + length a"
  by (simp add: v4_mapped_def)

lemma To4_len4 [simp]: "length a = 4 \<Longrightarrow> To4 a = Some a"
  by (simp add: To4_def)

lemma To4_v4_mapped [simp]: "length a = 4 \<Longrightarrow> To4 (v4_mapped a) = Some a"
  by (simp add: To4_def v4_mapped_def)

lemma To4_length: "To4 a = Some b \<Longrightarrow> length b = 4"
  by (auto simp: To4_def split: if_splits)

text \<open>Every address with a \<open>To4\<close> form is that form or its mapped form.\<close>

lemma To4_SomeE:
  assumes "To4 a = Some b"
  obtains "a = b" "length b = 4" | "a = v4_mapped b" "length b = 4"
proof (cases "length a = 4")
  case True
  with assms that(1) show ?thesis by simp
next
  case False
  with assms have len: "length a = 16" and pre: "take 12 a = v4_in_v6_prefix" and b: "b = drop 12 a"
    by (auto simp: To4_def split: if_splits)
  from pre b have eq: "a = v4_mapped b" by (metis append_take_drop_id v4_mapped_def)
  from len b have "length b = 4" by simp
  with eq show ?thesis by (rule that(2))
qed

lemma ip_Equal_v4:
  assumes "To4 a = Some x" and "To4 b = Some y"
  shows "ip_Equal a b \<longleftrightarrow> x = y"
  using assms by (elim To4_SomeE) (simp_all add: ip_Equal_def v4_mapped_def)

lemma ip_String_v4: "To4 a = Some b \<Longrightarrow> ip_String a = dotted b"
  by (elim To4_SomeE) (auto simp: ip_String_def v4_mapped_def v4_in_v6_prefix_def To4_def)

subsection \<open>Printing and parsing IPv4 addresses\<close>

lemma dotted4: "dotted [a, b, c, d] =
    dec_of_nat (unat a) @ CHR ''.'' # dec_of_nat (unat b) @ CHR ''.'' # dec_of_nat (unat c)
      @ CHR ''.'' # dec_of_nat (unat d)"
  by (simp add: dotted_def)

lemma parse_octet_dec [simp]: "parse_octet (dec_of_nat (unat b)) = Some b"
proof -
  have "length (dec_of_nat (unat b)) = 1 \<or> hd (dec_of_nat (unat b)) \<noteq> CHR ''0''"
  proof (cases "unat b = 0")
    case True
    then show ?thesis by simp
  next
    case False
    then show ?thesis using hd_dec_of_nat by simp
  qed
  then show ?thesis
    using dec_of_nat_digits [of _ "unat b"]
    by (simp add: parse_octet_def list_all_iff)
qed

lemma split_dotted: "split_on (CHR ''.'') (dotted [a, b, c, d]) =
    map (\<lambda>b. dec_of_nat (unat b)) [a, b, c, d]"
  unfolding dotted4 by (simp add: split_on_append split_on_no_sep)

lemma parse_dotted: "length a = 4 \<Longrightarrow> parse_ipv4 (dotted a) = Some a"
  by (elim length4_cases) (simp add: parse_ipv4_def split_dotted)

lemma dotted_inj: "length a = 4 \<Longrightarrow> length b = 4 \<Longrightarrow> dotted a = dotted b \<longleftrightarrow> a = b"
  by (metis option.inject parse_dotted)

lemma dotted_chars: "c \<in> set (dotted a) \<Longrightarrow> is_digit c \<or> c = CHR ''.''"
  unfolding dotted_def
proof (induction a rule: induct_list012)
  case (3 x y zs)
  then show ?case using dec_of_nat_digits by auto
qed (auto dest: dec_of_nat_digits)

lemma dot_in_dotted: "length a = 4 \<Longrightarrow> CHR ''.'' \<in> set (dotted a)"
  by (elim length4_cases) (simp add: dotted4)

lemma parse_addr_dotted:
  assumes "length a = 4"
  shows "parse_addr (dotted a) = Some a"
proof -
  have no: "CHR ''%'' \<notin> set (dotted a)" "CHR '':'' \<notin> set (dotted a)"
    using dotted_chars [of "CHR ''%''" a] dotted_chars [of "CHR '':''" a] by auto
  have "find (\<lambda>c. c = CHR ''.'' \<or> c = CHR '':'') (dotted a) \<noteq> None"
    using dot_in_dotted [OF assms] by (auto simp: find_None_iff)
  then obtain c where c: "find (\<lambda>c. c = CHR ''.'' \<or> c = CHR '':'') (dotted a) = Some c"
    by blast
  from find_SomeD [OF c] no have "c = CHR ''.''" by auto
  with c no assms show ?thesis by (simp add: parse_addr_def parse_dotted)
qed

lemma ParseIP_String_v4: "To4 a = Some b \<Longrightarrow> ParseIP (ip_String a) = Some (v4_mapped b)"
  by (simp add: ip_String_v4 To4_length ParseIP_def parse_addr_dotted as16_def)

lemma ip_String_inj_v4:
  "To4 a = Some x \<Longrightarrow> To4 b = Some y \<Longrightarrow> ip_String a = ip_String b \<longleftrightarrow> x = y"
  by (simp add: ip_String_v4 To4_length dotted_inj)

subsection \<open>Masks as arithmetic\<close>

lemma length_cidr_mask [simp]: "length (cidr_mask n l) = l"
  by (induction l arbitrary: n) simp_all

lemma cidr_mask_0: "cidr_mask 0 l = replicate l 0"
  by (induction l) simp_all

lemma and_net_mask:
  fixes z :: byte
  assumes "n < 8"
  shows "z AND NOT (drop_bit n 255) = push_bit (8 - n) (drop_bit (8 - n) z)"
  unfolding byte_255
proof (rule bit_word_eqI)
  fix k assume "k < LENGTH(8)"
  then show "bit (z AND NOT (drop_bit n (- 1))) k = bit (push_bit (8 - n) (drop_bit (8 - n) z)) k"
    using assms
    by (cases "n + k < 8") (auto simp: bit_simps)
qed

lemma drop_push_drop: "drop_bit k (push_bit k (drop_bit k (x :: byte))) = drop_bit k x"
  by (rule bit_word_eqI) (auto simp: bit_simps dest: bit_imp_le_length)

lemma and_net_mask_eq_iff:
  assumes "n < 8"
  shows "x AND NOT (drop_bit n (255 :: byte)) = y AND NOT (drop_bit n 255) \<longleftrightarrow>
    unat x div 2 ^ (8 - n) = unat y div 2 ^ (8 - n)"
proof -
  have "x AND NOT (drop_bit n (255 :: byte)) = y AND NOT (drop_bit n 255) \<longleftrightarrow>
      drop_bit (8 - n) x = drop_bit (8 - n) y"
    unfolding and_net_mask [OF assms] by (metis drop_push_drop)
  also have "\<dots> \<longleftrightarrow> unat (drop_bit (8 - n) x) = unat (drop_bit (8 - n) y)"
    by (simp add: word_unat_eq_iff)
  also have "\<dots> \<longleftrightarrow> unat x div 2 ^ (8 - n) = unat y div 2 ^ (8 - n)"
    by (metis drop_bit_eq_div unat_drop_bit_eq)
  finally show ?thesis .
qed

lemma mask_bytes_zero: "length xs = l \<Longrightarrow> mask_bytes (replicate l 0) xs = replicate l 0"
  unfolding mask_bytes_def by (induction xs arbitrary: l) auto

lemma be_val_div_high:
  assumes "length xs = l" and "8 \<le> n" and "n \<le> 8 * Suc l"
  shows "be_val (x # xs) div 2 ^ (8 * Suc l - n) =
    unat x * 2 ^ (n - 8) + be_val xs div 2 ^ (8 * l - (n - 8))"
proof -
  let ?D = "2 ^ (8 * l - (n - 8)) :: nat"
  have "(256 :: nat) ^ l = 2 ^ (8 * l)" by (simp add: power_mult)
  also have "8 * l = (n - 8) + (8 * l - (n - 8))" using assms by simp
  finally have pow: "(256 :: nat) ^ l = 2 ^ (n - 8) * ?D" by (metis power_add)
  have "8 * Suc l - n = 8 * l - (n - 8)" using assms by simp
  then show ?thesis using assms(1) by (simp add: pow mult.assoc [symmetric])
qed

lemma be_val_div_low:
  assumes "length xs = l" and "n < 8"
  shows "be_val (x # xs) div 2 ^ (8 * Suc l - n) = unat x div 2 ^ (8 - n)"
proof -
  have "8 * Suc l - n = 8 * l + (8 - n)" using assms by simp
  then have "(2 :: nat) ^ (8 * Suc l - n) = 256 ^ l * 2 ^ (8 - n)"
    by (simp add: power_add power_mult)
  moreover have "be_val (x # xs) div 256 ^ l = unat x"
    using be_val_less [of xs] assms by simp
  ultimately show ?thesis by (simp only: div_mult2_eq)
qed

text \<open>
  Two addresses agree under a prefix mask exactly when their numbers agree after the host
  bits are cut off.
\<close>

lemma mask_bytes_eq_iff:
  assumes "length xs = l" and "length ys = l" and "n \<le> 8 * l"
  shows "mask_bytes (cidr_mask n l) xs = mask_bytes (cidr_mask n l) ys \<longleftrightarrow>
    be_val xs div 2 ^ (8 * l - n) = be_val ys div 2 ^ (8 * l - n)"
  using assms
proof (induction l arbitrary: n xs ys)
  case 0
  then show ?case by simp
next
  case (Suc l)
  then obtain x xs' y ys' where xy: "xs = x # xs'" "ys = y # ys'"
    and len: "length xs' = l" "length ys' = l"
    by (metis length_Suc_conv)
  show ?case
  proof (cases "8 \<le> n")
    case True
    let ?D = "2 ^ (8 * l - (n - 8)) :: nat"
    have "(256 :: nat) ^ l = 2 ^ (8 * l)" by (simp add: power_mult)
    also have "\<dots> = 2 ^ (n - 8) * ?D"
      using True Suc.prems(3) by (simp flip: power_add)
    finally have "be_val xs' div ?D < 2 ^ (n - 8)" "be_val ys' div ?D < 2 ^ (n - 8)"
      using be_val_less [of xs'] be_val_less [of ys'] len
      by (simp_all add: less_mult_imp_div_less)
    moreover have "n - 8 \<le> 8 * l" using Suc.prems(3) by simp
    ultimately show ?thesis
      using True len Suc.IH [OF len, of "n - 8"] be_val_div_high [OF len(1) True Suc.prems(3), of x]
        be_val_div_high [OF len(2) True Suc.prems(3), of y]
      unfolding xy by (simp add: mask_bytes_def mult_add_eq_iff word_unat_eq_iff del: be_val.simps)
  next
    case False
    then show ?thesis
      using len and_net_mask_eq_iff [of n x y] be_val_div_low [OF len(1), of n x]
        be_val_div_low [OF len(2), of n y] mask_bytes_zero [OF len(1)] mask_bytes_zero [OF len(2)]
      unfolding xy by (simp add: mask_bytes_def cidr_mask_0 del: be_val.simps)
  qed
qed

text \<open>The network \<open>a/n\<close> of an IPv4 address, as \<open>ParseCIDR\<close> builds it.\<close>

definition v4_net :: "bytes \<Rightarrow> nat \<Rightarrow> ip_net" where
  "v4_net a n = \<lparr>net_IP = mask_bytes (cidr_mask n 4) a, net_Mask = cidr_mask n 4\<rparr>"

lemma length_mask_bytes [simp]: "length (mask_bytes m a) = min (length a) (length m)"
  by (simp add: mask_bytes_def)

lemma mask_bytes_idem: "mask_bytes m (mask_bytes m a) = mask_bytes m a"
  unfolding mask_bytes_def by (induction a arbitrary: m) (auto simp: zip_Cons1 and.assoc split: list.splits)

lemma Contains_v4_net:
  assumes "length a = 4" and "n \<le> 32" and "To4 b = Some c"
  shows "Contains (v4_net a n) b \<longleftrightarrow> be_val c div 2 ^ (32 - n) = be_val a div 2 ^ (32 - n)"
proof -
  have "Contains (v4_net a n) b \<longleftrightarrow> mask_bytes (cidr_mask n 4) a = mask_bytes (cidr_mask n 4) c"
    using assms To4_length [OF assms(3)]
    by (simp add: Contains_def v4_net_def network_number_and_mask_def mask_bytes_idem Let_def)
  then show ?thesis
    using mask_bytes_eq_iff [of a 4 c n] assms To4_length [OF assms(3)] by auto
qed

lemma net_mask_byte: "\<forall>n \<in> set [0..<8]. leading_ones 8 (NOT (drop_bit n (255 :: byte))) = n
    \<and> NOT (drop_bit n (255 :: byte)) \<noteq> 255"
  by code_simp

lemma simple_mask_length_cidr: "n \<le> 8 * l \<Longrightarrow> simple_mask_length (cidr_mask n l) = Some n"
proof (induction l arbitrary: n)
  case (Suc l)
  show ?case
  proof (cases "8 \<le> n")
    case True
    with Suc show ?thesis by simp
  next
    case False
    then have "n \<in> set [0..<8]" by simp
    with net_mask_byte False show ?thesis by (auto simp: cidr_mask_0)
  qed
qed simp

lemma ParseCIDR_dotted:
  assumes "length a = 4" and "n \<le> 32"
  shows "net_ParseCIDR (dotted a @ CHR ''/'' # dec_of_nat n) = Some (v4_mapped a, v4_net a n)"
proof -
  have "CHR ''/'' \<notin> set (dotted a)" using dotted_chars [of "CHR ''/''" a] by auto
  moreover have "list_all is_digit (dec_of_nat n)"
    using dec_of_nat_digits by (auto simp: list_all_iff)
  moreover have "ip_Mask (v4_mapped a) (cidr_mask n 4) = mask_bytes (cidr_mask n 4) a"
    using assms(1) by (simp add: ip_Mask_def v4_mapped_def)
  ultimately show ?thesis
    using assms by (simp add: net_ParseCIDR_def cut_append parse_addr_dotted as16_def v4_net_def Let_def)
qed

lemma net_String_v4_net:
  assumes "length a = 4" and "n \<le> 32"
  shows "net_String (v4_net a n) = dotted (mask_bytes (cidr_mask n 4) a) @ CHR ''/'' # dec_of_nat n"
proof -
  let ?m = "mask_bytes (cidr_mask n 4) a"
  have "To4 ?m = Some ?m" using assms by simp
  moreover have "?m \<noteq> []" "cidr_mask n 4 \<noteq> []"
    using assms by (auto simp flip: length_greater_0_conv)
  ultimately show ?thesis
    using assms simple_mask_length_cidr [of n 4]
    by (simp add: net_String_def v4_net_def network_number_and_mask_def ip_String_v4 Let_def)
qed

lemma mask_Size_cidr: "n \<le> 32 \<Longrightarrow> mask_Size (cidr_mask n 4) = (n, 32)"
  using simple_mask_length_cidr [of n 4] by (simp add: mask_Size_def)

end
