(* ===== verification/Cni_Types.thy ===== *)
theory Cni_Types
  imports Go_Net
begin

text \<open>
  The data model of \<open>pkg/cni/types.go\<close>: the provider's configuration, allocated networks with
  their node attachments and service VIPs, and IP pools. Locks are left out: every operation
  of the package holds its lock from its first access to the shared state to its return, so
  an operation is one step. Timestamps are integers (nanoseconds).
\<close>

type_synonym time = int

definition DefaultCNIVersion :: string where "DefaultCNIVersion = ''1.0.0''"
definition DefaultBridgeName :: string where "DefaultBridgeName = ''cni0''"
definition DefaultVXLANPort :: uint32 where "DefaultVXLANPort = 4789"
definition DefaultSubnetPool :: string where "DefaultSubnetPool = ''10.0.0.0/8''"
definition DefaultSubnetSize :: int where "DefaultSubnetSize = 24"
definition IngressNetworkName :: string where "IngressNetworkName = ''ingress''"
definition GWBridgeNetworkName :: string where "GWBridgeNetworkName = ''docker_gwbridge''"
definition DefaultPluginDir :: string where "DefaultPluginDir = ''/opt/cni/bin''"
definition DefaultConfigDir :: string where "DefaultConfigDir = ''/etc/cni/net.d''"

record cni_config =
  cfg_BridgeName :: string
  cfg_SubnetPool :: string
  cfg_SubnetSize :: int
  cfg_VXLANPort :: uint32
  cfg_IPAMType :: string
  cfg_PluginDir :: string
  cfg_ConfigDir :: string
  cfg_EnableIPMasq :: bool

definition DefaultCNIConfig :: cni_config where
  "DefaultCNIConfig = \<lparr>
     cfg_BridgeName = DefaultBridgeName,
     cfg_SubnetPool = DefaultSubnetPool,
     cfg_SubnetSize = DefaultSubnetSize,
     cfg_VXLANPort = DefaultVXLANPort,
     cfg_IPAMType = ''host-local'',
     cfg_PluginDir = DefaultPluginDir,
     cfg_ConfigDir = DefaultConfigDir,
     cfg_EnableIPMasq = True\<rparr>"

record node_attachment =
  att_NodeID :: string
  att_NetworkID :: string
  att_IPAddress :: ip
  att_MACAddress :: string
  att_VXLANVNI :: uint32
  att_AllocatedAt :: time

record published_port =
  pp_Port :: uint32
  pp_PublishedPort :: uint32
  pp_Protocol :: string
  pp_PublishMode :: string

record service_vip =
  vip_ServiceID :: string
  vip_NetworkID :: string
  vip_VIP :: ip
  vip_PublishedPorts :: "published_port list"
  vip_AllocatedAt :: time

record allocated_network =
  an_ID :: string
  an_Name :: string
  an_Driver :: string
  an_Subnet :: ip_net
  an_Gateway :: ip
  an_VXLANID :: uint32
  an_BridgeName :: string
  an_Ingress :: bool
  an_Attachments :: "string \<rightharpoonup> node_attachment"
  an_Services :: "string \<rightharpoonup> service_vip"
  an_CreatedAt :: time

record ip_pool =
  pool_Subnet :: ip_net
  pool_Gateway :: ip
  pool_UsedIPs :: "string \<rightharpoonup> string"
  pool_ReservedIPs :: "ip list"
  pool_NextIP :: ip

end
