(* ===== verification/Addr_Table.thy ===== *)
theory Addr_Table
  imports Prelude
begin

text \<open>
  The interface between the allocators of addresses and their clients. A table hands out
  addresses to owners and takes them back; it is observed through \<open>held\<close>, the map from the
  key of an address to the tag of the owner that holds it. The locale states what a table
  promises; the lemmas inside it follow for every run of operations. The IPAM manager of
  \<open>pkg/cni\<close> and the static allocator of \<open>pkg/network\<close> both interpret it.
\<close>

datatype ('o, 'a) table_op = Alloc 'o | Release 'a

text \<open>A run of operations, a refused allocation leaving the state as it is.\<close>

fun table_step ::
    "('o \<Rightarrow> 's \<Rightarrow> ('a \<times> 's) option) \<Rightarrow> ('a \<Rightarrow> 's \<Rightarrow> 's) \<Rightarrow> ('o, 'a) table_op \<Rightarrow> 's \<Rightarrow> 's" where
  "table_step al rl (Alloc w) s = (case al w s of None \<Rightarrow> s | Some (a, s') \<Rightarrow> s')"
| "table_step al rl (Release a) s = rl a s"

fun table_run ::
    "('o \<Rightarrow> 's \<Rightarrow> ('a \<times> 's) option) \<Rightarrow> ('a \<Rightarrow> 's \<Rightarrow> 's) \<Rightarrow> ('o, 'a) table_op list \<Rightarrow> 's \<Rightarrow> 's" where
  "table_run al rl [] s = s"
| "table_run al rl (x # xs) s = table_run al rl xs (table_step al rl x s)"

locale addr_table =
  fixes inv :: "'s \<Rightarrow> bool"
    and held :: "'s \<Rightarrow> 'k \<rightharpoonup> 'w"
    and blocked :: "'s \<Rightarrow> 'k set"
    and key :: "'a \<Rightarrow> 'k"
    and tag :: "'o \<Rightarrow> 'w"
    and alloc :: "'o \<Rightarrow> 's \<Rightarrow> ('a \<times> 's) option"
    and release :: "'a \<Rightarrow> 's \<Rightarrow> 's"
  assumes alloc_held: "inv s \<Longrightarrow> alloc w s = Some (a, s') \<Longrightarrow> held s' = (held s)(key a \<mapsto> tag w)"
    and alloc_free: "inv s \<Longrightarrow> alloc w s = Some (a, s') \<Longrightarrow> held s (key a) \<in> {None, Some (tag w)}"
    and alloc_not_blocked: "inv s \<Longrightarrow> alloc w s = Some (a, s') \<Longrightarrow> held s (key a) = None \<Longrightarrow> key a \<notin> blocked s"
    and alloc_inv: "inv s \<Longrightarrow> alloc w s = Some (a, s') \<Longrightarrow> inv s' \<and> blocked s' = blocked s"
    and release_held: "inv s \<Longrightarrow> held (release a s) = (held s)(key a := None)"
    and release_inv: "inv s \<Longrightarrow> inv (release a s) \<and> blocked (release a s) = blocked s"
begin

lemma step_inv:
  "inv s \<Longrightarrow> inv (table_step alloc release x s) \<and> blocked (table_step alloc release x s) = blocked s"
  using alloc_inv release_inv by (cases x) (auto split: option.splits)

lemma run_inv:
  "inv s \<Longrightarrow> inv (table_run alloc release xs s) \<and> blocked (table_run alloc release xs s) = blocked s"
  by (induction xs arbitrary: s) (simp_all add: step_inv)

lemma step_owner_keeps:
  assumes "inv s" and "held s k = Some v" and "\<forall>a. key a = k \<longrightarrow> x \<noteq> Release a"
  shows "held (table_step alloc release x s) k = Some v"
proof (cases x)
  case (Alloc w)
  show ?thesis
  proof (cases "alloc w s")
    case None
    with Alloc assms show ?thesis by simp
  next
    case (Some r)
    obtain a s' where r: "alloc w s = Some (a, s')" using Some by (metis surj_pair)
    from alloc_held [OF assms(1) r] alloc_free [OF assms(1) r] assms(2)
    have "held s' k = Some v" by (cases "k = key a") auto
    with Alloc r show ?thesis by simp
  qed
next
  case (Release a)
  with assms show ?thesis by (auto simp: release_held)
qed

text \<open>An owner keeps an address until the address is released.\<close>

lemma owner_keeps:
  assumes "inv s" and "held s k = Some v" and "\<forall>a. key a = k \<longrightarrow> Release a \<notin> set xs"
  shows "held (table_run alloc release xs s) k = Some v"
  using assms
proof (induction xs arbitrary: s)
  case (Cons x xs)
  have "\<forall>a. key a = k \<longrightarrow> x \<noteq> Release a" using Cons.prems(3) by auto
  with Cons.prems have "held (table_step alloc release x s) k = Some v"
    by (intro step_owner_keeps)
  then show ?case using Cons.IH Cons.prems step_inv by simp
qed simp

lemma step_blocked:
  assumes "inv s" and "\<forall>k \<in> blocked s. held s k = None" and "k \<in> blocked s"
  shows "held (table_step alloc release x s) k = None"
proof (cases x)
  case (Alloc w)
  show ?thesis
  proof (cases "alloc w s")
    case None
    with Alloc assms show ?thesis by simp
  next
    case (Some r)
    obtain a s' where r: "alloc w s = Some (a, s')" using Some by (metis surj_pair)
    have "k \<noteq> key a" using alloc_not_blocked [OF assms(1) r] assms by auto
    with alloc_held [OF assms(1) r] assms Alloc r show ?thesis by simp
  qed
next
  case (Release a)
  with assms show ?thesis by (auto simp: release_held)
qed

text \<open>A blocked key is never held, when none was at the start.\<close>

lemma blocked_never_held:
  assumes "inv s" and "\<forall>k \<in> blocked s. held s k = None"
  shows "\<forall>k \<in> blocked s. held (table_run alloc release xs s) k = None"
  using assms
proof (induction xs arbitrary: s)
  case (Cons x xs)
  have "\<forall>k \<in> blocked (table_step alloc release x s). held (table_step alloc release x s) k = None"
    using step_blocked [OF Cons.prems] step_inv [OF Cons.prems(1)] by simp
  then show ?case using Cons.IH step_inv [OF Cons.prems(1)] by fastforce
qed simp

end

text \<open>A table that only hands out addresses nobody holds.\<close>

locale fresh_addr_table = addr_table +
  assumes alloc_fresh: "inv s \<Longrightarrow> alloc w s = Some (a, s') \<Longrightarrow> held s (key a) = None"
begin

text \<open>While an address is not released, no later allocation returns it again.\<close>

lemma alloc_again_differs:
  assumes "inv s" and "alloc w s = Some (a, s')" and "\<forall>c. key c = key a \<longrightarrow> Release c \<notin> set xs"
    and "alloc v (table_run alloc release xs s') = Some (b, s'')"
  shows "key b \<noteq> key a"
proof -
  have inv': "inv s'" using alloc_inv [OF assms(1,2)] by simp
  have "held s' (key a) = Some (tag w)" using alloc_held [OF assms(1,2)] by simp
  then have "held (table_run alloc release xs s') (key a) = Some (tag w)"
    using owner_keeps [OF inv' _ assms(3)] by blast
  moreover have "held (table_run alloc release xs s') (key b) = None"
    using alloc_fresh [OF _ assms(4)] run_inv [OF inv'] by blast
  ultimately show ?thesis by auto
qed

end

end
