(* ===== verification/Cni_Ipam.thy ===== *)
theory Cni_Ipam
  imports Cni_Types Addr_Table
begin

text \<open>
  The IPAM manager of \<open>pkg/cni/ipam.go\<close>: a map from subnets to IP pools, and the allocation
  of node and task addresses (upwards from the gateway) and of service VIPs (downwards from
  the top of the subnet). An operation returns its result and the new state.
\<close>

subsection \<open>The next and the previous address\<close>

text \<open>The loops of \<open>incrementIP\<close> and \<open>decrementIP\<close>, on the bytes from the last to the first.\<close>

fun inc_bytes :: "bytes \<Rightarrow> bytes" where
  "inc_bytes [] = []"
| "inc_bytes (b # bs) = (let b' = b + 1 in if b' \<noteq> 0 then b' # bs else b' # inc_bytes bs)"

definition incrementIP :: "ip \<Rightarrow> ip" where
  "incrementIP a = rev (inc_bytes (rev a))"

fun dec_bytes :: "bytes \<Rightarrow> bytes" where
  "dec_bytes [] = []"
| "dec_bytes (b # bs) = (let b' = b - 1 in if b' \<noteq> 255 then b' # bs else b' # dec_bytes bs)"

definition decrementIP :: "ip \<Rightarrow> ip" where
  "decrementIP a = rev (dec_bytes (rev a))"

definition isReserved :: "ip_pool \<Rightarrow> ip \<Rightarrow> bool" where
  "isReserved pool a = list_ex (\<lambda>r. ip_Equal a r) (pool_ReservedIPs pool)"

text \<open>
  The start of the VIP range. The offset is a signed 64-bit number; the loop adds its base-256
  digits to the bytes of the address, from the last to the first, while it is positive.
\<close>

fun add_offset :: "bytes \<Rightarrow> int \<Rightarrow> bytes" where
  "add_offset [] off = []"
| "add_offset (b # bs) off =
     (if 0 < off then (b + of_int (off mod 256)) # add_offset bs (off div 256) else b # bs)"

definition getVIPRangeStart :: "ip_net \<Rightarrow> ip" where
  "getVIPRangeStart subnet =
     (let (ones, nbits) = mask_Size (net_Mask subnet);
          hostBits = nbits - ones;
          subnetSize = sint (push_bit hostBits 1 :: int64);
          vipOffset = subnetSize - 17
      in case To4 (net_IP subnet) of
           None \<Rightarrow> []
         | Some baseIP \<Rightarrow> rev (add_offset (rev baseIP) vipOffset))"

subsection \<open>The manager\<close>

record ipam_manager =
  pools :: "string \<rightharpoonup> ip_pool"
  ipam_config :: cni_config

datatype ipam_error =
    InvalidSubnet string
  | PoolNotFound string
  | IPExhaustion string
  | VIPExhaustion string
  | IPNotAllocated string

definition NewIPAMManager :: "cni_config option \<Rightarrow> ipam_manager" where
  "NewIPAMManager config =
     \<lparr>pools = Map.empty,
      ipam_config = (case config of None \<Rightarrow> DefaultCNIConfig | Some c \<Rightarrow> c)\<rparr>"

text \<open>The wrapper \<open>ParseCIDR\<close> of \<open>pkg/cni/config.go\<close>: the network first, then the address.\<close>

definition ParseCIDR :: "string \<Rightarrow> (string, ip_net \<times> ip) res" where
  "ParseCIDR cidr =
     (case net_ParseCIDR cidr of None \<Rightarrow> Inl cidr | Some (a, n) \<Rightarrow> Inr (n, a))"

definition CreatePool ::
    "string \<Rightarrow> ip option \<Rightarrow> ipam_manager \<Rightarrow> (ipam_error, ip_pool) res \<times> ipam_manager" where
  "CreatePool subnetCIDR gatewayIP m =
     (case pools m subnetCIDR of
        Some pool \<Rightarrow> (Inr pool, m)
      | None \<Rightarrow>
          (case ParseCIDR subnetCIDR of
             Inl e \<Rightarrow> (Inl (InvalidSubnet e), m)
           | Inr (subnet, a) \<Rightarrow>
               let gw = (case gatewayIP of None \<Rightarrow> incrementIP a | Some g \<Rightarrow> g);
                   pool = \<lparr>pool_Subnet = subnet, pool_Gateway = gw, pool_UsedIPs = Map.empty,
                           pool_ReservedIPs = [gw], pool_NextIP = incrementIP gw\<rparr>
               in (Inr pool, m\<lparr>pools := (pools m)(subnetCIDR \<mapsto> pool)\<rparr>)))"

text \<open>The condition under which both allocation loops take an address.\<close>

definition ip_available :: "ip_pool \<Rightarrow> ip \<Rightarrow> bool" where
  "ip_available pool a \<longleftrightarrow> pool_UsedIPs pool (ip_String a) = None \<and> \<not> isReserved pool a"

text \<open>
  The candidate after \<open>a\<close>: the next address, or the one after the gateway when that lies past
  the subnet.
\<close>

definition next_candidate :: "ip_pool \<Rightarrow> ip \<Rightarrow> ip" where
  "next_candidate pool a =
     (let a' = incrementIP a
      in if Contains (pool_Subnet pool) a' then a' else incrementIP (pool_Gateway pool))"

text \<open>The search loop of \<open>AllocateIP\<close>; the first argument is the number of attempts left.\<close>

fun find_ip :: "ip_pool \<Rightarrow> nat \<Rightarrow> ip \<Rightarrow> ip option" where
  "find_ip pool 0 a = None"
| "find_ip pool (Suc k) a =
     (if ip_available pool a then Some a else find_ip pool k (next_candidate pool a))"

definition maxAttempts :: nat where "maxAttempts = 256"

definition take_ip :: "string \<Rightarrow> ip \<Rightarrow> ip_pool \<Rightarrow> ip_pool" where
  "take_ip ownerID a pool =
     pool\<lparr>pool_UsedIPs := (pool_UsedIPs pool)(ip_String a \<mapsto> ownerID), pool_NextIP := incrementIP a\<rparr>"

definition AllocateIP ::
    "string \<Rightarrow> string \<Rightarrow> ipam_manager \<Rightarrow> (ipam_error, ip) res \<times> ipam_manager" where
  "AllocateIP subnetCIDR ownerID m =
     (case pools m subnetCIDR of
        None \<Rightarrow> (Inl (PoolNotFound subnetCIDR), m)
      | Some pool \<Rightarrow>
          (case find_ip pool maxAttempts (pool_NextIP pool) of
             None \<Rightarrow> (Inl (IPExhaustion subnetCIDR), m)
           | Some a \<Rightarrow> (Inr a, m\<lparr>pools := (pools m)(subnetCIDR \<mapsto> take_ip ownerID a pool)\<rparr>)))"

definition ReleaseIP ::
    "ip \<Rightarrow> string \<Rightarrow> ipam_manager \<Rightarrow> (ipam_error, unit) res \<times> ipam_manager" where
  "ReleaseIP a subnetCIDR m =
     (case pools m subnetCIDR of
        None \<Rightarrow> (Inl (PoolNotFound subnetCIDR), m)
      | Some pool \<Rightarrow>
          (case pool_UsedIPs pool (ip_String a) of
             None \<Rightarrow> (Inl (IPNotAllocated (ip_String a)), m)
           | Some _ \<Rightarrow>
               (Inr (), m\<lparr>pools := (pools m)(subnetCIDR \<mapsto>
                  pool\<lparr>pool_UsedIPs := (pool_UsedIPs pool)(ip_String a := None)\<rparr>)\<rparr>)))"

text \<open>
  \<open>GetPoolStats\<close>: the addresses in use and the size of the subnet less the network, the
  broadcast and the reserved addresses.
\<close>

definition GetPoolStats :: "string \<Rightarrow> ipam_manager \<Rightarrow> (ipam_error, nat \<times> int) res" where
  "GetPoolStats subnetCIDR m =
     (case pools m subnetCIDR of
        None \<Rightarrow> Inl (PoolNotFound subnetCIDR)
      | Some pool \<Rightarrow>
          let (ones, nbits) = mask_Size (net_Mask (pool_Subnet pool));
              total = sint (push_bit (nbits - ones) 1 :: int64) - 2 - int (length (pool_ReservedIPs pool))
          in Inr (card (dom (pool_UsedIPs pool)), total))"

text \<open>\<open>ListPools\<close>: the subnets, in the order \<open>ks\<close> in which the runtime iterates over the map.\<close>

definition ListPools :: "string list \<Rightarrow> ipam_manager \<Rightarrow> string list" where
  "ListPools ks m = filter (\<lambda>k. pools m k \<noteq> None) ks"

fun find_vip :: "ip_pool \<Rightarrow> nat \<Rightarrow> ip \<Rightarrow> ip option" where
  "find_vip pool 0 a = None"
| "find_vip pool (Suc k) a = (if ip_available pool a then Some a else find_vip pool k (decrementIP a))"

definition maxVIPAttempts :: nat where "maxVIPAttempts = 16"

definition AllocateVIP ::
    "string \<Rightarrow> string \<Rightarrow> ipam_manager \<Rightarrow> (ipam_error, ip) res \<times> ipam_manager" where
  "AllocateVIP subnetCIDR serviceID m =
     (case pools m subnetCIDR of
        None \<Rightarrow> (Inl (PoolNotFound subnetCIDR), m)
      | Some pool \<Rightarrow>
          (case find_vip pool maxVIPAttempts (getVIPRangeStart (pool_Subnet pool)) of
             None \<Rightarrow> (Inl (VIPExhaustion subnetCIDR), m)
           | Some a \<Rightarrow>
               (Inr a, m\<lparr>pools := (pools m)(subnetCIDR \<mapsto>
                  pool\<lparr>pool_UsedIPs := (pool_UsedIPs pool)(ip_String a \<mapsto> ''vip:'' @ serviceID)\<rparr>)\<rparr>)))"

definition ReleaseVIP ::
    "ip \<Rightarrow> string \<Rightarrow> string \<Rightarrow> ipam_manager \<Rightarrow> (ipam_error, unit) res \<times> ipam_manager" where
  "ReleaseVIP vip subnetCIDR serviceID m = ReleaseIP vip subnetCIDR m"

definition GetAllocationOwner :: "ip \<Rightarrow> string \<Rightarrow> ipam_manager \<Rightarrow> (ipam_error, string) res" where
  "GetAllocationOwner a subnetCIDR m =
     (case pools m subnetCIDR of
        None \<Rightarrow> Inl (PoolNotFound subnetCIDR)
      | Some pool \<Rightarrow>
          (case pool_UsedIPs pool (ip_String a) of
             None \<Rightarrow> Inl (IPNotAllocated (ip_String a))
           | Some owner \<Rightarrow> Inr owner))"

text \<open>\<open>CleanupStaleAllocations\<close> removes nothing and reports 0 on every path.\<close>

definition CleanupStaleAllocations :: "string \<Rightarrow> int \<Rightarrow> ipam_manager \<Rightarrow> nat \<times> ipam_manager" where
  "CleanupStaleAllocations subnetCIDR olderThan m =
     (case pools m subnetCIDR of None \<Rightarrow> (0, m) | Some _ \<Rightarrow> (0, m))"


subsection \<open>Address arithmetic\<close>

lemma length_inc_bytes [simp]: "length (inc_bytes bs) = length bs"
  by (induction bs) (simp_all add: Let_def)

lemma length_dec_bytes [simp]: "length (dec_bytes bs) = length bs"
  by (induction bs) (simp_all add: Let_def)

lemma length_incrementIP [simp]: "length (incrementIP a) = length a"
  by (simp add: incrementIP_def)

lemma length_decrementIP [simp]: "length (decrementIP a) = length a"
  by (simp add: decrementIP_def)

lemma be_val_rev_Cons: "be_val (rev (b # bs)) = be_val (rev bs) * 256 + unat b"
  by (simp add: be_val_append)

lemma be_val_rev_less: "be_val (rev bs) < 256 ^ length bs"
  using be_val_less [of "rev bs"] by simp

lemma byte_plus_1: "unat ((b :: byte) + 1) = (if unat b = 255 then 0 else unat b + 1)"
  by (auto simp: unat_word_ariths intro!: mod_less le_neq_implies_less)

lemma unat_byte_minus_1 [simp]: "unat (- 1 :: byte) = 255"
proof -
  have "unat (255 :: byte) = 255" by simp
  then show ?thesis unfolding byte_255 .
qed

lemma byte_minus_1: "unat ((b :: byte) - 1) = (if unat b = 0 then 255 else unat b - 1)"
proof (cases "unat b = 0")
  case True
  then have "b = 0" by (simp add: unat_eq_zero)
  then show ?thesis by simp
next
  case False
  then show ?thesis by (metis unat_0 unat_minus_one)
qed

lemma byte_eq_iff_unat: "(b :: byte) = 0 \<longleftrightarrow> unat b = 0" "(b :: byte) = 255 \<longleftrightarrow> unat b = 255"
  by (simp_all add: word_unat_eq_iff)

lemma be_val_inc_bytes:
  "be_val (rev (inc_bytes bs)) = (be_val (rev bs) + 1) mod 256 ^ length bs"
proof (induction bs)
  case (Cons b bs)
  let ?v = "be_val (rev bs)" and ?M = "256 ^ length bs :: nat"
  have v: "?v < ?M" by (rule be_val_rev_less)
  show ?case
  proof (cases "unat b = 255")
    case True
    then have "b + 1 = 0" by (simp add: byte_eq_iff_unat byte_plus_1)
    then have "be_val (rev (inc_bytes (b # bs))) = (?v + 1) mod ?M * 256"
      using Cons by (simp add: be_val_append)
    also have "\<dots> = ((?v + 1) * 256) mod (?M * 256)"
      by (simp add: mult_mod_left)
    finally show ?thesis using True by (simp add: be_val_append algebra_simps)
  next
    case False
    then have nz: "b + 1 \<noteq> 0" and u: "unat (b + 1) = unat b + 1"
      by (simp_all add: byte_eq_iff_unat byte_plus_1)
    have "unat b + 1 \<le> 255" using False byte_le_255 [of b] by linarith
    then have "?v * 256 + unat b + 1 < ?M * 256" using v by linarith
    then show ?thesis using nz u by (simp add: be_val_append)
  qed
qed simp

lemma be_val_incrementIP: "be_val (incrementIP a) = (be_val a + 1) mod 256 ^ length a"
  using be_val_inc_bytes [of "rev a"] by (simp add: incrementIP_def)

lemma be_val_dec_bytes:
  "be_val (rev (dec_bytes bs)) = (be_val (rev bs) + (256 ^ length bs - 1)) mod 256 ^ length bs"
proof (induction bs)
  case (Cons b bs)
  let ?v = "be_val (rev bs)" and ?M = "256 ^ length bs :: nat"
  have v: "?v < ?M" by (rule be_val_rev_less)
  show ?case
  proof (cases "unat b = 0")
    case True
    then have m: "b - 1 = 255" by (simp add: byte_eq_iff_unat byte_minus_1)
    have "be_val (rev (dec_bytes (b # bs))) = (?v + (?M - 1)) mod ?M * 256 + 255"
      using Cons m by (simp add: be_val_append)
    also have "\<dots> = (?v * 256 + (?M * 256 - 1)) mod (?M * 256)"
    proof (cases "?v = 0")
      case True
      then show ?thesis using v by (cases ?M) simp_all
    next
      case False
      then have "(?v + (?M - 1)) mod ?M = ?v - 1"
        using v mod_add_self2 [of "?v - 1" ?M] by simp
      moreover have "(?v * 256 + (?M * 256 - 1)) mod (?M * 256) = ?v * 256 - 1"
        using v False mod_add_self2 [of "?v * 256 - 1" "?M * 256"] by simp
      ultimately show ?thesis using False by simp
    qed
    finally show ?thesis using True by (simp add: be_val_append mult.commute)
  next
    case False
    then have u: "unat (b - 1) = unat b - 1" by (simp add: byte_minus_1)
    have "unat b - 1 \<noteq> 255" using byte_lt_256 [of b] by linarith
    then have nz: "b - 1 \<noteq> 255" using u by (metis byte_eq_iff_unat(2))
    have "?v * 256 + unat b - 1 < ?M * 256" using v byte_lt_256 [of b] False by linarith
    then have "(?v * 256 + unat b + (?M * 256 - 1)) mod (?M * 256) = ?v * 256 + (unat b - 1)"
      using v False mod_add_self2 [of "?v * 256 + unat b - 1" "?M * 256"] by simp
    then show ?thesis using nz u by (simp add: be_val_append mult.commute)
  qed
qed simp

lemma be_val_decrementIP:
  "be_val (decrementIP a) = (be_val a + (256 ^ length a - 1)) mod 256 ^ length a"
  using be_val_dec_bytes [of "rev a"] by (simp add: decrementIP_def)


lemma decrementIP_incrementIP: "decrementIP (incrementIP a) = a"
proof -
  let ?M = "256 ^ length a :: nat"
  have less: "be_val a < ?M" by (rule be_val_less)
  have "be_val (decrementIP (incrementIP a)) = ((be_val a + 1) mod ?M + (?M - 1)) mod ?M"
    by (simp add: be_val_decrementIP be_val_incrementIP)
  also have "\<dots> = (be_val a + 1 + (?M - 1)) mod ?M" by (rule mod_add_left_eq)
  also have "\<dots> = be_val a" using less by simp
  finally show ?thesis by (simp add: be_val_inj)
qed

text \<open>Below the last IPv4 address, the successor of an IPv4 address in either form is the next one.\<close>

lemma To4_incrementIP:
  assumes "To4 a = Some b" and "be_val b + 1 < 2 ^ 32"
  shows "To4 (incrementIP a) = Some (incrementIP b)" and "be_val (incrementIP b) = be_val b + 1"
proof -
  have len: "length b = 4" using assms(1) by (rule To4_length)
  then show val: "be_val (incrementIP b) = be_val b + 1"
    using assms(2) by (simp add: be_val_incrementIP)
  have map: "incrementIP (v4_mapped b) = v4_mapped (incrementIP b)"
  proof -
    have "be_val (v4_mapped b) = be_val v4_in_v6_prefix * 256 ^ 4 + be_val b"
      using len by (simp add: v4_mapped_def be_val_append)
    moreover have "be_val v4_in_v6_prefix < 256 ^ 12"
      using be_val_less [of v4_in_v6_prefix] by simp
    then have "be_val v4_in_v6_prefix * 256 ^ 4 + 256 ^ 4 \<le> (256 :: nat) ^ 16" by simp
    ultimately have "be_val (v4_mapped b) + 1 < 256 ^ 16" using assms(2) by simp
    then have "be_val (incrementIP (v4_mapped b)) = be_val (v4_mapped b) + 1"
      using len by (simp add: be_val_incrementIP)
    also have "\<dots> = be_val (v4_mapped (incrementIP b))"
      using val len by (simp add: v4_mapped_def be_val_append)
    finally show ?thesis using len by (simp add: be_val_inj)
  qed
  from assms(1) show "To4 (incrementIP a) = Some (incrementIP b)"
    by (elim To4_SomeE) (simp_all add: map)
qed

subsection \<open>Availability\<close>

lemma ip_Equal_iff_To4: "To4 a = Some x \<Longrightarrow> ip_Equal a r \<longleftrightarrow> To4 r = Some x"
proof (cases "To4 r")
  case None
  assume "To4 a = Some x"
  with None show ?thesis
    by (elim To4_SomeE) (auto simp: ip_Equal_def v4_mapped_def To4_def)
next
  case (Some y)
  assume "To4 a = Some x"
  with Some show ?thesis by (auto simp: ip_Equal_v4)
qed

lemma isReserved_iff_To4:
  "To4 a = Some x \<Longrightarrow> isReserved pool a \<longleftrightarrow> (\<exists>r \<in> set (pool_ReservedIPs pool). To4 r = Some x)"
  by (simp add: isReserved_def list_ex_iff ip_Equal_iff_To4)

lemma ip_available_cong:
  "To4 a = Some x \<Longrightarrow> To4 b = Some x \<Longrightarrow> ip_available pool a = ip_available pool b"
  by (simp add: ip_available_def isReserved_iff_To4 ip_String_v4)

lemma find_ip_available: "find_ip pool k a = Some b \<Longrightarrow> ip_available pool b"
  by (induction k arbitrary: a) (auto split: if_splits)

lemma find_vip_available: "find_vip pool k a = Some b \<Longrightarrow> ip_available pool b"
  by (induction k arbitrary: a) (auto split: if_splits)


subsection \<open>The probe sequence of a subnet of at most 256 addresses\<close>

text \<open>The numbers of the first and of the last address of the network \<open>base/n\<close>.\<close>

definition subnet_first :: "bytes \<Rightarrow> nat \<Rightarrow> nat" where
  "subnet_first base n = be_val base div 2 ^ (32 - n) * 2 ^ (32 - n)"

definition subnet_last :: "bytes \<Rightarrow> nat \<Rightarrow> nat" where
  "subnet_last base n = subnet_first base n + (2 ^ (32 - n) - 1)"

lemma div_eq_iff_between:
  fixes x d q :: nat
  assumes "0 < d"
  shows "x div d = q \<longleftrightarrow> q * d \<le> x \<and> x \<le> q * d + (d - 1)"
proof
  assume "x div d = q"
  then have "x = q * d + x mod d" by (metis div_mult_mod_eq)
  moreover have "x mod d < d" using assms by simp
  ultimately show "q * d \<le> x \<and> x \<le> q * d + (d - 1)" by linarith
next
  assume "q * d \<le> x \<and> x \<le> q * d + (d - 1)"
  then have "d * q \<le> x" and "x < d * Suc q" using assms by (auto simp: mult.commute)
  then show "x div d = q" by (rule div_nat_eqI)
qed

lemma Contains_iff_between:
  assumes "length base = 4" and "n \<le> 32" and "To4 a = Some x"
  shows "Contains (v4_net base n) a \<longleftrightarrow> subnet_first base n \<le> be_val x \<and> be_val x \<le> subnet_last base n"
  using Contains_v4_net [OF assms] div_eq_iff_between [of "2 ^ (32 - n)" "be_val x"]
  by (simp add: subnet_first_def subnet_last_def)

lemma subnet_last_less:
  assumes "length base = 4" and "n \<le> 32"
  shows "subnet_last base n < 2 ^ 32"
proof -
  let ?d = "2 ^ (32 - n) :: nat" and ?q = "be_val base div 2 ^ (32 - n)"
  have "2 ^ 32 = (2 :: nat) ^ n * ?d" using assms(2) by (simp flip: power_add)
  moreover have "be_val base < 2 ^ 32" using be_val_less [of base] assms(1) by simp
  ultimately have "?q < 2 ^ n" by (simp add: less_mult_imp_div_less)
  then have "(?q + 1) * ?d \<le> 2 ^ n * ?d" by (intro mult_right_mono) simp_all
  moreover have "(?q + 1) * ?d = ?q * ?d + ?d" and "0 < ?d" by simp_all
  then have "subnet_last base n < (?q + 1) * ?d"
    unfolding subnet_last_def subnet_first_def by linarith
  ultimately show ?thesis using \<open>2 ^ 32 = 2 ^ n * ?d\<close> by linarith
qed


text \<open>
  A pool of an IPv4 subnet \<open>base/n\<close> whose gateway, in either form, lies in the subnet and is
  not its last address.
\<close>

definition v4_pool :: "ip_pool \<Rightarrow> bytes \<Rightarrow> nat \<Rightarrow> bytes \<Rightarrow> bool" where
  "v4_pool pool base n g \<longleftrightarrow>
     length base = 4 \<and> n \<le> 32 \<and> pool_Subnet pool = v4_net base n \<and>
     To4 (pool_Gateway pool) = Some g \<and>
     subnet_first base n \<le> be_val g \<and> be_val g < subnet_last base n"

lemma next_candidate_up:
  assumes "v4_pool pool base n g" and "To4 a = Some x"
    and "subnet_first base n \<le> be_val x" and "be_val x < subnet_last base n"
  shows "To4 (next_candidate pool a) = Some (incrementIP x)"
    and "be_val (incrementIP x) = be_val x + 1"
proof -
  have "be_val x + 1 < 2 ^ 32"
    using subnet_last_less [of base n] assms by (simp add: v4_pool_def)
  note inc = To4_incrementIP [OF assms(2) this]
  from inc(2) show "be_val (incrementIP x) = be_val x + 1" .
  have "Contains (pool_Subnet pool) (incrementIP a)"
    using Contains_iff_between [OF _ _ inc(1)] inc(2) assms by (simp add: v4_pool_def)
  then show "To4 (next_candidate pool a) = Some (incrementIP x)"
    using inc(1) by (simp add: next_candidate_def)
qed

lemma gateway_next:
  assumes "v4_pool pool base n g"
  shows "To4 (incrementIP (pool_Gateway pool)) = Some (incrementIP g)"
    and "be_val (incrementIP g) = be_val g + 1"
proof -
  have "be_val g + 1 < 2 ^ 32"
    using subnet_last_less [of base n] assms by (simp add: v4_pool_def)
  then show "To4 (incrementIP (pool_Gateway pool)) = Some (incrementIP g)"
    and "be_val (incrementIP g) = be_val g + 1"
    using To4_incrementIP [of "pool_Gateway pool" g] assms by (auto simp: v4_pool_def)
qed

lemma Contains_needs_v4:
  assumes "length base = 4" and "To4 a = None"
  shows "\<not> Contains (v4_net base n) a"
  using assms
  by (auto simp: Contains_def v4_net_def network_number_and_mask_def Let_def To4_def split: if_splits)

lemma incrementIP_top: "To4 (incrementIP (v4_mapped [255, 255, 255, 255])) = None"
    "incrementIP [255, 255, 255, 255] = [0, 0, 0, 0]"
  by code_simp+

text \<open>The candidate after the last address, or after one past it, is the one after the gateway.\<close>

lemma next_candidate_wrap:
  assumes pool: "v4_pool pool base n g" and "0 < n" and a: "To4 a = Some x"
    and v: "be_val x = subnet_last base n \<or> subnet_last base n < be_val x \<and> be_val x + 1 < 2 ^ 32"
  shows "next_candidate pool a = incrementIP (pool_Gateway pool)"
proof -
  have base: "length base = 4" "n \<le> 32" and sub: "pool_Subnet pool = v4_net base n"
    using pool by (simp_all add: v4_pool_def)
  have "\<not> Contains (v4_net base n) (incrementIP a)"
  proof (cases "be_val x + 1 < 2 ^ 32")
    case True
    note inc = To4_incrementIP [OF a True]
    show ?thesis using Contains_iff_between [OF base inc(1)] inc(2) v by auto
  next
    case False
    have len: "length x = 4" using a by (rule To4_length)
    with False have top: "be_val x = 2 ^ 32 - 1" using be_val_less [of x] by simp
    then have x: "x = [255, 255, 255, 255]"
      using be_val_inj [of x "[255, 255, 255, 255]"] len by simp
    from a show ?thesis
    proof (cases rule: To4_SomeE)
      case 1
      have "(2 :: nat) ^ (32 - n) \<le> 2 ^ 31" using \<open>0 < n\<close> by (intro power_increasing) simp_all
      then have "0 < subnet_first base n"
        using v False top unfolding subnet_last_def by simp
      then show ?thesis
        using 1 x incrementIP_top(2) Contains_iff_between [OF base, of "[0, 0, 0, 0]" "[0, 0, 0, 0]"]
        by simp
    next
      case 2
      then show ?thesis using x incrementIP_top(1) Contains_needs_v4 [OF base(1)] by simp
    qed
  qed
  then show ?thesis using sub by (simp add: next_candidate_def)
qed

lemma find_ip_step: "find_ip pool k (next_candidate pool a) \<noteq> None \<Longrightarrow> find_ip pool (Suc k) a \<noteq> None"
  by simp

lemma find_ip_mono: "find_ip pool k a \<noteq> None \<Longrightarrow> k \<le> k' \<Longrightarrow> find_ip pool k' a \<noteq> None"
proof (induction k arbitrary: a k')
  case (Suc k)
  then show ?case by (cases k') (auto split: if_splits)
qed simp

text \<open>Going up from \<open>x\<close>, the search reaches an available address \<open>t\<close> of the subnet above it.\<close>

lemma find_ip_up:
  assumes "v4_pool pool base n g" and "To4 a = Some x" and "To4 b = Some t" and "ip_available pool b"
    and "subnet_first base n \<le> be_val x" and "be_val x \<le> be_val t" and "be_val t \<le> subnet_last base n"
    and "be_val t - be_val x < k"
  shows "find_ip pool k a \<noteq> None"
  using assms
proof (induction k arbitrary: a x)
  case 0
  then show ?case by simp
next
  case (Suc k)
  show ?case
  proof (cases "be_val x = be_val t")
    case True
    then have "x = t" using be_val_inj [of x t] Suc.prems(2,3) by (simp add: To4_length)
    then have "ip_available pool a" using ip_available_cong [of a t b] Suc.prems(2-4) by simp
    then show ?thesis by simp
  next
    case False
    then have less: "be_val x < subnet_last base n" using Suc.prems(6,7) by simp
    note up = next_candidate_up [OF Suc.prems(1,2,5) less]
    show ?thesis
      by (rule find_ip_step, rule Suc.IH [OF Suc.prems(1) up(1) Suc.prems(3,4)])
        (use Suc.prems(5-8) False up(2) in simp_all)
  qed
qed

text \<open>Going up from \<open>x\<close>, the search wraps around to an available address \<open>t\<close> below \<open>x\<close>.\<close>

lemma find_ip_around:
  assumes "v4_pool pool base n g" and "0 < n" and "To4 a = Some x" and "To4 b = Some t"
    and "ip_available pool b"
    and "subnet_first base n \<le> be_val x" and "be_val x \<le> subnet_last base n"
    and "be_val g < be_val t" and "be_val t \<le> subnet_last base n"
    and "subnet_last base n - be_val x + be_val t - be_val g < k"
  shows "find_ip pool k a \<noteq> None"
  using assms
proof (induction k arbitrary: a x)
  case 0
  then show ?case by simp
next
  case (Suc k)
  show ?case
  proof (cases "be_val x = subnet_last base n")
    case True
    note gw = gateway_next [OF Suc.prems(1)]
    have "find_ip pool k (incrementIP (pool_Gateway pool)) \<noteq> None"
      by (rule find_ip_up [OF Suc.prems(1) gw(1) Suc.prems(4,5)])
        (use Suc.prems(1,8-10) True gw(2) in \<open>auto simp: v4_pool_def\<close>)
    then show ?thesis
      using next_candidate_wrap [OF Suc.prems(1-3)] True by simp
  next
    case False
    then have less: "be_val x < subnet_last base n" using Suc.prems(7) by simp
    note up = next_candidate_up [OF Suc.prems(1,3,6) less]
    show ?thesis
      by (rule find_ip_step, rule Suc.IH [OF Suc.prems(1,2) up(1) Suc.prems(4,5)])
        (use Suc.prems(6-10) less up(2) in simp_all)
  qed
qed

text \<open>
  A free address between the gateway and the end of a subnet of at most 256 addresses is
  found within the 256 attempts, wherever above the gateway the search starts.
\<close>

lemma find_ip_256:
  assumes pool: "v4_pool pool base n g" and n: "24 \<le> n"
    and a: "To4 a = Some x" and x: "be_val g < be_val x" "be_val x + 1 < 2 ^ 32"
    and b: "To4 b = Some t" "ip_available pool b" "be_val g < be_val t" "be_val t \<le> subnet_last base n"
  shows "find_ip pool 256 a \<noteq> None"
proof -
  have "(2 :: nat) ^ (32 - n) \<le> 2 ^ 8" using n by (intro power_increasing) simp_all
  then have size: "subnet_last base n \<le> subnet_first base n + 255"
    by (simp add: subnet_last_def)
  have first: "subnet_first base n \<le> be_val g" using pool by (simp add: v4_pool_def)
  have n0: "0 < n" using n by simp
  consider (up) "be_val x \<le> be_val t" | (around) "be_val t < be_val x" "be_val x \<le> subnet_last base n"
    | (past) "subnet_last base n < be_val x" by linarith
  then show ?thesis
  proof cases
    case up
    show ?thesis
      by (rule find_ip_up [OF pool a b(1,2)]) (use x b(3,4) up size first in simp_all)
  next
    case around
    show ?thesis
      by (rule find_ip_around [OF pool n0 a b(1,2)]) (use x b(3,4) around size first in simp_all)
  next
    case past
    note gw = gateway_next [OF pool]
    have "find_ip pool 255 (incrementIP (pool_Gateway pool)) \<noteq> None"
      by (rule find_ip_up [OF pool gw(1) b(1,2)]) (use b(3,4) size first gw(2) in simp_all)
    moreover have "next_candidate pool a = incrementIP (pool_Gateway pool)"
      using next_candidate_wrap [OF pool n0 a] past x(2) by simp
    ultimately show ?thesis using find_ip_step [of pool 255 a] by simp
  qed
qed


subsection \<open>The VIP range\<close>

text \<open>Adding an offset below the host part to a network address never carries.\<close>

lemma be_val_add_offset:
  assumes "2 ^ h dvd be_val (rev bs)" and "off < 2 ^ h" and "h \<le> 8 * length bs"
  shows "be_val (rev (add_offset bs (int off))) = be_val (rev bs) + off"
  using assms
proof (induction bs arbitrary: h off)
  case Nil
  then show ?case by simp
next
  case (Cons b bs)
  let ?v = "be_val (rev bs)"
  show ?case
  proof (cases "off = 0")
    case True
    then show ?thesis by simp
  next
    case pos: False
    have dvd: "2 ^ h dvd ?v * 256 + unat b" using Cons.prems(1) by (simp add: be_val_append)
    have low: "of_int (int off mod 256) = (of_nat (off mod 256) :: byte)"
      by (metis of_int_of_nat_eq of_nat_mod of_nat_numeral)
    have rest: "int off div 256 = int (off div 256)" by (simp add: zdiv_int)
    show ?thesis
    proof (cases "8 \<le> h")
      case True
      then have "(2 :: nat) ^ h = 2 ^ ((h - 8) + 8)" by simp
      then have pow: "(2 :: nat) ^ h = 2 ^ (h - 8) * 256" by (simp only: power_add) simp
      have "256 dvd ?v * 256 + unat b" using dvd unfolding pow by (rule dvd_mult_right)
      then have "256 dvd unat b" by (metis dvd_add_right_iff dvd_triv_right)
      then have "unat b = 0" using nat_dvd_not_less [of "unat b" 256] byte_lt_256 [of b] by blast
      then have b: "b = 0" by (simp add: unat_eq_zero)
      have "be_val (rev (add_offset bs (int (off div 256)))) = ?v + off div 256"
        by (rule Cons.IH [of "h - 8"])
          (use dvd b pow Cons.prems(2,3) in \<open>auto simp: less_mult_imp_div_less\<close>)
      then show ?thesis using pos b low rest by (simp add: be_val_append)
    next
      case False
      have "(2 :: nat) ^ 8 = 2 ^ (8 - h) * 2 ^ h" using False by (simp flip: power_add)
      then have pow: "256 = (2 :: nat) ^ (8 - h) * 2 ^ h" by simp
      then have "2 ^ h dvd ?v * 256" by (metis dvd_mult dvd_mult2 dvd_triv_right)
      with dvd have "2 ^ h dvd unat b" using dvd_add_right_iff by blast
      then obtain q where q: "unat b = q * 2 ^ h" by (metis dvd_div_mult_self)
      then have "q < 2 ^ (8 - h)" using byte_lt_256 [of b] pow by simp
      then have "(q + 1) * 2 ^ h \<le> 256" unfolding pow by (intro mult_right_mono) simp_all
      then have sum: "unat b + off < 256" using q Cons.prems(2) by simp
      then have "off < 256" by simp
      then have "unat (b + of_nat off) = unat b + off" using sum by (simp add: unat_word_ariths)
      then show ?thesis using pos low rest \<open>off < 256\<close> by (cases bs) (simp_all add: be_val_append)
    qed
  qed
qed


lemma unat_push_drop: "unat (push_bit k (drop_bit k (x :: byte))) = unat x div 2 ^ k * 2 ^ k"
proof -
  have "unat x div 2 ^ k * 2 ^ k < 256"
    using byte_lt_256 [of x] by (meson div_times_less_eq_dividend le_less_trans)
  then show ?thesis
    by (simp add: unsigned_push_bit_eq unat_drop_bit_eq push_bit_eq_mult [where 'a = nat]
        drop_bit_eq_div [where 'a = nat] take_bit_nat_eq_self)
qed

lemma be_val_replicate_0 [simp]: "be_val (replicate l 0) = 0"
  by (induction l) simp_all

lemma be_val_mask_bytes:
  assumes "length xs = l" and "n \<le> 8 * l"
  shows "be_val (mask_bytes (cidr_mask n l) xs) = be_val xs div 2 ^ (8 * l - n) * 2 ^ (8 * l - n)"
  using assms
proof (induction l arbitrary: n xs)
  case (Suc l)
  then obtain x xs' where xs: "xs = x # xs'" and len: "length xs' = l"
    by (metis length_Suc_conv)
  show ?case
  proof (cases "8 \<le> n")
    case True
    let ?D = "2 ^ (8 * l - (n - 8)) :: nat"
    have D: "8 * Suc l - n = 8 * l - (n - 8)" using True by simp
    have "(256 :: nat) ^ l = 2 ^ (8 * l)" by (simp add: power_mult)
    also have "\<dots> = 2 ^ (n - 8) * ?D"
      using True Suc.prems(2) by (simp flip: power_add)
    finally have pow: "(256 :: nat) ^ l = 2 ^ (n - 8) * ?D" .
    have "be_val (mask_bytes (cidr_mask (n - 8) l) xs') = be_val xs' div ?D * ?D"
      using Suc.IH [OF len, of "n - 8"] Suc.prems(2) True by simp
    then have "be_val (mask_bytes (cidr_mask n (Suc l)) xs) = unat x * 256 ^ l + be_val xs' div ?D * ?D"
      using True len xs by (simp add: mask_bytes_def)
    also have "\<dots> = (unat x * 2 ^ (n - 8) + be_val xs' div ?D) * ?D"
      by (simp add: pow algebra_simps)
    finally show ?thesis
      using be_val_div_high [OF len True Suc.prems(2), of x] unfolding xs D by simp
  next
    case False
    let ?k = "8 - n"
    have "be_val (mask_bytes (cidr_mask n (Suc l)) xs) = unat x div 2 ^ ?k * 2 ^ ?k * 256 ^ l"
      using False len mask_bytes_zero [OF len] and_net_mask [of n x] unat_push_drop [of ?k x]
      by (simp add: xs mask_bytes_def cidr_mask_0)
    moreover have "8 * Suc l - n = ?k + 8 * l" using False by simp
    then have "2 ^ (8 * Suc l - n) = 2 ^ ?k * (256 :: nat) ^ l" by (simp add: power_add power_mult)
    ultimately show ?thesis
      using be_val_div_low [OF len, of n x] False by (simp add: xs mult.assoc del: be_val.simps)
  qed
qed (simp add: mask_bytes_def)

lemma subnet_first_mask:
  assumes "length base = 4" and "n \<le> 32"
  shows "be_val (mask_bytes (cidr_mask n 4) base) = subnet_first base n"
  using be_val_mask_bytes [of base 4 n] assms by (simp add: subnet_first_def)

lemma vip_offsets:
  "\<forall>n \<in> set [0..<28]. sint (push_bit (32 - n) 1 :: int64) - 17 = int (2 ^ (32 - n) - 17)"
  by (simp add: upt_rec)

lemma getVIPRangeStart_v4:
  assumes "length base = 4" and "n \<le> 27"
  shows "length (getVIPRangeStart (v4_net base n)) = 4"
    and "be_val (getVIPRangeStart (v4_net base n)) = subnet_last base n - 16"
proof -
  let ?m = "mask_bytes (cidr_mask n 4) base" and ?h = "32 - n"
  have n: "n \<le> 32" using assms(2) by simp
  have len: "length ?m = 4" using assms by simp
  have "2 ^ 5 \<le> (2 :: nat) ^ ?h" using assms(2) by (intro power_increasing) simp_all
  then have big: "32 \<le> (2 :: nat) ^ ?h" by simp
  have off: "sint (push_bit ?h 1 :: int64) - 17 = int (2 ^ ?h - 17)"
    using vip_offsets assms(2) by simp
  have start: "getVIPRangeStart (v4_net base n) = rev (add_offset (rev ?m) (int (2 ^ ?h - 17)))"
    using len off mask_Size_cidr [OF n] by (simp add: getVIPRangeStart_def v4_net_def)
  have "2 ^ ?h dvd be_val ?m" using subnet_first_mask [OF assms(1) n] by (simp add: subnet_first_def)
  then have "be_val (rev (add_offset (rev ?m) (int (2 ^ ?h - 17)))) = be_val ?m + (2 ^ ?h - 17)"
    using be_val_add_offset [of ?h "rev ?m" "2 ^ ?h - 17"] len by simp
  then show "be_val (getVIPRangeStart (v4_net base n)) = subnet_last base n - 16"
    using start subnet_first_mask [OF assms(1) n] big by (simp add: subnet_last_def)
  have "length (add_offset bs x) = length bs" for bs x
    by (induction bs arbitrary: x) auto
  then show "length (getVIPRangeStart (v4_net base n)) = 4" using start len by simp
qed

end
