(* ===== verification/Go_Os.thy ===== *)
theory Go_Os
  imports Go_Strings "HOL-Library.AList" "HOL-Library.List_Lexorder" "HOL-Library.Char_ord"
begin

text \<open>
  The parts of Go's packages \<open>path/filepath\<close> (on Unix), \<open>os\<close> and \<open>encoding/json\<close> that the sources
  use: the lexical routines on paths, JSON documents as values, and a file system that maps
  cleaned paths to contents. Operations of the file system fail on the paths the environment
  denies; a JSON document is written and read back as the same value.
\<close>

subsection \<open>Paths\<close>

text \<open>
  One path element of \<open>Clean\<close>; the stack holds the elements so far, the last one first.
\<close>

definition clean_elem :: "bool \<Rightarrow> string list \<Rightarrow> string \<Rightarrow> string list" where
  "clean_elem rooted st e =
     (if e = [] \<or> e = ''.'' then st
      else if e = ''..'' then
        (if st \<noteq> [] \<and> hd st \<noteq> ''..'' then tl st
         else if rooted then st else e # st)
      else e # st)"

definition path_elems :: "string \<Rightarrow> string list" where
  "path_elems p = rev (foldl (clean_elem (prefix ''/'' p)) [] (split_on (CHR ''/'') p))"

definition path_of :: "bool \<Rightarrow> string list \<Rightarrow> string" where
  "path_of rooted es =
     (if rooted then CHR ''/'' # join ''/'' es else if es = [] then ''.'' else join ''/'' es)"

text \<open>\<open>filepath.Clean\<close>.\<close>

definition path_Clean :: "string \<Rightarrow> string" where
  "path_Clean p = path_of (prefix ''/'' p) (path_elems p)"

text \<open>\<open>filepath.Join\<close>.\<close>

definition path_Join :: "string list \<Rightarrow> string" where
  "path_Join ps =
     (case filter (\<lambda>p. p \<noteq> []) ps of [] \<Rightarrow> [] | qs \<Rightarrow> path_Clean (join ''/'' qs))"

text \<open>\<open>filepath.Dir\<close>: the text up to the last slash, cleaned.\<close>

definition path_Dir :: "string \<Rightarrow> string" where
  "path_Dir p = path_Clean (rev (dropWhile (\<lambda>c. c \<noteq> CHR ''/'') (rev p)))"

text \<open>\<open>filepath.Base\<close>: the last element.\<close>

definition path_Base :: "string \<Rightarrow> string" where
  "path_Base p =
     (if p = [] then ''.''
      else let q = rev (dropWhile (\<lambda>c. c = CHR ''/'') (rev p));
               b = rev (takeWhile (\<lambda>c. c \<noteq> CHR ''/'') (rev q))
           in if b = [] then ''/'' else b)"

definition path_IsAbs :: "string \<Rightarrow> bool" where
  "path_IsAbs p = prefix ''/'' p"

subsection \<open>JSON documents\<close>

text \<open>
  An object is its list of fields in the order of their keys, in which \<open>json.Marshal\<close> prints
  the fields of a map.
\<close>

datatype json =
    JNull
  | JBool bool
  | JNum int
  | JStr string
  | JArr "json list"
  | JObj "(string \<times> json) list"

definition json_field :: "string \<Rightarrow> json \<Rightarrow> json option" where
  "json_field k j = (case j of JObj fs \<Rightarrow> map_of fs k | _ \<Rightarrow> None)"

definition json_string_field :: "string \<Rightarrow> json \<Rightarrow> string option" where
  "json_string_field k j = (case json_field k j of Some (JStr s) \<Rightarrow> Some s | _ \<Rightarrow> None)"

subsection \<open>The file system\<close>

datatype fdata = JsonFile json | OtherFile string

record fsys =
  fs_files :: "(string \<times> fdata) list"
  fs_dirs :: "string list"
  fs_denied :: "string list"

datatype os_error = ErrNotExist string | ErrDenied string

definition file_at :: "fsys \<Rightarrow> string \<Rightarrow> fdata option" where
  "file_at fs p = map_of (fs_files fs) (path_Clean p)"

text \<open>\<open>os.Stat\<close> succeeds.\<close>

definition os_exists :: "fsys \<Rightarrow> string \<Rightarrow> bool" where
  "os_exists fs p \<longleftrightarrow> file_at fs p \<noteq> None \<or> path_Clean p \<in> set (fs_dirs fs)"

text \<open>The directory \<open>p\<close> and the directories above it.\<close>

definition path_ancestors :: "string \<Rightarrow> string list" where
  "path_ancestors p =
     (let es = path_elems p in map (\<lambda>k. path_of (prefix ''/'' p) (take k es)) [0..<length es + 1])"

definition os_MkdirAll :: "string \<Rightarrow> fsys \<Rightarrow> (os_error, unit) res \<times> fsys" where
  "os_MkdirAll p fs =
     (if path_Clean p \<in> set (fs_denied fs) then (Inl (ErrDenied p), fs)
      else (Inr (), fs\<lparr>fs_dirs := fs_dirs fs @ path_ancestors p\<rparr>))"

definition os_WriteFile :: "string \<Rightarrow> fdata \<Rightarrow> fsys \<Rightarrow> (os_error, unit) res \<times> fsys" where
  "os_WriteFile p d fs =
     (if path_Clean p \<in> set (fs_denied fs) then (Inl (ErrDenied p), fs)
      else if path_Dir p \<notin> set (fs_dirs fs) then (Inl (ErrNotExist p), fs)
      else (Inr (), fs\<lparr>fs_files := AList.update (path_Clean p) d (fs_files fs)\<rparr>))"

definition os_ReadFile :: "string \<Rightarrow> fsys \<Rightarrow> (os_error, fdata) res" where
  "os_ReadFile p fs =
     (if path_Clean p \<in> set (fs_denied fs) then Inl (ErrDenied p)
      else case file_at fs p of None \<Rightarrow> Inl (ErrNotExist p) | Some d \<Rightarrow> Inr d)"

definition os_Remove :: "string \<Rightarrow> fsys \<Rightarrow> (os_error, unit) res \<times> fsys" where
  "os_Remove p fs =
     (if path_Clean p \<in> set (fs_denied fs) then (Inl (ErrDenied p), fs)
      else if file_at fs p = None then (Inl (ErrNotExist p), fs)
      else (Inr (), fs\<lparr>fs_files := AList.delete (path_Clean p) (fs_files fs)\<rparr>))"

text \<open>\<open>os.ReadDir\<close>: the names of the files of a directory, sorted.\<close>

definition os_ReadDir :: "string \<Rightarrow> fsys \<Rightarrow> (os_error, string list) res" where
  "os_ReadDir d fs =
     (if path_Clean d \<in> set (fs_denied fs) then Inl (ErrDenied d)
      else if path_Clean d \<notin> set (fs_dirs fs) then Inl (ErrNotExist d)
      else Inr (sort (map path_Base (filter (\<lambda>p. path_Dir p = path_Clean d)
             (remdups (map fst (fs_files fs)))))))"

subsection \<open>Facts on paths\<close>

text \<open>A name with no slash is one element of a path.\<close>

lemma split_on_chars: "e \<in> set (split_on c s) \<Longrightarrow> c \<notin> set e"
  by (induction s arbitrary: e) (auto split: if_splits list.splits)

lemma split_on_snoc_sep: "split_on c (s @ c # t) = split_on c s @ split_on c t"
  by (induction s) (auto split: list.splits simp: append_eq_Cons_conv)

lemma path_elems_snoc:
  assumes "CHR ''/'' \<notin> set x" and "x \<noteq> []" and "x \<noteq> ''.''" and "x \<noteq> ''..''" and "d \<noteq> []"
  shows "path_elems (d @ CHR ''/'' # x) = path_elems d @ [x]"
proof -
  have "prefix ''/'' (d @ CHR ''/'' # x) = prefix ''/'' d" using assms(5) by (cases d) auto
  then show ?thesis
    using assms by (simp add: path_elems_def split_on_snoc_sep split_on_no_sep clean_elem_def)
qed

lemma path_Join_name:
  assumes "CHR ''/'' \<notin> set x" and "x \<noteq> []" and "x \<noteq> ''.''" and "x \<noteq> ''..''" and "d \<noteq> []"
  shows "path_Join [d, x] = path_of (prefix ''/'' d) (path_elems d @ [x])"
proof -
  have "prefix ''/'' (d @ CHR ''/'' # x) = prefix ''/'' d" using assms(5) by (cases d) auto
  then show ?thesis using assms path_elems_snoc [OF assms] by (simp add: path_Join_def path_Clean_def)
qed

lemma join_inj_last: "join sep (xs @ [x]) = (if xs = [] then x else join sep xs @ sep @ x)"
  by (induction xs rule: induct_list012) simp_all

text \<open>Different names give different paths in a directory.\<close>

lemma path_Join_inj:
  assumes "CHR ''/'' \<notin> set x" and "x \<noteq> []" and "x \<noteq> ''.''" and "x \<noteq> ''..''"
    and "CHR ''/'' \<notin> set y" and "y \<noteq> []" and "y \<noteq> ''.''" and "y \<noteq> ''..''" and "d \<noteq> []"
  shows "path_Join [d, x] = path_Join [d, y] \<longleftrightarrow> x = y"
  using assms by (auto simp: path_Join_name path_of_def join_inj_last split: if_splits)


subsection \<open>Cleaned paths\<close>

text \<open>
  The elements of a cleaned path: names, after a run of \<open>..\<close> elements that is empty when the
  path is rooted.
\<close>

definition clean_elems :: "bool \<Rightarrow> string list \<Rightarrow> bool" where
  "clean_elems rooted es \<longleftrightarrow> (\<exists>k ys. es = replicate k ''..'' @ ys \<and> ''..'' \<notin> set ys \<and> (rooted \<longrightarrow> k = 0)) \<and>
     (\<forall>e \<in> set es. e \<noteq> [] \<and> e \<noteq> ''.'' \<and> CHR ''/'' \<notin> set e)"

lemma clean_elems_names: "clean_elems r es \<Longrightarrow> e \<in> set es \<Longrightarrow> e \<noteq> [] \<and> e \<noteq> ''.'' \<and> CHR ''/'' \<notin> set e"
  by (simp add: clean_elems_def)

lemma clean_elems_snoc:
  assumes "clean_elems r es" and "e \<noteq> []" and "e \<noteq> ''.''" and "CHR ''/'' \<notin> set e" and "e \<noteq> ''..''"
  shows "clean_elems r (es @ [e])"
proof -
  from assms(1) obtain k ys where "es = replicate k ''..'' @ ys" "''..'' \<notin> set ys" "r \<longrightarrow> k = 0"
    by (auto simp: clean_elems_def)
  then have "es @ [e] = replicate k ''..'' @ (ys @ [e]) \<and> ''..'' \<notin> set (ys @ [e]) \<and> (r \<longrightarrow> k = 0)"
    using assms(5) by simp
  then show ?thesis using assms unfolding clean_elems_def by (metis Un_iff empty_iff empty_set set_ConsD set_append)
qed

lemma clean_elems_butlast:
  assumes "clean_elems r (es @ [e])" and "e \<noteq> ''..''"
  shows "clean_elems r es"
proof -
  from assms(1) obtain k ys where k: "es @ [e] = replicate k ''..'' @ ys" "''..'' \<notin> set ys" "r \<longrightarrow> k = 0"
    by (auto simp: clean_elems_def)
  have "ys \<noteq> []"
  proof
    assume "ys = []"
    then have "e \<in> set (replicate k ''..'')" using k(1) by (metis append.right_neutral in_set_conv_decomp)
    then show False using assms(2) by simp
  qed
  then obtain zs where "ys = zs @ [e]" "es = replicate k ''..'' @ zs"
    using k(1) by (metis append_assoc append_butlast_last_id butlast_snoc last_appendR last_snoc)
  then show ?thesis using k assms(1) unfolding clean_elems_def by auto
qed

lemma clean_elems_dots:
  assumes "clean_elems False (es @ [''..''])"
  shows "clean_elems False (es @ [''..'', ''..''])"
proof -
  from assms obtain k ys where k: "es @ [''..''] = replicate k ''..'' @ ys" "''..'' \<notin> set ys"
    by (auto simp: clean_elems_def)
  have "ys = []"
    using k by (metis append_is_Nil_conv last_appendR last_in_set last_snoc)
  then have "es @ [''..''] = replicate k ''..''" using k(1) by simp
  then have "es @ [''..'', ''..''] = replicate (Suc k) ''..''"
    by (metis append.assoc append_Cons append_Nil replicate_append_same replicate_Suc)
  then show ?thesis unfolding clean_elems_def by (metis append.right_neutral empty_iff empty_set in_set_replicate
      assms clean_elems_names in_set_conv_decomp)
qed

lemma clean_elems_step:
  assumes "clean_elems r (rev st)" and "CHR ''/'' \<notin> set e"
  shows "clean_elems r (rev (clean_elem r st e))"
proof -
  consider (skip) "e = [] \<or> e = ''.''" | (name) "e \<noteq> []" "e \<noteq> ''.''" "e \<noteq> ''..''" | (up) "e = ''..''" by blast
  then show ?thesis
  proof cases
    case skip
    then show ?thesis using assms(1) by (simp add: clean_elem_def)
  next
    case name
    then show ?thesis using clean_elems_snoc [OF assms(1)] assms(2) by (simp add: clean_elem_def)
  next
    case up
    show ?thesis
    proof (cases st)
      case Nil
      have "clean_elems False [''..'']"
        unfolding clean_elems_def by (auto intro: exI [of _ 1])
      then show ?thesis using up Nil assms by (cases r) (simp_all add: clean_elem_def)
    next
      case (Cons s st')
      then show ?thesis
        using up assms(1) clean_elems_butlast [of r "rev st'" s] clean_elems_dots [of "rev st'"]
        by (auto simp: clean_elem_def)
    qed
  qed
qed

lemma clean_elems_path: "clean_elems (prefix ''/'' p) (path_elems p)"
proof -
  have "clean_elems r (rev (foldl (clean_elem r) st es))"
    if "clean_elems r (rev st)" and "\<forall>e \<in> set es. CHR ''/'' \<notin> set e" for r st es
    using that by (induction es arbitrary: st) (simp_all add: clean_elems_step)
  moreover have "clean_elems r (rev [])" for r by (simp add: clean_elems_def)
  ultimately show ?thesis unfolding path_elems_def using split_on_chars by blast
qed

lemma foldl_clean_elems:
  assumes "clean_elems r es"
  shows "foldl (clean_elem r) [] es = rev es"
proof -
  from assms obtain k ys where k: "es = replicate k ''..'' @ ys" "''..'' \<notin> set ys" "r \<longrightarrow> k = 0"
    by (auto simp: clean_elems_def)
  have dots: "foldl (clean_elem r) [] (replicate j ''..'') = replicate j ''..''" if "r \<longrightarrow> j = 0" for j
    using that
  proof (induction j)
    case (Suc j)
    then have "foldl (clean_elem r) [] (replicate j ''..'' @ [''..'']) = clean_elem r (replicate j ''..'') ''..''"
      by simp
    also have "\<dots> = ''..'' # replicate j ''..''" using Suc.prems by (cases j) (auto simp: clean_elem_def)
    finally show ?case by (simp only: replicate_append_same replicate_Suc)
  qed simp
  have "foldl (clean_elem r) st ys = rev ys @ st"
    if "''..'' \<notin> set ys" "\<forall>e \<in> set ys. e \<noteq> [] \<and> e \<noteq> ''.''" for st
    using that by (induction ys arbitrary: st) (auto simp: clean_elem_def)
  then show ?thesis using k dots assms by (simp add: clean_elems_def)
qed

lemma split_on_join: "es \<noteq> [] \<Longrightarrow> \<forall>e \<in> set es. CHR ''/'' \<notin> set e \<Longrightarrow> split_on (CHR ''/'') (join ''/'' es) = es"
  by (induction es rule: induct_list012) (simp_all add: split_on_no_sep split_on_append)

lemma clean_elems_first:
  assumes "clean_elems False es" and "es \<noteq> []"
  shows "\<not> prefix ''/'' (join ''/'' es)"
proof -
  obtain e es' where es: "es = e # es'" using assms(2) by (cases es) auto
  then have "e \<noteq> []" "CHR ''/'' \<notin> set e" using clean_elems_names [OF assms(1), of e] by simp_all
  then show ?thesis using es by (cases es'; cases e) auto
qed

lemma path_elems_path_of:
  assumes "clean_elems r es"
  shows "path_elems (path_of r es) = es" and "prefix ''/'' (path_of r es) = r"
proof -
  show pre: "prefix ''/'' (path_of r es) = r"
    using assms clean_elems_first [of es] by (auto simp: path_of_def)
  have all: "\<forall>e \<in> set es. CHR ''/'' \<notin> set e" using clean_elems_names [OF assms] by blast
  have "foldl (clean_elem r) [] (split_on (CHR ''/'') (path_of r es)) = rev es"
  proof (cases "es = []")
    case True
    then show ?thesis by (simp add: path_of_def clean_elem_def)
  next
    case False
    then have "foldl (clean_elem r) [] (split_on (CHR ''/'') (join ''/'' es)) = rev es"
      using split_on_join [OF False all] foldl_clean_elems [OF assms] by simp
    moreover have "clean_elem r [] [] = []" by (simp add: clean_elem_def)
    ultimately show ?thesis using False by (cases r) (simp_all add: path_of_def)
  qed
  then show "path_elems (path_of r es) = es" by (simp add: path_elems_def pre)
qed

lemma path_Clean_path_of: "clean_elems r es \<Longrightarrow> path_Clean (path_of r es) = path_of r es"
  by (simp add: path_Clean_def path_elems_path_of)

lemma path_Clean_idem [simp]: "path_Clean (path_Clean p) = path_Clean p"
  using path_Clean_path_of [OF clean_elems_path [of p]] by (simp add: path_Clean_def)

text \<open>The directory of a file is the one it was joined to.\<close>

lemma path_Dir_Join:
  assumes "CHR ''/'' \<notin> set x" and "x \<noteq> []" and "x \<noteq> ''.''" and "x \<noteq> ''..''" and "d \<noteq> []"
  shows "path_Dir (path_Join [d, x]) = path_Clean d"
proof -
  let ?r = "prefix ''/'' d" and ?es = "path_elems d"
  have "\<exists>u. path_of ?r (?es @ [x]) = u @ x \<and> (u = [] \<or> last u = CHR ''/'') \<and> path_Clean u = path_Clean d"
  proof (cases "?es = []")
    case True
    then have "path_Clean d = path_of ?r []" by (simp add: path_Clean_def)
    moreover have "path_Clean ''/'' = ''/''" "path_Clean [] = ''.''" by code_simp+
    ultimately show ?thesis using True by (cases ?r) (auto simp: path_of_def)
  next
    case False
    let ?p = "path_of ?r ?es"
    have "path_of ?r (?es @ [x]) = (?p @ ''/'') @ x" using False by (simp add: path_of_def join_inj_last)
    moreover have "path_Clean (?p @ ''/'') = path_Clean ?p"
    proof -
      have "?p \<noteq> []"
        using clean_elems_path [of d] False clean_elems_names [of ?r ?es "hd ?es"]
        by (cases ?es rule: remdups_adj.cases) (auto simp: path_of_def)
      then have "prefix ''/'' (?p @ ''/'') = prefix ''/'' ?p" by (cases ?p) auto
      then show ?thesis
        using split_on_snoc_sep [of "CHR ''/''" ?p "[]"]
        by (simp add: path_Clean_def path_elems_def clean_elem_def)
    qed
    moreover have "path_Clean ?p = path_Clean d" by (metis path_Clean_def path_Clean_idem)
    ultimately show ?thesis by (metis last_appendR last_ConsL list.distinct(1))
  qed
  then obtain u where u: "path_Join [d, x] = u @ x" "u = [] \<or> last u = CHR ''/''" "path_Clean u = path_Clean d"
    using path_Join_name [OF assms] by auto
  have "dropWhile (\<lambda>c. c \<noteq> CHR ''/'') (rev x @ rev u) = rev u"
    using u(2) assms(1) by (subst dropWhile_append2) (auto simp: neq_Nil_conv hd_rev dropWhile_eq_self_iff)
  then show ?thesis using u by (simp add: path_Dir_def)
qed


end
