(* ===== verification/Cni_Config.thy ===== *)
theory Cni_Config
  imports Cni_Ipam Go_Os
begin

text \<open>
  Network configurations: \<open>pkg/cni/config.go\<close> (the generators of CNI documents, of subnets, of
  VXLAN identifiers and of CNI names) and the file routines of \<open>pkg/cni/files.go\<close>. A document is
  a JSON value; the file routines act on the file system of \<open>Go_Os\<close>.
\<close>

subsection \<open>CNI documents\<close>

type_synonym config_generator = string

definition NewConfigGenerator :: config_generator where
  "NewConfigGenerator = DefaultCNIVersion"

definition GenerateBridgeConfig :: "config_generator \<Rightarrow> string \<Rightarrow> string \<Rightarrow> string \<Rightarrow> ip \<Rightarrow> json" where
  "GenerateBridgeConfig version name bridgeName subnet gateway = JObj [
     (''bridge'', JStr bridgeName),
     (''cniVersion'', JStr version),
     (''ipMasq'', JBool True),
     (''ipam'', JObj [
        (''gateway'', JStr (ip_String gateway)),
        (''subnet'', JStr subnet),
        (''type'', JStr ''host-local'')]),
     (''isGateway'', JBool True),
     (''name'', JStr name),
     (''type'', JStr ''bridge'')]"

definition GenerateVXLANConfig ::
    "config_generator \<Rightarrow> string \<Rightarrow> string \<Rightarrow> ip \<Rightarrow> uint32 \<Rightarrow> uint32 \<Rightarrow> json" where
  "GenerateVXLANConfig version name subnet gateway vxlanID vxlanPort = JObj [
     (''cniVersion'', JStr version),
     (''ipam'', JObj [
        (''gateway'', JStr (ip_String gateway)),
        (''subnet'', JStr subnet),
        (''type'', JStr ''host-local'')]),
     (''name'', JStr name),
     (''type'', JStr ''vxlan''),
     (''vxlanID'', JNum (uint vxlanID)),
     (''vxlanPort'', JNum (uint vxlanPort))]"

definition GenerateIngressConfig :: "config_generator \<Rightarrow> string \<Rightarrow> ip \<Rightarrow> json" where
  "GenerateIngressConfig version subnet gateway =
     GenerateBridgeConfig version IngressNetworkName (''br-'' @ IngressNetworkName) subnet gateway"

definition GenerateGWBridgeConfig :: "config_generator \<Rightarrow> json" where
  "GenerateGWBridgeConfig version = JObj [
     (''bridge'', JStr (''br-'' @ GWBridgeNetworkName)),
     (''cniVersion'', JStr version),
     (''ipMasq'', JBool True),
     (''ipam'', JObj [
        (''gateway'', JStr ''172.18.0.1''),
        (''routes'', JArr [JObj [(''dst'', JStr ''0.0.0.0/0'')]]),
        (''subnet'', JStr ''172.18.0.0/16''),
        (''type'', JStr ''host-local'')]),
     (''isGateway'', JBool True),
     (''mtu'', JNum 1500),
     (''name'', JStr GWBridgeNetworkName),
     (''type'', JStr ''bridge'')]"

definition GenerateLoopbackConfig :: "config_generator \<Rightarrow> json" where
  "GenerateLoopbackConfig version = JObj [
     (''cniVersion'', JStr version),
     (''name'', JStr ''lo''),
     (''type'', JStr ''loopback'')]"

subsection \<open>Configuration files\<close>

datatype file_error =
    MkdirFailed os_error
  | WriteFailed os_error
  | RemoveFailed os_error
  | ReadDirFailed os_error

definition WriteConfigFile :: "string \<Rightarrow> string \<Rightarrow> json \<Rightarrow> fsys \<Rightarrow> (file_error, unit) res \<times> fsys" where
  "WriteConfigFile configDir name config fs =
     (case os_MkdirAll configDir fs of
        (Inl e, fs') \<Rightarrow> (Inl (MkdirFailed e), fs')
      | (Inr _, fs') \<Rightarrow>
          (case os_WriteFile (path_Join [configDir, name @ ''.conf'']) (JsonFile config) fs' of
             (Inl e, fs'') \<Rightarrow> (Inl (WriteFailed e), fs'')
           | (Inr _, fs'') \<Rightarrow> (Inr (), fs'')))"

definition WriteConfigListFile ::
    "string \<Rightarrow> string \<Rightarrow> json list \<Rightarrow> fsys \<Rightarrow> (file_error, unit) res \<times> fsys" where
  "WriteConfigListFile configDir name configs fs =
     (case os_MkdirAll configDir fs of
        (Inl e, fs') \<Rightarrow> (Inl (MkdirFailed e), fs')
      | (Inr _, fs') \<Rightarrow>
          let list = JObj [(''cniVersion'', JStr DefaultCNIVersion), (''name'', JStr name),
                           (''plugins'', JArr configs)]
          in (case os_WriteFile (path_Join [configDir, name @ ''.conflist'']) (JsonFile list) fs' of
                (Inl e, fs'') \<Rightarrow> (Inl (WriteFailed e), fs'')
              | (Inr _, fs'') \<Rightarrow> (Inr (), fs'')))"

text \<open>
  \<open>writeFile\<close> cuts five characters off the file name and writes to the rest with \<open>.conf\<close> added.
  Both callers pass a name longer than that.
\<close>

definition writeFile :: "string \<Rightarrow> json \<Rightarrow> fsys \<Rightarrow> (file_error, unit) res \<times> fsys" where
  "writeFile filename data fs =
     WriteConfigFile (path_Dir filename) (path_Base (take (length filename - 5) filename)) data fs"

definition WriteConfig :: "string \<Rightarrow> string \<Rightarrow> json \<Rightarrow> fsys \<Rightarrow> (file_error, unit) res \<times> fsys" where
  "WriteConfig configDir name config fs =
     writeFile (configDir @ ''/'' @ name @ ''.conf'') config fs"

definition WriteConfigList ::
    "string \<Rightarrow> string \<Rightarrow> json list \<Rightarrow> fsys \<Rightarrow> (file_error, unit) res \<times> fsys" where
  "WriteConfigList configDir name configs fs =
     writeFile (configDir @ ''/'' @ name @ ''.conflist'')
       (JObj [(''cniVersion'', JStr DefaultCNIVersion), (''name'', JStr name), (''plugins'', JArr configs)]) fs"

text \<open>\<open>findPrefixEnd\<close>: the byte index of the first rune that is no decimal digit, 0 when there is none.\<close>

fun prefix_end :: "string \<Rightarrow> nat \<Rightarrow> nat" where
  "prefix_end [] i = 0"
| "prefix_end (c # cs) i = (if is_digit c then prefix_end cs (i + 1) else i)"

definition findPrefixEnd :: "string \<Rightarrow> nat" where
  "findPrefixEnd s = prefix_end s 0"

definition containsNetworkName :: "string \<Rightarrow> string \<Rightarrow> bool" where
  "containsNetworkName filename networkName =
     (let l = length filename;
          base = (if 5 < l \<and> drop (l - 5) filename = ''.conf'' then take (l - 5) filename
                  else if 10 < l \<and> drop (l - 10) filename = ''.conflist'' then take (l - 10) filename
                  else filename);
          idx = findPrefixEnd base;
          base' = (if 0 < idx \<and> idx < 4 then drop (idx + 1) base else base)
      in base' = networkName)"

text \<open>The loop of \<open>RemoveConfigFile\<close> over the files of the directory.\<close>

fun remove_matching ::
    "string \<Rightarrow> string \<Rightarrow> string list \<Rightarrow> fsys \<Rightarrow> (file_error, unit) res \<times> fsys" where
  "remove_matching configDir name [] fs = (Inr (), fs)"
| "remove_matching configDir name (f # files) fs =
     (if containsNetworkName f name then
        (case os_Remove (path_Join [configDir, f]) fs of
           (Inl e, fs') \<Rightarrow> (Inl (RemoveFailed e), fs')
         | (Inr _, fs') \<Rightarrow> remove_matching configDir name files fs')
      else remove_matching configDir name files fs)"

definition remove_found :: "string \<Rightarrow> fsys \<Rightarrow> (file_error, unit) res \<times> fsys" where
  "remove_found path fs =
     (case os_Remove path fs of
        (Inl e, fs') \<Rightarrow> (Inl (RemoveFailed e), fs')
      | (Inr _, fs') \<Rightarrow> (Inr (), fs'))"

definition RemoveConfigFile :: "string \<Rightarrow> string \<Rightarrow> fsys \<Rightarrow> (file_error, unit) res \<times> fsys" where
  "RemoveConfigFile configDir name fs =
     (let confPath = path_Join [configDir, name @ ''.conf''];
          conflistPath = path_Join [configDir, name @ ''.conflist'']
      in if os_exists fs confPath then remove_found confPath fs
         else if os_exists fs conflistPath then remove_found conflistPath fs
         else (case os_ReadDir configDir fs of
                 Inl (ErrNotExist d) \<Rightarrow> (Inr (), fs)
               | Inl e \<Rightarrow> (Inl (ReadDirFailed e), fs)
               | Inr files \<Rightarrow> remove_matching configDir name files fs))"

definition EnsureDir :: "string \<Rightarrow> fsys \<Rightarrow> (file_error, unit) res \<times> fsys" where
  "EnsureDir dir fs =
     (case os_MkdirAll dir fs of
        (Inl e, fs') \<Rightarrow> (Inl (MkdirFailed e), fs')
      | (Inr _, fs') \<Rightarrow> (Inr (), fs'))"

definition InitializeCNI :: "cni_config \<Rightarrow> fsys \<Rightarrow> (file_error, unit) res \<times> fsys" where
  "InitializeCNI config fs =
     (case EnsureDir (cfg_PluginDir config) fs of
        (Inl e, fs1) \<Rightarrow> (Inl e, fs1)
      | (Inr _, fs1) \<Rightarrow>
          (case EnsureDir (cfg_ConfigDir config) fs1 of
             (Inl e, fs2) \<Rightarrow> (Inl e, fs2)
           | (Inr _, fs2) \<Rightarrow>
               WriteConfigFile (cfg_ConfigDir config) ''lo'' (GenerateLoopbackConfig NewConfigGenerator) fs2))"

subsection \<open>Subnets, VXLAN identifiers and names\<close>

text \<open>Division of Go's integers, which rounds towards zero.\<close>

definition quot :: "int \<Rightarrow> int \<Rightarrow> int" where
  "quot a b = sgn a * sgn b * (\<bar>a\<bar> div \<bar>b\<bar>)"

datatype subnet_error =
    InvalidPool string
  | PoolNotIPv4
  | InvalidCombination

definition GenerateSubnet :: "string \<Rightarrow> int \<Rightarrow> uint32 \<Rightarrow> (subnet_error, string) res" where
  "GenerateSubnet poolCIDR subnetSize networkIndex =
     (case ParseCIDR poolCIDR of
        Inl e \<Rightarrow> Inl (InvalidPool e)
      | Inr (poolNet, poolIP) \<Rightarrow>
          (case To4 poolIP of
             None \<Rightarrow> Inl PoolNotIPv4
           | Some poolBase \<Rightarrow>
               let poolBits = fst (mask_Size (net_Mask poolNet));
                   offsetByte = quot (32 - int poolBits - subnetSize) 8
               in if offsetByte < 0 \<or> 3 < offsetByte then Inl InvalidCombination
                  else let o' = nat offsetByte;
                           ip1 = poolBase[o' := of_nat (unat networkIndex mod 256)];
                           ip2 = (if 0 < o' then ip1[o' - 1 := of_nat (unat networkIndex div 256 mod 256)] else ip1)
                       in Inr (dotted ip2 @ ''/'' @ dec_of_int subnetSize)))"

text \<open>The hash of the name is computed on the runes of the name, modulo 2 to the 32.\<close>

definition name_hash :: "string \<Rightarrow> uint32" where
  "name_hash s = foldl (\<lambda>h c. h * 31 + of_nat c) 0 (runes s)"

definition GenerateVXLANID :: "string \<Rightarrow> uint32 \<Rightarrow> uint32" where
  "GenerateVXLANID networkName baseID =
     (let vxlanID = (name_hash networkName + baseID) mod 16777215
      in if vxlanID < 1 then 1 else vxlanID)"

text \<open>
  The conversion of names works on runes. Of the runes that are not ASCII, two have a lower case
  in ASCII (U+0130 and U+212A); the lower case of every other one is dropped by the filter like
  the rune itself, so it is kept as it is.
\<close>

definition lower_rune :: "nat \<Rightarrow> nat" where
  "lower_rune r = (if 65 \<le> r \<and> r \<le> 90 then r + 32 else if r = 304 then 105 else if r = 8490 then 107 else r)"

definition name_rune :: "nat \<Rightarrow> bool" where
  "name_rune r \<longleftrightarrow> (97 \<le> r \<and> r \<le> 122) \<or> (48 \<le> r \<and> r \<le> 57) \<or> r = 95"

definition NetworkNameFromSwarmKit :: "string \<Rightarrow> string" where
  "NetworkNameFromSwarmKit name =
     map char_of (filter name_rune (map (\<lambda>r. if r = 45 then 95 else r) (map lower_rune (runes name))))"


subsection \<open>Generated subnets\<close>

definition subnet_period :: "int \<Rightarrow> nat" where
  "subnet_period offsetByte = (if offsetByte = 0 then 256 else 65536)"

lemma of_nat_byte_eq_iff: "(of_nat a :: byte) = of_nat b \<longleftrightarrow> a mod 256 = b mod 256"
  by (simp add: word_unat_eq_iff)

lemma mod_65536: "(a :: nat) mod 65536 = b mod 65536 \<longleftrightarrow> a mod 256 = b mod 256 \<and> a div 256 mod 256 = b div 256 mod 256"
proof -
  have "a mod (256 * 256) = 256 * (a div 256 mod 256) + a mod 256"
    and "b mod (256 * 256) = 256 * (b div 256 mod 256) + b mod 256"
    by (rule mod_mult2_eq)+
  then show ?thesis
    using mult_add_eq_iff [of "a mod 256" 256 "b mod 256" "a div 256 mod 256" "b div 256 mod 256"]
    by (auto simp: mult.commute)
qed

lemma index_bytes_eq_iff:
  assumes "length base = 4" and "0 \<le> off" and "off \<le> 3"
  shows "((base[nat off := of_nat a])[nat off - 1 := (if 0 < off then of_nat (a div 256) else of_nat a)] :: bytes) =
    (base[nat off := of_nat b])[nat off - 1 := (if 0 < off then of_nat (b div 256) else of_nat b)]
    \<longleftrightarrow> a mod subnet_period off = b mod subnet_period off"
proof -
  obtain b0 b1 b2 b3 where base: "base = [b0, b1, b2, b3]" using assms(1) by (rule length4_cases)
  consider "nat off = 0" "off = 0" | "nat off = Suc 0" "0 < off" | "nat off = Suc (Suc 0)" "0 < off"
    | "nat off = Suc (Suc (Suc 0))" "0 < off" using assms(2,3) by linarith
  then show ?thesis
    by cases (auto simp: base subnet_period_def of_nat_byte_eq_iff mod_65536)
qed

lemma GenerateSubnet_eq:
  assumes "ParseCIDR pool = Inr (n, a)" and "To4 a = Some base"
    and "off = quot (32 - int (fst (mask_Size (net_Mask n))) - sz) 8" and "0 \<le> off" and "off \<le> 3"
  shows "GenerateSubnet pool sz i =
    Inr (dotted ((base[nat off := of_nat (unat i)])[nat off - 1 :=
           (if 0 < off then of_nat (unat i div 256) else of_nat (unat i))]) @ ''/'' @ dec_of_int sz)"
proof -
  have "(of_nat (k mod 256) :: byte) = of_nat k" for k
    by (simp add: of_nat_byte_eq_iff)
  then show ?thesis
    using assms by (auto simp: GenerateSubnet_def Let_def simp flip: assms(3))
qed

text \<open>
  Two networks of a pool get the same subnet exactly when their indices agree modulo 256
  if the index goes to the first byte, and modulo 65536 otherwise. So the first 256 networks of a
  provider have different subnets, and later ones repeat them.
\<close>

theorem GenerateSubnet_same_iff:
  assumes "ParseCIDR pool = Inr (n, a)" and "To4 a = Some base"
    and "off = quot (32 - int (fst (mask_Size (net_Mask n))) - sz) 8" and "0 \<le> off" and "off \<le> 3"
  shows "GenerateSubnet pool sz i = GenerateSubnet pool sz j \<longleftrightarrow>
    unat i mod subnet_period off = unat j mod subnet_period off"
proof -
  let ?v = "\<lambda>i. (base[nat off := of_nat (unat i)])[nat off - 1 :=
      (if 0 < off then of_nat (unat i div 256) else of_nat (unat i))] :: byte list"
  have len: "length base = 4" using assms(2) by (rule To4_length)
  have "GenerateSubnet pool sz i = GenerateSubnet pool sz j \<longleftrightarrow> ?v i = ?v j"
    using dotted_inj [of "?v i" "?v j"] len by (simp add: GenerateSubnet_eq [OF assms])
  also have "\<dots> \<longleftrightarrow> unat i mod subnet_period off = unat j mod subnet_period off"
    by (rule index_bytes_eq_iff [OF len assms(4,5)])
  finally show ?thesis .
qed

theorem GenerateSubnet_same_iff_witness:
  "GenerateSubnet ''172.16.0.0/8'' 16 7 \<noteq> GenerateSubnet ''172.16.0.0/8'' 16 263"
proof -
  have p: "ParseCIDR ''172.16.0.0/8'' = Inr (v4_net [172, 16, 0, 0] 8, v4_mapped [172, 16, 0, 0])" by code_simp
  have off: "1 = quot (32 - int (fst (mask_Size (net_Mask (v4_net [172, 16, 0, 0] 8)))) - 16) 8" by code_simp
  show ?thesis
    using GenerateSubnet_same_iff [OF p _ off, of "[172, 16, 0, 0]" 7 263] by (simp add: subnet_period_def)
qed

text \<open>
  With the default pool \<open>10.0.0.0/8\<close> and the default size 24 the network index replaces
  the first byte of the address, so the subnet lies in the pool only for the indices that are 10
  modulo 256.
\<close>

theorem GenerateSubnet_default:
  "GenerateSubnet DefaultSubnetPool DefaultSubnetSize i = Inr (dotted [of_nat (unat i), 0, 0, 0] @ ''/24'') \<and>
   (Contains (v4_net [10, 0, 0, 0] 8) [of_nat (unat i), 0, 0, 0] \<longleftrightarrow> unat i mod 256 = 10)"
proof -
  have p: "ParseCIDR DefaultSubnetPool = Inr (v4_net [10, 0, 0, 0] 8, v4_mapped [10, 0, 0, 0])" by code_simp
  have off: "0 = quot (32 - int (fst (mask_Size (net_Mask (v4_net [10, 0, 0, 0] 8)))) - DefaultSubnetSize) 8" by code_simp
  have "dec_of_int DefaultSubnetSize = ''24''" by code_simp
  then have "GenerateSubnet DefaultSubnetPool DefaultSubnetSize i =
      Inr (dotted [of_nat (unat i), 0, 0, 0] @ ''/24'')"
    using GenerateSubnet_eq [OF p _ off, of "[10, 0, 0, 0]" i] by simp
  moreover have "Contains (v4_net [10, 0, 0, 0] 8) [of_nat k, 0, 0, 0] \<longleftrightarrow> k mod 256 = 10" for k
    using Contains_v4_net [of "[10, 0, 0, 0]" 8 "[of_nat k, 0, 0, 0]"] by simp
  ultimately show ?thesis by blast
qed

subsection \<open>VXLAN identifiers\<close>

lemma vxlan_id_bounds:
  "1 \<le> GenerateVXLANID name base \<and> GenerateVXLANID name base \<le> 16777214"
proof -
  let ?v = "(name_hash name + base) mod 16777215"
  have "uint ?v = uint (name_hash name + base) mod 16777215"
    by (simp add: uint_mod)
  then have "uint ?v < 16777215" by simp
  then have "?v \<le> 16777214" by (simp add: word_le_def)
  moreover have "\<not> ?v < 1 \<Longrightarrow> 1 \<le> ?v" by (simp only: not_less)
  ultimately show ?thesis by (auto simp: GenerateVXLANID_def Let_def)
qed

text \<open>
  A generated VXLAN identifier is a valid 24-bit VNI other than 0, whatever the name and
  the base, with the hash computed modulo 2 to the 32.
\<close>

theorem GenerateVXLANID_bounds:
  "1 \<le> unat (GenerateVXLANID name base) \<and> unat (GenerateVXLANID name base) < 2 ^ 24 - 1"
  using vxlan_id_bounds [of name base] by (simp add: word_le_nat_alt)

subsection \<open>CNI names\<close>

definition name_char :: "char \<Rightarrow> bool" where
  "name_char c \<longleftrightarrow> name_rune (of_char c)"

lemma name_rune_lt: "name_rune r \<Longrightarrow> r < 128"
  by (auto simp: name_rune_def)

lemma name_rune_stable:
  "name_rune r \<Longrightarrow> lower_rune r = r \<and> r \<noteq> 45"
  by (auto simp: name_rune_def lower_rune_def)

lemma NetworkName_id:
  assumes "\<forall>c \<in> set s. name_char c"
  shows "NetworkNameFromSwarmKit s = s"
proof -
  have "runes s = map of_char s"
    using assms name_rune_lt by (intro runes_ascii) (auto simp: name_char_def)
  then have "map (\<lambda>r. if r = 45 then 95 else r) (map lower_rune (runes s)) = map of_char s"
    using assms name_rune_stable by (auto simp: name_char_def)
  moreover have "filter name_rune (map of_char s) = map of_char s"
    using assms by (auto simp: filter_id_conv name_char_def)
  ultimately show ?thesis by (simp add: NetworkNameFromSwarmKit_def comp_def)
qed

lemma NetworkName_chars: "c \<in> set (NetworkNameFromSwarmKit s) \<Longrightarrow> name_char c"
proof -
  assume "c \<in> set (NetworkNameFromSwarmKit s)"
  then obtain r where "c = char_of r" "name_rune r" by (auto simp: NetworkNameFromSwarmKit_def)
  then show ?thesis using name_rune_lt [of r] by (simp add: name_char_def)
qed

text \<open>
  A converted name holds only lower-case letters, digits and underscores, and converting
  it again changes nothing.
\<close>

theorem NetworkNameFromSwarmKit_normal:
  "list_all name_char (NetworkNameFromSwarmKit s) \<and>
   NetworkNameFromSwarmKit (NetworkNameFromSwarmKit s) = NetworkNameFromSwarmKit s"
  using NetworkName_chars NetworkName_id by (auto simp: list_all_iff)


subsection \<open>Writing, finding and removing configuration files\<close>

text \<open>The name of a configuration file: one element of a path.\<close>

definition file_name :: "string \<Rightarrow> bool" where
  "file_name s \<longleftrightarrow> CHR ''/'' \<notin> set s \<and> s \<noteq> [] \<and> s \<noteq> ''.'' \<and> s \<noteq> ''..''"

lemma file_name_ext: "CHR ''/'' \<notin> set n \<Longrightarrow> file_name (n @ ''.conf'') \<and> file_name (n @ ''.conflist'')"
  by (auto simp: file_name_def Cons_eq_append_conv append_eq_Cons_conv)

lemma path_Dir_Join_name: "file_name x \<Longrightarrow> d \<noteq> [] \<Longrightarrow> path_Dir (path_Join [d, x]) = path_Clean d"
  using path_Dir_Join by (simp add: file_name_def)

lemma path_Clean_in_ancestors: "path_Clean d \<in> set (path_ancestors d)"
  by (simp add: path_ancestors_def path_Clean_def Let_def)

lemma WriteConfigFile_ok:
  assumes "CHR ''/'' \<notin> set name" and "d \<noteq> []"
    and "path_Clean d \<notin> set (fs_denied fs)" and "path_Clean (path_Join [d, name @ ''.conf'']) \<notin> set (fs_denied fs)"
  shows "WriteConfigFile d name config fs =
    (Inr (), fs\<lparr>fs_dirs := fs_dirs fs @ path_ancestors d,
      fs_files := AList.update (path_Clean (path_Join [d, name @ ''.conf''])) (JsonFile config) (fs_files fs)\<rparr>)"
  using assms path_Dir_Join_name [of "name @ ''.conf''" d] file_name_ext [OF assms(1)] path_Clean_in_ancestors [of d]
  by (simp add: WriteConfigFile_def os_MkdirAll_def os_WriteFile_def)

text \<open>The path that \<open>WriteConfig\<close> cuts and puts together again.\<close>

lemma path_Base_snoc:
  assumes "CHR ''/'' \<notin> set x" and "x \<noteq> []"
  shows "path_Base (u @ CHR ''/'' # x) = x"
proof -
  have rx: "rev x \<noteq> []" "CHR ''/'' \<notin> set (rev x)" using assms by simp_all
  then have "dropWhile (\<lambda>c. c = CHR ''/'') (rev x @ CHR ''/'' # rev u) = rev x @ CHR ''/'' # rev u"
    by (cases "rev x") auto
  moreover have "takeWhile (\<lambda>c. c \<noteq> CHR ''/'') (rev x @ CHR ''/'' # rev u) = rev x"
    using rx by (subst takeWhile_append2) auto
  ultimately show ?thesis using assms by (simp add: path_Base_def Let_def)
qed

lemma path_Dir_snoc:
  assumes "CHR ''/'' \<notin> set x"
  shows "path_Dir (d @ CHR ''/'' # x) = path_Clean (d @ ''/'')"
proof -
  have "dropWhile (\<lambda>c. c \<noteq> CHR ''/'') (rev x @ CHR ''/'' # rev d) = CHR ''/'' # rev d"
    using assms by (subst dropWhile_append2) auto
  then show ?thesis by (simp add: path_Dir_def)
qed

lemma path_Clean_snoc_sep: "d \<noteq> [] \<Longrightarrow> path_Clean (d @ ''/'') = path_Clean d"
proof -
  assume "d \<noteq> []"
  then have "prefix ''/'' (d @ ''/'') = prefix ''/'' d" by (cases d) auto
  then show ?thesis
    using split_on_snoc_sep [of "CHR ''/''" d "[]"] by (simp add: path_Clean_def path_elems_def clean_elem_def)
qed

lemma WriteConfig_eq:
  assumes "CHR ''/'' \<notin> set name" and "name \<noteq> []" and "d \<noteq> []"
  shows "WriteConfig d name config fs = WriteConfigFile (path_Clean d) name config fs"
proof -
  let ?f = "d @ ''/'' @ name @ ''.conf''"
  have "take (length ?f - 5) ?f = d @ CHR ''/'' # name" by simp
  then have "path_Base (take (length ?f - 5) ?f) = name" using path_Base_snoc [OF assms(1,2)] by simp
  moreover have "path_Dir ?f = path_Clean d"
    using path_Dir_snoc [of "name @ ''.conf''" d] path_Clean_snoc_sep [OF assms(3)] assms(1) by simp
  ultimately show ?thesis by (simp add: WriteConfig_def writeFile_def)
qed

lemma WriteConfigList_eq:
  assumes "CHR ''/'' \<notin> set name" and "d \<noteq> []"
  shows "WriteConfigList d name cs fs = WriteConfigFile (path_Clean d) (name @ ''.con'')
    (JObj [(''cniVersion'', JStr DefaultCNIVersion), (''name'', JStr name), (''plugins'', JArr cs)]) fs"
proof -
  let ?f = "d @ ''/'' @ name @ ''.conflist''"
  have f: "?f = (d @ CHR ''/'' # name @ ''.con'') @ ''flist''" by simp
  have "take (length (u @ ''flist'') - 5) (u @ ''flist'') = u" for u :: string by simp
  then have "take (length ?f - 5) ?f = d @ CHR ''/'' # (name @ ''.con'')" unfolding f .
  moreover have "path_Base (d @ CHR ''/'' # (name @ ''.con'')) = name @ ''.con''"
    by (rule path_Base_snoc) (use assms in auto)
  ultimately have "path_Base (take (length ?f - 5) ?f) = name @ ''.con''" by simp
  moreover have "path_Dir ?f = path_Clean d"
    using path_Dir_snoc [of "name @ ''.conflist''" d] path_Clean_snoc_sep [OF assms(2)] assms(1) by simp
  ultimately show ?thesis by (simp add: WriteConfigList_def writeFile_def)
qed


lemma path_Join_Clean:
  assumes "file_name x" and "d \<noteq> []"
  shows "path_Join [path_Clean d, x] = path_Join [d, x]"
proof -
  have r: "prefix ''/'' (path_Clean d) = prefix ''/'' d" "path_elems (path_Clean d) = path_elems d"
    using path_elems_path_of [OF clean_elems_path [of d]] by (simp_all add: path_Clean_def)
  have "path_Clean d \<noteq> []"
  proof
    assume "path_Clean d = []"
    then have "path_elems d = [] \<and> \<not> prefix ''/'' d" using r by (simp add: path_elems_def clean_elem_def)
    then show False using \<open>path_Clean d = []\<close> by (simp add: path_Clean_def path_of_def)
  qed
  then show ?thesis using path_Join_name [of x] assms r by (simp add: file_name_def)
qed

lemma WriteConfigFile_SomeD:
  assumes "CHR ''/'' \<notin> set name" and "d \<noteq> []" and "WriteConfigFile (path_Clean d) name config fs = (Inr (), fs')"
  shows "fs' = fs\<lparr>fs_dirs := fs_dirs fs @ path_ancestors (path_Clean d),
      fs_files := AList.update (path_Clean (path_Join [d, name @ ''.conf''])) (JsonFile config) (fs_files fs)\<rparr>"
    and "path_Clean (path_Join [d, name @ ''.conf'']) \<notin> set (fs_denied fs)"
proof -
  let ?p = "path_Join [d, name @ ''.conf'']"
  have join: "path_Join [path_Clean d, name @ ''.conf''] = ?p"
    using path_Join_Clean file_name_ext [OF assms(1)] assms(2) by blast
  show den: "path_Clean ?p \<notin> set (fs_denied fs)"
    using assms(3) join by (auto simp: WriteConfigFile_def os_MkdirAll_def os_WriteFile_def split: if_splits)
  show "fs' = fs\<lparr>fs_dirs := fs_dirs fs @ path_ancestors (path_Clean d),
      fs_files := AList.update (path_Clean ?p) (JsonFile config) (fs_files fs)\<rparr>"
    using assms(3) join by (auto simp: WriteConfigFile_def os_MkdirAll_def os_WriteFile_def split: if_splits)
qed

lemma file_at_update:
  "file_at (fs\<lparr>fs_dirs := ds, fs_files := AList.update (path_Clean p) v (fs_files fs)\<rparr>) q =
    (if path_Clean q = path_Clean p then Some v else file_at fs q)"
  by (simp add: file_at_def update_conv')

text \<open>
  A network configuration that \<open>WriteConfig\<close> wrote is what is read back from the file
  \<open>name.conf\<close> of the configuration directory, and no other file changes.
\<close>

theorem WriteConfig_read_back:
  assumes "CHR ''/'' \<notin> set name" and "name \<noteq> []" and "d \<noteq> []"
    and "WriteConfig d name config fs = (Inr (), fs')"
  shows "os_ReadFile (path_Join [d, name @ ''.conf'']) fs' = Inr (JsonFile config) \<and>
    (\<forall>q. path_Clean q \<noteq> path_Clean (path_Join [d, name @ ''.conf'']) \<longrightarrow> file_at fs' q = file_at fs q)"
proof -
  have "WriteConfigFile (path_Clean d) name config fs = (Inr (), fs')"
    using assms(4) WriteConfig_eq [OF assms(1-3)] by simp
  note w = WriteConfigFile_SomeD [OF assms(1,3) this]
  then show ?thesis by (simp add: os_ReadFile_def file_at_update)
qed

definition empty_fs :: fsys where
  "empty_fs = \<lparr>fs_files = [], fs_dirs = [''/''], fs_denied = []\<rparr>"

theorem WriteConfig_read_back_witness:
  "os_ReadFile (path_Join [''/etc/cni/net.d'', ''lo'' @ ''.conf''])
     (snd (WriteConfig ''/etc/cni/net.d'' ''lo'' (GenerateLoopbackConfig NewConfigGenerator) empty_fs)) =
   Inr (JsonFile (GenerateLoopbackConfig NewConfigGenerator))"
proof -
  let ?r = "WriteConfig ''/etc/cni/net.d'' ''lo'' (GenerateLoopbackConfig NewConfigGenerator) empty_fs"
  have "fst ?r = Inr ()" by code_simp
  then have "?r = (Inr (), snd ?r)" by (metis prod.collapse)
  from WriteConfig_read_back [OF _ _ _ this] show ?thesis by simp
qed

text \<open>
  \<open>WriteConfigList\<close> does not write the file \<open>name.conflist\<close>, which the plugin manager
  looks for: a successful call leaves it as it was and writes \<open>name.con.conf\<close>.
\<close>

theorem WriteConfigList_wrong_file:
  assumes "CHR ''/'' \<notin> set name" and "d \<noteq> []" and "WriteConfigList d name cs fs = (Inr (), fs')"
  shows "file_at fs' (path_Join [d, name @ ''.conflist'']) = file_at fs (path_Join [d, name @ ''.conflist'']) \<and>
    (\<exists>j. file_at fs' (path_Join [d, name @ ''.con.conf'']) = Some (JsonFile j))"
proof -
  have n: "CHR ''/'' \<notin> set (name @ ''.con'')" using assms(1) by simp
  have files: "file_name (name @ ''.con.conf'')" "file_name (name @ ''.conflist'')"
    using file_name_ext [OF n] file_name_ext [OF assms(1)] by simp_all
  have clean: "path_Clean (path_Join [d, x]) = path_Join [d, x]" if "file_name x" for x
  proof -
    have "clean_elems (prefix ''/'' d) (path_elems d @ [x])"
      using clean_elems_snoc [OF clean_elems_path] that by (simp add: file_name_def)
    then show ?thesis using path_Join_name [of x d] path_Clean_path_of that assms(2) by (simp add: file_name_def)
  qed
  have "path_Join [d, name @ ''.conflist''] \<noteq> path_Join [d, name @ ''.con.conf'']"
    using path_Join_inj [of "name @ ''.conflist''" "name @ ''.con.conf''" d] files assms(2)
    by (simp add: file_name_def)
  moreover have "WriteConfigFile (path_Clean d) (name @ ''.con'') (JObj [(''cniVersion'', JStr DefaultCNIVersion),
      (''name'', JStr name), (''plugins'', JArr cs)]) fs = (Inr (), fs')"
    using assms(3) WriteConfigList_eq [OF assms(1,2)] by simp
  note w = WriteConfigFile_SomeD(1) [OF n assms(2) this]
  ultimately show ?thesis
    using clean files unfolding w file_at_update by simp
qed

theorem WriteConfigList_wrong_file_witness:
  "file_at (snd (WriteConfigList ''/etc/cni'' ''net'' [] empty_fs)) (path_Join [''/etc/cni'', ''net'' @ ''.conflist'']) =
   file_at empty_fs (path_Join [''/etc/cni'', ''net'' @ ''.conflist''])"
proof -
  let ?r = "WriteConfigList ''/etc/cni'' ''net'' [] empty_fs"
  have "fst ?r = Inr ()" by code_simp
  then have "?r = (Inr (), snd ?r)" by (metis prod.collapse)
  from WriteConfigList_wrong_file [OF _ _ this] show ?thesis by simp
qed

text \<open>
  Removing a configuration after writing it leaves no file for the name: after
  \<open>WriteConfigFile\<close> and \<open>RemoveConfigFile\<close> the file \<open>name.conf\<close> is gone, and every other file is as
  it was before.
\<close>

theorem RemoveConfigFile_after_write:
  assumes "CHR ''/'' \<notin> set name" and "d \<noteq> []"
    and "WriteConfigFile (path_Clean d) name config fs = (Inr (), fs')"
  shows "\<exists>fs''. RemoveConfigFile d name fs' = (Inr (), fs'') \<and>
    file_at fs'' (path_Join [d, name @ ''.conf'']) = None \<and>
    (\<forall>q. path_Clean q \<noteq> path_Clean (path_Join [d, name @ ''.conf'']) \<longrightarrow> file_at fs'' q = file_at fs q)"
proof -
  let ?p = "path_Join [d, name @ ''.conf'']"
  note w = WriteConfigFile_SomeD [OF assms]
  have there: "file_at fs' ?p = Some (JsonFile config)" and rest: "path_Clean q \<noteq> path_Clean ?p \<Longrightarrow> file_at fs' q = file_at fs q" for q
    by (simp_all add: w(1) file_at_update)
  have "path_Clean ?p \<notin> set (fs_denied fs')" using w by simp
  then have "RemoveConfigFile d name fs' = (Inr (), fs'\<lparr>fs_files := AList.delete (path_Clean ?p) (fs_files fs')\<rparr>)"
    using there by (simp add: RemoveConfigFile_def remove_found_def os_exists_def os_Remove_def)
  then show ?thesis using rest by (auto simp: file_at_def delete_conv')
qed

theorem RemoveConfigFile_after_write_witness:
  "\<exists>fs''. RemoveConfigFile ''/etc/cni'' ''web''
       (snd (WriteConfigFile (path_Clean ''/etc/cni'') ''web'' (JObj []) empty_fs)) = (Inr (), fs'') \<and>
     file_at fs'' (path_Join [''/etc/cni'', ''web'' @ ''.conf'']) = None"
proof -
  let ?r = "WriteConfigFile (path_Clean ''/etc/cni'') ''web'' (JObj []) empty_fs"
  have "fst ?r = Inr ()" by code_simp
  then have "?r = (Inr (), snd ?r)" by (metis prod.collapse)
  from RemoveConfigFile_after_write [OF _ _ this] show ?thesis by auto
qed

end
