(* ===== verification/Cni_Plugins.thy ===== *)
theory Cni_Plugins
  imports Cni_Config
begin

text \<open>
  The plugin manager of \<open>pkg/cni/plugin_manager.go\<close>: finding the configuration of a network,
  building the environment of a CNI call and running the plugin. The command executor
  (\<open>pkg/cni/executor.go\<close>, a process of the operating system) is an argument: it maps the path of
  the plugin, the configuration on its standard input and the environment to the error text, or
  to the document the plugin prints (\<open>None\<close> when its output is no JSON object).
\<close>

record plugin_manager =
  pm_pluginDir :: string
  pm_configDir :: string
  pm_env :: "string list"

type_synonym plugin_exec = "string \<Rightarrow> json \<Rightarrow> string list \<Rightarrow> (string, json option) res"

record cni_network_config =
  nc_CNIVersion :: string
  nc_Name :: string
  nc_Type :: string
  nc_RawConfig :: json

datatype plugin_error =
    ConflistUnreadable os_error
  | ConflistNotJson
  | NoPluginsInConflist
  | PluginEntryPanic
  | ConfUnreadable os_error
  | ConfNotJson
  | ConfigDirUnreadable os_error
  | ConfigNotFound string
  | PluginNotFound string
  | PluginFailed string
  | ResultNotJson
  | RequiredPluginMissing string

definition NewPluginManager :: "string \<Rightarrow> string \<Rightarrow> plugin_manager" where
  "NewPluginManager pluginDir configDir = \<lparr>pm_pluginDir = pluginDir, pm_configDir = configDir, pm_env = []\<rparr>"

definition WithEnv :: "string list \<Rightarrow> plugin_manager \<Rightarrow> plugin_manager" where
  "WithEnv env m = m\<lparr>pm_env := pm_env m @ env\<rparr>"

definition parsePluginConfig :: "json \<Rightarrow> cni_network_config" where
  "parsePluginConfig config = \<lparr>
     nc_CNIVersion = (case json_string_field ''cniVersion'' config of Some v \<Rightarrow> v | None \<Rightarrow> DefaultCNIVersion),
     nc_Name = (case json_string_field ''name'' config of Some v \<Rightarrow> v | None \<Rightarrow> []),
     nc_Type = (case json_string_field ''type'' config of Some v \<Rightarrow> v | None \<Rightarrow> []),
     nc_RawConfig = config\<rparr>"

text \<open>\<open>json.Unmarshal\<close> into a map: only an object is accepted.\<close>

definition as_object :: "fdata \<Rightarrow> json option" where
  "as_object d = (case d of JsonFile (JObj fs) \<Rightarrow> Some (JObj fs) | _ \<Rightarrow> None)"

definition load_conflist :: "string \<Rightarrow> fsys \<Rightarrow> (plugin_error, cni_network_config) res" where
  "load_conflist path fs =
     (case os_ReadFile path fs of
        Inl e \<Rightarrow> Inl (ConflistUnreadable e)
      | Inr d \<Rightarrow>
          (case as_object d of
             None \<Rightarrow> Inl ConflistNotJson
           | Some conflist \<Rightarrow>
               (case json_field ''plugins'' conflist of
                  Some (JArr (pl # pls)) \<Rightarrow>
                    (case pl of JObj fds \<Rightarrow> Inr (parsePluginConfig (JObj fds)) | _ \<Rightarrow> Inl PluginEntryPanic)
                | _ \<Rightarrow> Inl NoPluginsInConflist)))"

definition load_conf :: "string \<Rightarrow> fsys \<Rightarrow> (plugin_error, cni_network_config) res" where
  "load_conf path fs =
     (case os_ReadFile path fs of
        Inl e \<Rightarrow> Inl (ConfUnreadable e)
      | Inr d \<Rightarrow> (case as_object d of None \<Rightarrow> Inl ConfNotJson | Some j \<Rightarrow> Inr (parsePluginConfig j)))"

text \<open>The search in the numbered files; a file that cannot be read or parsed is skipped.\<close>

fun search_configs :: "string \<Rightarrow> string \<Rightarrow> fsys \<Rightarrow> string list \<Rightarrow> cni_network_config option" where
  "search_configs dir netName fs [] = None"
| "search_configs dir netName fs (name # names) =
     (if (sublist netName name \<and> suffix ''.conf'' name) \<or> suffix ''.conflist'' name then
        (case os_ReadFile (path_Join [dir, name]) fs of
           Inl e \<Rightarrow> search_configs dir netName fs names
         | Inr d \<Rightarrow>
             (case as_object d of
                None \<Rightarrow> search_configs dir netName fs names
              | Some j \<Rightarrow>
                  if json_string_field ''name'' j = Some netName then Some (parsePluginConfig j)
                  else search_configs dir netName fs names))
      else search_configs dir netName fs names)"

definition loadNetworkConfig ::
    "string \<Rightarrow> plugin_manager \<Rightarrow> fsys \<Rightarrow> (plugin_error, cni_network_config) res" where
  "loadNetworkConfig netName m fs =
     (let conflistPath = path_Join [pm_configDir m, netName @ ''.conflist''];
          confPath = path_Join [pm_configDir m, netName @ ''.conf'']
      in if os_exists fs conflistPath then load_conflist conflistPath fs
         else if os_exists fs confPath then load_conf confPath fs
         else (case os_ReadDir (pm_configDir m) fs of
                 Inl e \<Rightarrow> Inl (ConfigDirUnreadable e)
               | Inr files \<Rightarrow>
                   (case search_configs (pm_configDir m) netName fs files of
                      Some c \<Rightarrow> Inr c
                    | None \<Rightarrow> Inl (ConfigNotFound netName))))"

text \<open>
  \<open>buildCNIArgs\<close>: the additional arguments are joined in the order in which the runtime iterates
  over the map, given as the list of its entries.
\<close>

definition buildCNIArgs :: "string \<Rightarrow> string \<Rightarrow> (string \<times> string) list \<Rightarrow> plugin_manager \<Rightarrow> string list" where
  "buildCNIArgs containerID ifName args m =
     [''CNI_COMMAND=ADD'', ''CNI_CONTAINERID='' @ containerID, ''CNI_IFNAME='' @ ifName,
      ''CNI_PATH='' @ pm_pluginDir m] @
     (if args = [] then []
      else [''CNI_ARGS='' @ join '';'' (map (\<lambda>(k, v). k @ ''='' @ v) args)])"

definition override_command :: "string \<Rightarrow> string list \<Rightarrow> string list" where
  "override_command command cniArgs =
     map (\<lambda>arg. if prefix ''CNI_COMMAND='' arg then ''CNI_COMMAND='' @ command else arg) cniArgs"

definition executePlugin ::
    "plugin_exec \<Rightarrow> string \<Rightarrow> string \<Rightarrow> cni_network_config \<Rightarrow> string list \<Rightarrow> plugin_manager
      \<Rightarrow> (plugin_error, json option) res" where
  "executePlugin exec pluginPath command config cniArgs m =
     (case exec pluginPath (nc_RawConfig config) (override_command command cniArgs @ pm_env m) of
        Inl stderr \<Rightarrow> Inl (PluginFailed stderr)
      | Inr stdout \<Rightarrow> if command = ''DEL'' then Inr None else Inr stdout)"

text \<open>The common part of \<open>Add\<close>, \<open>Del\<close> and \<open>Check\<close>: load the configuration, find and run the plugin.\<close>

definition run_plugin ::
    "plugin_exec \<Rightarrow> string \<Rightarrow> string \<Rightarrow> string \<Rightarrow> string \<Rightarrow> (string \<times> string) list \<Rightarrow> plugin_manager \<Rightarrow> fsys
      \<Rightarrow> (plugin_error, json option) res" where
  "run_plugin exec command netName containerID ifName args m fs =
     (case loadNetworkConfig netName m fs of
        Inl e \<Rightarrow> Inl e
      | Inr config \<Rightarrow>
          let cniArgs = buildCNIArgs containerID ifName args m;
              pluginPath = path_Join [pm_pluginDir m, nc_Type config]
          in if \<not> os_exists fs pluginPath then Inl (PluginNotFound (nc_Type config))
             else executePlugin exec pluginPath command config cniArgs m)"

definition plugin_Add ::
    "plugin_exec \<Rightarrow> string \<Rightarrow> string \<Rightarrow> string \<Rightarrow> (string \<times> string) list \<Rightarrow> plugin_manager \<Rightarrow> fsys
      \<Rightarrow> (plugin_error, json) res" where
  "plugin_Add exec netName containerID ifName args m fs =
     (case run_plugin exec ''ADD'' netName containerID ifName args m fs of
        Inl e \<Rightarrow> Inl e
      | Inr None \<Rightarrow> Inl ResultNotJson
      | Inr (Some j) \<Rightarrow> Inr j)"

definition plugin_Del ::
    "plugin_exec \<Rightarrow> string \<Rightarrow> string \<Rightarrow> string \<Rightarrow> (string \<times> string) list \<Rightarrow> plugin_manager \<Rightarrow> fsys
      \<Rightarrow> (plugin_error, unit) res" where
  "plugin_Del exec netName containerID ifName args m fs =
     map_sum id (\<lambda>_. ()) (run_plugin exec ''DEL'' netName containerID ifName args m fs)"

definition plugin_Check ::
    "plugin_exec \<Rightarrow> string \<Rightarrow> string \<Rightarrow> string \<Rightarrow> (string \<times> string) list \<Rightarrow> plugin_manager \<Rightarrow> fsys
      \<Rightarrow> (plugin_error, unit) res" where
  "plugin_Check exec netName containerID ifName args m fs =
     map_sum id (\<lambda>_. ()) (run_plugin exec ''CHECK'' netName containerID ifName args m fs)"

definition PluginExists :: "string \<Rightarrow> plugin_manager \<Rightarrow> fsys \<Rightarrow> bool" where
  "PluginExists pluginName m fs = os_exists fs (path_Join [pm_pluginDir m, pluginName])"

fun first_missing :: "string list \<Rightarrow> plugin_manager \<Rightarrow> fsys \<Rightarrow> string option" where
  "first_missing [] m fs = None"
| "first_missing (p # ps) m fs = (if PluginExists p m fs then first_missing ps m fs else Some p)"

definition requiredPlugins :: "string list" where
  "requiredPlugins = [''bridge'', ''host-local'', ''loopback'']"

definition ValidatePlugins :: "plugin_manager \<Rightarrow> fsys \<Rightarrow> (plugin_error, unit) res" where
  "ValidatePlugins m fs =
     (case first_missing requiredPlugins m fs of None \<Rightarrow> Inr () | Some p \<Rightarrow> Inl (RequiredPluginMissing p))"

definition ListAvailablePlugins :: "plugin_manager \<Rightarrow> fsys \<Rightarrow> (plugin_error, string list) res" where
  "ListAvailablePlugins m fs =
     (case os_ReadDir (pm_pluginDir m) fs of Inl e \<Rightarrow> Inl (ConfigDirUnreadable e) | Inr names \<Rightarrow> Inr names)"

definition config_base :: "string \<Rightarrow> string" where
  "config_base name =
     (let base = trim_suffix ''.conflist'' (trim_suffix ''.conf'' name)
      in case cut (CHR ''-'') base of
           None \<Rightarrow> base
         | Some (pre, rest) \<Rightarrow> if 0 < length pre \<and> length pre < 4 then rest else base)"

definition ListNetworkConfigs :: "plugin_manager \<Rightarrow> fsys \<Rightarrow> (plugin_error, string list) res" where
  "ListNetworkConfigs m fs =
     (case os_ReadDir (pm_configDir m) fs of
        Inl (ErrNotExist d) \<Rightarrow> Inr []
      | Inl e \<Rightarrow> Inl (ConfigDirUnreadable e)
      | Inr names \<Rightarrow> Inr (map config_base (filter (\<lambda>n. suffix ''.conf'' n \<or> suffix ''.conflist'' n) names)))"

subsection \<open>Correctness\<close>

text \<open>
  What the provider writes, the plugin manager finds: after \<open>WriteConfig\<close> of a bridge
  network, and when no \<open>conflist\<close> of that name shadows it, \<open>loadNetworkConfig\<close> returns exactly that
  document, with the name of the network and the plugin type \<open>bridge\<close>.
\<close>

theorem load_after_WriteConfig:
  assumes "CHR ''/'' \<notin> set name" and "name \<noteq> []" and "pm_configDir m \<noteq> []"
    and "WriteConfig (pm_configDir m) name (GenerateBridgeConfig v name br sub gw) fs = (Inr (), fs')"
    and "\<not> os_exists fs' (path_Join [pm_configDir m, name @ ''.conflist''])"
  shows "loadNetworkConfig name m fs' =
    Inr \<lparr>nc_CNIVersion = v, nc_Name = name, nc_Type = ''bridge'',
         nc_RawConfig = GenerateBridgeConfig v name br sub gw\<rparr>"
proof -
  let ?d = "pm_configDir m" and ?j = "GenerateBridgeConfig v name br sub gw"
  have "WriteConfigFile (path_Clean ?d) name ?j fs = (Inr (), fs')"
    using assms(4) WriteConfig_eq [OF assms(1-3)] by simp
  note w = WriteConfigFile_SomeD [OF assms(1,3) this]
  have "os_ReadFile (path_Join [?d, name @ ''.conf'']) fs' = Inr (JsonFile ?j)"
    using w by (simp add: os_ReadFile_def file_at_update)
  moreover have "os_exists fs' (path_Join [?d, name @ ''.conf''])"
    by (simp add: os_exists_def w(1) file_at_update)
  moreover have "parsePluginConfig ?j = \<lparr>nc_CNIVersion = v, nc_Name = name, nc_Type = ''bridge'', nc_RawConfig = ?j\<rparr>"
    by (simp add: parsePluginConfig_def json_string_field_def json_field_def GenerateBridgeConfig_def)
  ultimately show ?thesis
    using assms(5) by (simp add: loadNetworkConfig_def load_conf_def as_object_def GenerateBridgeConfig_def)
qed

theorem load_after_WriteConfig_witness:
  "loadNetworkConfig ''web'' (NewPluginManager ''/opt/cni/bin'' ''/etc/cni/net.d'')
     (snd (WriteConfig ''/etc/cni/net.d'' ''web'' (GenerateBridgeConfig ''1.0.0'' ''web'' ''br-web'' ''10.1.0.0/24'' [10, 1, 0, 1]) empty_fs)) =
   Inr \<lparr>nc_CNIVersion = ''1.0.0'', nc_Name = ''web'', nc_Type = ''bridge'',
        nc_RawConfig = GenerateBridgeConfig ''1.0.0'' ''web'' ''br-web'' ''10.1.0.0/24'' [10, 1, 0, 1]\<rparr>"
proof -
  let ?m = "NewPluginManager ''/opt/cni/bin'' ''/etc/cni/net.d''"
  let ?r = "WriteConfig (pm_configDir ?m) ''web'' (GenerateBridgeConfig ''1.0.0'' ''web'' ''br-web'' ''10.1.0.0/24'' [10, 1, 0, 1]) empty_fs"
  have "fst ?r = Inr ()" by code_simp
  then have r: "?r = (Inr (), snd ?r)" by (metis prod.collapse)
  have no: "\<not> os_exists (snd ?r) (path_Join [pm_configDir ?m, ''web'' @ ''.conflist''])" by code_simp
  have d: "pm_configDir ?m \<noteq> []" by (simp add: NewPluginManager_def)
  from load_after_WriteConfig [OF _ _ d r no] show ?thesis by (simp add: NewPluginManager_def)
qed

text \<open>
  A plugin is run with exactly one \<open>CNI_COMMAND\<close> entry, first in its environment and
  naming the command of the call, whatever the additional arguments, followed by the container,
  the interface and the plugin path.
\<close>

theorem executePlugin_command:
  "\<exists>rest. override_command command (buildCNIArgs cid ifn args m) =
     (''CNI_COMMAND='' @ command) # (''CNI_CONTAINERID='' @ cid) # (''CNI_IFNAME='' @ ifn) #
       (''CNI_PATH='' @ pm_pluginDir m) # rest \<and>
     list_all (\<lambda>a. \<not> prefix ''CNI_COMMAND='' a) rest"
  by (simp add: override_command_def buildCNIArgs_def)

end
