(* ===== verification/Cni_Provider.thy ===== *)
theory Cni_Provider
  imports Cni_Plugins
begin

text \<open>
  The network provider of \<open>pkg/cni/provider.go\<close>. The provider's map of networks and the
  allocator's map hold pointers to the same network objects, so the objects live in a heap, a
  list indexed by references. The file system the provider writes to is part of its state.
\<close>

type_synonym net_ref = nat

record cni_provider =
  prov_config :: cni_config
  prov_pluginMgr :: plugin_manager
  prov_ipamMgr :: ipam_manager
  prov_configGen :: config_generator
  prov_vxlanPort :: uint32
  prov_networks :: "string \<rightharpoonup> net_ref"
  prov_networkIndex :: uint32
  prov_heap :: "allocated_network list"
  prov_fs :: fsys

datatype provider_error =
    PluginValidationFailed plugin_error
  | PredefinedFailed file_error
  | SubnetFailed subnet_error
  | SubnetUnparsable string
  | PoolFailed ipam_error
  | ConfigWriteFailed file_error
  | NetworkNotFound string
  | DriverNotSupported string
  | IngressDriverNotSupported string
  | IPAMDriverNotSupported string

definition initPredefinedNetworks :: "cni_provider \<Rightarrow> (provider_error, unit) res \<times> cni_provider" where
  "initPredefinedNetworks p =
     (case WriteConfig (cfg_ConfigDir (prov_config p)) GWBridgeNetworkName
             (GenerateGWBridgeConfig (prov_configGen p)) (prov_fs p) of
        (Inl e, fs1) \<Rightarrow> (Inl (PredefinedFailed e), p\<lparr>prov_fs := fs1\<rparr>)
      | (Inr _, fs1) \<Rightarrow>
          (case WriteConfig (cfg_ConfigDir (prov_config p)) ''lo''
                  (GenerateLoopbackConfig (prov_configGen p)) fs1 of
             (Inl e, fs2) \<Rightarrow> (Inl (PredefinedFailed e), p\<lparr>prov_fs := fs2\<rparr>)
           | (Inr _, fs2) \<Rightarrow> (Inr (), p\<lparr>prov_fs := fs2\<rparr>)))"

definition NewCNIProvider :: "cni_config option \<Rightarrow> fsys \<Rightarrow> (provider_error, cni_provider) res" where
  "NewCNIProvider cfgOpt fs =
     (let cfg = (case cfgOpt of None \<Rightarrow> DefaultCNIConfig | Some c \<Rightarrow> c);
          pluginMgr = NewPluginManager (cfg_PluginDir cfg) (cfg_ConfigDir cfg)
      in case ValidatePlugins pluginMgr fs of
           Inl e \<Rightarrow> Inl (PluginValidationFailed e)
         | Inr _ \<Rightarrow>
             let provider = \<lparr>prov_config = cfg, prov_pluginMgr = pluginMgr,
                   prov_ipamMgr = NewIPAMManager (Some cfg), prov_configGen = NewConfigGenerator,
                   prov_vxlanPort = cfg_VXLANPort cfg, prov_networks = Map.empty,
                   prov_networkIndex = 0, prov_heap = [], prov_fs = fs\<rparr>
             in (case initPredefinedNetworks provider of
                   (Inl e, _) \<Rightarrow> Inl e
                 | (Inr _, provider') \<Rightarrow> Inr provider'))"

definition PredefinedNetworks :: "(string \<times> string) list" where
  "PredefinedNetworks = [(IngressNetworkName, ''bridge''), (GWBridgeNetworkName, ''bridge'')]"

definition SetDefaultVXLANUDPPort :: "uint32 \<Rightarrow> cni_provider \<Rightarrow> cni_provider" where
  "SetDefaultVXLANUDPPort port p = p\<lparr>prov_vxlanPort := port\<rparr>"

text \<open>A driver specification is the driver's name, \<open>None\<close> for nil.\<close>

definition ValidateNetworkDriver :: "string option \<Rightarrow> (provider_error, unit) res" where
  "ValidateNetworkDriver d =
     (case d of None \<Rightarrow> Inr ()
      | Some driverName \<Rightarrow>
          if driverName \<in> set [''bridge'', ''vxlan'', []] then Inr () else Inl (DriverNotSupported driverName))"

definition ValidateIngressNetworkDriver :: "string option \<Rightarrow> (provider_error, unit) res" where
  "ValidateIngressNetworkDriver d =
     (case d of None \<Rightarrow> Inr ()
      | Some driverName \<Rightarrow>
          if driverName \<noteq> ''bridge'' \<and> driverName \<noteq> [] then Inl (IngressDriverNotSupported driverName) else Inr ())"

definition ValidateIPAMDriver :: "string option \<Rightarrow> (provider_error, unit) res" where
  "ValidateIPAMDriver d =
     (case d of None \<Rightarrow> Inr ()
      | Some driverName \<Rightarrow>
          if driverName \<in> set [''host-local'', []] then Inr () else Inl (IPAMDriverNotSupported driverName))"

definition GetNetwork :: "string \<Rightarrow> cni_provider \<Rightarrow> (provider_error, net_ref) res" where
  "GetNetwork networkID p =
     (case prov_networks p networkID of None \<Rightarrow> Inl (NetworkNotFound networkID) | Some r \<Rightarrow> Inr r)"

definition network_id :: "uint32 \<Rightarrow> string" where
  "network_id i = ''net-'' @ dec_of_nat (unat i)"

text \<open>The object that \<open>AllocateNetwork\<close> creates.\<close>

definition new_network :: "string \<Rightarrow> string \<Rightarrow> uint32 \<Rightarrow> ip_net \<Rightarrow> ip \<Rightarrow> allocated_network" where
  "new_network name driver i subnetNet gateway = \<lparr>
     an_ID = network_id i,
     an_Name = name,
     an_Driver = driver,
     an_Subnet = subnetNet,
     an_Gateway = gateway,
     an_VXLANID = (if driver = ''vxlan'' then GenerateVXLANID name i else 0),
     an_BridgeName = ''br-'' @ NetworkNameFromSwarmKit name,
     an_Ingress = False,
     an_Attachments = Map.empty,
     an_Services = Map.empty,
     an_CreatedAt = 0\<rparr>"

definition network_document :: "cni_provider \<Rightarrow> allocated_network \<Rightarrow> string \<Rightarrow> json" where
  "network_document p n subnet =
     (if an_Driver n = ''vxlan''
      then GenerateVXLANConfig (prov_configGen p) (an_Name n) subnet (an_Gateway n) (an_VXLANID n) (prov_vxlanPort p)
      else GenerateBridgeConfig (prov_configGen p) (an_Name n) (an_BridgeName n) subnet (an_Gateway n))"

text \<open>
  \<open>AllocateNetwork\<close>. The index is incremented first, and the pool and the network are registered
  before the configuration is written: a failure keeps what was done before it.
\<close>

definition AllocateNetwork ::
    "string \<Rightarrow> string \<Rightarrow> cni_provider \<Rightarrow> (provider_error, net_ref) res \<times> cni_provider" where
  "AllocateNetwork name driver p0 =
     (let i = prov_networkIndex p0 + 1;
          p = p0\<lparr>prov_networkIndex := i\<rparr>
      in case GenerateSubnet (cfg_SubnetPool (prov_config p)) (cfg_SubnetSize (prov_config p)) i of
           Inl e \<Rightarrow> (Inl (SubnetFailed e), p)
         | Inr subnet \<Rightarrow>
             (case ParseCIDR subnet of
                Inl e \<Rightarrow> (Inl (SubnetUnparsable e), p)
              | Inr (subnetNet, gateway) \<Rightarrow>
                  (case CreatePool subnet (Some gateway) (prov_ipamMgr p) of
                     (Inl e, ipam) \<Rightarrow> (Inl (PoolFailed e), p\<lparr>prov_ipamMgr := ipam\<rparr>)
                   | (Inr _, ipam) \<Rightarrow>
                       let network = new_network name driver i subnetNet gateway;
                           ref = length (prov_heap p);
                           p1 = p\<lparr>prov_ipamMgr := ipam, prov_heap := prov_heap p @ [network],
                                  prov_networks := (prov_networks p)(an_ID network \<mapsto> ref)\<rparr>
                       in (case WriteConfig (cfg_ConfigDir (prov_config p)) name
                                  (network_document p network subnet) (prov_fs p) of
                             (Inl e, fs') \<Rightarrow> (Inl (ConfigWriteFailed e), p1\<lparr>prov_fs := fs'\<rparr>)
                           | (Inr _, fs') \<Rightarrow> (Inr ref, p1\<lparr>prov_fs := fs'\<rparr>)))))"

subsection \<open>What an allocated network is\<close>

text \<open>
  \<open>CreateNetworkFromSpec\<close> of \<open>pkg/cni/files.go\<close>, on the driver and the name of the specification.
\<close>

datatype spec_error = SpecDriver provider_error | SpecNameRequired | SpecAllocate provider_error | SpecLoad plugin_error

definition CreateNetworkFromSpec ::
    "string option \<Rightarrow> string \<Rightarrow> cni_provider \<Rightarrow> (spec_error, cni_network_config) res \<times> cni_provider" where
  "CreateNetworkFromSpec driverConfig name p =
     (let driver = (case driverConfig of Some d \<Rightarrow> if d \<noteq> [] then d else ''bridge'' | None \<Rightarrow> ''bridge'')
      in case ValidateNetworkDriver driverConfig of
           Inl e \<Rightarrow> (Inl (SpecDriver e), p)
         | Inr _ \<Rightarrow>
             if name = [] then (Inl SpecNameRequired, p)
             else (case AllocateNetwork name driver p of
                     (Inl e, p') \<Rightarrow> (Inl (SpecAllocate e), p')
                   | (Inr _, p') \<Rightarrow>
                       (case loadNetworkConfig name (prov_pluginMgr p') (prov_fs p') of
                          Inl e \<Rightarrow> (Inl (SpecLoad e), p')
                        | Inr c \<Rightarrow> (Inr c, p'))))"

lemma new_network_fields [simp]:
  "an_ID (new_network name driver i sn gw) = network_id i"
  "an_Name (new_network name driver i sn gw) = name"
  "an_Driver (new_network name driver i sn gw) = driver"
  "an_Subnet (new_network name driver i sn gw) = sn"
  "an_Gateway (new_network name driver i sn gw) = gw"
  "an_Attachments (new_network name driver i sn gw) = Map.empty"
  "an_Services (new_network name driver i sn gw) = Map.empty"
  "an_Ingress (new_network name driver i sn gw) = False"
  "an_VXLANID (new_network name driver i sn gw) = (if driver = ''vxlan'' then GenerateVXLANID name i else 0)"
  by (simp_all add: new_network_def)

lemma network_document_index [simp]:
  "network_document (p\<lparr>prov_networkIndex := i\<rparr>) n subnet = network_document p n subnet"
  by (simp add: network_document_def)

lemma AllocateNetwork_okE:
  assumes "AllocateNetwork name driver p = (Inr r, p')"
  obtains subnet subnetNet gateway pool ipam fs'
  where "GenerateSubnet (cfg_SubnetPool (prov_config p)) (cfg_SubnetSize (prov_config p)) (prov_networkIndex p + 1) = Inr subnet"
    and "ParseCIDR subnet = Inr (subnetNet, gateway)"
    and "CreatePool subnet (Some gateway) (prov_ipamMgr p) = (Inr pool, ipam)"
    and "r = length (prov_heap p)"
    and "WriteConfig (cfg_ConfigDir (prov_config p)) name
           (network_document p (new_network name driver (prov_networkIndex p + 1) subnetNet gateway) subnet) (prov_fs p) = (Inr (), fs')"
    and "p' = p\<lparr>prov_networkIndex := prov_networkIndex p + 1, prov_ipamMgr := ipam,
           prov_heap := prov_heap p @ [new_network name driver (prov_networkIndex p + 1) subnetNet gateway],
           prov_networks := (prov_networks p)(network_id (prov_networkIndex p + 1) \<mapsto> r), prov_fs := fs'\<rparr>"
  using assms by (auto simp: AllocateNetwork_def Let_def split: sum.splits prod.splits)

lemma CreatePool_exists:
  assumes "CreatePool c gw m = (Inr pool, m')"
  shows "pools m' c = Some pool"
  using assms by (auto simp: CreatePool_def Let_def split: option.splits sum.splits prod.splits)

text \<open>
  A successful \<open>AllocateNetwork\<close> registers a new object under the identifier of the
  incremented index, whose subnet is the generated one and has a pool in the IPAM manager, whose
  VXLAN identifier is a valid VNI exactly for the driver \<open>vxlan\<close>, and the document of the network is
  in the file \<open>name.conf\<close> of the configuration directory.
\<close>

theorem AllocateNetwork_registers:
  assumes "AllocateNetwork name driver p = (Inr r, p')"
    and "CHR ''/'' \<notin> set name" and "name \<noteq> []" and "cfg_ConfigDir (prov_config p) \<noteq> []"
  shows "GetNetwork (network_id (prov_networkIndex p')) p' = Inr r \<and> r = length (prov_heap p) \<and>
    (let n = prov_heap p' ! r in
       an_Name n = name \<and> an_Driver n = driver \<and>
       (if driver = ''vxlan'' then 1 \<le> an_VXLANID n \<and> an_VXLANID n \<le> 16777214 else an_VXLANID n = 0) \<and>
       (\<exists>subnet pool. GenerateSubnet (cfg_SubnetPool (prov_config p)) (cfg_SubnetSize (prov_config p)) (prov_networkIndex p') = Inr subnet \<and>
          ParseCIDR subnet = Inr (an_Subnet n, an_Gateway n) \<and> pools (prov_ipamMgr p') subnet = Some pool \<and>
          os_ReadFile (path_Join [cfg_ConfigDir (prov_config p), name @ ''.conf'']) (prov_fs p') =
            Inr (JsonFile (network_document p n subnet))))"
proof -
  let ?i = "prov_networkIndex p + 1"
  from assms(1) obtain subnet subnetNet gateway pool ipam fs' where
    gen: "GenerateSubnet (cfg_SubnetPool (prov_config p)) (cfg_SubnetSize (prov_config p)) ?i = Inr subnet"
    and par: "ParseCIDR subnet = Inr (subnetNet, gateway)"
    and pool: "CreatePool subnet (Some gateway) (prov_ipamMgr p) = (Inr pool, ipam)"
    and r: "r = length (prov_heap p)"
    and w: "WriteConfig (cfg_ConfigDir (prov_config p)) name
           (network_document p (new_network name driver ?i subnetNet gateway) subnet) (prov_fs p) = (Inr (), fs')"
    and p': "p' = p\<lparr>prov_networkIndex := ?i, prov_ipamMgr := ipam,
           prov_heap := prov_heap p @ [new_network name driver ?i subnetNet gateway],
           prov_networks := (prov_networks p)(network_id ?i \<mapsto> r), prov_fs := fs'\<rparr>"
    by (rule AllocateNetwork_okE)
  let ?n = "new_network name driver ?i subnetNet gateway"
  have "WriteConfigFile (path_Clean (cfg_ConfigDir (prov_config p))) name (network_document p ?n subnet) (prov_fs p) = (Inr (), fs')"
    using w WriteConfig_eq [OF assms(2-4)] by simp
  note stored = WriteConfigFile_SomeD [OF assms(2,4) this]
  have "os_ReadFile (path_Join [cfg_ConfigDir (prov_config p), name @ ''.conf'']) (prov_fs p') =
      Inr (JsonFile (network_document p ?n subnet))"
    using stored by (simp add: p' os_ReadFile_def file_at_update)
  moreover have "prov_heap p' ! r = ?n" by (simp add: p' r)
  moreover have "prov_networkIndex p' = ?i" "prov_ipamMgr p' = ipam" "GetNetwork (network_id ?i) p' = Inr r"
    by (simp_all add: p' GetNetwork_def)
  ultimately show ?thesis
    using gen par CreatePool_exists [OF pool] r vxlan_id_bounds [of name ?i] by (simp add: Let_def)
qed


text \<open>A provider without networks, for the witnesses.\<close>

definition example_provider :: cni_provider where
  "example_provider = \<lparr>prov_config = DefaultCNIConfig\<lparr>cfg_ConfigDir := ''/c''\<rparr>,
     prov_pluginMgr = NewPluginManager ''/b'' ''/c'', prov_ipamMgr = NewIPAMManager None,
     prov_configGen = NewConfigGenerator, prov_vxlanPort = DefaultVXLANPort, prov_networks = Map.empty,
     prov_networkIndex = 0, prov_heap = [], prov_fs = empty_fs\<rparr>"

theorem AllocateNetwork_registers_witness:
  "\<exists>r p'. AllocateNetwork ''w'' ''vxlan'' example_provider = (Inr r, p') \<and>
     GetNetwork (network_id (prov_networkIndex p')) p' = Inr r"
proof -
  let ?r = "AllocateNetwork ''w'' ''vxlan'' example_provider"
  have "fst ?r = Inr 0" by code_simp
  then have r: "?r = (Inr 0, snd ?r)" by (metis prod.collapse)
  have d: "cfg_ConfigDir (prov_config example_provider) \<noteq> []" by code_simp
  from AllocateNetwork_registers [OF r _ _ d] r show ?thesis by auto
qed

end
