(* ===== verification/Cni_Ipam_Correct.thy ===== *)
theory Cni_Ipam_Correct
  imports Cni_Ipam
begin

text \<open>
  Correctness of the IPAM manager: the interpretation of the address table on it, what every
  run of allocations and releases keeps, when an allocation succeeds, and which addresses are
  handed out.
\<close>

subsection \<open>A pool as an address table\<close>

text \<open>The claimants of addresses: nodes and tasks ask for an IP, services for a VIP.\<close>

datatype claimant = Owner string | Service string

fun claim_tag :: "claimant \<Rightarrow> string" where
  "claim_tag (Owner w) = w"
| "claim_tag (Service s) = ''vip:'' @ s"

fun claim :: "string \<Rightarrow> claimant \<Rightarrow> ipam_manager \<Rightarrow> (ipam_error, ip) res \<times> ipam_manager" where
  "claim c (Owner w) m = AllocateIP c w m"
| "claim c (Service s) m = AllocateVIP c s m"

definition claim_ip :: "string \<Rightarrow> claimant \<Rightarrow> ipam_manager \<Rightarrow> (ip \<times> ipam_manager) option" where
  "claim_ip c w m = (case claim c w m of (Inl e, m') \<Rightarrow> None | (Inr a, m') \<Rightarrow> Some (a, m'))"

definition free_ip :: "string \<Rightarrow> ip \<Rightarrow> ipam_manager \<Rightarrow> ipam_manager" where
  "free_ip c a m = snd (ReleaseIP a c m)"

text \<open>A run of claims and releases on the pool \<open>c\<close>.\<close>

definition ipam_run :: "string \<Rightarrow> (claimant, ip) table_op list \<Rightarrow> ipam_manager \<Rightarrow> ipam_manager" where
  "ipam_run c xs m = table_run (claim_ip c) (free_ip c) xs m"

definition used_by :: "string \<Rightarrow> ipam_manager \<Rightarrow> string \<rightharpoonup> string" where
  "used_by c m = (case pools m c of None \<Rightarrow> Map.empty | Some p \<Rightarrow> pool_UsedIPs p)"

definition reserved_of :: "string \<Rightarrow> ipam_manager \<Rightarrow> ip list" where
  "reserved_of c m = (case pools m c of None \<Rightarrow> [] | Some p \<Rightarrow> pool_ReservedIPs p)"

text \<open>The reserved addresses are IPv4 addresses.\<close>

definition v4_reserved :: "string \<Rightarrow> ipam_manager \<Rightarrow> bool" where
  "v4_reserved c m \<longleftrightarrow> (\<forall>r \<in> set (reserved_of c m). To4 r \<noteq> None)"

text \<open>Only an IPv4 address is printed as a dotted quad.\<close>

lemma colon_join: "2 \<le> length xs \<Longrightarrow> CHR '':'' \<in> set (join '':'' xs)"
  by (induction xs rule: induct_list012) auto

lemma length_groups16: "length (groups16 a) = length a div 2"
  by (induction a rule: groups16.induct) simp_all

lemma colon_v6_string: "length a = 16 \<Longrightarrow> CHR '':'' \<in> set (v6_string a)"
  by (auto simp: v6_string_def Let_def length_groups16 colon_join split: option.splits)

lemma ip_String_eq_dotted:
  assumes "length x = 4" and "ip_String a = dotted x"
  shows "To4 a = Some x"
proof (cases "To4 a")
  case (Some y)
  then show ?thesis using assms ip_String_v4 [OF Some] To4_length [OF Some] dotted_inj by auto
next
  case None
  have "CHR ''<'' \<in> set (ip_String a) \<or> CHR ''?'' \<in> set (ip_String a) \<or> CHR '':'' \<in> set (ip_String a)"
    using None colon_v6_string [of a] by (auto simp: ip_String_def)
  moreover have "\<not> is_digit CHR ''<''" "\<not> is_digit CHR ''?''" by (simp_all add: is_digit_def)
  ultimately show ?thesis
    using dotted_chars [of _ x] is_digit_dot(3) unfolding assms(2) by fastforce
qed

lemma isReserved_key:
  assumes "\<forall>r \<in> set (pool_ReservedIPs pool). To4 r \<noteq> None"
  shows "isReserved pool a \<longleftrightarrow> ip_String a \<in> ip_String ` set (pool_ReservedIPs pool)"
proof
  assume "isReserved pool a"
  then obtain r where r: "r \<in> set (pool_ReservedIPs pool)" "ip_Equal a r"
    by (auto simp: isReserved_def list_ex_iff)
  with assms obtain x where x: "To4 r = Some x" by auto
  have "To4 a = Some x"
    using r(2) x by (elim To4_SomeE) (auto simp: ip_Equal_def To4_def v4_mapped_def split: if_splits)
  with x r show "ip_String a \<in> ip_String ` set (pool_ReservedIPs pool)"
    by (auto simp: ip_String_v4 intro!: rev_image_eqI)
next
  assume "ip_String a \<in> ip_String ` set (pool_ReservedIPs pool)"
  then obtain r where r: "r \<in> set (pool_ReservedIPs pool)" "ip_String a = ip_String r" by auto
  with assms obtain x where x: "To4 r = Some x" by auto
  then have "To4 a = Some x"
    using ip_String_eq_dotted [of x a] r(2) ip_String_v4 [OF x] To4_length [OF x] by simp
  with x r(1) show "isReserved pool a" by (auto simp: isReserved_iff_To4)
qed

text \<open>What a successful claim does to the manager.\<close>

lemma claim_ipE:
  assumes "claim_ip c w m = Some (a, m')"
  obtains pool nxt where "pools m c = Some pool" and "ip_available pool a"
    and "m' = m\<lparr>pools := (pools m)(c \<mapsto>
           pool\<lparr>pool_UsedIPs := (pool_UsedIPs pool)(ip_String a \<mapsto> claim_tag w), pool_NextIP := nxt\<rparr>)\<rparr>"
proof (cases w)
  case (Owner v)
  then show ?thesis
    using assms that [of _ "incrementIP a"]
    by (auto simp: claim_ip_def AllocateIP_def take_ip_def find_ip_available
        split: option.splits sum.splits prod.splits)
next
  case (Service v)
  show ?thesis
  proof (cases "pools m c")
    case (Some pool)
    have "pool\<lparr>pool_UsedIPs := u\<rparr> = pool\<lparr>pool_UsedIPs := u, pool_NextIP := pool_NextIP pool\<rparr>" for u
      by simp
    with Some show ?thesis
      using assms Service that [of pool "pool_NextIP pool"]
      by (auto simp: claim_ip_def AllocateVIP_def find_vip_available split: option.splits sum.splits prod.splits)
  qed (use assms Service in \<open>simp add: claim_ip_def AllocateVIP_def\<close>)
qed

lemma free_ip_used: "used_by c (free_ip c a m) = (used_by c m)(ip_String a := None)"
  by (auto simp: used_by_def free_ip_def ReleaseIP_def fun_upd_idem split: option.splits)

lemma free_ip_reserved: "reserved_of c (free_ip c a m) = reserved_of c m"
  by (auto simp: reserved_of_def free_ip_def ReleaseIP_def split: option.splits)

interpretation ipam: fresh_addr_table "v4_reserved c" "used_by c"
    "\<lambda>m. ip_String ` set (reserved_of c m)" ip_String claim_tag "claim_ip c" "free_ip c" for c
proof unfold_locales
  fix m w a m'
  assume inv: "v4_reserved c m" and al: "claim_ip c w m = Some (a, m')"
  from al obtain pool nxt where p: "pools m c = Some pool" "ip_available pool a"
    and m': "m' = m\<lparr>pools := (pools m)(c \<mapsto>
           pool\<lparr>pool_UsedIPs := (pool_UsedIPs pool)(ip_String a \<mapsto> claim_tag w), pool_NextIP := nxt\<rparr>)\<rparr>"
    by (rule claim_ipE)
  show "used_by c m' = (used_by c m)(ip_String a \<mapsto> claim_tag w)"
    using p m' by (simp add: used_by_def)
  show fresh: "used_by c m (ip_String a) = None"
    using p by (simp add: used_by_def ip_available_def)
  then show "used_by c m (ip_String a) \<in> {None, Some (claim_tag w)}" by simp
  have "\<not> isReserved pool a" using p(2) by (simp add: ip_available_def)
  then show "ip_String a \<notin> ip_String ` set (reserved_of c m)"
    using inv p isReserved_key [of pool a] by (simp add: v4_reserved_def reserved_of_def)
  show "v4_reserved c m' \<and> ip_String ` set (reserved_of c m') = ip_String ` set (reserved_of c m)"
    using inv p m' by (simp add: v4_reserved_def reserved_of_def)
next
  fix m a
  assume "v4_reserved c m"
  then show "v4_reserved c (free_ip c a m) \<and>
      ip_String ` set (reserved_of c (free_ip c a m)) = ip_String ` set (reserved_of c m)"
    by (simp add: v4_reserved_def free_ip_reserved)
qed (rule free_ip_used)

subsection \<open>What every run keeps\<close>

lemma ip_Equal_String:
  assumes "ip_Equal a b"
  shows "ip_String a = ip_String b"
proof (cases "length a = length b")
  case True
  with assms show ?thesis by (simp add: ip_Equal_def)
next
  case False
  with assms have "\<exists>x. To4 a = Some x \<and> To4 b = Some x"
    by (auto simp: ip_Equal_def To4_def split: if_splits)
  then show ?thesis by (auto simp: ip_String_v4)
qed

lemma CreatePool_new:
  assumes "pools m c = None" and "CreatePool c gw m = (Inr p, m')"
  shows "pools m' c = Some p" and "pool_ReservedIPs p = [pool_Gateway p]"
    and "pool_UsedIPs p = Map.empty" and "pool_NextIP p = incrementIP (pool_Gateway p)"
  using assms by (auto simp: CreatePool_def Let_def split: sum.splits prod.splits option.splits)

text \<open>A manager with one pool, for the witnesses.\<close>

definition ipam_example :: ipam_manager where
  "ipam_example = snd (CreatePool ''10.1.0.0/24'' None (NewIPAMManager None))"

lemma ex_pairI: "map_option fst x = Some a \<Longrightarrow> x = Some (a, snd (the x))"
  by (cases x) auto

text \<open>
  Claim C1. While an address of a pool is not released, no later allocation from the pool, of
  a node or task IP or of a service VIP, returns it again, whatever other claims and releases
  come in between.
\<close>

theorem ipam_no_double_allocation:
  assumes "v4_reserved c m" and "claim_ip c w m = Some (a, m')"
    and "\<forall>b. ip_String b = ip_String a \<longrightarrow> Release b \<notin> set xs"
    and "claim_ip c v (ipam_run c xs m') = Some (b, m'')"
  shows "ip_String b \<noteq> ip_String a \<and> \<not> ip_Equal b a"
  using ipam.alloc_again_differs [OF assms(1-3), of v b m''] assms(4) ip_Equal_String [of b a]
  by (auto simp: ipam_run_def)

theorem ipam_no_double_allocation_witness:
  "\<exists>a m' b m''. claim_ip ''10.1.0.0/24'' (Owner ''n1'') ipam_example = Some (a, m') \<and>
     claim_ip ''10.1.0.0/24'' (Service ''web'')
       (ipam_run ''10.1.0.0/24'' [Alloc (Owner ''n2''), Release [10, 1, 0, 3]] m') = Some (b, m'') \<and>
     ip_String b \<noteq> ip_String a \<and> \<not> ip_Equal b a"
proof -
  let ?c = "''10.1.0.0/24''" and ?xs = "[Alloc (Owner ''n2''), Release [10, 1, 0, 3]]"
  let ?r = "claim_ip ?c (Owner ''n1'') ipam_example"
  let ?q = "claim_ip ?c (Service ''web'') (ipam_run ?c ?xs (snd (the ?r)))"
  have "map_option fst ?r = Some (v4_mapped [10, 1, 0, 2])" by code_simp
  then have r: "?r = Some (v4_mapped [10, 1, 0, 2], snd (the ?r))" by (rule ex_pairI)
  have "map_option fst ?q = Some [10, 1, 0, 239]" by code_simp
  then have q: "?q = Some ([10, 1, 0, 239], snd (the ?q))" by (rule ex_pairI)
  have inv: "v4_reserved ?c ipam_example" by code_simp
  have key: "ip_String [10, 1, 0, 3] \<noteq> ip_String (v4_mapped [10, 1, 0, 2])" by code_simp
  have rel: "\<forall>b. ip_String b = ip_String (v4_mapped [10, 1, 0, 2]) \<longrightarrow> Release b \<notin> set ?xs"
    using key by auto
  show ?thesis using ipam_no_double_allocation [OF inv r rel q] r q by blast
qed

text \<open>
  Claim C19. The gateway of a pool is never handed out: after the pool is created, no run of
  claims and releases leads to an allocation that returns an address equal to the gateway.
\<close>

theorem ipam_gateway_never_allocated:
  assumes "pools m c = None" and "CreatePool c gw m = (Inr p, m')" and "To4 (pool_Gateway p) \<noteq> None"
    and "claim_ip c w (ipam_run c xs m') = Some (a, m'')"
  shows "\<not> ip_Equal a (pool_Gateway p)"
proof -
  note new = CreatePool_new [OF assms(1,2)]
  have inv: "v4_reserved c m'" using new assms(3) by (simp add: v4_reserved_def reserved_of_def)
  have "\<forall>k \<in> ip_String ` set (reserved_of c m'). used_by c m' k = None"
    using new by (simp add: reserved_of_def used_by_def)
  note never = ipam.blocked_never_held [OF inv this]
  note run = ipam.run_inv [OF inv, of xs]
  have "ip_String a \<notin> ip_String ` set (reserved_of c (ipam_run c xs m'))"
    using ipam.alloc_not_blocked ipam.alloc_fresh run assms(4) unfolding ipam_run_def by blast
  then have "ip_String a \<noteq> ip_String (pool_Gateway p)"
    using run new(1,2) by (simp add: ipam_run_def reserved_of_def)
  then show ?thesis using ip_Equal_String by blast
qed

theorem ipam_gateway_never_allocated_witness:
  "\<exists>p a m' m''. CreatePool ''10.1.0.0/24'' None (NewIPAMManager None) = (Inr p, m') \<and>
     claim_ip ''10.1.0.0/24'' (Owner ''t1'') (ipam_run ''10.1.0.0/24'' [Alloc (Owner ''t0'')] m') = Some (a, m'')
     \<and> \<not> ip_Equal a (pool_Gateway p)"
proof -
  let ?c = "''10.1.0.0/24''" and ?m = "NewIPAMManager None"
  obtain p m' where p: "CreatePool ?c None ?m = (Inr p, m')" and gw: "pool_Gateway p = v4_mapped [10, 1, 0, 1]"
  proof -
    have "case fst (CreatePool ?c None ?m) of Inl e \<Rightarrow> False | Inr p \<Rightarrow> pool_Gateway p = v4_mapped [10, 1, 0, 1]"
      by code_simp
    then show ?thesis using that by (cases "CreatePool ?c None ?m") (auto split: sum.splits)
  qed
  have m': "m' = ipam_example" using p by (simp add: ipam_example_def)
  let ?q = "claim_ip ?c (Owner ''t1'') (ipam_run ?c [Alloc (Owner ''t0'')] m')"
  have "map_option fst ?q = Some (v4_mapped [10, 1, 0, 3])" unfolding m' by code_simp
  then have q: "?q = Some (v4_mapped [10, 1, 0, 3], snd (the ?q))" by (rule ex_pairI)
  have "pools ?m ?c = None" "To4 (pool_Gateway p) \<noteq> None"
    by (simp_all add: NewIPAMManager_def gw)
  from ipam_gateway_never_allocated [OF this(1) p this(2) q] p q show ?thesis by blast
qed

text \<open>
  The owner of an address stays the one the address was allocated to, and is what
  \<open>GetAllocationOwner\<close> reports, through every run that does not release the address.
\<close>

theorem ipam_owner_kept:
  assumes "v4_reserved c m" and "claim_ip c w m = Some (a, m')"
    and "\<forall>b. ip_String b = ip_String a \<longrightarrow> Release b \<notin> set xs"
  shows "GetAllocationOwner a c (ipam_run c xs m') = Inr (claim_tag w)"
proof -
  have "v4_reserved c m'" using ipam.alloc_inv [OF assms(1,2)] by simp
  moreover have "used_by c m' (ip_String a) = Some (claim_tag w)"
    using ipam.alloc_held [OF assms(1,2)] by simp
  ultimately have "used_by c (ipam_run c xs m') (ip_String a) = Some (claim_tag w)"
    unfolding ipam_run_def using assms(3) by (rule ipam.owner_keeps)
  then show ?thesis
    by (auto simp: used_by_def GetAllocationOwner_def split: option.splits)
qed

theorem ipam_owner_kept_witness:
  "\<exists>a m'. claim_ip ''10.1.0.0/24'' (Service ''web'') ipam_example = Some (a, m') \<and>
     GetAllocationOwner a ''10.1.0.0/24''
       (ipam_run ''10.1.0.0/24'' [Alloc (Owner ''n''), Alloc (Service ''db'')] m') = Inr ''vip:web''"
proof -
  let ?c = "''10.1.0.0/24''" and ?xs = "[Alloc (Owner ''n''), Alloc (Service ''db'')]"
  let ?r = "claim_ip ?c (Service ''web'') ipam_example"
  have "map_option fst ?r = Some [10, 1, 0, 239]" by code_simp
  then have r: "?r = Some ([10, 1, 0, 239], snd (the ?r))" by (rule ex_pairI)
  have inv: "v4_reserved ?c ipam_example" by code_simp
  show ?thesis using ipam_owner_kept [OF inv r, of ?xs] r by auto
qed

text \<open>
  Releasing what was just allocated gives back the table of used addresses: after
  \<open>AllocateIP\<close> and \<open>ReleaseIP\<close> of the returned address, the pool differs from the one before only
  in the position of the next search, and a second release is refused.
\<close>

theorem ipam_allocate_release:
  assumes "AllocateIP c w m = (Inr a, m')"
  shows "\<exists>pool. pools m c = Some pool \<and> fst (ReleaseIP a c m') = Inr () \<and>
    pools (snd (ReleaseIP a c m')) = (pools m)(c \<mapsto> pool\<lparr>pool_NextIP := incrementIP a\<rparr>) \<and>
    ReleaseIP a c (snd (ReleaseIP a c m')) = (Inl (IPNotAllocated (ip_String a)), snd (ReleaseIP a c m'))"
proof -
  from assms obtain pool where p: "pools m c = Some pool"
    and f: "find_ip pool maxAttempts (pool_NextIP pool) = Some a"
    and m': "m' = m\<lparr>pools := (pools m)(c \<mapsto> take_ip w a pool)\<rparr>"
    by (auto simp: AllocateIP_def split: option.splits)
  have free: "pool_UsedIPs pool (ip_String a) = None"
    using find_ip_available [OF f] by (simp add: ip_available_def)
  then have "(pool_UsedIPs pool)(ip_String a := None) = pool_UsedIPs pool" by (simp add: fun_upd_idem)
  moreover have "pool\<lparr>pool_NextIP := incrementIP a, pool_UsedIPs := pool_UsedIPs pool\<rparr> =
      pool\<lparr>pool_NextIP := incrementIP a\<rparr>" by simp
  ultimately show ?thesis using p m' free by (auto simp: ReleaseIP_def take_ip_def)
qed

theorem ipam_allocate_release_witness:
  "\<exists>a m'. AllocateIP ''10.1.0.0/24'' ''n'' ipam_example = (Inr a, m') \<and> fst (ReleaseIP a ''10.1.0.0/24'' m') = Inr ()"
proof -
  let ?r = "AllocateIP ''10.1.0.0/24'' ''n'' ipam_example"
  have "fst ?r = Inr (v4_mapped [10, 1, 0, 2])" by code_simp
  then have r: "?r = (Inr (v4_mapped [10, 1, 0, 2]), snd ?r)" by (metis prod.collapse)
  from ipam_allocate_release [OF r] r show ?thesis by blast
qed


subsection \<open>When an allocation succeeds\<close>

text \<open>
  Claim C20. In a subnet of at most 256 addresses the 256 attempts are enough: \<open>AllocateIP\<close>
  succeeds whenever some address of the subnet above the gateway is neither used nor reserved,
  even when the search starts past the end of the subnet and has to wrap around.
\<close>

theorem ipam_allocation_succeeds:
  assumes "pools m c = Some pool" and "v4_pool pool base n g" and "24 \<le> n"
    and "To4 (pool_NextIP pool) = Some x" and "be_val g < be_val x" and "be_val x + 1 < 2 ^ 32"
    and "To4 b = Some t" and "be_val g < be_val t" and "be_val t \<le> subnet_last base n"
    and "pool_UsedIPs pool (ip_String b) = None" and "\<not> isReserved pool b"
  shows "\<exists>a m'. AllocateIP c w m = (Inr a, m') \<and> pool_UsedIPs pool (ip_String a) = None \<and>
    \<not> isReserved pool a \<and> GetAllocationOwner a c m' = Inr w"
proof -
  have "find_ip pool 256 (pool_NextIP pool) \<noteq> None"
    by (rule find_ip_256 [OF assms(2-7)]) (use assms in \<open>simp_all add: ip_available_def\<close>)
  then obtain a where a: "find_ip pool maxAttempts (pool_NextIP pool) = Some a"
    by (auto simp: maxAttempts_def)
  with assms(1) find_ip_available [OF a] show ?thesis
    by (auto simp: AllocateIP_def GetAllocationOwner_def take_ip_def ip_available_def)
qed

theorem ipam_allocation_succeeds_witness:
  "\<exists>a m'. AllocateIP ''10.1.0.0/24'' ''n1'' ipam_example = (Inr a, m') \<and>
     GetAllocationOwner a ''10.1.0.0/24'' m' = Inr ''n1''"
proof -
  let ?p = "the (pools ipam_example ''10.1.0.0/24'')" and ?b = "[10, 1, 0, 0] :: bytes"
  have p: "pools ipam_example ''10.1.0.0/24'' = Some ?p"
    by (rule option.collapse [symmetric]) code_simp
  have "pool_Subnet ?p = v4_net ?b 24 \<and> To4 (pool_Gateway ?p) = Some [10, 1, 0, 1]" by code_simp
  moreover have bounds: "subnet_first ?b 24 = be_val ?b" "subnet_last ?b 24 = be_val ?b + 255"
    by (simp_all add: subnet_first_def subnet_last_def)
  ultimately have v4: "v4_pool ?p ?b 24 [10, 1, 0, 1]" by (simp add: v4_pool_def)
  have nxt: "To4 (pool_NextIP ?p) = Some [10, 1, 0, 2]" by code_simp
  have free: "pool_UsedIPs ?p (ip_String [10, 1, 0, 9]) = None" "\<not> isReserved ?p [10, 1, 0, 9]"
    by code_simp+
  have last: "be_val [10, 1, 0, 9] \<le> subnet_last ?b 24" using bounds by simp
  have "\<exists>a m'. AllocateIP ''10.1.0.0/24'' ''n1'' ipam_example = (Inr a, m') \<and>
      pool_UsedIPs ?p (ip_String a) = None \<and> \<not> isReserved ?p a \<and>
      GetAllocationOwner a ''10.1.0.0/24'' m' = Inr ''n1''"
    by (rule ipam_allocation_succeeds [OF p v4 _ nxt _ _ _ _ last free]) simp_all
  then show ?thesis by blast
qed

subsection \<open>The sequence of addresses of a pool\<close>

fun allocate_all :: "string \<Rightarrow> string list \<Rightarrow> ipam_manager \<Rightarrow> (ipam_error, ip) res list \<times> ipam_manager" where
  "allocate_all c [] m = ([], m)"
| "allocate_all c (w # ws) m =
     (let (r, m') = AllocateIP c w m; (rs, m'') = allocate_all c ws m' in (r # rs, m''))"

text \<open>A pool after its first \<open>j\<close> allocations from the one after the gateway \<open>g\<close>.\<close>

definition allocated_up_to :: "ip_pool \<Rightarrow> bytes \<Rightarrow> nat \<Rightarrow> bool" where
  "allocated_up_to pool g v \<longleftrightarrow> length g = 4 \<and> be_val g \<le> v \<and>
     (\<forall>r \<in> set (pool_ReservedIPs pool). To4 r = Some g) \<and>
     (\<exists>x. To4 (pool_NextIP pool) = Some x \<and> be_val x = v + 1) \<and>
     (\<forall>k \<in> dom (pool_UsedIPs pool). \<exists>y. length y = 4 \<and> k = dotted y \<and> be_val y \<le> v)"


lemma AllocateIP_next:
  assumes p: "pools m c = Some pool" and al: "allocated_up_to pool g v" and v: "v + 2 < 2 ^ 32"
  obtains a x m' pool' where "AllocateIP c w m = (Inr a, m')" and "To4 a = Some x" and "be_val x = v + 1"
    and "pools m' c = Some pool'" and "allocated_up_to pool' g (v + 1)"
    and "pool_Subnet pool' = pool_Subnet pool"
proof -
  let ?a = "pool_NextIP pool"
  obtain x where x: "To4 ?a = Some x" "be_val x = v + 1" using al by (auto simp: allocated_up_to_def)
  have str: "ip_String ?a = dotted x" and len: "length x = 4"
    using x(1) by (simp_all add: ip_String_v4 To4_length)
  have fresh: "dotted x \<notin> dom (pool_UsedIPs pool)"
  proof
    assume "dotted x \<in> dom (pool_UsedIPs pool)"
    then obtain y where "length y = 4" "dotted x = dotted y" "be_val y \<le> v"
      using al by (auto simp: allocated_up_to_def)
    then show False using len x(2) by (simp add: dotted_inj)
  qed
  have "\<not> isReserved pool ?a"
    using al x by (auto simp: isReserved_iff_To4 allocated_up_to_def)
  with fresh str have "ip_available pool ?a" by (auto simp: ip_available_def)
  then have "find_ip pool maxAttempts ?a = Some ?a" by (simp add: maxAttempts_def numeral_eq_Suc)
  with p have step: "AllocateIP c w m = (Inr ?a, m\<lparr>pools := (pools m)(c \<mapsto> take_ip w ?a pool)\<rparr>)"
    by (simp add: AllocateIP_def)
  note inc = To4_incrementIP [OF x(1)]
  have "allocated_up_to (take_ip w ?a pool) g (v + 1)"
    using al x v inc len str by (fastforce simp: allocated_up_to_def take_ip_def)
  then show ?thesis using that [OF step x] by (simp add: take_ip_def)
qed

definition result_number :: "(ipam_error, ip) res \<Rightarrow> nat option" where
  "result_number r = (case r of Inl e \<Rightarrow> None | Inr a \<Rightarrow> map_option be_val (To4 a))"

lemma allocate_all_numbers:
  assumes "pools m c = Some pool" and "allocated_up_to pool g v" and "v + length ws + 1 < 2 ^ 32"
  shows "map result_number (fst (allocate_all c ws m)) = map (\<lambda>k. Some (v + 1 + k)) [0..<length ws]"
  using assms
proof (induction ws arbitrary: m pool v)
  case (Cons w ws)
  from Cons.prems obtain a x m' pool' where step: "AllocateIP c w m = (Inr a, m')" "To4 a = Some x"
      "be_val x = v + 1" "pools m' c = Some pool'" "allocated_up_to pool' g (v + 1)"
    by (auto elim: AllocateIP_next [where w = w])
  have "map result_number (fst (allocate_all c ws m')) = map (\<lambda>k. Some (v + 1 + 1 + k)) [0..<length ws]"
    using Cons.IH [OF step(4,5)] Cons.prems(3) by simp
  moreover have "[0..<length (w # ws)] = 0 # map Suc [0..<length ws]"
    by (simp add: upt_conv_Cons map_Suc_upt del: upt_Suc)
  moreover have "result_number (Inr a) = Some (v + 1)" using step by (simp add: result_number_def)
  ultimately show ?case using step(1) by (simp add: split_beta comp_def)
qed simp

lemma CreatePool_up_to:
  assumes "pools m c = None" and "CreatePool c gw m = (Inr p, m')" and "To4 (pool_Gateway p) = Some g"
    and "be_val g + 1 < 2 ^ 32"
  shows "allocated_up_to p g (be_val g)"
  using CreatePool_new [OF assms(1,2)] assms(3) To4_incrementIP [OF assms(3,4)]
  by (auto simp: allocated_up_to_def To4_length)

text \<open>
  A pool hands out consecutive addresses from the one after the gateway: the \<open>k\<close>-th
  allocation of a new pool returns the address \<open>k\<close> above the gateway, whatever the size of the
  subnet, as long as no address is released.
\<close>

theorem ipam_allocates_sequentially:
  assumes "pools m c = None" and "CreatePool c gw m = (Inr p, m')" and "To4 (pool_Gateway p) = Some g"
    and "be_val g + length ws + 1 < 2 ^ 32"
  shows "map result_number (fst (allocate_all c ws m')) = map (\<lambda>k. Some (be_val g + 1 + k)) [0..<length ws]"
  using allocate_all_numbers [OF CreatePool_new(1) [OF assms(1,2)] CreatePool_up_to [OF assms(1-3)] assms(4)] assms(4)
  by simp

theorem ipam_allocates_sequentially_witness:
  "\<exists>p m'. CreatePool ''10.1.0.0/30'' (Some [10, 1, 0, 0]) (NewIPAMManager None) = (Inr p, m') \<and>
     map result_number (fst (allocate_all ''10.1.0.0/30'' [''a'', ''b''] m')) =
       [Some (be_val [10, 1, 0, 1]), Some (be_val [10, 1, 0, 2])]"
proof -
  let ?c = "''10.1.0.0/30''" and ?m = "NewIPAMManager None" and ?g = "[10, 1, 0, 0] :: bytes"
  obtain p m' where p: "CreatePool ?c (Some ?g) ?m = (Inr p, m')" and gw: "pool_Gateway p = ?g"
  proof -
    have "case fst (CreatePool ?c (Some ?g) ?m) of Inl e \<Rightarrow> False | Inr p \<Rightarrow> pool_Gateway p = ?g"
      by code_simp
    then show ?thesis using that by (cases "CreatePool ?c (Some ?g) ?m") (auto split: sum.splits)
  qed
  have "pools ?m ?c = None" "To4 (pool_Gateway p) = Some ?g"
    by (simp_all add: NewIPAMManager_def gw)
  from ipam_allocates_sequentially [OF this(1) p this(2), of "[''a'', ''b'']"] p show ?thesis
    by simp
qed

text \<open>
  The allocator leaves the subnet: when one more address is asked for than lie between
  the gateway and the end of the subnet, the last one returned is outside the subnet of the pool.
\<close>

theorem ipam_allocation_leaves_subnet:
  assumes "pools m c = None" and "CreatePool c gw m = (Inr p, m')" and "v4_pool p base n g"
    and "length ws = subnet_last base n - be_val g + 1" and "subnet_last base n + 2 < 2 ^ 32"
  shows "\<exists>a. last (fst (allocate_all c ws m')) = Inr a \<and> \<not> Contains (pool_Subnet p) a"
proof -
  let ?rs = "fst (allocate_all c ws m')" and ?l = "subnet_last base n"
  have g: "To4 (pool_Gateway p) = Some g" "be_val g < ?l" and sub: "pool_Subnet p = v4_net base n"
    and base: "length base = 4" "n \<le> 32"
    using assms(3) by (simp_all add: v4_pool_def)
  have up: "allocated_up_to p g (be_val g)"
    by (rule CreatePool_up_to [OF assms(1,2) g(1)]) (use assms(5) g(2) in simp)
  have nums: "map result_number ?rs = map (\<lambda>k. Some (be_val g + 1 + k)) [0..<length ws]"
    by (rule allocate_all_numbers [OF CreatePool_new(1) [OF assms(1,2)] up]) (use assms(4,5) g(2) in simp)
  then have len: "length ?rs = length ws" by (metis length_map length_upt minus_nat.diff_0)
  have ne: "?rs \<noteq> []" using len assms(4) by auto
  have "result_number (last ?rs) = last (map result_number ?rs)" using ne by (simp add: last_map)
  also have "\<dots> = Some (be_val g + 1 + (length ws - 1))"
    unfolding nums using assms(4) by (simp add: last_map)
  also have "\<dots> = Some (?l + 1)" using assms(4) g(2) by simp
  finally obtain a x where a: "last ?rs = Inr a" "To4 a = Some x" "be_val x = ?l + 1"
    by (auto simp: result_number_def split: sum.splits)
  then have "\<not> Contains (pool_Subnet p) a"
    unfolding sub using Contains_iff_between [OF base a(2)] by simp
  with a(1) show ?thesis by blast
qed

theorem ipam_allocation_leaves_subnet_witness:
  "\<exists>p m' a. CreatePool ''10.1.0.0/30'' (Some [10, 1, 0, 0]) (NewIPAMManager None) = (Inr p, m') \<and>
     last (fst (allocate_all ''10.1.0.0/30'' [''a'', ''b'', ''c'', ''d''] m')) = Inr a \<and>
     \<not> Contains (pool_Subnet p) a"
proof -
  let ?c = "''10.1.0.0/30''" and ?m = "NewIPAMManager None" and ?g = "[10, 1, 0, 0] :: bytes"
  let ?ws = "[''a'', ''b'', ''c'', ''d'']"
  obtain p m' where p: "CreatePool ?c (Some ?g) ?m = (Inr p, m')"
    and gw: "pool_Gateway p = ?g" "pool_Subnet p = v4_net ?g 30"
  proof -
    have "case fst (CreatePool ?c (Some ?g) ?m) of Inl e \<Rightarrow> False
        | Inr p \<Rightarrow> pool_Gateway p = ?g \<and> pool_Subnet p = v4_net ?g 30"
      by code_simp
    then show ?thesis using that by (cases "CreatePool ?c (Some ?g) ?m") (auto split: sum.splits)
  qed
  have nums: "subnet_first ?g 30 = be_val ?g" "subnet_last ?g 30 = be_val ?g + 3"
    by (simp_all add: subnet_first_def subnet_last_def)
  then have "v4_pool p ?g 30 ?g" using gw by (simp add: v4_pool_def)
  moreover have "pools ?m ?c = None" by (simp add: NewIPAMManager_def)
  ultimately have "\<exists>a. last (fst (allocate_all ?c ?ws m')) = Inr a \<and> \<not> Contains (pool_Subnet p) a"
    using ipam_allocation_leaves_subnet [of ?m ?c "Some ?g" p m' ?g 30 ?g ?ws] p nums by simp
  with p show ?thesis by blast
qed


subsection \<open>The range of the VIPs\<close>

lemma decrementIP_be_bytes:
  assumes "0 < v" and "v < 256 ^ 4"
  shows "decrementIP (be_bytes 4 v) = be_bytes 4 (v - 1)"
proof -
  have "be_val (decrementIP (be_bytes 4 v)) = be_val (be_bytes 4 (v - 1))"
    using assms mod_add_self2 [of "v - 1" "256 ^ 4"]
    by (simp add: be_val_decrementIP be_val_be_bytes add.commute)
  then show ?thesis by (simp add: be_val_inj)
qed

text \<open>The search of \<open>AllocateVIP\<close> as a search in the list of the numbers of the addresses.\<close>

lemma find_vip_find:
  assumes "k \<le> v + 1" and "v < 256 ^ 4"
  shows "find_vip pool k (be_bytes 4 v) =
    map_option (be_bytes 4) (find (\<lambda>u. ip_available pool (be_bytes 4 u)) (rev [v + 1 - k..<v + 1]))"
  using assms
proof (induction k arbitrary: v)
  case (Suc k)
  show ?case
  proof (cases "k = 0")
    case True
    then show ?thesis by simp
  next
    case False
    then have pos: "0 < v" using Suc.prems(1) by simp
    then have "find_vip pool k (be_bytes 4 (v - 1)) = map_option (be_bytes 4)
        (find (\<lambda>u. ip_available pool (be_bytes 4 u)) (rev [v - k..<v]))"
      using Suc.IH [of "v - 1"] Suc.prems by simp
    moreover have "rev [v + 1 - Suc k..<v + 1] = v # rev [v - k..<v]" using Suc.prems(1) by simp
    ultimately show ?thesis using decrementIP_be_bytes [OF pos Suc.prems(2)] by simp
  qed
qed simp

text \<open>The numbers of the addresses a VIP is taken from, the highest first.\<close>

definition vip_numbers :: "bytes \<Rightarrow> nat \<Rightarrow> nat list" where
  "vip_numbers base n = rev [subnet_last base n - 31..<subnet_last base n - 15]"

lemma subnet_last_ge: "n \<le> 27 \<Longrightarrow> subnet_first base n + 31 \<le> subnet_last base n"
proof -
  assume "n \<le> 27"
  then have "(2 :: nat) ^ 5 \<le> 2 ^ (32 - n)" by (intro power_increasing) simp_all
  then have "32 \<le> (2 :: nat) ^ (32 - n)" by simp
  then show ?thesis unfolding subnet_last_def by linarith
qed

lemma AllocateVIP_find:
  assumes "pools m c = Some pool" and "pool_Subnet pool = v4_net base n" and "length base = 4" and "n \<le> 27"
  shows "fst (AllocateVIP c s m) =
    (case find (\<lambda>v. ip_available pool (be_bytes 4 v)) (vip_numbers base n) of
       None \<Rightarrow> Inl (VIPExhaustion c) | Some v \<Rightarrow> Inr (be_bytes 4 v))"
proof -
  let ?s = "getVIPRangeStart (v4_net base n)" and ?l = "subnet_last base n"
  note start = getVIPRangeStart_v4 [OF assms(3,4)]
  have s: "?s = be_bytes 4 (?l - 16)" using start be_bytes_be_val [OF start(1)] by simp
  have l: "31 \<le> ?l" "?l < 256 ^ 4"
    using subnet_last_ge [OF assms(4), of base] subnet_last_less [of base n] assms(3,4) by simp_all
  have "?l - 16 + 1 - 16 = ?l - 31" "?l - 16 + 1 = ?l - 15" "16 \<le> ?l - 16 + 1" "?l - 16 < 256 ^ 4"
    using l by linarith+
  then have "find_vip pool 16 ?s = map_option (be_bytes 4)
      (find (\<lambda>v. ip_available pool (be_bytes 4 v)) (vip_numbers base n))"
    using find_vip_find [of 16 "?l - 16" pool] unfolding s vip_numbers_def by metis
  then show ?thesis
    using assms(1,2) by (auto simp: AllocateVIP_def maxVIPAttempts_def split: option.splits)
qed

text \<open>
  In an IPv4 subnet with a prefix of at most 27 bits, \<open>AllocateVIP\<close> returns the highest
  free address among the sixteen from the last address of the subnet less 31 to the last address
  less 16, and fails with exhaustion exactly when all sixteen are used or reserved.
\<close>

theorem ipam_vip_reference:
  assumes "pools m c = Some pool" and "pool_Subnet pool = v4_net base n" and "length base = 4" and "n \<le> 27"
  shows "fst (AllocateVIP c s m) =
    (case find (\<lambda>v. ip_available pool (be_bytes 4 v)) (rev [subnet_last base n - 31..<subnet_last base n - 15]) of
       None \<Rightarrow> Inl (VIPExhaustion c) | Some v \<Rightarrow> Inr (be_bytes 4 v))"
  using AllocateVIP_find [OF assms] by (simp add: vip_numbers_def)

lemma ipam_example_pool:
  obtains pool where "pools ipam_example ''10.1.0.0/24'' = Some pool"
    and "pool_Subnet pool = v4_net [10, 1, 0, 0] 24"
proof -
  have "case pools ipam_example ''10.1.0.0/24'' of None \<Rightarrow> False
      | Some pool \<Rightarrow> pool_Subnet pool = v4_net [10, 1, 0, 0] 24"
    by code_simp
  then show ?thesis using that by (auto split: option.splits)
qed

theorem ipam_vip_reference_witness:
  "\<exists>pool. pools ipam_example ''10.1.0.0/24'' = Some pool \<and>
     fst (AllocateVIP ''10.1.0.0/24'' ''web'' ipam_example) =
    (case find (\<lambda>v. ip_available pool (be_bytes 4 v))
       (rev [subnet_last [10, 1, 0, 0] 24 - 31..<subnet_last [10, 1, 0, 0] 24 - 15]) of
       None \<Rightarrow> Inl (VIPExhaustion ''10.1.0.0/24'') | Some v \<Rightarrow> Inr (be_bytes 4 v))"
proof -
  obtain pool where p: "pools ipam_example ''10.1.0.0/24'' = Some pool"
      "pool_Subnet pool = v4_net [10, 1, 0, 0] 24" by (rule ipam_example_pool)
  from ipam_vip_reference [OF p, of "''web''"] p(1) show ?thesis by auto
qed

text \<open>
  A VIP of such a subnet lies in the subnet, and it is neither the network address nor
  one of the last sixteen addresses, so it is not the broadcast address either.
\<close>

theorem ipam_vip_in_subnet:
  assumes "pools m c = Some pool" and "pool_Subnet pool = v4_net base n" and "length base = 4" and "n \<le> 27"
    and "AllocateVIP c s m = (Inr a, m')"
  shows "Contains (pool_Subnet pool) a \<and> length a = 4 \<and> be_val a \<le> subnet_last base n - 16"
proof -
  from AllocateVIP_find [OF assms(1-4), of s] assms(5)
  obtain v where f: "find (\<lambda>v. ip_available pool (be_bytes 4 v)) (vip_numbers base n) = Some v"
    and a: "a = be_bytes 4 v"
    by (auto split: option.splits)
  have v: "subnet_last base n - 31 \<le> v" "v < subnet_last base n - 15"
    using find_SomeD [OF f] by (auto simp: vip_numbers_def)
  have l: "subnet_first base n + 31 \<le> subnet_last base n" "subnet_last base n < 256 ^ 4"
    using subnet_last_ge [OF assms(4), of base] subnet_last_less [of base n] assms(3,4) by simp_all
  have n: "n \<le> 32" using assms(4) by simp
  have "be_val a = v" "length a = 4" using a v l by (simp_all add: be_val_be_bytes)
  moreover have "subnet_first base n \<le> v" "v \<le> subnet_last base n" "v \<le> subnet_last base n - 16"
    using v l(1) by linarith+
  ultimately show ?thesis
    using Contains_iff_between [OF assms(3) n, of a a] assms(2) by simp
qed

theorem ipam_vip_in_subnet_witness:
  "\<exists>pool a m'. pools ipam_example ''10.1.0.0/24'' = Some pool \<and>
     AllocateVIP ''10.1.0.0/24'' ''web'' ipam_example = (Inr a, m') \<and> Contains (pool_Subnet pool) a"
proof -
  obtain pool where p: "pools ipam_example ''10.1.0.0/24'' = Some pool"
      "pool_Subnet pool = v4_net [10, 1, 0, 0] 24" by (rule ipam_example_pool)
  let ?r = "AllocateVIP ''10.1.0.0/24'' ''web'' ipam_example"
  have "fst ?r = Inr [10, 1, 0, 239]" by code_simp
  then have r: "?r = (Inr [10, 1, 0, 239], snd ?r)" by (metis prod.collapse)
  from ipam_vip_in_subnet [OF p _ _ r] p r show ?thesis by auto
qed

end
