(* ===== verification/Resource_Table.thy ===== *)
theory Resource_Table
  imports Prelude
begin

text \<open>
  The contract between an owner of named resources and its clients: an acquisition of a key
  makes exactly that key held, a release makes exactly that key not held, and a refused
  acquisition changes nothing that is held. From it follows what is held after any sequence of
  operations: the abstract machine on sets of keys. The networks and the node attachments of
  the allocator of \<open>pkg/cni\<close> interpret it.
\<close>

datatype 'r resource_op = Acquire 'r | Drop 'r

text \<open>
  The run of a sequence of operations, with the list of the acquisitions that were granted. A
  refused acquisition keeps the state it leaves behind.
\<close>

fun resource_run ::
    "('r \<Rightarrow> 's \<Rightarrow> bool \<times> 's) \<Rightarrow> ('r \<Rightarrow> 's \<Rightarrow> 's) \<Rightarrow> 'r resource_op list \<Rightarrow> 's \<Rightarrow> bool list \<times> 's" where
  "resource_run acq drp [] s = ([], s)"
| "resource_run acq drp (Acquire r # xs) s =
     (let (ok, s') = acq r s; (oks, s'') = resource_run acq drp xs s' in (ok # oks, s''))"
| "resource_run acq drp (Drop r # xs) s =
     (let (oks, s'') = resource_run acq drp xs (drp r s) in (True # oks, s''))"

text \<open>The abstract machine: a set of keys.\<close>

fun held_run :: "('r \<Rightarrow> 'k) \<Rightarrow> 'r resource_op list \<Rightarrow> bool list \<Rightarrow> 'k set \<Rightarrow> 'k set" where
  "held_run key [] oks H = H"
| "held_run key (x # xs) [] H = H"
| "held_run key (Acquire r # xs) (ok # oks) H = held_run key xs oks (if ok then insert (key r) H else H)"
| "held_run key (Drop r # xs) (ok # oks) H = held_run key xs oks (H - {key r})"

locale resource_table =
  fixes inv :: "'s \<Rightarrow> bool"
    and held :: "'s \<Rightarrow> 'k set"
    and key :: "'r \<Rightarrow> 'k"
    and acquire :: "'r \<Rightarrow> 's \<Rightarrow> bool \<times> 's"
    and drop_res :: "'r \<Rightarrow> 's \<Rightarrow> 's"
  assumes acquire_held: "inv s \<Longrightarrow> acquire r s = (True, s') \<Longrightarrow> held s' = insert (key r) (held s)"
    and refuse_held: "inv s \<Longrightarrow> acquire r s = (False, s') \<Longrightarrow> held s' = held s"
    and acquire_inv: "inv s \<Longrightarrow> acquire r s = (ok, s') \<Longrightarrow> inv s'"
    and drop_held: "inv s \<Longrightarrow> held (drop_res r s) = held s - {key r}"
    and drop_inv: "inv s \<Longrightarrow> inv (drop_res r s)"
begin

text \<open>The state refines the abstract machine: the held keys of a run are those of the machine.\<close>

lemma run_refines:
  assumes "inv s" and "resource_run acquire drop_res xs s = (oks, s')"
  shows "inv s' \<and> held s' = held_run key xs oks (held s)"
  using assms
proof (induction xs arbitrary: s oks s')
  case (Cons x xs)
  show ?case
  proof (cases x)
    case (Acquire r)
    obtain ok s1 where a: "acquire r s = (ok, s1)" by (cases "acquire r s")
    obtain oks' s2 where b: "resource_run acquire drop_res xs s1 = (oks', s2)"
      by (cases "resource_run acquire drop_res xs s1")
    have "held s1 = (if ok then insert (key r) (held s) else held s)"
      using acquire_held [OF Cons.prems(1), of r s1] refuse_held [OF Cons.prems(1), of r s1] a by (cases ok) auto
    moreover have "inv s1" using acquire_inv [OF Cons.prems(1) a] .
    ultimately show ?thesis using Cons.IH [OF _ b] Cons.prems(2) Acquire a b by auto
  next
    case (Drop r)
    obtain oks' s2 where b: "resource_run acquire drop_res xs (drop_res r s) = (oks', s2)"
      by (cases "resource_run acquire drop_res xs (drop_res r s)")
    show ?thesis
      using Cons.IH [OF drop_inv [OF Cons.prems(1)] b] drop_held [OF Cons.prems(1)] Cons.prems(2) Drop b by auto
  qed
qed simp

end

end
