(* ===== verification/Cni_Allocator.thy ===== *)
theory Cni_Allocator
  imports Cni_Provider Cni_Ipam_Correct Resource_Table
begin

text \<open>
  The network allocator of \<open>pkg/cni/allocator.go\<close>, which SwarmKit calls to allocate networks,
  service VIPs, task addresses and node attachments. The SwarmKit objects are records of the
  fields the allocator reads and writes; an operation that updates one returns it. An argument
  that may be nil is an option. The clock is an argument.
\<close>

subsection \<open>The SwarmKit objects\<close>

record api_network =
  n_ID :: string
  n_Name :: string
  n_DriverConfig :: "string option"
  n_Ingress :: bool
  n_DriverState :: "(string \<times> (string \<rightharpoonup> string)) option"
  n_IPAM :: "(string \<times> string) option"

record api_port =
  port_TargetPort :: uint32
  port_PublishedPort :: uint32
  port_Protocol :: string
  port_PublishMode :: string

record api_service =
  s_ID :: string
  s_Networks :: "string list"
  s_Endpoint :: "api_port list option"

record api_attachment =
  na_NetworkID :: string
  na_Addresses :: "string list"
  na_DriverAttachmentOpts :: "string \<rightharpoonup> string"

record api_task =
  t_ID :: string
  t_Networks :: "api_attachment list"

subsection \<open>The allocator\<close>

record cni_allocator =
  al_provider :: cni_provider
  al_config :: "uint32 option"
  al_allocatedNets :: "string \<rightharpoonup> net_ref"

datatype allocator_error =
    NilArgument
  | NilProvider
  | AllocDriver provider_error
  | AllocNetworkFailed provider_error
  | NetworkNotAllocated string
  | AllocVIPFailed ipam_error
  | AllocIPFailed ipam_error
  | AllocatedNotFound string

text \<open>The configuration of the allocator is its VXLAN port, \<open>None\<close> for a nil configuration.\<close>

definition NewCNINetworkAllocator ::
    "cni_provider option \<Rightarrow> uint32 option \<Rightarrow> (allocator_error, cni_allocator) res" where
  "NewCNINetworkAllocator provider cfg =
     (case provider of
        None \<Rightarrow> Inl NilProvider
      | Some p \<Rightarrow>
          Inr \<lparr>al_provider = (case cfg of None \<Rightarrow> p | Some port \<Rightarrow> if 0 < port then SetDefaultVXLANUDPPort port p else p),
               al_config = cfg, al_allocatedNets = Map.empty\<rparr>)"

definition net_at :: "cni_allocator \<Rightarrow> net_ref \<Rightarrow> allocated_network" where
  "net_at a r = prov_heap (al_provider a) ! r"

definition set_net :: "net_ref \<Rightarrow> allocated_network \<Rightarrow> cni_allocator \<Rightarrow> cni_allocator" where
  "set_net r n a = a\<lparr>al_provider := (al_provider a)\<lparr>prov_heap := (prov_heap (al_provider a))[r := n]\<rparr>\<rparr>"

definition set_ipam :: "ipam_manager \<Rightarrow> cni_allocator \<Rightarrow> cni_allocator" where
  "set_ipam m a = a\<lparr>al_provider := (al_provider a)\<lparr>prov_ipamMgr := m\<rparr>\<rparr>"

abbreviation al_ipam :: "cni_allocator \<Rightarrow> ipam_manager" where
  "al_ipam a \<equiv> prov_ipamMgr (al_provider a)"

subsubsection \<open>Networks\<close>

definition IsAllocated :: "api_network option \<Rightarrow> cni_allocator \<Rightarrow> bool" where
  "IsAllocated n a = (case n of None \<Rightarrow> False | Some n \<Rightarrow> al_allocatedNets a (n_ID n) \<noteq> None)"

definition DriverState :: "allocated_network \<Rightarrow> (string \<rightharpoonup> string)" where
  "DriverState n =
     (let state = [''bridge'' \<mapsto> an_BridgeName n]
      in if an_Driver n = ''vxlan'' then state(''vxlan_vni'' \<mapsto> dec_of_nat (unat (an_VXLANID n))) else state)"

definition IPAMState :: "allocated_network \<Rightarrow> string \<times> string" where
  "IPAMState n = (net_String (an_Subnet n), ip_String (an_Gateway n))"

definition Allocate ::
    "api_network option \<Rightarrow> cni_allocator \<Rightarrow> (allocator_error, api_network) res \<times> cni_allocator" where
  "Allocate n a =
     (case n of
        None \<Rightarrow> (Inl NilArgument, a)
      | Some n \<Rightarrow>
          if al_allocatedNets a (n_ID n) \<noteq> None then (Inr n, a)
          else
            let driver = (case n_DriverConfig n of Some d \<Rightarrow> if d \<noteq> [] then d else ''bridge'' | None \<Rightarrow> ''bridge'');
                name = (if n_Name n = [] then n_ID n else n_Name n)
            in case ValidateNetworkDriver (n_DriverConfig n) of
                 Inl e \<Rightarrow> (Inl (AllocDriver e), a)
               | Inr _ \<Rightarrow>
                   (case AllocateNetwork name driver (al_provider a) of
                      (Inl e, p') \<Rightarrow> (Inl (AllocNetworkFailed e), a\<lparr>al_provider := p'\<rparr>)
                    | (Inr r, p') \<Rightarrow>
                        let net = (prov_heap p' ! r)\<lparr>an_ID := n_ID n\<rparr>;
                            net' = (if n_Ingress n then net\<lparr>an_Ingress := True\<rparr> else net);
                            a' = set_net r net' (a\<lparr>al_provider := p',
                                   al_allocatedNets := (al_allocatedNets a)(n_ID n \<mapsto> r)\<rparr>)
                        in (Inr (n\<lparr>n_DriverState := Some (driver, DriverState net'), n_IPAM := Some (IPAMState net')\<rparr>), a')))"

text \<open>\<open>RemoveCNIConfig\<close> is a placeholder: it removes nothing and succeeds.\<close>

definition RemoveCNIConfig :: "string \<Rightarrow> string \<Rightarrow> fsys \<Rightarrow> fsys" where
  "RemoveCNIConfig configDir networkName fs = fs"

definition Deallocate :: "api_network option \<Rightarrow> cni_allocator \<Rightarrow> (allocator_error, unit) res \<times> cni_allocator" where
  "Deallocate n a =
     (case n of
        None \<Rightarrow> (Inl NilArgument, a)
      | Some n \<Rightarrow>
          (case al_allocatedNets a (n_ID n) of
             None \<Rightarrow> (Inr (), a)
           | Some r \<Rightarrow>
               let net = net_at a r; p = al_provider a; m = prov_ipamMgr p;
                   p' = p\<lparr>prov_fs := RemoveCNIConfig (cfg_ConfigDir (prov_config p)) (an_Name net) (prov_fs p),
                          prov_ipamMgr := m\<lparr>pools := (pools m)(net_String (an_Subnet net) := None)\<rparr>\<rparr>
               in (Inr (), a\<lparr>al_provider := p', al_allocatedNets := (al_allocatedNets a)(n_ID n := None)\<rparr>)))"

subsubsection \<open>Services\<close>

definition parsePublishedPorts :: "api_service \<Rightarrow> published_port list" where
  "parsePublishedPorts s =
     (case s_Endpoint s of
        None \<Rightarrow> []
      | Some ports \<Rightarrow>
          map (\<lambda>p. \<lparr>pp_Port = port_TargetPort p, pp_PublishedPort = port_PublishedPort p,
                    pp_Protocol = port_Protocol p, pp_PublishMode = port_PublishMode p\<rparr>) ports)"

fun all_vips :: "string \<Rightarrow> string list \<Rightarrow> cni_allocator \<Rightarrow> bool" where
  "all_vips sid [] a = True"
| "all_vips sid (tgt # tgts) a =
     (case al_allocatedNets a tgt of
        None \<Rightarrow> False
      | Some r \<Rightarrow> if an_Services (net_at a r) sid = None then False else all_vips sid tgts a)"

definition IsServiceAllocated :: "api_service option \<Rightarrow> cni_allocator \<Rightarrow> bool" where
  "IsServiceAllocated s a = (case s of None \<Rightarrow> False | Some s \<Rightarrow> all_vips (s_ID s) (s_Networks s) a)"

text \<open>The loop of \<open>AllocateService\<close> over the networks of the service.\<close>

fun allocate_vips ::
    "api_service \<Rightarrow> time \<Rightarrow> string list \<Rightarrow> cni_allocator \<Rightarrow> (allocator_error, unit) res \<times> cni_allocator" where
  "allocate_vips s now [] a = (Inr (), a)"
| "allocate_vips s now (tgt # tgts) a =
     (case al_allocatedNets a tgt of
        None \<Rightarrow> (Inl (NetworkNotAllocated tgt), a)
      | Some r \<Rightarrow>
          (case AllocateVIP (net_String (an_Subnet (net_at a r))) (s_ID s) (al_ipam a) of
             (Inl e, m) \<Rightarrow> (Inl (AllocVIPFailed e), set_ipam m a)
           | (Inr vip, m) \<Rightarrow>
               let net = net_at a r;
                   entry = \<lparr>vip_ServiceID = s_ID s, vip_NetworkID = an_ID net, vip_VIP = vip,
                            vip_PublishedPorts = parsePublishedPorts s, vip_AllocatedAt = now\<rparr>
               in allocate_vips s now tgts
                    (set_net r (net\<lparr>an_Services := (an_Services net)(s_ID s \<mapsto> entry)\<rparr>) (set_ipam m a))))"

text \<open>The first ingress network in the iteration order \<open>ks\<close>.\<close>

definition find_ingress :: "string list \<Rightarrow> cni_allocator \<Rightarrow> (string \<times> net_ref) option" where
  "find_ingress ks a =
     map_option (\<lambda>k. (k, the (al_allocatedNets a k)))
       (find (\<lambda>k. case al_allocatedNets a k of None \<Rightarrow> False | Some r \<Rightarrow> an_Ingress (net_at a r)) ks)"

definition AllocateService ::
    "api_service option \<Rightarrow> time \<Rightarrow> string list \<Rightarrow> cni_allocator \<Rightarrow> (allocator_error, unit) res \<times> cni_allocator" where
  "AllocateService s now ks a =
     (case s of
        None \<Rightarrow> (Inl NilArgument, a)
      | Some s \<Rightarrow>
          (case allocate_vips s now (s_Networks s) a of
             (Inl e, a') \<Rightarrow> (Inl e, a')
           | (Inr _, a') \<Rightarrow>
               if s_Endpoint s \<noteq> None \<and> s_Endpoint s \<noteq> Some [] then
                 (case find_ingress ks a' of
                    None \<Rightarrow> (Inr (), a')
                  | Some (netID, r) \<Rightarrow>
                      let net = net_at a' r;
                          entry = \<lparr>vip_ServiceID = s_ID s, vip_NetworkID = netID, vip_VIP = [],
                                   vip_PublishedPorts = parsePublishedPorts s, vip_AllocatedAt = now\<rparr>
                      in (Inr (), set_net r (net\<lparr>an_Services := (an_Services net)(s_ID s \<mapsto> entry)\<rparr>) a'))
               else (Inr (), a')))"

fun release_vips :: "string \<Rightarrow> string list \<Rightarrow> cni_allocator \<Rightarrow> cni_allocator" where
  "release_vips sid [] a = a"
| "release_vips sid (tgt # tgts) a =
     (case al_allocatedNets a tgt of
        None \<Rightarrow> release_vips sid tgts a
      | Some r \<Rightarrow>
          let net = net_at a r in
          (case an_Services net sid of
             None \<Rightarrow> release_vips sid tgts a
           | Some v \<Rightarrow>
               let m = snd (ReleaseVIP (vip_VIP v) (net_String (an_Subnet net)) sid (al_ipam a))
               in release_vips sid tgts
                    (set_net r (net\<lparr>an_Services := (an_Services net)(sid := None)\<rparr>) (set_ipam m a))))"

definition DeallocateService ::
    "api_service option \<Rightarrow> string list \<Rightarrow> cni_allocator \<Rightarrow> (allocator_error, unit) res \<times> cni_allocator" where
  "DeallocateService s ks a =
     (case s of
        None \<Rightarrow> (Inl NilArgument, a)
      | Some s \<Rightarrow>
          let a' = release_vips (s_ID s) (s_Networks s) a in
          (case find_ingress ks a' of
             None \<Rightarrow> (Inr (), a')
           | Some (netID, r) \<Rightarrow>
               let net = net_at a' r
               in (Inr (), set_net r (net\<lparr>an_Services := (an_Services net)(s_ID s := None)\<rparr>) a')))"

subsubsection \<open>Tasks\<close>

definition IsTaskAllocated :: "api_task option \<Rightarrow> bool" where
  "IsTaskAllocated t = (case t of None \<Rightarrow> False | Some t \<Rightarrow> list_all (\<lambda>x. na_Addresses x \<noteq> []) (t_Networks t))"

text \<open>The loop of \<open>AllocateTask\<close>: the attachments are updated one by one, up to the first failure.\<close>

fun allocate_addresses ::
    "string \<Rightarrow> api_attachment list \<Rightarrow> cni_allocator \<Rightarrow> (allocator_error, unit) res \<times> api_attachment list \<times> cni_allocator" where
  "allocate_addresses tid [] a = (Inr (), [], a)"
| "allocate_addresses tid (x # xs) a =
     (case al_allocatedNets a (na_NetworkID x) of
        None \<Rightarrow> (Inl (NetworkNotAllocated (na_NetworkID x)), x # xs, a)
      | Some r \<Rightarrow>
          (case AllocateIP (net_String (an_Subnet (net_at a r))) tid (al_ipam a) of
             (Inl e, m) \<Rightarrow> (Inl (AllocIPFailed e), x # xs, set_ipam m a)
           | (Inr ip, m) \<Rightarrow>
               let (res, xs', a') = allocate_addresses tid xs (set_ipam m a)
               in (res, x\<lparr>na_Addresses := [ip_String ip]\<rparr> # xs', a')))"

definition AllocateTask ::
    "api_task option \<Rightarrow> cni_allocator \<Rightarrow> (allocator_error, unit) res \<times> api_task option \<times> cni_allocator" where
  "AllocateTask t a =
     (case t of
        None \<Rightarrow> (Inl NilArgument, None, a)
      | Some t \<Rightarrow>
          let (res, xs, a') = allocate_addresses (t_ID t) (t_Networks t) a
          in (res, Some (t\<lparr>t_Networks := xs\<rparr>), a'))"

fun release_addresses :: "api_attachment list \<Rightarrow> cni_allocator \<Rightarrow> api_attachment list \<times> cni_allocator" where
  "release_addresses [] a = ([], a)"
| "release_addresses (x # xs) a =
     (let (x', a') =
        (case al_allocatedNets a (na_NetworkID x) of
           None \<Rightarrow> (x, a)
         | Some r \<Rightarrow>
             (case na_Addresses x of
                [] \<Rightarrow> (x, a)
              | addr # _ \<Rightarrow>
                  (case ParseIP addr of
                     None \<Rightarrow> (x, a)
                   | Some ip \<Rightarrow>
                       (x\<lparr>na_Addresses := []\<rparr>,
                        set_ipam (snd (ReleaseIP ip (net_String (an_Subnet (net_at a r))) (al_ipam a))) a))));
        (xs', a'') = release_addresses xs a'
      in (x' # xs', a''))"

definition DeallocateTask ::
    "api_task option \<Rightarrow> cni_allocator \<Rightarrow> (allocator_error, unit) res \<times> api_task option \<times> cni_allocator" where
  "DeallocateTask t a =
     (case t of
        None \<Rightarrow> (Inl NilArgument, None, a)
      | Some t \<Rightarrow>
          let (xs, a') = release_addresses (t_Networks t) a
          in (Inr (), Some (t\<lparr>t_Networks := xs\<rparr>), a'))"

subsubsection \<open>Node attachments\<close>

text \<open>A node is its identifier.\<close>

definition AllocateAttachment ::
    "string option \<Rightarrow> api_attachment option \<Rightarrow> time \<Rightarrow> cni_allocator
      \<Rightarrow> (allocator_error, api_attachment) res \<times> cni_allocator" where
  "AllocateAttachment node na now a =
     (case (node, na) of
        (Some nodeID, Some na) \<Rightarrow>
          (case al_allocatedNets a (na_NetworkID na) of
             None \<Rightarrow> (Inl (NetworkNotAllocated (na_NetworkID na)), a)
           | Some r \<Rightarrow>
               let net = net_at a r in
               (case AllocateIP (net_String (an_Subnet net)) nodeID (al_ipam a) of
                  (Inl e, m) \<Rightarrow> (Inl (AllocIPFailed e), set_ipam m a)
                | (Inr ip, m) \<Rightarrow>
                    let att = \<lparr>att_NodeID = nodeID, att_NetworkID = an_ID net, att_IPAddress = ip,
                               att_MACAddress = [], att_VXLANVNI = an_VXLANID net, att_AllocatedAt = now\<rparr>;
                        net' = net\<lparr>an_Attachments := (an_Attachments net)(nodeID \<mapsto> att)\<rparr>;
                        na' = na\<lparr>na_Addresses := [ip_String ip]\<rparr>;
                        na'' = (if an_Driver net = ''vxlan''
                                then na'\<lparr>na_DriverAttachmentOpts := [''vxlan_vni'' \<mapsto> dec_of_nat (unat (an_VXLANID net))]\<rparr>
                                else na')
                    in (Inr na'', set_net r net' (set_ipam m a))))
      | _ \<Rightarrow> (Inl NilArgument, a))"

definition DeallocateAttachment ::
    "string option \<Rightarrow> api_attachment option \<Rightarrow> cni_allocator
      \<Rightarrow> (allocator_error, api_attachment) res \<times> cni_allocator" where
  "DeallocateAttachment node na a =
     (case (node, na) of
        (Some nodeID, Some na) \<Rightarrow>
          (case al_allocatedNets a (na_NetworkID na) of
             None \<Rightarrow> (Inr na, a)
           | Some r \<Rightarrow>
               let net = net_at a r in
               (case an_Attachments net nodeID of
                  None \<Rightarrow> (Inr na, a)
                | Some att \<Rightarrow>
                    let m = snd (ReleaseIP (att_IPAddress att) (net_String (an_Subnet net)) (al_ipam a));
                        net' = net\<lparr>an_Attachments := (an_Attachments net)(nodeID := None)\<rparr>
                    in (Inr (na\<lparr>na_Addresses := [], na_DriverAttachmentOpts := Map.empty\<rparr>),
                        set_net r net' (set_ipam m a))))
      | _ \<Rightarrow> (Inl NilArgument, a))"

definition IsAttachmentAllocated :: "string option \<Rightarrow> api_attachment option \<Rightarrow> cni_allocator \<Rightarrow> bool" where
  "IsAttachmentAllocated node na a =
     (case (node, na) of
        (Some nodeID, Some na) \<Rightarrow>
          (case al_allocatedNets a (na_NetworkID na) of
             None \<Rightarrow> False
           | Some r \<Rightarrow> an_Attachments (net_at a r) nodeID \<noteq> None)
      | _ \<Rightarrow> False)"

subsubsection \<open>Queries\<close>

definition GetAllocatedNetwork :: "string \<Rightarrow> cni_allocator \<Rightarrow> (allocator_error, allocated_network) res" where
  "GetAllocatedNetwork networkID a =
     (case al_allocatedNets a networkID of None \<Rightarrow> Inl (AllocatedNotFound networkID) | Some r \<Rightarrow> Inr (net_at a r))"

definition ListAllocatedNetworks :: "string list \<Rightarrow> cni_allocator \<Rightarrow> allocated_network list" where
  "ListAllocatedNetworks ks a = map (net_at a) (List.map_filter (al_allocatedNets a) ks)"

definition RunGC :: "cni_allocator \<Rightarrow> (allocator_error, unit) res \<times> cni_allocator" where
  "RunGC a = (Inr (), a)"

end
