(* ===== verification/Cni_Allocator_Correct.thy ===== *)
theory Cni_Allocator_Correct
  imports Cni_Allocator
begin

text \<open>
  Correctness of the network allocator: its invariant, the interpretations of the resource
  contract on networks and on node attachments, and the round trips of tasks, attachments and
  services through the IPAM manager.
\<close>

subsection \<open>The heap of network objects\<close>

lemma net_at_simps [simp]:
  "al_allocatedNets (set_net r n a) = al_allocatedNets a"
  "al_allocatedNets (set_ipam m a) = al_allocatedNets a"
  "prov_ipamMgr (al_provider (set_net r n a)) = prov_ipamMgr (al_provider a)"
  "prov_ipamMgr (al_provider (set_ipam m a)) = m"
  "net_at (set_ipam m a) = net_at a"
  "length (prov_heap (al_provider (set_net r n a))) = length (prov_heap (al_provider a))"
  "prov_heap (al_provider (set_ipam m a)) = prov_heap (al_provider a)"
  by (simp_all add: set_net_def set_ipam_def net_at_def fun_eq_iff)

lemma net_at_set_net:
  "r < length (prov_heap (al_provider a)) \<Longrightarrow> net_at (set_net r n a) q = (if q = r then n else net_at a q)"
  by (simp add: set_net_def net_at_def nth_list_update)

text \<open>
  The invariant: every allocated network points into the heap, at the object that carries its
  identifier.
\<close>

definition wf_allocator :: "cni_allocator \<Rightarrow> bool" where
  "wf_allocator a \<longleftrightarrow> (\<forall>k r. al_allocatedNets a k = Some r \<longrightarrow>
     r < length (prov_heap (al_provider a)) \<and> an_ID (net_at a r) = k)"

lemma wf_allocatorD:
  assumes "wf_allocator a" and "al_allocatedNets a k = Some r"
  shows "r < length (prov_heap (al_provider a))" and "an_ID (net_at a r) = k"
  using assms by (auto simp: wf_allocator_def)

lemma wf_inj: "wf_allocator a \<Longrightarrow> al_allocatedNets a k = Some r \<Longrightarrow> al_allocatedNets a l = Some r \<Longrightarrow> k = l"
  using wf_allocatorD(2) by metis

lemma wf_set_ipam [inv_intros]: "wf_allocator a \<Longrightarrow> wf_allocator (set_ipam m a)"
  by (simp add: wf_allocator_def)

lemma wf_set_net [inv_intros]:
  assumes "wf_allocator a" and "al_allocatedNets a k = Some r" and "an_ID n = k"
  shows "wf_allocator (set_net r n a)"
  unfolding wf_allocator_def
proof (intro allI impI)
  fix l q
  assume "al_allocatedNets (set_net r n a) l = Some q"
  then have l: "al_allocatedNets a l = Some q" by simp
  have "q = r \<Longrightarrow> l = k" using wf_inj [OF assms(1,2), of l] l by simp
  then show "q < length (prov_heap (al_provider (set_net r n a))) \<and> an_ID (net_at (set_net r n a) q) = l"
    using net_at_set_net [OF wf_allocatorD(1) [OF assms(1,2)]] wf_allocatorD [OF assms(1) l] assms(3) by auto
qed

lemma wf_new: "NewCNINetworkAllocator (Some p) cfg = Inr a \<Longrightarrow> wf_allocator a"
  by (auto simp: NewCNINetworkAllocator_def wf_allocator_def)

subsection \<open>Networks\<close>

lemma AllocateNetwork_heap:
  assumes "AllocateNetwork name driver p = (res, p')"
  shows "\<exists>ns. prov_heap p' = prov_heap p @ ns" and "res = Inr r \<Longrightarrow> r = length (prov_heap p) \<and> length (prov_heap p') = Suc r"
  using assms by (auto simp: AllocateNetwork_def Let_def split: sum.splits prod.splits)

lemma wf_extend:
  assumes "wf_allocator a" and "prov_heap p' = prov_heap (al_provider a) @ ns"
  shows "wf_allocator (a\<lparr>al_provider := p'\<rparr>)"
  using assms by (fastforce simp: wf_allocator_def net_at_def nth_append)

lemma Allocate_cases:
  assumes "Allocate (Some n) a = (res, a')" and "wf_allocator a"
  obtains (present) "al_allocatedNets a (n_ID n) \<noteq> None" "res = Inr n" "a' = a"
  | (refused) e where "al_allocatedNets a (n_ID n) = None" "res = Inl e" "al_allocatedNets a' = al_allocatedNets a" "wf_allocator a'"
  | (granted) r n' where "al_allocatedNets a (n_ID n) = None" "res = Inr n'"
      "al_allocatedNets a' = (al_allocatedNets a)(n_ID n \<mapsto> r)" "wf_allocator a'"
proof -
  let ?d = "case n_DriverConfig n of Some d \<Rightarrow> if d \<noteq> [] then d else ''bridge'' | None \<Rightarrow> ''bridge''"
  let ?name = "if n_Name n = [] then n_ID n else n_Name n"
  consider "al_allocatedNets a (n_ID n) \<noteq> None" | "al_allocatedNets a (n_ID n) = None" by blast
  then show thesis
  proof cases
    case 1
    then have "res = Inr n" "a' = a" using assms(1) by (auto simp: Allocate_def)
    with 1 show thesis by (rule present)
  next
    case fresh: 2
    show thesis
    proof (cases "ValidateNetworkDriver (n_DriverConfig n)")
      case (Inl e)
      then have res: "res = Inl (AllocDriver e)" and a': "a' = a"
        using assms(1) fresh by (simp_all add: Allocate_def Let_def)
      show thesis by (rule refused [OF fresh res]) (simp_all add: a' assms(2))
    next
      case (Inr u)
      obtain res1 p' where al: "AllocateNetwork ?name ?d (al_provider a) = (res1, p')" by (rule prod.exhaust)
      obtain ns where ns: "prov_heap p' = prov_heap (al_provider a) @ ns" using AllocateNetwork_heap(1) [OF al] ..
      have wf1: "wf_allocator (a\<lparr>al_provider := p'\<rparr>)" using wf_extend [OF assms(2) ns] .
      show thesis
      proof (cases res1)
        case (Inl e)
        then have res: "res = Inl (AllocNetworkFailed e)" and a': "a' = a\<lparr>al_provider := p'\<rparr>"
          using assms(1) fresh Inr al by (simp_all add: Allocate_def Let_def)
        show thesis by (rule refused [OF fresh res]) (simp_all add: a' wf1)
      next
        case (Inr r)
        have r: "r = length (prov_heap (al_provider a))" "r < length (prov_heap p')"
          using AllocateNetwork_heap(2) [OF al Inr] by simp_all
        have unused: "al_allocatedNets a k \<noteq> Some r" for k
          using wf_allocatorD(1) [OF assms(2), of k r] r(1) by auto
        let ?a1 = "a\<lparr>al_provider := p', al_allocatedNets := (al_allocatedNets a)(n_ID n \<mapsto> r)\<rparr>"
        have wf: "wf_allocator (set_net r x ?a1)" if "an_ID x = n_ID n" for x
          using wf1 r that unused by (auto simp: wf_allocator_def net_at_def set_net_def nth_list_update)
        let ?x = "(prov_heap p' ! r)\<lparr>an_ID := n_ID n\<rparr>"
        let ?y = "if n_Ingress n then ?x\<lparr>an_Ingress := True\<rparr> else ?x"
        have a': "a' = set_net r ?y ?a1" and ex: "\<exists>n'. res = Inr n'"
          using assms(1) fresh \<open>ValidateNetworkDriver _ = Inr u\<close> al Inr
          by (auto simp: Allocate_def Let_def split: if_splits)
        from ex obtain n' where res: "res = Inr n'" ..
        show thesis
        proof (rule granted [OF fresh res])
          show "al_allocatedNets a' = (al_allocatedNets a)(n_ID n \<mapsto> r)" by (simp add: a')
          show "wf_allocator a'" unfolding a' by (rule wf) simp
        qed
      qed
    qed
  qed
qed

text \<open>The keys of the networks held by the allocator.\<close>

definition allocated_ids :: "cni_allocator \<Rightarrow> string set" where
  "allocated_ids a = dom (al_allocatedNets a)"

definition acquire_network :: "api_network \<Rightarrow> cni_allocator \<Rightarrow> bool \<times> cni_allocator" where
  "acquire_network n a = (let (res, a') = Allocate (Some n) a in (is_ok res, a'))"

definition drop_network :: "api_network \<Rightarrow> cni_allocator \<Rightarrow> cni_allocator" where
  "drop_network n a = snd (Deallocate (Some n) a)"

lemma drop_network_ids: "allocated_ids (drop_network n a) = allocated_ids a - {n_ID n}"
  by (auto simp: drop_network_def Deallocate_def allocated_ids_def Let_def split: option.splits if_splits)

lemma wf_drop_network: "wf_allocator a \<Longrightarrow> wf_allocator (drop_network n a)"
  by (auto simp: drop_network_def Deallocate_def wf_allocator_def net_at_def Let_def split: option.splits if_splits)

interpretation networks: resource_table wf_allocator allocated_ids n_ID acquire_network drop_network
proof unfold_locales
  fix a n a'
  assume wf: "wf_allocator a"
  show "wf_allocator (drop_network n a)" using wf by (rule wf_drop_network)
  show "allocated_ids (drop_network n a) = allocated_ids a - {n_ID n}" by (rule drop_network_ids)
  { assume "acquire_network n a = (True, a')"
    then obtain n' where "Allocate (Some n) a = (Inr n', a')"
      by (auto simp: acquire_network_def split: prod.splits sum.splits) (metis sum.collapse(2))
    then show "allocated_ids a' = insert (n_ID n) (allocated_ids a)"
      by (rule Allocate_cases [OF _ wf]) (auto simp: allocated_ids_def) }
  { assume "acquire_network n a = (False, a')"
    then obtain e where "Allocate (Some n) a = (Inl e, a')"
      by (auto simp: acquire_network_def split: prod.splits) (metis sum.collapse(1))
    then show "allocated_ids a' = allocated_ids a"
      by (rule Allocate_cases [OF _ wf]) (auto simp: allocated_ids_def) }
next
  fix a n ok a'
  assume wf: "wf_allocator a" and "acquire_network n a = (ok, a')"
  then obtain res where "Allocate (Some n) a = (res, a')"
    by (auto simp: acquire_network_def split: prod.splits)
  then show "wf_allocator a'" by (rule Allocate_cases [OF _ wf]) (auto simp: wf)
qed


text \<open>
  Claim C21. Through every sequence of \<open>Allocate\<close> and \<open>Deallocate\<close> calls the allocator holds exactly
  the networks of the abstract machine on sets of identifiers: a granted allocation adds the
  network's identifier, a deallocation removes it, a refused allocation changes nothing.
\<close>

theorem allocator_networks_refine:
  assumes "wf_allocator a" and "resource_run acquire_network drop_network xs a = (oks, a')"
  shows "wf_allocator a' \<and>
    {k. \<exists>n. GetAllocatedNetwork k a' = Inr n} = held_run n_ID xs oks {k. \<exists>n. GetAllocatedNetwork k a = Inr n}"
proof -
  have "{k. \<exists>n. GetAllocatedNetwork k b = Inr n} = allocated_ids b" for b
    by (auto simp: GetAllocatedNetwork_def allocated_ids_def split: option.splits)
  then show ?thesis using networks.run_refines [OF assms] by simp
qed

definition example_allocator :: cni_allocator where
  "example_allocator = projr (NewCNINetworkAllocator (Some example_provider) None)"

definition example_network :: "string \<Rightarrow> string \<Rightarrow> api_network" where
  "example_network i d = \<lparr>n_ID = i, n_Name = i, n_DriverConfig = Some d, n_Ingress = False, n_DriverState = None, n_IPAM = None\<rparr>"

lemma wf_example: "wf_allocator example_allocator"
  by (rule wf_new [of example_provider None]) (simp add: example_allocator_def NewCNINetworkAllocator_def)

theorem allocator_networks_refine_witness:
  "\<exists>a'. resource_run acquire_network drop_network
       [Acquire (example_network ''n1'' ''bridge''), Acquire (example_network ''n2'' ''macvlan''), Drop (example_network ''n1'' [])]
       example_allocator = ([True, False, True], a') \<and> {k. \<exists>n. GetAllocatedNetwork k a' = Inr n} = {}"
proof -
  let ?xs = "[Acquire (example_network ''n1'' ''bridge''), Acquire (example_network ''n2'' ''macvlan''), Drop (example_network ''n1'' [])]"
  let ?r = "resource_run acquire_network drop_network ?xs example_allocator"
  have "fst ?r = [True, False, True]" by code_simp
  then have r: "?r = ([True, False, True], snd ?r)" by (metis prod.collapse)
  have "{k. \<exists>n. GetAllocatedNetwork k example_allocator = Inr n} = {}"
    by (simp add: GetAllocatedNetwork_def example_allocator_def NewCNINetworkAllocator_def)
  then show ?thesis
    using allocator_networks_refine [OF wf_example r] r by (auto simp: example_network_def)
qed

subsection \<open>Node attachments\<close>

text \<open>The attachments held: pairs of a network identifier and a node.\<close>

definition attached :: "cni_allocator \<Rightarrow> (string \<times> string) set" where
  "attached a = {(k, v). \<exists>r. al_allocatedNets a k = Some r \<and> an_Attachments (net_at a r) v \<noteq> None}"

definition attach_key :: "string \<times> api_attachment \<times> time \<Rightarrow> string \<times> string" where
  "attach_key x = (case x of (node, na, now) \<Rightarrow> (na_NetworkID na, node))"

definition acquire_attachment :: "string \<times> api_attachment \<times> time \<Rightarrow> cni_allocator \<Rightarrow> bool \<times> cni_allocator" where
  "acquire_attachment x a =
     (case x of (node, na, now) \<Rightarrow> let (res, a') = AllocateAttachment (Some node) (Some na) now a in (is_ok res, a'))"

definition drop_attachment :: "string \<times> api_attachment \<times> time \<Rightarrow> cni_allocator \<Rightarrow> cni_allocator" where
  "drop_attachment x a = (case x of (node, na, now) \<Rightarrow> snd (DeallocateAttachment (Some node) (Some na) a))"

lemma attached_set_ipam [simp]: "attached (set_ipam m a) = attached a"
  by (simp add: attached_def)

text \<open>Updating the attachments of one network changes the entries of that network only.\<close>

lemma attached_set_net:
  assumes "wf_allocator a" and "al_allocatedNets a k = Some r"
  shows "attached (set_net r n a) = {x \<in> attached a. fst x \<noteq> k} \<union> {k} \<times> dom (an_Attachments n)"
proof -
  have r: "net_at (set_net r n a) q = (if q = r then n else net_at a q)" for q
    by (rule net_at_set_net [OF wf_allocatorD(1) [OF assms]])
  have same: "q = r \<longleftrightarrow> l = k" if "al_allocatedNets a l = Some q" for l q
    using wf_inj [OF assms(1,2), of l] assms(2) that by auto
  have "(l, v) \<in> attached (set_net r n a) \<longleftrightarrow> (if l = k then v \<in> dom (an_Attachments n) else (l, v) \<in> attached a)" for l v
  proof (cases "al_allocatedNets a l")
    case None
    then have "l \<noteq> k" using assms(2) by auto
    with None show ?thesis by (simp add: attached_def)
  next
    case (Some q)
    then show ?thesis using same [OF Some] by (auto simp: attached_def r)
  qed
  then show ?thesis by (auto split: if_splits)
qed

lemma AllocateAttachment_cases:
  assumes "AllocateAttachment (Some node) (Some na) now a = (res, a')"
  obtains (refused) e m where "res = Inl e" "a' = a \<or> a' = set_ipam m a"
  | (granted) r ip m att na' where "al_allocatedNets a (na_NetworkID na) = Some r" "res = Inr na'"
      "AllocateIP (net_String (an_Subnet (net_at a r))) node (al_ipam a) = (Inr ip, m)"
      "a' = set_net r ((net_at a r)\<lparr>an_Attachments := (an_Attachments (net_at a r))(node \<mapsto> att)\<rparr>) (set_ipam m a)"
      "att_IPAddress att = ip" "att_NodeID att = node" "na_Addresses na' = [ip_String ip]"
  using assms by (auto simp: AllocateAttachment_def Let_def split: option.splits sum.splits prod.splits)

lemma DeallocateAttachment_cases:
  assumes "DeallocateAttachment (Some node) (Some na) a = (res, a')"
  obtains (absent) "(na_NetworkID na, node) \<notin> attached a" "res = Inr na" "a' = a"
  | (freed) r att m na' where "al_allocatedNets a (na_NetworkID na) = Some r" "res = Inr na'" "na_Addresses na' = []"
      "an_Attachments (net_at a r) node = Some att"
      "m = snd (ReleaseIP (att_IPAddress att) (net_String (an_Subnet (net_at a r))) (al_ipam a))"
      "a' = set_net r ((net_at a r)\<lparr>an_Attachments := (an_Attachments (net_at a r))(node := None)\<rparr>) (set_ipam m a)"
proof (cases "al_allocatedNets a (na_NetworkID na)")
  case None
  show ?thesis by (rule absent) (use assms None in \<open>auto simp: DeallocateAttachment_def attached_def\<close>)
next
  case r: (Some r)
  show ?thesis
  proof (cases "an_Attachments (net_at a r) node")
    case None
    show ?thesis by (rule absent) (use assms None r in \<open>auto simp: DeallocateAttachment_def attached_def Let_def\<close>)
  next
    case (Some att)
    show ?thesis
      by (rule freed [OF r _ _ Some refl]) (use assms Some r in \<open>auto simp: DeallocateAttachment_def Let_def\<close>)
  qed
qed


interpretation attachments: resource_table wf_allocator attached attach_key acquire_attachment drop_attachment
proof unfold_locales
  fix a a' and x :: "string \<times> api_attachment \<times> time"
  assume wf: "wf_allocator a"
  obtain node na now where x: "x = (node, na, now)" by (cases x)
  { assume "acquire_attachment x a = (True, a')"
    then obtain na' where "AllocateAttachment (Some node) (Some na) now a = (Inr na', a')"
      unfolding x by (auto simp: acquire_attachment_def split: prod.splits) (metis sum.collapse(2))
    then show "attached a' = insert (attach_key x) (attached a)"
    proof (cases rule: AllocateAttachment_cases)
      case (granted r ip m att na')
      show ?thesis
        using granted(1) attached_set_net [OF wf_set_ipam [OF wf], of m "na_NetworkID na" r]
        unfolding granted(4) x by (auto simp: attach_key_def attached_def)
    qed simp }
  { assume "acquire_attachment x a = (False, a')"
    then obtain e where "AllocateAttachment (Some node) (Some na) now a = (Inl e, a')"
      unfolding x by (auto simp: acquire_attachment_def split: prod.splits) (metis sum.collapse(1))
    then show "attached a' = attached a" by (cases rule: AllocateAttachment_cases) auto }
  obtain res b where d: "DeallocateAttachment (Some node) (Some na) a = (res, b)" by (rule prod.exhaust)
  then have b: "drop_attachment x a = b" by (simp add: drop_attachment_def x)
  from d show "attached (drop_attachment x a) = attached a - {attach_key x}"
    unfolding b
  proof (cases rule: DeallocateAttachment_cases)
    case absent
    then show "attached b = attached a - {attach_key x}" by (simp add: attach_key_def x)
  next
    case (freed r att m na')
    show "attached b = attached a - {attach_key x}"
      using freed(1) attached_set_net [OF wf_set_ipam [OF wf], of m "na_NetworkID na" r]
      unfolding freed(6) x by (auto simp: attach_key_def attached_def)
  qed
  from d show "wf_allocator (drop_attachment x a)"
    unfolding b
  proof (cases rule: DeallocateAttachment_cases)
    case absent
    then show "wf_allocator b" using wf by simp
  next
    case (freed r att m na')
    show "wf_allocator b"
      unfolding freed(6) by (rule wf_set_net [OF wf_set_ipam [OF wf]]) (use freed(1) wf_allocatorD(2) [OF wf] in auto)
  qed
next
  fix a ok a' and x :: "string \<times> api_attachment \<times> time"
  assume wf: "wf_allocator a" and acq: "acquire_attachment x a = (ok, a')"
  obtain node na now where x: "x = (node, na, now)" by (cases x)
  from acq obtain res where "AllocateAttachment (Some node) (Some na) now a = (res, a')"
    unfolding x by (auto simp: acquire_attachment_def split: prod.splits)
  then show "wf_allocator a'"
  proof (cases rule: AllocateAttachment_cases)
    case (refused e m)
    then show ?thesis using wf wf_set_ipam [OF wf] by auto
  next
    case (granted r ip m att na')
    show ?thesis
      unfolding granted(4) by (rule wf_set_net [OF wf_set_ipam [OF wf]]) (use granted(1) wf_allocatorD(2) [OF wf] in auto)
  qed
qed

text \<open>
  Claim C22. Through every sequence of \<open>AllocateAttachment\<close> and \<open>DeallocateAttachment\<close> calls,
  \<open>IsAttachmentAllocated\<close> answers as the abstract machine on pairs of network and node does.
\<close>

theorem allocator_attachments_refine:
  assumes "wf_allocator a" and "resource_run acquire_attachment drop_attachment xs a = (oks, a')"
  shows "IsAttachmentAllocated (Some node) (Some na) a' \<longleftrightarrow>
    (na_NetworkID na, node) \<in> held_run attach_key xs oks
       {(k, v). IsAttachmentAllocated (Some v) (Some (na\<lparr>na_NetworkID := k\<rparr>)) a}"
proof -
  have "IsAttachmentAllocated (Some v) (Some (na\<lparr>na_NetworkID := k\<rparr>)) b \<longleftrightarrow> (k, v) \<in> attached b" for k v b
    by (auto simp: IsAttachmentAllocated_def attached_def split: option.splits)
  moreover have "IsAttachmentAllocated (Some node) (Some na) a' \<longleftrightarrow> (na_NetworkID na, node) \<in> attached a'"
    by (auto simp: IsAttachmentAllocated_def attached_def split: option.splits)
  ultimately show ?thesis using attachments.run_refines [OF assms] by simp
qed

text \<open>An allocator with one network, for the witnesses.\<close>

definition example_allocator1 :: cni_allocator where
  "example_allocator1 = \<lparr>al_provider = example_provider\<lparr>prov_ipamMgr := ipam_example,
       prov_heap := [(new_network ''n1'' ''bridge'' 1 (v4_net [10, 1, 0, 0] 24) [10, 1, 0, 1])\<lparr>an_ID := ''n1'', an_Ingress := True\<rparr>]\<rparr>,
     al_config = None, al_allocatedNets = [''n1'' \<mapsto> 0]\<rparr>"

lemma wf_example1: "wf_allocator example_allocator1"
  by (auto simp: wf_allocator_def example_allocator1_def net_at_def)

definition example_attachment :: "string \<Rightarrow> api_attachment" where
  "example_attachment k = \<lparr>na_NetworkID = k, na_Addresses = [], na_DriverAttachmentOpts = Map.empty\<rparr>"

theorem allocator_attachments_refine_witness:
  "\<exists>a'. resource_run acquire_attachment drop_attachment
       [Acquire (''node1'', example_attachment ''n1'', 0), Acquire (''node1'', example_attachment ''n2'', 0)]
       example_allocator1 = ([True, False], a') \<and>
     IsAttachmentAllocated (Some ''node1'') (Some (example_attachment ''n1'')) a'"
proof -
  let ?a = "example_allocator1"
  let ?xs = "[Acquire (''node1'', example_attachment ''n1'', 0), Acquire (''node1'', example_attachment ''n2'', 0)]"
  let ?r = "resource_run acquire_attachment drop_attachment ?xs ?a"
  have "fst ?r = [True, False]" by code_simp
  then have r: "?r = ([True, False], snd ?r)" by (metis prod.collapse)
  from allocator_attachments_refine [OF wf_example1 r, of "''node1''" "example_attachment ''n1''"] r show ?thesis
    by (auto simp: attach_key_def example_attachment_def)
qed


subsection \<open>Addresses of attachments and tasks\<close>

lemma AllocateIP_used:
  assumes "AllocateIP c w m = (Inr a, m')"
  shows "used_by c m (ip_String a) = None"
    and "used_by d m' k = (if d = c \<and> k = ip_String a then Some w else used_by d m k)"
proof -
  from assms obtain pool where p: "pools m c = Some pool"
    and f: "find_ip pool maxAttempts (pool_NextIP pool) = Some a"
    and m': "m' = m\<lparr>pools := (pools m)(c \<mapsto> take_ip w a pool)\<rparr>"
    by (auto simp: AllocateIP_def split: option.splits)
  show "used_by c m (ip_String a) = None"
    using find_ip_available [OF f] p by (simp add: used_by_def ip_available_def)
  show "used_by d m' k = (if d = c \<and> k = ip_String a then Some w else used_by d m k)"
    using p m' by (simp add: used_by_def take_ip_def)
qed

lemma ReleaseIP_used:
  "used_by d (snd (ReleaseIP a c m)) k = (if d = c \<and> k = ip_String a then None else used_by d m k)"
  by (auto simp: used_by_def ReleaseIP_def split: option.splits)

text \<open>
  A node attachment that was granted names the address that the IPAM manager keeps for the
  node, and deallocating the attachment gives the address back: every pool is used exactly as
  before, and the attachment has no address.
\<close>

theorem attachment_roundtrip:
  assumes "wf_allocator a" and "AllocateAttachment (Some node) (Some na) now a = (Inr na', a')"
    and "DeallocateAttachment (Some node) (Some na) a' = (Inr na'', a'')"
  shows "(\<exists>r ip. al_allocatedNets a (na_NetworkID na) = Some r \<and> na_Addresses na' = [ip_String ip] \<and>
      used_by (net_String (an_Subnet (net_at a r))) (al_ipam a') (ip_String ip) = Some node) \<and>
    na_Addresses na'' = [] \<and> used_by c (al_ipam a'') = used_by c (al_ipam a)"
  using assms(2)
proof (cases rule: AllocateAttachment_cases)
  case (granted r ip m att na2)
  let ?s = "net_String (an_Subnet (net_at a r))"
  note used = AllocateIP_used [OF granted(3)]
  have r: "r < length (prov_heap (al_provider (set_ipam m a)))" using wf_allocatorD(1) [OF assms(1) granted(1)] by simp
  have net: "net_at a' r = (net_at a r)\<lparr>an_Attachments := (an_Attachments (net_at a r))(node \<mapsto> att)\<rparr>"
    using net_at_set_net [OF r] granted(4) by simp
  have a': "al_allocatedNets a' (na_NetworkID na) = Some r" "al_ipam a' = m" using granted(1,4) by simp_all
  have "na_Addresses na'' = [] \<and> al_ipam a'' = snd (ReleaseIP ip ?s m)"
    using assms(3) a' net granted(5) by (auto simp: DeallocateAttachment_def Let_def)
  then have "na_Addresses na'' = []" and "used_by c (al_ipam a'') k = used_by c (al_ipam a) k" for k
    using used by (auto simp: ReleaseIP_used)
  then show ?thesis using granted used(2) a'(2) by auto
qed simp

theorem attachment_roundtrip_witness:
  "\<exists>na' a' na'' a''.
     AllocateAttachment (Some ''node1'') (Some (example_attachment ''n1'')) 0
       example_allocator1 = (Inr na', a') \<and>
     DeallocateAttachment (Some ''node1'') (Some (example_attachment ''n1'')) a' = (Inr na'', a'') \<and>
     na_Addresses na'' = []"
proof -
  let ?a = "example_allocator1"
  let ?x = "example_attachment ''n1''"
  let ?r = "AllocateAttachment (Some ''node1'') (Some ?x) 0 ?a"
  let ?q = "DeallocateAttachment (Some ''node1'') (Some ?x) (snd ?r)"
  have "\<not> isl (fst ?r)" "\<not> isl (fst ?q)" by code_simp+
  then have r: "?r = (Inr (projr (fst ?r)), snd ?r)" and q: "?q = (Inr (projr (fst ?q)), snd ?q)"
    by (simp_all add: prod_eq_iff)
  from attachment_roundtrip [OF wf_example1 r q] r q show ?thesis by blast
qed

text \<open>The pool of an attachment's network.\<close>

definition pool_of :: "cni_allocator \<Rightarrow> api_attachment \<Rightarrow> string option" where
  "pool_of a x = map_option (\<lambda>r. net_String (an_Subnet (net_at a r))) (al_allocatedNets a (na_NetworkID x))"

lemma pool_of_simps [simp]:
  "pool_of (set_ipam m a) x = pool_of a x"
  "pool_of a (x\<lparr>na_Addresses := ys\<rparr>) = pool_of a x"
  by (simp_all add: pool_of_def)

text \<open>The addresses of a list of attachments, with their pools.\<close>

definition address_keys :: "cni_allocator \<Rightarrow> api_attachment list \<Rightarrow> (string \<times> string) set" where
  "address_keys a xs = {(c, k). \<exists>x \<in> set xs. pool_of a x = Some c \<and> na_Addresses x = [k]}"

lemma address_keys_Cons:
  "address_keys a (x # xs) = {(c, k). pool_of a x = Some c \<and> na_Addresses x = [k]} \<union> address_keys a xs"
  by (auto simp: address_keys_def)

lemma allocate_addresses_used:
  assumes "allocate_addresses tid xs a = (Inr (), xs', a')"
  shows "(\<forall>y. pool_of a' y = pool_of a y) \<and> (\<forall>x \<in> set xs'. pool_of a x \<noteq> None \<and> (\<exists>k. na_Addresses x = [k])) \<and>
    (\<forall>c k. (c, k) \<in> address_keys a xs' \<longrightarrow> used_by c (al_ipam a) k = None) \<and>
    (\<forall>c k. used_by c (al_ipam a') k = (if (c, k) \<in> address_keys a xs' then Some tid else used_by c (al_ipam a) k))"
  using assms
proof (induction tid xs a arbitrary: xs' a' rule: allocate_addresses.induct)
  case (1 tid a)
  then show ?case by (simp add: address_keys_def)
next
  case (2 tid x xs a)
  from "2.prems" obtain r where r: "al_allocatedNets a (na_NetworkID x) = Some r"
    by (cases "al_allocatedNets a (na_NetworkID x)") simp_all
  let ?c = "net_String (an_Subnet (net_at a r))"
  from "2.prems" r obtain ip m where ip: "AllocateIP ?c tid (al_ipam a) = (Inr ip, m)"
    by (auto split: prod.splits sum.splits)
  from "2.prems" r ip obtain ys where ys: "allocate_addresses tid xs (set_ipam m a) = (Inr (), ys, a')"
    and xs': "xs' = x\<lparr>na_Addresses := [ip_String ip]\<rparr> # ys"
    by (auto split: prod.splits)
  note used = AllocateIP_used [OF ip]
  have pool: "pool_of a x = Some ?c" using r by (simp add: pool_of_def)
  have keys: "address_keys a xs' = insert (?c, ip_String ip) (address_keys a ys)"
    using pool by (auto simp: xs' address_keys_Cons)
  have same: "address_keys (set_ipam m a) ys = address_keys a ys" by (simp add: address_keys_def)
  note IH = "2.IH" [OF r ip [symmetric] refl ys]
  have IH': "(\<forall>y. pool_of a' y = pool_of a y) \<and> (\<forall>x \<in> set ys. pool_of a x \<noteq> None \<and> (\<exists>k. na_Addresses x = [k])) \<and>
    (\<forall>c k. (c, k) \<in> address_keys a ys \<longrightarrow> used_by c m k = None) \<and>
    (\<forall>c k. used_by c (al_ipam a') k = (if (c, k) \<in> address_keys a ys then Some tid else used_by c m k))"
    using IH same by simp
  have free: "used_by c (al_ipam a) k = None" if "(c, k) \<in> address_keys a ys" for c k
    using IH' that used(2) [of c k] by (auto split: if_splits)
  show ?case
    unfolding keys using IH' free used pool by (auto simp: xs')
qed

lemma release_addresses_used:
  assumes "release_addresses xs a = (xs', a')"
    and "\<forall>x \<in> set xs. pool_of a x \<noteq> None \<and> (\<exists>v. length v = 4 \<and> na_Addresses x = [dotted v])"
  shows "(\<forall>x \<in> set xs'. na_Addresses x = []) \<and>
    (\<forall>c k. used_by c (al_ipam a') k = (if (c, k) \<in> address_keys a xs then None else used_by c (al_ipam a) k))"
  using assms
proof (induction xs arbitrary: a xs')
  case Nil
  then show ?case by (simp add: address_keys_def)
next
  case (Cons x xs)
  from Cons.prems(2) obtain r v where r: "al_allocatedNets a (na_NetworkID x) = Some r"
    and v: "length v = 4" "na_Addresses x = [dotted v]" by (auto simp: pool_of_def)
  let ?c = "net_String (an_Subnet (net_at a r))"
  let ?a = "set_ipam (snd (ReleaseIP (v4_mapped v) ?c (al_ipam a))) a"
  have ip: "ParseIP (dotted v) = Some (v4_mapped v)" "ip_String (v4_mapped v) = dotted v"
    using ParseIP_String_v4 [of v v] ip_String_v4 [of v v] ip_String_v4 [of "v4_mapped v" v] v(1) by simp_all
  from Cons.prems(1) r v ip obtain ys where ys: "release_addresses xs ?a = (ys, a')"
    and xs': "xs' = x\<lparr>na_Addresses := []\<rparr> # ys" by (auto split: prod.splits)
  have pool: "pool_of a x = Some ?c" using r by (simp add: pool_of_def)
  have keys: "address_keys a (x # xs) = insert (?c, dotted v) (address_keys a xs)"
    using pool v by (auto simp: address_keys_Cons)
  have same: "address_keys ?a xs = address_keys a xs" by (simp add: address_keys_def)
  have "(\<forall>x \<in> set ys. na_Addresses x = []) \<and>
    (\<forall>c k. used_by c (al_ipam a') k = (if (c, k) \<in> address_keys ?a xs then None else used_by c (al_ipam ?a) k))"
    by (rule Cons.IH [OF ys]) (use Cons.prems(2) in simp)
  then show ?case unfolding keys same using ip(2) by (auto simp: xs' ReleaseIP_used)
qed

text \<open>
  Claim C4. After \<open>AllocateTask\<close> succeeds every attachment of the task has one address, which the
  IPAM manager keeps for the task; \<open>DeallocateTask\<close> then gives all of them back, so that every pool
  is used exactly as before the task was allocated.
\<close>

theorem task_roundtrip:
  assumes "AllocateTask (Some t) a = (Inr (), Some t', a')"
    and "\<forall>x \<in> set (t_Networks t'). \<exists>v. length v = 4 \<and> na_Addresses x = [dotted v]"
    and "DeallocateTask (Some t') a' = (res, Some t'', a'')"
  shows "IsTaskAllocated (Some t') \<and>
    (\<forall>x \<in> set (t_Networks t'). \<exists>c k. pool_of a x = Some c \<and> na_Addresses x = [k] \<and> used_by c (al_ipam a') k = Some (t_ID t)) \<and>
    (\<forall>x \<in> set (t_Networks t''). na_Addresses x = []) \<and>
    used_by c (al_ipam a'') = used_by c (al_ipam a)"
proof -
  from assms(1) obtain xs where al: "allocate_addresses (t_ID t) (t_Networks t) a = (Inr (), xs, a')"
    and t': "t' = t\<lparr>t_Networks := xs\<rparr>" by (auto simp: AllocateTask_def split: prod.splits)
  from assms(3) t' obtain ys where rel: "release_addresses xs a' = (ys, a'')"
    and t'': "t_Networks t'' = ys" by (auto simp: DeallocateTask_def split: prod.splits)
  note A = allocate_addresses_used [OF al]
  have keys: "address_keys a' xs = address_keys a xs" using A by (simp add: address_keys_def)
  have "\<forall>x \<in> set xs. pool_of a' x \<noteq> None \<and> (\<exists>v. length v = 4 \<and> na_Addresses x = [dotted v])"
    using A assms(2) t' by simp
  note R = release_addresses_used [OF rel this]
  have "used_by c (al_ipam a'') k = used_by c (al_ipam a) k" for k
    using A R keys by auto
  moreover have "\<forall>x \<in> set xs. \<exists>c k. pool_of a x = Some c \<and> na_Addresses x = [k] \<and> used_by c (al_ipam a') k = Some (t_ID t)"
  proof
    fix x assume x: "x \<in> set xs"
    then obtain c k where ck: "pool_of a x = Some c" "na_Addresses x = [k]" using A by blast
    with x have "(c, k) \<in> address_keys a xs" by (auto simp: address_keys_def)
    with A ck show "\<exists>c k. pool_of a x = Some c \<and> na_Addresses x = [k] \<and> used_by c (al_ipam a') k = Some (t_ID t)"
      by auto
  qed
  moreover have "IsTaskAllocated (Some t')" using A t' by (auto simp: IsTaskAllocated_def list_all_iff)
  ultimately show ?thesis using R t' t'' by auto
qed

definition example_task :: api_task where
  "example_task = \<lparr>t_ID = ''t1'', t_Networks = [example_attachment ''n1'']\<rparr>"

theorem task_roundtrip_witness:
  "\<exists>t' a' t'' a''. AllocateTask (Some example_task)
       example_allocator1 = (Inr (), Some t', a') \<and>
     DeallocateTask (Some t') a' = (Inr (), Some t'', a'') \<and> IsTaskAllocated (Some t') \<and>
     (\<forall>x \<in> set (t_Networks t''). na_Addresses x = [])"
proof -
  let ?a = "example_allocator1"
  let ?r = "AllocateTask (Some example_task) ?a"
  have "case ?r of (Inr u, Some t', a') \<Rightarrow> map na_Addresses (t_Networks t') = [[dotted [10, 1, 0, 2]]] | _ \<Rightarrow> False"
    by code_simp
  then obtain t' a' where r: "?r = (Inr (), Some t', a')"
    and v: "map na_Addresses (t_Networks t') = [[dotted [10, 1, 0, 2]]]"
    by (cases ?r) (auto split: sum.splits option.splits)
  obtain t'' a'' where q: "DeallocateTask (Some t') a' = (Inr (), Some t'', a'')"
    by (cases "release_addresses (t_Networks t') a'") (simp add: DeallocateTask_def)
  have "length u = 4 \<Longrightarrow> \<exists>v. length v = 4 \<and> dotted u = dotted v" for u by blast
  then have "\<forall>x \<in> set (t_Networks t'). \<exists>v. length v = 4 \<and> na_Addresses x = [dotted v]"
    using v by (auto simp: map_eq_Cons_conv)
  from task_roundtrip [OF r this q] r q show ?thesis by blast
qed

subsection \<open>Services on the ingress network\<close>

lemma find_ingress_set_ipam [simp]: "find_ingress ks (set_ipam m a) = find_ingress ks a"
  by (simp add: find_ingress_def cong: option.case_cong)

lemma find_ingress_set_net:
  assumes "r < length (prov_heap (al_provider a))" and "an_Ingress n = an_Ingress (net_at a r)"
  shows "find_ingress ks (set_net r n a) = find_ingress ks a"
proof -
  have "an_Ingress (net_at (set_net r n a) q) = an_Ingress (net_at a q)" for q
    using assms by (simp add: net_at_set_net)
  then show ?thesis by (simp add: find_ingress_def cong: option.case_cong)
qed

lemma find_ingress_SomeD: "find_ingress ks a = Some (k, r) \<Longrightarrow> al_allocatedNets a k = Some r \<and> an_Ingress (net_at a r)"
  by (auto simp: find_ingress_def dest!: find_SomeD split: option.splits)

text \<open>
  The VIP of a service that is attached to the ingress network and publishes ports is
  lost: the entry for the published ports overwrites the one with the VIP, so \<open>DeallocateService\<close>
  releases the nil address and the VIP stays in use in its pool.
\<close>

theorem ingress_vip_leaks:
  assumes "wf_allocator a" and "s_Networks s = [tgt]" and "s_Endpoint s = Some (p # ps)"
    and "find_ingress ks a = Some (tgt, r)"
    and "AllocateVIP (net_String (an_Subnet (net_at a r))) (s_ID s) (al_ipam a) = (Inr vip, m)" and "To4 vip = Some v"
    and "AllocateService (Some s) now ks a = (Inr (), a')" and "DeallocateService (Some s) ks a' = (res, a'')"
  shows "GetAllocationOwner vip (net_String (an_Subnet (net_at a r))) (al_ipam a'') = Inr (''vip:'' @ s_ID s)"
proof -
  let ?c = "net_String (an_Subnet (net_at a r))" and ?sid = "s_ID s"
  note ing = find_ingress_SomeD [OF assms(4)]
  have len: "r < length (prov_heap (al_provider a))" using wf_allocatorD(1) [OF assms(1)] ing by blast
  have used: "used_by ?c m (ip_String vip) = Some (''vip:'' @ ?sid)"
    using assms(5) by (auto simp: AllocateVIP_def used_by_def split: option.splits)
  have str: "ip_String vip \<noteq> ip_String []"
    using ip_String_v4 [OF assms(6)] dotted_chars [of "CHR ''<''" v] by (auto simp: ip_String_def is_digit_def)
  obtain e1 e2 where a': "a' = set_net r ((net_at a r)\<lparr>an_Services := (an_Services (net_at a r))(?sid \<mapsto> e2)\<rparr>)
      (set_net r ((net_at a r)\<lparr>an_Services := (an_Services (net_at a r))(?sid \<mapsto> e1)\<rparr>) (set_ipam m a))"
    and e2: "vip_VIP e2 = []"
    using assms(7) len
    by (auto simp: AllocateService_def assms(2,3,4) ing assms(5) Let_def net_at_set_net find_ingress_set_net)
  have net: "net_at a' r = (net_at a r)\<lparr>an_Services := (an_Services (net_at a r))(?sid \<mapsto> e2)\<rparr>"
    using len by (simp add: a' net_at_set_net)
  have al: "al_allocatedNets a' tgt = Some r" "al_ipam a' = m" using ing by (simp_all add: a')
  have rel: "al_ipam (release_vips ?sid [tgt] a') = snd (ReleaseIP [] ?c m)"
    by (simp add: al net e2 Let_def ReleaseVIP_def)
  have "al_ipam a'' = al_ipam (release_vips ?sid [tgt] a')"
    using assms(8) by (auto simp: DeallocateService_def assms(2) Let_def simp del: release_vips.simps split: option.splits)
  then have "used_by ?c (al_ipam a'') (ip_String vip) = Some (''vip:'' @ ?sid)"
    using rel used str by (simp add: ReleaseIP_used)
  then show ?thesis by (auto simp: used_by_def GetAllocationOwner_def split: option.splits)
qed

definition ingress_service :: api_service where
  "ingress_service = \<lparr>s_ID = ''web'', s_Networks = [''n1''],
     s_Endpoint = Some [\<lparr>port_TargetPort = 80, port_PublishedPort = 8080, port_Protocol = ''TCP'', port_PublishMode = ''INGRESS''\<rparr>]\<rparr>"

theorem ingress_vip_leaks_witness:
  "\<exists>a r vip. GetAllocationOwner vip (net_String (an_Subnet (net_at a r)))
     (al_ipam (snd (DeallocateService (Some ingress_service) [''n1'']
        (snd (AllocateService (Some ingress_service) 0 [''n1''] a))))) = Inr ''vip:web''"
proof -
  let ?a = example_allocator1
  let ?v = "AllocateVIP (net_String (an_Subnet (net_at ?a 0))) (s_ID ingress_service) (al_ipam ?a)"
  let ?r = "AllocateService (Some ingress_service) 0 [''n1''] ?a"
  let ?q = "DeallocateService (Some ingress_service) [''n1''] (snd ?r)"
  have s: "s_Networks ingress_service = [''n1'']" "s_Endpoint ingress_service = Some (the (s_Endpoint ingress_service) ! 0 # [])"
    by (simp_all add: ingress_service_def)
  have i: "find_ingress [''n1''] ?a = Some (''n1'', 0)" by code_simp
  have "fst ?v = Inr [10, 1, 0, 239]" by code_simp
  then have v: "?v = (Inr [10, 1, 0, 239], snd ?v)" by (simp add: prod_eq_iff)
  have "fst ?r = Inr ()" by code_simp
  then have r: "?r = (Inr (), snd ?r)" by (simp add: prod_eq_iff)
  have q: "?q = (fst ?q, snd ?q)" by simp
  have "GetAllocationOwner [10, 1, 0, 239] (net_String (an_Subnet (net_at ?a 0))) (al_ipam (snd ?q)) =
      Inr (''vip:'' @ s_ID ingress_service)"
    by (rule ingress_vip_leaks [OF wf_example1 s i v _ r q]) simp
  then show ?thesis by (auto simp: ingress_service_def)
qed

end
