(* ===== verification/Task_Types.thy ===== *)
theory Task_Types
  imports Go_Os
begin

text \<open>
  The data model of \<open>pkg/types/task.go\<close>: tasks, their specification, status, networks, secrets and
  configs, as the executor, the translators and the VMM manager share them. Quantities of type
  \<open>int64\<close> are integers; error values are their texts.
\<close>

record secret_ref =
  sec_ID :: string
  sec_Name :: string
  sec_Target :: string
  sec_Data :: bytes

record config_ref =
  cref_ID :: string
  cref_Name :: string
  cref_Target :: string
  cref_Data :: bytes

record mount =
  mnt_Target :: string
  mnt_Source :: string
  mnt_ReadOnly :: bool

record container =
  ctr_Image :: string
  ctr_Command :: "string list"
  ctr_Args :: "string list"
  ctr_Env :: "string list"
  ctr_Mounts :: "mount list"

text \<open>The untyped \<open>Runtime\<close> field: nil, a container, or a value of another type.\<close>

datatype task_runtime = NoRuntime | ContainerRuntime container | OtherRuntime string

datatype runtime_type = RuntimeUnset | RuntimeContainer | RuntimeWASM

record resources =
  res_NanoCPUs :: int
  res_MemoryBytes :: int

record resource_requirements =
  rr_Limits :: "resources option"
  rr_Reservations :: "resources option"

datatype restart_condition = RestartPolicyAny | RestartPolicyNone | RestartPolicyOnFailure

record restart_policy =
  rp_Condition :: restart_condition
  rp_MaxAttempts :: nat

record task_spec =
  spec_Runtime :: task_runtime
  spec_RuntimeType :: runtime_type
  spec_Resources :: resource_requirements
  spec_Restart :: restart_policy
  spec_Constraints :: "string list"

datatype task_state =
    TaskStateNew | TaskStatePending | TaskStateAssigned | TaskStateAccepted | TaskStatePreparing
  | TaskStateStarting | TaskStateRunning | TaskStateComplete | TaskStateFailed | TaskStateRejected
  | TaskStateRemove | TaskStateOrphaned

record task_status =
  st_State :: task_state
  st_Timestamp :: int
  st_Message :: string
  st_Err :: "string option"

text \<open>A driver configuration is the name of its bridge, if it has one.\<close>

record network_spec =
  ns_Name :: string
  ns_Driver :: string
  ns_DriverConfig :: "string option option"

record net_attachment =
  nat_NetworkID :: string
  nat_Spec :: network_spec
  nat_Addresses :: "string list"

record task =
  task_ID :: string
  task_ServiceID :: string
  task_NodeID :: string
  task_Spec :: task_spec
  task_Status :: task_status
  task_Networks :: "net_attachment list"
  task_Secrets :: "secret_ref list"
  task_Configs :: "config_ref list"
  task_Annotations :: "string \<rightharpoonup> string"

datatype runtime_error = RuntimeNil | RuntimeNotContainer string

definition GetContainer :: "task_spec \<Rightarrow> (runtime_error, container) res" where
  "GetContainer s =
     (case spec_Runtime s of
        NoRuntime \<Rightarrow> Inl RuntimeNil
      | ContainerRuntime c \<Rightarrow> Inr c
      | OtherRuntime ty \<Rightarrow> Inl (RuntimeNotContainer ty))"

definition SetContainer :: "container \<Rightarrow> task_spec \<Rightarrow> task_spec" where
  "SetContainer c s = s\<lparr>spec_Runtime := ContainerRuntime c, spec_RuntimeType := RuntimeContainer\<rparr>"

text \<open>The zero values of the structures.\<close>

definition zero_spec :: task_spec where
  "zero_spec = \<lparr>spec_Runtime = NoRuntime, spec_RuntimeType = RuntimeUnset,
     spec_Resources = \<lparr>rr_Limits = None, rr_Reservations = None\<rparr>,
     spec_Restart = \<lparr>rp_Condition = RestartPolicyAny, rp_MaxAttempts = 0\<rparr>, spec_Constraints = []\<rparr>"

definition zero_status :: task_status where
  "zero_status = \<lparr>st_State = TaskStateNew, st_Timestamp = 0, st_Message = [], st_Err = None\<rparr>"

definition zero_container :: container where
  "zero_container = \<lparr>ctr_Image = [], ctr_Command = [], ctr_Args = [], ctr_Env = [], ctr_Mounts = []\<rparr>"

lemma GetContainer_SetContainer [simp]: "GetContainer (SetContainer c s) = Inr c"
  by (simp add: GetContainer_def SetContainer_def)

end
