(* ===== verification/Go_Sha256.thy ===== *)
theory Go_Sha256
  imports Prelude
begin

text \<open>
  The hash function of Go's package \<open>crypto/sha256\<close> (FIPS 180-4), from which the sources derive
  device names and addresses: the constants, the padding of the message, the schedule and the
  compression of one block, and the fold over the blocks.
\<close>

text \<open>
  The constants: the first 32 bits of the fractional parts of the cube roots of the first 64 primes
  (for the rounds) and of the square roots of the first eight (for the initial state). The integer
  root is found bit by bit from the top.
\<close>

definition sha_primes :: "nat list" where
  "sha_primes = filter (\<lambda>p. list_all (\<lambda>d. p mod d \<noteq> 0) [2..<p]) [2..<312]"

fun int_root :: "nat \<Rightarrow> nat \<Rightarrow> nat \<Rightarrow> nat \<Rightarrow> nat" where
  "int_root k n 0 r = r"
| "int_root k n (Suc b) r = int_root k n b (if (r + 2 ^ b) ^ k \<le> n then r + 2 ^ b else r)"

definition frac_root :: "nat \<Rightarrow> nat \<Rightarrow> uint32" where
  "frac_root k p = of_nat (int_root k (p * 2 ^ (32 * k)) 40 0)"

definition sha_K :: "uint32 list" where
  "sha_K = map (frac_root 3) sha_primes"

definition sha_H0 :: "uint32 list" where
  "sha_H0 = map (frac_root 2) (take 8 sha_primes)"

text \<open>The root is exact: the largest number whose power does not exceed the argument.\<close>

lemma int_root_le: "r ^ k \<le> n \<Longrightarrow> int_root k n b r ^ k \<le> n"
  by (induction b arbitrary: r) auto

lemma int_root_greatest: "n < (r + 2 ^ b) ^ k \<Longrightarrow> n < Suc (int_root k n b r) ^ k"
proof (induction b arbitrary: r)
  case (Suc b)
  then show ?case by (simp add: mult_2 add.assoc [symmetric])
qed simp

lemma length_sha_H0: "length sha_H0 = 8"
proof -
  have "[2..<312] = [2..<20] @ [20..<312 :: nat]" using upt_add_eq_append [of 2 20 292] by simp
  then have "length sha_primes = length (filter (\<lambda>p. list_all (\<lambda>d. p mod d \<noteq> 0) [2..<p]) [2..<20 :: nat]) +
      length (filter (\<lambda>p. list_all (\<lambda>d. p mod d \<noteq> 0) [2..<p]) [20..<312])"
    unfolding sha_primes_def by (metis filter_append length_append)
  moreover have "length (filter (\<lambda>p. list_all (\<lambda>d. p mod d \<noteq> 0) [2..<p]) [2..<20 :: nat]) = 8" by code_simp
  ultimately have "8 \<le> length sha_primes" by linarith
  then show ?thesis by (simp add: sha_H0_def)
qed

definition rotr :: "nat \<Rightarrow> uint32 \<Rightarrow> uint32" where
  "rotr k x = drop_bit k x OR push_bit (32 - k) x"

text \<open>The message, a one bit, zeros, and the length in bits as eight bytes.\<close>

definition sha_pad :: "bytes \<Rightarrow> bytes" where
  "sha_pad m =
     (let l = length m; z = (119 - l mod 64) mod 64
      in m @ [0x80] @ replicate z 0 @ be_bytes 8 (8 * l))"

fun be_words :: "bytes \<Rightarrow> uint32 list" where
  "be_words (a # b # c # d # bs) = of_nat (be_val [a, b, c, d]) # be_words bs"
| "be_words _ = []"

text \<open>One more word of the schedule; the list holds the last sixteen words, the newest last.\<close>

definition sha_next :: "uint32 list \<Rightarrow> uint32" where
  "sha_next w =
     (let a = w ! 1; b = w ! 14;
          s0 = rotr 7 a XOR rotr 18 a XOR drop_bit 3 a;
          s1 = rotr 17 b XOR rotr 19 b XOR drop_bit 10 b
      in w ! 0 + s0 + w ! 9 + s1)"

fun sha_schedule :: "nat \<Rightarrow> uint32 list \<Rightarrow> uint32 list" where
  "sha_schedule 0 w = w"
| "sha_schedule (Suc n) w = hd w # sha_schedule n (tl w @ [sha_next w])"

text \<open>One round of the compression on the eight working variables.\<close>

definition sha_round :: "uint32 list \<Rightarrow> uint32 \<times> uint32 \<Rightarrow> uint32 list" where
  "sha_round v kw =
     (case v of [a, b, c, d, e, f, g, h] \<Rightarrow>
        let s1 = rotr 6 e XOR rotr 11 e XOR rotr 25 e;
            ch = (e AND f) XOR (NOT e AND g);
            t1 = h + s1 + ch + fst kw + snd kw;
            s0 = rotr 2 a XOR rotr 13 a XOR rotr 22 a;
            maj = (a AND b) XOR (a AND c) XOR (b AND c);
            t2 = s0 + maj
        in [t1 + t2, a, b, c, d + t1, e, f, g]
      | _ \<Rightarrow> v)"

definition sha_block :: "uint32 list \<Rightarrow> bytes \<Rightarrow> uint32 list" where
  "sha_block h blk = map2 (+) h (foldl sha_round h (zip sha_K (sha_schedule 48 (be_words blk))))"

function sha_blocks :: "bytes \<Rightarrow> bytes list" where
  "sha_blocks m = (if m = [] then [] else take 64 m # sha_blocks (drop 64 m))"
  by pat_completeness auto
termination
  by (relation "measure length") auto

declare sha_blocks.simps [simp del]

definition Sum256 :: "bytes \<Rightarrow> bytes" where
  "Sum256 m = concat (map (\<lambda>w. be_bytes 4 (unat w)) (foldl sha_block sha_H0 (sha_blocks (sha_pad m))))"

lemma length_sha_round: "length (sha_round v kw) = length v"
proof (cases "length v = 8")
  case True
  then obtain a b c d e f g h where "v = [a, b, c, d, e, f, g, h]"
    by (auto simp: length_Suc_conv numeral_eq_Suc)
  then show ?thesis by (simp add: sha_round_def Let_def)
next
  case False
  then show ?thesis by (auto simp: sha_round_def split: list.splits)
qed

lemma length_sha_rounds: "length (foldl sha_round v kws) = length v"
  by (induction kws arbitrary: v) (simp_all add: length_sha_round)

lemma length_sha_blocks: "length h = 8 \<Longrightarrow> length (foldl sha_block h bs) = 8"
  by (induction bs arbitrary: h) (simp_all add: sha_block_def length_sha_rounds)

text \<open>A digest has 32 bytes.\<close>

lemma length_Sum256: "length (Sum256 m) = 32"
proof -
  let ?h = "foldl sha_block sha_H0 (sha_blocks (sha_pad m))"
  have "length ?h = 8" by (rule length_sha_blocks) (simp add: length_sha_H0)
  then show ?thesis by (simp add: Sum256_def length_concat comp_def sum_list_triv)
qed

end
