(* ===== verification/Swarm_Translator.thy ===== *)
theory Swarm_Translator
  imports Task_Types Go_Sha256
begin

text \<open>
  The task translator of \<open>pkg/swarmkit/translator.go\<close>, which turns a prepared task into the
  configuration of a Firecracker VM: a JSON document.
\<close>

record task_translator =
  tt_kernelPath :: string
  tt_bridgeIP :: string

datatype translate_error =
    KernelPathEmpty
  | TaskIDEmpty
  | TaskIDTooLong
  | TaskIDSeparator
  | TaskIDParent
  | TaskIDNull
  | TaskIDBackslash

definition NewTaskTranslator :: "string \<Rightarrow> string \<Rightarrow> (translate_error, task_translator) res" where
  "NewTaskTranslator kernelPath bridgeIP =
     (if kernelPath = [] then Inl KernelPathEmpty
      else Inr \<lparr>tt_kernelPath = kernelPath, tt_bridgeIP = bridgeIP\<rparr>)"

definition validateTaskID :: "string \<Rightarrow> (translate_error, unit) res" where
  "validateTaskID i =
     (if i = [] then Inl TaskIDEmpty
      else if 255 < length i then Inl TaskIDTooLong
      else if sublist ''/'' i then Inl TaskIDSeparator
      else if sublist ''..'' i then Inl TaskIDParent
      else if CHR 0x00 \<in> set i then Inl TaskIDNull
      else if sublist [CHR 0x5C] i then Inl TaskIDBackslash
      else Inr ())"

definition getRootfsPath :: "task \<Rightarrow> string" where
  "getRootfsPath t =
     (case task_Annotations t ''rootfs'' of
        Some p \<Rightarrow> p
      | None \<Rightarrow> ''/var/lib/firecracker/rootfs/'' @ task_ID t @ ''.ext4'')"

text \<open>The text before the first slash, when there is one that is not the first character.\<close>

definition before_slash :: "string \<Rightarrow> string" where
  "before_slash s = (case cut (CHR ''/'') s of Some (p, r) \<Rightarrow> if 0 < length p then p else s | None \<Rightarrow> s)"

definition buildBootArgs :: "task_translator \<Rightarrow> task \<Rightarrow> string" where
  "buildBootArgs t task' =
     (let baseArgs = ''console=ttyS0 reboot=k panic=1 pci=off nomodules init='' @ ''/sbin/init''
      in case task_Networks task' of
           [] \<Rightarrow> baseArgs
         | n # _ \<Rightarrow>
             (case nat_Addresses n of
                [] \<Rightarrow> baseArgs
              | addr # _ \<Rightarrow>
                  baseArgs @ '' '' @ ''ip='' @ before_slash addr @ ''::'' @ before_slash (tt_bridgeIP t)
                    @ '':'' @ ''255.255.255.0'' @ ''::eth0:off''))"

text \<open>Two upper-case hexadecimal digits: the verb \<open>%02X\<close> on a byte.\<close>

definition upper_hex :: "nat \<Rightarrow> char" where
  "upper_hex d = (if d < 10 then char_of (48 + d) else char_of (55 + d))"

definition hex02 :: "byte \<Rightarrow> string" where
  "hex02 b = [upper_hex (unat b div 16), upper_hex (unat b mod 16)]"

definition generateMAC :: "nat \<Rightarrow> string" where
  "generateMAC index =
     (let b = of_nat index :: byte
      in ''AA:FC:'' @ hex02 (drop_bit 4 b AND 0xFF) @ '':'' @ hex02 (b AND 0xFF) @ '':''
           @ hex02 (drop_bit 2 b AND 0xFF) @ '':'' @ hex02 (b * 3 AND 0xFF))"

definition lower_hex :: "nat \<Rightarrow> char" where
  "lower_hex d = (if d < 10 then char_of (48 + d) else char_of (87 + d))"

text \<open>\<open>hex.EncodeToString\<close>.\<close>

definition hex_encode :: "bytes \<Rightarrow> string" where
  "hex_encode bs = concat (map (\<lambda>b. [lower_hex (unat b div 16), lower_hex (unat b mod 16)]) bs)"

definition string_bytes :: "string \<Rightarrow> bytes" where
  "string_bytes s = map (\<lambda>c. of_nat (of_char c)) s"

definition tap_hash :: "string \<Rightarrow> string" where
  "tap_hash i = take 12 (hex_encode (Sum256 (string_bytes i)))"

definition buildNetworkInterfaces :: "task \<Rightarrow> json list" where
  "buildNetworkInterfaces t =
     map (\<lambda>i. JObj [
            (''guest_mac'', JStr (generateMAC i)),
            (''host_dev_name'', JStr (''tap-'' @ tap_hash (task_ID t) @ ''-'' @ dec_of_nat i)),
            (''iface_id'', JStr (''eth'' @ dec_of_nat i))])
       [0..<length (task_Networks t)]"

definition translate_vcpus :: "task \<Rightarrow> int" where
  "translate_vcpus t =
     (case (GetContainer (task_Spec t), rr_Reservations (spec_Resources (task_Spec t))) of
        (Inr _, Some r) \<Rightarrow>
          if 0 < res_NanoCPUs r then
            let v = res_NanoCPUs r div 1000000000 in if v < 1 then 1 else v
          else 1
      | _ \<Rightarrow> 1)"

definition translate_memory :: "task \<Rightarrow> int" where
  "translate_memory t =
     (case (GetContainer (task_Spec t), rr_Reservations (spec_Resources (task_Spec t))) of
        (Inr _, Some r) \<Rightarrow>
          if 0 < res_MemoryBytes r then
            let v = res_MemoryBytes r div (1024 * 1024) in if v < 512 then 512 else v
          else 512
      | _ \<Rightarrow> 512)"

definition Translate :: "task_translator \<Rightarrow> task \<Rightarrow> (translate_error, json) res" where
  "Translate t task' =
     (case validateTaskID (task_ID task') of
        Inl e \<Rightarrow> Inl e
      | Inr _ \<Rightarrow> Inr (JObj [
          (''boot-source'', JObj [
             (''boot_args'', JStr (buildBootArgs t task')),
             (''kernel_image_path'', JStr (tt_kernelPath t))]),
          (''drives'', JArr [JObj [
             (''drive_id'', JStr (task_ID task')),
             (''is_read_only'', JBool False),
             (''is_root_device'', JBool True),
             (''path_on_host'', JStr (getRootfsPath task'))]]),
          (''machine-config'', JObj [
             (''mem_size_mib'', JNum (translate_memory task')),
             (''smt'', JBool False),
             (''vcpu_count'', JNum (translate_vcpus task'))]),
          (''network-interfaces'', JArr (buildNetworkInterfaces task'))]))"

subsection \<open>Task identifiers are safe in paths\<close>

lemma sublist_single: "sublist [c] s \<longleftrightarrow> c \<in> set s"
  by (auto simp: sublist_def in_set_conv_decomp)

text \<open>
  Claim C40. A task whose identifier passes \<open>validateTaskID\<close> cannot escape a directory: for every
  directory the socket path built from it is a file directly in that directory, and different
  identifiers give different sockets.
\<close>

theorem validateTaskID_contained:
  assumes "validateTaskID i = Inr ()" and "validateTaskID j = Inr ()" and "d \<noteq> []"
  shows "path_Dir (path_Join [d, i @ ''.sock'']) = path_Clean d \<and>
    (path_Join [d, i @ ''.sock''] = path_Join [d, j @ ''.sock''] \<longleftrightarrow> i = j)"
proof -
  have "CHR ''/'' \<notin> set (k @ ''.sock'') \<and> k @ ''.sock'' \<noteq> ''.'' \<and> k @ ''.sock'' \<noteq> ''..''"
    if "validateTaskID k = Inr ()" for k
    using that by (auto simp: validateTaskID_def sublist_single Cons_eq_append_conv append_eq_Cons_conv split: if_splits)
  then show ?thesis
    using path_Dir_Join [of "i @ ''.sock''" d] path_Join_inj [of "i @ ''.sock''" "j @ ''.sock''" d] assms by auto
qed

theorem validateTaskID_contained_witness:
  "path_Dir (path_Join [''/run/fc'', ''task-1'' @ ''.sock'']) = path_Clean ''/run/fc''"
proof -
  have "validateTaskID ''task-1'' = Inr ()" by code_simp
  from validateTaskID_contained [OF this this, of "''/run/fc''"] show ?thesis by simp
qed

subsection \<open>MAC addresses\<close>

lemma hex_digits_inj: "a < 16 \<Longrightarrow> b < 16 \<Longrightarrow> upper_hex a = upper_hex b \<longleftrightarrow> a = b"
proof -
  assume a: "a < 16" and b: "b < 16"
  have code: "of_char (upper_hex k) = (if k < 10 then 48 + k else 55 + k)" if "k < 16" for k :: nat
    using that by (simp add: upper_hex_def)
  show ?thesis
  proof
    assume "upper_hex a = upper_hex b"
    then have "(of_char (upper_hex a) :: nat) = of_char (upper_hex b)" by simp
    then show "a = b" using code [OF a] code [OF b] a b by (auto split: if_splits)
  qed simp
qed

lemma hex02_inj [simp]: "hex02 a = hex02 b \<longleftrightarrow> a = b"
proof
  assume "hex02 a = hex02 b"
  then have "upper_hex (unat a div 16) = upper_hex (unat b div 16)" "upper_hex (unat a mod 16) = upper_hex (unat b mod 16)"
    by (simp_all add: hex02_def)
  moreover have "unat a div 16 < 16" "unat b div 16 < 16"
    using byte_lt_256 [of a] byte_lt_256 [of b] by linarith+
  ultimately have "unat a div 16 = unat b div 16" "unat a mod 16 = unat b mod 16"
    by (simp_all add: hex_digits_inj)
  then show "a = b" by (metis div_mult_mod_eq word_unat_eq_iff)
qed simp

lemma length_hex02 [simp]: "length (hex02 b) = 2"
  by (simp add: hex02_def)

text \<open>
  The MAC addresses of two interfaces are equal exactly when their indices agree modulo
  256. The address does not depend on the task: the first interface of every VM has the same one.
\<close>

theorem generateMAC_eq_iff: "generateMAC i = generateMAC j \<longleftrightarrow> i mod 256 = j mod 256"
proof -
  have "generateMAC i = generateMAC j \<longleftrightarrow> (of_nat i :: byte) = of_nat j"
    by (auto simp: generateMAC_def Let_def append_eq_append_conv)
  also have "\<dots> \<longleftrightarrow> i mod 256 = j mod 256" by (simp add: word_unat_eq_iff)
  finally show ?thesis .
qed

subsection \<open>The configuration\<close>

text \<open>
  A translated task has at least one virtual CPU and at least 512 MiB of memory, and no
  more of either than the larger of the minimum and its reservation, rounded down; these are the
  numbers the configuration carries.
\<close>

theorem Translate_resources:
  assumes "Translate tr t = Inr j"
  shows "1 \<le> translate_vcpus t \<and> 512 \<le> translate_memory t \<and>
    (\<forall>r. rr_Reservations (spec_Resources (task_Spec t)) = Some r \<longrightarrow>
       translate_vcpus t \<le> max 1 (res_NanoCPUs r div 1000000000) \<and>
       translate_memory t \<le> max 512 (res_MemoryBytes r div (1024 * 1024))) \<and>
    json_field ''machine-config'' j = Some (JObj [(''mem_size_mib'', JNum (translate_memory t)),
       (''smt'', JBool False), (''vcpu_count'', JNum (translate_vcpus t))])"
  using assms
  by (auto simp: Translate_def translate_vcpus_def translate_memory_def json_field_def Let_def
      split: sum.splits option.splits)


theorem Translate_resources_witness:
  "\<exists>tr t j. Translate tr t = Inr j \<and> translate_vcpus t = 2 \<and> translate_memory t = 512"
proof -
  let ?tr = "\<lparr>tt_kernelPath = ''/k'', tt_bridgeIP = ''10.0.0.1/24''\<rparr>"
  let ?spec = "SetContainer zero_container (zero_spec\<lparr>spec_Resources :=
      \<lparr>rr_Limits = None, rr_Reservations = Some \<lparr>res_NanoCPUs = 2500000000, res_MemoryBytes = 1048576\<rparr>\<rparr>\<rparr>)"
  let ?t = "\<lparr>task_ID = ''t'', task_ServiceID = [], task_NodeID = [], task_Spec = ?spec, task_Status = zero_status,
      task_Networks = [], task_Secrets = [], task_Configs = [], task_Annotations = Map.empty\<rparr>"
  obtain j where j: "Translate ?tr ?t = Inr j"
  proof -
    have "validateTaskID (task_ID ?t) = Inr ()" by code_simp
    then show ?thesis using that by (simp add: Translate_def)
  qed
  have "translate_vcpus ?t = 2" "translate_memory ?t = 512"
    by (simp_all add: translate_vcpus_def translate_memory_def SetContainer_def GetContainer_def zero_spec_def)
  with Translate_resources [OF j] j show ?thesis by blast
qed

end
