(* ===== verification/Vmm_Manager.thy ===== *)
theory Vmm_Manager
  imports Swarm_Translator
begin

text \<open>
  The VMM manager of \<open>pkg/swarmkit/vmm.go\<close>: the table of Firecracker processes and the sequence of
  requests that configures a VM. The host (processes, socket files, API requests sent, calls of
  the jailer, cgroups) is an explicit state; what the host answers to a call (whether a process
  starts, whether the socket appears in time, whether the API accepts a request) is an argument.
\<close>

subsection \<open>The host\<close>

datatype jail_call = JailStart string | JailStop string | JailForceStop string

record cgroup_limits =
  cg_CPUQuotaUs :: int
  cg_MemoryMax :: int
  cg_MemoryHigh :: int
  cg_IOWeight :: int

record host =
  h_alive :: "int list"
  h_files :: "string list"
  h_requests :: "(string \<times> json) list"
  h_jail :: "jail_call list"
  h_cgroups :: "(string \<times> cgroup_limits) list"

text \<open>Killing a process of one's own fails only when it has ended already; in both cases it is not alive afterwards.\<close>

definition host_kill :: "int \<Rightarrow> host \<Rightarrow> host" where
  "host_kill pid h = h\<lparr>h_alive := removeAll pid (h_alive h)\<rparr>"

definition host_unlink :: "string \<Rightarrow> host \<Rightarrow> host" where
  "host_unlink p h = h\<lparr>h_files := removeAll p (h_files h)\<rparr>"

subsection \<open>The manager\<close>

record jailer_config =
  jc_FirecrackerPath :: string
  jc_JailerPath :: string
  jc_ChrootBaseDir :: string
  jc_UID :: int
  jc_GID :: int
  jc_ParentCgroup :: string
  jc_CgroupVersion :: string
  jc_EnableSeccomp :: bool

record vmm_manager =
  v_firecrackerPath :: string
  v_jailerPath :: string
  v_socketDir :: string
  v_useJailer :: bool
  v_jailerConfig :: "jailer_config option"
  v_cgroupMgr :: bool
  v_processes :: "string \<rightharpoonup> int"

record vmm_config =
  vc_FirecrackerPath :: string
  vc_JailerPath :: string
  vc_SocketDir :: string
  vc_UseJailer :: bool
  vc_JailerUID :: int
  vc_JailerGID :: int
  vc_JailerChrootDir :: string
  vc_ParentCgroup :: string
  vc_CgroupVersion :: string
  vc_EnableCgroups :: bool

datatype vmm_error =
    FirecrackerNotFound
  | JailerNotFound
  | JailerCreateFailed
  | SocketDirFailed
  | SpawnFailed
  | SocketNotCreated
  | ConfigInvalid
  | MachineConfigMissing
  | BootSourceMissing
  | DrivesMissing
  | DriveInvalid
  | DriveIDMissing
  | RootfsNotFound
  | BootSourcePanic
  | JailStartFailed
  | RequestRefused string
  | TaskNotFound
  | KillFailed

text \<open>
  What the host answers when the manager is created: the paths of the binaries in the search
  path, the cgroup version, whether the jailer and the cgroup manager can be created.
\<close>

record init_env =
  ie_firecracker :: "string option"
  ie_jailer :: "string option"
  ie_cgroupVersion :: string
  ie_jailerNew :: bool
  ie_cgroupNew :: bool

definition NewVMMManagerWithConfig :: "init_env \<Rightarrow> vmm_config \<Rightarrow> (vmm_error, vmm_manager) res" where
  "NewVMMManagerWithConfig env cfg =
     (case (if vc_FirecrackerPath cfg = [] then ie_firecracker env else Some (vc_FirecrackerPath cfg)) of
        None \<Rightarrow> Inl FirecrackerNotFound
      | Some fc \<Rightarrow>
          let v = \<lparr>v_firecrackerPath = fc, v_jailerPath = [], v_socketDir = vc_SocketDir cfg,
                   v_useJailer = vc_UseJailer cfg, v_jailerConfig = None, v_cgroupMgr = False,
                   v_processes = Map.empty\<rparr>
          in if \<not> vc_UseJailer cfg then Inr v
             else (case (if vc_JailerPath cfg = [] then ie_jailer env else Some (vc_JailerPath cfg)) of
                     None \<Rightarrow> Inl JailerNotFound
                   | Some jp \<Rightarrow>
                       let jc = \<lparr>jc_FirecrackerPath = fc, jc_JailerPath = jp,
                             jc_ChrootBaseDir = (if vc_JailerChrootDir cfg = [] then ''/var/lib/swarmcracker/jailer''
                                                 else vc_JailerChrootDir cfg),
                             jc_UID = (if vc_JailerUID cfg = 0 then 1000 else vc_JailerUID cfg),
                             jc_GID = (if vc_JailerGID cfg = 0 then 1000 else vc_JailerGID cfg),
                             jc_ParentCgroup = vc_ParentCgroup cfg,
                             jc_CgroupVersion = (if vc_CgroupVersion cfg = [] then ie_cgroupVersion env
                                                 else vc_CgroupVersion cfg),
                             jc_EnableSeccomp = True\<rparr>
                       in if \<not> ie_jailerNew env then Inl JailerCreateFailed
                          else Inr (v\<lparr>v_jailerPath := jp, v_jailerConfig := Some jc,
                                      v_cgroupMgr := vc_EnableCgroups cfg \<and> ie_cgroupNew env\<rparr>)))"

definition NewVMMManager :: "init_env \<Rightarrow> string \<Rightarrow> string \<Rightarrow> (vmm_error, vmm_manager) res" where
  "NewVMMManager env firecrackerPath socketDir =
     NewVMMManagerWithConfig env \<lparr>vc_FirecrackerPath = firecrackerPath, vc_JailerPath = [],
       vc_SocketDir = socketDir, vc_UseJailer = False, vc_JailerUID = 0, vc_JailerGID = 0,
       vc_JailerChrootDir = [], vc_ParentCgroup = [], vc_CgroupVersion = [], vc_EnableCgroups = False\<rparr>"

text \<open>The numbers of a configuration are the integers that the translator puts there, never \<open>float64\<close> values.\<close>

definition toInt :: "json option \<Rightarrow> int" where
  "toInt v = (case v of Some (JNum n) \<Rightarrow> n | _ \<Rightarrow> 0)"

definition toBool :: "json option \<Rightarrow> bool" where
  "toBool v = (case v of Some (JBool b) \<Rightarrow> b | _ \<Rightarrow> False)"

definition socket_path :: "string \<Rightarrow> string \<Rightarrow> string" where
  "socket_path dir i = path_Join [dir, i @ ''.sock'']"

subsection \<open>Configuring a VM\<close>

text \<open>
  \<open>putAPI\<close>: the request is sent, and refused unless the API answers 201 or 204. The answers are given per
  configuration, as an arbitrary function of path and body: a VM is asked for each path once, so that they
  may just as well be thought to depend on the requests before.
\<close>

definition putAPI :: "(string \<Rightarrow> json \<Rightarrow> bool) \<Rightarrow> string \<Rightarrow> json \<Rightarrow> host \<Rightarrow> (vmm_error, unit) res \<times> host" where
  "putAPI api path data h =
     ((if api path data then Inr () else Inl (RequestRefused path)), h\<lparr>h_requests := h_requests h @ [(path, data)]\<rparr>)"

definition map_field :: "string \<Rightarrow> json \<Rightarrow> json option" where
  "map_field k cfg = (case json_field k cfg of Some (JObj fs) \<Rightarrow> Some (JObj fs) | _ \<Rightarrow> None)"

definition list_field :: "string \<Rightarrow> json \<Rightarrow> json list" where
  "list_field k cfg = (case json_field k cfg of Some (JArr xs) \<Rightarrow> xs | _ \<Rightarrow> [])"

definition is_object :: "json \<Rightarrow> bool" where
  "is_object j = (case j of JObj _ \<Rightarrow> True | _ \<Rightarrow> False)"

text \<open>Sequencing with an early return of the error.\<close>

definition seq_host ::
    "(vmm_error, unit) res \<times> host \<Rightarrow> (host \<Rightarrow> (vmm_error, unit) res \<times> host) \<Rightarrow> (vmm_error, unit) res \<times> host" where
  "seq_host m f = (case m of (Inl e, h) \<Rightarrow> (Inl e, h) | (Inr _, h) \<Rightarrow> f h)"

fun put_drives :: "(string \<Rightarrow> json \<Rightarrow> bool) \<Rightarrow> json list \<Rightarrow> host \<Rightarrow> (vmm_error, unit) res \<times> host" where
  "put_drives api [] h = (Inr (), h)"
| "put_drives api (d # ds) h =
     (if \<not> is_object d then (Inl DriveInvalid, h)
      else (case json_string_field ''drive_id'' d of
              None \<Rightarrow> (Inl DriveIDMissing, h)
            | Some i \<Rightarrow> seq_host (putAPI api (''/drives/'' @ i) d h) (put_drives api ds)))"

fun put_interfaces :: "(string \<Rightarrow> json \<Rightarrow> bool) \<Rightarrow> json list \<Rightarrow> host \<Rightarrow> (vmm_error, unit) res \<times> host" where
  "put_interfaces api [] h = (Inr (), h)"
| "put_interfaces api (x # xs) h =
     (if \<not> is_object x then put_interfaces api xs h
      else let i = (case json_string_field ''iface_id'' x of Some i \<Rightarrow> i | None \<Rightarrow> [])
           in seq_host (putAPI api (''/network-interfaces/'' @ i) x h) (put_interfaces api xs))"

definition start_action :: json where
  "start_action = JObj [(''action_type'', JStr ''InstanceStart'')]"

definition configureVM :: "(string \<Rightarrow> json \<Rightarrow> bool) \<Rightarrow> json \<Rightarrow> host \<Rightarrow> (vmm_error, unit) res \<times> host" where
  "configureVM api cfg h =
     (if \<not> is_object cfg then (Inl ConfigInvalid, h)
      else case map_field ''machine-config'' cfg of
        None \<Rightarrow> (Inl MachineConfigMissing, h)
      | Some mc \<Rightarrow>
          seq_host (putAPI api ''/machine-config'' mc h) (\<lambda>h1.
            case map_field ''boot-source'' cfg of
              None \<Rightarrow> (Inl BootSourceMissing, h1)
            | Some bs \<Rightarrow>
                seq_host (putAPI api ''/boot-source'' bs h1) (\<lambda>h2.
                  if list_field ''drives'' cfg = [] then (Inl DrivesMissing, h2)
                  else
                    seq_host (put_drives api (list_field ''drives'' cfg) h2) (\<lambda>h3.
                      seq_host (put_interfaces api (list_field ''network-interfaces'' cfg) h3) (\<lambda>h4.
                        putAPI api ''/actions'' start_action h4)))))"

subsection \<open>Starting a VM\<close>

record start_env =
  se_mkdir :: bool
  se_spawn :: "int option"
  se_socket :: bool
  se_api :: "string \<Rightarrow> json \<Rightarrow> bool"
  se_jail :: "(int \<times> string) option"
  se_cgroup :: bool

definition track :: "string \<Rightarrow> int \<Rightarrow> vmm_manager \<Rightarrow> vmm_manager" where
  "track i pid v = v\<lparr>v_processes := (v_processes v)(i \<mapsto> pid)\<rparr>"

definition startDirect ::
    "start_env \<Rightarrow> task \<Rightarrow> json \<Rightarrow> vmm_manager \<Rightarrow> host \<Rightarrow> (vmm_error, unit) res \<times> vmm_manager \<times> host" where
  "startDirect env t config v h =
     (if \<not> se_mkdir env then (Inl SocketDirFailed, v, h)
      else let sock = socket_path (v_socketDir v) (task_ID t) in
      case se_spawn env of
        None \<Rightarrow> (Inl SpawnFailed, v, host_unlink sock h)
      | Some pid \<Rightarrow>
          let v' = track (task_ID t) pid v; h1 = h\<lparr>h_alive := pid # h_alive h\<rparr>
          in if \<not> se_socket env then (Inl SocketNotCreated, v', host_unlink sock (host_kill pid h1))
             else (case configureVM (se_api env) config (h1\<lparr>h_files := sock # h_files h1\<rparr>) of
                     (Inl e, h2) \<Rightarrow> (Inl e, v', host_unlink sock (host_kill pid h2))
                   | (Inr _, h2) \<Rightarrow> (Inr (), v', h2)))"

text \<open>The path of the first root device among the drives.\<close>

fun root_drive :: "json list \<Rightarrow> string" where
  "root_drive [] = []"
| "root_drive (d # ds) =
     (if json_field ''is_root_device'' d = Some (JBool True)
      then (case json_string_field ''path_on_host'' d of Some p \<Rightarrow> p | None \<Rightarrow> [])
      else root_drive ds)"

text \<open>Products are computed with 64 bits, and the quotient is rounded towards zero.\<close>

definition int64_of :: "int \<Rightarrow> int" where
  "int64_of n = signed_take_bit 63 n"

definition vm_limits :: "int \<Rightarrow> int \<Rightarrow> cgroup_limits" where
  "vm_limits vcpus memoryMB =
     (let high = int64_of (memoryMB * 1024 * 1024 * 90)
      in \<lparr>cg_CPUQuotaUs = int64_of (vcpus * 1000000),
          cg_MemoryMax = int64_of (memoryMB * 1024 * 1024),
          cg_MemoryHigh = sgn high * (\<bar>high\<bar> div 100),
          cg_IOWeight = 100\<rparr>)"

text \<open>The configuration with the paths of the chroot that the jailed VM is given.\<close>

definition jailed_config :: "json \<Rightarrow> json \<Rightarrow> json" where
  "jailed_config mc bootArgs = JObj [
     (''boot-source'', JObj [(''boot_args'', bootArgs), (''kernel_image_path'', JStr ''/kernel/vmlinux'')]),
     (''drives'', JArr [JObj [
        (''drive_id'', JStr ''rootfs''),
        (''is_read_only'', JBool False),
        (''is_root_device'', JBool True),
        (''path_on_host'', JStr ''/drives/rootfs.ext4'')]]),
     (''machine-config'', mc)]"

definition startWithJailer ::
    "start_env \<Rightarrow> task \<Rightarrow> json \<Rightarrow> vmm_manager \<Rightarrow> host \<Rightarrow> (vmm_error, unit) res \<times> vmm_manager \<times> host" where
  "startWithJailer env t config v h =
     (if \<not> is_object config then (Inl ConfigInvalid, v, h)
      else case map_field ''machine-config'' config of
        None \<Rightarrow> (Inl MachineConfigMissing, v, h)
      | Some mc \<Rightarrow>
          (case map_field ''boot-source'' config of
             None \<Rightarrow> (Inl BootSourceMissing, v, h)
           | Some bs \<Rightarrow>
               if list_field ''drives'' config = [] then (Inl DrivesMissing, v, h)
               else if root_drive (filter is_object (list_field ''drives'' config)) = [] then (Inl RootfsNotFound, v, h)
               else (case (json_string_field ''kernel_image_path'' bs, json_string_field ''boot_args'' bs) of
                       (Some kp, Some args) \<Rightarrow>
                         let h1 = h\<lparr>h_jail := h_jail h @ [JailStart (task_ID t)]\<rparr> in
                         (case se_jail env of
                            None \<Rightarrow> (Inl JailStartFailed, v, h1)
                          | Some (pid, sock) \<Rightarrow>
                              let h2 = h1\<lparr>h_alive := pid # h_alive h1, h_files := sock # h_files h1\<rparr>;
                                  lim = vm_limits (toInt (json_field ''vcpu_count'' mc)) (toInt (json_field ''mem_size_mib'' mc));
                                  h3 = (if v_cgroupMgr v \<and> v_jailerConfig v \<noteq> None \<and> se_cgroup env
                                        then h2\<lparr>h_cgroups := (task_ID t, lim) # h_cgroups h2\<rparr> else h2);
                                  v' = track (task_ID t) pid v
                              in (case configureVM (se_api env) (jailed_config mc (JStr args)) h3 of
                                    (Inl e, h4) \<Rightarrow> (Inl e, v', h4\<lparr>h_jail := h_jail h4 @ [JailStop (task_ID t)]\<rparr>)
                                  | (Inr _, h4) \<Rightarrow> (Inr (), v', h4)))
                     | _ \<Rightarrow> (Inl BootSourcePanic, v, h))))"

definition vmm_Start ::
    "start_env \<Rightarrow> task \<Rightarrow> json \<Rightarrow> vmm_manager \<Rightarrow> host \<Rightarrow> (vmm_error, unit) res \<times> vmm_manager \<times> host" where
  "vmm_Start env t config v h =
     (if v_useJailer v then startWithJailer env t config v h else startDirect env t config v h)"

subsection \<open>Stopping, waiting, removing\<close>

text \<open>The part of \<open>Stop\<close> and \<open>Remove\<close> that calls the jailer and removes the cgroup.\<close>

definition jail_cleanup :: "(string \<Rightarrow> jail_call) \<Rightarrow> string \<Rightarrow> vmm_manager \<Rightarrow> host \<Rightarrow> host" where
  "jail_cleanup call i v h =
     (if v_useJailer v then
        let h' = h\<lparr>h_jail := h_jail h @ [call i]\<rparr>
        in if v_cgroupMgr v then h'\<lparr>h_cgroups := filter (\<lambda>x. fst x \<noteq> i) (h_cgroups h')\<rparr> else h'
      else h)"

definition untrack :: "string \<Rightarrow> vmm_manager \<Rightarrow> vmm_manager" where
  "untrack i v = v\<lparr>v_processes := (v_processes v)(i := None)\<rparr>"

text \<open>
  \<open>Stop\<close>: terminate, wait up to ten seconds, kill. A directly started process is gone at the end
  in either case. The process of a jailed VM is not a child of the manager, so waiting for it
  returns at once; \<open>exits\<close> says whether it has ended on its own.
\<close>

definition vmm_Stop :: "bool \<Rightarrow> task \<Rightarrow> vmm_manager \<Rightarrow> host \<Rightarrow> (vmm_error, unit) res \<times> vmm_manager \<times> host" where
  "vmm_Stop exits t v h =
     (let h1 = jail_cleanup JailStop (task_ID t) v h in
      case v_processes v (task_ID t) of
        None \<Rightarrow> (Inl TaskNotFound, v, h1)
      | Some pid \<Rightarrow>
          (Inr (), untrack (task_ID t) v, if v_useJailer v \<and> \<not> exits then h1 else host_kill pid h1))"

definition vmm_ForceStop :: "bool \<Rightarrow> task \<Rightarrow> vmm_manager \<Rightarrow> host \<Rightarrow> (vmm_error, unit) res \<times> vmm_manager \<times> host" where
  "vmm_ForceStop killed t v h =
     (case v_processes v (task_ID t) of
        None \<Rightarrow> (Inl TaskNotFound, v, h)
      | Some pid \<Rightarrow>
          if killed then (Inr (), untrack (task_ID t) v, host_kill pid h) else (Inl KillFailed, v, h))"

text \<open>\<open>Wait\<close>: \<open>outcome\<close> is the error with which the process ends, if any.\<close>

definition vmm_Wait :: "string option \<Rightarrow> int \<Rightarrow> task \<Rightarrow> vmm_manager \<Rightarrow> task_status" where
  "vmm_Wait outcome now t v =
     (case v_processes v (task_ID t) of
        None \<Rightarrow> \<lparr>st_State = TaskStateComplete, st_Timestamp = 0, st_Message = ''Task completed'', st_Err = None\<rparr>
      | Some pid \<Rightarrow>
          (case outcome of
             Some e \<Rightarrow> \<lparr>st_State = TaskStateFailed, st_Timestamp = now, st_Message = e, st_Err = Some e\<rparr>
           | None \<Rightarrow> \<lparr>st_State = TaskStateComplete, st_Timestamp = now, st_Message = ''Task completed successfully'', st_Err = None\<rparr>))"

definition GetPID :: "string \<Rightarrow> vmm_manager \<Rightarrow> int" where
  "GetPID i v = (case v_processes v i of None \<Rightarrow> 0 | Some pid \<Rightarrow> pid)"

definition IsRunning :: "string \<Rightarrow> vmm_manager \<Rightarrow> host \<Rightarrow> bool" where
  "IsRunning i v h = (case v_processes v i of None \<Rightarrow> False | Some pid \<Rightarrow> pid \<in> set (h_alive h))"

text \<open>
  \<open>Remove\<close>: a process that was started directly has ended when \<open>cmd.Wait\<close> returns, whether it could be killed or
  not. The process of a jailed VM is not waited for; \<open>killed\<close> says whether killing it succeeds. \<open>unlink\<close> says which
  files can be removed. Failures are logged.
\<close>

definition vmm_Remove ::
    "bool \<Rightarrow> (string \<Rightarrow> bool) \<Rightarrow> task \<Rightarrow> vmm_manager \<Rightarrow> host \<Rightarrow> (vmm_error, unit) res \<times> vmm_manager \<times> host" where
  "vmm_Remove killed unlink t v h =
     (let h1 = jail_cleanup JailForceStop (task_ID t) v h;
          h2 = (case v_processes v (task_ID t) of
                  None \<Rightarrow> h1
                | Some pid \<Rightarrow> if v_useJailer v \<and> \<not> killed then h1 else host_kill pid h1);
          sock = socket_path (v_socketDir v) (task_ID t);
          h3 = (if unlink sock then host_unlink sock h2 else h2)
      in (Inr (), untrack (task_ID t) v, h3))"

definition vmm_Describe :: "task \<Rightarrow> vmm_manager \<Rightarrow> task_status" where
  "vmm_Describe t v =
     (case v_processes v (task_ID t) of
        None \<Rightarrow> \<lparr>st_State = TaskStateComplete, st_Timestamp = 0, st_Message = ''Task not running'', st_Err = None\<rparr>
      | Some pid \<Rightarrow> \<lparr>st_State = TaskStateRunning, st_Timestamp = 0, st_Message = ''Task is running'', st_Err = None\<rparr>)"

definition GetRunningProcesses :: "vmm_manager \<Rightarrow> (string \<rightharpoonup> int)" where
  "GetRunningProcesses v = v_processes v"

definition RemoveProcess :: "string \<Rightarrow> vmm_manager \<Rightarrow> vmm_manager" where
  "RemoveProcess i v = untrack i v"

text \<open>\<open>CheckVMAPIHealth\<close>: the socket exists and the API answers 200; \<open>ok\<close> is the answer.\<close>

definition CheckVMAPIHealth :: "bool \<Rightarrow> string \<Rightarrow> vmm_manager \<Rightarrow> host \<Rightarrow> bool" where
  "CheckVMAPIHealth ok i v h = (socket_path (v_socketDir v) i \<in> set (h_files h) \<and> ok)"

end
