(* ===== verification/Vmm_Correct.thy ===== *)
theory Vmm_Correct
  imports Vmm_Manager
begin

text \<open>
  Correctness of the VMM manager: the order in which a VM is configured, what reaches the API for
  a translated task, and what is left of a VM after it was started and removed or failed to start.
\<close>

subsection \<open>The order of the requests\<close>

text \<open>
  A run of requests: all but the last were accepted and none of these is the start action; the
  flag says whether the last one was accepted too.
\<close>

definition accepted :: "(string \<Rightarrow> json \<Rightarrow> bool) \<Rightarrow> (string \<times> json) list \<Rightarrow> bool" where
  "accepted api rs \<longleftrightarrow> (\<forall>(p, d) \<in> set rs. api p d \<and> p \<noteq> ''/actions'')"

definition stops_at_refusal :: "(string \<Rightarrow> json \<Rightarrow> bool) \<Rightarrow> (string \<times> json) list \<Rightarrow> bool" where
  "stops_at_refusal api rs \<longleftrightarrow> accepted api (butlast rs) \<and> (rs \<noteq> [] \<longrightarrow> fst (last rs) \<noteq> ''/actions'')"

lemma accepted_simps [simp]:
  "accepted api []"
  "accepted api (r # rs) \<longleftrightarrow> api (fst r) (snd r) \<and> fst r \<noteq> ''/actions'' \<and> accepted api rs"
  "accepted api (rs @ rs') \<longleftrightarrow> accepted api rs \<and> accepted api rs'"
  by (auto simp: accepted_def)

lemma accepted_stops: "accepted api rs \<Longrightarrow> stops_at_refusal api rs"
  by (cases rs rule: rev_cases) (auto simp: accepted_def stops_at_refusal_def)

lemma stops_append: "accepted api rs \<Longrightarrow> stops_at_refusal api rs' \<Longrightarrow> stops_at_refusal api (rs @ rs')"
  by (cases "rs' = []") (auto simp: stops_at_refusal_def butlast_append accepted_stops [unfolded stops_at_refusal_def])

lemma stops_single: "p \<noteq> ''/actions'' \<Longrightarrow> stops_at_refusal api [(p, d)]"
  by (simp add: stops_at_refusal_def)

text \<open>A part of the configuration: its requests, all accepted when it succeeds.\<close>

definition sends :: "(string \<Rightarrow> json \<Rightarrow> bool) \<Rightarrow> (vmm_error, unit) res \<times> host \<Rightarrow> host \<Rightarrow> (string \<times> json) list \<Rightarrow> bool" where
  "sends api r h rs \<longleftrightarrow> snd r = h\<lparr>h_requests := h_requests h @ rs\<rparr> \<and> stops_at_refusal api rs \<and>
     (is_ok (fst r) \<longrightarrow> accepted api rs)"

lemma sends_nothing: "\<exists>rs. sends api (e, h) h rs"
  by (rule exI [of _ "[]"]) (simp add: sends_def stops_at_refusal_def)

lemma sends_putAPI: "p \<noteq> ''/actions'' \<Longrightarrow> sends api (putAPI api p d h) h [(p, d)]"
  by (simp add: sends_def putAPI_def stops_single)

lemma sends_seq:
  assumes "sends api m h rs" and "\<And>h1. \<exists>rs. sends api (f h1) h1 rs"
  shows "\<exists>rs. sends api (seq_host m f) h rs"
proof (cases "fst m")
  case (Inl e)
  then have "seq_host m f = m" by (cases m) (simp add: seq_host_def)
  then show ?thesis using assms(1) by auto
next
  case (Inr u)
  then have m: "seq_host m f = f (snd m)" by (cases m) (simp add: seq_host_def)
  obtain rs' where "sends api (f (snd m)) (snd m) rs'" using assms(2) by blast
  then have "sends api (f (snd m)) h (rs @ rs')"
    using assms(1) Inr stops_append [of api rs rs'] by (auto simp: sends_def)
  then show ?thesis unfolding m by blast
qed

lemma put_drives_sends: "\<exists>rs. sends api (put_drives api ds h) h rs"
proof (induction ds arbitrary: h)
  case Nil
  then show ?case by (simp add: sends_nothing)
next
  case (Cons d ds)
  have "\<exists>rs. sends api (seq_host (putAPI api (''/drives/'' @ i) d h) (put_drives api ds)) h rs" for i
    by (rule sends_seq [OF sends_putAPI Cons.IH]) simp
  then show ?case by (auto simp: sends_nothing split: option.splits)
qed

lemma put_interfaces_sends: "\<exists>rs. sends api (put_interfaces api xs h) h rs"
proof (induction xs arbitrary: h)
  case Nil
  then show ?case by (simp add: sends_nothing)
next
  case (Cons x xs)
  have "\<exists>rs. sends api (seq_host (putAPI api (''/network-interfaces/'' @ i) x h) (put_interfaces api xs)) h rs" for i
    by (rule sends_seq [OF sends_putAPI Cons.IH]) simp
  then show ?case using Cons.IH by (simp add: Let_def)
qed

text \<open>A whole configuration: the start action is the last request, sent when all others were accepted.\<close>

definition configures :: "(string \<Rightarrow> json \<Rightarrow> bool) \<Rightarrow> (vmm_error, unit) res \<times> host \<Rightarrow> host \<Rightarrow> (string \<times> json) list \<Rightarrow> bool" where
  "configures api r h rs \<longleftrightarrow> snd r = h\<lparr>h_requests := h_requests h @ rs\<rparr> \<and> accepted api (butlast rs) \<and>
     (is_ok (fst r) \<longleftrightarrow> rs \<noteq> [] \<and> last rs = (''/actions'', start_action) \<and> api ''/actions'' start_action)"

lemma configures_refused: "sends api (Inl e, h') h rs \<Longrightarrow> configures api (Inl e, h') h rs"
  by (cases rs rule: rev_cases) (auto simp: sends_def configures_def stops_at_refusal_def)

lemma configures_nothing: "\<exists>rs. configures api (Inl e, h) h rs"
  by (rule exI [of _ "[]"]) (simp add: configures_def)

lemma configures_start: "\<exists>rs. configures api (putAPI api ''/actions'' start_action h) h rs"
  by (rule exI [of _ "[(''/actions'', start_action)]"]) (simp add: configures_def putAPI_def)

lemma configures_seq:
  assumes "\<exists>rs. sends api m h rs" and "\<And>h1. \<exists>rs. configures api (f h1) h1 rs"
  shows "\<exists>rs. configures api (seq_host m f) h rs"
proof -
  obtain rs where rs: "sends api m h rs" using assms(1) by blast
  show ?thesis
  proof (cases "fst m")
    case (Inl e)
    then have "seq_host m f = m" "m = (Inl e, snd m)" by (cases m; simp add: seq_host_def)+
    then show ?thesis using configures_refused rs by metis
  next
    case (Inr u)
    then have m: "seq_host m f = f (snd m)" by (cases m) (simp add: seq_host_def)
    obtain rs' where "configures api (f (snd m)) (snd m) rs'" using assms(2) by blast
    then have "configures api (f (snd m)) h (rs @ rs')"
      using rs Inr by (cases "rs' = []") (auto simp: sends_def configures_def butlast_append accepted_def stops_at_refusal_def dest: in_set_butlastD)
    then show ?thesis unfolding m by blast
  qed
qed

lemma putAPI_sends: "p \<noteq> ''/actions'' \<Longrightarrow> \<exists>rs. sends api (putAPI api p d h) h rs"
  using sends_putAPI by blast

lemma configureVM_configures: "\<exists>rs. configures api (configureVM api cfg h) h rs"
  unfolding configureVM_def
  by (auto simp: configures_nothing configures_start
      intro!: configures_seq putAPI_sends put_drives_sends put_interfaces_sends split: option.splits)

text \<open>
  Claim C5. Whatever the API answers, a VM is started only when it is completely configured: all
  requests before the last one were accepted and none of them is the start action, and the
  configuration succeeds exactly when the last request is the start action and it was accepted.
\<close>

theorem configureVM_order:
  "\<exists>rs. h_requests (snd (configureVM api cfg h)) = h_requests h @ rs \<and>
     list_all (\<lambda>(p, d). api p d \<and> p \<noteq> ''/actions'') (butlast rs) \<and>
     (fst (configureVM api cfg h) = Inr () \<longleftrightarrow>
        rs \<noteq> [] \<and> last rs = (''/actions'', start_action) \<and> api ''/actions'' start_action)"
proof -
  obtain rs where "configures api (configureVM api cfg h) h rs" using configureVM_configures by blast
  moreover have "is_ok r \<longleftrightarrow> r = Inr ()" for r :: "(vmm_error, unit) res" by (cases r) simp_all
  ultimately show ?thesis by (intro exI [of _ rs]) (simp add: configures_def accepted_def list_all_iff)
qed

subsection \<open>The requests for a translated task\<close>

definition add_requests :: "(string \<times> json) list \<Rightarrow> host \<Rightarrow> host" where
  "add_requests rs h = h\<lparr>h_requests := h_requests h @ rs\<rparr>"

lemma add_requests_simps [simp]:
  "add_requests [] h = h"
  "add_requests rs' (add_requests rs h) = add_requests (rs @ rs') h"
  "h_requests (add_requests rs h) = h_requests h @ rs"
  by (simp_all add: add_requests_def)

lemma add_requests_inj [simp]: "add_requests rs h = add_requests rs' h \<longleftrightarrow> rs = rs'"
proof
  assume "add_requests rs h = add_requests rs' h"
  then have "h_requests (add_requests rs h) = h_requests (add_requests rs' h)" by (rule arg_cong)
  then show "rs = rs'" by simp
qed simp

lemma seq_host_putAPI:
  "seq_host (putAPI api p d h) f = (if api p d then f (add_requests [(p, d)] h) else (Inl (RequestRefused p), add_requests [(p, d)] h))"
  by (simp add: seq_host_def putAPI_def add_requests_def)

lemma putAPI_eq: "putAPI api p d h = (if api p d then Inr () else Inl (RequestRefused p), add_requests [(p, d)] h)"
  by (simp add: putAPI_def add_requests_def)

definition iface_path :: "json \<Rightarrow> string" where
  "iface_path x = ''/network-interfaces/'' @ (case json_string_field ''iface_id'' x of Some i \<Rightarrow> i | None \<Rightarrow> [])"

lemma put_interfaces_all:
  assumes "\<And>p d. api p d" and "\<forall>x \<in> set xs. is_object x"
  shows "put_interfaces api xs h = (Inr (), add_requests (map (\<lambda>x. (iface_path x, x)) xs) h)"
  using assms(2) by (induction xs arbitrary: h) (simp_all add: assms(1) seq_host_putAPI iface_path_def)

lemma seq_host_Inr: "seq_host (Inr u, h) f = f h"
  by (simp add: seq_host_def)

lemma interfaces_objects: "x \<in> set (buildNetworkInterfaces t) \<Longrightarrow> is_object x"
  by (auto simp: buildNetworkInterfaces_def is_object_def)

lemma interfaces_paths:
  "map iface_path (buildNetworkInterfaces t) = map (\<lambda>i. ''/network-interfaces/eth'' @ dec_of_nat i) [0..<length (task_Networks t)]"
  by (simp add: buildNetworkInterfaces_def iface_path_def json_string_field_def json_field_def comp_def)

lemma configureVM_translated:
  assumes "Translate tr t = Inr cfg" and "\<And>p d. api p d"
  shows "fst (configureVM api cfg h) = Inr () \<and>
    map fst (h_requests (snd (configureVM api cfg h))) = map fst (h_requests h) @
      [''/machine-config'', ''/boot-source'', ''/drives/'' @ task_ID t] @
      map (\<lambda>i. ''/network-interfaces/eth'' @ dec_of_nat i) [0..<length (task_Networks t)] @ [''/actions'']"
proof -
  have "\<exists>mc bs dr. map_field ''machine-config'' cfg = Some mc \<and> map_field ''boot-source'' cfg = Some bs \<and>
      list_field ''drives'' cfg = [dr] \<and> is_object dr \<and> json_string_field ''drive_id'' dr = Some (task_ID t) \<and>
      list_field ''network-interfaces'' cfg = buildNetworkInterfaces t \<and> is_object cfg"
    using assms(1)
    by (auto simp: Translate_def map_field_def list_field_def json_field_def json_string_field_def is_object_def split: sum.splits)
  then obtain mc bs dr where c: "map_field ''machine-config'' cfg = Some mc" "map_field ''boot-source'' cfg = Some bs"
      "list_field ''drives'' cfg = [dr]" "is_object dr" "json_string_field ''drive_id'' dr = Some (task_ID t)"
      "list_field ''network-interfaces'' cfg = buildNetworkInterfaces t" "is_object cfg"
    by blast
  have ifs: "put_interfaces api (buildNetworkInterfaces t) h' =
      (Inr (), add_requests (map (\<lambda>x. (iface_path x, x)) (buildNetworkInterfaces t)) h')" for h'
    by (intro put_interfaces_all ballI) (simp_all add: assms(2) interfaces_objects)
  have "map fst (map (\<lambda>x. (iface_path x, x)) (buildNetworkInterfaces t)) = map iface_path (buildNetworkInterfaces t)"
    by simp
  then show ?thesis
    using c assms(2) interfaces_paths [of t]
    by (simp add: configureVM_def seq_host_putAPI putAPI_eq ifs seq_host_Inr comp_def del: map_map)
qed

text \<open>
  Claim C28. For every task that \<open>Translate\<close> accepts, and an API that accepts every request, the VM is
  configured and started, by exactly these requests in this order: machine configuration, boot
  source, the root drive named after the task, one interface per network, the start action.
\<close>

theorem translated_task_starts:
  assumes "Translate tr t = Inr cfg" and "\<And>p d. api p d"
  shows "fst (configureVM api cfg h) = Inr () \<and>
    map fst (h_requests (snd (configureVM api cfg h))) = map fst (h_requests h) @
      [''/machine-config'', ''/boot-source'', ''/drives/'' @ task_ID t] @
      map (\<lambda>i. ''/network-interfaces/eth'' @ dec_of_nat i) [0..<length (task_Networks t)] @ [''/actions'']"
  using assms by (rule configureVM_translated)

theorem translated_task_starts_witness:
  "\<exists>tr t cfg. Translate tr t = Inr cfg \<and> task_ID t = ''t1'' \<and>
     fst (configureVM (\<lambda>p d. True) cfg \<lparr>h_alive = [], h_files = [], h_requests = [], h_jail = [], h_cgroups = []\<rparr>) = Inr ()"
proof -
  let ?tr = "\<lparr>tt_kernelPath = ''/k'', tt_bridgeIP = ''10.0.0.1/24''\<rparr>"
  let ?t = "\<lparr>task_ID = ''t1'', task_ServiceID = [], task_NodeID = [], task_Spec = zero_spec, task_Status = zero_status,
      task_Networks = [], task_Secrets = [], task_Configs = [], task_Annotations = Map.empty\<rparr>"
  have "validateTaskID (task_ID ?t) = Inr ()" by code_simp
  then obtain cfg where j: "Translate ?tr ?t = Inr cfg" by (simp add: Translate_def)
  have "fst (configureVM (\<lambda>p d. True) cfg \<lparr>h_alive = [], h_files = [], h_requests = [], h_jail = [], h_cgroups = []\<rparr>) = Inr ()"
    using translated_task_starts [OF j, of "\<lambda>p d. True"] by blast
  moreover have "task_ID ?t = ''t1''" by simp
  ultimately show ?thesis using j by blast
qed

subsection \<open>Jailed VMs\<close>

lemma configure_jailed:
  assumes "is_object mc"
  shows "\<exists>rs. snd (configureVM api (jailed_config mc a) h) = add_requests rs h \<and>
    (\<forall>r \<in> set rs. fst r \<in> {''/machine-config'', ''/boot-source'', ''/drives/rootfs'', ''/actions''})"
proof -
  obtain fs where mc: "mc = JObj fs" using assms by (cases mc) (auto simp: is_object_def)
  have "is_object (jailed_config mc a)" "map_field ''machine-config'' (jailed_config mc a) = Some mc"
    "\<exists>bs. map_field ''boot-source'' (jailed_config mc a) = Some bs"
    "\<exists>dr. list_field ''drives'' (jailed_config mc a) = [dr] \<and> is_object dr \<and> json_string_field ''drive_id'' dr = Some ''rootfs''"
    "list_field ''network-interfaces'' (jailed_config mc a) = []"
    by (simp_all add: jailed_config_def mc is_object_def map_field_def list_field_def json_field_def json_string_field_def)
  then show ?thesis
    by (auto simp: configureVM_def seq_host_putAPI putAPI_eq seq_host_Inr seq_host_def)
qed

text \<open>
  A VM started with the jailer never gets a network interface: whatever interfaces its
  configuration has, no request for one is sent.
\<close>

theorem jailed_vm_without_network:
  assumes "startWithJailer env t config v h = (res, v', h')"
  shows "\<exists>rs. h_requests h' = h_requests h @ rs \<and> list_all (\<lambda>r. \<not> prefix ''/network-interfaces/'' (fst r)) rs"
proof -
  have key: "\<exists>rs. h_requests h4 = h_requests h3 @ rs \<and> (\<forall>r \<in> set rs. \<not> prefix ''/network-interfaces/'' (fst r))"
    if "configureVM (se_api env) (jailed_config mc a) h3 = (r, h4)" "map_field ''machine-config'' config = Some mc"
    for mc a h3 r h4
  proof -
    have "is_object mc" using that(2) by (auto simp: map_field_def is_object_def split: option.splits json.splits)
    then obtain rs where "snd (configureVM (se_api env) (jailed_config mc a) h3) = add_requests rs h3"
        and p: "\<forall>r \<in> set rs. fst r \<in> {''/machine-config'', ''/boot-source'', ''/drives/rootfs'', ''/actions''}"
      using configure_jailed by blast
    then have "h_requests h4 = h_requests h3 @ rs" using that(1) by simp
    moreover have "\<forall>r \<in> set rs. \<not> prefix ''/network-interfaces/'' (fst r)" using p by fastforce
    ultimately show ?thesis by blast
  qed
  show ?thesis
    using assms
    by (auto simp: startWithJailer_def Let_def list_all_iff dest!: key split: if_splits option.splits sum.splits prod.splits)
qed

theorem jailed_vm_without_network_witness:
  "\<exists>res v' h' rs. startWithJailer \<lparr>se_mkdir = True, se_spawn = None, se_socket = True, se_api = (\<lambda>p d. True),
       se_jail = Some (9, ''/jail/t1.sock''), se_cgroup = False\<rparr>
     \<lparr>task_ID = ''t1'', task_ServiceID = [], task_NodeID = [], task_Spec = zero_spec, task_Status = zero_status,
       task_Networks = [], task_Secrets = [], task_Configs = [], task_Annotations = Map.empty\<rparr>
     (JObj [(''boot-source'', JObj [(''boot_args'', JStr []), (''kernel_image_path'', JStr ''/k'')]),
        (''drives'', JArr [JObj [(''is_root_device'', JBool True), (''path_on_host'', JStr ''/r'')]]),
        (''machine-config'', JObj []), (''network-interfaces'', JArr [JObj [(''iface_id'', JStr ''eth0'')]])])
     \<lparr>v_firecrackerPath = [], v_jailerPath = [], v_socketDir = ''/run'', v_useJailer = True, v_jailerConfig = None,
       v_cgroupMgr = False, v_processes = Map.empty\<rparr>
     \<lparr>h_alive = [], h_files = [], h_requests = [], h_jail = [], h_cgroups = []\<rparr> = (res, v', h') \<and>
   h_requests h' = rs \<and> list_all (\<lambda>r. \<not> prefix ''/network-interfaces/'' (fst r)) rs"
  (is "\<exists>res v' h' rs. ?start = (res, v', h') \<and> _ h' rs")
proof -
  obtain res v' h' where st: "?start = (res, v', h')" by (rule prod_cases3)
  from jailed_vm_without_network [OF st] st show ?thesis by auto
qed

subsection \<open>What is left of a VM\<close>

lemma configureVM_host:
  "h_alive (snd (configureVM api cfg h)) = h_alive h" "h_files (snd (configureVM api cfg h)) = h_files h"
proof -
  obtain rs where "configures api (configureVM api cfg h) h rs" using configureVM_configures by blast
  then show "h_alive (snd (configureVM api cfg h)) = h_alive h" "h_files (snd (configureVM api cfg h)) = h_files h"
    by (simp_all add: configures_def)
qed

text \<open>
  A directly started VM leaves nothing behind when it is removed: after a successful
  \<open>Start\<close> of a task that had no VM and \<open>Remove\<close>, the table of processes is the one before, the VM's
  process is gone, the other processes run on, and the socket of the task does not exist, where it can be removed.
\<close>

theorem vmm_start_remove:
  assumes "\<not> v_useJailer v" and "v_processes v (task_ID t) = None"
    and "vmm_Start env t cfg v h = (Inr (), v', h')" and "vmm_Remove killed unlink t v' h' = (res, v'', h'')"
  shows "res = Inr () \<and> v'' = v \<and> (\<exists>pid. se_spawn env = Some pid \<and> IsRunning (task_ID t) v' h' \<and>
      set (h_alive h'') = set (h_alive h) - {pid}) \<and>
    (unlink (socket_path (v_socketDir v) (task_ID t)) \<longrightarrow> socket_path (v_socketDir v) (task_ID t) \<notin> set (h_files h''))"
proof -
  let ?i = "task_ID t" and ?s = "socket_path (v_socketDir v) (task_ID t)"
  from assms(1,3) obtain pid where pid: "se_spawn env = Some pid" and v': "v' = track ?i pid v"
    and h': "h' = snd (configureVM (se_api env) cfg (h\<lparr>h_alive := pid # h_alive h, h_files := ?s # h_files h\<rparr>))"
    by (auto simp: vmm_Start_def startDirect_def Let_def split: if_splits option.splits sum.splits prod.splits)
  have alive: "h_alive h' = pid # h_alive h" using h' by (simp add: configureVM_host)
  have dir: "v_socketDir v' = v_socketDir v" "v_processes v' ?i = Some pid" "\<not> v_useJailer v'"
    using v' assms(1) by (simp_all add: track_def)
  have "untrack ?i v' = v" using assms(2) by (simp add: v' track_def untrack_def fun_upd_idem)
  then have rem: "res = Inr ()" "v'' = v" "h'' = (if unlink ?s then host_unlink ?s (host_kill pid h') else host_kill pid h')"
    using assms(4) dir by (auto simp: vmm_Remove_def jail_cleanup_def Let_def)
  then show ?thesis
    using pid alive dir by (auto simp: host_kill_def host_unlink_def IsRunning_def)
qed

definition example_vmm :: vmm_manager where
  "example_vmm = \<lparr>v_firecrackerPath = ''fc'', v_jailerPath = [], v_socketDir = ''/run'', v_useJailer = False,
     v_jailerConfig = None, v_cgroupMgr = False, v_processes = Map.empty\<rparr>"

definition example_host :: host where
  "example_host = \<lparr>h_alive = [7], h_files = [], h_requests = [], h_jail = [], h_cgroups = []\<rparr>"

definition example_vm_task :: task where
  "example_vm_task = \<lparr>task_ID = ''t1'', task_ServiceID = [], task_NodeID = [], task_Spec = zero_spec, task_Status = zero_status,
      task_Networks = [], task_Secrets = [], task_Configs = [], task_Annotations = Map.empty\<rparr>"

definition example_vm_config :: json where
  "example_vm_config = JObj [(''boot-source'', JObj []), (''drives'', JArr [JObj [(''drive_id'', JStr ''r'')]]), (''machine-config'', JObj [])]"

definition example_env :: "bool \<Rightarrow> start_env" where
  "example_env ok = \<lparr>se_mkdir = True, se_spawn = Some 42, se_socket = True, se_api = (\<lambda>p d. ok), se_jail = None, se_cgroup = False\<rparr>"

theorem vmm_start_remove_witness:
  "\<exists>v' h' v'' h''. vmm_Start (example_env True) example_vm_task example_vm_config example_vmm example_host = (Inr (), v', h') \<and>
     vmm_Remove True (\<lambda>_. True) example_vm_task v' h' = (Inr (), v'', h'') \<and> set (h_alive h'') = {7}"
proof -
  let ?r = "vmm_Start (example_env True) example_vm_task example_vm_config example_vmm example_host"
  have "fst ?r = Inr ()" by code_simp
  then have r: "?r = (Inr (), fst (snd ?r), snd (snd ?r))" by (simp add: prod_eq_iff)
  obtain res v'' h'' where q: "vmm_Remove True (\<lambda>_. True) example_vm_task (fst (snd ?r)) (snd (snd ?r)) = (res, v'', h'')"
    by (rule prod_cases3)
  have d: "\<not> v_useJailer example_vmm" "v_processes example_vmm (task_ID example_vm_task) = None"
    by (simp_all add: example_vmm_def)
  from vmm_start_remove [OF d r q] obtain pid where "se_spawn (example_env True) = Some pid"
      "set (h_alive h'') = set (h_alive example_host) - {pid}" and res: "res = Inr ()" by blast
  then have "set (h_alive h'') = {7}" by (auto simp: example_env_def example_host_def)
  then show ?thesis using r q res by blast
qed

text \<open>
  A VM that fails to start after its process was created stays in the table: the process
  is killed, but the manager keeps describing the task as running.
\<close>

theorem failed_start_stays_tracked:
  assumes "\<not> v_useJailer v" and "se_mkdir env" and "se_spawn env = Some pid"
    and "vmm_Start env t cfg v h = (Inl e, v', h')"
  shows "st_State (vmm_Describe t v') = TaskStateRunning \<and> GetPID (task_ID t) v' = pid \<and>
    \<not> IsRunning (task_ID t) v' h'"
  using assms
  by (auto simp: vmm_Start_def startDirect_def Let_def vmm_Describe_def GetPID_def IsRunning_def track_def
      host_unlink_def host_kill_def split: if_splits sum.splits prod.splits)

theorem failed_start_stays_tracked_witness:
  "\<exists>e v' h'. vmm_Start (example_env False) example_vm_task example_vm_config example_vmm example_host = (Inl e, v', h') \<and>
     st_State (vmm_Describe example_vm_task v') = TaskStateRunning"
proof -
  let ?r = "vmm_Start (example_env False) example_vm_task example_vm_config example_vmm example_host"
  have "isl (fst ?r)" by code_simp
  then have r: "?r = (Inl (projl (fst ?r)), fst (snd ?r), snd (snd ?r))" by (simp add: prod_eq_iff)
  have d: "\<not> v_useJailer example_vmm" "se_mkdir (example_env False)" "se_spawn (example_env False) = Some 42"
    by (simp_all add: example_vmm_def example_env_def)
  from failed_start_stays_tracked [OF d r] r show ?thesis by blast
qed

end
