(* ===== verification/Swarm_Controller.thy ===== *)
theory Swarm_Controller
  imports Vmm_Correct
begin

text \<open>
  The controller of one task of \<open>pkg/swarmkit/executor.go\<close>: the conversion of SwarmKit's task into
  the internal one and the operations \<open>Update\<close>, \<open>Prepare\<close>, \<open>Start\<close>, \<open>Wait\<close>, \<open>Shutdown\<close>,
  \<open>Terminate\<close>, \<open>Remove\<close> and \<open>ContainerStatus\<close>. The controller reaches the image preparer, the
  network, volume, secret and VMM managers through interfaces; here they are a record of
  functions on a state of any type, and the interface's laws are a locale of
  \<open>Swarm_Executor\<close>. The mutex of a controller makes each operation one step.
\<close>

subsection \<open>SwarmKit's task\<close>

text \<open>The fields of SwarmKit's messages that the executor reads; a nil pointer is \<open>None\<close>.\<close>

record api_driver =
  adrv_Name :: string
  adrv_Options :: "(string \<rightharpoonup> string) option"

record api_network =
  anet_ID :: string
  anet_Name :: string
  anet_DriverState :: "api_driver option"
  anet_DriverConfig :: "api_driver option"

record api_attachment =
  aatt_Network :: "api_network option"
  aatt_Addresses :: "string list"

text \<open>A reference to a secret or a config; the target is the name of a file, if it is a file.\<close>

record api_reference =
  aref_ID :: string
  aref_Name :: string
  aref_File :: "string option"

record api_container =
  actr_Image :: string
  actr_Command :: "string list"
  actr_Args :: "string list"
  actr_Env :: "string list"
  actr_Mounts :: "mount list"
  actr_Secrets :: "api_reference list"
  actr_Configs :: "api_reference list"

record api_task =
  api_ID :: string
  api_ServiceID :: string
  api_NodeID :: string
  api_Container :: "api_container option"
  api_Reservations :: "resources option"
  api_Networks :: "api_attachment option list"

subsection \<open>The internal task\<close>

definition reference_target :: "string \<Rightarrow> api_reference \<Rightarrow> string" where
  "reference_target dir r =
     (case aref_File r of
        Some n \<Rightarrow> if n \<noteq> [] then n else dir @ aref_Name r
      | None \<Rightarrow> dir @ aref_Name r)"

definition convertSecrets :: "api_task \<Rightarrow> secret_ref list" where
  "convertSecrets t =
     (case api_Container t of
        None \<Rightarrow> []
      | Some c \<Rightarrow> map (\<lambda>r. \<lparr>sec_ID = aref_ID r, sec_Name = aref_Name r,
                         sec_Target = reference_target ''/run/secrets/'' r, sec_Data = []\<rparr>) (actr_Secrets c))"

definition convertConfigs :: "api_task \<Rightarrow> config_ref list" where
  "convertConfigs t =
     (case api_Container t of
        None \<Rightarrow> []
      | Some c \<Rightarrow> map (\<lambda>r. \<lparr>cref_ID = aref_ID r, cref_Name = aref_Name r,
                         cref_Target = reference_target ''/config/'' r, cref_Data = []\<rparr>) (actr_Configs c))"

definition convert_network :: "string list \<Rightarrow> api_network \<Rightarrow> net_attachment" where
  "convert_network addrs n =
     (let driver = (case anet_DriverState n of
                      Some d \<Rightarrow> adrv_Name d
                    | None \<Rightarrow> (case anet_DriverConfig n of Some d \<Rightarrow> adrv_Name d | None \<Rightarrow> ''bridge''));
          driverConfig = (case anet_DriverConfig n of
                            Some d \<Rightarrow> (case adrv_Options d of Some opts \<Rightarrow> Some (opts ''bridge'') | None \<Rightarrow> None)
                          | None \<Rightarrow> None)
      in \<lparr>nat_NetworkID = anet_ID n,
          nat_Spec = \<lparr>ns_Name = anet_Name n, ns_Driver = driver, ns_DriverConfig = driverConfig\<rparr>,
          nat_Addresses = addrs\<rparr>)"

definition convert_networks :: "api_attachment option list \<Rightarrow> net_attachment list" where
  "convert_networks ns =
     List.map_filter
       (\<lambda>n. case n of
              None \<Rightarrow> None
            | Some a \<Rightarrow> map_option (convert_network (aatt_Addresses a)) (aatt_Network a)) ns"

definition convertTask :: "api_task \<Rightarrow> task" where
  "convertTask t =
     (case api_Container t of
        None \<Rightarrow> \<lparr>task_ID = api_ID t, task_ServiceID = api_ServiceID t, task_NodeID = api_NodeID t,
                 task_Spec = zero_spec\<lparr>spec_Runtime := ContainerRuntime zero_container\<rparr>,
                 task_Status = zero_status, task_Networks = [], task_Secrets = [], task_Configs = [],
                 task_Annotations = Map.empty\<rparr>
      | Some c \<Rightarrow>
          let ctr = \<lparr>ctr_Image = actr_Image c, ctr_Command = actr_Command c, ctr_Args = actr_Args c,
                     ctr_Env = actr_Env c, ctr_Mounts = actr_Mounts c\<rparr>;
              res = \<lparr>rr_Limits = None, rr_Reservations = api_Reservations t\<rparr>
          in \<lparr>task_ID = api_ID t, task_ServiceID = api_ServiceID t, task_NodeID = api_NodeID t,
              task_Spec = zero_spec\<lparr>spec_Runtime := ContainerRuntime ctr, spec_Resources := res\<rparr>,
              task_Status = zero_status, task_Networks = convert_networks (api_Networks t),
              task_Secrets = convertSecrets t, task_Configs = convertConfigs t,
              task_Annotations = Map.empty\<rparr>)"

lemma convertTask_ID [simp]: "task_ID (convertTask t) = api_ID t"
  by (simp add: convertTask_def Let_def split: option.splits)

lemma convertTask_Annotations [simp]: "task_Annotations (convertTask t) = Map.empty"
  by (simp add: convertTask_def Let_def split: option.splits)

subsection \<open>The managers behind the controller\<close>

text \<open>
  The managers as functions on the state \<open>'w\<close> they share. Errors of the image preparer, the
  network manager and \<open>Wait\<close> are texts. An operation whose error the controller only logs returns
  just the new state; the secret and the volume manager may be nil. \<open>Prepare\<close> and
  \<open>PrepareNetwork\<close> return the task they have modified in place.
\<close>

record 'w secret_manager =
  sm_InjectSecrets :: "string \<Rightarrow> secret_ref list \<Rightarrow> string \<Rightarrow> 'w \<Rightarrow> 'w"
  sm_InjectConfigs :: "string \<Rightarrow> config_ref list \<Rightarrow> string \<Rightarrow> 'w \<Rightarrow> 'w"

record 'w volume_manager =
  vm_mountRootfs :: "string \<Rightarrow> 'w \<Rightarrow> string option \<times> 'w"
  vm_unmountRootfs :: "string \<Rightarrow> 'w \<Rightarrow> 'w"
  vm_HasVolume :: "string \<Rightarrow> 'w \<Rightarrow> bool"
  vm_UnmountVolume :: "string \<Rightarrow> string \<Rightarrow> string \<Rightarrow> 'w \<Rightarrow> 'w"

record 'w managers =
  mg_Prepare :: "task \<Rightarrow> 'w \<Rightarrow> (string, task) res \<times> 'w"
  mg_PrepareNetwork :: "task \<Rightarrow> 'w \<Rightarrow> (string, task) res \<times> 'w"
  mg_CleanupNetwork :: "task \<Rightarrow> 'w \<Rightarrow> 'w"
  mg_secrets :: "'w secret_manager option"
  mg_volumes :: "'w volume_manager option"
  mg_RemoveFile :: "string \<Rightarrow> 'w \<Rightarrow> 'w"
  mg_Start :: "task \<Rightarrow> json \<Rightarrow> 'w \<Rightarrow> (vmm_error, unit) res \<times> 'w"
  mg_Stop :: "task \<Rightarrow> 'w \<Rightarrow> (vmm_error, unit) res \<times> 'w"
  mg_Wait :: "task \<Rightarrow> 'w \<Rightarrow> (string, task_status) res"
  mg_Remove :: "task \<Rightarrow> 'w \<Rightarrow> (vmm_error, unit) res \<times> 'w"
  mg_GetPID :: "string \<Rightarrow> 'w \<Rightarrow> int"
  mg_IsRunning :: "string \<Rightarrow> 'w \<Rightarrow> bool"
  mg_GetRunningProcesses :: "'w \<Rightarrow> (string \<rightharpoonup> int)"
  mg_KillProcess :: "int \<Rightarrow> 'w \<Rightarrow> 'w"
  mg_RemoveProcess :: "string \<Rightarrow> 'w \<Rightarrow> 'w"

subsection \<open>The controller\<close>

record controller =
  c_task :: api_task
  c_RootfsDir :: string
  c_SocketDir :: string
  c_trans :: task_translator
  c_prepared :: bool
  c_started :: bool
  c_internalTask :: "task option"
  c_socketPath :: string

datatype controller_error =
    TranslatorFailed translate_error
  | ImagePreparationFailed string
  | NetworkPreparationFailed string
  | TaskNotPrepared
  | InternalTaskNotPrepared
  | TranslationFailed translate_error
  | StartFailed vmm_error
  | ShutdownFailed vmm_error
  | TerminateFailed vmm_error
  | WaitFailed string
  | TaskFailed string

text \<open>\<open>NewController\<close>: the arguments after the task are the fields of the configuration it reads.\<close>

definition NewController ::
    "string \<Rightarrow> string \<Rightarrow> string \<Rightarrow> string \<Rightarrow> api_task \<Rightarrow> (controller_error, controller) res" where
  "NewController kernelPath bridgeIP rootfsDir socketDir t =
     (case NewTaskTranslator kernelPath bridgeIP of
        Inl e \<Rightarrow> Inl (TranslatorFailed e)
      | Inr tr \<Rightarrow> Inr \<lparr>c_task = t, c_RootfsDir = rootfsDir, c_SocketDir = socketDir, c_trans = tr,
                       c_prepared = False, c_started = False, c_internalTask = None,
                       c_socketPath = path_Join [socketDir, api_ID t @ ''.sock'']\<rparr>)"

definition ctl_Update :: "api_task \<Rightarrow> controller \<Rightarrow> controller" where
  "ctl_Update t c = (if \<not> c_started c then c\<lparr>c_task := t\<rparr> else c)"

text \<open>The part of \<open>Prepare\<close> that injects secrets and configs into the root file system.\<close>

definition inject :: "'w managers \<Rightarrow> string \<Rightarrow> task \<Rightarrow> 'w \<Rightarrow> 'w" where
  "inject mg i t w =
     (case (task_Annotations t ''rootfs'', mg_secrets mg) of
        (Some p, Some sm) \<Rightarrow>
          if p = [] then w
          else let w1 = (if task_Secrets t \<noteq> [] then sm_InjectSecrets sm i (task_Secrets t) p w else w)
               in if task_Configs t \<noteq> [] then sm_InjectConfigs sm i (task_Configs t) p w1 else w1
      | _ \<Rightarrow> w)"

definition ctl_Prepare :: "'w managers \<Rightarrow> controller \<Rightarrow> 'w \<Rightarrow> (controller_error, unit) res \<times> controller \<times> 'w" where
  "ctl_Prepare mg c w =
     (if c_prepared c then (Inr (), c, w)
      else case mg_Prepare mg (convertTask (c_task c)) w of
        (Inl e, w1) \<Rightarrow> (Inl (ImagePreparationFailed e), c, w1)
      | (Inr t1, w1) \<Rightarrow>
          (case mg_PrepareNetwork mg t1 w1 of
             (Inl e, w2) \<Rightarrow> (Inl (NetworkPreparationFailed e), c, w2)
           | (Inr t2, w2) \<Rightarrow>
               (Inr (), c\<lparr>c_internalTask := Some t2, c_prepared := True\<rparr>, inject mg (api_ID (c_task c)) t2 w2)))"

definition ctl_Start :: "'w managers \<Rightarrow> controller \<Rightarrow> 'w \<Rightarrow> (controller_error, unit) res \<times> controller \<times> 'w" where
  "ctl_Start mg c w =
     (if \<not> c_prepared c then (Inl TaskNotPrepared, c, w)
      else if c_started c then (Inr (), c, w)
      else case c_internalTask c of
        None \<Rightarrow> (Inl InternalTaskNotPrepared, c, w)
      | Some t \<Rightarrow>
          (case Translate (c_trans c) t of
             Inl e \<Rightarrow> (Inl (TranslationFailed e), c, w)
           | Inr cfg \<Rightarrow>
               (case mg_Start mg t cfg w of
                  (Inl e, w1) \<Rightarrow> (Inl (StartFailed e), c, w1)
                | (Inr _, w1) \<Rightarrow> (Inr (), c\<lparr>c_started := True\<rparr>, w1))))"

definition ctl_Wait :: "'w managers \<Rightarrow> controller \<Rightarrow> 'w \<Rightarrow> (controller_error, unit) res" where
  "ctl_Wait mg c w =
     (case mg_Wait mg (convertTask (c_task c)) w of
        Inl e \<Rightarrow> Inl (WaitFailed e)
      | Inr s \<Rightarrow> (case st_Err s of Some e \<Rightarrow> Inl (TaskFailed e) | None \<Rightarrow> Inr ()))"

definition ctl_Shutdown :: "'w managers \<Rightarrow> controller \<Rightarrow> 'w \<Rightarrow> (controller_error, unit) res \<times> controller \<times> 'w" where
  "ctl_Shutdown mg c w =
     (if \<not> c_started c then (Inr (), c, w)
      else let t = convertTask (c_task c) in
        (case mg_Stop mg t w of
           (Inl e, w1) \<Rightarrow> (Inl (ShutdownFailed e), c, w1)
         | (Inr _, w1) \<Rightarrow> (Inr (), c\<lparr>c_started := False\<rparr>, mg_CleanupNetwork mg t w1)))"

definition ctl_Terminate :: "'w managers \<Rightarrow> controller \<Rightarrow> 'w \<Rightarrow> (controller_error, unit) res \<times> controller \<times> 'w" where
  "ctl_Terminate mg c w =
     (if \<not> c_started c then (Inr (), c, w)
      else (case mg_Stop mg (convertTask (c_task c)) w of
              (Inl e, w1) \<Rightarrow> (Inl (TerminateFailed e), c, w1)
            | (Inr _, w1) \<Rightarrow> (Inr (), c\<lparr>c_started := False\<rparr>, w1)))"

subsection \<open>Removing a task\<close>

definition IsVolumeReference :: "string \<Rightarrow> bool" where
  "IsVolumeReference s = (prefix ''volume://'' s \<or> \<not> sublist ''/'' s \<and> \<not> prefix ''.'' s)"

definition ExtractVolumeName :: "string \<Rightarrow> string" where
  "ExtractVolumeName s = (if prefix ''volume://'' s then trim_prefix ''volume://'' s else s)"

text \<open>The loop over the mounts: volumes mounted read-write and known to the manager are synced back.\<close>

fun sync_mounts :: "'w volume_manager \<Rightarrow> string \<Rightarrow> mount list \<Rightarrow> 'w \<Rightarrow> 'w" where
  "sync_mounts vm dir [] w = w"
| "sync_mounts vm dir (m # ms) w =
     (if \<not> IsVolumeReference (mnt_Source m) \<or> mnt_ReadOnly m
         \<or> \<not> vm_HasVolume vm (ExtractVolumeName (mnt_Source m)) w
      then sync_mounts vm dir ms w
      else sync_mounts vm dir ms (vm_UnmountVolume vm (ExtractVolumeName (mnt_Source m)) dir (mnt_Target m) w))"

definition syncVolumeData :: "'w volume_manager \<Rightarrow> task \<Rightarrow> mount list \<Rightarrow> 'w \<Rightarrow> 'w" where
  "syncVolumeData vm t ms w =
     (case task_Annotations t ''rootfs'' of
        None \<Rightarrow> w
      | Some p \<Rightarrow>
          (case vm_mountRootfs vm p w of
             (None, w1) \<Rightarrow> w1
           | (Some dir, w1) \<Rightarrow> vm_unmountRootfs vm dir (sync_mounts vm dir ms w1)))"

definition sync_on_remove :: "'w managers \<Rightarrow> controller \<Rightarrow> 'w \<Rightarrow> 'w" where
  "sync_on_remove mg c w =
     (case (mg_volumes mg, c_internalTask c) of
        (Some vm, Some it) \<Rightarrow>
          (case GetContainer (task_Spec it) of
             Inl _ \<Rightarrow> w
           | Inr ctr \<Rightarrow> if ctr_Mounts ctr = [] then w
                       else syncVolumeData vm (convertTask (c_task c)) (ctr_Mounts ctr) w)
      | _ \<Rightarrow> w)"

definition ctl_Remove :: "'w managers \<Rightarrow> controller \<Rightarrow> 'w \<Rightarrow> (controller_error, unit) res \<times> controller \<times> 'w" where
  "ctl_Remove mg c w =
     (let t = convertTask (c_task c);
          w1 = sync_on_remove mg c w;
          w2 = mg_CleanupNetwork mg t w1;
          w3 = snd (mg_Remove mg t w2);
          w4 = mg_RemoveFile mg (path_Join [c_RootfsDir c, task_ID t @ ''.ext4'']) w3;
          w5 = mg_RemoveFile mg (path_Join [c_SocketDir c, task_ID t @ ''.sock'']) w4
      in (Inr (), c\<lparr>c_started := False, c_prepared := False\<rparr>, w5))"

text \<open>The converted task has no annotations, so the synchronisation finds no root file system to mount.\<close>

lemma sync_on_remove_nothing: "sync_on_remove mg c w = w"
  by (simp add: sync_on_remove_def syncVolumeData_def split: option.splits sum.splits)

record container_status =
  cst_ContainerID :: string
  cst_PID :: int
  cst_ExitCode :: int

text \<open>\<open>ContainerStatus\<close>; the process identifier is converted to \<open>int32\<close>.\<close>

definition int32_of :: "int \<Rightarrow> int" where
  "int32_of n = signed_take_bit 31 n"

definition ContainerStatus :: "'w managers \<Rightarrow> controller \<Rightarrow> 'w \<Rightarrow> container_status" where
  "ContainerStatus mg c w =
     (let s = \<lparr>cst_ContainerID = api_ID (c_task c), cst_PID = 0, cst_ExitCode = 0\<rparr> in
      if \<not> c_started c then s
      else if mg_IsRunning mg (api_ID (c_task c)) w
      then s\<lparr>cst_PID := int32_of (mg_GetPID mg (api_ID (c_task c)) w)\<rparr>
      else s\<lparr>cst_ExitCode := 1\<rparr>)"

end
