(* ===== verification/Swarm_Executor.thy ===== *)
theory Swarm_Executor
  imports Swarm_Controller
begin

text \<open>
  The executor of \<open>pkg/swarmkit/executor.go\<close>: the table of controllers, the cleanup of orphaned VMs,
  the steps SwarmKit's agent drives, and the contract of the managers the controllers rely on. The
  contract is the locale \<open>vm_managers\<close>; it is interpreted on the VMM manager of
  \<open>pkg/swarmkit/vmm.go\<close> at the end.
\<close>

subsection \<open>The executor\<close>

record exec_config =
  ec_FirecrackerPath :: string
  ec_KernelPath :: string
  ec_RootfsDir :: string
  ec_SocketDir :: string
  ec_DefaultVCPUs :: int
  ec_DefaultMemoryMB :: int
  ec_BridgeName :: string
  ec_Subnet :: string
  ec_BridgeIP :: string
  ec_IPMode :: string
  ec_NATEnabled :: "bool option"
  ec_VXLANEnabled :: bool
  ec_VXLANPeers :: "string list"
  ec_ReservedCPUs :: int
  ec_ReservedMemoryMB :: int
  ec_MaxImageAgeDays :: int
  ec_EnableJailer :: bool
  ec_JailerPath :: string
  ec_JailerUID :: int
  ec_JailerGID :: int
  ec_JailerChrootDir :: string
  ec_ParentCgroup :: string
  ec_CgroupVersion :: string
  ec_EnableCgroups :: bool

record executor =
  ex_config :: exec_config
  ex_controllers :: "string \<rightharpoonup> controller"

datatype executor_error = ConfigNil | VmmFailed vmm_error

definition or_default :: "string \<Rightarrow> string \<Rightarrow> string" where
  "or_default d s = (if s = [] then d else s)"

definition boolPtrVal :: "bool option \<Rightarrow> bool \<Rightarrow> bool" where
  "boolPtrVal b d = (case b of None \<Rightarrow> d | Some x \<Rightarrow> x)"

definition exec_defaults :: "exec_config \<Rightarrow> exec_config" where
  "exec_defaults c = c\<lparr>
     ec_FirecrackerPath := or_default ''firecracker'' (ec_FirecrackerPath c),
     ec_KernelPath := or_default ''/usr/share/firecracker/vmlinux'' (ec_KernelPath c),
     ec_RootfsDir := or_default ''/var/lib/firecracker/rootfs'' (ec_RootfsDir c),
     ec_SocketDir := or_default ''/var/run/firecracker'' (ec_SocketDir c),
     ec_DefaultVCPUs := (if ec_DefaultVCPUs c = 0 then 1 else ec_DefaultVCPUs c),
     ec_DefaultMemoryMB := (if ec_DefaultMemoryMB c = 0 then 512 else ec_DefaultMemoryMB c),
     ec_BridgeName := or_default ''swarm-br0'' (ec_BridgeName c),
     ec_Subnet := or_default ''192.168.127.0/24'' (ec_Subnet c),
     ec_BridgeIP := or_default ''192.168.127.1/24'' (ec_BridgeIP c),
     ec_IPMode := or_default ''static'' (ec_IPMode c)\<rparr>"

definition jailer_vmm_config :: "exec_config \<Rightarrow> vmm_config" where
  "jailer_vmm_config c = \<lparr>vc_FirecrackerPath = ec_FirecrackerPath c, vc_JailerPath = ec_JailerPath c,
     vc_SocketDir = ec_SocketDir c, vc_UseJailer = True, vc_JailerUID = ec_JailerUID c,
     vc_JailerGID = ec_JailerGID c, vc_JailerChrootDir = ec_JailerChrootDir c,
     vc_ParentCgroup = ec_ParentCgroup c, vc_CgroupVersion = ec_CgroupVersion c,
     vc_EnableCgroups = ec_EnableCgroups c\<rparr>"

text \<open>
  \<open>NewExecutor\<close>: the executor and its VMM manager. The other managers are created beside it; errors
  of their initialisation are only logged.
\<close>

definition NewExecutor :: "init_env \<Rightarrow> exec_config option \<Rightarrow> (executor_error, executor \<times> vmm_manager) res" where
  "NewExecutor env cfg =
     (case cfg of
        None \<Rightarrow> Inl ConfigNil
      | Some c0 \<Rightarrow>
          let c = exec_defaults c0 in
          (case (if ec_EnableJailer c then NewVMMManagerWithConfig env (jailer_vmm_config c)
                 else NewVMMManager env (ec_FirecrackerPath c) (ec_SocketDir c)) of
             Inl e \<Rightarrow> Inl (VmmFailed e)
           | Inr v \<Rightarrow> Inr (\<lparr>ex_config = c, ex_controllers = Map.empty\<rparr>, v)))"

definition exec_Controller :: "api_task \<Rightarrow> executor \<Rightarrow> (controller_error, controller) res \<times> executor" where
  "exec_Controller t e =
     (case ex_controllers e (api_ID t) of
        Some c \<Rightarrow> (Inr c, e)
      | None \<Rightarrow>
          let cfg = ex_config e in
          (case NewController (ec_KernelPath cfg) (ec_BridgeIP cfg) (ec_RootfsDir cfg) (ec_SocketDir cfg) t of
             Inl err \<Rightarrow> (Inl err, e)
           | Inr c \<Rightarrow> (Inr c, e\<lparr>ex_controllers := (ex_controllers e)(api_ID t \<mapsto> c)\<rparr>)))"

text \<open>
  \<open>cleanupOrphanedVMs\<close>: the loop over the map of running processes, in the order of the given keys.
  An orphan gets a signal and, after five seconds, is killed.
\<close>

fun cleanup_orphans :: "'w managers \<Rightarrow> executor \<Rightarrow> (string \<rightharpoonup> int) \<Rightarrow> string list \<Rightarrow> 'w \<Rightarrow> 'w" where
  "cleanup_orphans mg e procs [] w = w"
| "cleanup_orphans mg e procs (i # is) w =
     (case (procs i, ex_controllers e i) of
        (Some pid, None) \<Rightarrow>
          let w1 = mg_KillProcess mg pid w;
              w2 = mg_RemoveProcess mg i w1;
              w3 = mg_RemoveFile mg (path_Join [ec_SocketDir (ex_config e), i @ ''.sock'']) w2
          in cleanup_orphans mg e procs is w3
      | _ \<Rightarrow> cleanup_orphans mg e procs is w)"

definition cleanupOrphanedVMs :: "'w managers \<Rightarrow> string list \<Rightarrow> executor \<Rightarrow> 'w \<Rightarrow> 'w" where
  "cleanupOrphanedVMs mg ks e w = cleanup_orphans mg e (mg_GetRunningProcesses mg w) ks w"

definition image_max_age :: "executor \<Rightarrow> int" where
  "image_max_age e = (if 0 < ec_MaxImageAgeDays (ex_config e) then ec_MaxImageAgeDays (ex_config e) else 7)"

subsection \<open>The steps of the agent\<close>

text \<open>
  The agent asks the executor for the controller of a task and then calls the controller. \<open>on_controller\<close>
  runs an operation on a registered controller; \<open>Remove\<close> deregisters it through its callback.
\<close>

datatype exec_op =
    OpController api_task
  | OpUpdate api_task
  | OpPrepare string
  | OpStart string
  | OpShutdown string
  | OpTerminate string
  | OpRemove string
  | OpCleanup

definition on_controller ::
    "(controller \<Rightarrow> 'w \<Rightarrow> (controller_error, unit) res \<times> controller \<times> 'w) \<Rightarrow> string \<Rightarrow> executor \<times> 'w \<Rightarrow> executor \<times> 'w" where
  "on_controller f i s =
     (case s of (e, w) \<Rightarrow>
        (case ex_controllers e i of
           None \<Rightarrow> (e, w)
         | Some c \<Rightarrow> (case f c w of (_, c', w') \<Rightarrow> (e\<lparr>ex_controllers := (ex_controllers e)(i \<mapsto> c')\<rparr>, w'))))"

text \<open>The agent passes a task to the controller that it got for the identifier of the task.\<close>

definition exec_Update :: "api_task \<Rightarrow> executor \<times> 'w \<Rightarrow> executor \<times> 'w" where
  "exec_Update t s = on_controller (\<lambda>c w. (Inr (), ctl_Update t c, w)) (api_ID t) s"

definition exec_Remove :: "'w managers \<Rightarrow> string \<Rightarrow> executor \<times> 'w \<Rightarrow> executor \<times> 'w" where
  "exec_Remove mg i s =
     (case on_controller (ctl_Remove mg) i s of
        (e, w) \<Rightarrow> (e\<lparr>ex_controllers := (ex_controllers e)(i := None)\<rparr>, w))"

inductive exec_step :: "'w managers \<Rightarrow> executor \<times> 'w \<Rightarrow> exec_op \<Rightarrow> executor \<times> 'w \<Rightarrow> bool" for mg where
  step_controller: "exec_step mg (e, w) (OpController t) (snd (exec_Controller t e), w)"
| step_update: "exec_step mg s (OpUpdate t) (exec_Update t s)"
| step_prepare: "exec_step mg s (OpPrepare i) (on_controller (ctl_Prepare mg) i s)"
| step_start: "exec_step mg s (OpStart i) (on_controller (ctl_Start mg) i s)"
| step_shutdown: "exec_step mg s (OpShutdown i) (on_controller (ctl_Shutdown mg) i s)"
| step_terminate: "exec_step mg s (OpTerminate i) (on_controller (ctl_Terminate mg) i s)"
| step_remove: "exec_step mg s (OpRemove i) (exec_Remove mg i s)"
| step_cleanup: "key_order (mg_GetRunningProcesses mg w) ks \<Longrightarrow>
    exec_step mg (e, w) OpCleanup (e, cleanupOrphanedVMs mg ks e w)"

inductive_cases exec_cleanupE: "exec_step mg s OpCleanup s'"
inductive_cases exec_removeE: "exec_step mg s (OpRemove i) s'"

inductive exec_run :: "'w managers \<Rightarrow> executor \<times> 'w \<Rightarrow> exec_op list \<Rightarrow> executor \<times> 'w \<Rightarrow> bool" for mg where
  run_nil: "exec_run mg s [] s"
| run_step: "exec_run mg s ops s' \<Longrightarrow> exec_step mg s' a s'' \<Longrightarrow> exec_run mg s (ops @ [a]) s''"

subsection \<open>The contract of the managers\<close>

locale vm_managers =
  fixes mg :: "'w managers"
  assumes prepare_id: "mg_Prepare mg t w = (Inr t', w') \<Longrightarrow> task_ID t' = task_ID t"
    and network_id: "mg_PrepareNetwork mg t w = (Inr t', w') \<Longrightarrow> task_ID t' = task_ID t"
    and prepare_procs: "mg_GetRunningProcesses mg (snd (mg_Prepare mg t w)) = mg_GetRunningProcesses mg w"
    and network_procs: "mg_GetRunningProcesses mg (snd (mg_PrepareNetwork mg t w)) = mg_GetRunningProcesses mg w"
    and cleanup_procs: "mg_GetRunningProcesses mg (mg_CleanupNetwork mg t w) = mg_GetRunningProcesses mg w"
    and secrets_procs: "mg_secrets mg = Some sm \<Longrightarrow>
          mg_GetRunningProcesses mg (sm_InjectSecrets sm i ss p w) = mg_GetRunningProcesses mg w"
    and configs_procs: "mg_secrets mg = Some sm \<Longrightarrow>
          mg_GetRunningProcesses mg (sm_InjectConfigs sm i cs p w) = mg_GetRunningProcesses mg w"
    and file_procs: "mg_GetRunningProcesses mg (mg_RemoveFile mg p w) = mg_GetRunningProcesses mg w"
    and kill_procs: "mg_GetRunningProcesses mg (mg_KillProcess mg pid w) = mg_GetRunningProcesses mg w"
    and forget_procs: "mg_GetRunningProcesses mg (mg_RemoveProcess mg i w) = (mg_GetRunningProcesses mg w)(i := None)"
    and start_others: "mg_Start mg t cfg w = (r, w') \<Longrightarrow> j \<noteq> task_ID t \<Longrightarrow>
          mg_GetRunningProcesses mg w' j = mg_GetRunningProcesses mg w j"
    and start_tracks: "mg_Start mg t cfg w = (Inr (), w') \<Longrightarrow> mg_GetRunningProcesses mg w' (task_ID t) \<noteq> None"
    and stop_ok: "mg_Stop mg t w = (Inr (), w') \<Longrightarrow>
          mg_GetRunningProcesses mg w' = (mg_GetRunningProcesses mg w)(task_ID t := None)"
    and stop_err: "mg_Stop mg t w = (Inl err, w') \<Longrightarrow> mg_GetRunningProcesses mg w' = mg_GetRunningProcesses mg w"
    and remove_procs: "mg_GetRunningProcesses mg (snd (mg_Remove mg t w)) = (mg_GetRunningProcesses mg w)(task_ID t := None)"
begin

definition procs :: "'w \<Rightarrow> string \<rightharpoonup> int" where
  "procs = mg_GetRunningProcesses mg"

lemmas procs_simps = prepare_procs network_procs cleanup_procs file_procs kill_procs forget_procs remove_procs
lemmas procs_laws = procs_simps [folded procs_def]

text \<open>The invariant of one controller registered for \<open>i\<close>: its flags are ordered and a started VM is tracked.\<close>

definition ctl_inv :: "string \<Rightarrow> controller \<Rightarrow> 'w \<Rightarrow> bool" where
  "ctl_inv i c w \<longleftrightarrow> api_ID (c_task c) = i \<and>
     (c_prepared c \<longrightarrow> (\<exists>t. c_internalTask c = Some t \<and> task_ID t = i)) \<and>
     (c_started c \<longrightarrow> c_prepared c \<and> procs w i \<noteq> None)"

definition exec_inv :: "executor \<times> 'w \<Rightarrow> bool" where
  "exec_inv s \<longleftrightarrow> (\<forall>i c. ex_controllers (fst s) i = Some c \<longrightarrow> ctl_inv i c (snd s))"

text \<open>What an operation of the controller for \<open>i\<close> owes: the invariant, and no change of other tasks' VMs.\<close>

definition good_op :: "(controller \<Rightarrow> 'w \<Rightarrow> (controller_error, unit) res \<times> controller \<times> 'w) \<Rightarrow> bool" where
  "good_op f \<longleftrightarrow> (\<forall>i c w r c' w'. ctl_inv i c w \<longrightarrow> f c w = (r, c', w') \<longrightarrow>
     ctl_inv i c' w' \<and> (\<forall>j. j \<noteq> i \<longrightarrow> procs w' j = procs w j))"

lemma good_opI:
  assumes "\<And>i c w r c' w'. ctl_inv i c w \<Longrightarrow> f c w = (r, c', w') \<Longrightarrow>
    ctl_inv i c' w' \<and> (\<forall>j. j \<noteq> i \<longrightarrow> procs w' j = procs w j)"
  shows "good_op f"
  using assms by (simp add: good_op_def)

lemma inject_procs: "procs (inject mg i t w) = procs w"
  by (auto simp: inject_def procs_def Let_def secrets_procs configs_procs split: option.splits)

lemma good_Prepare: "good_op (ctl_Prepare mg)"
proof (rule good_opI)
  fix i c w r c' w'
  assume inv: "ctl_inv i c w" and p: "ctl_Prepare mg c w = (r, c', w')"
  show "ctl_inv i c' w' \<and> (\<forall>j. j \<noteq> i \<longrightarrow> procs w' j = procs w j)"
  proof (cases "c_prepared c")
    case True
    then show ?thesis using inv p by (simp add: ctl_Prepare_def)
  next
    case False
    obtain r1 w1 where a: "mg_Prepare mg (convertTask (c_task c)) w = (r1, w1)" by (rule prod.exhaust)
    have w1: "procs w1 = procs w" using prepare_procs [of "convertTask (c_task c)" w] a by (simp add: procs_def)
    show ?thesis
    proof (cases r1)
      case (Inl e)
      then show ?thesis using inv p a False w1 by (auto simp: ctl_Prepare_def ctl_inv_def)
    next
      case (Inr t1)
      obtain r2 w2 where b: "mg_PrepareNetwork mg t1 w1 = (r2, w2)" by (rule prod.exhaust)
      have w2: "procs w2 = procs w" using network_procs [of t1 w1] b w1 by (simp add: procs_def)
      show ?thesis
      proof (cases r2)
        case (Inl e)
        then show ?thesis using inv p a b Inr False w2 by (auto simp: ctl_Prepare_def ctl_inv_def)
      next
        case (Inr t2)
        have "task_ID t2 = api_ID (c_task c)"
          using prepare_id a \<open>r1 = Inr t1\<close> network_id b Inr by fastforce
        then show ?thesis
          using inv p a b Inr \<open>r1 = Inr t1\<close> False w2 by (auto simp: ctl_Prepare_def ctl_inv_def inject_procs)
      qed
    qed
  qed
qed

lemma good_Start: "good_op (ctl_Start mg)"
proof (rule good_opI)
  fix i c w r c' w'
  assume inv: "ctl_inv i c w" and p: "ctl_Start mg c w = (r, c', w')"
  show "ctl_inv i c' w' \<and> (\<forall>j. j \<noteq> i \<longrightarrow> procs w' j = procs w j)"
  proof (cases "c_prepared c \<and> \<not> c_started c")
    case False
    then show ?thesis using inv p by (auto simp: ctl_Start_def split: if_splits)
  next
    case True
    then obtain t where t: "c_internalTask c = Some t" "task_ID t = i" using inv by (auto simp: ctl_inv_def)
    show ?thesis
    proof (cases "Translate (c_trans c) t")
      case (Inl e)
      then show ?thesis using inv p True t by (auto simp: ctl_Start_def)
    next
      case (Inr cfg)
      obtain r1 w1 where a: "mg_Start mg t cfg w = (r1, w1)" by (rule prod.exhaust)
      have "\<forall>j. j \<noteq> i \<longrightarrow> procs w1 j = procs w j" using start_others [OF a] t by (simp add: procs_def)
      moreover have "r1 = Inr () \<Longrightarrow> procs w1 i \<noteq> None" using start_tracks a t by (auto simp: procs_def)
      ultimately show ?thesis
        using inv p True t Inr a by (cases r1) (auto simp: ctl_Start_def ctl_inv_def)
    qed
  qed
qed

lemma stop_keeps_others: "mg_Stop mg t w = (r, w') \<Longrightarrow> j \<noteq> task_ID t \<Longrightarrow> procs w' j = procs w j"
  by (cases r) (auto simp: procs_def stop_ok stop_err)

lemma stop_err_keeps: "mg_Stop mg t w = (Inl err, w') \<Longrightarrow> procs w' = procs w"
  by (simp add: procs_def stop_err)

lemma cleanup_keeps: "procs (mg_CleanupNetwork mg t w) = procs w"
  by (simp add: procs_def cleanup_procs)

lemma good_Shutdown: "good_op (ctl_Shutdown mg)"
proof (rule good_opI)
  fix i c w r c' w'
  assume inv: "ctl_inv i c w" and p: "ctl_Shutdown mg c w = (r, c', w')"
  obtain r1 w1 where a: "mg_Stop mg (convertTask (c_task c)) w = (r1, w1)" by (rule prod.exhaust)
  show "ctl_inv i c' w' \<and> (\<forall>j. j \<noteq> i \<longrightarrow> procs w' j = procs w j)"
    using inv p a stop_keeps_others [OF a] stop_err_keeps [of "convertTask (c_task c)" w _ w1]
    by (cases r1) (auto simp: ctl_Shutdown_def ctl_inv_def cleanup_keeps Let_def split: if_splits)
qed

lemma good_Terminate: "good_op (ctl_Terminate mg)"
proof (rule good_opI)
  fix i c w r c' w'
  assume inv: "ctl_inv i c w" and p: "ctl_Terminate mg c w = (r, c', w')"
  obtain r1 w1 where a: "mg_Stop mg (convertTask (c_task c)) w = (r1, w1)" by (rule prod.exhaust)
  show "ctl_inv i c' w' \<and> (\<forall>j. j \<noteq> i \<longrightarrow> procs w' j = procs w j)"
    using inv p a stop_keeps_others [OF a] stop_err_keeps [of "convertTask (c_task c)" w _ w1]
    by (cases r1) (auto simp: ctl_Terminate_def ctl_inv_def split: if_splits)
qed

lemma good_Update: "api_ID t = i \<Longrightarrow> ctl_inv i c w \<Longrightarrow> ctl_inv i (ctl_Update t c) w"
  by (auto simp: ctl_Update_def ctl_inv_def)

text \<open>An operation on one registered controller keeps the invariant of all.\<close>

lemma on_controller_inv:
  assumes "good_op f" and "exec_inv s"
  shows "exec_inv (on_controller f i s)"
proof (cases s)
  case (Pair e w)
  show ?thesis
  proof (cases "ex_controllers e i")
    case None
    then show ?thesis using assms Pair by (simp add: on_controller_def)
  next
    case (Some c)
    obtain r c' w' where a: "f c w = (r, c', w')" by (rule prod_cases3)
    have "ctl_inv i c w" using assms(2) Some Pair by (auto simp: exec_inv_def)
    then have "ctl_inv i c' w'" "\<forall>j. j \<noteq> i \<longrightarrow> procs w' j = procs w j"
      using assms(1) a unfolding good_op_def by blast+
    then show ?thesis
      using assms(2) Some Pair a by (auto simp: on_controller_def exec_inv_def ctl_inv_def)
  qed
qed

end

subsection \<open>The invariant over runs\<close>

context vm_managers begin

lemma remove_result:
  assumes "ctl_Remove mg c w = (r, c', w')"
  shows "r = Inr () \<and> \<not> c_started c' \<and> \<not> c_prepared c' \<and> c_task c' = c_task c \<and>
    procs w' = (procs w)(api_ID (c_task c) := None)"
  using assms by (auto simp: ctl_Remove_def Let_def sync_on_remove_nothing procs_def procs_simps)

lemma good_Remove: "good_op (ctl_Remove mg)"
proof (rule good_opI)
  fix i c w r c' w'
  assume "ctl_inv i c w" and "ctl_Remove mg c w = (r, c', w')"
  then show "ctl_inv i c' w' \<and> (\<forall>j. j \<noteq> i \<longrightarrow> procs w' j = procs w j)"
    using remove_result [of c w r c' w'] by (auto simp: ctl_inv_def)
qed

lemma drop_controller_inv: "exec_inv (e, w) \<Longrightarrow> exec_inv (e\<lparr>ex_controllers := (ex_controllers e)(i := None)\<rparr>, w)"
  by (auto simp: exec_inv_def)

lemma exec_Remove_inv: "exec_inv s \<Longrightarrow> exec_inv (exec_Remove mg i s)"
  using on_controller_inv [OF good_Remove, of s i]
  by (cases "on_controller (ctl_Remove mg) i s") (auto simp: exec_Remove_def drop_controller_inv)

lemma exec_Update_inv:
  assumes "exec_inv s"
  shows "exec_inv (exec_Update t s)"
  using assms good_Update [of t "api_ID t"]
  by (cases s) (auto simp: exec_Update_def on_controller_def exec_inv_def split: option.splits)

lemma exec_Controller_inv:
  assumes "exec_inv (e, w)"
  shows "exec_inv (snd (exec_Controller t e), w)"
  using assms
  by (auto simp: exec_Controller_def exec_inv_def ctl_inv_def NewController_def Let_def split: option.splits sum.splits)

text \<open>The cleanup forgets the orphans among the keys and nothing else.\<close>

lemma cleanup_orphans_procs:
  "procs (cleanup_orphans mg e ps ks w) =
     (\<lambda>i. if i \<in> set ks \<and> ps i \<noteq> None \<and> ex_controllers e i = None then None else procs w i)"
proof (induction ks arbitrary: w)
  case Nil
  then show ?case by simp
next
  case (Cons k ks)
  show ?case
    by (cases "ps k"; cases "ex_controllers e k")
      (auto simp: Cons Let_def fun_eq_iff procs_laws)
qed

lemma cleanup_procs_eq:
  assumes "key_order (procs w) ks"
  shows "procs (cleanupOrphanedVMs mg ks e w) = procs w |` dom (ex_controllers e)"
proof
  fix i
  have "i \<in> set ks \<longleftrightarrow> procs w i \<noteq> None" using key_order_mem [OF assms, of i] by simp
  then show "procs (cleanupOrphanedVMs mg ks e w) i = (procs w |` dom (ex_controllers e)) i"
    by (cases "ex_controllers e i")
      (auto simp: cleanupOrphanedVMs_def cleanup_orphans_procs procs_def [symmetric] restrict_map_def)
qed

lemma cleanup_inv:
  assumes "exec_inv (e, w)" and "key_order (procs w) ks"
  shows "exec_inv (e, cleanupOrphanedVMs mg ks e w)"
  using assms(1) by (auto simp: exec_inv_def ctl_inv_def cleanup_procs_eq [OF assms(2)] restrict_map_def)

lemma step_inv: "exec_step mg s a s' \<Longrightarrow> exec_inv s \<Longrightarrow> exec_inv s'"
proof (induction rule: exec_step.induct)
  case (step_cleanup w ks e)
  then show ?case by (auto simp: cleanup_inv procs_def)
qed (auto simp: exec_Controller_inv exec_Update_inv exec_Remove_inv on_controller_inv
      good_Prepare good_Start good_Shutdown good_Terminate)

lemma run_inv: "exec_run mg s ops s' \<Longrightarrow> exec_inv s \<Longrightarrow> exec_inv s'"
  by (induction rule: exec_run.induct) (auto dest: step_inv)

lemma empty_inv: "ex_controllers e = Map.empty \<Longrightarrow> exec_inv (e, w)"
  by (simp add: exec_inv_def)

lemma started_tracked:
  assumes "exec_run mg (e0, w0) ops (e, w)" and "ex_controllers e0 = Map.empty"
    and "ex_controllers e i = Some c" and "c_started c"
  shows "c_prepared c \<and> api_ID (c_task c) = i \<and> (\<exists>t. c_internalTask c = Some t \<and> task_ID t = i) \<and>
    mg_GetRunningProcesses mg w i \<noteq> None"
  using run_inv [OF assms(1) empty_inv [OF assms(2)]] assms(3,4)
  by (auto simp: exec_inv_def ctl_inv_def procs_def)

text \<open>After the removal of a registered task its VM is gone and other tasks are untouched.\<close>

lemma remove_isolated:
  assumes "exec_inv (e, w)" and "ex_controllers e i = Some c" and "exec_step mg (e, w) (OpRemove i) (e', w')"
  shows "ex_controllers e' = (ex_controllers e)(i := None) \<and>
    mg_GetRunningProcesses mg w' = (mg_GetRunningProcesses mg w)(i := None)"
proof -
  obtain r c' w1 where a: "ctl_Remove mg c w = (r, c', w1)" by (rule prod_cases3)
  from assms(1,2) have "api_ID (c_task c) = i" by (auto simp: exec_inv_def ctl_inv_def)
  with remove_result [OF a] have "procs w1 = (procs w)(i := None)" by simp
  moreover have "(e', w') = exec_Remove mg i (e, w)" using assms(3) by (auto elim: exec_removeE)
  ultimately show ?thesis using assms(2) a by (simp add: exec_Remove_def on_controller_def procs_def)
qed

end

subsection \<open>The managers of the program\<close>

text \<open>
  The VMM manager and the host are explicit. The other managers (image, network, secret and volume
  manager) are functions on a state \<open>'x\<close> of their own; the image preparer changes the annotations of a
  task and the network manager its networks. What the host answers to the calls of the VMM manager
  may depend on that state, which \<open>om_tick\<close> advances at each such call: \<open>om_kill\<close> says whether a jailed process can
  be killed, \<open>om_unlink\<close> which files can be removed.
\<close>

record 'x other_managers =
  om_Prepare :: "task \<Rightarrow> 'x \<Rightarrow> (string, string \<rightharpoonup> string) res \<times> 'x"
  om_PrepareNetwork :: "task \<Rightarrow> 'x \<Rightarrow> (string, net_attachment list) res \<times> 'x"
  om_CleanupNetwork :: "task \<Rightarrow> 'x \<Rightarrow> 'x"
  om_secrets :: "'x secret_manager option"
  om_volumes :: "'x volume_manager option"
  om_start :: "'x \<Rightarrow> start_env"
  om_exits :: "'x \<Rightarrow> bool"
  om_outcome :: "'x \<Rightarrow> string option"
  om_now :: "'x \<Rightarrow> int"
  om_kill :: "'x \<Rightarrow> bool"
  om_unlink :: "'x \<Rightarrow> string \<Rightarrow> bool"
  om_tick :: "'x \<Rightarrow> 'x"

record 'x world =
  w_vmm :: vmm_manager
  w_host :: host
  w_other :: 'x

definition lift_other :: "('x \<Rightarrow> 'x) \<Rightarrow> 'x world \<Rightarrow> 'x world" where
  "lift_other f w = w\<lparr>w_other := f (w_other w)\<rparr>"

definition lift_task :: "('a \<Rightarrow> task) \<Rightarrow> ('x \<Rightarrow> ('e, 'a) res \<times> 'x) \<Rightarrow> 'x world \<Rightarrow> ('e, task) res \<times> 'x world" where
  "lift_task g f w = (case f (w_other w) of (r, x) \<Rightarrow> (map_sum id g r, w\<lparr>w_other := x\<rparr>))"

definition lift_vmm ::
    "'x other_managers \<Rightarrow> (vmm_manager \<Rightarrow> host \<Rightarrow> 'r \<times> vmm_manager \<times> host) \<Rightarrow> 'x world \<Rightarrow> 'r \<times> 'x world" where
  "lift_vmm om f w =
     (case f (w_vmm w) (w_host w) of
        (r, v, h) \<Rightarrow> (r, w\<lparr>w_vmm := v, w_host := h, w_other := om_tick om (w_other w)\<rparr>))"

definition program_managers :: "'x other_managers \<Rightarrow> 'x world managers" where
  "program_managers om = \<lparr>
     mg_Prepare = (\<lambda>t. lift_task (\<lambda>a. t\<lparr>task_Annotations := a\<rparr>) (om_Prepare om t)),
     mg_PrepareNetwork = (\<lambda>t. lift_task (\<lambda>ns. t\<lparr>task_Networks := ns\<rparr>) (om_PrepareNetwork om t)),
     mg_CleanupNetwork = (\<lambda>t. lift_other (om_CleanupNetwork om t)),
     mg_secrets = map_option (\<lambda>sm. \<lparr>
        sm_InjectSecrets = (\<lambda>i ss p. lift_other (sm_InjectSecrets sm i ss p)),
        sm_InjectConfigs = (\<lambda>i cs p. lift_other (sm_InjectConfigs sm i cs p))\<rparr>) (om_secrets om),
     mg_volumes = map_option (\<lambda>vm. \<lparr>
        vm_mountRootfs = (\<lambda>p w. case vm_mountRootfs vm p (w_other w) of (r, x) \<Rightarrow> (r, w\<lparr>w_other := x\<rparr>)),
        vm_unmountRootfs = (\<lambda>p. lift_other (vm_unmountRootfs vm p)),
        vm_HasVolume = (\<lambda>n w. vm_HasVolume vm n (w_other w)),
        vm_UnmountVolume = (\<lambda>n d t. lift_other (vm_UnmountVolume vm n d t))\<rparr>) (om_volumes om),
     mg_RemoveFile = (\<lambda>p w. if om_unlink om (w_other w) p then w\<lparr>w_host := host_unlink p (w_host w)\<rparr> else w),
     mg_Start = (\<lambda>t cfg w. lift_vmm om (vmm_Start (om_start om (w_other w)) t cfg) w),
     mg_Stop = (\<lambda>t w. lift_vmm om (vmm_Stop (om_exits om (w_other w)) t) w),
     mg_Wait = (\<lambda>t w. Inr (vmm_Wait (om_outcome om (w_other w)) (om_now om (w_other w)) t (w_vmm w))),
     mg_Remove = (\<lambda>t w. lift_vmm om (vmm_Remove (om_kill om (w_other w)) (om_unlink om (w_other w)) t) w),
     mg_GetPID = (\<lambda>i w. GetPID i (w_vmm w)),
     mg_IsRunning = (\<lambda>i w. IsRunning i (w_vmm w) (w_host w)),
     mg_GetRunningProcesses = (\<lambda>w. GetRunningProcesses (w_vmm w)),
     mg_KillProcess = (\<lambda>pid w. w\<lparr>w_host := host_kill pid (w_host w)\<rparr>),
     mg_RemoveProcess = (\<lambda>i w. w\<lparr>w_vmm := RemoveProcess i (w_vmm w)\<rparr>)\<rparr>"

lemma program_managers_sel [simp]:
  "mg_Prepare (program_managers om) t = lift_task (\<lambda>a. t\<lparr>task_Annotations := a\<rparr>) (om_Prepare om t)"
  "mg_PrepareNetwork (program_managers om) t = lift_task (\<lambda>ns. t\<lparr>task_Networks := ns\<rparr>) (om_PrepareNetwork om t)"
  "mg_CleanupNetwork (program_managers om) t = lift_other (om_CleanupNetwork om t)"
  "mg_RemoveFile (program_managers om) p w = (if om_unlink om (w_other w) p then w\<lparr>w_host := host_unlink p (w_host w)\<rparr> else w)"
  "mg_Start (program_managers om) t cfg w = lift_vmm om (vmm_Start (om_start om (w_other w)) t cfg) w"
  "mg_Stop (program_managers om) t w = lift_vmm om (vmm_Stop (om_exits om (w_other w)) t) w"
  "mg_Remove (program_managers om) t w = lift_vmm om (vmm_Remove (om_kill om (w_other w)) (om_unlink om (w_other w)) t) w"
  "mg_GetPID (program_managers om) i w = GetPID i (w_vmm w)"
  "mg_IsRunning (program_managers om) i w = IsRunning i (w_vmm w) (w_host w)"
  "mg_GetRunningProcesses (program_managers om) w = v_processes (w_vmm w)"
  "mg_KillProcess (program_managers om) pid w = w\<lparr>w_host := host_kill pid (w_host w)\<rparr>"
  "mg_RemoveProcess (program_managers om) i w = w\<lparr>w_vmm := untrack i (w_vmm w)\<rparr>"
  by (simp_all add: program_managers_def GetRunningProcesses_def RemoveProcess_def)

lemma program_secrets [simp]:
  "mg_secrets (program_managers om) = None \<longleftrightarrow> om_secrets om = None"
  "mg_secrets (program_managers om) = Some sm \<longleftrightarrow> (\<exists>s. om_secrets om = Some s \<and> sm = \<lparr>
        sm_InjectSecrets = (\<lambda>i ss p. lift_other (sm_InjectSecrets s i ss p)),
        sm_InjectConfigs = (\<lambda>i cs p. lift_other (sm_InjectConfigs s i cs p))\<rparr>)"
  by (auto simp: program_managers_def)

lemma map_sum_id_Inr [simp]: "map_sum id g r = Inr y \<longleftrightarrow> (\<exists>x. r = Inr x \<and> y = g x)"
  by (cases r) auto

lemma vmm_Start_others:
  "vmm_Start env t cfg v h = (r, v', h') \<Longrightarrow> j \<noteq> task_ID t \<Longrightarrow> v_processes v' j = v_processes v j"
  by (auto simp: vmm_Start_def startDirect_def startWithJailer_def Let_def track_def
      split: if_splits option.splits sum.splits prod.splits)

lemma vmm_Start_tracks: "vmm_Start env t cfg v h = (Inr (), v', h') \<Longrightarrow> v_processes v' (task_ID t) \<noteq> None"
  by (auto simp: vmm_Start_def startDirect_def startWithJailer_def Let_def track_def
      split: if_splits option.splits sum.splits prod.splits)

lemma vmm_Stop_procs:
  "vmm_Stop ex t v h = (Inr (), v', h') \<Longrightarrow> v_processes v' = (v_processes v)(task_ID t := None)"
  "vmm_Stop ex t v h = (Inl e, v', h') \<Longrightarrow> v' = v"
  by (auto simp: vmm_Stop_def Let_def untrack_def split: option.splits)

interpretation vmm: vm_managers "program_managers om" for om
proof (unfold_locales, goal_cases)
  case (1 t w t' w')
  then show ?case by (auto simp: lift_task_def split: prod.splits sum.splits)
next
  case (2 t w t' w')
  then show ?case by (auto simp: lift_task_def split: prod.splits)
next
  case (11 t cfg w r w' j)
  then show ?case
    by (auto simp: lift_vmm_def vmm_Start_others split: prod.splits)
next
  case (12 t cfg w w')
  then show ?case
    by (auto simp: lift_vmm_def dest: vmm_Start_tracks split: prod.splits)
next
  case (13 t w w')
  then show ?case
    by (auto simp: lift_vmm_def vmm_Stop_procs split: prod.splits)
next
  case (14 t w err w')
  then show ?case
    by (auto simp: lift_vmm_def dest: vmm_Stop_procs split: prod.splits)
qed (auto simp: lift_task_def lift_other_def lift_vmm_def untrack_def vmm_Remove_def Let_def split: prod.splits)

text \<open>A configuration for examples.\<close>

definition example_exec_config :: exec_config where
  "example_exec_config = \<lparr>ec_FirecrackerPath = ''fc'', ec_KernelPath = ''/k'', ec_RootfsDir = ''/img'', ec_SocketDir = ''/run'',
     ec_DefaultVCPUs = 1, ec_DefaultMemoryMB = 512, ec_BridgeName = ''br'', ec_Subnet = ''10.0.0.0/24'',
     ec_BridgeIP = ''10.0.0.1/24'', ec_IPMode = ''static'', ec_NATEnabled = None, ec_VXLANEnabled = False,
     ec_VXLANPeers = [], ec_ReservedCPUs = 0, ec_ReservedMemoryMB = 0, ec_MaxImageAgeDays = 0, ec_EnableJailer = False,
     ec_JailerPath = [], ec_JailerUID = 0, ec_JailerGID = 0, ec_JailerChrootDir = [], ec_ParentCgroup = [],
     ec_CgroupVersion = [], ec_EnableCgroups = False\<rparr>"

end
