(* ===== verification/Swarm_Resources.thy ===== *)
theory Swarm_Resources
  imports Swarm_Executor "HOL-Library.Log_Nat" "HOL-Library.Signed_Division"
begin

text \<open>
  The resources a node reports to SwarmKit, from \<open>pkg/swarmkit/executor.go\<close>: the number of CPUs, the
  memory read from \<open>/proc/meminfo\<close>, and the node description. Memory sizes are 64-bit integers:
  products wrap around, divisions truncate towards zero.
\<close>

definition wrap64 :: "int \<Rightarrow> int" where
  "wrap64 n = signed_take_bit 63 n"

lemma wrap64_id: "- 9223372036854775808 \<le> n \<Longrightarrow> n < 9223372036854775808 \<Longrightarrow> wrap64 n = n"
  by (simp add: wrap64_def signed_take_bit_int_eq_self)

subsection \<open>CPUs\<close>

definition reserved_cpus :: "int \<Rightarrow> int \<Rightarrow> int" where
  "reserved_cpus cfg totalCPUs =
     (let r = (if cfg = 0 then max 1 (totalCPUs div 10) else cfg)
      in if totalCPUs \<le> r then (if totalCPUs - 1 < 1 then 1 else totalCPUs - 1) else r)"

definition getCPUs :: "exec_config \<Rightarrow> int \<Rightarrow> int" where
  "getCPUs c totalCPUs = wrap64 ((totalCPUs - reserved_cpus (ec_ReservedCPUs c) totalCPUs) * 1000000000)"

subsection \<open>Memory\<close>

text \<open>
  \<open>parseMeminfoLine\<close>: the first run of digits of the line as an \<open>int64\<close>, zero when there is none
  or it is out of range.
\<close>

definition parseMeminfoLine :: "string \<Rightarrow> int" where
  "parseMeminfoLine line =
     (let ds = takeWhile is_digit (dropWhile (\<lambda>c. \<not> is_digit c) line)
      in if ds = [] \<or> 2 ^ 63 \<le> dec_val ds then 0 else int (dec_val ds))"

text \<open>
  The scan over the lines: the last values of the two fields, and whether the loop was left because
  both are positive.
\<close>

definition meminfo_line :: "string \<Rightarrow> int \<times> int \<Rightarrow> int \<times> int" where
  "meminfo_line line s =
     (if 10 < length line then
        (if take 9 line = ''MemTotal:'' then (parseMeminfoLine line, snd s)
         else if take 9 line = ''MemAvaila'' then (fst s, parseMeminfoLine line)
         else s)
      else s)"

fun scan_meminfo :: "string list \<Rightarrow> int \<times> int \<Rightarrow> bool \<times> int \<times> int" where
  "scan_meminfo [] s = (False, s)"
| "scan_meminfo (l # ls) s =
     (let s' = meminfo_line l s in if 0 < fst s' \<and> 0 < snd s' then (True, s') else scan_meminfo ls s')"

text \<open>
  The product of a \<open>float64\<close> with the constant 0.9, which is 8106479329266893 / 2^53: conversion
  and product are rounded to 53 significant bits, ties to even, and the result is truncated.
\<close>

definition round53 :: "nat \<Rightarrow> nat" where
  "round53 m =
     (let s = floorlog 2 m - 53; q = m div 2 ^ s; r = m mod 2 ^ s
      in if s = 0 then m
         else (if 2 ^ (s - 1) < r \<or> r = 2 ^ (s - 1) \<and> odd q then q + 1 else q) * 2 ^ s)"

definition ninety_percent :: "int \<Rightarrow> int" where
  "ninety_percent n = int (round53 (round53 (nat n) * 8106479329266893) div 2 ^ 53)"

text \<open>
  \<open>readMeminfo\<close>: \<open>None\<close> when the file cannot be opened, otherwise the lines the scanner yields and
  whether it then fails.
\<close>

definition readMeminfo :: "(string list \<times> bool) option \<Rightarrow> int" where
  "readMeminfo file' =
     (case file' of
        None \<Rightarrow> 0
      | Some (ls, fails) \<Rightarrow>
          (case scan_meminfo ls (0, 0) of
             (left, memTotal, memAvailable) \<Rightarrow>
               if fails \<and> \<not> left then 0
               else wrap64 ((if memAvailable = 0 \<and> 0 < memTotal then ninety_percent memTotal else memAvailable) * 1024)))"

definition reserved_memory :: "int \<Rightarrow> int \<Rightarrow> int" where
  "reserved_memory cfgMB totalMemory =
     (let mb = (if cfgMB = 0 then max 512 (((totalMemory sdiv 1024) sdiv 1024) sdiv 10) else cfgMB);
          r = wrap64 (mb * 1024 * 1024)
      in if totalMemory \<le> r then max (512 * 1024 * 1024) (totalMemory sdiv 10) else r)"

definition getMemory :: "exec_config \<Rightarrow> (string list \<times> bool) option \<Rightarrow> int" where
  "getMemory c file' =
     (let m = readMeminfo file'; totalMemory = (if m = 0 then 8 * 1024 * 1024 * 1024 else m)
      in wrap64 (totalMemory - reserved_memory (ec_ReservedMemoryMB c) totalMemory))"

subsection \<open>The node description\<close>

definition archSupported :: "string \<Rightarrow> bool" where
  "archSupported arch \<longleftrightarrow> arch = ''amd64'' \<or> arch = ''arm64''"

record node_description =
  nd_Hostname :: string
  nd_Architecture :: string
  nd_OS :: string
  nd_NanoCPUs :: int
  nd_MemoryBytes :: int
  nd_Firecracker :: bool

text \<open>The host's answers: name, architecture, system, CPUs, meminfo, presence of \<open>/dev/kvm\<close>.\<close>

record node_env =
  ne_Hostname :: "string option"
  ne_Arch :: string
  ne_OS :: string
  ne_NumCPU :: int
  ne_Meminfo :: "(string list \<times> bool) option"
  ne_Kvm :: bool

definition hostname :: "string option \<Rightarrow> string" where
  "hostname h = (case h of Some n \<Rightarrow> n | None \<Rightarrow> ''localhost'')"

definition exec_Describe :: "node_env \<Rightarrow> executor \<Rightarrow> node_description" where
  "exec_Describe env e = \<lparr>
     nd_Hostname = hostname (ne_Hostname env),
     nd_Architecture = ne_Arch env,
     nd_OS = ne_OS env,
     nd_NanoCPUs = getCPUs (ex_config e) (ne_NumCPU env),
     nd_MemoryBytes = getMemory (ex_config e) (ne_Meminfo env),
     nd_Firecracker = (ne_Kvm env \<and> archSupported (ne_Arch env))\<rparr>"

subsection \<open>Bounds\<close>

text \<open>
  A node with at least two CPUs reports at least one and fewer than it has, whatever
  non-negative reservation is configured; a node with a single CPU reports none.
\<close>

theorem getCPUs_bounds:
  assumes "0 \<le> ec_ReservedCPUs c" and "1 \<le> n" and "n \<le> 2 ^ 31"
  shows "0 \<le> getCPUs c n \<and> getCPUs c n \<le> (n - 1) * 1000000000 \<and> (1 < n \<longrightarrow> 1000000000 \<le> getCPUs c n) \<and>
    getCPUs c 1 = 0"
proof -
  have r: "1 \<le> reserved_cpus (ec_ReservedCPUs c) m" "1 < m \<Longrightarrow> reserved_cpus (ec_ReservedCPUs c) m \<le> m - 1"
    "m = 1 \<Longrightarrow> reserved_cpus (ec_ReservedCPUs c) m = 1" if "1 \<le> m" for m
    using assms(1) that by (auto simp: reserved_cpus_def Let_def)
  let ?a = "\<lambda>m. m - reserved_cpus (ec_ReservedCPUs c) m"
  have a: "0 \<le> ?a m" if "1 \<le> m" for m using r [OF that] that by (cases "m = 1") auto
  have w: "wrap64 (x * 1000000000) = x * 1000000000" if "0 \<le> x" "x \<le> 2147483648" for x
    using that by (intro wrap64_id) simp_all
  have e: "getCPUs c m = ?a m * 1000000000" if "1 \<le> m" "m \<le> 2147483648" for m
    using a [OF that(1)] r(1) [OF that(1)] that(2) unfolding getCPUs_def by (intro w) simp_all
  show ?thesis
    using assms(2,3) r [OF assms(2)] r(3) [of 1] e [of n] e [of 1] by (cases "n = 1") simp_all
qed

theorem getCPUs_bounds_witness:
  "\<exists>c. ec_ReservedCPUs c = 64 \<and> getCPUs c 4 = 1000000000 \<and> getCPUs c 1 = 0"
proof -
  let ?c = "example_exec_config\<lparr>ec_ReservedCPUs := 64\<rparr>"
  have "getCPUs ?c 4 = 1000000000" by (simp add: getCPUs_def reserved_cpus_def wrap64_id)
  then show ?thesis using getCPUs_bounds [of ?c 4] by (intro exI [of _ ?c]) simp
qed

lemma sdiv_nonneg: "0 \<le> (a :: int) \<Longrightarrow> 0 < b \<Longrightarrow> a sdiv b = a div b"
  by (cases "a = 0") (simp_all add: signed_divide_int_def)

text \<open>
  With the default reservation a node whose total memory is more than 512 MiB reports a
  positive amount below the total, and a node with at most 512 MiB reports no memory or a negative
  amount.
\<close>

theorem getMemory_default:
  assumes "ec_ReservedMemoryMB c = 0" and "readMeminfo f = m" and "0 < m" and "m < 2 ^ 62"
  shows "getMemory c f < m \<and> (0 < getMemory c f \<longleftrightarrow> 512 * 1024 * 1024 < m)"
proof -
  define M where "M = (512 * 1024 * 1024 :: int)"
  define q where "q = m div 10"
  define mb where "mb = max 512 (m div 1024 div 1024 div 10) * 1024 * 1024"
  define r where "r = reserved_memory 0 m"
  have m: "m < 4611686018427387904" using assms(4) by simp
  have "m div 1024 div 1024 div 10 * 1024 * 1024 \<le> q" by (simp add: q_def)
  then have mb: "M \<le> mb" "mb \<le> max M q" by (auto simp: mb_def M_def max_def)
  have q: "0 \<le> q" "q < m" using assms(3) by (simp_all add: q_def)
  have w: "wrap64 x = x" if "- M \<le> x" "x \<le> max M m" for x
    using that m by (intro wrap64_id) (auto simp: M_def max_def split: if_splits)
  have d: "m sdiv 1024 = m div 1024" "m sdiv 10 = q" using assms(3) by (simp_all add: sdiv_nonneg q_def)
  have d': "(m div 1024) sdiv 1024 = m div 1024 div 1024" using assms(3) by (simp add: sdiv_nonneg)
  have d'': "(m div 1024 div 1024) sdiv 10 = m div 1024 div 1024 div 10"
    using assms(3) by (intro sdiv_nonneg) (simp_all add: pos_imp_zdiv_nonneg_iff)
  have "wrap64 mb = mb" using mb q by (intro w) (auto simp: M_def)
  then have "r = (if m \<le> mb then max M q else mb)"
    unfolding r_def reserved_memory_def Let_def if_P [OF refl] d d' d'' mb_def [symmetric] M_def [symmetric] by simp
  then have r: "M \<le> r" "r \<le> max M q" using mb by (auto split: if_splits)
  have "getMemory c f = wrap64 (m - r)" using assms(1-3) by (simp add: getMemory_def r_def)
  also have "\<dots> = m - r" using r q assms(3) by (intro w) (auto simp: M_def)
  finally have "getMemory c f = m - r" .
  moreover have "0 < m - r \<longleftrightarrow> M < m" using r q by (auto simp: max_def split: if_splits)
  moreover have "0 < M" by (simp add: M_def)
  ultimately show ?thesis using r by (simp add: M_def)
qed

text \<open>A line of the file as the kernel writes it: key, blanks, a decimal number, the unit.\<close>

definition kernel_line :: "string \<Rightarrow> nat \<Rightarrow> nat \<Rightarrow> string" where
  "kernel_line key blanks n = key @ replicate blanks (CHR '' '') @ dec_of_nat n @ '' kB''"

lemma parse_kernel_line:
  assumes "\<forall>c \<in> set key. \<not> is_digit c" and "n < 2 ^ 63"
  shows "parseMeminfoLine (kernel_line key b n) = int n"
proof -
  have "\<not> is_digit CHR '' ''" by (simp add: is_digit_def)
  then have "dropWhile (\<lambda>c. \<not> is_digit c) (kernel_line key b n) = dropWhile (\<lambda>c. \<not> is_digit c) (dec_of_nat n @ '' kB'')"
    using assms(1) dropWhile_append2 [of "replicate b (CHR '' '')" "\<lambda>c. \<not> is_digit c"]
    by (simp add: kernel_line_def dropWhile_append2)
  also have "\<dots> = dec_of_nat n @ '' kB''"
    using dec_of_nat_digits [of "hd (dec_of_nat n)" n] by (cases "dec_of_nat n") auto
  finally have "takeWhile is_digit (dropWhile (\<lambda>c. \<not> is_digit c) (kernel_line key b n)) = dec_of_nat n"
    using \<open>\<not> is_digit CHR '' ''\<close> by (simp add: takeWhile_append2 dec_of_nat_digits)
  then show ?thesis using assms(2) by (simp add: parseMeminfoLine_def)
qed

lemma scan_skips:
  assumes "list_all (\<lambda>l. take 9 l \<noteq> ''MemTotal:'' \<and> take 9 l \<noteq> ''MemAvaila'') ls" and "\<not> (0 < fst s \<and> 0 < snd s)"
  shows "scan_meminfo (ls @ ls') s = scan_meminfo ls' s"
  using assms by (induction ls) (auto simp: meminfo_line_def Let_def)

lemma key_digits: "\<forall>c \<in> set ''MemTotal:''. \<not> is_digit c" "\<forall>c \<in> set ''MemAvailable:''. \<not> is_digit c"
  by (simp_all add: is_digit_def)

lemma meminfo_total: "n < 2 ^ 63 \<Longrightarrow> meminfo_line (kernel_line ''MemTotal:'' b n) s = (int n, snd s)"
  using parse_kernel_line [OF key_digits(1), of n b] by (simp add: meminfo_line_def) (simp add: kernel_line_def)

lemma meminfo_available: "n < 2 ^ 63 \<Longrightarrow> meminfo_line (kernel_line ''MemAvailable:'' b n) s = (fst s, int n)"
  using parse_kernel_line [OF key_digits(2), of n b] by (simp add: meminfo_line_def) (simp add: kernel_line_def)

text \<open>
  From a meminfo file as the kernel writes it, with any other lines around the two fields,
  the available memory is read in bytes, even when reading fails after it.
\<close>

theorem readMeminfo_kernel:
  assumes "0 < t" and "t < 2 ^ 63" and "0 < a" and "a < 2 ^ 53"
    and "list_all (\<lambda>l. take 9 l \<noteq> ''MemTotal:'' \<and> take 9 l \<noteq> ''MemAvaila'') (pre @ mid)"
  shows "readMeminfo (Some (pre @ [kernel_line ''MemTotal:'' b t] @ mid @ [kernel_line ''MemAvailable:'' b' a] @ post, fails)) =
    int a * 1024"
proof -
  have a: "a < 2 ^ 63" using assms(4) by (rule order.strict_trans) simp
  have "scan_meminfo (pre @ [kernel_line ''MemTotal:'' b t] @ mid @ [kernel_line ''MemAvailable:'' b' a] @ post) (0, 0) =
      scan_meminfo (kernel_line ''MemTotal:'' b t # mid @ [kernel_line ''MemAvailable:'' b' a] @ post) (0, 0)"
    using assms(5) scan_skips [of pre "(0, 0)"] by simp
  also have "\<dots> = scan_meminfo (mid @ [kernel_line ''MemAvailable:'' b' a] @ post) (int t, 0)"
    using assms(2) by (simp add: meminfo_total)
  also have "\<dots> = scan_meminfo (kernel_line ''MemAvailable:'' b' a # post) (int t, 0)"
    using assms(5) scan_skips [of mid "(int t, 0)"] by simp
  also have "\<dots> = (True, int t, int a)" using a assms(1,3) by (simp add: meminfo_available)
  finally show ?thesis
    using assms(1,3,4) by (simp add: readMeminfo_def) (intro wrap64_id, simp_all)
qed

theorem readMeminfo_kernel_witness:
  "readMeminfo (Some ([''SwapTotal: 0 kB''] @ [kernel_line ''MemTotal:'' 7 1000000] @ [''MemFree: 5 kB''] @
     [kernel_line ''MemAvailable:'' 4 600000] @ [], True)) = 614400000"
  using readMeminfo_kernel [of 1000000 600000 "[''SwapTotal: 0 kB'']" "[''MemFree: 5 kB'']" 7 4 "[]" True] by simp

theorem getMemory_default_witness:
  "\<exists>c f. readMeminfo f = 102400000 \<and> \<not> 0 < getMemory c f"
proof -
  let ?f = "Some ([] @ [kernel_line ''MemTotal:'' 7 200000] @ [] @ [kernel_line ''MemAvailable:'' 4 100000] @ [], True)"
  let ?c = "example_exec_config\<lparr>ec_ReservedCPUs := 64\<rparr>"
  have "scan_meminfo ([] @ [kernel_line ''MemTotal:'' 7 200000] @ [] @ [kernel_line ''MemAvailable:'' 4 100000] @ []) (0, 0) =
      (True, 200000, 100000)"
    by (simp add: meminfo_total meminfo_available)
  then have "readMeminfo ?f = 102400000" by (simp add: readMeminfo_def wrap64_id)
  moreover from getMemory_default [of ?c ?f, OF _ this] have "\<not> 0 < getMemory ?c ?f" by (simp add: example_exec_config_def)
  ultimately show ?thesis by blast
qed

end
