(* ===== verification/Swarm_Correct.thy ===== *)
theory Swarm_Correct
  imports Swarm_Executor
begin

text \<open>
  Correctness of the controllers and the executor with the program's own managers: the life cycle of
  a task, what holds of every reachable state, the removal of tasks and of orphaned VMs.
\<close>

subsection \<open>Willing hosts\<close>

text \<open>A host that starts VMs directly and whose API accepts every request.\<close>

definition willing :: "start_env \<Rightarrow> bool" where
  "willing env \<longleftrightarrow> se_mkdir env \<and> se_spawn env \<noteq> None \<and> se_socket env \<and> se_api env = (\<lambda>p d. True)"

lemma Translate_ok: "validateTaskID (task_ID t) = Inr () \<Longrightarrow> \<exists>cfg. Translate tr t = Inr cfg"
  by (simp add: Translate_def)

lemma startDirect_willing:
  assumes "willing env" and "Translate tr t = Inr cfg" and "\<not> v_useJailer v"
  obtains pid h' where "se_spawn env = Some pid" and "vmm_Start env t cfg v h = (Inr (), track (task_ID t) pid v, h')"
    and "h_alive h' = pid # h_alive h"
proof -
  obtain pid where pid: "se_spawn env = Some pid" using assms(1) by (auto simp: willing_def)
  let ?h = "h\<lparr>h_alive := pid # h_alive h, h_files := socket_path (v_socketDir v) (task_ID t) # h_files h\<rparr>"
  have api: "se_api env p d" for p d using assms(1) by (simp add: willing_def)
  have "fst (configureVM (se_api env) cfg ?h) = Inr ()" using configureVM_translated [OF assms(2), of "se_api env" ?h] api by blast
  then obtain h' where c: "configureVM (se_api env) cfg ?h = (Inr (), h')" by (metis prod.collapse)
  have "h_alive h' = pid # h_alive h" using configureVM_host(1) [of "se_api env" cfg ?h] c by simp
  moreover have "vmm_Start env t cfg v h = (Inr (), track (task_ID t) pid v, h')"
    using assms pid c by (simp add: vmm_Start_def startDirect_def willing_def Let_def)
  ultimately show ?thesis using that pid by blast
qed

text \<open>\<open>Prepare\<close> and \<open>Start\<close> of a new controller on a willing host.\<close>

lemma prepare_start:
  assumes "c_task c = t" "\<not> c_prepared c" "\<not> c_started c" and "validateTaskID (api_ID t) = Inr ()"
    and "\<not> v_useJailer (w_vmm w)"
    and "om_Prepare om (convertTask t) (w_other w) = (Inr a, x1)"
    and "om_PrepareNetwork om ((convertTask t)\<lparr>task_Annotations := a\<rparr>) x1 = (Inr ns, x2)"
    and "\<And>x. willing (om_start om x)"
  obtains c1 w1 c2 w2 pid where "ctl_Prepare (program_managers om) c w = (Inr (), c1, w1)"
    and "ctl_Start (program_managers om) c1 w1 = (Inr (), c2, w2)"
    and "c_started c2" "c_prepared c2" "c_task c2 = t" "v_processes (w_vmm w2) (api_ID t) = Some pid"
    and "pid \<in> set (h_alive (w_host w2))" "\<not> v_useJailer (w_vmm w2)"
proof -
  let ?mg = "program_managers om"
  define t2 where "t2 = (convertTask t)\<lparr>task_Annotations := a, task_Networks := ns\<rparr>"
  have t2: "task_ID t2 = api_ID t" by (simp add: t2_def)
  define c1 where "c1 = c\<lparr>c_internalTask := Some t2, c_prepared := True\<rparr>"
  define w1 where "w1 = inject ?mg (api_ID t) t2 (w\<lparr>w_other := x2\<rparr>)"
  have P: "ctl_Prepare ?mg c w = (Inr (), c1, w1)"
    using assms(1,2,6,7) by (simp add: ctl_Prepare_def lift_task_def c1_def w1_def t2_def)
  have w1: "w_vmm w1 = w_vmm w" "w_host w1 = w_host w"
    by (auto simp: w1_def inject_def lift_other_def Let_def split: option.splits)
  obtain cfg where cfg: "Translate (c_trans c) t2 = Inr cfg" using Translate_ok t2 assms(4) by metis
  have direct: "\<not> v_useJailer (w_vmm w1)" using assms(5) w1 by simp
  obtain pid h2 where pid: "vmm_Start (om_start om (w_other w1)) t2 cfg (w_vmm w1) (w_host w1) =
      (Inr (), track (api_ID t) pid (w_vmm w1), h2)" and h2: "h_alive h2 = pid # h_alive (w_host w1)"
    using startDirect_willing [OF assms(8) cfg direct] t2 by metis
  define w2 where "w2 = w1\<lparr>w_vmm := track (api_ID t) pid (w_vmm w1), w_host := h2, w_other := om_tick om (w_other w1)\<rparr>"
  define c2 where "c2 = c1\<lparr>c_started := True\<rparr>"
  have "ctl_Start ?mg c1 w1 = (Inr (), c2, w2)"
    using assms(3) cfg pid by (simp add: ctl_Start_def c1_def c2_def w2_def lift_vmm_def)
  moreover have "c_started c2" "c_task c2 = t" "c_prepared c2" using assms(1) by (simp_all add: c2_def c1_def)
  moreover have "v_processes (w_vmm w2) (api_ID t) = Some pid" "pid \<in> set (h_alive (w_host w2))" "\<not> v_useJailer (w_vmm w2)"
    using h2 direct by (simp_all add: w2_def track_def)
  ultimately show ?thesis using that P by blast
qed

subsection \<open>Examples\<close>

text \<open>Managers that grant everything, an executor, and a task without a container.\<close>

definition example_managers :: "unit other_managers" where
  "example_managers = \<lparr>om_Prepare = (\<lambda>t x. (Inr [''rootfs'' \<mapsto> ''/r''], x)),
     om_PrepareNetwork = (\<lambda>t x. (Inr [], x)), om_CleanupNetwork = (\<lambda>t x. x), om_secrets = None, om_volumes = None,
     om_start = (\<lambda>x. example_env True), om_exits = (\<lambda>x. True), om_outcome = (\<lambda>x. None), om_now = (\<lambda>x. 0),
     om_kill = (\<lambda>x. True), om_unlink = (\<lambda>x p. True), om_tick = (\<lambda>x. x)\<rparr>"

definition example_executor :: executor where
  "example_executor = \<lparr>ex_config = example_exec_config, ex_controllers = Map.empty\<rparr>"

definition example_init :: init_env where
  "example_init = \<lparr>ie_firecracker = None, ie_jailer = None, ie_cgroupVersion = ''v2'', ie_jailerNew = False, ie_cgroupNew = False\<rparr>"

definition example_api_task :: api_task where
  "example_api_task = \<lparr>api_ID = ''t1'', api_ServiceID = [], api_NodeID = [], api_Container = None, api_Reservations = None,
     api_Networks = []\<rparr>"

definition example_world :: "unit world" where
  "example_world = \<lparr>w_vmm = example_vmm, w_host = example_host, w_other = ()\<rparr>"

lemma example_new_executor: "NewExecutor example_init (Some example_exec_config) = Inr (example_executor, example_vmm)"
  by (simp add: NewExecutor_def exec_defaults_def or_default_def example_exec_config_def NewVMMManager_def
      NewVMMManagerWithConfig_def example_vmm_def example_executor_def Let_def)

lemma example_willing: "willing (example_env True)"
  by (simp add: willing_def example_env_def)

definition example_controller :: controller where
  "example_controller = \<lparr>c_task = example_api_task, c_RootfsDir = ''/img'', c_SocketDir = ''/run'',
     c_trans = \<lparr>tt_kernelPath = ''/k'', tt_bridgeIP = ''10.0.0.1/24''\<rparr>, c_prepared = False, c_started = False,
     c_internalTask = None, c_socketPath = path_Join [''/run'', ''t1.sock'']\<rparr>"

lemma example_new_controller: "NewController ''/k'' ''10.0.0.1/24'' ''/img'' ''/run'' example_api_task = Inr example_controller"
  by (simp add: NewController_def NewTaskTranslator_def example_controller_def example_api_task_def)

lemma example_Controller:
  "exec_Controller example_api_task example_executor =
     (Inr example_controller, example_executor\<lparr>ex_controllers := [''t1'' \<mapsto> example_controller]\<rparr>)"
proof -
  have "NewController (ec_KernelPath example_exec_config) (ec_BridgeIP example_exec_config) (ec_RootfsDir example_exec_config)
      (ec_SocketDir example_exec_config) example_api_task = Inr example_controller"
    using example_new_controller by (simp add: example_exec_config_def)
  then show ?thesis by (simp add: exec_Controller_def example_executor_def example_api_task_def Let_def)
qed

text \<open>The state after the agent asked for the controller of the example task.\<close>

definition example_registered :: "executor \<times> unit world" where
  "example_registered = (example_executor\<lparr>ex_controllers := [''t1'' \<mapsto> example_controller]\<rparr>, example_world)"

lemma example_run_registered:
  "exec_run (program_managers example_managers) (example_executor, example_world) [OpController example_api_task] example_registered"
  using run_step [OF run_nil step_controller, of "program_managers example_managers" example_executor example_world example_api_task]
  by (simp add: example_Controller example_registered_def)

lemma example_grants:
  "validateTaskID (api_ID example_api_task) = Inr ()"
  "\<not> v_useJailer (w_vmm example_world)"
  "om_Prepare example_managers (convertTask example_api_task) (w_other example_world) = (Inr [''rootfs'' \<mapsto> ''/r''], ())"
  "om_PrepareNetwork example_managers ((convertTask example_api_task)\<lparr>task_Annotations := [''rootfs'' \<mapsto> ''/r'']\<rparr>) () = (Inr [], ())"
  "willing (om_start example_managers x)"
  by (simp_all add: example_world_def example_vmm_def example_managers_def example_willing, code_simp)

lemma example_started:
  "\<exists>ops e w c. exec_run (program_managers example_managers) (example_executor, example_world) ops (e, w) \<and>
     ex_controllers e ''t1'' = Some c \<and> c_started c"
proof -
  let ?mg = "program_managers example_managers" and ?s = "(example_executor, example_world)"
  have new: "c_task example_controller = example_api_task" "\<not> c_prepared example_controller" "\<not> c_started example_controller"
    by (simp_all add: example_controller_def)
  obtain c1 w1 c2 w2 where P: "ctl_Prepare ?mg example_controller example_world = (Inr (), c1, w1)"
      and S: "ctl_Start ?mg c1 w1 = (Inr (), c2, w2)" and st: "c_started c2"
    using prepare_start [OF new example_grants] by metis
  have "on_controller (ctl_Prepare ?mg) ''t1'' example_registered = (example_executor\<lparr>ex_controllers := [''t1'' \<mapsto> c1]\<rparr>, w1)"
    using P by (simp add: example_registered_def on_controller_def)
  moreover have "on_controller (ctl_Start ?mg) ''t1'' (example_executor\<lparr>ex_controllers := [''t1'' \<mapsto> c1]\<rparr>, w1) =
      (example_executor\<lparr>ex_controllers := [''t1'' \<mapsto> c2]\<rparr>, w2)"
    using S by (simp add: on_controller_def)
  ultimately have "exec_run ?mg ?s (([OpController example_api_task] @ [OpPrepare ''t1'']) @ [OpStart ''t1''])
      (example_executor\<lparr>ex_controllers := [''t1'' \<mapsto> c2]\<rparr>, w2)"
    using run_step [OF run_step [OF example_run_registered step_prepare] step_start, of "''t1''" "''t1''"] by simp
  then show ?thesis using st by fastforce
qed

subsection \<open>Reachable states\<close>

lemma NewExecutor_empty: "NewExecutor env cfg = Inr (e, v) \<Longrightarrow> ex_controllers e = Map.empty"
  by (auto simp: NewExecutor_def Let_def split: option.splits sum.splits if_splits)

text \<open>
  Claim C2. In every state that the steps of the agent and the cleanup reach from a new executor, the
  controller of a started task is prepared, holds a task with the identifier it is registered under,
  and the VMM manager tracks a process for it.
\<close>

theorem started_task_has_vm:
  assumes "NewExecutor env cfg = Inr (e0, v0)"
    and "exec_run (program_managers om) (e0, \<lparr>w_vmm = v0, w_host = h, w_other = x\<rparr>) ops (e, w)"
    and "ex_controllers e i = Some c" and "c_started c"
  shows "c_prepared c \<and> api_ID (c_task c) = i \<and> (\<exists>t. c_internalTask c = Some t \<and> task_ID t = i) \<and>
    (\<exists>pid. v_processes (w_vmm w) i = Some pid)"
  using vmm.started_tracked [OF assms(2) NewExecutor_empty [OF assms(1)] assms(3,4)] by simp

theorem started_task_has_vm_witness:
  "\<exists>ops e w c pid. exec_run (program_managers example_managers) (example_executor, example_world) ops (e, w) \<and>
     ex_controllers e ''t1'' = Some c \<and> c_started c \<and> v_processes (w_vmm w) ''t1'' = Some pid"
proof -
  let ?mg = "program_managers example_managers"
  obtain ops e w c where r: "exec_run ?mg (example_executor, example_world) ops (e, w)"
      and c: "ex_controllers e ''t1'' = Some c" "c_started c"
    using example_started by blast
  from started_task_has_vm [OF example_new_executor r [unfolded example_world_def] c]
  show ?thesis using r c by blast
qed

subsection \<open>Orphaned VMs\<close>

lemma cleanup_orphans_alive:
  "set (h_alive (w_host (cleanup_orphans (program_managers om) e ps ks w))) =
     set (h_alive (w_host w)) - {pid. \<exists>i \<in> set ks. ps i = Some pid \<and> ex_controllers e i = None}"
proof (induction ks arbitrary: w)
  case Nil
  then show ?case by simp
next
  case (Cons k ks)
  show ?case
    by (cases "ps k"; cases "ex_controllers e k")
      (auto simp: Cons Let_def host_kill_def host_unlink_def)
qed

text \<open>
  The cleanup stops exactly the orphaned VMs: in every state it leaves the VMs of
  registered tasks in the table and forgets all others, and the processes it ends are those of tasks
  without a controller.
\<close>

theorem cleanup_exact:
  assumes "exec_step (program_managers om) (e, w) OpCleanup (e', w')"
  shows "e' = e \<and> v_processes (w_vmm w') = v_processes (w_vmm w) |` dom (ex_controllers e) \<and>
    set (h_alive (w_host w')) =
      set (h_alive (w_host w)) - {pid. \<exists>i. v_processes (w_vmm w) i = Some pid \<and> ex_controllers e i = None}"
proof -
  from assms obtain ks where ks: "key_order (v_processes (w_vmm w)) ks"
      and e: "e' = e" and w': "w' = cleanupOrphanedVMs (program_managers om) ks e w"
    by (auto elim: exec_cleanupE)
  have "v_processes (w_vmm w') = v_processes (w_vmm w) |` dom (ex_controllers e)"
    using vmm.cleanup_procs_eq [of om w ks e] ks w' by (simp add: vmm.procs_def)
  moreover have "set (h_alive (w_host w')) =
      set (h_alive (w_host w)) - {pid. \<exists>i. v_processes (w_vmm w) i = Some pid \<and> ex_controllers e i = None}"
    using key_order_mem [OF ks] unfolding w' cleanupOrphanedVMs_def cleanup_orphans_alive by auto
  ultimately show ?thesis using e by simp
qed

theorem cleanup_exact_witness:
  "\<exists>e w. exec_step (program_managers example_managers)
       (example_executor, example_world\<lparr>w_vmm := track ''t9'' 7 example_vmm\<rparr>) OpCleanup (e, w) \<and>
     set (h_alive (w_host w)) = {}"
proof -
  let ?mg = "program_managers example_managers" and ?w = "example_world\<lparr>w_vmm := track ''t9'' 7 example_vmm\<rparr>"
  have "key_order (mg_GetRunningProcesses ?mg ?w) [''t9'']"
    by (simp add: key_order_def track_def example_vmm_def)
  then have st: "exec_step ?mg (example_executor, ?w) OpCleanup (example_executor, cleanupOrphanedVMs ?mg [''t9''] example_executor ?w)"
    by (rule step_cleanup)
  have "set (h_alive (w_host (cleanupOrphanedVMs ?mg [''t9''] example_executor ?w))) = {}"
    using cleanup_exact [OF st]
    by (auto simp: track_def example_vmm_def example_world_def example_host_def example_executor_def)
  then show ?thesis using st by blast
qed

subsection \<open>Removing a task\<close>

lemma vmm_Remove_host:
  "set (h_alive (snd (snd (vmm_Remove k u t v h)))) =
     set (h_alive h) - {pid. v_processes v (task_ID t) = Some pid \<and> (\<not> v_useJailer v \<or> k)}"
  "set (h_files (snd (snd (vmm_Remove k u t v h)))) =
     {f \<in> set (h_files h). \<not> (f = socket_path (v_socketDir v) (task_ID t) \<and> u f)}"
proof -
  let ?h1 = "jail_cleanup JailForceStop (task_ID t) v h"
  have 1: "h_alive ?h1 = h_alive h" "h_files ?h1 = h_files h" by (simp_all add: jail_cleanup_def Let_def)
  show "set (h_alive (snd (snd (vmm_Remove k u t v h)))) =
     set (h_alive h) - {pid. v_processes v (task_ID t) = Some pid \<and> (\<not> v_useJailer v \<or> k)}"
    by (cases "v_processes v (task_ID t)") (auto simp: vmm_Remove_def Let_def host_kill_def host_unlink_def 1)
  show "set (h_files (snd (snd (vmm_Remove k u t v h)))) =
     {f \<in> set (h_files h). \<not> (f = socket_path (v_socketDir v) (task_ID t) \<and> u f)}"
    by (cases "v_processes v (task_ID t)") (auto simp: vmm_Remove_def Let_def host_kill_def host_unlink_def 1)
qed

lemma RemoveFile_host:
  "h_alive (w_host (mg_RemoveFile (program_managers om) p w)) = h_alive (w_host w)"
  "set (h_files (w_host (mg_RemoveFile (program_managers om) p w))) =
     {f \<in> set (h_files (w_host w)). \<not> (f = p \<and> om_unlink om (w_other w) f)}"
  "w_other (mg_RemoveFile (program_managers om) p w) = w_other w"
  by (auto simp: host_unlink_def)

lemma ctl_Remove_host:
  assumes "ctl_Remove (program_managers om) c w = (r, c', w')" and "x = om_CleanupNetwork om (convertTask (c_task c)) (w_other w)"
    and "i = api_ID (c_task c)"
  shows "set (h_alive (w_host w')) =
      set (h_alive (w_host w)) - {pid. v_processes (w_vmm w) i = Some pid \<and> (\<not> v_useJailer (w_vmm w) \<or> om_kill om x)}"
    and "set (h_files (w_host w')) = {f \<in> set (h_files (w_host w)). \<not> (f = socket_path (v_socketDir (w_vmm w)) i \<and> om_unlink om x f) \<and>
      \<not> (f \<in> {path_Join [c_RootfsDir c, i @ ''.ext4''], path_Join [c_SocketDir c, i @ ''.sock'']} \<and> om_unlink om (om_tick om x) f)}"
proof -
  let ?t = "convertTask (c_task c)" and ?mg = "program_managers om"
  define w2 where "w2 = mg_CleanupNetwork ?mg ?t w"
  define w3 where "w3 = snd (mg_Remove ?mg ?t w2)"
  have 2: "w_host w2 = w_host w" "w_vmm w2 = w_vmm w" "w_other w2 = x" by (simp_all add: w2_def lift_other_def assms(2))
  have 3: "w_host w3 = snd (snd (vmm_Remove (om_kill om x) (om_unlink om x) ?t (w_vmm w) (w_host w)))" "w_other w3 = om_tick om x"
    by (simp_all add: w3_def 2 lift_vmm_def split: prod.splits)
  have w': "w' = mg_RemoveFile ?mg (path_Join [c_SocketDir c, i @ ''.sock'']) (mg_RemoveFile ?mg (path_Join [c_RootfsDir c, i @ ''.ext4'']) w3)"
    using assms(1) unfolding ctl_Remove_def Let_def sync_on_remove_nothing w3_def w2_def assms(3) convertTask_ID by simp
  show "set (h_alive (w_host w')) =
      set (h_alive (w_host w)) - {pid. v_processes (w_vmm w) i = Some pid \<and> (\<not> v_useJailer (w_vmm w) \<or> om_kill om x)}"
    unfolding w' RemoveFile_host(1) 3 vmm_Remove_host by (simp add: assms(3))
  show "set (h_files (w_host w')) = {f \<in> set (h_files (w_host w)). \<not> (f = socket_path (v_socketDir (w_vmm w)) i \<and> om_unlink om x f) \<and>
      \<not> (f \<in> {path_Join [c_RootfsDir c, i @ ''.ext4''], path_Join [c_SocketDir c, i @ ''.sock'']} \<and> om_unlink om (om_tick om x) f)}"
    unfolding w' RemoveFile_host 3 vmm_Remove_host by (auto simp: assms(3))
qed

text \<open>
  Claim C25. Removing a registered task in a reachable state deregisters the controller and makes the VMM manager
  forget its process and no other. The process is not alive afterwards, unless it is jailed and cannot be killed; other
  processes run on. Of the files, exactly those named after the task are removed, where the host lets them be
  removed: its socket and \<open><task ID>.ext4\<close> in the directory of the images. The image that was prepared for the task
  has the name of the image, not of the task, and stays, unless the two names coincide.
\<close>

theorem remove_task:
  assumes "NewExecutor env cfg = Inr (e0, v0)"
    and "exec_run (program_managers om) (e0, \<lparr>w_vmm = v0, w_host = h, w_other = x\<rparr>) ops (e, w)"
    and "ex_controllers e i = Some c" and "exec_step (program_managers om) (e, w) (OpRemove i) (e', w')"
  shows "let y = om_CleanupNetwork om (convertTask (c_task c)) (w_other w) in
    ex_controllers e' = (ex_controllers e)(i := None) \<and>
    v_processes (w_vmm w') = (v_processes (w_vmm w))(i := None) \<and>
    set (h_alive (w_host w')) =
      set (h_alive (w_host w)) - {pid. v_processes (w_vmm w) i = Some pid \<and> (\<not> v_useJailer (w_vmm w) \<or> om_kill om y)} \<and>
    set (h_files (w_host w')) = {f \<in> set (h_files (w_host w)). \<not> (f = socket_path (v_socketDir (w_vmm w)) i \<and> om_unlink om y f) \<and>
      \<not> (f \<in> {path_Join [c_RootfsDir c, i @ ''.ext4''], path_Join [c_SocketDir c, i @ ''.sock'']} \<and> om_unlink om (om_tick om y) f)}"
proof -
  have inv: "vmm.exec_inv om (e, w)"
    using vmm.run_inv [OF assms(2)] vmm.empty_inv [OF NewExecutor_empty [OF assms(1)]] by blast
  then have i: "i = api_ID (c_task c)" using assms(3) by (auto simp: vmm.exec_inv_def vmm.ctl_inv_def)
  have "(e', w') = exec_Remove (program_managers om) i (e, w)" using assms(4) by (auto elim: exec_removeE)
  then have "w' = snd (snd (ctl_Remove (program_managers om) c w))"
    using assms(3) by (simp add: exec_Remove_def on_controller_def split: prod.splits)
  then have "ctl_Remove (program_managers om) c w = (fst (ctl_Remove (program_managers om) c w), fst (snd (ctl_Remove (program_managers om) c w)), w')"
    by (simp add: prod_eq_iff)
  from ctl_Remove_host [OF this refl i] vmm.remove_isolated [OF inv assms(3,4)] show ?thesis unfolding Let_def program_managers_sel by blast
qed

theorem remove_task_witness:
  "\<exists>ops e w c e' w' pid. exec_run (program_managers example_managers) (example_executor, example_world) ops (e, w) \<and>
     ex_controllers e ''t1'' = Some c \<and> c_started c \<and> v_processes (w_vmm w) ''t1'' = Some pid \<and>
     exec_step (program_managers example_managers) (e, w) (OpRemove ''t1'') (e', w') \<and>
     ex_controllers e' ''t1'' = None \<and> v_processes (w_vmm w') ''t1'' = None \<and> pid \<notin> set (h_alive (w_host w')) \<and>
     path_Join [c_SocketDir c, ''t1.sock''] \<notin> set (h_files (w_host w'))"
proof -
  let ?mg = "program_managers example_managers"
  obtain ops e w c where r: "exec_run ?mg (example_executor, example_world) ops (e, w)"
      and c: "ex_controllers e ''t1'' = Some c" "c_started c"
    using example_started by blast
  obtain pid where p: "v_processes (w_vmm w) ''t1'' = Some pid"
    using vmm.started_tracked [OF r _ c] by (auto simp: example_executor_def)
  obtain e' w' where s: "exec_Remove ?mg ''t1'' (e, w) = (e', w')" by (rule prod.exhaust)
  then have st: "exec_step ?mg (e, w) (OpRemove ''t1'') (e', w')" using step_remove [of ?mg "(e, w)" "''t1''"] by simp
  have k: "om_kill example_managers y" "om_unlink example_managers y f" for y f by (simp_all add: example_managers_def)
  from remove_task [OF example_new_executor r [unfolded example_world_def] c(1) st]
  have "ex_controllers e' ''t1'' = None" "v_processes (w_vmm w') ''t1'' = None" "pid \<notin> set (h_alive (w_host w'))"
    "path_Join [c_SocketDir c, ''t1.sock''] \<notin> set (h_files (w_host w'))"
    using p by (auto simp: Let_def k)
  then show ?thesis using r c p st by blast
qed

text \<open>
  Removing a task never synchronises its volumes: with any volume manager the result is the
  one with none.
\<close>

theorem remove_never_syncs_volumes:
  "ctl_Remove (mg\<lparr>mg_volumes := vm\<rparr>) c w = ctl_Remove (mg\<lparr>mg_volumes := None\<rparr>) c w"
  by (simp add: ctl_Remove_def Let_def sync_on_remove_nothing)

text \<open>
  An update never changes the VM that \<open>Start\<close> starts: \<open>Start\<close> after \<open>Update\<close> has the same
  result and the same effect on the managers as without it.
\<close>

theorem update_before_start_ignored:
  "fst (ctl_Start mg (ctl_Update t c) w) = fst (ctl_Start mg c w) \<and>
   snd (snd (ctl_Start mg (ctl_Update t c) w)) = snd (snd (ctl_Start mg c w))"
  by (auto simp: ctl_Start_def ctl_Update_def split: option.splits sum.splits prod.splits)

subsection \<open>The life cycle of a task\<close>

text \<open>
  Claim C23. The life cycle of a task succeeds: for a valid identifier, an image and a network that can
  be prepared and a host that starts VMs, \<open>Prepare\<close> and \<open>Start\<close> of a new controller succeed, the
  status then shows the process of the VM, and \<open>Shutdown\<close> succeeds, ends that process and leaves the
  controller prepared but not started.
\<close>

theorem task_life_cycle:
  assumes "NewController kp bip rd sd t = Inr c" and "validateTaskID (api_ID t) = Inr ()"
    and "\<not> v_useJailer (w_vmm w)"
    and "om_Prepare om (convertTask t) (w_other w) = (Inr a, x1)"
    and "om_PrepareNetwork om ((convertTask t)\<lparr>task_Annotations := a\<rparr>) x1 = (Inr ns, x2)"
    and "\<And>x. willing (om_start om x)"
  shows "\<exists>c1 w1 c2 w2 c3 w3 pid.
    ctl_Prepare (program_managers om) c w = (Inr (), c1, w1) \<and>
    ctl_Start (program_managers om) c1 w1 = (Inr (), c2, w2) \<and>
    ContainerStatus (program_managers om) c2 w2 =
      \<lparr>cst_ContainerID = api_ID t, cst_PID = int32_of pid, cst_ExitCode = 0\<rparr> \<and> pid \<in> set (h_alive (w_host w2)) \<and>
    ctl_Shutdown (program_managers om) c2 w2 = (Inr (), c3, w3) \<and>
    pid \<notin> set (h_alive (w_host w3)) \<and> v_processes (w_vmm w3) (api_ID t) = None \<and> c_prepared c3 \<and> \<not> c_started c3"
proof -
  let ?mg = "program_managers om"
  have c: "c_task c = t" "\<not> c_prepared c" "\<not> c_started c"
    using assms(1) by (auto simp: NewController_def split: sum.splits)
  obtain c1 w1 c2 w2 pid where P: "ctl_Prepare ?mg c w = (Inr (), c1, w1)" and S: "ctl_Start ?mg c1 w1 = (Inr (), c2, w2)"
      and st: "c_started c2" "c_prepared c2" "c_task c2 = t" "v_processes (w_vmm w2) (api_ID t) = Some pid"
        "pid \<in> set (h_alive (w_host w2))" "\<not> v_useJailer (w_vmm w2)"
    using prepare_start [OF c assms(2-6)] by metis
  have D: "ContainerStatus ?mg c2 w2 = \<lparr>cst_ContainerID = api_ID t, cst_PID = int32_of pid, cst_ExitCode = 0\<rparr>"
    using st by (simp add: ContainerStatus_def IsRunning_def GetPID_def)
  obtain r c3 w3 where E: "ctl_Shutdown ?mg c2 w2 = (r, c3, w3)" by (rule prod_cases3)
  then have "r = Inr () \<and> pid \<notin> set (h_alive (w_host w3)) \<and> v_processes (w_vmm w3) (api_ID t) = None \<and>
      c_prepared c3 \<and> \<not> c_started c3"
    using st by (auto simp: ctl_Shutdown_def Let_def lift_vmm_def lift_other_def vmm_Stop_def jail_cleanup_def
        host_kill_def untrack_def)
  then show ?thesis using P S D E st(5) by blast
qed

theorem task_life_cycle_witness:
  "\<exists>c1 w1 c2 w2. ctl_Prepare (program_managers example_managers) example_controller example_world = (Inr (), c1, w1) \<and>
     ctl_Start (program_managers example_managers) c1 w1 = (Inr (), c2, w2) \<and>
     cst_ExitCode (ContainerStatus (program_managers example_managers) c2 w2) = 0"
  using task_life_cycle [OF example_new_controller example_grants] by fastforce

end
