(* ===== verification/Net_Allocator.thy ===== *)
theory Net_Allocator
  imports Cni_Ipam Swarm_Translator
begin

text \<open>
  The static address allocator of \<open>pkg/network/manager.go\<close>: a VM gets an address computed from the
  SHA-256 hash of its identifier, with linear probing on collisions. The table of allocated
  addresses fulfils the contract \<open>addr_table\<close>.
\<close>

subsection \<open>The allocator\<close>

record ip_allocator =
  al_subnet :: ip_net
  al_gateway :: ip
  al_allocated :: "string \<rightharpoonup> string"

datatype vm_alloc_error =
    AllocInvalidSubnet string
  | AllocInvalidGateway string
  | AllocNotInSubnet
  | AllocExhausted
  | AllocDivideByZero

definition NewIPAllocator :: "string \<Rightarrow> string \<Rightarrow> (vm_alloc_error, ip_allocator) res" where
  "NewIPAllocator subnetStr gatewayStr =
     (case net_ParseCIDR subnetStr of
        None \<Rightarrow> Inl (AllocInvalidSubnet subnetStr)
      | Some (_, subnet) \<Rightarrow>
          (case ParseIP gatewayStr of
             None \<Rightarrow> Inl (AllocInvalidGateway gatewayStr)
           | Some gateway \<Rightarrow> Inr \<lparr>al_subnet = subnet, al_gateway = gateway, al_allocated = Map.empty\<rparr>))"

text \<open>\<open>incIP\<close>: of an IPv4 address in its 16-byte form only the last four bytes are incremented.\<close>

definition incIP :: "ip \<Rightarrow> ip" where
  "incIP a = (if To4 a \<noteq> None \<and> length a = 16 then take 12 a @ incrementIP (drop 12 a) else incrementIP a)"

text \<open>
  \<open>hashToIP\<close>: \<open>None\<close> is the panic of the division by the size of the subnet \<open>/0\<close>, which is 0 as a
  32-bit number.
\<close>

definition hash_word :: "string \<Rightarrow> uint32" where
  "hash_word vmID = of_nat (be_val (take 4 (Sum256 (string_bytes vmID))))"

definition subnet_size :: "ip_net \<Rightarrow> uint32" where
  "subnet_size n = (case mask_Size (net_Mask n) of (ones, bits) \<Rightarrow> push_bit (bits - ones) 1)"

definition base_word :: "ip_net \<Rightarrow> uint32" where
  "base_word n = (case To4 (net_IP n) of Some b \<Rightarrow> of_nat (be_val b) | None \<Rightarrow> 0)"

definition put_word :: "uint32 \<Rightarrow> ip" where
  "put_word w = be_bytes 4 (unat w)"

definition hashToIP :: "ip_net \<Rightarrow> string \<Rightarrow> ip option" where
  "hashToIP subnet vmID =
     (if length (net_IP subnet) = 16 then
        Some (take 8 (net_IP subnet) @ map2 (XOR) (drop 8 (net_IP subnet)) (take 8 (Sum256 (string_bytes vmID))))
      else let size' = subnet_size subnet in
        if size' = 0 then None
        else if size' < 4 then Some (put_word (base_word subnet + hash_word vmID mod size'))
        else Some (put_word (base_word subnet + hash_word vmID mod (size' - 2) + 1)))"

text \<open>The probing loop; the first argument after the allocator is the number of attempts left.\<close>

definition al_free :: "ip_allocator \<Rightarrow> ip \<Rightarrow> bool" where
  "al_free al x \<longleftrightarrow> \<not> ip_Equal x (al_gateway al) \<and> al_allocated al (ip_String x) = None"

definition probe_next :: "ip_net \<Rightarrow> ip \<Rightarrow> ip" where
  "probe_next subnet x = (let y = incIP x in if Contains subnet y then y else incIP (incIP (net_IP subnet)))"

fun probe :: "ip_allocator \<Rightarrow> nat \<Rightarrow> ip \<Rightarrow> ip option" where
  "probe al 0 x = None"
| "probe al (Suc k) x = (if al_free al x then Some x else probe al k (probe_next (al_subnet al) x))"

definition probe_attempts :: nat where "probe_attempts = 256"

text \<open>
  \<open>Allocate\<close>. The search for an address the VM already has iterates over a map; \<open>ks\<close> is the order of
  its keys.
\<close>

definition vm_Allocate ::
    "string list \<Rightarrow> string \<Rightarrow> ip_allocator \<Rightarrow> (vm_alloc_error, string) res \<times> ip_allocator" where
  "vm_Allocate ks vmID al =
     (case find (\<lambda>a. al_allocated al a = Some vmID) ks of
        Some a \<Rightarrow> (Inr a, al)
      | None \<Rightarrow>
          (case hashToIP (al_subnet al) vmID of
             None \<Rightarrow> (Inl AllocDivideByZero, al)
           | Some x \<Rightarrow>
               if \<not> Contains (al_subnet al) x then (Inl AllocNotInSubnet, al)
               else (case probe al probe_attempts x of
                       None \<Rightarrow> (Inl AllocExhausted, al)
                     | Some y \<Rightarrow>
                         (Inr (ip_String y), al\<lparr>al_allocated := (al_allocated al)(ip_String y \<mapsto> vmID)\<rparr>))))"

definition vm_Release :: "string \<Rightarrow> ip_allocator \<Rightarrow> ip_allocator" where
  "vm_Release a al = al\<lparr>al_allocated := (al_allocated al)(a := None)\<rparr>"

subsection \<open>IPv4 subnets\<close>

definition v4_allocator :: "ip_allocator \<Rightarrow> bytes \<Rightarrow> nat \<Rightarrow> bytes \<Rightarrow> bool" where
  "v4_allocator al base n g \<longleftrightarrow>
     length base = 4 \<and> n \<le> 32 \<and> al_subnet al = v4_net base n \<and> To4 (al_gateway al) = Some g"

lemma incIP_len4: "length x = 4 \<Longrightarrow> incIP x = incrementIP x"
  by (simp add: incIP_def)

lemma length_incIP_len4 [simp]: "length x = 4 \<Longrightarrow> length (incIP x) = 4"
  by (simp add: incIP_len4)

lemma length_probe_next:
  "v4_allocator al base n g \<Longrightarrow> length x = 4 \<Longrightarrow> length (probe_next (al_subnet al) x) = 4"
  by (simp add: probe_next_def v4_allocator_def v4_net_def Let_def)

lemma probe_found:
  "v4_allocator al base n g \<Longrightarrow> length x = 4 \<Longrightarrow> probe al k x = Some y \<Longrightarrow> al_free al y \<and> length y = 4"
proof (induction k arbitrary: x)
  case (Suc k)
  show ?case
  proof (cases "al_free al x")
    case False
    then show ?thesis using Suc length_probe_next [OF Suc.prems(1,2)] by simp
  qed (use Suc.prems in simp)
qed simp

lemma length_put_word [simp]: "length (put_word w) = 4"
  by (simp add: put_word_def)

lemma hashToIP_length: "v4_allocator al base n g \<Longrightarrow> hashToIP (al_subnet al) vm = Some x \<Longrightarrow> length x = 4"
  by (auto simp: hashToIP_def v4_allocator_def v4_net_def Let_def split: if_splits)

text \<open>What a successful allocation did: the VM had the address, or it was free and not the gateway.\<close>

lemma vm_Allocate_cases:
  assumes "v4_allocator al base n g" and "vm_Allocate ks vm al = (Inr a, al')"
  obtains (had) "al_allocated al a = Some vm" "al' = al"
    | (new) y where "a = dotted y" "length y = 4" "y \<noteq> g" "al_allocated al a = None"
        "al' = al\<lparr>al_allocated := (al_allocated al)(a \<mapsto> vm)\<rparr>"
proof (cases "find (\<lambda>a. al_allocated al a = Some vm) ks")
  case (Some b)
  then have "al_allocated al b = Some vm" using find_SomeD by fast
  moreover have "b = a" "al' = al" using Some assms(2) by (simp_all add: vm_Allocate_def)
  ultimately show ?thesis by (intro had) simp_all
next
  case None
  then obtain x y where x: "hashToIP (al_subnet al) vm = Some x" and y: "probe al probe_attempts x = Some y"
      and a: "a = ip_String y" "al' = al\<lparr>al_allocated := (al_allocated al)(ip_String y \<mapsto> vm)\<rparr>"
    using assms(2) by (auto simp: vm_Allocate_def split: option.splits if_splits)
  note f = probe_found [OF assms(1) hashToIP_length [OF assms(1) x] y]
  then have "To4 y = Some y" by simp
  moreover have "To4 (al_gateway al) = Some g" using assms(1) by (simp add: v4_allocator_def)
  ultimately have "y \<noteq> g" "ip_String y = dotted y" "al_allocated al a = None"
    using f a by (auto simp: al_free_def ip_Equal_iff_To4 ip_String_v4)
  then show ?thesis using f a by (intro new [of y]) simp_all
qed

subsection \<open>The contract\<close>

text \<open>An allocation with the order of the keys, as the contract has it.\<close>

definition alloc_vm :: "string \<times> string list \<Rightarrow> ip_allocator \<Rightarrow> (string \<times> ip_allocator) option" where
  "alloc_vm w al = (case vm_Allocate (snd w) (fst w) al of (Inl _, _) \<Rightarrow> None | (Inr a, al') \<Rightarrow> Some (a, al'))"

definition alloc_inv :: "ip_allocator \<Rightarrow> bool" where
  "alloc_inv al \<longleftrightarrow> (\<exists>base n g. v4_allocator al base n g)"

lemma alloc_vm_Some: "alloc_vm w al = Some (a, al') \<longleftrightarrow> vm_Allocate (snd w) (fst w) al = (Inr a, al')"
  by (auto simp: alloc_vm_def split: prod.splits sum.splits)

lemma dotted_gateway: "v4_allocator al base n g \<Longrightarrow> ip_String (al_gateway al) = dotted g"
  by (simp add: v4_allocator_def ip_String_v4)

lemma v4_allocator_upd [simp]: "v4_allocator (al\<lparr>al_allocated := f\<rparr>) base n g = v4_allocator al base n g"
  by (simp add: v4_allocator_def)

interpretation vmips: addr_table alloc_inv al_allocated "\<lambda>al. {ip_String (al_gateway al)}" id fst alloc_vm vm_Release
proof (unfold_locales, goal_cases)
  case (1 al w a al')
  then obtain base n g where v: "v4_allocator al base n g" by (auto simp: alloc_inv_def)
  from 1(2) have "vm_Allocate (snd w) (fst w) al = (Inr a, al')" by (simp add: alloc_vm_Some)
  from v this show ?case by (cases rule: vm_Allocate_cases) (auto simp: fun_upd_idem)
next
  case (2 al w a al')
  then obtain base n g where v: "v4_allocator al base n g" by (auto simp: alloc_inv_def)
  from 2(2) have "vm_Allocate (snd w) (fst w) al = (Inr a, al')" by (simp add: alloc_vm_Some)
  from v this show ?case by (cases rule: vm_Allocate_cases) auto
next
  case (3 al w a al')
  then obtain base n g where v: "v4_allocator al base n g" by (auto simp: alloc_inv_def)
  have g: "length g = 4" using v To4_length by (auto simp: v4_allocator_def)
  from 3(2) have "vm_Allocate (snd w) (fst w) al = (Inr a, al')" by (simp add: alloc_vm_Some)
  from v this show ?case
    using 3(3) g by (cases rule: vm_Allocate_cases) (auto simp: dotted_gateway [OF v] dotted_inj)
next
  case (4 al w a al')
  then obtain base n g where v: "v4_allocator al base n g" by (auto simp: alloc_inv_def)
  from 4(2) have "vm_Allocate (snd w) (fst w) al = (Inr a, al')" by (simp add: alloc_vm_Some)
  from v this show ?case using v by (cases rule: vm_Allocate_cases) (auto simp: alloc_inv_def)
next
  case (5 al a)
  then show ?case by (simp add: vm_Release_def)
next
  case (6 al a)
  then show ?case by (auto simp: vm_Release_def alloc_inv_def)
qed

end
