(* ===== verification/Net_Allocator_Correct.thy ===== *)
theory Net_Allocator_Correct
  imports Net_Allocator
begin

text \<open>
  Correctness of the static address allocator: exclusive addresses, the gateway, the subnet, success
  of the probing loop, and the one address of a VM.
\<close>

subsection \<open>The contract of the table\<close>

text \<open>
  Claim C8. A VM keeps its address to itself: while the address is not released, no allocation for
  another VM returns it, whatever is allocated and released in between.
\<close>

theorem vm_address_exclusive:
  assumes "alloc_inv al" and "vm_Allocate ks vm al = (Inr a, al')" and "Release a \<notin> set xs"
    and "vm_Allocate ks' vm' (table_run alloc_vm vm_Release xs al') = (Inr b, al'')" and "vm' \<noteq> vm"
  shows "b \<noteq> a"
proof
  assume ba: "b = a"
  have 1: "alloc_vm (vm, ks) al = Some (a, al')" using assms(2) by (simp add: alloc_vm_Some)
  have 2: "alloc_vm (vm', ks') (table_run alloc_vm vm_Release xs al') = Some (a, al'')"
    using assms(4) ba by (simp add: alloc_vm_Some)
  have inv: "alloc_inv al'" using vmips.alloc_inv [OF assms(1) 1] by simp
  have "al_allocated al' a = Some vm" using vmips.alloc_held [OF assms(1) 1] by simp
  then have "al_allocated (table_run alloc_vm vm_Release xs al') a = Some vm"
    using vmips.owner_keeps [OF inv, of a vm xs] assms(3) by simp
  moreover have "alloc_inv (table_run alloc_vm vm_Release xs al')" using vmips.run_inv [OF inv] by simp
  ultimately show False using vmips.alloc_free [OF _ 2] assms(5) by auto
qed

lemma NewIPAllocator_v4:
  assumes "NewIPAllocator (dotted base @ CHR ''/'' # dec_of_nat n) gw = Inr al" and "length base = 4" and "n \<le> 32"
    and "ParseIP gw = Some g'" and "To4 g' = Some g"
  shows "v4_allocator al base n g \<and> al_allocated al = Map.empty"
  using assms by (auto simp: NewIPAllocator_def ParseCIDR_dotted v4_allocator_def)

subsection \<open>The computed address\<close>

lemma subnet_size_v4:
  assumes "v4_allocator al base n g" and "1 \<le> n"
  shows "unat (subnet_size (al_subnet al)) = 2 ^ (32 - n)"
proof -
  have "mask_Size (net_Mask (al_subnet al)) = (n, 32)"
    using assms by (simp add: v4_allocator_def v4_net_def mask_Size_cidr)
  then have "subnet_size (al_subnet al) = of_nat (2 ^ (32 - n))"
    by (simp add: subnet_size_def push_bit_eq_mult)
  moreover have "(2 :: nat) ^ (32 - n) < 2 ^ 32" using assms(2) by (intro power_strict_increasing) simp_all
  ultimately show ?thesis using unat_of_nat [of "2 ^ (32 - n)", where ?'a = 32] by (simp del: of_nat_power)
qed

lemma base_word_v4:
  assumes "v4_allocator al base n g"
  shows "base_word (al_subnet al) = of_nat (subnet_first base n)"
  using assms subnet_first_mask [of base n] by (simp add: base_word_def v4_allocator_def v4_net_def)

lemma be_val_put_word [simp]: "be_val (put_word w) = unat w"
proof -
  have "unat w < 2 ^ 32" using unsigned_less [of w] by simp
  then show ?thesis by (simp add: put_word_def be_val_be_bytes)
qed

text \<open>In a subnet of at least four addresses the first candidate is neither its first nor its last address.\<close>

lemma hash_in_range:
  assumes "v4_allocator al base n g" and "1 \<le> n" and "n \<le> 30"
  obtains x where "hashToIP (al_subnet al) vm = Some x" and "length x = 4"
    and "subnet_first base n < be_val x" and "be_val x < subnet_last base n"
proof -
  let ?N = "al_subnet al" and ?h = "hash_word vm"
  define d :: nat where "d = 2 ^ (32 - n)"
  have d: "4 \<le> d" unfolding d_def using assms(3) power_increasing [of 2 "32 - n" "2 :: nat"] by simp
  have sz: "unat (subnet_size ?N) = d" using subnet_size_v4 [OF assms(1,2)] by (simp add: d_def)
  then have nz: "subnet_size ?N \<noteq> 0" "\<not> subnet_size ?N < 4"
    using d by (auto simp: word_less_nat_alt unat_eq_zero [symmetric])
  have sub: "unat (subnet_size ?N - 2) = d - 2"
    using d sz by (subst unat_sub) (simp_all add: word_le_nat_alt)
  define r where "r = unat ?h mod (d - 2)"
  have r: "r < d - 2" using d by (simp add: r_def)
  have w: "base_word ?N + ?h mod (subnet_size ?N - 2) + 1 = of_nat (subnet_first base n + r + 1)"
    using base_word_v4 [OF assms(1)] sub by (simp add: r_def word_arith_nat_mod)
  have last: "subnet_last base n < 2 ^ 32" "subnet_last base n = subnet_first base n + (d - 1)"
    using assms(1) subnet_last_less [of base n] by (simp_all add: v4_allocator_def subnet_last_def d_def)
  then have val: "unat (of_nat (subnet_first base n + r + 1) :: uint32) = subnet_first base n + r + 1"
    using r unat_of_nat [of "subnet_first base n + r + 1", where ?'a = 32] by (simp del: of_nat_add of_nat_Suc)
  have len: "length (net_IP ?N) = 4" using assms(1) by (simp add: v4_allocator_def v4_net_def)
  then have "hashToIP ?N vm = Some (put_word (of_nat (subnet_first base n + r + 1)))"
    using nz unfolding w [symmetric] by (simp add: hashToIP_def Let_def)
  moreover have "subnet_first base n < subnet_first base n + r + 1" "subnet_first base n + r + 1 < subnet_last base n"
    using r last by linarith+
  ultimately show thesis using that val by (simp only: length_put_word be_val_put_word)
qed

subsection \<open>The probing loop\<close>

lemma Contains_v4:
  assumes "v4_allocator al base n g" and "length x = 4"
  shows "Contains (al_subnet al) x \<longleftrightarrow> subnet_first base n \<le> be_val x \<and> be_val x \<le> subnet_last base n"
  using assms Contains_iff_between [of base n x x] by (simp add: v4_allocator_def)

lemma subnet_bounds:
  assumes "v4_allocator al base n g" and "n \<le> 30"
  shows "subnet_first base n + 3 \<le> subnet_last base n" and "subnet_last base n < 2 ^ 32"
proof -
  have "(4 :: nat) \<le> 2 ^ (32 - n)" using assms(2) power_increasing [of 2 "32 - n" "2 :: nat"] by simp
  then show "subnet_first base n + 3 \<le> subnet_last base n" by (simp add: subnet_last_def)
  show "subnet_last base n < 2 ^ 32" using assms subnet_last_less [of base n] by (simp add: v4_allocator_def)
qed

lemma be_val_incIP: "length x = 4 \<Longrightarrow> be_val (incIP x) = (be_val x + 1) mod 2 ^ 32"
  by (simp add: incIP_len4 be_val_incrementIP)

text \<open>The next candidate: one more, or from the last address back to the third.\<close>

lemma probe_next_val:
  assumes "v4_allocator al base n g" and "1 \<le> n" and "n \<le> 30" and "length x = 4"
    and "subnet_first base n \<le> be_val x" and "be_val x \<le> subnet_last base n"
  shows "be_val (probe_next (al_subnet al) x) =
    (if be_val x < subnet_last base n then be_val x + 1 else subnet_first base n + 2)"
proof (cases "be_val x < subnet_last base n")
  case True
  then have "be_val (incIP x) = be_val x + 1" using subnet_bounds [OF assms(1,3)] assms(4) by (simp add: be_val_incIP)
  then show ?thesis using True assms by (simp add: probe_next_def Contains_v4)
next
  case False
  then have x: "be_val x = subnet_last base n" using assms(6) by simp
  have out: "\<not> Contains (al_subnet al) (incIP x)"
  proof (cases "subnet_last base n + 1 < 2 ^ 32")
    case True
    then show ?thesis using x assms by (simp add: Contains_v4 be_val_incIP)
  next
    case False
    then have "subnet_last base n + 1 = 2 ^ 32" using subnet_bounds [OF assms(1,3)] by simp
    moreover have "(2 :: nat) ^ (32 - n) < 2 ^ 32" using assms(2) by (intro power_strict_increasing) simp_all
    ultimately have "0 < subnet_first base n" by (simp add: subnet_last_def)
    then show ?thesis using x \<open>subnet_last base n + 1 = 2 ^ 32\<close> assms by (simp add: Contains_v4 be_val_incIP)
  qed
  have b: "be_val (net_IP (al_subnet al)) = subnet_first base n" "length (net_IP (al_subnet al)) = 4"
    using assms(1) subnet_first_mask [of base n] by (simp_all add: v4_allocator_def v4_net_def)
  then have "be_val (incIP (incIP (net_IP (al_subnet al)))) = subnet_first base n + 2"
    using subnet_bounds [OF assms(1,3)] by (simp add: be_val_incIP)
  then show ?thesis using out False by (simp add: probe_next_def)
qed

lemma probe_reaches_up:
  assumes "v4_allocator al base n g" and "1 \<le> n" and "n \<le> 30" and "al_free al y" and "length y = 4"
    and "be_val y \<le> subnet_last base n"
  shows "length x = 4 \<Longrightarrow> subnet_first base n \<le> be_val x \<Longrightarrow> be_val x \<le> be_val y \<Longrightarrow> be_val y - be_val x < k \<Longrightarrow>
    probe al k x \<noteq> None"
proof (induction k arbitrary: x)
  case (Suc k)
  show ?case
  proof (cases "al_free al x")
    case False
    then have "x \<noteq> y" using assms(4) by auto
    then have "be_val x < be_val y" using Suc.prems assms(5) be_val_inj [of x y] by simp
    then show ?thesis
      using False Suc probe_next_val [OF assms(1-3)] length_probe_next [OF assms(1)] assms(6) by simp
  qed simp
qed simp

lemma probe_reaches_wrap:
  assumes "v4_allocator al base n g" and "1 \<le> n" and "n \<le> 30" and "al_free al y" and "length y = 4"
    and "subnet_first base n + 2 \<le> be_val y" and "be_val y \<le> subnet_last base n"
  shows "length x = 4 \<Longrightarrow> be_val y < be_val x \<Longrightarrow> be_val x \<le> subnet_last base n \<Longrightarrow>
    (subnet_last base n - be_val x) + (be_val y - subnet_first base n) \<le> k \<Longrightarrow> probe al k x \<noteq> None"
proof (induction k arbitrary: x)
  case 0
  then show ?case using assms(6) by simp
next
  case (Suc k)
  show ?case
  proof (cases "al_free al x")
    case False
    note nx = probe_next_val [OF assms(1-3) Suc.prems(1)]
    show ?thesis
    proof (cases "be_val x < subnet_last base n")
      case True
      then show ?thesis using False Suc nx length_probe_next [OF assms(1)] assms(6) by simp
    next
      case top: False
      have "probe al k (probe_next (al_subnet al) x) \<noteq> None"
        using top nx Suc.prems assms(6) length_probe_next [OF assms(1)]
        by (intro probe_reaches_up [OF assms(1-5,7)]) simp_all
      then show ?thesis using False by simp
    qed
  qed simp
qed

lemma alloc_succeeds:
  assumes "v4_allocator al base n g" and "24 \<le> n" and "n \<le> 30" and "length y = 4"
    and "subnet_first base n + 2 \<le> be_val y" and "be_val y \<le> subnet_last base n"
    and "y \<noteq> g" and "al_allocated al (dotted y) = None"
  shows "\<exists>a al'. vm_Allocate ks vm al = (Inr a, al') \<and> al_allocated al' a = Some vm"
proof (cases "find (\<lambda>a. al_allocated al a = Some vm) ks")
  case (Some a)
  then show ?thesis using find_SomeD [OF Some] by (simp add: vm_Allocate_def)
next
  case None
  have n: "1 \<le> n" using assms(2) by simp
  obtain x where x: "hashToIP (al_subnet al) vm = Some x" "length x = 4"
      "subnet_first base n < be_val x" "be_val x < subnet_last base n"
    using hash_in_range [OF assms(1) n assms(3)] .
  have "To4 y = Some y" "To4 (al_gateway al) = Some g" using assms(1,4) by (simp_all add: v4_allocator_def)
  then have free: "al_free al y" using assms(7,8) by (auto simp: al_free_def ip_Equal_iff_To4 ip_String_v4)
  have "(2 :: nat) ^ (32 - n) \<le> 2 ^ 8" using assms(2) by (intro power_increasing) simp_all
  then have size: "subnet_last base n \<le> subnet_first base n + 255" by (simp add: subnet_last_def)
  have "probe al probe_attempts x \<noteq> None"
  proof (cases "be_val x \<le> be_val y")
    case True
    then show ?thesis
      using x size assms(6) by (intro probe_reaches_up [OF assms(1) n assms(3) free assms(4,6)]) (simp_all add: probe_attempts_def)
  next
    case False
    then show ?thesis
      using x size assms(5) by (intro probe_reaches_wrap [OF assms(1) n assms(3) free assms(4,5,6)]) (simp_all add: probe_attempts_def)
  qed
  then show ?thesis using None x Contains_v4 [OF assms(1) x(2)] by (auto simp: vm_Allocate_def)
qed


subsection \<open>Addresses in the subnet\<close>

lemma probe_in_subnet:
  assumes "v4_allocator al base n g" and "1 \<le> n" and "n \<le> 30"
  shows "length x = 4 \<Longrightarrow> subnet_first base n < be_val x \<Longrightarrow> be_val x \<le> subnet_last base n \<Longrightarrow> probe al k x = Some y \<Longrightarrow>
    length y = 4 \<and> subnet_first base n < be_val y \<and> be_val y \<le> subnet_last base n"
proof (induction k arbitrary: x)
  case (Suc k)
  show ?case
  proof (cases "al_free al x")
    case False
    then show ?thesis
      using Suc probe_next_val [OF assms Suc.prems(1)] length_probe_next [OF assms(1) Suc.prems(1)]
        subnet_bounds(1) [OF assms(1,3)]
      by (simp split: if_splits)
  qed (use Suc.prems in simp)
qed simp

lemma alloc_in_subnet:
  assumes "v4_allocator al base n g" and "1 \<le> n" and "n \<le> 30"
    and "vm_Allocate ks vm al = (Inr a, al')" and "al_allocated al a = None"
  shows "\<exists>y. a = dotted y \<and> length y = 4 \<and> y \<noteq> g \<and> subnet_first base n < be_val y \<and> be_val y \<le> subnet_last base n"
proof -
  obtain x where x: "hashToIP (al_subnet al) vm = Some x" "length x = 4"
      "subnet_first base n < be_val x" "be_val x < subnet_last base n"
    using hash_in_range [OF assms(1-3)] .
  have "find (\<lambda>a. al_allocated al a = Some vm) ks = None"
    using assms(4,5) by (auto simp: vm_Allocate_def dest: find_SomeD split: option.splits)
  then obtain y where y: "probe al probe_attempts x = Some y" and a: "a = ip_String y"
    using assms(4) x by (auto simp: vm_Allocate_def split: option.splits if_splits)
  note f = probe_found [OF assms(1) x(2) y]
  have "To4 (al_gateway al) = Some g" using assms(1) by (simp add: v4_allocator_def)
  then have "y \<noteq> g" "a = dotted y" using f a by (auto simp: al_free_def ip_Equal_iff_To4 ip_String_v4)
  then show ?thesis using probe_in_subnet [OF assms(1-3) x(2,3) _ y] x(4) by auto
qed

text \<open>
  An address that a VM newly gets lies in the subnet and is neither its network address nor
  the gateway, for every IPv4 subnet with a prefix of 1 to 30 bits.
\<close>

theorem vm_address_in_subnet:
  assumes "v4_allocator al base n g" and "1 \<le> n" and "n \<le> 30"
    and "vm_Allocate ks vm al = (Inr a, al')" and "al_allocated al a = None"
  shows "\<exists>y. a = dotted y \<and> length y = 4 \<and> y \<noteq> g \<and> subnet_first base n < be_val y \<and> be_val y \<le> subnet_last base n"
  using assms by (rule alloc_in_subnet)

text \<open>
  The broadcast address is handed out: in a subnet of four addresses whose second address is
  the gateway, once the third is taken, the next VM gets the last one, whatever its hash.
\<close>

theorem vm_gets_broadcast:
  assumes "v4_allocator al base 30 g" and "be_val g = subnet_first base 30 + 1"
    and "length y = 4" and "be_val y = subnet_first base 30 + 2" and "al_allocated al (dotted y) = Some vm'"
    and "length z = 4" and "be_val z = subnet_last base 30" and "al_allocated al (dotted z) = None"
    and "vm \<notin> ran (al_allocated al)"
  shows "fst (vm_Allocate ks vm al) = Inr (dotted z)"
proof -
  have l: "subnet_last base 30 = subnet_first base 30 + 3" by (simp add: subnet_last_def)
  obtain a al' where r: "vm_Allocate ks vm al = (Inr a, al')"
  proof -
    have "z \<noteq> g" using assms(2,7) l by auto
    then have "\<exists>a al'. vm_Allocate ks vm al = (Inr a, al') \<and> al_allocated al' a = Some vm"
      using assms(6-8) l by (intro alloc_succeeds [OF assms(1)]) simp_all
    then show ?thesis using that by blast
  qed
  then have "al_allocated al a \<noteq> Some vm" using assms(9) by (auto simp: ran_def)
  with assms(1) r have "al_allocated al a = None" by (cases rule: vm_Allocate_cases) auto
  with alloc_in_subnet [OF assms(1) _ _ r] obtain w where w: "a = dotted w" "length w = 4" "w \<noteq> g"
      "subnet_first base 30 < be_val w" "be_val w \<le> subnet_last base 30" by auto
  have g: "length g = 4" using assms(1) To4_length by (auto simp: v4_allocator_def)
  have "be_val w \<noteq> be_val g" "be_val w \<noteq> be_val y"
    using w g assms(3,5) \<open>al_allocated al a = None\<close> by (auto simp: be_val_inj)
  then have "be_val w = be_val z" using w l assms(2,4,7) by simp
  then show ?thesis using w assms(6) r by (simp add: be_val_inj)
qed

subsection \<open>One address per VM\<close>

definition one_each :: "ip_allocator \<Rightarrow> bool" where
  "one_each al \<longleftrightarrow> (\<forall>a b vm. al_allocated al a = Some vm \<longrightarrow> al_allocated al b = Some vm \<longrightarrow> a = b)"

lemma find_exists: "x \<in> set xs \<Longrightarrow> P x \<Longrightarrow> \<exists>y. find P xs = Some y"
  using find_None_iff_all [of P xs] by (cases "find P xs") auto

lemma one_each_release: "one_each al \<Longrightarrow> one_each (vm_Release a al)"
  unfolding one_each_def vm_Release_def by (auto split: if_splits)

lemma one_each_allocate:
  assumes "v4_allocator al base n g" and "one_each al" and "key_order (al_allocated al) ks"
    and "vm_Allocate ks vm al = (Inr a, al')"
  shows "one_each al'"
  using assms(1,4)
proof (cases rule: vm_Allocate_cases)
  case had
  then show ?thesis using assms(2) by simp
next
  case (new y)
  have "\<not> (\<exists>b. al_allocated al b = Some vm)"
  proof
    assume "\<exists>b. al_allocated al b = Some vm"
    then obtain b where b: "al_allocated al b = Some vm" ..
    then have "b \<in> set ks" using key_order_mem [OF assms(3), of b] by simp
    then obtain c where c: "find (\<lambda>a. al_allocated al a = Some vm) ks = Some c"
      using find_exists [of b ks "\<lambda>a. al_allocated al a = Some vm"] b by auto
    then have "a = c" using assms(4) by (simp add: vm_Allocate_def)
    then show False using new find_SomeD [OF c] by simp
  qed
  then show ?thesis using new assms(2) by (auto simp: one_each_def split: if_splits)
qed

text \<open>
  A VM has one address: when every VM holds at most one address, this stays so, and asking
  again for the same VM returns the same address and changes nothing, in whatever order the maps are
  iterated.
\<close>

theorem vm_address_stable:
  assumes "v4_allocator al base n g" and "one_each al" and "key_order (al_allocated al) ks"
    and "vm_Allocate ks vm al = (Inr a, al')" and "key_order (al_allocated al') ks'"
  shows "one_each al' \<and> vm_Allocate ks' vm al' = (Inr a, al')"
proof -
  have one: "one_each al'" using one_each_allocate [OF assms(1-4)] .
  have a: "al_allocated al' a = Some vm" using assms(1,4) by (cases rule: vm_Allocate_cases) auto
  then have "a \<in> set ks'" using key_order_mem [OF assms(5), of a] by simp
  then obtain c where c: "find (\<lambda>b. al_allocated al' b = Some vm) ks' = Some c"
    using a find_exists [of a ks' "\<lambda>b. al_allocated al' b = Some vm"] by auto
  then have "c = a" using find_SomeD [OF c] a one by (auto simp: one_each_def)
  then show ?thesis using one c by (simp add: vm_Allocate_def)
qed

subsection \<open>An example\<close>

definition example_vm_allocator :: ip_allocator where
  "example_vm_allocator = \<lparr>al_subnet = v4_net [10, 0, 0, 0] 24, al_gateway = v4_mapped [10, 0, 0, 1], al_allocated = Map.empty\<rparr>"

lemma example_v4: "v4_allocator example_vm_allocator [10, 0, 0, 0] 24 [10, 0, 0, 1]"
  by (simp add: v4_allocator_def example_vm_allocator_def)

lemma example_inv: "alloc_inv example_vm_allocator"
  using example_v4 by (auto simp: alloc_inv_def)

lemma example_subnet:
  "subnet_first [10, 0, 0, 0] 24 = be_val [10, 0, 0, 0]" "subnet_last [10, 0, 0, 0] 24 = be_val [10, 0, 0, 0] + 255"
  by (simp_all add: subnet_first_def subnet_last_def)

text \<open>After one allocation there is room for another.\<close>

lemma example_first:
  obtains a al' where "vm_Allocate [] ''v1'' example_vm_allocator = (Inr a, al')"
    and "al_allocated al' = [a \<mapsto> ''v1'']" and "v4_allocator al' [10, 0, 0, 0] 24 [10, 0, 0, 1]"
proof -
  have "\<exists>a al'. vm_Allocate [] ''v1'' example_vm_allocator = (Inr a, al') \<and> al_allocated al' a = Some ''v1''"
    by (rule alloc_succeeds [OF example_v4, of "[10, 0, 0, 2]"]) (simp_all add: example_subnet example_vm_allocator_def)
  then obtain a al' where r: "vm_Allocate [] ''v1'' example_vm_allocator = (Inr a, al')" by blast
  with example_v4 have "al_allocated al' = [a \<mapsto> ''v1''] \<and> v4_allocator al' [10, 0, 0, 0] 24 [10, 0, 0, 1]"
  proof (cases rule: vm_Allocate_cases)
    case (new y)
    then show ?thesis using example_v4 by (simp add: example_vm_allocator_def v4_allocator_def)
  qed (simp add: example_vm_allocator_def)
  then show thesis using that r by blast
qed

lemma example_second:
  assumes "al_allocated al' = [a \<mapsto> ''v1'']" and "v4_allocator al' [10, 0, 0, 0] 24 [10, 0, 0, 1]"
  obtains b al'' where "vm_Allocate [a] ''v2'' al' = (Inr b, al'')"
proof -
  have ne: "dotted [10, 0, 0, 2] \<noteq> dotted [10, 0, 0, 3]" by (simp add: dotted_inj)
  define y :: bytes where "y = (if a = dotted [10, 0, 0, 2] then [10, 0, 0, 3] else [10, 0, 0, 2])"
  have "\<exists>b al''. vm_Allocate [a] ''v2'' al' = (Inr b, al'') \<and> al_allocated al'' b = Some ''v2''"
    by (rule alloc_succeeds [OF assms(2), of y]) (use assms(1) ne in \<open>auto simp: y_def example_subnet\<close>)
  then show thesis using that by blast
qed

theorem vm_address_exclusive_witness:
  "\<exists>a al' b al''. vm_Allocate [] ''v1'' example_vm_allocator = (Inr a, al') \<and> vm_Allocate [a] ''v2'' al' = (Inr b, al'') \<and> b \<noteq> a"
proof -
  obtain a al' where 1: "vm_Allocate [] ''v1'' example_vm_allocator = (Inr a, al')"
      and e: "al_allocated al' = [a \<mapsto> ''v1'']" "v4_allocator al' [10, 0, 0, 0] 24 [10, 0, 0, 1]"
    by (rule example_first)
  obtain b al'' where 2: "vm_Allocate [a] ''v2'' al' = (Inr b, al'')" using example_second [OF e] .
  have "b \<noteq> a" by (rule vm_address_exclusive [OF example_inv 1, of "[]" "[a]" "''v2''"]) (use 2 in simp_all)
  then show ?thesis using 1 2 by blast
qed


theorem vm_address_in_subnet_witness:
  "\<exists>a al' y. vm_Allocate [] ''v1'' example_vm_allocator = (Inr a, al') \<and> a = dotted y \<and> y \<noteq> [10, 0, 0, 1] \<and>
     be_val [10, 0, 0, 0] < be_val y"
proof -
  obtain a al' where 1: "vm_Allocate [] ''v1'' example_vm_allocator = (Inr a, al')" by (rule example_first)
  have "al_allocated example_vm_allocator a = None" by (simp add: example_vm_allocator_def)
  from vm_address_in_subnet [OF example_v4 _ _ 1 this] show ?thesis using 1 by (auto simp: example_subnet)
qed

theorem vm_gets_broadcast_witness:
  "\<exists>al. fst (vm_Allocate [] ''v2'' al) = Inr (dotted [10, 0, 0, 3])"
proof -
  let ?al = "\<lparr>al_subnet = v4_net [10, 0, 0, 0] 30, al_gateway = v4_mapped [10, 0, 0, 1],
      al_allocated = [dotted [10, 0, 0, 2] \<mapsto> ''v1'']\<rparr>"
  have v4: "v4_allocator ?al [10, 0, 0, 0] 30 [10, 0, 0, 1]" by (simp add: v4_allocator_def)
  have s: "subnet_first [10, 0, 0, 0] 30 = be_val [10, 0, 0, 0]" "subnet_last [10, 0, 0, 0] 30 = be_val [10, 0, 0, 0] + 3"
    by (simp_all add: subnet_first_def subnet_last_def)
  have "dotted [10, 0, 0, 3] \<noteq> dotted [10, 0, 0, 2]" by (simp add: dotted_inj)
  then have "fst (vm_Allocate [] ''v2'' ?al) = Inr (dotted [10, 0, 0, 3])"
    by (intro vm_gets_broadcast [OF v4, of "[10, 0, 0, 2]" "''v1''"]) (simp_all add: s)
  then show ?thesis by blast
qed

theorem vm_address_stable_witness:
  "\<exists>a al'. vm_Allocate [] ''v1'' example_vm_allocator = (Inr a, al') \<and> vm_Allocate [a] ''v1'' al' = (Inr a, al')"
proof -
  obtain a al' where 1: "vm_Allocate [] ''v1'' example_vm_allocator = (Inr a, al')" and e: "al_allocated al' = [a \<mapsto> ''v1'']"
    by (rule example_first)
  have o: "one_each example_vm_allocator" "key_order (al_allocated example_vm_allocator) []"
    by (simp_all add: one_each_def example_vm_allocator_def)
  have "key_order (al_allocated al') [a]" by (simp add: e key_order_def)
  from vm_address_stable [OF example_v4 o 1 this] 1 show ?thesis by blast
qed

end
