(* ===== verification/Net_Manager.thy ===== *)
theory Net_Manager
  imports Net_Allocator_Correct
begin

text \<open>
  The network manager of \<open>pkg/network/manager.go\<close>: bridge, NAT and DHCP setup, the TAP devices of a
  task and their addresses. Every command the manager runs is recorded with its outcome; whether a
  command succeeds may depend on all that ran before. The VXLAN overlay is a parameter.
\<close>

subsection \<open>State\<close>

record network_config =
  nc_BridgeName :: string
  nc_Subnet :: string
  nc_BridgeIP :: string
  nc_IPMode :: string
  nc_NATEnabled :: bool
  nc_DHCPRangeStart :: int
  nc_DHCPRangeEnd :: int
  nc_VXLANEnabled :: bool

record tap_device =
  tap_Name :: string
  tap_Bridge :: string
  tap_IP :: string
  tap_Netmask :: string
  tap_Gateway :: string
  tap_Subnet :: string

record net_manager =
  nm_config :: network_config
  nm_bridges :: "string list"
  nm_taps :: "string \<rightharpoonup> tap_device"
  nm_alloc :: "ip_allocator option"
  nm_nat :: bool

type_synonym command = "string list"
type_synonym cmdlog = "(command \<times> bool) list"

text \<open>The answer of the CNI plugin: an error, a result without interfaces (on which the client
  panics), or the first interface with the first address and mask, if there is one.\<close>

datatype cni_answer = CniError | CniNoInterface | CniResult string "(string \<times> string) option"

text \<open>
  The environment: the outcome of a command after all that ran before, the commands of the overlay
  setup, whether \<open>dnsmasq\<close> is installed and the process identifier in its file, the plugin, and the
  order in which the loop over the allocated addresses visits the map.
\<close>

record net_env =
  en_exec :: "cmdlog \<Rightarrow> command \<Rightarrow> bool"
  en_vxlan :: "cmdlog \<Rightarrow> cmdlog"
  en_dnsmasq :: bool
  en_pid :: "string option"
  en_cniAdd :: "string \<Rightarrow> string \<Rightarrow> string \<Rightarrow> cni_answer"
  en_keys :: "(string \<rightharpoonup> string) \<Rightarrow> string list"

datatype net_error =
    BridgeCreateFailed
  | BridgeUpFailed
  | TapCreateFailed
  | TapUpFailed
  | OverlayBridgeNotFound string
  | TapBridgeFailed
  | CniAddFailed string
  | NetPanic
  | NameEmpty
  | NameTooLong
  | NameInvalid
  | NoTapDevice
  | NoTapAddress

definition run_cmd :: "net_env \<Rightarrow> command \<Rightarrow> cmdlog \<Rightarrow> bool \<times> cmdlog" where
  "run_cmd env c log = (let ok = en_exec env log c in (ok, log @ [(c, ok)]))"

definition NewNetworkManager :: "network_config \<Rightarrow> net_manager" where
  "NewNetworkManager c =
     \<lparr>nm_config = c, nm_bridges = [], nm_taps = Map.empty,
      nm_alloc = (if nc_Subnet c \<noteq> [] \<and> nc_BridgeIP c \<noteq> []
                  then (case NewIPAllocator (nc_Subnet c) (hd (split_on CHR ''/'' (nc_BridgeIP c))) of
                          Inl _ \<Rightarrow> None | Inr al \<Rightarrow> Some al)
                  else None),
      nm_nat = False\<rparr>"

subsection \<open>Bridge, NAT and DHCP\<close>

definition bridge_name_char :: "nat \<Rightarrow> bool" where
  "bridge_name_char c \<longleftrightarrow> 97 \<le> c \<and> c \<le> 122 \<or> 65 \<le> c \<and> c \<le> 90 \<or> 48 \<le> c \<and> c \<le> 57 \<or> c = 45 \<or> c = 95"

definition validateBridgeName :: "string \<Rightarrow> (net_error, unit) res" where
  "validateBridgeName name =
     (if name = [] then Inl NameEmpty
      else if 15 < length name then Inl NameTooLong
      else if list_all bridge_name_char (runes name) then Inr () else Inl NameInvalid)"

definition setupBridgeIP :: "net_env \<Rightarrow> network_config \<Rightarrow> cmdlog \<Rightarrow> bool \<times> cmdlog" where
  "setupBridgeIP env c log =
     (case run_cmd env [''ip'', ''addr'', ''show'', nc_BridgeName c] log of
        (shown, log1) \<Rightarrow>
          (case run_cmd env [''ip'', ''addr'', ''add'', nc_BridgeIP c, ''dev'', nc_BridgeName c] log1 of
             (added, log2) \<Rightarrow> (shown \<or> added, log2)))"

text \<open>The creation of the bridge, when it does not exist.\<close>

definition create_bridge :: "net_env \<Rightarrow> string \<Rightarrow> cmdlog \<Rightarrow> (net_error, unit) res \<times> cmdlog" where
  "create_bridge env b log =
     (case run_cmd env [''ip'', ''link'', ''show'', b] log of
        (True, log1) \<Rightarrow> (Inr (), log1)
      | (False, log1) \<Rightarrow>
          (case run_cmd env [''ip'', ''link'', ''add'', b, ''type'', ''bridge''] log1 of
             (False, log2) \<Rightarrow> (Inl BridgeCreateFailed, log2)
           | (True, log2) \<Rightarrow>
               (case run_cmd env [''ip'', ''link'', ''set'', b, ''up''] log2 of
                  (ok, log3) \<Rightarrow> (if ok then Inr () else Inl BridgeUpFailed, log3))))"

definition ensureBridge :: "net_env \<Rightarrow> net_manager \<Rightarrow> cmdlog \<Rightarrow> (net_error, unit) res \<times> net_manager \<times> cmdlog" where
  "ensureBridge env nm log =
     (let c = nm_config nm; b = nc_BridgeName c in
      if b \<in> set (nm_bridges nm) then (Inr (), nm, log)
      else (case create_bridge env b log of
              (Inl e, log1) \<Rightarrow> (Inl e, nm, log1)
            | (Inr _, log1) \<Rightarrow>
                let log2 = (if nc_BridgeIP c \<noteq> [] then snd (setupBridgeIP env c log1) else log1);
                    log3 = snd (run_cmd env [''ip'', ''link'', ''set'', b, ''up''] log2);
                    log4 = (if nc_VXLANEnabled c then en_vxlan env log3 else log3)
                in (Inr (), nm\<lparr>nm_bridges := b # nm_bridges nm\<rparr>, log4)))"

text \<open>A firewall rule: added unless the check finds it.\<close>

definition ensure_rule :: "net_env \<Rightarrow> command \<Rightarrow> command \<Rightarrow> cmdlog \<Rightarrow> bool \<times> cmdlog" where
  "ensure_rule env check add log =
     (case run_cmd env check log of (True, log1) \<Rightarrow> (True, log1) | (False, log1) \<Rightarrow> run_cmd env add log1)"

definition setupNAT :: "net_env \<Rightarrow> network_config \<Rightarrow> cmdlog \<Rightarrow> bool \<times> cmdlog" where
  "setupNAT env c log =
     (if nc_Subnet c = [] then (False, log)
      else case run_cmd env [''sysctl'', ''-w'', ''net.ipv4.ip_forward=1''] log of
        (False, log1) \<Rightarrow> (False, log1)
      | (True, log1) \<Rightarrow>
          (case ensure_rule env [''iptables'', ''-t'', ''nat'', ''-C'', ''POSTROUTING'', ''-s'', nc_Subnet c, ''-j'', ''MASQUERADE'']
                  [''iptables'', ''-t'', ''nat'', ''-A'', ''POSTROUTING'', ''-s'', nc_Subnet c, ''-j'', ''MASQUERADE''] log1 of
             (False, log2) \<Rightarrow> (False, log2)
           | (True, log2) \<Rightarrow>
               (case ensure_rule env [''iptables'', ''-C'', ''FORWARD'', ''-i'', nc_BridgeName c, ''-j'', ''ACCEPT'']
                       [''iptables'', ''-A'', ''FORWARD'', ''-i'', nc_BridgeName c, ''-j'', ''ACCEPT''] log2 of
                  (False, log3) \<Rightarrow> (False, log3)
                | (True, log3) \<Rightarrow>
                    ensure_rule env [''iptables'', ''-C'', ''FORWARD'', ''-o'', nc_BridgeName c, ''-j'', ''ACCEPT'']
                      [''iptables'', ''-A'', ''FORWARD'', ''-o'', nc_BridgeName c, ''-j'', ''ACCEPT''] log3)))"

text \<open>
  The DHCP range: offsets from the address of the subnet, 50 and 200 unless configured. An address
  that is not an IPv4 address makes the conversion panic.
\<close>

definition dhcp_range :: "network_config \<Rightarrow> ip_net \<Rightarrow> (ip \<times> ip) option" where
  "dhcp_range c subnet =
     (case To4 (net_IP subnet) of
        None \<Rightarrow> None
      | Some b \<Rightarrow>
          let w = of_nat (be_val b);
              s = (if nc_DHCPRangeStart c = 0 then 50 else nc_DHCPRangeStart c);
              e = (if nc_DHCPRangeEnd c = 0 then 200 else nc_DHCPRangeEnd c)
          in Some (put_word (w + of_int s), put_word (w + of_int e)))"

definition dnsmasq_command :: "network_config \<Rightarrow> ip \<Rightarrow> ip \<Rightarrow> ip \<Rightarrow> command" where
  "dnsmasq_command c s e gw =
     [''dnsmasq'', ''--interface'', nc_BridgeName c, ''--bind-interfaces'',
      ''--dhcp-range'', ip_String s @ '','' @ ip_String e @ '',12h'',
      ''--dhcp-option'', ''3,'' @ ip_String gw, ''--dhcp-option'', ''6,'' @ ip_String gw,
      ''--log-queries'', ''--log-dhcp'', ''--log-facility=/tmp/dnsmasq.log'', ''--pid-file=/tmp/dnsmasq.pid'']"

text \<open>\<open>setupDHCP\<close>: its errors are only logged, so that the result says just whether it panics.\<close>

definition setupDHCP :: "net_env \<Rightarrow> network_config \<Rightarrow> cmdlog \<Rightarrow> (net_error, unit) res \<times> cmdlog" where
  "setupDHCP env c log =
     (if nc_Subnet c = [] \<or> nc_BridgeIP c = [] \<or> \<not> en_dnsmasq env then (Inr (), log)
      else case net_ParseCIDR (nc_Subnet c) of
        None \<Rightarrow> (Inr (), log)
      | Some (_, subnet) \<Rightarrow>
          (case (case net_ParseCIDR (nc_BridgeIP c) of Some (g, _) \<Rightarrow> Some g | None \<Rightarrow> ParseIP (nc_BridgeIP c)) of
             None \<Rightarrow> (Inr (), log)
           | Some gw \<Rightarrow>
               (case dhcp_range c subnet of
                  None \<Rightarrow> (Inl NetPanic, log)
                | Some (s, e) \<Rightarrow>
                    let log1 = (case en_pid env of None \<Rightarrow> log | Some pid \<Rightarrow> snd (run_cmd env [''kill'', pid] log))
                    in (Inr (), snd (run_cmd env (dnsmasq_command c s e gw) log1)))))"

text \<open>\<open>Init\<close>; a failure to set the address of the bridge is only logged.\<close>

definition net_Init :: "net_env \<Rightarrow> net_manager \<Rightarrow> cmdlog \<Rightarrow> (net_error, unit) res \<times> net_manager \<times> cmdlog" where
  "net_Init env nm log =
     (case validateBridgeName (nc_BridgeName (nm_config nm)) of
        Inl e \<Rightarrow> (Inl e, nm, log)
      | Inr _ \<Rightarrow>
          (case ensureBridge env nm log of
             (Inl e, nm1, log1) \<Rightarrow> (Inl e, nm1, log1)
           | (Inr _, nm1, log1) \<Rightarrow>
               (Inr (), nm1, if nc_BridgeIP (nm_config nm1) \<noteq> [] then snd (setupBridgeIP env (nm_config nm1) log1) else log1)))"

subsection \<open>TAP devices\<close>

definition tap_name :: "string \<Rightarrow> nat \<Rightarrow> string" where
  "tap_name taskID i = ''tap-'' @ tap_hash taskID @ ''-'' @ dec_of_nat i"

definition tap_key :: "string \<Rightarrow> string \<Rightarrow> string" where
  "tap_key taskID name = taskID @ ''-'' @ name"

definition ipMaskToCIDR :: "string \<Rightarrow> string" where
  "ipMaskToCIDR netmask =
     (if netmask = [] then ''24''
      else let m = (case ParseIP netmask of
                      None \<Rightarrow> []
                    | Some a \<Rightarrow> (case To4 a of None \<Rightarrow> [] | Some b \<Rightarrow> b))
           in dec_of_nat (fst (mask_Size m)))"

text \<open>
  The address and mask of a TAP: from the attachment, or else allocated. A failed allocation is only logged; the
  allocation divides by zero, and panics, for a subnet \<open>/0\<close>.
\<close>

definition tap_address ::
    "net_env \<Rightarrow> net_attachment \<Rightarrow> string \<Rightarrow> net_manager \<Rightarrow> (net_error, string \<times> string) res \<times> net_manager" where
  "tap_address env net taskID nm =
     (case nat_Addresses net of
        addr # _ \<Rightarrow>
          (case cut CHR ''/'' addr of
             Some (p, _) \<Rightarrow>
               if p = [] then (Inr (addr, []), nm)
               else (Inr (p, case net_ParseCIDR addr of Some (_, n) \<Rightarrow> ip_String (net_Mask n) | None \<Rightarrow> []), nm)
           | None \<Rightarrow> (Inr (addr, []), nm))
      | [] \<Rightarrow>
          (case nm_alloc nm of
             Some al \<Rightarrow>
               if nc_IPMode (nm_config nm) = ''static'' then
                 (case vm_Allocate (en_keys env (al_allocated al)) taskID al of
                    (r, al') \<Rightarrow>
                      ((case r of Inr a \<Rightarrow> Inr (a, []) | Inl e \<Rightarrow> if e = AllocDivideByZero then Inl NetPanic else Inr ([], [])),
                       nm\<lparr>nm_alloc := Some al'\<rparr>))
               else (Inr ([], []), nm)
           | None \<Rightarrow> (Inr ([], []), nm)))"

definition tap_bridge :: "network_config \<Rightarrow> net_attachment \<Rightarrow> string" where
  "tap_bridge c net =
     (case ns_DriverConfig (nat_Spec net) of
        Some (Some b) \<Rightarrow> if b \<noteq> [] then b
          else if ns_Driver (nat_Spec net) = ''overlay'' \<and> 12 \<le> length (nat_NetworkID net)
          then ''br-'' @ take 12 (nat_NetworkID net) else nc_BridgeName c
      | _ \<Rightarrow> if ns_Driver (nat_Spec net) = ''overlay'' \<and> 12 \<le> length (nat_NetworkID net)
          then ''br-'' @ take 12 (nat_NetworkID net) else nc_BridgeName c)"

definition tap_netmask :: "network_config \<Rightarrow> string \<Rightarrow> string" where
  "tap_netmask c m =
     (if m \<noteq> [] then m
      else if nc_Subnet c \<noteq> [] then
        (case net_ParseCIDR (nc_Subnet c) of Some (_, n) \<Rightarrow> ip_String (net_Mask n) | None \<Rightarrow> [])
      else [])"

text \<open>The commands that create a device; a device that cannot be set up is deleted again.\<close>

definition delete_tap :: "net_env \<Rightarrow> string \<Rightarrow> cmdlog \<Rightarrow> cmdlog" where
  "delete_tap env name log = snd (run_cmd env [''ip'', ''link'', ''delete'', name] log)"

definition tap_commands ::
    "net_env \<Rightarrow> string \<Rightarrow> string \<Rightarrow> bool \<Rightarrow> cmdlog \<Rightarrow> (net_error, unit) res \<times> cmdlog" where
  "tap_commands env name b overlay log =
     (case run_cmd env [''ip'', ''tuntap'', ''add'', name, ''mode'', ''tap''] (delete_tap env name log) of
        (False, log1) \<Rightarrow> (Inl TapCreateFailed, log1)
      | (True, log1) \<Rightarrow>
          (case run_cmd env [''ip'', ''link'', ''set'', name, ''up''] log1 of
             (False, log2) \<Rightarrow> (Inl TapUpFailed, delete_tap env name log2)
           | (True, log2) \<Rightarrow>
               (case run_cmd env [''ip'', ''link'', ''show'', b] log2 of
                  (shown, log3) \<Rightarrow>
                    if \<not> shown \<and> overlay then (Inl (OverlayBridgeNotFound b), delete_tap env name log3)
                    else (case run_cmd env [''ip'', ''link'', ''set'', name, ''master'', b] log3 of
                            (False, log4) \<Rightarrow> (Inl TapBridgeFailed, delete_tap env name log4)
                          | (True, log4) \<Rightarrow> (Inr (), log4)))))"

definition createTapDevice ::
    "net_env \<Rightarrow> net_attachment \<Rightarrow> nat \<Rightarrow> string \<Rightarrow> net_manager \<Rightarrow> cmdlog \<Rightarrow> (net_error, tap_device) res \<times> net_manager \<times> cmdlog" where
  "createTapDevice env net i taskID nm log =
     (case tap_address env net taskID nm of
        (Inl e, nm1) \<Rightarrow> (Inl e, nm1, log)
      | (Inr (addr, m), nm1) \<Rightarrow>
          let c = nm_config nm1; name = tap_name taskID i; b = tap_bridge c net in
          (case tap_commands env name b (ns_Driver (nat_Spec net) = ''overlay'') log of
             (Inl e, log1) \<Rightarrow> (Inl e, nm1, log1)
           | (Inr _, log1) \<Rightarrow>
               (Inr \<lparr>tap_Name = name, tap_Bridge = b, tap_IP = addr, tap_Netmask = tap_netmask c m,
                     tap_Gateway = (if nc_BridgeIP c \<noteq> [] then hd (split_on CHR ''/'' (nc_BridgeIP c)) else []),
                     tap_Subnet = nc_Subnet c\<rparr>, nm1, log1)))"

definition store_tap :: "string \<Rightarrow> tap_device \<Rightarrow> net_manager \<Rightarrow> net_manager" where
  "store_tap taskID tap nm = nm\<lparr>nm_taps := (nm_taps nm)(tap_key taskID (tap_Name tap) \<mapsto> tap)\<rparr>"

definition tap_cidr :: "tap_device \<Rightarrow> string" where
  "tap_cidr tap = tap_IP tap @ ''/'' @ ipMaskToCIDR (tap_Netmask tap)"

definition removeTapDevice :: "net_env \<Rightarrow> tap_device \<Rightarrow> cmdlog \<Rightarrow> cmdlog" where
  "removeTapDevice env tap log =
     snd (run_cmd env [''ip'', ''link'', ''delete'', tap_Name tap]
       (snd (run_cmd env [''ip'', ''link'', ''set'', tap_Name tap, ''down''] log)))"

subsection \<open>Preparing the network of a task\<close>

text \<open>
  The loops over the attachments of a task, from the given index on; the result is their new list.
  A caller that gets an error discards the task, so that no list is returned then.
\<close>

fun prepare_taps ::
    "net_env \<Rightarrow> string \<Rightarrow> nat \<Rightarrow> net_attachment list \<Rightarrow> net_manager \<Rightarrow> cmdlog \<Rightarrow>
      (net_error, net_attachment list) res \<times> net_manager \<times> cmdlog" where
  "prepare_taps env taskID i [] nm log = (Inr [], nm, log)"
| "prepare_taps env taskID i (net # nets) nm log =
     (case createTapDevice env net i taskID nm log of
        (Inl e, nm1, log1) \<Rightarrow> (Inl e, nm1, log1)
      | (Inr tap, nm1, log1) \<Rightarrow>
          let net' = (if tap_IP tap \<noteq> [] \<and> nat_Addresses net = [] then net\<lparr>nat_Addresses := [tap_cidr tap]\<rparr> else net)
          in (case prepare_taps env taskID (Suc i) nets (store_tap taskID tap nm1) log1 of
                (Inl e, nm2, log2) \<Rightarrow> (Inl e, nm2, log2)
              | (Inr ns, nm2, log2) \<Rightarrow> (Inr (net' # ns), nm2, log2)))"

text \<open>The name of a network for the plugin; cutting an identifier shorter than eight bytes panics.\<close>

definition cni_network_name :: "net_attachment \<Rightarrow> string option" where
  "cni_network_name net =
     (if ns_Name (nat_Spec net) \<noteq> [] then Some (ns_Name (nat_Spec net))
      else if 8 \<le> length (nat_NetworkID net) then Some (take 8 (nat_NetworkID net)) else None)"

text \<open>One round of the loop of \<open>prepareNetworkWithCNI\<close>.\<close>

definition cni_attach ::
    "net_env \<Rightarrow> string \<Rightarrow> nat \<Rightarrow> net_attachment \<Rightarrow> string \<Rightarrow> net_manager \<Rightarrow> cmdlog \<Rightarrow>
      (net_error, net_attachment) res \<times> net_manager \<times> cmdlog" where
  "cni_attach env taskID i net name nm log =
     (case nat_Addresses net of
        [] \<Rightarrow>
          (case createTapDevice env net i taskID nm log of
             (Inl e, nm1, log1) \<Rightarrow> (Inl e, nm1, log1)
           | (Inr tap, nm1, log1) \<Rightarrow>
               (Inr (if tap_IP tap \<noteq> [] then net\<lparr>nat_Addresses := [tap_cidr tap]\<rparr> else net),
                store_tap taskID tap nm1, log1))
      | addr # _ \<Rightarrow>
          (case en_cniAdd env taskID addr name of
             CniError \<Rightarrow> (Inl (CniAddFailed name), nm, log)
           | CniNoInterface \<Rightarrow> (Inl NetPanic, nm, log)
           | CniResult ifn None \<Rightarrow> (Inr net, nm, log)
           | CniResult ifn (Some (a, m)) \<Rightarrow>
               (Inr net, store_tap taskID \<lparr>tap_Name = ifn, tap_Bridge = nc_BridgeName (nm_config nm), tap_IP = a,
                  tap_Netmask = m, tap_Gateway = [], tap_Subnet = []\<rparr> nm, log)))"

fun prepareNetworkWithCNI ::
    "net_env \<Rightarrow> string \<Rightarrow> nat \<Rightarrow> net_attachment list \<Rightarrow> net_manager \<Rightarrow> cmdlog \<Rightarrow>
      (net_error, net_attachment list) res \<times> net_manager \<times> cmdlog" where
  "prepareNetworkWithCNI env taskID i [] nm log = (Inr [], nm, log)"
| "prepareNetworkWithCNI env taskID i (net # nets) nm log =
     (case cni_network_name net of
        None \<Rightarrow> (Inl NetPanic, nm, log)
      | Some name \<Rightarrow>
          (case cni_attach env taskID i net name nm log of
             (Inl e, nm1, log1) \<Rightarrow> (Inl e, nm1, log1)
           | (Inr net', nm1, log1) \<Rightarrow>
               (case prepareNetworkWithCNI env taskID (Suc i) nets nm1 log1 of
                  (Inl e, nm2, log2) \<Rightarrow> (Inl e, nm2, log2)
                | (Inr ns, nm2, log2) \<Rightarrow> (Inr (net' # ns), nm2, log2))))"

definition default_network :: "network_config \<Rightarrow> net_attachment" where
  "default_network c = \<lparr>nat_NetworkID = ''default'',
     nat_Spec = \<lparr>ns_Name = ''default'', ns_Driver = ''bridge'', ns_DriverConfig = Some (Some (nc_BridgeName c))\<rparr>,
     nat_Addresses = []\<rparr>"

text \<open>
  The part for a task without attachments: a default TAP, which the loop over the attachments then
  creates a second time.
\<close>

definition prepare_default ::
    "net_env \<Rightarrow> string \<Rightarrow> net_manager \<Rightarrow> cmdlog \<Rightarrow> (net_error, net_attachment list) res \<times> net_manager \<times> cmdlog" where
  "prepare_default env taskID nm log =
     (let net = default_network (nm_config nm) in
      case createTapDevice env net 0 taskID nm log of
        (Inl e, nm1, log1) \<Rightarrow> (Inl e, nm1, log1)
      | (Inr tap, nm1, log1) \<Rightarrow>
          prepare_taps env taskID 0
            [if tap_IP tap \<noteq> [] then net\<lparr>nat_Addresses := [tap_cidr tap]\<rparr> else net]
            (store_tap taskID tap nm1) log1)"

definition prepare_host :: "net_env \<Rightarrow> net_manager \<Rightarrow> cmdlog \<Rightarrow> (net_error, unit) res \<times> net_manager \<times> cmdlog" where
  "prepare_host env nm log =
     (case ensureBridge env nm log of
        (Inl e, nm1, log1) \<Rightarrow> (Inl e, nm1, log1)
      | (Inr _, nm1, log1) \<Rightarrow>
          let (nm2, log2) =
                (if nc_NATEnabled (nm_config nm1) \<and> \<not> nm_nat nm1 then
                   (case setupNAT env (nm_config nm1) log1 of
                      (ok, l) \<Rightarrow> (if ok then nm1\<lparr>nm_nat := True\<rparr> else nm1, l))
                 else (nm1, log1))
          in (case setupDHCP env (nm_config nm2) log2 of
                (Inl e, log3) \<Rightarrow> (Inl e, nm2, log3)
              | (Inr _, log3) \<Rightarrow> (Inr (), nm2, log3)))"

definition PrepareNetwork ::
    "net_env \<Rightarrow> task \<Rightarrow> net_manager \<Rightarrow> cmdlog \<Rightarrow> (net_error, task) res \<times> net_manager \<times> cmdlog" where
  "PrepareNetwork env t nm log =
     (case prepare_host env nm log of
        (Inl e, nm1, log1) \<Rightarrow> (Inl e, nm1, log1)
      | (Inr _, nm1, log1) \<Rightarrow>
          (case (if task_Networks t \<noteq> [] then prepareNetworkWithCNI env (task_ID t) 0 (task_Networks t) nm1 log1
                 else prepare_default env (task_ID t) nm1 log1) of
             (Inl e, nm2, log2) \<Rightarrow> (Inl e, nm2, log2)
           | (Inr ns, nm2, log2) \<Rightarrow> (Inr (t\<lparr>task_Networks := ns\<rparr>), nm2, log2)))"

subsection \<open>Cleaning up\<close>

text \<open>The loop over the map of TAP devices, in the order of the given keys.\<close>

definition release_tap :: "tap_device \<Rightarrow> ip_allocator option \<Rightarrow> ip_allocator option" where
  "release_tap tap al = (if tap_IP tap \<noteq> [] then map_option (vm_Release (tap_IP tap)) al else al)"

fun cleanup_taps :: "net_env \<Rightarrow> string \<Rightarrow> string list \<Rightarrow> net_manager \<Rightarrow> cmdlog \<Rightarrow> net_manager \<times> cmdlog" where
  "cleanup_taps env taskID [] nm log = (nm, log)"
| "cleanup_taps env taskID (k # ks) nm log =
     (case nm_taps nm k of
        Some tap \<Rightarrow>
          if prefix (taskID @ ''-'') k then
            cleanup_taps env taskID ks
              (nm\<lparr>nm_taps := (nm_taps nm)(k := None), nm_alloc := release_tap tap (nm_alloc nm)\<rparr>)
              (removeTapDevice env tap log)
          else cleanup_taps env taskID ks nm log
      | None \<Rightarrow> cleanup_taps env taskID ks nm log)"

text \<open>The calls of the plugin for the attachments of the task, which the command log records too.\<close>

definition cni_del :: "net_env \<Rightarrow> string \<Rightarrow> net_attachment \<Rightarrow> cmdlog \<Rightarrow> cmdlog" where
  "cni_del env taskID net log = snd (run_cmd env [''swarmcracker-cni'', ''DEL'', taskID, nat_NetworkID net] log)"

definition CleanupNetwork :: "net_env \<Rightarrow> string list \<Rightarrow> task \<Rightarrow> net_manager \<Rightarrow> cmdlog \<Rightarrow> net_manager \<times> cmdlog" where
  "CleanupNetwork env ks t nm log =
     (case cleanup_taps env (task_ID t) ks nm log of
        (nm1, log1) \<Rightarrow> (nm1, fold (cni_del env (task_ID t)) (task_Networks t) log1))"

definition GetTapIP :: "string list \<Rightarrow> string \<Rightarrow> net_manager \<Rightarrow> (net_error, string) res" where
  "GetTapIP ks taskID nm =
     (case List.map_filter (\<lambda>k. if prefix (taskID @ ''-'') k then nm_taps nm k else None) ks of
        [] \<Rightarrow> Inl NoTapDevice
      | tap # _ \<Rightarrow> if tap_IP tap = [] then Inl NoTapAddress else Inr (tap_IP tap))"

definition ListTapDevices :: "string list \<Rightarrow> net_manager \<Rightarrow> tap_device list" where
  "ListTapDevices ks nm = List.map_filter (nm_taps nm) ks"

end
