(* ===== verification/Go_Space.thy ===== *)
theory Go_Space
  imports Go_Strings
begin

text \<open>
  White space in Go's package \<open>strings\<close>: \<open>TrimSpace\<close> and \<open>Fields\<close>. The white-space characters of
  Unicode are given by their encodings; an encoding never starts inside another character.
\<close>

definition byte_string :: "nat list \<Rightarrow> string" where
  "byte_string = map char_of"

definition space_encodings :: "string list" where
  "space_encodings =
     map (\<lambda>b. byte_string [b]) [9, 10, 11, 12, 13, 32] @
     map (\<lambda>b. byte_string [194, b]) [133, 160] @
     [byte_string [225, 154, 128]] @
     map (\<lambda>b. byte_string [226, 128, b]) ([128..<139] @ [168, 169, 175]) @
     [byte_string [226, 129, 159], byte_string [227, 128, 128]]"

definition leading_space :: "string \<Rightarrow> string option" where
  "leading_space s = find (\<lambda>e. prefix e s) space_encodings"

lemma space_encodings_ne: "e \<in> set space_encodings \<Longrightarrow> e \<noteq> []"
  by (auto simp: space_encodings_def byte_string_def)

lemma leading_space_Some: "leading_space s = Some e \<Longrightarrow> e \<noteq> [] \<and> prefix e s"
  using find_SomeD [of "\<lambda>e. prefix e s" space_encodings e] space_encodings_ne by (auto simp: leading_space_def)

function trim_left :: "string \<Rightarrow> string" where
  "trim_left s = (case leading_space s of None \<Rightarrow> s | Some e \<Rightarrow> trim_left (drop (length e) s))"
  by pat_completeness auto
termination
proof (relation "measure length", goal_cases)
  case (2 s e)
  then have "e \<noteq> [] \<and> prefix e s" by (rule leading_space_Some)
  then show ?case by (auto simp: prefix_def)
qed simp

declare trim_left.simps [simp del]

text \<open>From the right: the same on the reversed string and the reversed encodings.\<close>

definition trailing_space :: "string \<Rightarrow> string option" where
  "trailing_space s = find (\<lambda>e. suffix e s) space_encodings"

lemma trailing_space_Some: "trailing_space s = Some e \<Longrightarrow> e \<noteq> [] \<and> suffix e s"
  using find_SomeD [of "\<lambda>e. suffix e s" space_encodings e] space_encodings_ne by (auto simp: trailing_space_def)

function trim_right :: "string \<Rightarrow> string" where
  "trim_right s = (case trailing_space s of None \<Rightarrow> s | Some e \<Rightarrow> trim_right (take (length s - length e) s))"
  by pat_completeness auto
termination
proof (relation "measure length", goal_cases)
  case (2 s e)
  then have "e \<noteq> [] \<and> suffix e s" by (rule trailing_space_Some)
  then show ?case by (auto simp: suffix_def)
qed simp

declare trim_right.simps [simp del]

definition trim_space :: "string \<Rightarrow> string" where
  "trim_space s = trim_right (trim_left s)"

text \<open>\<open>Fields\<close>: the maximal parts without white space; the second argument is the current part.\<close>

function split_fields :: "string \<Rightarrow> string \<Rightarrow> string list" where
  "split_fields s cur =
     (if s = [] then (if cur = [] then [] else [cur])
      else case leading_space s of
        None \<Rightarrow> split_fields (tl s) (cur @ [hd s])
      | Some e \<Rightarrow> (if cur = [] then [] else [cur]) @ split_fields (drop (length e) s) [])"
  by pat_completeness auto
termination
proof (relation "measure (\<lambda>(s, cur). length s)", goal_cases)
  case (3 s cur e)
  then have "e \<noteq> [] \<and> prefix e s" by (intro leading_space_Some)
  then show ?case by (auto simp: prefix_def)
qed auto

declare split_fields.simps [simp del]

definition fields_of :: "string \<Rightarrow> string list" where
  "fields_of s = split_fields s []"

text \<open>A string of visible ASCII characters has no white space.\<close>

definition visible :: "char \<Rightarrow> bool" where
  "visible c \<longleftrightarrow> 33 \<le> (of_char c :: nat) \<and> (of_char c :: nat) < 127"

lemma space_not_visible: "e \<in> set space_encodings \<Longrightarrow> c \<in> set e \<Longrightarrow> \<not> visible c"
  by (auto simp: space_encodings_def byte_string_def visible_def)

lemma no_leading_space: "s \<noteq> [] \<Longrightarrow> visible (hd s) \<Longrightarrow> leading_space s = None"
proof (rule ccontr)
  assume s: "s \<noteq> []" "visible (hd s)" and "leading_space s \<noteq> None"
  then obtain e where e: "leading_space s = Some e" by blast
  then have m: "e \<in> set space_encodings" "prefix e s" using find_SomeD by (fastforce simp: leading_space_def)+
  then have "hd s \<in> set e" using space_encodings_ne [OF m(1)] by (cases e) (auto simp: prefix_def)
  then show False using space_not_visible [OF m(1)] s by blast
qed

lemma no_trailing_space: "s \<noteq> [] \<Longrightarrow> visible (last s) \<Longrightarrow> trailing_space s = None"
proof (rule ccontr)
  assume s: "s \<noteq> []" "visible (last s)" and "trailing_space s \<noteq> None"
  then obtain e where e: "trailing_space s = Some e" by blast
  then have m: "e \<in> set space_encodings" "suffix e s" using find_SomeD by (fastforce simp: trailing_space_def)+
  then have "last s \<in> set e" using space_encodings_ne [OF m(1)] by (auto simp: suffix_def)
  then show False using space_not_visible [OF m(1)] s by blast
qed

lemma trim_space_visible: "s \<noteq> [] \<Longrightarrow> visible (hd s) \<Longrightarrow> visible (last s) \<Longrightarrow> trim_space s = s"
  by (simp add: trim_space_def trim_left.simps [of s] trim_right.simps [of s] no_leading_space no_trailing_space)

end
