(* ===== verification/Net_Cni_Plugin.thy ===== *)
theory Net_Cni_Plugin
  imports Net_Manager Go_Space
begin

text \<open>
  The TAP and bridge operations of \<open>pkg/network/cni.go\<close> and the CNI plugin of
  \<open>cmd/swarmcracker-cni/main.go\<close>, which uses them. Commands are recorded as in the network manager;
  the output of the command that shows a device is an argument.
\<close>

subsection \<open>TAP devices and bridges\<close>

record cni_tap =
  ct_Name :: string
  ct_MAC :: string
  ct_Bridge :: string

datatype tap_plugin_error =
    PlTapCreate string
  | PlTapUp
  | PlTapBridge string
  | PlTapDelete string
  | PlBridgeCreate string
  | PlBridgeUp
  | PlBridgeSubnet string
  | PlBridgeIP
  | PlAddIP string
  | PlNoMAC
  | PlConfig
  | PlContainerID
  | PlIPRequired
  | PlPanic
  | PlNoDevice string
  | PlNotTap string

definition getTAPMAC :: "string option \<Rightarrow> (tap_plugin_error, string) res" where
  "getTAPMAC output' =
     (case output' of
        None \<Rightarrow> Inl PlNoMAC
      | Some s \<Rightarrow> (case fields_of s of _ # _ # m # _ \<Rightarrow> Inr m | _ \<Rightarrow> Inl PlNoMAC))"

definition CreateTAPDevice ::
    "net_env \<Rightarrow> (string \<Rightarrow> string option) \<Rightarrow> string \<Rightarrow> string \<Rightarrow> cmdlog \<Rightarrow> (tap_plugin_error, cni_tap) res \<times> cmdlog" where
  "CreateTAPDevice env show_dev name bridge log =
     (case run_cmd env [''ip'', ''tuntap'', ''add'', name, ''mode'', ''tap''] (delete_tap env name log) of
        (False, log1) \<Rightarrow> (Inl (PlTapCreate name), log1)
      | (True, log1) \<Rightarrow>
          (case run_cmd env [''ip'', ''link'', ''set'', name, ''up''] log1 of
             (False, log2) \<Rightarrow> (Inl PlTapUp, delete_tap env name log2)
           | (True, log2) \<Rightarrow>
               (case (if bridge \<noteq> [] then run_cmd env [''ip'', ''link'', ''set'', name, ''master'', bridge] log2
                      else (True, log2)) of
                  (False, log3) \<Rightarrow> (Inl (PlTapBridge bridge), delete_tap env name log3)
                | (True, log3) \<Rightarrow>
                    (Inr \<lparr>ct_Name = name,
                          ct_MAC = (case getTAPMAC (show_dev name) of Inr m \<Rightarrow> m | Inl _ \<Rightarrow> ''00:00:00:00:00:00''),
                          ct_Bridge = bridge\<rparr>, log3))))"

definition DeleteTAPDevice :: "net_env \<Rightarrow> string \<Rightarrow> cmdlog \<Rightarrow> (tap_plugin_error, unit) res \<times> cmdlog" where
  "DeleteTAPDevice env name log =
     (case run_cmd env [''ip'', ''link'', ''delete'', name] (snd (run_cmd env [''ip'', ''link'', ''set'', name, ''nomaster''] log)) of
        (ok, log1) \<Rightarrow> (if ok then Inr () else Inl (PlTapDelete name), log1))"

definition TAPDeviceExists :: "net_env \<Rightarrow> string \<Rightarrow> cmdlog \<Rightarrow> bool \<times> cmdlog" where
  "TAPDeviceExists env name log = run_cmd env [''ip'', ''link'', ''show'', name] log"

fun SetupVXLANFDB :: "net_env \<Rightarrow> string list \<Rightarrow> cmdlog \<Rightarrow> cmdlog" where
  "SetupVXLANFDB env [] log = log"
| "SetupVXLANFDB env (p # ps) log =
     (let peer = trim_space p in
      if peer = [] then SetupVXLANFDB env ps log
      else SetupVXLANFDB env ps
        (snd (run_cmd env [''bridge'', ''fdb'', ''add'', ''00:00:00:00:00:00'', ''dev'', ''swarm-br0-vxlan'', ''dst'', peer] log)))"

definition ConfigureTAPIP :: "net_env \<Rightarrow> string \<Rightarrow> string \<Rightarrow> cmdlog \<Rightarrow> (tap_plugin_error, unit) res \<times> cmdlog" where
  "ConfigureTAPIP env name cidr log =
     (case run_cmd env [''ip'', ''addr'', ''add'', cidr, ''dev'', name] log of
        (ok, log1) \<Rightarrow> (if ok then Inr () else Inl (PlAddIP name), log1))"

definition maskToPrefix :: "bytes \<Rightarrow> nat" where
  "maskToPrefix m = fst (mask_Size m)"

text \<open>The address of the bridge: the address of the subnet with its last byte set to 1; zeros for IPv6.\<close>

definition gateway_cidr :: "ip \<Rightarrow> ip_net \<Rightarrow> string" where
  "gateway_cidr a n =
     (let b = (case To4 a of Some x \<Rightarrow> x | None \<Rightarrow> [0, 0, 0, 0])
      in dotted (b[3 := 1]) @ ''/'' @ dec_of_nat (maskToPrefix (net_Mask n)))"

definition CreateBridge :: "net_env \<Rightarrow> string \<Rightarrow> string \<Rightarrow> cmdlog \<Rightarrow> (tap_plugin_error, unit) res \<times> cmdlog" where
  "CreateBridge env name subnet log =
     (case run_cmd env [''ip'', ''link'', ''show'', name] log of
        (True, log1) \<Rightarrow> (Inr (), log1)
      | (False, log1) \<Rightarrow>
          (case run_cmd env [''ip'', ''link'', ''add'', name, ''type'', ''bridge''] log1 of
             (False, log2) \<Rightarrow> (Inl (PlBridgeCreate name), log2)
           | (True, log2) \<Rightarrow>
               (case run_cmd env [''ip'', ''link'', ''set'', name, ''up''] log2 of
                  (False, log3) \<Rightarrow> (Inl PlBridgeUp, delete_tap env name log3)
                | (True, log3) \<Rightarrow>
                    if subnet = [] then (Inr (), log3)
                    else (case net_ParseCIDR subnet of
                            None \<Rightarrow> (Inl (PlBridgeSubnet subnet), log3)
                          | Some (a, n) \<Rightarrow>
                              (case ConfigureTAPIP env name (gateway_cidr a n) log3 of
                                 (Inl _, log4) \<Rightarrow> (Inl PlBridgeIP, delete_tap env name log4)
                               | (Inr _, log4) \<Rightarrow> (Inr (), log4))))))"

subsection \<open>The plugin\<close>

record plugin_conf =
  pc_Bridge :: string
  pc_VXLANEnabled :: bool
  pc_VXLANPeers :: string
  pc_TAPPrefix :: string

text \<open>\<open>parseConfig\<close>: \<open>None\<close> when the document does not decode.\<close>

definition parseConfig :: "plugin_conf option \<Rightarrow> (tap_plugin_error, plugin_conf) res" where
  "parseConfig doc =
     (case doc of
        None \<Rightarrow> Inl PlConfig
      | Some c \<Rightarrow> Inr (if pc_Bridge c = [] then c\<lparr>pc_Bridge := ''swarm-br0''\<rparr> else c))"

definition plugin_tap_name :: "plugin_conf \<Rightarrow> string \<Rightarrow> string" where
  "plugin_tap_name c containerID =
     (if pc_TAPPrefix c = [] then ''tap-'' @ take 8 containerID else pc_TAPPrefix c @ take 8 containerID)"

definition pair_IP :: "string \<Rightarrow> string option" where
  "pair_IP p =
     (case cut CHR ''='' p of
        Some (k, v) \<Rightarrow> if trim_space k = ''IP'' then Some (trim_space v) else None
      | None \<Rightarrow> None)"

definition parseIPFromArgs :: "string \<Rightarrow> string" where
  "parseIPFromArgs args =
     (case List.map_filter pair_IP (split_on CHR '';'' args) of v # _ \<Rightarrow> v | [] \<Rightarrow> [])"

definition parseVXLANPeers :: "string \<Rightarrow> string list" where
  "parseVXLANPeers peers =
     (if peers = [] then [] else filter (\<lambda>p. p \<noteq> []) (map trim_space (split_on CHR '','' peers)))"

text \<open>\<open>parseCIDR\<close>: the network of the text, or the address itself with a mask of 24 bits.\<close>

definition plugin_parseCIDR :: "string \<Rightarrow> ip_net" where
  "plugin_parseCIDR cidr =
     (case net_ParseCIDR cidr of
        Some (_, n) \<Rightarrow> n
      | None \<Rightarrow>
          \<lparr>net_IP = (case ParseIP cidr of Some a \<Rightarrow> a | None \<Rightarrow> v4_mapped [10, 0, 0, 2]), net_Mask = [255, 255, 255, 0]\<rparr>)"

record plugin_result =
  pr_Interface :: string
  pr_Mac :: string
  pr_Address :: ip_net

definition cmdAdd ::
    "net_env \<Rightarrow> (string \<Rightarrow> string option) \<Rightarrow> plugin_conf option \<Rightarrow> string \<Rightarrow> string \<Rightarrow> cmdlog \<Rightarrow> (tap_plugin_error, plugin_result) res \<times> cmdlog" where
  "cmdAdd env show_dev doc containerID args log =
     (case parseConfig doc of
        Inl e \<Rightarrow> (Inl e, log)
      | Inr c \<Rightarrow>
          if containerID = [] then (Inl PlContainerID, log)
          else let name = plugin_tap_name c containerID; addr = (if args = [] then [] else parseIPFromArgs args) in
            if addr = [] then (Inl PlIPRequired, log)
            else (case CreateTAPDevice env show_dev name (pc_Bridge c) log of
                    (Inl e, log1) \<Rightarrow> (Inl e, log1)
                  | (Inr tap, log1) \<Rightarrow>
                      (Inr \<lparr>pr_Interface = name, pr_Mac = ct_MAC tap, pr_Address = plugin_parseCIDR addr\<rparr>,
                       if pc_VXLANEnabled c then SetupVXLANFDB env (parseVXLANPeers (pc_VXLANPeers c)) log1 else log1)))"

definition cmdDel :: "net_env \<Rightarrow> plugin_conf option \<Rightarrow> string \<Rightarrow> cmdlog \<Rightarrow> (tap_plugin_error, unit) res \<times> cmdlog" where
  "cmdDel env doc containerID log =
     (case parseConfig doc of
        Inl e \<Rightarrow> (Inl e, log)
      | Inr c \<Rightarrow> if containerID = [] then (Inl PlContainerID, log)
                else (Inr (), snd (DeleteTAPDevice env (plugin_tap_name c containerID) log)))"

text \<open>\<open>cmdCheck\<close>: \<open>link_type\<close> is the type of a device, if it exists.\<close>

definition cmdCheck :: "(string \<Rightarrow> string option) \<Rightarrow> plugin_conf option \<Rightarrow> string \<Rightarrow> (tap_plugin_error, unit) res" where
  "cmdCheck link_type doc containerID =
     (case parseConfig doc of
        Inl e \<Rightarrow> Inl e
      | Inr c \<Rightarrow>
          if containerID = [] then Inl PlContainerID
          else let name = plugin_tap_name c containerID in
            (case link_type name of
               None \<Rightarrow> Inl (PlNoDevice name)
             | Some ty \<Rightarrow> if ty \<noteq> ''tuntap'' then Inl (PlNotTap name) else Inr ()))"

end
