(* ===== verification/Net_Manager_Correct.thy ===== *)
theory Net_Manager_Correct
  imports Net_Cni_Plugin
begin

text \<open>
  What the network manager and its CNI plugin guarantee: the names of the TAP devices against the
  limit of the kernel and against the machine configuration of the translator, cleanup of exactly the
  devices of a task, the round trip of preparation and cleanup, and the addresses that are passed to
  and reported by the plugin.
\<close>

subsection \<open>Names of TAP devices\<close>

lemma length_concat_pairs: "length (concat (map (\<lambda>b. [f b, g b]) bs)) = 2 * length bs"
  by (induction bs) simp_all

lemma length_tap_hash: "length (tap_hash i) = 12"
  by (simp add: tap_hash_def hex_encode_def length_concat_pairs length_Sum256)

lemma length_tap_name: "18 \<le> length (tap_name i n)"
  using dec_of_nat_ne [of n] by (cases "dec_of_nat n") (simp_all add: tap_name_def length_tap_hash)

definition kernel_limit :: "net_env \<Rightarrow> bool" where
  "kernel_limit env \<longleftrightarrow>
     (\<forall>log name. 15 < length name \<longrightarrow> \<not> en_exec env log [''ip'', ''tuntap'', ''add'', name, ''mode'', ''tap''])"

lemma createTapDevice_too_long:
  assumes "kernel_limit env"
  shows "\<exists>e. fst (createTapDevice env net i taskID nm log) = Inl e"
    and "fst (tap_address env net taskID nm) = Inr p \<Longrightarrow> fst (createTapDevice env net i taskID nm log) = Inl TapCreateFailed"
  using assms length_tap_name [of taskID i]
  by (auto simp: createTapDevice_def tap_commands_def run_cmd_def kernel_limit_def Let_def split: prod.splits sum.splits)

text \<open>
  The names that the manager generates have at least 18 characters. Where the system refuses names of
  more than 15 characters, the limit that \<open>validateBridgeName\<close> enforces for bridges, the network of a
  task without attachments is never prepared.
\<close>

theorem default_network_never_prepared:
  assumes "kernel_limit env" and "task_Networks t = []"
  shows "validateBridgeName (tap_name (task_ID t) i) = Inl NameTooLong \<and>
    (\<exists>e. fst (PrepareNetwork env t nm log) = Inl e)"
proof (rule conjI)
  show "validateBridgeName (tap_name (task_ID t) i) = Inl NameTooLong"
    using length_tap_name [of "task_ID t" i] by (auto simp: validateBridgeName_def)
  show "\<exists>e. fst (PrepareNetwork env t nm log) = Inl e"
  proof (cases "prepare_host env nm log")
    case (fields r nm1 log1)
    then show ?thesis
      using assms(2) createTapDevice_too_long(1) [OF assms(1), of "default_network (nm_config nm1)" 0 "task_ID t" nm1 log1]
      by (auto simp: PrepareNetwork_def prepare_default_def Let_def split: sum.splits prod.splits)
  qed
qed

subsection \<open>Devices and machine configuration\<close>

lemma createTapDevice_name:
  "createTapDevice env net i taskID nm log = (Inr tap, nm', log') \<Longrightarrow> tap_Name tap = tap_name taskID i"
  by (auto simp: createTapDevice_def Let_def split: prod.splits sum.splits)

lemma tap_address_keeps:
  "tap_address env net taskID nm = (p, nm') \<Longrightarrow> nm_taps nm' = nm_taps nm \<and> nm_config nm' = nm_config nm"
  by (auto simp: tap_address_def split: list.splits option.splits prod.splits if_splits)

lemma createTapDevice_keeps:
  "createTapDevice env net i taskID nm log = (r, nm', log') \<Longrightarrow> nm_taps nm' = nm_taps nm \<and> nm_config nm' = nm_config nm"
  by (auto simp: createTapDevice_def Let_def dest: tap_address_keeps split: prod.splits sum.splits)

definition has_tap :: "net_manager \<Rightarrow> string \<Rightarrow> nat \<Rightarrow> bool" where
  "has_tap nm taskID j \<longleftrightarrow>
     (\<exists>tap. nm_taps nm (tap_key taskID (tap_name taskID j)) = Some tap \<and> tap_Name tap = tap_name taskID j)"

lemma has_tap_store: "has_tap nm taskID j \<or> tap_Name tap = tap_name taskID j \<Longrightarrow> has_tap (store_tap taskID tap nm) taskID j"
  by (auto simp: has_tap_def store_tap_def tap_key_def)

lemma has_tap_taps: "nm_taps nm' = nm_taps nm \<Longrightarrow> has_tap nm' taskID j = has_tap nm taskID j"
  by (simp add: has_tap_def)

lemma createTapDevice_has_tap:
  assumes "createTapDevice env net i taskID nm log = (Inr tap, nm', log')" and "has_tap nm taskID j \<or> j = i"
  shows "has_tap (store_tap taskID tap nm') taskID j"
  using has_tap_store [of nm' taskID j tap] createTapDevice_name [OF assms(1)] assms(2)
    has_tap_taps [of nm' nm taskID j] createTapDevice_keeps [OF assms(1)] by blast

lemma cni_attach_has_tap:
  assumes "cni_attach env taskID i net name nm log = (Inr net', nm', log')"
    and "has_tap nm taskID j \<or> j = i \<and> nat_Addresses net = []"
  shows "has_tap nm' taskID j"
proof (cases "nat_Addresses net")
  case Nil
  then obtain tap nm1 where c: "createTapDevice env net i taskID nm log = (Inr tap, nm1, log')"
      and "nm' = store_tap taskID tap nm1"
    using assms(1) by (auto simp: cni_attach_def split: prod.splits sum.splits)
  then show ?thesis using createTapDevice_has_tap [OF c] assms(2) by blast
next
  case (Cons addr as)
  then have "has_tap nm taskID j" using assms(2) by simp
  then show ?thesis using assms(1) Cons
    by (auto simp: cni_attach_def intro: has_tap_store split: cni_answer.splits option.splits)
qed

lemma prepareNetworkWithCNI_has_tap:
  assumes "prepareNetworkWithCNI env taskID i nets nm log = (Inr ns, nm', log')"
  shows "length ns = length nets \<and>
    (\<forall>j. has_tap nm taskID j \<or> i \<le> j \<and> j < i + length nets \<and> nat_Addresses (nets ! (j - i)) = [] \<longrightarrow> has_tap nm' taskID j)"
  using assms
proof (induction nets arbitrary: i nm log ns)
  case (Cons net nets)
  from Cons.prems obtain name net' nm1 log1 ns' where
      c: "cni_attach env taskID i net name nm log = (Inr net', nm1, log1)"
      and r: "prepareNetworkWithCNI env taskID (Suc i) nets nm1 log1 = (Inr ns', nm', log')" and ns: "ns = net' # ns'"
    by (auto split: option.splits prod.splits sum.splits)
  note IH = Cons.IH [OF r]
  show ?case
  proof (intro conjI allI impI)
    fix j
    assume j: "has_tap nm taskID j \<or> i \<le> j \<and> j < i + length (net # nets) \<and> nat_Addresses ((net # nets) ! (j - i)) = []"
    show "has_tap nm' taskID j"
    proof (cases "has_tap nm taskID j \<or> j = i")
      case True
      then have "has_tap nm1 taskID j" using cni_attach_has_tap [OF c] j by auto
      then show ?thesis using IH by blast
    next
      case False
      then have "Suc i \<le> j \<and> j < Suc i + length nets \<and> nat_Addresses (nets ! (j - Suc i)) = []"
        using j by (auto simp: nth_Cons split: nat.splits) (metis Suc_diff_Suc diff_Suc_Suc le_eq_less_or_eq nat.inject)+
      then show ?thesis using IH by blast
    qed
  qed (use IH ns in simp)
qed auto

lemma prepare_taps_has_tap:
  "prepare_taps env taskID i nets nm log = (Inr ns, nm', log') \<Longrightarrow> has_tap nm taskID j \<Longrightarrow>
    length ns = length nets \<and> has_tap nm' taskID j"
proof (induction nets arbitrary: i nm log ns)
  case (Cons net nets)
  from Cons.prems obtain tap nm1 log1 ns' where c: "createTapDevice env net i taskID nm log = (Inr tap, nm1, log1)"
      and r: "prepare_taps env taskID (Suc i) nets (store_tap taskID tap nm1) log1 = (Inr ns', nm', log')"
      and ns: "length ns = Suc (length ns')"
    by (auto simp: Let_def split: option.splits prod.splits sum.splits)
  show ?case using Cons.IH [OF r] createTapDevice_has_tap [OF c] Cons.prems(2) ns by simp
qed simp

text \<open>Preparing the host touches neither devices nor addresses.\<close>

lemma ensureBridge_keeps:
  "ensureBridge env nm log = (r, nm', log') \<Longrightarrow>
     nm_taps nm' = nm_taps nm \<and> nm_alloc nm' = nm_alloc nm \<and> nm_config nm' = nm_config nm"
  by (auto simp: ensureBridge_def Let_def split: prod.splits sum.splits if_splits)

lemma prepare_host_keeps:
  "prepare_host env nm log = (r, nm', log') \<Longrightarrow>
     nm_taps nm' = nm_taps nm \<and> nm_alloc nm' = nm_alloc nm \<and> nm_config nm' = nm_config nm"
  by (auto simp: prepare_host_def Let_def dest!: ensureBridge_keeps split: prod.splits sum.splits if_splits)

lemma prepare_default_has_tap:
  assumes "prepare_default env taskID nm log = (Inr ns, nm', log')"
  shows "length ns = 1 \<and> has_tap nm' taskID 0"
proof -
  obtain tap nm1 log1 net' where c: "createTapDevice env (default_network (nm_config nm)) 0 taskID nm log = (Inr tap, nm1, log1)"
      and r: "prepare_taps env taskID 0 [net'] (store_tap taskID tap nm1) log1 = (Inr ns, nm', log')"
    using assms by (auto simp: prepare_default_def Let_def split: prod.splits sum.splits)
  from prepare_taps_has_tap [OF r createTapDevice_has_tap [OF c, of 0]] show ?thesis by simp
qed

lemma iface_host_dev:
  "i < length (task_Networks t) \<Longrightarrow>
     json_string_field ''host_dev_name'' (buildNetworkInterfaces t ! i) = Some (tap_name (task_ID t) i)"
  by (simp add: buildNetworkInterfaces_def json_string_field_def json_field_def tap_name_def)

lemma prepared_interface:
  assumes "PrepareNetwork env t nm log = (Inr t', nm', log')" and "i < length (task_Networks t')"
    and "i < length (task_Networks t) \<Longrightarrow> nat_Addresses (task_Networks t ! i) = []"
  shows "\<exists>tap. nm_taps nm' (tap_key (task_ID t) (tap_Name tap)) = Some tap \<and>
    json_string_field ''host_dev_name'' (buildNetworkInterfaces t' ! i) = Some (tap_Name tap)"
proof -
  have "task_ID t' = task_ID t"
    using assms(1) by (auto simp: PrepareNetwork_def split: prod.splits sum.splits)
  moreover have "has_tap nm' (task_ID t) i"
  proof (cases "task_Networks t = []")
    case True
    then obtain nm1 log1 ns where d: "prepare_default env (task_ID t) nm1 log1 = (Inr ns, nm', log')" "t' = t\<lparr>task_Networks := ns\<rparr>"
      using assms(1) by (auto simp: PrepareNetwork_def split: prod.splits sum.splits)
    from prepare_default_has_tap [OF d(1)] d(2) assms(2) show ?thesis by simp
  next
    case False
    then obtain nm1 log1 ns where d: "prepareNetworkWithCNI env (task_ID t) 0 (task_Networks t) nm1 log1 = (Inr ns, nm', log')"
        "t' = t\<lparr>task_Networks := ns\<rparr>"
      using assms(1) by (auto simp: PrepareNetwork_def split: prod.splits sum.splits)
    from prepareNetworkWithCNI_has_tap [OF d(1)] d(2) assms(2,3) show ?thesis by simp
  qed
  ultimately show ?thesis using iface_host_dev [OF assms(2)] unfolding has_tap_def by metis
qed

text \<open>
  Claim C6. The manager and the translator agree on the devices: after a successful preparation, every
  interface of the machine configuration whose attachment came without an address, the default
  interface included, names a TAP device that the manager has created and stored for the task.
\<close>

theorem interfaces_have_taps:
  assumes "PrepareNetwork env t nm log = (Inr t', nm', log')" and "i < length (task_Networks t')"
    and "i < length (task_Networks t) \<Longrightarrow> nat_Addresses (task_Networks t ! i) = []"
  shows "\<exists>tap. nm_taps nm' (tap_key (task_ID t) (tap_Name tap)) = Some tap \<and>
    json_string_field ''host_dev_name'' (buildNetworkInterfaces t' ! i) = Some (tap_Name tap)"
  using assms by (rule prepared_interface)

text \<open>
  The plugin and the translator do not: a device that the plugin creates, with a prefix of at most
  nine characters, is never the device that an interface of the machine configuration names.
\<close>

theorem plugin_tap_unused:
  assumes "length (pc_TAPPrefix c) \<le> 9"
  shows "Some (plugin_tap_name c containerID) \<notin> set (map (json_string_field ''host_dev_name'') (buildNetworkInterfaces t))"
proof -
  have "length (plugin_tap_name c containerID) < 18"
    using assms min.cobounded2 [of "length containerID" 8] by (auto simp: plugin_tap_name_def)
  then have "plugin_tap_name c containerID \<noteq> tap_name (task_ID t) i" for i
    using length_tap_name [of "task_ID t" i] by auto
  moreover have "map (json_string_field ''host_dev_name'') (buildNetworkInterfaces t) =
      map (\<lambda>i. Some (tap_name (task_ID t) i)) [0..<length (task_Networks t)]"
    by (simp add: buildNetworkInterfaces_def json_string_field_def json_field_def tap_name_def comp_def)
  ultimately show ?thesis by auto
qed

subsection \<open>Cleanup\<close>

definition task_keys :: "string \<Rightarrow> string set" where
  "task_keys taskID = {k. prefix (taskID @ ''-'') k}"

definition released :: "string \<Rightarrow> string set \<Rightarrow> (string \<rightharpoonup> tap_device) \<Rightarrow> string set" where
  "released taskID ks taps = {tap_IP tap |tap k. k \<in> ks \<inter> task_keys taskID \<and> taps k = Some tap \<and> tap_IP tap \<noteq> []}"

definition without :: "string set \<Rightarrow> ip_allocator \<Rightarrow> ip_allocator" where
  "without as al = al\<lparr>al_allocated := (\<lambda>a. if a \<in> as then None else al_allocated al a)\<rparr>"

lemma without_empty [simp]: "without {} al = al"
  by (simp add: without_def)

lemma without_Release: "without as (vm_Release a al) = without (insert a as) al"
  by (auto simp: without_def vm_Release_def fun_eq_iff)

lemma cleanup_taps_eq:
  "fst (cleanup_taps env taskID ks nm log) =
     nm\<lparr>nm_taps := (\<lambda>k. if k \<in> set ks \<inter> task_keys taskID then None else nm_taps nm k),
        nm_alloc := map_option (without (released taskID (set ks) (nm_taps nm))) (nm_alloc nm)\<rparr>"
proof (induction ks arbitrary: nm log)
  case Nil
  show ?case by (cases "nm_alloc nm") (simp_all add: released_def)
next
  case (Cons k ks)
  show ?case
  proof (cases "\<exists>tap. nm_taps nm k = Some tap \<and> k \<in> task_keys taskID")
    case False
    then have "released taskID (set (k # ks)) (nm_taps nm) = released taskID (set ks) (nm_taps nm)"
      by (auto simp: released_def)
    moreover have "(\<lambda>k'. if k' \<in> set (k # ks) \<inter> task_keys taskID then None else nm_taps nm k') =
        (\<lambda>k'. if k' \<in> set ks \<inter> task_keys taskID then None else nm_taps nm k')"
      using False by (auto simp: fun_eq_iff)
    moreover have "cleanup_taps env taskID (k # ks) nm log = cleanup_taps env taskID ks nm log"
      using False by (auto simp: task_keys_def split: option.splits)
    ultimately show ?thesis using Cons [of nm log] by simp
  next
    case True
    then obtain tap where tap: "nm_taps nm k = Some tap" "k \<in> task_keys taskID" by blast
    let ?taps = "(nm_taps nm)(k := None)"
    have r: "released taskID (set (k # ks)) (nm_taps nm) =
        (if tap_IP tap = [] then {} else {tap_IP tap}) \<union> released taskID (set ks) ?taps"
      using tap by (auto simp: released_def) (metis option.inject)+
    have m: "(\<lambda>k'. if k' \<in> set (k # ks) \<inter> task_keys taskID then None else nm_taps nm k') =
        (\<lambda>k'. if k' \<in> set ks \<inter> task_keys taskID then None else ?taps k')"
      using tap by (auto simp: fun_eq_iff)
    have a: "map_option (without (released taskID (set ks) ?taps)) (release_tap tap al) =
        map_option (without (released taskID (set (k # ks)) (nm_taps nm))) al" for al
      by (cases al) (simp_all add: release_tap_def r [simplified] without_Release)
    have "fst (cleanup_taps env taskID (k # ks) nm log) =
        nm\<lparr>nm_taps := (\<lambda>k'. if k' \<in> set ks \<inter> task_keys taskID then None else ?taps k'),
           nm_alloc := map_option (without (released taskID (set ks) ?taps)) (release_tap tap (nm_alloc nm))\<rparr>"
      using tap by (simp add: Cons task_keys_def del: fun_upd_apply cong: if_cong)
    then show ?thesis by (simp only: m a)
  qed
qed

lemma CleanupNetwork_eq:
  "fst (CleanupNetwork env ks t nm log) = fst (cleanup_taps env (task_ID t) ks nm log)"
  by (simp add: CleanupNetwork_def split: prod.splits)

text \<open>
  Claim C30. Cleaning up a task removes exactly the TAP devices stored under a key that begins with its identifier and a
  hyphen, and gives back exactly their addresses; all else that the manager knows stays as it was. These are the
  devices of the task, and also those of a task whose identifier continues its own with a hyphen.
\<close>

theorem network_cleanup_exact:
  assumes "key_order (nm_taps nm) ks" and "fst (CleanupNetwork env ks t nm log) = nm'"
  shows "nm_taps nm' = nm_taps nm |` (- task_keys (task_ID t)) \<and>
    nm_alloc nm' = map_option (without (released (task_ID t) (dom (nm_taps nm)) (nm_taps nm))) (nm_alloc nm) \<and>
    nm_config nm' = nm_config nm \<and> nm_bridges nm' = nm_bridges nm"
proof -
  have ks: "set ks = dom (nm_taps nm)" using assms(1) by (simp add: key_order_def)
  have "(\<lambda>k. if k \<in> dom (nm_taps nm) \<inter> task_keys (task_ID t) then None else nm_taps nm k) =
      nm_taps nm |` (- task_keys (task_ID t))"
    by (auto simp: fun_eq_iff restrict_map_def domIff)
  then show ?thesis using assms(2) by (auto simp: CleanupNetwork_eq cleanup_taps_eq ks)
qed

lemma prefix_keys_disjoint:
  assumes "CHR ''-'' \<notin> set a" and "CHR ''-'' \<notin> set b" and "a \<noteq> b"
  shows "tap_key b n \<notin> task_keys a"
proof
  assume "tap_key b n \<in> task_keys a"
  then obtain r where "a @ CHR ''-'' # r = b @ CHR ''-'' # n" by (auto simp: task_keys_def tap_key_def prefix_def)
  then have "cut CHR ''-'' (a @ CHR ''-'' # r) = cut CHR ''-'' (b @ CHR ''-'' # n)" by simp
  then show False using assms by (simp add: cut_append)
qed

text \<open>
  Cleaning up one task leaves the devices of another alone when neither identifier has a hyphen.
  Without that, it may not: the devices of the task \<open>a-b\<close> go with those of the task \<open>a\<close>.
\<close>

theorem network_cleanup_isolated:
  assumes "CHR ''-'' \<notin> set (task_ID t)" and "CHR ''-'' \<notin> set other" and "other \<noteq> task_ID t"
  shows "nm_taps (fst (CleanupNetwork env ks t nm log)) (tap_key other n) = nm_taps nm (tap_key other n) \<and>
    (\<forall>m. tap_key (task_ID t @ ''-'' @ m) n \<in> set ks \<longrightarrow>
       nm_taps (fst (CleanupNetwork env ks t nm log)) (tap_key (task_ID t @ ''-'' @ m) n) = None)"
proof -
  have "tap_key (task_ID t @ ''-'' @ m) n \<in> task_keys (task_ID t)" for m
    by (simp add: tap_key_def task_keys_def)
  then show ?thesis
    using prefix_keys_disjoint [OF assms(1,2), of n] assms(3) by (simp add: CleanupNetwork_eq cleanup_taps_eq)
qed

subsection \<open>Preparation and cleanup\<close>

definition no_addr :: "net_env \<Rightarrow> string \<Rightarrow> net_manager \<Rightarrow> bool" where
  "no_addr env taskID nm \<longleftrightarrow>
     (\<forall>al. nm_alloc nm = Some al \<longrightarrow> nc_IPMode (nm_config nm) = ''static'' \<longrightarrow>
        (\<exists>e. fst (vm_Allocate (en_keys env (al_allocated al)) taskID al) = Inl e))"

lemma vm_Allocate_error: "fst (vm_Allocate ks vm al) = Inl e \<Longrightarrow> snd (vm_Allocate ks vm al) = al"
  by (auto simp: vm_Allocate_def split: option.splits if_splits)

lemma tap_address_none:
  assumes "nat_Addresses net = []" and "no_addr env taskID nm"
  shows "\<exists>x. tap_address env net taskID nm = (x, nm) \<and> (x = Inr ([], []) \<or> x = Inl NetPanic)"
proof (cases "nm_alloc nm")
  case (Some al)
  show ?thesis
  proof (cases "nc_IPMode (nm_config nm) = ''static''")
    case True
    then obtain e where e: "fst (vm_Allocate (en_keys env (al_allocated al)) taskID al) = Inl e"
      using assms(2) Some by (auto simp: no_addr_def)
    from vm_Allocate_error [OF e] e have "vm_Allocate (en_keys env (al_allocated al)) taskID al = (Inl e, al)"
      by (simp add: prod_eq_iff)
    moreover have "nm\<lparr>nm_alloc := Some al\<rparr> = nm" using Some by (cases nm) simp
    ultimately show ?thesis using assms(1) Some True by (simp add: tap_address_def)
  qed (use assms(1) Some in \<open>simp add: tap_address_def\<close>)
qed (use assms(1) in \<open>simp add: tap_address_def\<close>)

lemma tap_address_some:
  assumes "nat_Addresses net = []" and "\<not> no_addr env taskID nm"
  obtains al a al' where "nm_alloc nm = Some al"
    and "vm_Allocate (en_keys env (al_allocated al)) taskID al = (Inr a, al')"
    and "tap_address env net taskID nm = (Inr (a, []), nm\<lparr>nm_alloc := Some al'\<rparr>)"
proof -
  from assms(2) obtain al where al: "nm_alloc nm = Some al" "nc_IPMode (nm_config nm) = ''static''"
      "\<And>e. fst (vm_Allocate (en_keys env (al_allocated al)) taskID al) \<noteq> Inl e"
    by (auto simp: no_addr_def)
  then obtain a al' where "vm_Allocate (en_keys env (al_allocated al)) taskID al = (Inr a, al')"
    by (metis prod.exhaust_sel sum.exhaust)
  then show thesis using al assms(1) by (intro that) (simp_all add: tap_address_def)
qed

lemma createTapDevice_address:
  assumes "createTapDevice env net i taskID nm log = (r, nm', log')" and "tap_address env net taskID nm = (x, nm1)"
  shows "nm' = nm1 \<and> (\<forall>tap. r = Inr tap \<longrightarrow> (\<exists>m. x = Inr (tap_IP tap, m)))"
  using assms by (auto simp: createTapDevice_def Let_def split: prod.splits sum.splits)

lemma vm_address_plain:
  assumes "v4_allocator al base n g" and "vm_Allocate ks vm al = (Inr a, al')" and "vm \<notin> ran (al_allocated al)"
  shows "a \<noteq> [] \<and> CHR ''/'' \<notin> set a \<and> al_allocated al a = None \<and> al' = al\<lparr>al_allocated := (al_allocated al)(a \<mapsto> vm)\<rparr>"
  using assms(1,2)
proof (cases rule: vm_Allocate_cases)
  case had
  then show ?thesis using assms(3) by (auto simp: ran_def)
next
  case (new y)
  then have "a \<noteq> []" using dot_in_dotted [of y] by auto
  moreover have "CHR ''/'' \<notin> set a" using new(1) dotted_chars [of "CHR ''/''" y] by auto
  ultimately show ?thesis using new by simp
qed

text \<open>The device of a task without attachments, which the loop stores a second time.\<close>

lemma prepare_default_eq:
  assumes "prepare_default env taskID nm log = (Inr ns, nm', log')"
    and "\<And>al. nm_alloc nm = Some al \<Longrightarrow> (\<exists>base n g. v4_allocator al base n g) \<and> taskID \<notin> ran (al_allocated al)"
  obtains tap where "nm_taps nm' = (nm_taps nm)(tap_key taskID (tap_name taskID 0) \<mapsto> tap)"
    and "no_addr env taskID nm" and "nm_alloc nm' = nm_alloc nm" and "tap_IP tap = []"
  | tap al where "nm_taps nm' = (nm_taps nm)(tap_key taskID (tap_name taskID 0) \<mapsto> tap)" and "nm_alloc nm = Some al"
    and "tap_IP tap \<noteq> []" and "al_allocated al (tap_IP tap) = None"
    and "nm_alloc nm' = Some (al\<lparr>al_allocated := (al_allocated al)(tap_IP tap \<mapsto> taskID)\<rparr>)"
proof -
  let ?net = "default_network (nm_config nm)"
  obtain tap nm1 log1 where c: "createTapDevice env ?net 0 taskID nm log = (Inr tap, nm1, log1)"
    using assms(1) by (auto simp: prepare_default_def Let_def split: prod.splits sum.splits)
  let ?net2 = "if tap_IP tap \<noteq> [] then ?net\<lparr>nat_Addresses := [tap_cidr tap]\<rparr> else ?net" and ?nm2 = "store_tap taskID tap nm1"
  obtain tap2 nm3 log3 where c2: "createTapDevice env ?net2 0 taskID ?nm2 log1 = (Inr tap2, nm3, log3)"
      and nm': "nm' = store_tap taskID tap2 nm3"
    using assms(1) c by (auto simp: prepare_default_def Let_def split: prod.splits sum.splits)
  have e: "nat_Addresses ?net = []" by (simp add: default_network_def)
  note names = createTapDevice_name [OF c] createTapDevice_name [OF c2]
  have taps: "nm_taps nm' = (nm_taps nm)(tap_key taskID (tap_name taskID 0) \<mapsto> tap2)"
    using createTapDevice_keeps [OF c] createTapDevice_keeps [OF c2] names nm' by (simp add: store_tap_def)
  show ?thesis
  proof (cases "no_addr env taskID nm")
    case True
    obtain x where "tap_address env ?net taskID nm = (x, nm)" "x = Inr ([], []) \<or> x = Inl NetPanic" using tap_address_none [OF e True] by blast
    with createTapDevice_address [OF c this(1)] have 1: "nm1 = nm" "tap_IP tap = []" by auto
    then have "no_addr env taskID ?nm2" using True by (simp add: no_addr_def store_tap_def)
    moreover have "nat_Addresses ?net2 = []" using 1 e by simp
    ultimately obtain y where "tap_address env ?net2 taskID ?nm2 = (y, ?nm2)" "y = Inr ([], []) \<or> y = Inl NetPanic" using tap_address_none by blast
    with createTapDevice_address [OF c2 this(1)] have "nm3 = ?nm2" "tap_IP tap2 = []" by auto
    then show ?thesis using taps True nm' 1 by (intro that(1) [of tap2]) (simp_all add: store_tap_def)
  next
    case False
    with e obtain al a al' where al: "nm_alloc nm = Some al"
        "vm_Allocate (en_keys env (al_allocated al)) taskID al = (Inr a, al')"
        "tap_address env ?net taskID nm = (Inr (a, []), nm\<lparr>nm_alloc := Some al'\<rparr>)" by (rule tap_address_some)
    from createTapDevice_address [OF c al(3)] have 1: "nm1 = nm\<lparr>nm_alloc := Some al'\<rparr>" "tap_IP tap = a" by auto
    have p: "a \<noteq> []" "CHR ''/'' \<notin> set a" "al_allocated al a = None" "al' = al\<lparr>al_allocated := (al_allocated al)(a \<mapsto> taskID)\<rparr>"
      using vm_address_plain [OF _ al(2)] assms(2) [OF al(1)] by blast+
    obtain m where "tap_address env ?net2 taskID ?nm2 = (Inr (a, m), ?nm2)"
    proof
      have "cut CHR ''/'' (tap_cidr tap) = Some (a, ipMaskToCIDR (tap_Netmask tap))"
        using p(2) 1(2) by (simp add: tap_cidr_def cut_append)
      then show "tap_address env ?net2 taskID ?nm2 =
          (Inr (a, case net_ParseCIDR (tap_cidr tap) of Some (_, n) \<Rightarrow> ip_String (net_Mask n) | None \<Rightarrow> []), ?nm2)"
        using p(1) 1(2) by (simp add: tap_address_def)
    qed
    from createTapDevice_address [OF c2 this] have "nm3 = ?nm2" "tap_IP tap2 = a" by auto
    then show ?thesis using taps nm' al(1) 1 p by (intro that(2) [of tap2 al]) (simp_all add: store_tap_def)
  qed
qed


text \<open>
  A failed preparation leaks the address: it is allocated before the device is created, and no
  cleanup gives it back, because the device was never stored.
\<close>

theorem failed_prepare_leaks_address:
  assumes "kernel_limit env" and "task_Networks t = []" and "prepare_host env nm log = (Inr (), nm1, log1)"
    and "nm_alloc nm = Some al" and "nc_IPMode (nm_config nm) = ''static''"
    and "v4_allocator al base n g" and "vm_Allocate (en_keys env (al_allocated al)) (task_ID t) al = (Inr a, al')"
    and "dom (nm_taps nm) \<inter> task_keys (task_ID t) = {}"
    and "PrepareNetwork env t nm log = (r, nm', log')"
  shows "r = Inl TapCreateFailed \<and> al_allocated al' a = Some (task_ID t) \<and>
    nm_alloc (fst (CleanupNetwork env ks t nm' log')) = Some al'"
proof -
  note h = prepare_host_keeps [OF assms(3)]
  let ?net = "default_network (nm_config nm1)"
  have ad: "tap_address env ?net (task_ID t) nm1 = (Inr (a, []), nm1\<lparr>nm_alloc := Some al'\<rparr>)"
    using h assms(4,5,7) by (simp add: tap_address_def default_network_def)
  then obtain nm2 log2 where c: "createTapDevice env ?net 0 (task_ID t) nm1 log1 = (Inl TapCreateFailed, nm2, log2)"
    using createTapDevice_too_long(2) [OF assms(1), of ?net "task_ID t" nm1 _ 0 log1] by (metis fst_conv prod.exhaust_sel)
  from createTapDevice_address [OF c ad] have nm2: "nm2 = nm1\<lparr>nm_alloc := Some al'\<rparr>" by simp
  have r: "r = Inl TapCreateFailed" "nm' = nm2"
    using assms(9) by (simp_all add: PrepareNetwork_def assms(2,3) prepare_default_def Let_def c)
  have "released (task_ID t) (set ks) (nm_taps nm') = {}"
    using assms(8) h r nm2 by (auto simp: released_def)
  then have "nm_alloc (fst (CleanupNetwork env ks t nm' log')) = Some al'"
    using r nm2 by (simp add: CleanupNetwork_eq cleanup_taps_eq)
  moreover have "al_allocated al' a = Some (task_ID t)"
    using assms(6,7) by (cases rule: vm_Allocate_cases) auto
  ultimately show ?thesis using r by blast
qed

subsection \<open>Addresses\<close>

lemma tap_cidr_parses:
  assumes "length a = 4" and "n \<le> 32" and "tap_IP tap = dotted a" and "tap_Netmask tap = ip_String (cidr_mask n 4)"
  shows "net_ParseCIDR (tap_cidr tap) = Some (v4_mapped a, v4_net a n)"
proof -
  let ?m = "cidr_mask n 4"
  have m: "To4 ?m = Some ?m" "ip_String ?m = dotted ?m" by (simp_all add: ip_String_v4)
  then have "ParseIP (dotted ?m) = Some (v4_mapped ?m)" using ParseIP_String_v4 [of ?m ?m] by simp
  moreover have "dotted ?m \<noteq> []" using dot_in_dotted [of ?m] by auto
  ultimately have "ipMaskToCIDR (tap_Netmask tap) = dec_of_nat n"
    using assms(2,4) m by (simp add: ipMaskToCIDR_def mask_Size_cidr)
  then show ?thesis using ParseCIDR_dotted [OF assms(1,2)] assms(3) by (simp add: tap_cidr_def)
qed

text \<open>
  The text of a mask and the length of its prefix agree: the address that the manager writes into
  the attachment parses back to the address of the device and the subnet of the allocator.
\<close>

theorem tap_cidr_roundtrip:
  assumes "length a = 4" and "n \<le> 32" and "tap_IP tap = dotted a" and "tap_Netmask tap = ip_String (cidr_mask n 4)"
  shows "net_ParseCIDR (tap_cidr tap) = Some (v4_mapped a, v4_net a n)"
  using assms by (rule tap_cidr_parses)

lemma visible_digit: "is_digit c \<Longrightarrow> visible c"
  by (simp add: is_digit_def visible_def)

lemma trim_IP: "trim_space ''IP'' = ''IP''"
  by (rule trim_space_visible) (simp_all add: visible_def)

lemma parseIPFromArgs_cidr:
  assumes "length a = 4"
  shows "parseIPFromArgs (''IP='' @ dotted a @ ''/'' @ dec_of_nat n) = dotted a @ ''/'' @ dec_of_nat n"
proof -
  let ?v = "dotted a @ ''/'' @ dec_of_nat n"
  have dot: "visible CHR ''.''" "\<not> is_digit CHR '';''" by (simp_all add: visible_def is_digit_def)
  have d1: "visible c \<and> c \<noteq> CHR '';''" if "c \<in> set (dotted a)" for c
    using dotted_chars [OF that] visible_digit dot by auto
  have d2: "visible c \<and> c \<noteq> CHR '';''" if "c \<in> set (dec_of_nat n)" for c
    using dec_of_nat_digits [OF that] visible_digit dot by auto
  have ne: "dotted a \<noteq> []" "dec_of_nat n \<noteq> []" using dot_in_dotted [OF assms] by auto
  have "trim_space ?v = ?v"
    by (rule trim_space_visible) (use d1 d2 ne in \<open>simp_all\<close>)
  moreover have "split_on CHR '';'' (''IP='' @ ?v) = [''IP='' @ ?v]"
    by (rule split_on_no_sep) (use d1 d2 in auto)
  moreover have "cut CHR ''='' (''IP='' @ ?v) = Some (''IP'', ?v)" by simp
  ultimately show ?thesis by (simp add: parseIPFromArgs_def pair_IP_def trim_IP map_filter_def del: append.simps)
qed

text \<open>
  The address that the manager passes to the plugin arrives as it was sent, but the plugin reports
  the address of its network: the address that is assigned to the task is lost.
\<close>

theorem plugin_reports_network_address:
  assumes "length a = 4" and "n \<le> 32"
    and "cmdAdd env show_dev doc taskID (''IP='' @ dotted a @ ''/'' @ dec_of_nat n) log = (Inr r, log')"
  shows "parseIPFromArgs (''IP='' @ dotted a @ ''/'' @ dec_of_nat n) = dotted a @ ''/'' @ dec_of_nat n \<and>
    pr_Address r = \<lparr>net_IP = mask_bytes (cidr_mask n 4) a, net_Mask = cidr_mask n 4\<rparr>"
proof -
  let ?args = "''IP='' @ dotted a @ ''/'' @ dec_of_nat n"
  have p: "parseIPFromArgs ?args = dotted a @ ''/'' @ dec_of_nat n" by (rule parseIPFromArgs_cidr [OF assms(1)])
  have "?args \<noteq> []" by simp
  with assms(3) have "pr_Address r = plugin_parseCIDR (parseIPFromArgs ?args)"
    by (auto simp: cmdAdd_def Let_def simp del: append.simps split: sum.splits prod.splits if_splits)
  then show ?thesis
    using p ParseCIDR_dotted [OF assms(1,2)] by (simp add: plugin_parseCIDR_def v4_net_def)
qed

subsection \<open>Examples\<close>

text \<open>A host on which every command succeeds, and one whose kernel refuses long device names.\<close>

definition ok_env :: net_env where
  "ok_env = \<lparr>en_exec = (\<lambda>_ _. True), en_vxlan = id, en_dnsmasq = False, en_pid = None,
     en_cniAdd = (\<lambda>_ _ _. CniError), en_keys = (\<lambda>_. [])\<rparr>"

definition linux_env :: net_env where
  "linux_env = ok_env\<lparr>en_exec := (\<lambda>_ c. \<not> (take 3 c = [''ip'', ''tuntap'', ''add''] \<and> 15 < length (c ! 3)))\<rparr>"

lemma linux_limit: "kernel_limit linux_env"
  by (simp add: kernel_limit_def linux_env_def)

definition example_net_task :: task where
  "example_net_task = \<lparr>task_ID = ''t1'', task_ServiceID = [], task_NodeID = [], task_Spec = zero_spec, task_Status = zero_status,
     task_Networks = [], task_Secrets = [], task_Configs = [], task_Annotations = Map.empty\<rparr>"

definition example_manager :: net_manager where
  "example_manager =
     \<lparr>nm_config = \<lparr>nc_BridgeName = ''swarm-br0'', nc_Subnet = ''10.0.0.0/24'', nc_BridgeIP = ''10.0.0.1/24'', nc_IPMode = ''static'',
        nc_NATEnabled = False, nc_DHCPRangeStart = 0, nc_DHCPRangeEnd = 0, nc_VXLANEnabled = False\<rparr>,
      nm_bridges = [''swarm-br0''], nm_taps = Map.empty, nm_alloc = Some example_vm_allocator, nm_nat = False\<rparr>"

lemma example_net_host: "en_dnsmasq env = False \<Longrightarrow> prepare_host env example_manager log = (Inr (), example_manager, log)"
  by (simp add: prepare_host_def ensureBridge_def setupDHCP_def example_manager_def Let_def)

lemma ok_commands: "\<exists>log'. tap_commands ok_env name b ov log = (Inr (), log')"
  by (simp add: tap_commands_def run_cmd_def ok_env_def Let_def)

text \<open>The subnet of the example is no \<open>/0\<close>, so that no allocation panics.\<close>

definition on_example_subnet :: "net_manager \<Rightarrow> bool" where
  "on_example_subnet nm \<longleftrightarrow> (\<forall>al. nm_alloc nm = Some al \<longrightarrow> al_subnet al = al_subnet example_vm_allocator)"

lemma example_no_panic:
  assumes "al_subnet al = al_subnet example_vm_allocator"
  shows "fst (vm_Allocate ks vm al) \<noteq> Inl AllocDivideByZero" and "al_subnet (snd (vm_Allocate ks vm al)) = al_subnet al"
proof -
  obtain x where "hashToIP (al_subnet al) vm = Some x" using hash_in_range [OF example_v4, of vm] assms by fastforce
  then show "fst (vm_Allocate ks vm al) \<noteq> Inl AllocDivideByZero" by (simp add: vm_Allocate_def split: option.splits)
  show "al_subnet (snd (vm_Allocate ks vm al)) = al_subnet al" by (simp add: vm_Allocate_def split: option.splits)
qed

lemma ok_createTapDevice:
  assumes "on_example_subnet nm"
  shows "\<exists>tap nm' log'. createTapDevice ok_env net i taskID nm log = (Inr tap, nm', log') \<and> on_example_subnet nm'"
proof -
  have "\<exists>a m nm1. tap_address ok_env net taskID nm = (Inr (a, m), nm1) \<and> on_example_subnet nm1"
  proof (cases "nat_Addresses net")
    case Nil
    show ?thesis
    proof (cases "nm_alloc nm")
      case (Some al)
      then have al: "al_subnet al = al_subnet example_vm_allocator" using assms by (simp add: on_example_subnet_def)
      obtain r al' where a: "vm_Allocate (en_keys ok_env (al_allocated al)) taskID al = (r, al')" by fastforce
      have "r \<noteq> Inl AllocDivideByZero" "al_subnet al' = al_subnet al" using example_no_panic [OF al, of _ taskID] a by (metis fst_conv, metis snd_conv)
      then show ?thesis using Nil Some a al assms by (cases r) (auto simp: tap_address_def on_example_subnet_def)
    qed (use Nil assms in \<open>simp add: tap_address_def\<close>)
  qed (use assms in \<open>auto simp: tap_address_def split: option.splits\<close>)
  then obtain a m nm1 where "tap_address ok_env net taskID nm = (Inr (a, m), nm1)" "on_example_subnet nm1" by blast
  then show ?thesis
    using ok_commands [of "tap_name taskID i" "tap_bridge (nm_config nm1) net" "ns_Driver (nat_Spec net) = ''overlay''" log]
    by (auto simp: createTapDevice_def Let_def)
qed

lemma ok_prepare_task:
  assumes "task_Networks t = []"
  shows "\<exists>n nm' log'. PrepareNetwork ok_env t example_manager [] = (Inr (t\<lparr>task_Networks := [n]\<rparr>), nm', log')"
proof -
  let ?net = "default_network (nm_config example_manager)"
  obtain tap nm1 log1 where 1: "createTapDevice ok_env ?net 0 (task_ID t) example_manager [] = (Inr tap, nm1, log1)"
      and s: "on_example_subnet nm1"
  proof -
    have "on_example_subnet example_manager" by (simp add: on_example_subnet_def example_manager_def)
    from ok_createTapDevice [OF this] show thesis using that by blast
  qed
  let ?net2 = "if tap_IP tap \<noteq> [] then ?net\<lparr>nat_Addresses := [tap_cidr tap]\<rparr> else ?net"
  obtain tap2 nm2 log2 where 2: "createTapDevice ok_env ?net2 0 (task_ID t) (store_tap (task_ID t) tap nm1) log1 = (Inr tap2, nm2, log2)"
  proof -
    have "on_example_subnet (store_tap (task_ID t) tap nm1)" using s unfolding on_example_subnet_def store_tap_def by force
    from ok_createTapDevice [OF this] show thesis using that by blast
  qed
  have "en_dnsmasq ok_env = False" by (simp add: ok_env_def)
  from example_net_host [OF this, of "[]"] 1 2 assms show ?thesis
    by (auto simp: PrepareNetwork_def prepare_default_def Let_def)
qed

lemma ok_prepare:
  obtains t' nm' log' where "PrepareNetwork ok_env example_net_task example_manager [] = (Inr t', nm', log')"
    and "length (task_Networks t') = 1"
  using ok_prepare_task [of example_net_task] that by (fastforce simp: example_net_task_def)

theorem default_network_never_prepared_witness:
  "\<exists>e. fst (PrepareNetwork linux_env example_net_task example_manager []) = Inl e"
proof -
  have "task_Networks example_net_task = []" by (simp add: example_net_task_def)
  from default_network_never_prepared [OF linux_limit this] show ?thesis by blast
qed

theorem interfaces_have_taps_witness:
  "\<exists>t' nm' log' tap. PrepareNetwork ok_env example_net_task example_manager [] = (Inr t', nm', log') \<and>
     nm_taps nm' (tap_key ''t1'' (tap_Name tap)) = Some tap \<and>
     json_string_field ''host_dev_name'' (buildNetworkInterfaces t' ! 0) = Some (tap_Name tap)"
proof -
  obtain t' nm' log' where p: "PrepareNetwork ok_env example_net_task example_manager [] = (Inr t', nm', log')"
      "length (task_Networks t') = 1" by (rule ok_prepare)
  from interfaces_have_taps [OF p(1), of 0] p show ?thesis by (auto simp: example_net_task_def)
qed

theorem plugin_tap_unused_witness:
  "Some ''tap-c1'' \<notin> set (map (json_string_field ''host_dev_name'') (buildNetworkInterfaces example_net_task))"
  using plugin_tap_unused [of "\<lparr>pc_Bridge = [], pc_VXLANEnabled = False, pc_VXLANPeers = [], pc_TAPPrefix = []\<rparr>" "''c1''" example_net_task]
  by (simp add: plugin_tap_name_def)

text \<open>A manager with devices of the tasks \<open>t1\<close>, \<open>t1-x\<close> and \<open>t2\<close>: the cleanup of \<open>t1\<close> takes those of \<open>t1-x\<close> too.\<close>

definition busy_tap :: "string \<Rightarrow> string \<Rightarrow> tap_device" where
  "busy_tap name a = \<lparr>tap_Name = name, tap_Bridge = ''swarm-br0'', tap_IP = a, tap_Netmask = [], tap_Gateway = [], tap_Subnet = []\<rparr>"

definition busy_manager :: net_manager where
  "busy_manager = example_manager\<lparr>
     nm_taps := [''t1-a'' \<mapsto> busy_tap ''a'' ''10.0.0.5'', ''t1-x-b'' \<mapsto> busy_tap ''b'' ''10.0.0.6'', ''t2-c'' \<mapsto> busy_tap ''c'' ''10.0.0.7''],
     nm_alloc := Some (example_vm_allocator\<lparr>al_allocated := [''10.0.0.5'' \<mapsto> ''t1'', ''10.0.0.6'' \<mapsto> ''t1-x'', ''10.0.0.7'' \<mapsto> ''t2'']\<rparr>)\<rparr>"

theorem network_cleanup_exact_witness:
  "\<exists>nm'. fst (CleanupNetwork ok_env [''t1-a'', ''t1-x-b'', ''t2-c''] example_net_task busy_manager []) = nm' \<and>
     nm_taps nm' = [''t2-c'' \<mapsto> busy_tap ''c'' ''10.0.0.7''] \<and>
     nm_alloc nm' = Some (example_vm_allocator\<lparr>al_allocated := [''10.0.0.7'' \<mapsto> ''t2'']\<rparr>)"
proof -
  let ?ks = "[''t1-a'', ''t1-x-b'', ''t2-c'']"
  have k: "key_order (nm_taps busy_manager) ?ks" by (auto simp: key_order_def busy_manager_def)
  have t: "task_ID example_net_task = ''t1''" by (simp add: example_net_task_def)
  have i: "tap_IP (busy_tap n a) = a" for n a by (simp add: busy_tap_def)
  have "released ''t1'' (dom (nm_taps busy_manager)) (nm_taps busy_manager) \<subseteq> {''10.0.0.5'', ''10.0.0.6''}"
    by (auto simp: released_def task_keys_def busy_manager_def i split: if_splits)
  moreover have "a \<in> released ''t1'' (dom (nm_taps busy_manager)) (nm_taps busy_manager)"
    if "nm_taps busy_manager k = Some (busy_tap n a)" "k \<in> task_keys ''t1''" "a \<noteq> []" for a k n
    unfolding released_def mem_Collect_eq using that by (intro exI [of _ "busy_tap n a"] exI [of _ k]) (auto simp: i)
  note this [of "''t1-a''" "''a''" "''10.0.0.5''"] this [of "''t1-x-b''" "''b''" "''10.0.0.6''"]
  ultimately have r: "released ''t1'' (dom (nm_taps busy_manager)) (nm_taps busy_manager) = {''10.0.0.5'', ''10.0.0.6''}"
    by (simp add: task_keys_def busy_manager_def subset_antisym)
  have "nm_taps busy_manager |` (- task_keys ''t1'') = [''t2-c'' \<mapsto> busy_tap ''c'' ''10.0.0.7'']"
    by (auto simp: fun_eq_iff restrict_map_def task_keys_def busy_manager_def)
  moreover have "map_option (without {''10.0.0.5'', ''10.0.0.6''}) (nm_alloc busy_manager) =
      Some (example_vm_allocator\<lparr>al_allocated := [''10.0.0.7'' \<mapsto> ''t2'']\<rparr>)"
    by (auto simp: without_def busy_manager_def fun_eq_iff)
  ultimately show ?thesis using network_cleanup_exact [OF k refl, of ok_env example_net_task "[]"] unfolding t r by metis
qed

theorem network_cleanup_isolated_witness:
  "nm_taps (fst (CleanupNetwork ok_env [tap_key ''t1-x'' ''n''] example_net_task example_manager [])) (tap_key ''t1-x'' ''n'') = None"
proof -
  have "CHR ''-'' \<notin> set (task_ID example_net_task)" "CHR ''-'' \<notin> set ''t2''" "''t2'' \<noteq> task_ID example_net_task"
    by (simp_all add: example_net_task_def)
  from network_cleanup_isolated [OF this, of ok_env "[tap_key ''t1-x'' ''n'']" example_manager "[]" "''n''"]
  show ?thesis by (auto simp: example_net_task_def)
qed

lemma example_manager_alloc:
  "nm_alloc example_manager = Some al \<Longrightarrow> (\<exists>base n g. v4_allocator al base n g) \<and> vm \<notin> ran (al_allocated al)"
  using example_v4 by (auto simp: example_manager_def example_vm_allocator_def)


theorem failed_prepare_leaks_address_witness:
  "\<exists>r nm' log' a al'. PrepareNetwork linux_env example_net_task example_manager [] = (r, nm', log') \<and>
     al_allocated al' a = Some ''t1'' \<and> nm_alloc (fst (CleanupNetwork linux_env [] example_net_task nm' log')) = Some al'"
proof -
  have e: "task_Networks example_net_task = []" "nm_alloc example_manager = Some example_vm_allocator"
      "nc_IPMode (nm_config example_manager) = ''static''"
      "dom (nm_taps example_manager) \<inter> task_keys (task_ID example_net_task) = {}"
    by (simp_all add: example_net_task_def example_manager_def)
  have h: "prepare_host linux_env example_manager [] = (Inr (), example_manager, [])"
    by (rule example_net_host) (simp add: linux_env_def ok_env_def)
  have "\<exists>a al'. vm_Allocate (en_keys linux_env (al_allocated example_vm_allocator)) ''t1'' example_vm_allocator = (Inr a, al') \<and>
      al_allocated al' a = Some ''t1''"
    by (rule alloc_succeeds [OF example_v4, of "[10, 0, 0, 2]"]) (simp_all add: example_subnet example_vm_allocator_def)
  then obtain a al' where a: "vm_Allocate (en_keys linux_env (al_allocated example_vm_allocator)) (task_ID example_net_task)
      example_vm_allocator = (Inr a, al')" by (auto simp: example_net_task_def)
  obtain r nm' log' where p: "PrepareNetwork linux_env example_net_task example_manager [] = (r, nm', log')"
    by (metis prod.exhaust)
  from failed_prepare_leaks_address [OF linux_limit e(1) h e(2,3) example_v4 a e(4) p, of "[]"] p
  show ?thesis by (auto simp: example_net_task_def)
qed

theorem tap_cidr_roundtrip_witness:
  "net_ParseCIDR (tap_cidr \<lparr>tap_Name = [], tap_Bridge = [], tap_IP = dotted [10, 0, 0, 2], tap_Netmask = ip_String (cidr_mask 24 4),
     tap_Gateway = [], tap_Subnet = []\<rparr>) = Some (v4_mapped [10, 0, 0, 2], v4_net [10, 0, 0, 2] 24)"
  by (rule tap_cidr_roundtrip) simp_all

lemma ok_cmdAdd:
  assumes "args \<noteq> []" and "parseIPFromArgs args \<noteq> []" and "containerID \<noteq> []"
  shows "\<exists>r log'. cmdAdd ok_env show_dev (Some c) containerID args log = (Inr r, log')"
  using assms by (simp add: cmdAdd_def parseConfig_def CreateTAPDevice_def run_cmd_def ok_env_def Let_def)

theorem plugin_reports_network_address_witness:
  "\<exists>r log'. cmdAdd ok_env (\<lambda>_. None) (Some \<lparr>pc_Bridge = [], pc_VXLANEnabled = False, pc_VXLANPeers = [], pc_TAPPrefix = []\<rparr>)
     ''c1'' (''IP='' @ dotted [10, 0, 0, 2] @ ''/'' @ dec_of_nat 24) [] = (Inr r, log') \<and> net_IP (pr_Address r) = [10, 0, 0, 0]"
proof -
  let ?doc = "Some \<lparr>pc_Bridge = [], pc_VXLANEnabled = False, pc_VXLANPeers = [], pc_TAPPrefix = []\<rparr>"
  let ?args = "''IP='' @ dotted [10, 0, 0, 2] @ ''/'' @ dec_of_nat 24"
  have "parseIPFromArgs ?args \<noteq> []" by (subst parseIPFromArgs_cidr) (simp_all add: dotted4)
  then obtain r log' where r: "cmdAdd ok_env (\<lambda>_. None) ?doc ''c1'' ?args [] = (Inr r, log')"
    using ok_cmdAdd [of ?args "''c1''"] by blast
  have "mask_bytes (cidr_mask 24 4) [10, 0, 0, 2] = [10, 0, 0, 0 :: byte]" by code_simp
  with plugin_reports_network_address [OF _ _ r] r show ?thesis by auto
qed

end
