(* ===== verification/Task_Translator.thy ===== *)
theory Task_Translator
  imports Net_Manager_Correct
begin

text \<open>
  The task translator of \<open>pkg/translator/translator.go\<close>, which the library executor uses: machine
  resources from the limits of the task, boot arguments with the address and the command of the
  container, network interfaces, the root drive and a drive per mount. Results are compared with the
  network manager and with the translator of \<open>pkg/swarmkit\<close>.
\<close>

subsection \<open>Configuration\<close>

record vm_translator =
  vt_kernelPath :: string
  vt_initrdPath :: string
  vt_defaultVCPUs :: int
  vt_defaultMemMB :: int
  vt_initSystem :: string
  vt_initPath :: string
  vt_networkConfig :: network_config

record translator_config =
  tc_KernelPath :: string
  tc_InitrdPath :: string
  tc_DefaultVCPUs :: int
  tc_DefaultMemMB :: int
  tc_InitSystem :: string
  tc_NetworkConfig :: network_config

text \<open>The untyped argument of the constructor: its own configuration, that of the lifecycle manager
  (kernel, vCPUs, memory), or another value.\<close>

datatype translator_arg = TrConfig translator_config | TrManager string int int | TrOther

definition zero_network_config :: network_config where
  "zero_network_config = \<lparr>nc_BridgeName = [], nc_Subnet = [], nc_BridgeIP = [], nc_IPMode = [], nc_NATEnabled = False,
     nc_DHCPRangeStart = 0, nc_DHCPRangeEnd = 0, nc_VXLANEnabled = False\<rparr>"

definition getInitPath :: "string \<Rightarrow> string" where
  "getInitPath s = (if s = ''tini'' then ''/sbin/tini'' else if s = ''dumb-init'' then ''/sbin/dumb-init'' else [])"

definition default_translator :: vm_translator where
  "default_translator = \<lparr>vt_kernelPath = ''/usr/share/firecracker/vmlinux'', vt_initrdPath = [], vt_defaultVCPUs = 1,
     vt_defaultMemMB = 512, vt_initSystem = ''tini'', vt_initPath = getInitPath ''tini'', vt_networkConfig = zero_network_config\<rparr>"

definition new_translator :: "translator_arg \<Rightarrow> vm_translator" where
  "new_translator arg =
     (case arg of
        TrConfig c \<Rightarrow>
          \<lparr>vt_kernelPath = tc_KernelPath c, vt_initrdPath = tc_InitrdPath c, vt_defaultVCPUs = tc_DefaultVCPUs c,
           vt_defaultMemMB = tc_DefaultMemMB c, vt_initSystem = tc_InitSystem c, vt_initPath = getInitPath (tc_InitSystem c),
           vt_networkConfig = tc_NetworkConfig c\<rparr>
      | TrManager k v m \<Rightarrow> default_translator\<lparr>vt_kernelPath := k, vt_defaultVCPUs := v, vt_defaultMemMB := m\<rparr>
      | TrOther \<Rightarrow> default_translator)"

record machine_config =
  mc_VcpuCount :: int
  mc_MemSizeMib :: int

record vm_interface =
  vi_IfaceID :: string
  vi_HostDevName :: string

record vm_drive =
  dr_DriveID :: string
  dr_IsRootDevice :: bool
  dr_PathOnHost :: string
  dr_IsReadOnly :: bool

record vmm_document =
  vd_KernelImagePath :: string
  vd_BootArgs :: string
  vd_InitrdPath :: string
  vd_Machine :: machine_config
  vd_Interfaces :: "vm_interface list"
  vd_Drives :: "vm_drive list"

datatype mount_error = MountPathEmpty | MountPathParent | MountPathNull

datatype vt_error =
    VtTaskNil
  | VtNotContainer runtime_error
  | VtRootfsMissing
  | VtMountSource nat mount_error
  | VtMountTarget nat mount_error

subsection \<open>The parts of a configuration\<close>

text \<open>The network part of the boot arguments.\<close>

definition boot_gateway :: "vm_translator \<Rightarrow> string \<Rightarrow> string" where
  "boot_gateway tt clientIP =
     (let gateway = (if nc_BridgeIP (vt_networkConfig tt) \<noteq> [] then
                       (case net_ParseCIDR (nc_BridgeIP (vt_networkConfig tt)) of Some (g, _) \<Rightarrow> ip_String g | None \<Rightarrow> [])
                     else [])
      in if gateway = [] then
           (case split_on CHR ''.'' clientIP of [a, b, c, d] \<Rightarrow> a @ ''.'' @ b @ ''.'' @ c @ ''.1'' | _ \<Rightarrow> [])
         else gateway)"

definition ip_argument :: "vm_translator \<Rightarrow> task \<Rightarrow> string" where
  "ip_argument tt t =
     (case task_Networks t of
        n # _ \<Rightarrow>
          (case nat_Addresses n of
             cidr # _ \<Rightarrow>
               (case net_ParseCIDR cidr of
                  Some (a, ipNet) \<Rightarrow>
                    ''ip='' @ ip_String a @ ''::'' @ boot_gateway tt (ip_String a) @ '':'' @ dotted (take 4 (net_Mask ipNet))
                      @ ''::eth0:off''
                | None \<Rightarrow> ''ip=dhcp'')
           | [] \<Rightarrow> ''ip=dhcp'')
      | [] \<Rightarrow> ''ip=dhcp'')"

definition mtu_argument :: "task \<Rightarrow> string" where
  "mtu_argument t =
     (case task_Networks t of
        n # _ \<Rightarrow> if ns_Driver (nat_Spec n) = ''overlay'' then ''mtu=1450'' else ''mtu=1500''
      | [] \<Rightarrow> ''mtu=1500'')"

definition container_command :: "container \<Rightarrow> string list" where
  "container_command c = (let cmd = ctr_Command c @ ctr_Args c in if cmd = [] then [''/bin/sh''] else cmd)"

definition buildInitArgs :: "vm_translator \<Rightarrow> string list \<Rightarrow> string list" where
  "buildInitArgs tt cmd =
     (if vt_initSystem tt = ''tini'' then [vt_initPath tt, ''--''] @ cmd
      else if vt_initSystem tt = ''dumb-init'' then [vt_initPath tt] @ cmd
      else cmd)"

definition boot_args :: "vm_translator \<Rightarrow> task \<Rightarrow> string" where
  "boot_args tt t =
     (case GetContainer (task_Spec t) of
        Inl _ \<Rightarrow> ''console=ttyS0 reboot=k panic=1 pci=off init=/init''
      | Inr c \<Rightarrow>
          join '' '' ([''console=ttyS0'', ''reboot=k'', ''panic=1'', ''pci=off'', ''random.trust_cpu=on'', ''init=/init'',
             ip_argument tt t, mtu_argument t, ''--''] @
             (if vt_initSystem tt \<noteq> ''none'' \<and> vt_initPath tt \<noteq> [] then buildInitArgs tt (container_command c)
              else container_command c)))"

definition applyResources :: "resources \<Rightarrow> machine_config \<Rightarrow> machine_config" where
  "applyResources l m =
     (let m1 = (if 0 < res_MemoryBytes l then m\<lparr>mc_MemSizeMib := res_MemoryBytes l div 1024 div 1024\<rparr> else m)
      in if 0 < res_NanoCPUs l
         then let v = res_NanoCPUs l div 1000000000 in m1\<lparr>mc_VcpuCount := if v < 1 then 1 else v\<rparr>
         else m1)"

definition buildNetworkInterface :: "nat \<Rightarrow> string \<Rightarrow> vm_interface" where
  "buildNetworkInterface index taskID =
     \<lparr>vi_IfaceID = ''eth'' @ dec_of_nat index, vi_HostDevName = ''tap-'' @ tap_hash taskID @ ''-'' @ dec_of_nat index\<rparr>"

definition buildRootDrive :: "task \<Rightarrow> (vt_error, vm_drive) res" where
  "buildRootDrive t =
     (case task_Annotations t ''rootfs'' of
        None \<Rightarrow> Inl VtRootfsMissing
      | Some p \<Rightarrow> Inr \<lparr>dr_DriveID = ''rootfs'', dr_IsRootDevice = True, dr_PathOnHost = p, dr_IsReadOnly = False\<rparr>)"

definition drive_id :: "string \<Rightarrow> string" where
  "drive_id target = trim_prefix ''-'' (replace_all ''/'' ''-'' target)"

definition buildVolumeDrive :: "mount \<Rightarrow> vm_drive" where
  "buildVolumeDrive m = \<lparr>dr_DriveID = drive_id (mnt_Target m), dr_IsRootDevice = False, dr_PathOnHost = mnt_Source m, dr_IsReadOnly = mnt_ReadOnly m\<rparr>"

definition validateMountPath :: "string \<Rightarrow> (mount_error, unit) res" where
  "validateMountPath p =
     (if p = [] then Inl MountPathEmpty
      else if sublist ''..'' p then Inl MountPathParent
      else if CHR 0x00 \<in> set p then Inl MountPathNull
      else Inr ())"

fun volume_drives :: "nat \<Rightarrow> mount list \<Rightarrow> (vt_error, vm_drive list) res" where
  "volume_drives i [] = Inr []"
| "volume_drives i (m # ms) =
     (case validateMountPath (mnt_Source m) of
        Inl e \<Rightarrow> Inl (VtMountSource i e)
      | Inr _ \<Rightarrow>
          (case validateMountPath (mnt_Target m) of
             Inl e \<Rightarrow> Inl (VtMountTarget i e)
           | Inr _ \<Rightarrow> (case volume_drives (Suc i) ms of Inl e \<Rightarrow> Inl e | Inr ds \<Rightarrow> Inr (buildVolumeDrive m # ds))))"

subsection \<open>Translation\<close>

definition vmm_document_of :: "vm_translator \<Rightarrow> task \<Rightarrow> (vt_error, vmm_document) res" where
  "vmm_document_of tt t =
     (case GetContainer (task_Spec t) of
        Inl e \<Rightarrow> Inl (VtNotContainer e)
      | Inr c \<Rightarrow>
          let m0 = \<lparr>mc_VcpuCount = vt_defaultVCPUs tt, mc_MemSizeMib = vt_defaultMemMB tt\<rparr>;
              m = (case rr_Limits (spec_Resources (task_Spec t)) of Some l \<Rightarrow> applyResources l m0 | None \<Rightarrow> m0)
          in (case buildRootDrive t of
                Inl e \<Rightarrow> Inl e
              | Inr root \<Rightarrow>
                  (case volume_drives 0 (ctr_Mounts c) of
                     Inl e \<Rightarrow> Inl e
                   | Inr ds \<Rightarrow>
                       Inr \<lparr>vd_KernelImagePath = vt_kernelPath tt, vd_BootArgs = boot_args tt t, vd_InitrdPath = vt_initrdPath tt,
                            vd_Machine = m,
                            vd_Interfaces = map (\<lambda>i. buildNetworkInterface i (task_ID t)) [0..<length (task_Networks t)],
                            vd_Drives = root # ds\<rparr>)))"

text \<open>\<open>configToMap\<close>: the JSON document; an empty initrd path, MAC address and vsock are left out.\<close>

definition configToMap :: "vmm_document \<Rightarrow> json" where
  "configToMap d = JObj [
     (''boot-source'', JObj ([(''boot_args'', JStr (vd_BootArgs d))] @
        (if vd_InitrdPath d = [] then [] else [(''initrd_path'', JStr (vd_InitrdPath d))]) @
        [(''kernel_image_path'', JStr (vd_KernelImagePath d))])),
     (''drives'', JArr (map (\<lambda>x. JObj [(''drive_id'', JStr (dr_DriveID x)), (''is_read_only'', JBool (dr_IsReadOnly x)),
        (''is_root_device'', JBool (dr_IsRootDevice x)), (''path_on_host'', JStr (dr_PathOnHost x))]) (vd_Drives d))),
     (''machine-config'', JObj [(''mem_size_mib'', JNum (mc_MemSizeMib (vd_Machine d))), (''smt'', JBool False),
        (''vcpu_count'', JNum (mc_VcpuCount (vd_Machine d)))]),
     (''network-interfaces'', JArr (map (\<lambda>x. JObj [(''host_dev_name'', JStr (vi_HostDevName x)), (''iface_id'', JStr (vi_IfaceID x)),
        (''rx_queue_size'', JNum 256), (''tx_queue_size'', JNum 256)]) (vd_Interfaces d)))]"

definition vt_Translate :: "vm_translator \<Rightarrow> task option \<Rightarrow> (vt_error, json) res" where
  "vt_Translate tt t =
     (case t of
        None \<Rightarrow> Inl VtTaskNil
      | Some t' \<Rightarrow> (case vmm_document_of tt t' of Inl e \<Rightarrow> Inl e | Inr d \<Rightarrow> Inr (configToMap d)))"

subsection \<open>Interfaces\<close>

lemma vt_Translate_Some:
  "vt_Translate tt (Some t) = Inr cfg \<longleftrightarrow> (\<exists>d. vmm_document_of tt t = Inr d \<and> cfg = configToMap d)"
  by (auto simp: vt_Translate_def split: sum.splits)

lemma document_interfaces:
  "vmm_document_of tt t = Inr d \<Longrightarrow>
     vd_Interfaces d = map (\<lambda>i. buildNetworkInterface i (task_ID t)) [0..<length (task_Networks t)]"
  by (auto simp: vmm_document_of_def Let_def split: sum.splits)

text \<open>
  Claim C26. The two translators agree on the devices of a task, with each other and with the names the network
  manager creates: the i-th interface is called \<open>eth\<close>i and names the i-th TAP device.
\<close>

theorem translators_agree:
  assumes "vt_Translate tt (Some t) = Inr cfg" and "Translate tr t = Inr cfg'"
  shows "\<exists>xs ys. json_field ''network-interfaces'' cfg = Some (JArr xs) \<and> json_field ''network-interfaces'' cfg' = Some (JArr ys) \<and>
    map (json_string_field ''host_dev_name'') xs = map (\<lambda>i. Some (tap_name (task_ID t) i)) [0..<length (task_Networks t)] \<and>
    map (json_string_field ''host_dev_name'') ys = map (json_string_field ''host_dev_name'') xs \<and>
    map (json_string_field ''iface_id'') ys = map (json_string_field ''iface_id'') xs"
proof -
  obtain d where d: "vmm_document_of tt t = Inr d" "cfg = configToMap d" using assms(1) by (auto simp: vt_Translate_Some)
  have "cfg' = JObj fs \<Longrightarrow> map_of fs ''network-interfaces'' = Some (JArr (buildNetworkInterfaces t))" for fs
    using assms(2) by (auto simp: Translate_def split: sum.splits)
  then have 2: "json_field ''network-interfaces'' cfg' = Some (JArr (buildNetworkInterfaces t))"
    using assms(2) by (auto simp: Translate_def json_field_def split: sum.splits)
  show ?thesis
    unfolding 2 d(2) configToMap_def document_interfaces [OF d(1)]
    by (simp add: json_field_def json_string_field_def buildNetworkInterfaces_def buildNetworkInterface_def tap_name_def comp_def)
qed

subsection \<open>Drives\<close>

definition dash :: "char \<Rightarrow> char" where
  "dash c = (if c = CHR ''/'' then CHR ''-'' else c)"

lemma replace_all_slash: "replace_all ''/'' ''-'' s = map dash s"
proof (induction s)
  case (Cons a s)
  then show ?case by (cases "a = CHR ''/''"; subst replace_all.simps) (simp_all add: dash_def)
qed (simp add: replace_all.simps)

lemma drive_id_absolute: "drive_id (CHR ''/'' # r) = map dash r"
  by (simp add: drive_id_def trim_prefix_def replace_all_slash dash_def)

lemma map_dash_inj: "CHR ''-'' \<notin> set r \<Longrightarrow> CHR ''-'' \<notin> set s \<Longrightarrow> map dash r = map dash s \<longleftrightarrow> r = s"
  by (induction r s rule: list_induct2') (auto simp: dash_def split: if_splits)

lemma drive_id_inj:
  assumes "prefix ''/'' a" and "prefix ''/'' b" and "CHR ''-'' \<notin> set a" and "CHR ''-'' \<notin> set b"
  shows "drive_id a = drive_id b \<longleftrightarrow> a = b"
  using assms by (auto simp: prefix_def drive_id_absolute map_dash_inj)

lemma drive_id_rootfs:
  assumes "prefix ''/'' a" and "CHR ''-'' \<notin> set a"
  shows "drive_id a = ''rootfs'' \<longleftrightarrow> a = ''/rootfs''"
proof -
  have "drive_id ''/rootfs'' = ''rootfs''" by (simp add: drive_id_absolute dash_def)
  then show ?thesis using drive_id_inj [OF assms(1) _ assms(2), of "''/rootfs''"] by (simp add: prefix_def)
qed

lemma volume_drives_ids: "volume_drives i ms = Inr ds \<Longrightarrow> map dr_DriveID ds = map (drive_id \<circ> mnt_Target) ms"
  by (induction ms arbitrary: i ds) (auto simp: buildVolumeDrive_def split: sum.splits)

lemma document_drives:
  assumes "vmm_document_of tt t = Inr d" and "GetContainer (task_Spec t) = Inr c"
  shows "map dr_DriveID (vd_Drives d) = ''rootfs'' # map (drive_id \<circ> mnt_Target) (ctr_Mounts c)"
  using assms volume_drives_ids [of 0 "ctr_Mounts c"]
  by (auto simp: vmm_document_of_def buildRootDrive_def Let_def split: sum.splits option.splits)

text \<open>
  The drives of a VM have different identifiers exactly when the targets of its mounts are different
  and none is \<open>/rootfs\<close>, as long as the targets are absolute and have no hyphen: a mount at \<open>/rootfs\<close>
  takes the identifier of the root drive.
\<close>

theorem drive_ids_distinct:
  assumes "vmm_document_of tt t = Inr d" and "GetContainer (task_Spec t) = Inr c"
    and "\<And>m. m \<in> set (ctr_Mounts c) \<Longrightarrow> prefix ''/'' (mnt_Target m) \<and> CHR ''-'' \<notin> set (mnt_Target m)"
  shows "distinct (map dr_DriveID (vd_Drives d)) \<longleftrightarrow>
    distinct (map mnt_Target (ctr_Mounts c)) \<and> ''/rootfs'' \<notin> mnt_Target ` set (ctr_Mounts c)"
proof -
  have "inj_on drive_id (mnt_Target ` set (ctr_Mounts c))"
    using assms(3) by (auto intro!: inj_onI simp: drive_id_inj)
  then have "distinct (map (drive_id \<circ> mnt_Target) (ctr_Mounts c)) \<longleftrightarrow> distinct (map mnt_Target (ctr_Mounts c))"
    using distinct_map [of drive_id "map mnt_Target (ctr_Mounts c)"] by simp
  moreover have "''rootfs'' \<in> (drive_id \<circ> mnt_Target) ` set (ctr_Mounts c) \<longleftrightarrow> ''/rootfs'' \<in> mnt_Target ` set (ctr_Mounts c)"
  proof -
    have "m \<in> set (ctr_Mounts c) \<Longrightarrow> (drive_id (mnt_Target m) = ''rootfs'') = (mnt_Target m = ''/rootfs'')" for m
      using assms(3) by (intro drive_id_rootfs) auto
    then show ?thesis by (auto simp: image_iff eq_commute [of "''rootfs''"] eq_commute [of "''/rootfs''"])
  qed
  ultimately show ?thesis unfolding document_drives [OF assms(1,2)] by auto
qed

subsection \<open>Addresses\<close>

lemma createTapDevice_netmask:
  assumes "createTapDevice env net i taskID nm log = (Inr tap, nm', log')" and "tap_address env net taskID nm = (Inr (a, []), nm1)"
    and "nc_Subnet (nm_config nm) = dotted base @ ''/'' @ dec_of_nat n" and "length base = 4" and "n \<le> 32"
  shows "tap_Netmask tap = ip_String (cidr_mask n 4)"
proof -
  have c: "nm_config nm1 = nm_config nm" using tap_address_keeps [OF assms(2)] by simp
  have "tap_Netmask tap = tap_netmask (nm_config nm) []"
    using assms(1,2) c by (auto simp: createTapDevice_def Let_def split: sum.splits prod.splits)
  then show ?thesis using ParseCIDR_dotted [OF assms(4,5)] assms(3) by (simp add: tap_netmask_def v4_net_def)
qed

text \<open>
  Claim C10. From the allocator to the guest, with the translator of \<open>pkg/translator\<close>, which the library executor uses:
  when the network of a task without attachments has been prepared in static mode and the task had no address before,
  the kernel of the VM is told the address allocated for the task, the gateway of the allocator and the mask of its
  subnet, whatever its length. The subnet is an IPv4 one, and the address of the bridge is configured with the length of
  the subnet. (The translator of \<open>pkg/swarmkit\<close> writes the mask 255.255.255.0 for every subnet.)
\<close>

theorem prepared_task_boots_with_address:
  assumes "PrepareNetwork env t nm log = (Inr t', nm', log')" and "task_Networks t = []"
    and "nm_alloc nm = Some al" and "nc_IPMode (nm_config nm) = ''static''"
    and "v4_allocator al base n g" and "vm_Allocate (en_keys env (al_allocated al)) (task_ID t) al = (Inr a, al')"
    and "task_ID t \<notin> ran (al_allocated al)"
    and "nc_Subnet (nm_config nm) = dotted base @ ''/'' @ dec_of_nat n"
    and "nc_BridgeIP (nm_config nm) = dotted g @ ''/'' @ dec_of_nat n" and "vt_networkConfig tt = nm_config nm"
  shows "ip_argument tt t' = ''ip='' @ a @ ''::'' @ dotted g @ '':'' @ dotted (cidr_mask n 4) @ ''::eth0:off''"
proof -
  have l: "length base = 4" "n \<le> 32" "length g = 4" using assms(5) To4_length by (auto simp: v4_allocator_def)
  obtain nm1 log1 ns where h: "prepare_host env nm log = (Inr (), nm1, log1)"
      and d: "prepare_default env (task_ID t) nm1 log1 = (Inr ns, nm', log')" and t': "task_Networks t' = ns"
    using assms(1,2) by (auto simp: PrepareNetwork_def split: prod.splits sum.splits)
  have 1: "nm_alloc nm1 = nm_alloc nm" "nm_config nm1 = nm_config nm" using prepare_host_keeps [OF h] by auto
  let ?net = "default_network (nm_config nm1)"
  obtain tap nm2 log2 where c: "createTapDevice env ?net 0 (task_ID t) nm1 log1 = (Inr tap, nm2, log2)"
    using d by (auto simp: prepare_default_def Let_def split: prod.splits sum.splits)
  have ad: "tap_address env ?net (task_ID t) nm1 = (Inr (a, []), nm1\<lparr>nm_alloc := Some al'\<rparr>)"
    using 1 assms(3,4,6) by (simp add: tap_address_def default_network_def)
  have ip: "tap_IP tap = a" using createTapDevice_address [OF c ad] by simp
  have p: "a \<noteq> []" using vm_address_plain [OF assms(5,6,7)] by simp
  obtain y where y: "a = dotted y" "length y = 4"
    using vm_address_plain [OF assms(5,6,7)] assms(5,6) by (auto elim: vm_Allocate_cases)
  have "tap_Netmask tap = ip_String (cidr_mask n 4)"
    using createTapDevice_netmask [OF c ad _ l(1,2)] 1 assms(8) by simp
  with y ip l have "net_ParseCIDR (tap_cidr tap) = Some (v4_mapped y, v4_net y n)" by (intro tap_cidr_parses) simp_all
  moreover have "ns = [?net\<lparr>nat_Addresses := [tap_cidr tap]\<rparr>]"
    using d c ip p by (auto simp: prepare_default_def Let_def split: prod.splits sum.splits)
  moreover have "net_ParseCIDR (nc_BridgeIP (nm_config nm)) = Some (v4_mapped g, v4_net g n)"
    using ParseCIDR_dotted [OF l(3,2)] assms(9) by simp
  moreover have "ip_String (v4_mapped g) = dotted g" "ip_String (v4_mapped y) = dotted y" "dotted g \<noteq> []"
    using l y dot_in_dotted [OF l(3)] by (auto simp: ip_String_v4)
  ultimately show ?thesis
    using t' assms(9,10) y by (simp add: ip_argument_def boot_gateway_def v4_net_def Let_def)
qed

text \<open>
  The resources of a VM under limits: the memory is the limit in MiB, rounded down, which is nothing
  for a limit of less than one MiB; there is always at least one vCPU when the default has one.
\<close>

theorem limits_applied:
  assumes "vmm_document_of tt t = Inr d" and "rr_Limits (spec_Resources (task_Spec t)) = Some l"
    and "0 < res_MemoryBytes l" and "1 \<le> vt_defaultVCPUs tt"
  shows "mc_MemSizeMib (vd_Machine d) * 1048576 \<le> res_MemoryBytes l \<and>
    res_MemoryBytes l < (mc_MemSizeMib (vd_Machine d) + 1) * 1048576 \<and>
    (mc_MemSizeMib (vd_Machine d) = 0 \<longleftrightarrow> res_MemoryBytes l < 1048576) \<and> 1 \<le> mc_VcpuCount (vd_Machine d)"
proof -
  have m: "mc_MemSizeMib (vd_Machine d) = res_MemoryBytes l div 1024 div 1024" and v: "1 \<le> mc_VcpuCount (vd_Machine d)"
    using assms by (auto simp: vmm_document_of_def applyResources_def Let_def split: sum.splits)
  have "res_MemoryBytes l div 1024 div 1024 = res_MemoryBytes l div 1048576" by (simp add: zdiv_zmult2_eq [symmetric])
  then show ?thesis using m v assms(3) by (simp add: algebra_simps) linarith
qed

subsection \<open>Examples\<close>

definition example_vt_task :: task where
  "example_vt_task = example_net_task\<lparr>
     task_Spec := zero_spec\<lparr>spec_Runtime := ContainerRuntime (zero_container\<lparr>ctr_Mounts :=
         [\<lparr>mnt_Target = ''/data'', mnt_Source = ''/srv/data.img'', mnt_ReadOnly = True\<rparr>]\<rparr>),
       spec_Resources := \<lparr>rr_Limits = Some \<lparr>res_NanoCPUs = 0, res_MemoryBytes = 4096\<rparr>, rr_Reservations = None\<rparr>\<rparr>,
     task_Networks := [default_network zero_network_config], task_Annotations := [''rootfs'' \<mapsto> ''/r'']\<rparr>"

lemma example_document:
  obtains d where "vmm_document_of default_translator example_vt_task = Inr d"
  by (simp add: vmm_document_of_def example_vt_task_def GetContainer_def buildRootDrive_def validateMountPath_def
      zero_container_def sublist_code Let_def)

lemma example_container:
  "GetContainer (task_Spec example_vt_task) =
     Inr (zero_container\<lparr>ctr_Mounts := [\<lparr>mnt_Target = ''/data'', mnt_Source = ''/srv/data.img'', mnt_ReadOnly = True\<rparr>]\<rparr>)"
  by (simp add: example_vt_task_def GetContainer_def)

theorem translators_agree_witness:
  "\<exists>cfg cfg' xs. vt_Translate default_translator (Some example_vt_task) = Inr cfg \<and>
     Translate \<lparr>tt_kernelPath = ''/k'', tt_bridgeIP = []\<rparr> example_vt_task = Inr cfg' \<and>
     json_field ''network-interfaces'' cfg = Some (JArr xs) \<and> map (json_string_field ''host_dev_name'') xs = [Some (tap_name ''t1'' 0)]"
proof -
  obtain d where d: "vmm_document_of default_translator example_vt_task = Inr d" by (rule example_document)
  then have 1: "vt_Translate default_translator (Some example_vt_task) = Inr (configToMap d)" by (simp add: vt_Translate_def)
  have "validateTaskID (task_ID example_vt_task) = Inr ()"
    by (simp add: example_vt_task_def example_net_task_def validateTaskID_def sublist_code)
  then obtain cfg' where 2: "Translate \<lparr>tt_kernelPath = ''/k'', tt_bridgeIP = []\<rparr> example_vt_task = Inr cfg'"
    by (simp add: Translate_def)
  have "length (task_Networks example_vt_task) = 1" "task_ID example_vt_task = ''t1''"
    by (simp_all add: example_vt_task_def example_net_task_def)
  with translators_agree [OF 1 2] 1 2 show ?thesis by auto
qed

theorem drive_ids_distinct_witness:
  "\<exists>d. vmm_document_of default_translator example_vt_task = Inr d \<and> distinct (map dr_DriveID (vd_Drives d))"
proof -
  obtain d where d: "vmm_document_of default_translator example_vt_task = Inr d" by (rule example_document)
  from drive_ids_distinct [OF d example_container] d show ?thesis by auto
qed

theorem limits_applied_witness:
  "\<exists>d. vmm_document_of default_translator example_vt_task = Inr d \<and> mc_MemSizeMib (vd_Machine d) = 0"
proof -
  obtain d where d: "vmm_document_of default_translator example_vt_task = Inr d" by (rule example_document)
  have "rr_Limits (spec_Resources (task_Spec example_vt_task)) = Some \<lparr>res_NanoCPUs = 0, res_MemoryBytes = 4096\<rparr>"
    by (simp add: example_vt_task_def)
  from limits_applied [OF d this] d show ?thesis by (simp add: default_translator_def)
qed

theorem prepared_task_boots_with_address_witness:
  "\<exists>t' nm' log' a. PrepareNetwork ok_env example_net_task example_manager [] = (Inr t', nm', log') \<and>
     ip_argument (default_translator\<lparr>vt_networkConfig := nm_config example_manager\<rparr>) t' =
       ''ip='' @ a @ ''::'' @ dotted [10, 0, 0, 1] @ '':'' @ dotted (cidr_mask 24 4) @ ''::eth0:off''"
proof -
  obtain t' nm' log' where p: "PrepareNetwork ok_env example_net_task example_manager [] = (Inr t', nm', log')"
    by (rule ok_prepare)
  have e: "task_Networks example_net_task = []" "nm_alloc example_manager = Some example_vm_allocator"
      "nc_IPMode (nm_config example_manager) = ''static''"
    by (simp_all add: example_net_task_def example_manager_def)
  have "\<exists>a al'. vm_Allocate (en_keys ok_env (al_allocated example_vm_allocator)) (task_ID example_net_task) example_vm_allocator = (Inr a, al')
      \<and> al_allocated al' a = Some (task_ID example_net_task)"
    by (rule alloc_succeeds [OF example_v4, of "[10, 0, 0, 2]"]) (simp_all add: example_subnet example_vm_allocator_def)
  then obtain a al' where a: "vm_Allocate (en_keys ok_env (al_allocated example_vm_allocator)) (task_ID example_net_task)
      example_vm_allocator = (Inr a, al')" by blast
  have r: "task_ID example_net_task \<notin> ran (al_allocated example_vm_allocator)" by (simp add: example_vm_allocator_def)
  have s: "nc_Subnet (nm_config example_manager) = dotted [10, 0, 0, 0] @ ''/'' @ dec_of_nat 24"
    "nc_BridgeIP (nm_config example_manager) = dotted [10, 0, 0, 1] @ ''/'' @ dec_of_nat 24"
    by code_simp+
  from prepared_task_boots_with_address [OF p e example_v4 a r s,
      of "default_translator\<lparr>vt_networkConfig := nm_config example_manager\<rparr>"] p
  show ?thesis by auto
qed

end
