(* ===== verification/Node_System.thy ===== *)
theory Node_System
  imports Swarm_Correct Task_Translator
begin

text \<open>
  The node with its own network manager: the interface behind which the controllers see the network
  (\<open>om_PrepareNetwork\<close> and \<open>om_CleanupNetwork\<close>) is connected to the network manager of
  \<open>pkg/network/manager.go\<close>, as \<open>NewExecutor\<close> does. What the controllers then have sent to Firecracker
  can be compared with the devices that exist.
\<close>

record 'r net_world =
  nwd_manager :: net_manager
  nwd_log :: cmdlog
  nwd_rest :: 'r

text \<open>
  The other managers have a state of their own, \<open>nwd_rest\<close>: none of them is given the network manager. The order of
  the keys of the map of devices is the argument \<open>ks\<close>.
\<close>

definition on_rest :: "('r \<Rightarrow> 'r) \<Rightarrow> 'r net_world \<Rightarrow> 'r net_world" where
  "on_rest f x = x\<lparr>nwd_rest := f (nwd_rest x)\<rparr>"

definition with_network ::
    "net_env \<Rightarrow> ((string \<rightharpoonup> tap_device) \<Rightarrow> string list) \<Rightarrow> 'r other_managers \<Rightarrow> 'r net_world other_managers" where
  "with_network env ks om = \<lparr>
     om_Prepare = (\<lambda>t x. case om_Prepare om t (nwd_rest x) of (r, y) \<Rightarrow> (r, x\<lparr>nwd_rest := y\<rparr>)),
     om_PrepareNetwork = (\<lambda>t x.
       case PrepareNetwork env t (nwd_manager x) (nwd_log x) of
         (r, nm, log) \<Rightarrow> (map_sum (\<lambda>_. ''network preparation'') task_Networks r, x\<lparr>nwd_manager := nm, nwd_log := log\<rparr>)),
     om_CleanupNetwork = (\<lambda>t x.
       case CleanupNetwork env (ks (nm_taps (nwd_manager x))) t (nwd_manager x) (nwd_log x) of
         (nm, log) \<Rightarrow> x\<lparr>nwd_manager := nm, nwd_log := log\<rparr>),
     om_secrets = map_option (\<lambda>sm. \<lparr>
        sm_InjectSecrets = (\<lambda>i ss p. on_rest (sm_InjectSecrets sm i ss p)),
        sm_InjectConfigs = (\<lambda>i cs p. on_rest (sm_InjectConfigs sm i cs p))\<rparr>) (om_secrets om),
     om_volumes = map_option (\<lambda>vm. \<lparr>
        vm_mountRootfs = (\<lambda>p x. case vm_mountRootfs vm p (nwd_rest x) of (r, y) \<Rightarrow> (r, x\<lparr>nwd_rest := y\<rparr>)),
        vm_unmountRootfs = (\<lambda>p. on_rest (vm_unmountRootfs vm p)),
        vm_HasVolume = (\<lambda>n x. vm_HasVolume vm n (nwd_rest x)),
        vm_UnmountVolume = (\<lambda>n d t. on_rest (vm_UnmountVolume vm n d t))\<rparr>) (om_volumes om),
     om_start = om_start om \<circ> nwd_rest, om_exits = om_exits om \<circ> nwd_rest, om_outcome = om_outcome om \<circ> nwd_rest,
     om_now = om_now om \<circ> nwd_rest, om_kill = om_kill om \<circ> nwd_rest, om_unlink = om_unlink om \<circ> nwd_rest,
     om_tick = on_rest (om_tick om)\<rparr>"

lemma inject_network:
  "nwd_manager (w_other (inject (program_managers (with_network env ks om)) i t w)) = nwd_manager (w_other w)"
  "w_vmm (inject (program_managers (with_network env ks om)) i t w) = w_vmm w"
  by (auto simp: inject_def Let_def lift_other_def with_network_def on_rest_def split: option.splits)

lemma tick_network: "nwd_manager (om_tick (with_network env ks om) x) = nwd_manager x"
  by (simp add: with_network_def on_rest_def)

subsection \<open>Requests of a VM that was configured\<close>

lemma put_interfaces_ok:
  "put_interfaces api xs h = (Inr u, h') \<Longrightarrow> \<forall>x \<in> set xs. is_object x \<Longrightarrow>
     h' = add_requests (map (\<lambda>x. (iface_path x, x)) xs) h"
proof (induction xs arbitrary: h)
  case (Cons x xs)
  then have "put_interfaces api xs (add_requests [(iface_path x, x)] h) = (Inr u, h')"
    by (simp add: seq_host_putAPI iface_path_def Let_def split: if_splits)
  from Cons.IH [OF this] Cons.prems(2) show ?case by simp
qed simp

lemma seq_host_ok: "seq_host p f = (Inr u, h') \<longleftrightarrow> (\<exists>h u'. p = (Inr u', h) \<and> f h = (Inr u, h'))"
  by (auto simp: seq_host_def split: prod.splits sum.splits)

lemma configureVM_interfaces:
  assumes "configureVM api cfg h = (Inr u, h')" and "\<forall>x \<in> set (list_field ''network-interfaces'' cfg). is_object x"
    and "x \<in> set (list_field ''network-interfaces'' cfg)"
  shows "(iface_path x, x) \<in> set (h_requests h')"
proof -
  from assms(1) obtain h3 h4 u4 where "put_interfaces api (list_field ''network-interfaces'' cfg) h3 = (Inr u4, h4)"
      and a: "putAPI api ''/actions'' start_action h4 = (Inr u, h')"
    by (auto simp: configureVM_def seq_host_ok split: if_splits option.splits)
  from put_interfaces_ok [OF this(1) assms(2)] have "(iface_path x, x) \<in> set (h_requests h4)" using assms(3) by auto
  then show ?thesis using a by (auto simp: putAPI_eq)
qed

lemma startDirect_configured:
  assumes "startDirect env t cfg v h = (Inr u, v', h')"
  shows "\<exists>h0. configureVM (se_api env) cfg h0 = (Inr (), h')"
  using assms by (auto simp: startDirect_def Let_def split: if_splits option.splits prod.splits sum.splits)

lemma translated_interfaces: "Translate tr t = Inr cfg \<Longrightarrow> list_field ''network-interfaces'' cfg = buildNetworkInterfaces t"
  by (auto simp: Translate_def list_field_def json_field_def split: sum.splits)

lemma started_interfaces:
  assumes "Translate tr t = Inr cfg" and "vmm_Start env t cfg v h = (Inr u, v', h')" and "\<not> v_useJailer v"
    and "i < length (task_Networks t)"
  shows "(''/network-interfaces/eth'' @ dec_of_nat i, buildNetworkInterfaces t ! i) \<in> set (h_requests h')"
proof -
  let ?x = "buildNetworkInterfaces t ! i"
  have l: "i < length (buildNetworkInterfaces t)" using assms(4) by (simp add: buildNetworkInterfaces_def)
  obtain h0 where c: "configureVM (se_api env) cfg h0 = (Inr (), h')"
    using startDirect_configured [of env t cfg v h u v' h'] assms(2,3) by (auto simp: vmm_Start_def)
  have "(iface_path ?x, ?x) \<in> set (h_requests h')"
    using configureVM_interfaces [OF c, of ?x] interfaces_objects l by (simp add: translated_interfaces [OF assms(1)])
  moreover have "iface_path ?x = ''/network-interfaces/eth'' @ dec_of_nat i"
    using arg_cong [OF interfaces_paths [of t], of "\<lambda>xs. xs ! i"] l assms(4) by simp
  ultimately show ?thesis by simp
qed

subsection \<open>The network of a prepared controller\<close>

lemma prepared_network:
  assumes "ctl_Prepare (program_managers (with_network env ks om)) c w = (Inr (), c1, w1)"
    and "\<not> c_prepared c"
  obtains t1 t2 nm0 log0 nm log where "PrepareNetwork env t1 nm0 log0 = (Inr t2, nm, log)"
    and "task_Networks t1 = task_Networks (convertTask (c_task c))" and "task_ID t1 = api_ID (c_task c)"
    and "c_internalTask c1 = Some t2" and "nwd_manager (w_other w1) = nm" and "w_vmm w1 = w_vmm w"
    and "c_prepared c1" and "c_started c1 = c_started c" and "c_trans c1 = c_trans c"
proof -
  let ?mg = "program_managers (with_network env ks om)" and ?t = "convertTask (c_task c)"
  from assms(1,2) obtain t1 wa t2 wb where p: "mg_Prepare ?mg ?t w = (Inr t1, wa)" "mg_PrepareNetwork ?mg t1 wa = (Inr t2, wb)"
      and c1: "c1 = c\<lparr>c_internalTask := Some t2, c_prepared := True\<rparr>" and w1: "w1 = inject ?mg (api_ID (c_task c)) t2 wb"
    by (auto simp: ctl_Prepare_def split: prod.splits sum.splits if_splits)
  have w1': "nwd_manager (w_other w1) = nwd_manager (w_other wb)" "w_vmm w1 = w_vmm wb" unfolding w1 by (rule inject_network)+
  have t1: "task_Networks t1 = task_Networks ?t" "task_ID t1 = api_ID (c_task c)" "w_vmm wa = w_vmm w"
    using p(1) by (auto simp: lift_task_def split: prod.splits)
  obtain r nm log where n: "PrepareNetwork env t1 (nwd_manager (w_other wa)) (nwd_log (w_other wa)) = (r, nm, log)"
    by (metis prod.exhaust)
  then obtain t' where r: "r = Inr t'" "t2 = t1\<lparr>task_Networks := task_Networks t'\<rparr>" "wb = wa\<lparr>w_other := (w_other wa)\<lparr>nwd_manager := nm, nwd_log := log\<rparr>\<rparr>"
    using p(2) by (cases r) (auto simp: lift_task_def with_network_def)
  have "t' = t1\<lparr>task_Networks := task_Networks t'\<rparr>"
    using n r(1) by (auto simp: PrepareNetwork_def split: prod.splits sum.splits)
  then have "t2 = t'" using r(2) by simp
  then show ?thesis using n r t1 c1 w1' by (intro that [of t1 _ _ t2 nm log]) simp_all
qed

subsection \<open>An example\<close>

text \<open>Managers that grant everything, with a secret manager that counts its calls.\<close>

definition node_managers :: "nat other_managers" where
  "node_managers = \<lparr>om_Prepare = (\<lambda>t x. (Inr [''rootfs'' \<mapsto> ''/r''], x)),
     om_PrepareNetwork = (\<lambda>t x. (Inr [], x)), om_CleanupNetwork = (\<lambda>t x. x), 
     om_secrets = Some \<lparr>sm_InjectSecrets = (\<lambda>i ss p. Suc), sm_InjectConfigs = (\<lambda>i cs p. Suc)\<rparr>, om_volumes = None,
     om_start = (\<lambda>x. example_env True), om_exits = (\<lambda>x. True), om_outcome = (\<lambda>x. None), om_now = (\<lambda>x. 0),
     om_kill = (\<lambda>x. True), om_unlink = (\<lambda>x p. True), om_tick = (\<lambda>x. x)\<rparr>"

abbreviation node_example :: "nat net_world world managers" where
  "node_example \<equiv> program_managers (with_network ok_env (\<lambda>m. []) node_managers)"

definition node_world :: "nat net_world world" where
  "node_world = \<lparr>w_vmm = example_vmm, w_host = example_host, w_other = \<lparr>nwd_manager = example_manager, nwd_log = [], nwd_rest = 0\<rparr>\<rparr>"

lemma node_example_runs:
  obtains c1 w1 c2 w2 t2 where "ctl_Prepare node_example example_controller node_world = (Inr (), c1, w1)"
    and "ctl_Start node_example c1 w1 = (Inr (), c2, w2)" and "c_internalTask c1 = Some t2" and "length (task_Networks t2) = 1"
proof -
  let ?om = "with_network ok_env (\<lambda>m. []) node_managers" and ?t = "convertTask example_api_task"
  let ?t1 = "?t\<lparr>task_Annotations := [''rootfs'' \<mapsto> ''/r'']\<rparr>"
  have "task_Networks ?t1 = []" by (simp add: convertTask_def example_api_task_def)
  then obtain n nm' log' where n: "PrepareNetwork ok_env ?t1 example_manager [] = (Inr (?t1\<lparr>task_Networks := [n]\<rparr>), nm', log')"
    using ok_prepare_task by blast
  have c: "c_task example_controller = example_api_task" "\<not> c_prepared example_controller" "\<not> c_started example_controller"
    "validateTaskID (api_ID example_api_task) = Inr ()" "\<not> v_useJailer (w_vmm node_world)"
    by (simp_all add: example_controller_def example_api_task_def validateTaskID_def sublist_code node_world_def example_vmm_def)
  have 1: "om_Prepare ?om ?t (w_other node_world) = (Inr [''rootfs'' \<mapsto> ''/r''], w_other node_world)"
    by (simp add: with_network_def node_managers_def)
  have 2: "om_PrepareNetwork ?om ?t1 (w_other node_world) = (Inr [n], (w_other node_world)\<lparr>nwd_manager := nm', nwd_log := log'\<rparr>)"
    using n by (simp add: with_network_def node_world_def)
  have 3: "willing (om_start ?om x)" for x using example_willing by (simp add: with_network_def node_managers_def)
  obtain c1 w1 c2 w2 where r: "ctl_Prepare node_example example_controller node_world = (Inr (), c1, w1)"
      "ctl_Start node_example c1 w1 = (Inr (), c2, w2)"
    using prepare_start [OF c 1 2 3] by metis
  have "c_internalTask c1 = Some (?t1\<lparr>task_Networks := [n]\<rparr>)"
    using r(1) c(1,2) 1 2 by (auto simp: ctl_Prepare_def lift_task_def)
  from that [OF r this] show thesis by simp
qed

end
