(* ===== verification/Lifecycle_Vmm.thy ===== *)
theory Lifecycle_Vmm
  imports Vmm_Correct
begin

text \<open>
  The VM manager of \<open>pkg/lifecycle/vmm.go\<close>, which the command line program gives to the library executor. It keeps an
  instance with a state per task. The host is the one of \<open>Vmm_Manager\<close>; what it answers is an argument. The locks
  serialise the operations; a task that is nil is left out.
\<close>

subsection \<open>State\<close>

datatype life_state =
    VMStateNew | VMStateStarting | VMStateRunning | VMStateStopping | VMStateStopped | VMStateCrashed

record life_config =
  lg_KernelPath :: string
  lg_RootfsDir :: string
  lg_SocketDir :: string
  lg_DefaultVCPUs :: int
  lg_DefaultMemoryMB :: int
  lg_EnableJailer :: bool

record vm_instance =
  li_ID :: string
  li_PID :: int
  li_Config :: json
  li_state :: life_state
  li_CreatedAt :: int
  li_SocketPath :: string
  li_InitSystem :: string
  li_GracePeriodSec :: int

record life_manager =
  lm_config :: life_config
  lm_vms :: "string \<rightharpoonup> vm_instance"
  lm_socketDir :: string

datatype life_error =
    LifeExists
  | LifeConfigNil
  | LifeConfigType
  | LifeBinaryMissing
  | LifeSpawnFailed
  | LifeNotReady
  | LifeNoAnswer string
  | LifeStatus string nat
  | LifeNotFound
  | LifeAlreadyStopping
  | LifeStillStarting
  | LifeKillFailed
  | LifeTransitional life_state

text \<open>
  The answers of the host: \<open>lf_answer\<close> is the status code of a request after the requests before, or \<open>None\<close> when there
  is no connection; \<open>lf_unmarshal\<close> decodes the text of a configuration; \<open>lf_term\<close> and \<open>lf_kill\<close> say whether a signal can
  be sent; \<open>lf_exits\<close> whether the end of the process is seen before the grace period and the context are over; \<open>lf_down\<close>
  whether the guest goes down by itself, and \<open>lf_done\<close> whether waiting for its socket to vanish returns before the
  timeout. An ended child that nobody waits for still takes signals, so these answers are independent of each other.
\<close>

record life_env =
  lf_binary :: bool
  lf_spawn :: "int option"
  lf_ready :: bool
  lf_answer :: "(string \<times> json) list \<Rightarrow> string \<Rightarrow> json \<Rightarrow> nat option"
  lf_unmarshal :: "string \<Rightarrow> json option"
  lf_unlink :: "string \<Rightarrow> bool"
  lf_now :: int
  lf_term :: bool
  lf_exits :: bool
  lf_kill :: bool
  lf_down :: bool
  lf_done :: bool

definition life_New :: "life_config option \<Rightarrow> life_manager" where
  "life_New oc =
     (let c = (case oc of
                 Some c \<Rightarrow> c
               | None \<Rightarrow> \<lparr>lg_KernelPath = [], lg_RootfsDir = [], lg_SocketDir = ''/var/run/firecracker'', lg_DefaultVCPUs = 0,
                         lg_DefaultMemoryMB = 0, lg_EnableJailer = False\<rparr>)
      in \<lparr>lm_config = c, lm_vms = Map.empty, lm_socketDir = lg_SocketDir c\<rparr>)"

definition SetState :: "life_state \<Rightarrow> vm_instance \<Rightarrow> vm_instance" where
  "SetState s x = x\<lparr>li_state := s\<rparr>"

definition life_unlink :: "life_env \<Rightarrow> string \<Rightarrow> host \<Rightarrow> host" where
  "life_unlink env p h = (if lf_unlink env p then host_unlink p h else h)"

subsection \<open>Configuring a VM\<close>

text \<open>A request is recorded when it is answered.\<close>

definition life_put :: "life_env \<Rightarrow> nat list \<Rightarrow> string \<Rightarrow> json \<Rightarrow> host \<Rightarrow> (life_error, unit) res \<times> host" where
  "life_put env codes path d h =
     (case lf_answer env (h_requests h) path d of
        None \<Rightarrow> (Inl (LifeNoAnswer path), h)
      | Some c \<Rightarrow> (if c \<in> set codes then Inr () else Inl (LifeStatus path c), h\<lparr>h_requests := h_requests h @ [(path, d)]\<rparr>))"

definition life_seq ::
    "(life_error, unit) res \<times> host \<Rightarrow> (host \<Rightarrow> (life_error, unit) res \<times> host) \<Rightarrow> (life_error, unit) res \<times> host" where
  "life_seq r f = (case r of (Inl e, h) \<Rightarrow> (Inl e, h) | (Inr _, h) \<Rightarrow> f h)"

definition config_codes :: "nat list" where
  "config_codes = [204, 200]"

definition put_field :: "life_env \<Rightarrow> string \<Rightarrow> json \<Rightarrow> host \<Rightarrow> (life_error, unit) res \<times> host" where
  "put_field env k cfg h = (case map_field k cfg of None \<Rightarrow> (Inr (), h) | Some x \<Rightarrow> life_put env config_codes (''/'' @ k) x h)"

text \<open>Drives that are no objects or have no identifier are skipped.\<close>

fun life_drives :: "life_env \<Rightarrow> json list \<Rightarrow> host \<Rightarrow> (life_error, unit) res \<times> host" where
  "life_drives env [] h = (Inr (), h)"
| "life_drives env (d # ds) h =
     (case json_string_field ''drive_id'' d of
        Some i \<Rightarrow>
          if is_object d \<and> i \<noteq> [] then life_seq (life_put env config_codes (''/drives/'' @ i) d h) (life_drives env ds)
          else life_drives env ds h
      | None \<Rightarrow> life_drives env ds h)"

definition config_map :: "life_env \<Rightarrow> json \<Rightarrow> json option" where
  "config_map env cfg = (case cfg of JObj fs \<Rightarrow> Some (JObj fs) | JStr s \<Rightarrow> lf_unmarshal env s | _ \<Rightarrow> None)"

definition life_configureVM :: "life_env \<Rightarrow> json \<Rightarrow> host \<Rightarrow> (life_error, unit) res \<times> host" where
  "life_configureVM env cfg h =
     (case config_map env cfg of
        None \<Rightarrow> (Inl LifeConfigType, h)
      | Some c \<Rightarrow>
          life_seq (put_field env ''boot-source'' c h) (\<lambda>h1.
            life_seq (put_field env ''machine-config'' c h1) (\<lambda>h2.
              life_drives env (list_field ''drives'' c) h2)))"

subsection \<open>Starting\<close>

definition new_instance :: "life_env \<Rightarrow> task \<Rightarrow> json \<Rightarrow> int \<Rightarrow> string \<Rightarrow> vm_instance" where
  "new_instance env t cfg pid sock = \<lparr>
     li_ID = task_ID t, li_PID = pid, li_Config = cfg, li_state = VMStateRunning, li_CreatedAt = lf_now env, li_SocketPath = sock,
     li_InitSystem = (case task_Annotations t ''init_system'' of Some s \<Rightarrow> s | None \<Rightarrow> ''none''), li_GracePeriodSec = 10\<rparr>"

definition life_Start ::
    "life_env \<Rightarrow> task \<Rightarrow> json option \<Rightarrow> life_manager \<Rightarrow> host \<Rightarrow> (life_error, unit) res \<times> life_manager \<times> host" where
  "life_Start env t ocfg m h =
     (if lm_vms m (task_ID t) \<noteq> None then (Inl LifeExists, m, h)
      else let sock = socket_path (lm_socketDir m) (task_ID t); h1 = life_unlink env sock h in
        (case ocfg of
           None \<Rightarrow> (Inl LifeConfigNil, m, h1)
         | Some cfg \<Rightarrow>
             if \<not> lf_binary env then (Inl LifeBinaryMissing, m, h1)
             else (case lf_spawn env of
                     None \<Rightarrow> (Inl LifeSpawnFailed, m, h1)
                   | Some pid \<Rightarrow>
                       let h2 = h1\<lparr>h_alive := pid # h_alive h1\<rparr>; undo = (\<lambda>h. life_unlink env sock (host_kill pid h)) in
                       if \<not> lf_ready env then (Inl LifeNotReady, m, undo h2)
                       else (case life_seq (life_configureVM env cfg (h2\<lparr>h_files := sock # h_files h2\<rparr>)) (life_put env [204] ''/actions'' start_action) of
                               (Inl e, h3) \<Rightarrow> (Inl e, m, undo h3)
                             | (Inr _, h3) \<Rightarrow>
                                 (Inr (), m\<lparr>lm_vms := (lm_vms m)(task_ID t \<mapsto> new_instance env t cfg pid sock)\<rparr>, h3)))))"

subsection \<open>Stopping\<close>

definition forceKillVM :: "life_env \<Rightarrow> vm_instance \<Rightarrow> host \<Rightarrow> (life_error, unit) res \<times> host" where
  "forceKillVM env x h = (if lf_kill env then (Inr (), host_kill (li_PID x) h) else (Inl LifeKillFailed, h))"

text \<open>The shutdowns change the instance, which the table points to.\<close>

definition gracefulShutdown :: "life_env \<Rightarrow> vm_instance \<Rightarrow> host \<Rightarrow> (life_error, unit) res \<times> vm_instance \<times> host" where
  "gracefulShutdown env x h =
     (if lf_term env \<and> lf_exits env then (Inr (), SetState VMStateStopped x, host_kill (li_PID x) h)
      else case forceKillVM env x h of (r, h1) \<Rightarrow> (r, x, h1))"

definition ctrl_alt_del :: json where
  "ctrl_alt_del = JObj [(''action_type'', JStr ''SendCtrlAltDel'')]"

definition hardShutdown :: "life_env \<Rightarrow> vm_instance \<Rightarrow> host \<Rightarrow> (life_error, unit) res \<times> vm_instance \<times> host" where
  "hardShutdown env x h =
     (case lf_answer env (h_requests h) ''/actions'' ctrl_alt_del of
        None \<Rightarrow> (case forceKillVM env x h of (r, h1) \<Rightarrow> (r, x, h1))
      | Some _ \<Rightarrow>
          let h1 = h\<lparr>h_requests := h_requests h @ [(''/actions'', ctrl_alt_del)]\<rparr>;
              h2 = (if lf_down env then host_kill (li_PID x) h1 else h1)
          in if lf_done env then (Inr (), SetState VMStateStopped x, h2)
             else (Inr (), x, snd (forceKillVM env x h2)))"

definition life_Stop :: "life_env \<Rightarrow> task \<Rightarrow> life_manager \<Rightarrow> host \<Rightarrow> (life_error, unit) res \<times> life_manager \<times> host" where
  "life_Stop env t m h =
     (case lm_vms m (task_ID t) of
        None \<Rightarrow> (Inl LifeNotFound, m, h)
      | Some x \<Rightarrow>
          if li_state x = VMStateStopping then (Inl LifeAlreadyStopping, m, h)
          else if li_state x = VMStateStarting then (Inl LifeStillStarting, m, h)
          else let x1 = SetState VMStateStopping x in
            (case (if li_InitSystem x \<noteq> ''none'' then gracefulShutdown env x1 h else hardShutdown env x1 h) of
               (r, x2, h') \<Rightarrow> (r, m\<lparr>lm_vms := (lm_vms m)(task_ID t \<mapsto> x2)\<rparr>, h')))"

subsection \<open>Status and removal\<close>

definition life_status :: "task_state \<Rightarrow> string \<Rightarrow> task_status" where
  "life_status s msg = \<lparr>st_State = s, st_Timestamp = 0, st_Message = msg, st_Err = None\<rparr>"

text \<open>A process is found for every number on Unix; \<open>alive\<close> says which processes take signals.\<close>

definition life_Wait :: "(int \<Rightarrow> bool) \<Rightarrow> task \<Rightarrow> life_manager \<Rightarrow> task_status" where
  "life_Wait alive t m =
     (case lm_vms m (task_ID t) of
        None \<Rightarrow> life_status TaskStateOrphaned ''VM not found''
      | Some x \<Rightarrow> if alive (li_PID x) then life_status TaskStateRunning [] else life_status TaskStateComplete ''Process exited'')"

definition described_state :: "life_state \<Rightarrow> task_state" where
  "described_state s =
     (case s of VMStateNew \<Rightarrow> TaskStateNew | VMStateStarting \<Rightarrow> TaskStateStarting | VMStateRunning \<Rightarrow> TaskStateRunning
      | VMStateStopping \<Rightarrow> TaskStateStarting | VMStateStopped \<Rightarrow> TaskStateComplete | VMStateCrashed \<Rightarrow> TaskStateFailed)"

definition life_Describe :: "(int \<Rightarrow> bool) \<Rightarrow> task \<Rightarrow> life_manager \<Rightarrow> task_status \<times> life_manager" where
  "life_Describe alive t m =
     (case lm_vms m (task_ID t) of
        None \<Rightarrow> (life_status TaskStateOrphaned ''VM not found'', m)
      | Some x \<Rightarrow>
          if \<not> alive (li_PID x) then (life_status TaskStateComplete ''VM has stopped'', m\<lparr>lm_vms := (lm_vms m)(task_ID t \<mapsto> SetState VMStateStopped x)\<rparr>)
          else (life_status (described_state (li_state x)) [], m))"

definition life_Remove :: "life_env \<Rightarrow> task \<Rightarrow> life_manager \<Rightarrow> host \<Rightarrow> (life_error, unit) res \<times> life_manager \<times> host" where
  "life_Remove env t m h =
     (case lm_vms m (task_ID t) of
        None \<Rightarrow> (Inr (), m, h)
      | Some x \<Rightarrow>
          if li_state x \<in> {VMStateStopping, VMStateStarting} then (Inl (LifeTransitional (li_state x)), m, h)
          else let h1 = (if li_state x = VMStateRunning then snd (forceKillVM env x h) else h);
                   h2 = (if li_SocketPath x \<noteq> [] then life_unlink env (li_SocketPath x) h1 else h1)
               in (Inr (), m\<lparr>lm_vms := (lm_vms m)(task_ID t := None)\<rparr>, h2))"

subsection \<open>What the operations do to the table\<close>

lemma life_Start_cases:
  assumes "life_Start env t cfg m h = (r, m', h')"
  shows "(r = Inr () \<longrightarrow> lm_vms m (task_ID t) = None \<and>
      (\<exists>c pid. cfg = Some c \<and> lf_spawn env = Some pid \<and>
        lm_vms m' = (lm_vms m)(task_ID t \<mapsto> new_instance env t c pid (socket_path (lm_socketDir m) (task_ID t))))) \<and>
    (r \<noteq> Inr () \<longrightarrow> m' = m)"
  using assms by (auto simp: life_Start_def Let_def split: if_splits option.splits prod.splits sum.splits)

text \<open>Whether the shutdown of a VM is seen to complete, so that it need not be killed.\<close>

definition goes_down :: "life_env \<Rightarrow> vm_instance \<Rightarrow> host \<Rightarrow> bool" where
  "goes_down env x h =
     (if li_InitSystem x \<noteq> ''none'' then lf_term env \<and> lf_exits env
      else lf_answer env (h_requests h) ''/actions'' ctrl_alt_del \<noteq> None \<and> lf_done env)"

lemma life_Stop_vms:
  assumes "life_Stop env t m h = (r, m', h')" and "lm_vms m (task_ID t) = Some x"
    and "li_state x \<notin> {VMStateStopping, VMStateStarting}"
  shows "lm_vms m' = (lm_vms m)(task_ID t \<mapsto> x\<lparr>li_state := if goes_down env x h then VMStateStopped else VMStateStopping\<rparr>)"
  using assms
  by (auto simp: life_Stop_def Let_def gracefulShutdown_def hardShutdown_def goes_down_def SetState_def forceKillVM_def fun_eq_iff split: if_splits option.splits prod.splits)

lemma life_Stop_refused:
  assumes "life_Stop env t m h = (r, m', h')"
    and "\<forall>x. lm_vms m (task_ID t) = Some x \<longrightarrow> li_state x \<in> {VMStateStopping, VMStateStarting}"
  shows "r \<noteq> Inr () \<and> m' = m \<and> h' = h"
  using assms by (auto simp: life_Stop_def split: option.splits)

lemma life_Remove_vms:
  assumes "life_Remove env t m h = (r, m', h')"
  shows "(if \<exists>x. lm_vms m (task_ID t) = Some x \<and> li_state x \<in> {VMStateStopping, VMStateStarting}
     then r \<noteq> Inr () \<and> m' = m \<and> h' = h else r = Inr () \<and> lm_vms m' = (lm_vms m)(task_ID t := None))"
  using assms by (auto simp: life_Remove_def Let_def fun_upd_idem split: option.splits if_splits)

subsection \<open>Requests\<close>

text \<open>No request for a network interface.\<close>

definition no_interface :: "(life_error, unit) res \<times> host \<Rightarrow> host \<Rightarrow> bool" where
  "no_interface r h \<longleftrightarrow> (\<exists>rs. h_requests (snd r) = h_requests h @ rs \<and> list_all (\<lambda>x. \<not> prefix ''/network-interfaces/'' (fst x)) rs)"

lemma no_interface_same: "h_requests h' = h_requests h \<Longrightarrow> no_interface (e, h') h"
  unfolding no_interface_def by (rule exI [of _ "[]"]) simp

lemma no_interface_put: "\<not> prefix ''/network-interfaces/'' p \<Longrightarrow> no_interface (life_put env cs p d h) h"
  by (auto simp: no_interface_def life_put_def split: option.splits)

lemma no_interface_seq: "no_interface r h \<Longrightarrow> (\<And>h'. no_interface (f h') h') \<Longrightarrow> no_interface (life_seq r f) h"
proof -
  assume r: "no_interface r h" and f: "\<And>h'. no_interface (f h') h'"
  obtain a h1 where a: "r = (a, h1)" by fastforce
  obtain rs where "h_requests h1 = h_requests h @ rs" "list_all (\<lambda>x. \<not> prefix ''/network-interfaces/'' (fst x)) rs"
    using r by (auto simp: no_interface_def a)
  moreover obtain rs' where "h_requests (snd (f h1)) = h_requests h1 @ rs'" "list_all (\<lambda>x. \<not> prefix ''/network-interfaces/'' (fst x)) rs'"
    using f [of h1] by (auto simp: no_interface_def)
  ultimately have "no_interface (f h1) h" unfolding no_interface_def by (intro exI [of _ "rs @ rs'"]) simp
  then show ?thesis using r by (cases a) (simp_all add: life_seq_def a)
qed

lemma no_interface_drives: "no_interface (life_drives env ds h) h"
proof (induction ds arbitrary: h)
  case (Cons d ds)
  have "no_interface (life_seq (life_put env config_codes (''/drives/'' @ i) d h) (life_drives env ds)) h" for i
    by (rule no_interface_seq [OF no_interface_put Cons.IH]) simp
  then show ?case using Cons.IH by (simp split: option.splits)
qed (simp add: no_interface_same)

lemma no_interface_field: "k \<in> {''boot-source'', ''machine-config''} \<Longrightarrow> no_interface (put_field env k c h) h"
  unfolding put_field_def by (cases "map_field k c") (auto simp: no_interface_same intro!: no_interface_put)

lemma no_interface_configure: "no_interface (life_configureVM env cfg h) h"
proof (cases "config_map env cfg")
  case (Some c)
  then show ?thesis unfolding life_configureVM_def option.case
    by (auto intro!: no_interface_seq no_interface_field no_interface_drives)
qed (simp add: life_configureVM_def no_interface_same)

text \<open>
  A VM of this manager never has a network: whatever its configuration says, no request for an interface is sent.
\<close>

theorem lifecycle_vm_without_network:
  assumes "life_Start env t cfg m h = (r, m', h')"
  shows "\<exists>rs. h_requests h' = h_requests h @ rs \<and> list_all (\<lambda>x. \<not> prefix ''/network-interfaces/'' (fst x)) rs"
proof -
  have "no_interface (life_seq (life_configureVM env c h1) (life_put env [204] ''/actions'' start_action)) h1" for c h1
    by (rule no_interface_seq [OF no_interface_configure no_interface_put]) simp
  then have key: "\<exists>rs. h_requests h3 = h_requests h1 @ rs \<and> list_all (\<lambda>x. \<not> prefix ''/network-interfaces/'' (fst x)) rs"
    if "life_seq (life_configureVM env c h1) (life_put env [204] ''/actions'' start_action) = (r1, h3)" for c h1 r1 h3
    using that unfolding no_interface_def by (metis snd_conv)
  show ?thesis
    using assms
    by (auto simp: life_Start_def Let_def life_unlink_def host_unlink_def host_kill_def dest!: key
        split: if_splits option.splits sum.splits prod.splits)
qed

text \<open>A host that starts VMs and accepts all requests.\<close>

definition life_willing :: "life_env \<Rightarrow> bool" where
  "life_willing env \<longleftrightarrow> lf_binary env \<and> lf_spawn env \<noteq> None \<and> lf_ready env \<and> lf_answer env = (\<lambda>_ _ _. Some 204)"

lemma willing_drives: "life_willing env \<Longrightarrow> fst (life_drives env ds h) = Inr ()"
  by (induction ds arbitrary: h) (simp_all add: life_willing_def life_put_def life_seq_def config_codes_def split: option.splits)

lemma willing_configure: "life_willing env \<Longrightarrow> is_object cfg \<Longrightarrow> fst (life_configureVM env cfg h) = Inr ()"
  using willing_drives [of env]
  by (cases cfg)
    (auto simp: life_configureVM_def config_map_def put_field_def life_willing_def life_put_def life_seq_def config_codes_def is_object_def
      split: option.splits)

lemma willing_Start:
  assumes "life_willing env" and "is_object cfg" and "lm_vms m (task_ID t) = None"
  shows "fst (life_Start env t (Some cfg) m h) = Inr ()"
proof -
  obtain pid where pid: "lf_spawn env = Some pid" using assms(1) by (auto simp: life_willing_def)
  let ?h = "\<lambda>h1 sock. h1\<lparr>h_alive := pid # h_alive h1, h_files := sock # h_files h1\<rparr>"
  have "fst (life_seq (life_configureVM env cfg h1) (life_put env [204] ''/actions'' start_action)) = Inr ()" for h1
    using willing_configure [OF assms(1,2), of h1] assms(1)
    by (cases "life_configureVM env cfg h1") (simp add: life_seq_def life_put_def life_willing_def)
  then show ?thesis using assms pid
    by (auto simp: life_Start_def Let_def life_willing_def split: prod.splits sum.splits) (metis Inl_Inr_False fst_conv)
qed

end
