(* ===== verification/Library_Executor.thy ===== *)
theory Library_Executor
  imports Lifecycle_Vmm Task_Translator
begin

text \<open>
  The executor of \<open>pkg/executor/executor.go\<close>, which programs embed without SwarmKit: it prepares,
  starts, stops and removes tasks through interfaces to the image preparer, the network and the VM manager,
  and reports events on a channel. What it relies on is the locale \<open>lib_vms\<close>; it is interpreted on the VM
  manager of \<open>pkg/lifecycle\<close>, which \<open>cmd/swarmcracker\<close> gives it.
\<close>

subsection \<open>State\<close>

record lib_config =
  lc_KernelPath :: string
  lc_RootfsDir :: string
  lc_SocketDir :: string
  lc_DefaultVCPUs :: int
  lc_DefaultMemoryMB :: int

record lib_event =
  ev_Task :: task
  ev_Message :: string

text \<open>The channel is the list of the events that nobody has received yet; it holds 100 of them.\<close>

record lib_executor =
  le_config :: lib_config
  le_events :: "lib_event list"
  le_closed :: bool

datatype lib_error =
    LibConfigNil
  | LibImageFailed string
  | LibNetworkFailed string
  | LibTranslationFailed vt_error
  | LibStartFailed life_error
  | LibRemoveFailed life_error

definition event_capacity :: nat where "event_capacity = 100"

definition NewFirecrackerExecutor :: "lib_config option \<Rightarrow> (lib_error, lib_executor) res" where
  "NewFirecrackerExecutor c =
     (case c of
        None \<Rightarrow> Inl LibConfigNil
      | Some c \<Rightarrow>
          Inr \<lparr>le_config = c\<lparr>
                 lc_DefaultVCPUs := if lc_DefaultVCPUs c = 0 then 1 else lc_DefaultVCPUs c,
                 lc_DefaultMemoryMB := if lc_DefaultMemoryMB c = 0 then 512 else lc_DefaultMemoryMB c,
                 lc_SocketDir := if lc_SocketDir c = [] then ''/var/run/firecracker'' else lc_SocketDir c,
                 lc_RootfsDir := if lc_RootfsDir c = [] then ''/var/lib/firecracker/rootfs'' else lc_RootfsDir c\<rparr>,
               le_events = [], le_closed = False\<rparr>)"

text \<open>The interfaces, as functions on the state \<open>'w\<close> behind them.\<close>

record 'w lib_managers =
  lb_Prepare :: "task \<Rightarrow> 'w \<Rightarrow> (string, task) res \<times> 'w"
  lb_PrepareNetwork :: "task \<Rightarrow> 'w \<Rightarrow> (string, task) res \<times> 'w"
  lb_CleanupNetwork :: "task \<Rightarrow> 'w \<Rightarrow> 'w"
  lb_RemoveFile :: "string \<Rightarrow> 'w \<Rightarrow> 'w"
  lb_Start :: "task \<Rightarrow> json \<Rightarrow> 'w \<Rightarrow> (life_error, unit) res \<times> 'w"
  lb_Stop :: "task \<Rightarrow> 'w \<Rightarrow> (life_error, unit) res \<times> 'w"
  lb_Wait :: "task \<Rightarrow> 'w \<Rightarrow> task_status"
  lb_Describe :: "task \<Rightarrow> 'w \<Rightarrow> task_status \<times> 'w"
  lb_Remove :: "task \<Rightarrow> 'w \<Rightarrow> (life_error, unit) res \<times> 'w"

subsection \<open>Operations\<close>

text \<open>\<open>sendEvent\<close>: a full channel makes it give up after the timeout.\<close>

definition sendEvent :: "lib_event \<Rightarrow> lib_executor \<Rightarrow> bool \<times> lib_executor" where
  "sendEvent ev e =
     (if le_closed e then (False, e)
      else if length (le_events e) < event_capacity then (True, e\<lparr>le_events := le_events e @ [ev]\<rparr>)
      else (False, e))"

text \<open>The rollback of the image preparation, the only one that \<open>Prepare\<close> can run.\<close>

definition rollback_image :: "'w lib_managers \<Rightarrow> task \<Rightarrow> 'w \<Rightarrow> 'w" where
  "rollback_image mg t w =
     (case task_Annotations t ''rootfs'' of
        Some p \<Rightarrow> if p \<noteq> [] then lb_RemoveFile mg p w else w
      | None \<Rightarrow> w)"

definition lib_Prepare :: "'w lib_managers \<Rightarrow> task \<Rightarrow> 'w \<Rightarrow> (lib_error, task) res \<times> 'w" where
  "lib_Prepare mg t w =
     (case lb_Prepare mg t w of
        (Inl e, w1) \<Rightarrow> (Inl (LibImageFailed e), w1)
      | (Inr t1, w1) \<Rightarrow>
          (case lb_PrepareNetwork mg t1 w1 of
             (Inl e, w2) \<Rightarrow> (Inl (LibNetworkFailed e), rollback_image mg t1 w2)
           | (Inr t2, w2) \<Rightarrow> (Inr t2, w2)))"

definition lib_Start ::
    "'w lib_managers \<Rightarrow> (task \<Rightarrow> (vt_error, json) res) \<Rightarrow> task \<Rightarrow> lib_executor \<Rightarrow> 'w \<Rightarrow> (lib_error, unit) res \<times> lib_executor \<times> 'w" where
  "lib_Start mg translate t e w =
     (case translate t of
        Inl err \<Rightarrow> (Inl (LibTranslationFailed err), e, w)
      | Inr cfg \<Rightarrow>
          (case lb_Start mg t cfg w of
             (Inl err, w1) \<Rightarrow> (Inl (LibStartFailed err), e, w1)
           | (Inr _, w1) \<Rightarrow> (Inr (), snd (sendEvent \<lparr>ev_Task = t, ev_Message = ''VM started successfully''\<rparr> e), w1)))"

definition lib_Wait :: "'w lib_managers \<Rightarrow> task \<Rightarrow> 'w \<Rightarrow> task_status" where
  "lib_Wait mg = lb_Wait mg"

definition lib_Stop :: "'w lib_managers \<Rightarrow> task \<Rightarrow> 'w \<Rightarrow> (life_error, unit) res \<times> 'w" where
  "lib_Stop mg = lb_Stop mg"

definition lib_Describe :: "'w lib_managers \<Rightarrow> task \<Rightarrow> 'w \<Rightarrow> task_status \<times> 'w" where
  "lib_Describe mg = lb_Describe mg"

definition lib_Remove :: "'w lib_managers \<Rightarrow> task \<Rightarrow> 'w \<Rightarrow> (lib_error, unit) res \<times> 'w" where
  "lib_Remove mg t w =
     (case lb_Remove mg t (lb_CleanupNetwork mg t (snd (lb_Stop mg t w))) of
        (Inl err, w1) \<Rightarrow> (Inl (LibRemoveFailed err), w1)
      | (Inr _, w1) \<Rightarrow> (Inr (), w1))"

text \<open>\<open>Close\<close>; the shutdown of the network manager is an argument.\<close>

definition lib_Close :: "('w \<Rightarrow> 'w) \<Rightarrow> lib_executor \<Rightarrow> 'w \<Rightarrow> lib_executor \<times> 'w" where
  "lib_Close shutdown e w = (e\<lparr>le_closed := True\<rparr>, shutdown w)"

text \<open>A receive from the channel.\<close>

definition next_event :: "lib_executor \<Rightarrow> lib_event option \<times> lib_executor" where
  "next_event e =
     (case le_events e of [] \<Rightarrow> (None, e) | ev # evs \<Rightarrow> (Some ev, e\<lparr>le_events := evs\<rparr>))"

subsection \<open>Runs\<close>

text \<open>The calls of an embedding program, interleaved in any way.\<close>

inductive lib_step ::
    "'w lib_managers \<Rightarrow> (task \<Rightarrow> (vt_error, json) res) \<Rightarrow> lib_executor \<times> 'w \<Rightarrow> lib_executor \<times> 'w \<Rightarrow> bool"
  for mg tr where
  prepare: "lib_Prepare mg t w = (r, w') \<Longrightarrow> lib_step mg tr (e, w) (e, w')"
| start: "lib_Start mg tr t e w = (r, e', w') \<Longrightarrow> lib_step mg tr (e, w) (e', w')"
| stop: "lib_Stop mg t w = (r, w') \<Longrightarrow> lib_step mg tr (e, w) (e, w')"
| remove: "lib_Remove mg t w = (r, w') \<Longrightarrow> lib_step mg tr (e, w) (e, w')"
| describe: "lib_Describe mg t w = (st, w') \<Longrightarrow> lib_step mg tr (e, w) (e, w')"
| receive: "next_event e = (ev, e') \<Longrightarrow> lib_step mg tr (e, w) (e', w)"
| close: "lib_Close id e w = (e', w') \<Longrightarrow> lib_step mg tr (e, w) (e', w')"

inductive_cases lib_step_cases: "lib_step mg tr s s'"

lemma sendEvent_bounded: "length (le_events e) \<le> 100 \<Longrightarrow> length (le_events (snd (sendEvent ev e))) \<le> 100"
  by (simp add: sendEvent_def event_capacity_def)

lemma sendEvent_closed: "le_closed e \<Longrightarrow> snd (sendEvent ev e) = e"
  by (simp add: sendEvent_def)

lemma lib_Start_cases:
  assumes "lib_Start mg tr t e w = (r, e', w')"
  obtains "e' = e" | "r = Inr ()" "e' = snd (sendEvent \<lparr>ev_Task = t, ev_Message = ''VM started successfully''\<rparr> e)"
  using assms by (auto simp: lib_Start_def split: sum.splits prod.splits)

lemma next_event_shrinks: "next_event e = (ev, e') \<Longrightarrow> length (le_events e') \<le> length (le_events e) \<and> le_closed e' = le_closed e"
  by (auto simp: next_event_def split: list.splits)

definition events_ok :: "lib_executor \<Rightarrow> bool" where
  "events_ok e \<longleftrightarrow> length (le_events e) \<le> 100"

lemma lib_step_events:
  assumes "lib_step mg tr s s'"
  shows "(events_ok (fst s) \<longrightarrow> events_ok (fst s')) \<and>
    (le_closed (fst s) \<longrightarrow> le_closed (fst s') \<and> length (le_events (fst s')) \<le> length (le_events (fst s)))"
  using assms
proof (cases rule: lib_step.cases)
  case (start t e w r e' w')
  from start(3) show ?thesis
    by (rule lib_Start_cases) (use start in \<open>auto simp: events_ok_def sendEvent_bounded sendEvent_closed\<close>)
next
  case (receive e ev e' w)
  then show ?thesis using next_event_shrinks [of e ev e'] by (auto simp: events_ok_def)
qed (auto simp: lib_Close_def events_ok_def)

text \<open>
  The channel never holds more than 100 events, and once the executor is closed no event is added,
  in every run of an embedding program from a new executor.
\<close>

theorem events_bounded:
  assumes "NewFirecrackerExecutor c = Inr e" and "(lib_step mg tr)\<^sup>*\<^sup>* (e, w) (e1, w1)"
    and "(lib_step mg tr)\<^sup>*\<^sup>* (e1, w1) (e2, w2)"
  shows "length (le_events e1) \<le> 100 \<and> (le_closed e1 \<longrightarrow> le_closed e2 \<and> length (le_events e2) \<le> length (le_events e1))"
proof -
  have "events_ok e" using assms(1) by (auto simp: NewFirecrackerExecutor_def events_ok_def split: option.splits)
  with assms(2) have "events_ok e1"
    by (induction "(e1, w1)" arbitrary: e1 w1 rule: rtranclp_induct) (auto dest: lib_step_events)
  moreover from assms(3) have "le_closed e1 \<longrightarrow> le_closed e2 \<and> length (le_events e2) \<le> length (le_events e1)"
    by (induction "(e2, w2)" arbitrary: e2 w2 rule: rtranclp_induct) (fastforce dest: lib_step_events)+
  ultimately show ?thesis by (simp add: events_ok_def)
qed

subsection \<open>The contract of the managers\<close>

text \<open>
  \<open>vms\<close> is the table of the VMs that are tracked. A start makes an entry, a stop keeps it, and a removal deletes
  it or is refused.
\<close>

locale lib_vms =
  fixes mg :: "'w lib_managers" and vms :: "'w \<Rightarrow> string \<rightharpoonup> 'i"
  assumes prepare_id: "lb_Prepare mg t w = (Inr t', w') \<Longrightarrow> task_ID t' = task_ID t"
    and network_id: "lb_PrepareNetwork mg t w = (Inr t', w') \<Longrightarrow> task_ID t' = task_ID t"
    and prepare_vms: "vms (snd (lb_Prepare mg t w)) = vms w"
    and network_vms: "vms (snd (lb_PrepareNetwork mg t w)) = vms w"
    and cleanup_vms: "vms (lb_CleanupNetwork mg t w) = vms w"
    and file_vms: "vms (lb_RemoveFile mg p w) = vms w"
    and start_ok: "lb_Start mg t cfg w = (Inr (), w') \<Longrightarrow> vms w (task_ID t) = None \<and> (\<exists>x. vms w' = (vms w)(task_ID t \<mapsto> x))"
    and start_err: "lb_Start mg t cfg w = (Inl err, w') \<Longrightarrow> vms w' = vms w"
    and stop_others: "j \<noteq> task_ID t \<Longrightarrow> vms (snd (lb_Stop mg t w)) j = vms w j"
    and stop_keeps: "vms (snd (lb_Stop mg t w)) (task_ID t) = None \<longleftrightarrow> vms w (task_ID t) = None"
    and remove_ok: "lb_Remove mg t w = (Inr (), w') \<Longrightarrow> vms w' = (vms w)(task_ID t := None)"
    and remove_err: "lb_Remove mg t w = (Inl err, w') \<Longrightarrow> vms w' = vms w \<and> vms w (task_ID t) \<noteq> None"
begin

lemma lib_Prepare_vms:
  assumes "lib_Prepare mg t w = (r, w')"
  shows "vms w' = vms w \<and> (\<forall>t'. r = Inr t' \<longrightarrow> task_ID t' = task_ID t)"
proof -
  obtain r1 w1 where 1: "lb_Prepare mg t w = (r1, w1)" by fastforce
  have v1: "vms w1 = vms w" using prepare_vms [of t w] 1 by simp
  show ?thesis
  proof (cases r1)
    case (Inr t1)
    obtain r2 w2 where 2: "lb_PrepareNetwork mg t1 w1 = (r2, w2)" by fastforce
    have v2: "vms w2 = vms w" using network_vms [of t1 w1] 2 v1 by simp
    have i: "task_ID t1 = task_ID t" using prepare_id 1 Inr by blast
    have "(r, w') = (case r2 of Inl e \<Rightarrow> (Inl (LibNetworkFailed e), rollback_image mg t1 w2) | Inr t2 \<Rightarrow> (Inr t2, w2))"
      using assms 1 2 Inr by (simp add: lib_Prepare_def split: sum.splits)
    moreover have "vms (rollback_image mg t1 w2) = vms w" using v2 by (simp add: rollback_image_def file_vms split: option.splits)
    moreover have "task_ID t2 = task_ID t" if "r2 = Inr t2" for t2 using network_id 2 that i by metis
    ultimately show ?thesis using v2 by (cases r2) simp_all
  qed (use assms 1 v1 in \<open>auto simp: lib_Prepare_def\<close>)
qed

lemma lib_Start_vms:
  assumes "lib_Start mg tr t e w = (r, e', w')"
  shows "(r = Inr () \<longrightarrow> vms w (task_ID t) = None \<and> (\<exists>x. vms w' = (vms w)(task_ID t \<mapsto> x))) \<and> (r \<noteq> Inr () \<longrightarrow> vms w' = vms w)"
  using assms start_ok start_err by (auto simp: lib_Start_def split: sum.splits prod.splits)

lemma lib_Remove_vms:
  assumes "lib_Remove mg t w = (r, w')"
  shows "(\<forall>j. j \<noteq> task_ID t \<longrightarrow> vms w' j = vms w j) \<and>
    (if r = Inr () then vms w' (task_ID t) = None else vms w' (task_ID t) \<noteq> None \<and> vms w (task_ID t) \<noteq> None)"
proof -
  define w1 where "w1 = lb_CleanupNetwork mg t (snd (lb_Stop mg t w))"
  obtain r1 w2 where 1: "lb_Remove mg t w1 = (r1, w2)" by fastforce
  have v: "vms w1 = vms (snd (lb_Stop mg t w))" unfolding w1_def by (rule cleanup_vms)
  have o: "vms w1 j = vms w j" if "j \<noteq> task_ID t" for j using stop_others [OF that, of w] v by simp
  have k: "vms w1 (task_ID t) = None \<longleftrightarrow> vms w (task_ID t) = None" using stop_keeps [of t w] v by simp
  show ?thesis
  proof (cases r1)
    case (Inl e)
    then have "w' = w2" "r = Inl (LibRemoveFailed e)" "vms w2 = vms w1" "vms w1 (task_ID t) \<noteq> None"
      using assms 1 remove_err [of t w1 e w2] by (auto simp: lib_Remove_def w1_def [symmetric])
    then show ?thesis using o k by simp
  next
    case (Inr u)
    then have "w' = w2" "r = Inr ()" "vms w2 = (vms w1)(task_ID t := None)"
      using assms 1 remove_ok [of t w1 w2] by (auto simp: lib_Remove_def w1_def [symmetric])
    then show ?thesis using o by simp
  qed
qed

end

subsection \<open>The managers of the program\<close>

text \<open>
  The VM manager and the host are explicit, image preparer and network manager are functions on a state of their
  own. What the host answers may depend on that state, which \<open>lo_tick\<close> advances at each call of the VM manager.
\<close>

record 'x lib_other =
  lo_Prepare :: "task \<Rightarrow> 'x \<Rightarrow> (string, string \<rightharpoonup> string) res \<times> 'x"
  lo_PrepareNetwork :: "task \<Rightarrow> 'x \<Rightarrow> (string, net_attachment list) res \<times> 'x"
  lo_CleanupNetwork :: "task \<Rightarrow> 'x \<Rightarrow> 'x"
  lo_env :: "'x \<Rightarrow> life_env"
  lo_alive :: "'x \<Rightarrow> int \<Rightarrow> bool"
  lo_tick :: "'x \<Rightarrow> 'x"

record 'x lib_world =
  lw_vmm :: life_manager
  lw_host :: host
  lw_other :: 'x

definition lib_task :: "('a \<Rightarrow> task) \<Rightarrow> ('x \<Rightarrow> ('e, 'a) res \<times> 'x) \<Rightarrow> 'x lib_world \<Rightarrow> ('e, task) res \<times> 'x lib_world" where
  "lib_task g f w = (case f (lw_other w) of (r, x) \<Rightarrow> (map_sum id g r, w\<lparr>lw_other := x\<rparr>))"

definition lib_call ::
    "'x lib_other \<Rightarrow> (life_env \<Rightarrow> life_manager \<Rightarrow> host \<Rightarrow> 'r \<times> life_manager \<times> host) \<Rightarrow> 'x lib_world \<Rightarrow> 'r \<times> 'x lib_world" where
  "lib_call om f w =
     (case f (lo_env om (lw_other w)) (lw_vmm w) (lw_host w) of
        (r, m, h) \<Rightarrow> (r, w\<lparr>lw_vmm := m, lw_host := h, lw_other := lo_tick om (lw_other w)\<rparr>))"

definition lib_program :: "'x lib_other \<Rightarrow> 'x lib_world lib_managers" where
  "lib_program om = \<lparr>
     lb_Prepare = (\<lambda>t. lib_task (\<lambda>a. t\<lparr>task_Annotations := a\<rparr>) (lo_Prepare om t)),
     lb_PrepareNetwork = (\<lambda>t. lib_task (\<lambda>ns. t\<lparr>task_Networks := ns\<rparr>) (lo_PrepareNetwork om t)),
     lb_CleanupNetwork = (\<lambda>t w. w\<lparr>lw_other := lo_CleanupNetwork om t (lw_other w)\<rparr>),
     lb_RemoveFile = (\<lambda>p w. w\<lparr>lw_host := life_unlink (lo_env om (lw_other w)) p (lw_host w)\<rparr>),
     lb_Start = (\<lambda>t cfg. lib_call om (\<lambda>env. life_Start env t (Some cfg))),
     lb_Stop = (\<lambda>t. lib_call om (\<lambda>env. life_Stop env t)),
     lb_Wait = (\<lambda>t w. life_Wait (lo_alive om (lw_other w)) t (lw_vmm w)),
     lb_Describe = (\<lambda>t w. case life_Describe (lo_alive om (lw_other w)) t (lw_vmm w) of (st, m) \<Rightarrow> (st, w\<lparr>lw_vmm := m\<rparr>)),
     lb_Remove = (\<lambda>t. lib_call om (\<lambda>env. life_Remove env t))\<rparr>"

lemma lib_program_sel [simp]:
  "lb_Prepare (lib_program om) t = lib_task (\<lambda>a. t\<lparr>task_Annotations := a\<rparr>) (lo_Prepare om t)"
  "lb_PrepareNetwork (lib_program om) t = lib_task (\<lambda>ns. t\<lparr>task_Networks := ns\<rparr>) (lo_PrepareNetwork om t)"
  "lb_CleanupNetwork (lib_program om) t w = w\<lparr>lw_other := lo_CleanupNetwork om t (lw_other w)\<rparr>"
  "lb_RemoveFile (lib_program om) p w = w\<lparr>lw_host := life_unlink (lo_env om (lw_other w)) p (lw_host w)\<rparr>"
  "lb_Start (lib_program om) t cfg = lib_call om (\<lambda>env. life_Start env t (Some cfg))"
  "lb_Stop (lib_program om) t = lib_call om (\<lambda>env. life_Stop env t)"
  "lb_Remove (lib_program om) t = lib_call om (\<lambda>env. life_Remove env t)"
  by (simp_all add: lib_program_def)

lemma map_sum_Inr_iff: "map_sum id g r = Inr y \<longleftrightarrow> (\<exists>x. r = Inr x \<and> y = g x)"
  by (cases r) auto

lemma lib_call_fst_snd:
  "lib_call om f w = (r, w') \<longleftrightarrow> (\<exists>m h. f (lo_env om (lw_other w)) (lw_vmm w) (lw_host w) = (r, m, h) \<and>
     w' = w\<lparr>lw_vmm := m, lw_host := h, lw_other := lo_tick om (lw_other w)\<rparr>)"
  by (auto simp: lib_call_def split: prod.splits)

text \<open>The table as the contract has it.\<close>

abbreviation lib_table :: "'x lib_world \<Rightarrow> string \<rightharpoonup> vm_instance" where
  "lib_table w \<equiv> lm_vms (lw_vmm w)"

lemma life_Stop_others:
  assumes "life_Stop env t m h = (r, m', h')"
  shows "(\<forall>j. j \<noteq> task_ID t \<longrightarrow> lm_vms m' j = lm_vms m j) \<and> (lm_vms m' (task_ID t) = None \<longleftrightarrow> lm_vms m (task_ID t) = None)"
proof (cases "\<forall>x. lm_vms m (task_ID t) = Some x \<longrightarrow> li_state x \<in> {VMStateStopping, VMStateStarting}")
  case True
  then show ?thesis using life_Stop_refused [OF assms] by blast
next
  case False
  then obtain x where "lm_vms m (task_ID t) = Some x" "li_state x \<notin> {VMStateStopping, VMStateStarting}" by blast
  then show ?thesis using life_Stop_vms [OF assms] by simp
qed

interpretation lvm: lib_vms "lib_program om" lib_table for om
proof (unfold_locales, goal_cases)
  case (1 t w t' w')
  then show ?case by (auto simp: lib_task_def map_sum_Inr_iff split: prod.splits)
next
  case (2 t w t' w')
  then show ?case by (auto simp: lib_task_def map_sum_Inr_iff split: prod.splits)
next
  case (7 t cfg w w')
  then show ?case using life_Start_cases by (fastforce simp: lib_call_fst_snd)
next
  case (8 t cfg w err w')
  then show ?case using life_Start_cases by (fastforce simp: lib_call_fst_snd)
next
  case (9 j t w)
  obtain r m h where s: "life_Stop (lo_env om (lw_other w)) t (lw_vmm w) (lw_host w) = (r, m, h)" by (rule prod_cases3)
  then show ?case using 9 life_Stop_others [OF s] by (simp add: lib_call_def)
next
  case (10 t w)
  obtain r m h where s: "life_Stop (lo_env om (lw_other w)) t (lw_vmm w) (lw_host w) = (r, m, h)" by (rule prod_cases3)
  then show ?case using life_Stop_others [OF s] by (simp add: lib_call_def)
next
  case (11 t w w')
  then obtain m h where s: "life_Remove (lo_env om (lw_other w)) t (lw_vmm w) (lw_host w) = (Inr (), m, h)"
      "w' = w\<lparr>lw_vmm := m, lw_host := h, lw_other := lo_tick om (lw_other w)\<rparr>" by (auto simp: lib_call_fst_snd)
  from life_Remove_vms [OF s(1)] s(2) show ?case by (simp split: if_splits)
next
  case (12 t w err w')
  then obtain m h where s: "life_Remove (lo_env om (lw_other w)) t (lw_vmm w) (lw_host w) = (Inl err, m, h)"
      "w' = w\<lparr>lw_vmm := m, lw_host := h, lw_other := lo_tick om (lw_other w)\<rparr>" by (auto simp: lib_call_fst_snd)
  from life_Remove_vms [OF s(1)] s(2) show ?case by (auto split: if_splits)
qed (simp_all add: lib_task_def split: prod.splits)

subsection \<open>VMs of the executor\<close>

text \<open>A removal stops the VM first; what is left depends on how it went down.\<close>

lemma lib_Remove_table:
  assumes "lib_Remove (lib_program om) t w = (r, w')" and "lib_table w (task_ID t) = Some x"
    and "li_state x \<notin> {VMStateStopping, VMStateStarting}"
  shows "if goes_down (lo_env om (lw_other w)) x (lw_host w) then r = Inr () \<and> lib_table w' = (lib_table w)(task_ID t := None)
    else r = Inl (LibRemoveFailed (LifeTransitional VMStateStopping)) \<and>
      lib_table w' = (lib_table w)(task_ID t \<mapsto> x\<lparr>li_state := VMStateStopping\<rparr>)"
proof -
  let ?g = "goes_down (lo_env om (lw_other w)) x (lw_host w)"
  obtain r1 m1 h1 where s: "life_Stop (lo_env om (lw_other w)) t (lw_vmm w) (lw_host w) = (r1, m1, h1)" by (rule prod_cases3)
  define y where "y = lo_CleanupNetwork om t (lo_tick om (lw_other w))"
  obtain r2 m2 h2 where d: "life_Remove (lo_env om y) t m1 h1 = (r2, m2, h2)" by (rule prod_cases3)
  have m1: "lm_vms m1 = (lib_table w)(task_ID t \<mapsto> x\<lparr>li_state := if ?g then VMStateStopped else VMStateStopping\<rparr>)"
    by (rule life_Stop_vms [OF s assms(2,3)])
  have "r = map_sum LibRemoveFailed id r2 \<and> lw_vmm w' = m2"
    using assms(1) s d by (cases r2) (auto simp: lib_Remove_def lib_call_def y_def)
  moreover have "if ?g then r2 = Inr () \<and> lm_vms m2 = (lib_table w)(task_ID t := None)
      else r2 = Inl (LifeTransitional VMStateStopping) \<and> lm_vms m2 = lm_vms m1"
    using life_Remove_vms [OF d] d m1 by (auto simp: life_Remove_def split: if_splits)
  ultimately show ?thesis using m1 by (simp split: if_splits)
qed

text \<open>
  Claim C27. Preparing a task touches no VM, and starting it makes exactly one entry, for a VM that runs. What removing the
  task then does depends on how its VM goes down. When the end of the VM is seen within its time, the table is what
  it was before the task. When the VM has to be killed, the removal fails and the VM stays in the table, as one that
  is stopping. No other VM is touched.
\<close>

theorem library_task_vms:
  assumes "lib_Prepare (lib_program om) t w = (Inr t', w1)"
    and "lib_Start (lib_program om) tr t' e w1 = (Inr (), e', w2)" and "lib_Remove (lib_program om) t' w2 = (r, w3)"
  shows "\<exists>x. lib_table w1 = lib_table w \<and> lib_table w2 = (lib_table w)(task_ID t \<mapsto> x) \<and> li_state x = VMStateRunning \<and>
    (if goes_down (lo_env om (lw_other w2)) x (lw_host w2) then r = Inr () \<and> lib_table w3 = lib_table w
     else r = Inl (LibRemoveFailed (LifeTransitional VMStateStopping)) \<and>
       lib_table w3 = (lib_table w)(task_ID t \<mapsto> x\<lparr>li_state := VMStateStopping\<rparr>))"
proof -
  have 1: "lib_table w1 = lib_table w" and i: "task_ID t' = task_ID t" using lvm.lib_Prepare_vms [OF assms(1)] by simp_all
  obtain cfg m h where s: "life_Start (lo_env om (lw_other w1)) t' (Some cfg) (lw_vmm w1) (lw_host w1) = (Inr (), m, h)" and m: "lw_vmm w2 = m"
    using assms(2) by (auto simp: lib_Start_def lib_call_def split: sum.splits prod.splits)
  obtain x where x: "lib_table w1 (task_ID t) = None" "lib_table w2 = (lib_table w1)(task_ID t \<mapsto> x)" "li_state x = VMStateRunning"
    using life_Start_cases [OF s] unfolding m i by (auto simp: new_instance_def)
  then have "lib_table w2 (task_ID t') = Some x" using i by simp
  from lib_Remove_table [OF assms(3) this] x 1 i show ?thesis
    by (intro exI [of _ x]) (auto simp: fun_upd_idem split: if_splits)
qed

text \<open>
  A VM that is stopping is never removed: starting, stopping and removing its task fail and leave the table as it is.
\<close>

theorem stopping_vm_stays:
  assumes "lib_table w (task_ID t) = Some x" and "li_state x = VMStateStopping"
    and "lib_Start (lib_program om) tr t e w = (r1, e1, w1)" and "lib_Stop (lib_program om) t w = (r2, w2)"
    and "lib_Remove (lib_program om) t w = (r3, w3)"
  shows "r1 \<noteq> Inr () \<and> r2 \<noteq> Inr () \<and> r3 \<noteq> Inr () \<and> lib_table w1 = lib_table w \<and> lib_table w2 = lib_table w \<and> lib_table w3 = lib_table w"
proof -
  have 1: "r1 \<noteq> Inr () \<and> lib_table w1 = lib_table w" using lvm.lib_Start_vms [OF assms(3)] assms(1) by (cases r1) auto
  have 2: "life_Stop env t (lw_vmm w) h = (Inl LifeAlreadyStopping, lw_vmm w, h)" for env h using assms(1,2) by (simp add: life_Stop_def)
  have 3: "life_Remove env t (lw_vmm w) h = (Inl (LifeTransitional VMStateStopping), lw_vmm w, h)" for env h
    using assms(1,2) by (simp add: life_Remove_def)
  show ?thesis using 1 assms(4,5) by (auto simp: lib_Stop_def lib_Remove_def lib_call_def 2 3)
qed

text \<open>
  A preparation that fails at the network is rolled back: the image prepared before is deleted, where it can be.
\<close>

theorem failed_prepare_removes_image:
  assumes "lo_Prepare om t (lw_other w) = (Inr ann, x1)" and "ann ''rootfs'' = Some p" and "p \<noteq> []"
    and "lib_Prepare (lib_program om) t w = (Inl e, w')" and "\<And>x. lf_unlink (lo_env om x) p"
  shows "p \<notin> set (h_files (lw_host w')) \<and> (\<exists>msg. e = LibNetworkFailed msg) \<and> h_alive (lw_host w') = h_alive (lw_host w)"
  using assms
  by (auto simp: lib_Prepare_def rollback_image_def lib_task_def life_unlink_def host_unlink_def split: prod.splits sum.splits)

subsection \<open>Examples\<close>

definition example_lib_config :: lib_config where
  "example_lib_config = \<lparr>lc_KernelPath = ''/k'', lc_RootfsDir = [], lc_SocketDir = [], lc_DefaultVCPUs = 0, lc_DefaultMemoryMB = 0\<rparr>"

lemma example_lib_new: obtains e where "NewFirecrackerExecutor (Some example_lib_config) = Inr e"
  by (simp add: NewFirecrackerExecutor_def)

text \<open>A host that starts VMs; \<open>exits\<close> says whether a VM ends within its grace period.\<close>

definition example_life :: "bool \<Rightarrow> life_env" where
  "example_life exits = \<lparr>lf_binary = True, lf_spawn = Some 42, lf_ready = True, lf_answer = (\<lambda>_ _ _. Some 204), lf_unmarshal = (\<lambda>_. None),
     lf_unlink = (\<lambda>_. True), lf_now = 0, lf_term = True, lf_exits = exits, lf_kill = True, lf_down = True, lf_done = True\<rparr>"

definition example_lib :: "bool \<Rightarrow> unit lib_other" where
  "example_lib exits = \<lparr>lo_Prepare = (\<lambda>t x. (Inr [''rootfs'' \<mapsto> ''/r'', ''init_system'' \<mapsto> ''tini''], x)),
     lo_PrepareNetwork = (\<lambda>t x. (Inr [], x)), lo_CleanupNetwork = (\<lambda>t x. x), lo_env = (\<lambda>x. example_life exits), lo_alive = (\<lambda>x pid. True),
     lo_tick = (\<lambda>x. x)\<rparr>"

definition example_lib_world :: "unit lib_world" where
  "example_lib_world = \<lparr>lw_vmm = life_New None, lw_host = example_host, lw_other = ()\<rparr>"

definition lib_translate :: "task \<Rightarrow> (vt_error, json) res" where
  "lib_translate t = vt_Translate default_translator (Some t)"

abbreviation prepared_task :: task where
  "prepared_task \<equiv> example_vt_task\<lparr>task_Annotations := [''rootfs'' \<mapsto> ''/r'', ''init_system'' \<mapsto> ''tini''], task_Networks := []\<rparr>"

lemma example_lib_prepare:
  "lib_Prepare (lib_program (example_lib b)) example_vt_task example_lib_world = (Inr prepared_task, example_lib_world)"
  by (simp add: lib_Prepare_def lib_task_def example_lib_def example_lib_world_def)

lemma example_lib_start:
  obtains e' w' where "lib_Start (lib_program (example_lib b)) lib_translate prepared_task e example_lib_world = (Inr (), e', w')"
proof -
  have "\<exists>d. vmm_document_of default_translator prepared_task = Inr d"
    by (simp add: vmm_document_of_def example_vt_task_def GetContainer_def buildRootDrive_def validateMountPath_def
        zero_container_def sublist_code Let_def)
  then obtain cfg where c: "lib_translate prepared_task = Inr cfg" "is_object cfg"
    by (auto simp: lib_translate_def vt_Translate_def configToMap_def is_object_def)
  have w: "life_willing (example_life b)" by (simp add: life_willing_def example_life_def)
  have n: "lib_table example_lib_world i = None" for i by (simp add: example_lib_world_def life_New_def)
  obtain m h where "life_Start (example_life b) prepared_task (Some cfg) (lw_vmm example_lib_world) (lw_host example_lib_world) = (Inr (), m, h)"
    using willing_Start [OF w c(2) n] by (metis prod.collapse)
  then show thesis using that c(1) by (simp add: lib_Start_def lib_call_def example_lib_def)
qed

theorem events_bounded_witness:
  "\<exists>e e1 w1. NewFirecrackerExecutor (Some example_lib_config) = Inr e \<and>
     (lib_step (lib_program (example_lib True)) lib_translate)\<^sup>*\<^sup>* (e, example_lib_world) (e1, w1) \<and> length (le_events e1) \<le> 100"
proof -
  obtain e where e: "NewFirecrackerExecutor (Some example_lib_config) = Inr e" by (rule example_lib_new)
  obtain e1 w1 where "lib_Start (lib_program (example_lib True)) lib_translate prepared_task e example_lib_world = (Inr (), e1, w1)"
    by (rule example_lib_start)
  then have s: "(lib_step (lib_program (example_lib True)) lib_translate)\<^sup>*\<^sup>* (e, example_lib_world) (e1, w1)" by (blast intro: lib_step.start)
  from events_bounded [OF e s rtranclp.rtrancl_refl] e s show ?thesis by blast
qed

text \<open>With a VM that ends in time, and with one that does not.\<close>

theorem library_task_vms_witness:
  "(\<exists>w1 e e' w2 r w3. lib_Prepare (lib_program (example_lib True)) example_vt_task example_lib_world = (Inr prepared_task, w1) \<and>
     lib_Start (lib_program (example_lib True)) lib_translate prepared_task e w1 = (Inr (), e', w2) \<and>
     lib_Remove (lib_program (example_lib True)) prepared_task w2 = (r, w3) \<and> r = Inr () \<and> lib_table w2 ''t1'' \<noteq> None \<and> lib_table w3 ''t1'' = None) \<and>
   (\<exists>w1 e e' w2 r w3 x. lib_Prepare (lib_program (example_lib False)) example_vt_task example_lib_world = (Inr prepared_task, w1) \<and>
     lib_Start (lib_program (example_lib False)) lib_translate prepared_task e w1 = (Inr (), e', w2) \<and>
     lib_Remove (lib_program (example_lib False)) prepared_task w2 = (r, w3) \<and> r \<noteq> Inr () \<and> lib_table w3 ''t1'' = Some x \<and> li_state x = VMStateStopping)"
proof -
  have i: "task_ID example_vt_task = ''t1''" by (simp add: example_vt_task_def example_net_task_def)
  obtain e where "NewFirecrackerExecutor (Some example_lib_config) = Inr e" by (rule example_lib_new)
  have g: "goes_down (lo_env (example_lib b) y) x h = b" if "li_InitSystem x = ''tini''" for b y x h
    using that by (simp add: goes_down_def example_lib_def example_life_def)
  have run: "\<exists>e' w2 r w3 x. lib_Start (lib_program (example_lib b)) lib_translate prepared_task e example_lib_world = (Inr (), e', w2) \<and>
      lib_Remove (lib_program (example_lib b)) prepared_task w2 = (r, w3) \<and> lib_table w2 ''t1'' = Some x \<and>
      (if b then r = Inr () \<and> lib_table w3 ''t1'' = None else r \<noteq> Inr () \<and> lib_table w3 ''t1'' = Some (x\<lparr>li_state := VMStateStopping\<rparr>))" for b
  proof -
    obtain e' w2 where s: "lib_Start (lib_program (example_lib b)) lib_translate prepared_task e example_lib_world = (Inr (), e', w2)"
      by (rule example_lib_start)
    obtain r w3 where r: "lib_Remove (lib_program (example_lib b)) prepared_task w2 = (r, w3)" by fastforce
    obtain x where x: "lib_table w2 = (lib_table example_lib_world)(''t1'' \<mapsto> x)"
        and d: "if goes_down (lo_env (example_lib b) (lw_other w2)) x (lw_host w2) then r = Inr () \<and> lib_table w3 = lib_table example_lib_world
          else r = Inl (LibRemoveFailed (LifeTransitional VMStateStopping)) \<and>
            lib_table w3 = (lib_table example_lib_world)(''t1'' \<mapsto> x\<lparr>li_state := VMStateStopping\<rparr>)"
      using library_task_vms [OF example_lib_prepare s r] unfolding i by blast
    obtain cfg m h where ls: "life_Start (example_life b) prepared_task (Some cfg) (lw_vmm example_lib_world) (lw_host example_lib_world) = (Inr (), m, h)"
        and m: "lw_vmm w2 = m"
      using s by (auto simp: lib_Start_def lib_call_def example_lib_def split: sum.splits prod.splits)
    obtain c pid sock where n: "lm_vms m = (lib_table example_lib_world)(''t1'' \<mapsto> new_instance (example_life b) prepared_task c pid sock)"
      using life_Start_cases [OF ls] i by auto
    have "x = new_instance (example_life b) prepared_task c pid sock" using fun_cong [OF n, of "''t1''"] fun_cong [OF x, of "''t1''"] m by simp
    then have "li_InitSystem x = ''tini''" by (simp add: new_instance_def)
    from g [OF this] d x s r show ?thesis by (auto simp: example_lib_world_def life_New_def split: if_splits)
  qed
  show ?thesis using run [of True] run [of False] example_lib_prepare by (fastforce simp: fun_eq_iff)
qed

end
