(* ===== verification/Runtime_State.thy ===== *)
theory Runtime_State
  imports Go_Os "HOL-Library.List_Lexorder" "HOL-Library.Char_ord"
begin

text \<open>
  The VM state manager of \<open>pkg/runtime/state.go\<close>: a map of VM states that every change writes to a
  file, through a temporary file that is renamed. The file is kept beside the map; whether writing and
  renaming succeed, and the order in which Go visits the map, are arguments of each operation. The temporary file
  is not kept, since nothing reads it, and the document in the file stands for its JSON text, which decodes to what was
  encoded. States are values: a caller's pointer to a state that was added is not followed.
\<close>

subsection \<open>State\<close>

text \<open>Times are numbers, zero the zero time.\<close>

record vm_state =
  vs_ID :: string
  vs_PID :: int
  vs_SocketPath :: string
  vs_Image :: string
  vs_Status :: string
  vs_StartTime :: int
  vs_Command :: "string list"
  vs_VCPUs :: int
  vs_MemoryMB :: int
  vs_KernelPath :: string
  vs_RootfsPath :: string
  vs_LogPath :: string
  vs_NetworkID :: string
  vs_IPAddresses :: "string list"
  vs_LastError :: string
  vs_ErrorTime :: int

type_synonym vm_states = "string \<rightharpoonup> vm_state"

text \<open>The state file: a list of states that decodes, where an entry may be \<open>null\<close>, or something else.\<close>

datatype state_doc = NoDoc | UnreadableDoc | EmptyDoc | BadDoc | StateDoc "vm_state option list"

record state_manager =
  sm_states :: vm_states
  sm_stateFile :: string
  sm_disk :: state_doc

datatype state_error =
    StateIDEmpty
  | VMNotFound string
  | MarshalFailed
  | WriteFailed
  | RenameFailed
  | StateFileMissing
  | StateFileUnreadable
  | UnmarshalFailed
  | LoadPanic
  | HomeUnknown
  | StateDirFailed

record disk_env =
  de_marshal :: bool
  de_write :: bool
  de_rename :: bool
  de_order :: "vm_states \<Rightarrow> string list"

subsection \<open>Operations\<close>

text \<open>\<open>save\<close>: the file changes only by the rename.\<close>

definition sm_save :: "disk_env \<Rightarrow> state_manager \<Rightarrow> (state_error, unit) res \<times> state_manager" where
  "sm_save env sm =
     (if \<not> de_marshal env then (Inl MarshalFailed, sm)
      else if \<not> de_write env then (Inl WriteFailed, sm)
      else if \<not> de_rename env then (Inl RenameFailed, sm)
      else (Inr (), sm\<lparr>sm_disk := StateDoc (map (sm_states sm) (de_order env (sm_states sm)))\<rparr>))"

definition with_defaults :: "int \<Rightarrow> vm_state \<Rightarrow> vm_state" where
  "with_defaults now st =
     st\<lparr>vs_StartTime := if vs_StartTime st = 0 then now else vs_StartTime st,
        vs_Status := if vs_Status st = [] then ''running'' else vs_Status st\<rparr>"

definition sm_Add :: "disk_env \<Rightarrow> int \<Rightarrow> vm_state \<Rightarrow> state_manager \<Rightarrow> (state_error, unit) res \<times> state_manager" where
  "sm_Add env now st sm =
     (if vs_ID st = [] then (Inl StateIDEmpty, sm)
      else case sm_save env (sm\<lparr>sm_states := (sm_states sm)(vs_ID st \<mapsto> with_defaults now st)\<rparr>) of
        (Inl e, sm1) \<Rightarrow> (Inl e, sm1\<lparr>sm_states := (sm_states sm1)(vs_ID st := None)\<rparr>)
      | (Inr _, sm1) \<Rightarrow> (Inr (), sm1))"

definition sm_Get :: "string \<Rightarrow> state_manager \<Rightarrow> (state_error, vm_state) res" where
  "sm_Get i sm = (case sm_states sm i of None \<Rightarrow> Inl (VMNotFound i) | Some st \<Rightarrow> Inr st)"

definition sm_List :: "disk_env \<Rightarrow> state_manager \<Rightarrow> vm_state list" where
  "sm_List env sm = List.map_filter (sm_states sm) (de_order env (sm_states sm))"

text \<open>The updates of one state.\<close>

definition update_state ::
    "disk_env \<Rightarrow> string \<Rightarrow> (vm_state \<Rightarrow> vm_state) \<Rightarrow> state_manager \<Rightarrow> (state_error, unit) res \<times> state_manager" where
  "update_state env i f sm =
     (case sm_states sm i of
        None \<Rightarrow> (Inl (VMNotFound i), sm)
      | Some st \<Rightarrow> sm_save env (sm\<lparr>sm_states := (sm_states sm)(i \<mapsto> f st)\<rparr>))"

definition UpdateStatus :: "disk_env \<Rightarrow> string \<Rightarrow> string \<Rightarrow> state_manager \<Rightarrow> (state_error, unit) res \<times> state_manager" where
  "UpdateStatus env i status = update_state env i (\<lambda>st. st\<lparr>vs_Status := status\<rparr>)"

definition UpdateError :: "disk_env \<Rightarrow> int \<Rightarrow> string \<Rightarrow> string \<Rightarrow> state_manager \<Rightarrow> (state_error, unit) res \<times> state_manager" where
  "UpdateError env now i msg =
     update_state env i (\<lambda>st. st\<lparr>vs_LastError := msg, vs_ErrorTime := now, vs_Status := ''error''\<rparr>)"

definition sm_Remove :: "disk_env \<Rightarrow> string \<Rightarrow> state_manager \<Rightarrow> (state_error, unit) res \<times> state_manager" where
  "sm_Remove env i sm =
     (if sm_states sm i = None then (Inl (VMNotFound i), sm)
      else sm_save env (sm\<lparr>sm_states := (sm_states sm)(i := None)\<rparr>))"

definition rebuild :: "vm_state list \<Rightarrow> vm_states" where
  "rebuild sts = foldl (\<lambda>m st. m(vs_ID st \<mapsto> st)) Map.empty sts"

text \<open>\<open>Load\<close>; an entry that is \<open>null\<close> is dereferenced.\<close>

definition sm_Load :: "state_manager \<Rightarrow> (state_error, unit) res \<times> state_manager" where
  "sm_Load sm =
     (case sm_disk sm of
        NoDoc \<Rightarrow> (Inl StateFileMissing, sm)
      | UnreadableDoc \<Rightarrow> (Inl StateFileUnreadable, sm)
      | EmptyDoc \<Rightarrow> (Inr (), sm)
      | BadDoc \<Rightarrow> (Inl UnmarshalFailed, sm)
      | StateDoc xs \<Rightarrow>
          if None \<in> set xs then (Inl LoadPanic, sm)
          else (Inr (), sm\<lparr>sm_states := rebuild (List.map_filter id xs)\<rparr>))"

definition NewStateManager :: "bool \<Rightarrow> string option \<Rightarrow> bool \<Rightarrow> state_doc \<Rightarrow> (state_error, state_manager) res" where
  "NewStateManager root home mkdir disk =
     (case (if root then Some ''/var/run/swarmcracker/state.json''
            else map_option (\<lambda>h. path_Join [h, ''.swarmcracker'', ''state.json'']) home) of
        None \<Rightarrow> Inl HomeUnknown
      | Some file \<Rightarrow>
          if \<not> mkdir then Inl StateDirFailed
          else (case sm_Load \<lparr>sm_states = Map.empty, sm_stateFile = file, sm_disk = disk\<rparr> of
                  (Inl e, sm) \<Rightarrow> if e = StateFileMissing then Inr sm else Inl e
                | (Inr _, sm) \<Rightarrow> Inr sm))"

text \<open>The loops of \<open>Reconcile\<close> and \<open>ClearStale\<close>, in the order of the given keys, with their counters.\<close>

definition stale_msg :: string where
  "stale_msg = ''Process not found - VM was killed externally''"

fun reconcile_loop :: "int \<Rightarrow> (string \<Rightarrow> bool) \<Rightarrow> string list \<Rightarrow> nat \<times> vm_states \<Rightarrow> nat \<times> vm_states" where
  "reconcile_loop now run [] p = p"
| "reconcile_loop now run (k # ks) (n, m) =
     reconcile_loop now run ks
       (case m k of
          Some st \<Rightarrow>
            if vs_Status st = ''running'' \<and> \<not> run k
            then (n + 1, m(k \<mapsto> st\<lparr>vs_Status := ''stopped'', vs_LastError := stale_msg, vs_ErrorTime := now\<rparr>))
            else (n, m)
        | None \<Rightarrow> (n, m))"

definition Reconcile :: "disk_env \<Rightarrow> int \<Rightarrow> (string \<Rightarrow> bool) \<Rightarrow> state_manager \<Rightarrow> nat \<times> state_manager" where
  "Reconcile env now run sm =
     (case reconcile_loop now run (de_order env (sm_states sm)) (0, sm_states sm) of
        (n, m) \<Rightarrow> (n, if 0 < n then snd (sm_save env (sm\<lparr>sm_states := m\<rparr>)) else sm\<lparr>sm_states := m\<rparr>))"

fun clear_loop :: "string list \<Rightarrow> nat \<times> vm_states \<Rightarrow> nat \<times> vm_states" where
  "clear_loop [] p = p"
| "clear_loop (k # ks) (n, m) =
     clear_loop ks
       (case m k of
          Some st \<Rightarrow> if vs_Status st = ''stopped'' \<or> vs_Status st = ''error'' then (n + 1, m(k := None)) else (n, m)
        | None \<Rightarrow> (n, m))"

definition ClearStale :: "disk_env \<Rightarrow> state_manager \<Rightarrow> nat \<times> state_manager" where
  "ClearStale env sm =
     (case clear_loop (de_order env (sm_states sm)) (0, sm_states sm) of
        (n, m) \<Rightarrow> (n, if 0 < n then snd (sm_save env (sm\<lparr>sm_states := m\<rparr>)) else sm\<lparr>sm_states := m\<rparr>))"

subsection \<open>Runs\<close>

datatype sm_op =
    OpAdd int vm_state
  | OpStatus string string
  | OpError int string string
  | OpRemove string
  | OpLoad
  | OpReconcile int "string list"
  | OpClear

definition sm_step :: "disk_env \<times> sm_op \<Rightarrow> state_manager \<Rightarrow> state_manager" where
  "sm_step eo sm =
     (case eo of (env, a) \<Rightarrow>
        (case a of
           OpAdd now st \<Rightarrow> snd (sm_Add env now st sm)
         | OpStatus i s \<Rightarrow> snd (UpdateStatus env i s sm)
         | OpError now i msg \<Rightarrow> snd (UpdateError env now i msg sm)
         | OpRemove i \<Rightarrow> snd (sm_Remove env i sm)
         | OpLoad \<Rightarrow> snd (sm_Load sm)
         | OpReconcile now running \<Rightarrow> snd (Reconcile env now (\<lambda>i. i \<in> set running) sm)
         | OpClear \<Rightarrow> snd (ClearStale env sm)))"

text \<open>Every state is stored under its own identifier.\<close>

definition well_keyed :: "vm_states \<Rightarrow> bool" where
  "well_keyed m \<longleftrightarrow> finite (dom m) \<and> (\<forall>i st. m i = Some st \<longrightarrow> vs_ID st = i)"

lemma well_keyed_empty [simp]: "well_keyed Map.empty"
  by (simp add: well_keyed_def)

lemma well_keyed_upd: "well_keyed m \<Longrightarrow> vs_ID st = i \<Longrightarrow> well_keyed (m(i \<mapsto> st))"
  by (auto simp: well_keyed_def)

lemma well_keyed_del: "well_keyed m \<Longrightarrow> well_keyed (m(i := None))"
  by (auto simp: well_keyed_def)

lemma well_keyed_foldl: "well_keyed m \<Longrightarrow> well_keyed (foldl (\<lambda>m st. m(vs_ID st \<mapsto> st)) m sts)"
  by (induction sts arbitrary: m) (simp_all add: well_keyed_upd)

lemma well_keyed_rebuild: "well_keyed (rebuild sts)"
  by (simp add: rebuild_def well_keyed_foldl)

lemma sm_save_states [simp]: "sm_states (snd (sm_save env sm)) = sm_states sm"
  by (simp add: sm_save_def)

lemma sm_save_cases: "snd (sm_save env sm) = sm \<or>
    snd (sm_save env sm) = sm\<lparr>sm_disk := StateDoc (map (sm_states sm) (de_order env (sm_states sm)))\<rparr>"
  by (simp add: sm_save_def)

text \<open>What the loops do: at each key, in any order without repetitions.\<close>

definition stale_at :: "(string \<Rightarrow> bool) \<Rightarrow> vm_states \<Rightarrow> string \<Rightarrow> bool" where
  "stale_at run m k \<longleftrightarrow> (\<exists>st. m k = Some st \<and> vs_Status st = ''running'' \<and> \<not> run k)"

definition stopped_state :: "int \<Rightarrow> vm_state \<Rightarrow> vm_state" where
  "stopped_state now st = st\<lparr>vs_Status := ''stopped'', vs_LastError := stale_msg, vs_ErrorTime := now\<rparr>"

lemma reconcile_loop_eq:
  "distinct ks \<Longrightarrow> reconcile_loop now run ks (n, m) =
     (n + length (filter (stale_at run m) ks),
      \<lambda>k. if k \<in> set ks \<and> stale_at run m k then map_option (stopped_state now) (m k) else m k)"
proof (induction ks arbitrary: n m)
  case (Cons k ks)
  show ?case
  proof (cases "stale_at run m k")
    case False
    then have "reconcile_loop now run (k # ks) (n, m) = reconcile_loop now run ks (n, m)"
      by (auto simp: stale_at_def split: option.splits)
    then show ?thesis using Cons False by (auto simp: fun_eq_iff)
  next
    case True
    then obtain st where st: "m k = Some st" "vs_Status st = ''running''" "\<not> run k" by (auto simp: stale_at_def)
    define m' where "m' = m(k \<mapsto> stopped_state now st)"
    have v: "m' k = Some (stopped_state now st)" "j \<noteq> k \<Longrightarrow> m' j = m j" for j by (simp_all add: m'_def)
    then have o: "j \<noteq> k \<Longrightarrow> stale_at run m' j = stale_at run m j" for j by (simp add: stale_at_def)
    have "filter (stale_at run m') ks = filter (stale_at run m) ks"
      using Cons.prems by (intro filter_cong refl o) auto
    moreover have "reconcile_loop now run (k # ks) (n, m) = reconcile_loop now run ks (n + 1, m')"
      using st by (simp add: stopped_state_def m'_def)
    moreover have "(\<lambda>j. if j \<in> set ks \<and> stale_at run m' j then map_option (stopped_state now) (m' j) else m' j) =
        (\<lambda>j. if j \<in> set (k # ks) \<and> stale_at run m j then map_option (stopped_state now) (m j) else m j)"
    proof
      fix j
      show "(if j \<in> set ks \<and> stale_at run m' j then map_option (stopped_state now) (m' j) else m' j) =
          (if j \<in> set (k # ks) \<and> stale_at run m j then map_option (stopped_state now) (m j) else m j)"
        using Cons.prems True st o v by (cases "j = k") simp_all
    qed
    ultimately show ?thesis using Cons.IH [of "n + 1" m'] Cons.prems True by simp
  qed
qed simp

definition clearable :: "vm_states \<Rightarrow> string \<Rightarrow> bool" where
  "clearable m k \<longleftrightarrow> (\<exists>st. m k = Some st \<and> (vs_Status st = ''stopped'' \<or> vs_Status st = ''error''))"

lemma clear_loop_eq:
  "distinct ks \<Longrightarrow> clear_loop ks (n, m) =
     (n + length (filter (clearable m) ks), \<lambda>k. if k \<in> set ks \<and> clearable m k then None else m k)"
proof (induction ks arbitrary: n m)
  case (Cons k ks)
  show ?case
  proof (cases "clearable m k")
    case False
    then have "clear_loop (k # ks) (n, m) = clear_loop ks (n, m)" by (auto simp: clearable_def split: option.splits)
    then show ?thesis using Cons False by (auto simp: fun_eq_iff)
  next
    case True
    define m' where "m' = m(k := None)"
    have v: "m' k = None" "j \<noteq> k \<Longrightarrow> m' j = m j" for j by (simp_all add: m'_def)
    then have o: "j \<noteq> k \<Longrightarrow> clearable m' j = clearable m j" for j by (simp add: clearable_def)
    have "filter (clearable m') ks = filter (clearable m) ks"
      using Cons.prems by (intro filter_cong refl o) auto
    moreover have "clear_loop (k # ks) (n, m) = clear_loop ks (n + 1, m')"
      using True by (auto simp: clearable_def m'_def)
    moreover have "(\<lambda>j. if j \<in> set ks \<and> clearable m' j then None else m' j) =
        (\<lambda>j. if j \<in> set (k # ks) \<and> clearable m j then None else m j)"
    proof
      fix j
      show "(if j \<in> set ks \<and> clearable m' j then None else m' j) = (if j \<in> set (k # ks) \<and> clearable m j then None else m j)"
        using Cons.prems True o v by (cases "j = k") simp_all
    qed
    ultimately show ?thesis using Cons.IH [of "n + 1" m'] Cons.prems True by simp
  qed
qed simp

subsection \<open>The map\<close>

lemma well_keyed_reconcile_loop: "well_keyed (snd p) \<Longrightarrow> well_keyed (snd (reconcile_loop now run ks p))"
proof (induction ks arbitrary: p)
  case (Cons k ks)
  obtain n m where p: "p = (n, m)" by fastforce
  have "m k = Some st \<Longrightarrow> vs_ID st = k" for st using Cons.prems p by (simp add: well_keyed_def)
  then show ?case using Cons p by (auto intro!: Cons.IH well_keyed_upd split: option.splits simp del: fun_upd_apply)
qed simp

lemma well_keyed_clear_loop: "well_keyed (snd p) \<Longrightarrow> well_keyed (snd (clear_loop ks p))"
proof (induction ks arbitrary: p)
  case (Cons k ks)
  then show ?case by (cases p) (auto intro!: Cons.IH well_keyed_del split: option.splits simp del: fun_upd_apply)
qed simp

lemma well_keyed_update:
  assumes "well_keyed (sm_states sm)" and "\<And>st. vs_ID (f st) = vs_ID st"
  shows "well_keyed (sm_states (snd (update_state env i f sm)))"
proof (cases "sm_states sm i")
  case (Some st)
  then have "vs_ID (f st) = i" using assms by (simp add: well_keyed_def)
  then show ?thesis using assms(1) Some by (simp add: update_state_def well_keyed_upd)
qed (use assms(1) in \<open>simp add: update_state_def\<close>)

lemma sm_Add_states:
  "sm_states (snd (sm_Add env now st sm)) =
     (if vs_ID st = [] then sm_states sm
      else if fst (sm_save env sm) = Inr () then (sm_states sm)(vs_ID st \<mapsto> with_defaults now st)
      else (sm_states sm)(vs_ID st := None))"
  by (auto simp: sm_Add_def sm_save_def)

lemma with_defaults_ID [simp]: "vs_ID (with_defaults now st) = vs_ID st"
  by (simp add: with_defaults_def)

lemma well_keyed_step: "well_keyed (sm_states sm) \<Longrightarrow> well_keyed (sm_states (sm_step eo sm))"
proof (cases eo)
  case (Pair env a)
  assume wk: "well_keyed (sm_states sm)"
  show ?thesis
  proof (cases a)
    case (OpReconcile now running)
    show ?thesis using wk well_keyed_reconcile_loop [of "(0, sm_states sm)" now "\<lambda>i. i \<in> set running" "de_order env (sm_states sm)"]
      by (auto simp: Pair OpReconcile sm_step_def Reconcile_def split: prod.splits)
  next
    case OpClear
    show ?thesis using wk well_keyed_clear_loop [of "(0, sm_states sm)" "de_order env (sm_states sm)"]
      by (auto simp: Pair OpClear sm_step_def ClearStale_def split: prod.splits)
  next
    case OpLoad
    show ?thesis using wk by (simp add: Pair OpLoad sm_step_def sm_Load_def well_keyed_rebuild split: state_doc.splits)
  qed (use wk in \<open>simp_all add: Pair sm_step_def sm_Add_states UpdateStatus_def UpdateError_def well_keyed_update
        sm_Remove_def well_keyed_upd well_keyed_del\<close>)
qed

lemma well_keyed_run: "well_keyed (sm_states sm) \<Longrightarrow> well_keyed (sm_states (fold sm_step ops sm))"
  by (induction ops arbitrary: sm) (simp_all add: well_keyed_step)

lemma well_keyed_new: "NewStateManager root home mkdir d = Inr sm \<Longrightarrow> well_keyed (sm_states sm)"
  by (auto simp: NewStateManager_def sm_Load_def well_keyed_rebuild split: option.splits if_splits state_doc.splits)

text \<open>
  Claim C31. Whatever the state file holds and whichever operations fail to write it, every VM state of the
  manager is stored under its own identifier.
\<close>

theorem states_well_keyed:
  assumes "NewStateManager root home mkdir d = Inr sm" and "sm_states (fold sm_step ops sm) i = Some st"
  shows "vs_ID st = i"
  using well_keyed_run [OF well_keyed_new [OF assms(1)], of ops] assms(2) by (simp add: well_keyed_def)

subsection \<open>The file\<close>

text \<open>The states a new manager reads from the file.\<close>

definition on_disk :: "state_doc \<Rightarrow> vm_states option" where
  "on_disk d =
     (case d of
        NoDoc \<Rightarrow> Some Map.empty
      | EmptyDoc \<Rightarrow> Some Map.empty
      | StateDoc xs \<Rightarrow> if None \<in> set xs then None else Some (rebuild (List.map_filter id xs))
      | _ \<Rightarrow> None)"

lemma on_disk_new: "NewStateManager root home mkdir d = Inr sm \<Longrightarrow> on_disk d = Some (sm_states sm) \<and> sm_disk sm = d"
  by (auto simp: NewStateManager_def sm_Load_def on_disk_def split: option.splits if_splits state_doc.splits)

lemma new_on_disk:
  assumes "on_disk d = Some m" and "root \<or> home \<noteq> None"
  shows "\<exists>sm. NewStateManager root home True d = Inr sm \<and> sm_states sm = m"
  using assms by (cases d) (auto simp: NewStateManager_def sm_Load_def on_disk_def split: if_splits)

lemma foldl_states:
  "well_keyed m \<Longrightarrow> set ks \<subseteq> dom m \<Longrightarrow>
     foldl (\<lambda>m st. m(vs_ID st \<mapsto> st)) m0 (map (the \<circ> m) ks) = (\<lambda>k. if k \<in> set ks then m k else m0 k)"
proof (induction ks arbitrary: m0)
  case (Cons k ks)
  then obtain st where "m k = Some st" "vs_ID st = k" by (auto simp: well_keyed_def)
  then show ?case using Cons by (auto simp: fun_eq_iff)
qed simp

lemma map_filter_states: "set ks \<subseteq> dom m \<Longrightarrow> List.map_filter id (map m ks) = map (the \<circ> m) ks"
  by (induction ks) (auto simp: map_filter_simps)

lemma on_disk_image:
  assumes "well_keyed m" and "key_order m ks"
  shows "on_disk (StateDoc (map m ks)) = Some m"
proof -
  have ks: "set ks = dom m" using assms(2) by (simp add: key_order_def)
  then have "None \<notin> set (map m ks)" by auto
  moreover have "rebuild (List.map_filter id (map m ks)) = m"
    using foldl_states [OF assms(1), of ks Map.empty] ks by (auto simp: rebuild_def map_filter_states fun_eq_iff domIff)
  ultimately show ?thesis by (simp add: on_disk_def)
qed

text \<open>
  Claim C32. The file is never torn: after an operation, whether it wrote the file or failed to, the file is the
  one from before or the complete image of the states in memory.
\<close>

theorem state_file_atomic:
  "sm_disk (sm_step (env, a) sm) = sm_disk sm \<or>
   sm_disk (sm_step (env, a) sm) =
     StateDoc (map (sm_states (sm_step (env, a) sm)) (de_order env (sm_states (sm_step (env, a) sm))))"
proof (cases a)
  case OpLoad
  show ?thesis by (simp add: OpLoad sm_step_def sm_Load_def split: state_doc.splits)
qed (auto simp: sm_step_def sm_Add_def UpdateStatus_def UpdateError_def update_state_def sm_Remove_def sm_save_def
    Reconcile_def ClearStale_def split: option.splits prod.splits)

text \<open>A disk that works, and any order of iteration.\<close>

definition good_disk :: "disk_env \<Rightarrow> bool" where
  "good_disk env \<longleftrightarrow> de_marshal env \<and> de_write env \<and> de_rename env \<and>
     (\<forall>m. finite (dom m) \<longrightarrow> key_order m (de_order env m))"

lemma good_order: "good_disk env \<Longrightarrow> well_keyed m \<Longrightarrow> key_order m (de_order env m)"
  by (simp add: good_disk_def well_keyed_def)

definition persisted :: "state_manager \<Rightarrow> bool" where
  "persisted sm \<longleftrightarrow> on_disk (sm_disk sm) = Some (sm_states sm)"

lemma persisted_save:
  assumes "good_disk env" and "well_keyed (sm_states sm)"
  shows "persisted (snd (sm_save env sm)) \<and> fst (sm_save env sm) = Inr ()"
  using assms(1) on_disk_image [OF assms(2) good_order [OF assms]] by (simp add: sm_save_def good_disk_def persisted_def)

lemma persisted_update:
  assumes "good_disk env" and "well_keyed (sm_states sm)" and "persisted sm" and "\<And>st. vs_ID (f st) = vs_ID st"
  shows "persisted (snd (update_state env i f sm))"
proof (cases "sm_states sm i")
  case (Some st)
  then have "well_keyed ((sm_states sm)(i \<mapsto> f st))" using assms(2,4) by (intro well_keyed_upd) (auto simp: well_keyed_def)
  then show ?thesis using persisted_save [OF assms(1), of "sm\<lparr>sm_states := (sm_states sm)(i \<mapsto> f st)\<rparr>"] Some
    by (simp add: update_state_def)
qed (use assms(3) in \<open>simp add: update_state_def\<close>)

lemma persisted_loop:
  fixes n :: nat
  assumes "good_disk env" and "well_keyed m" and "persisted sm" and "n = 0 \<Longrightarrow> m = sm_states sm"
  shows "persisted (if 0 < n then snd (sm_save env (sm\<lparr>sm_states := m\<rparr>)) else sm\<lparr>sm_states := m\<rparr>)"
proof (cases "n = 0")
  case False
  then show ?thesis using persisted_save [OF assms(1), of "sm\<lparr>sm_states := m\<rparr>"] assms(2) by simp
qed (use assms(3,4) in \<open>simp add: persisted_def\<close>)

lemma persisted_Reconcile:
  assumes "good_disk env" and "well_keyed (sm_states sm)" and "persisted sm"
  shows "persisted (snd (Reconcile env now run sm))"
proof -
  let ?ks = "de_order env (sm_states sm)"
  have d: "distinct ?ks" using good_order [OF assms(1,2)] by (simp add: key_order_def)
  obtain n m where l: "reconcile_loop now run ?ks (0, sm_states sm) = (n, m)" by fastforce
  then have "n = 0 \<Longrightarrow> m = sm_states sm" by (auto simp: reconcile_loop_eq [OF d] filter_empty_conv intro!: ext)
  moreover have "well_keyed m" using well_keyed_reconcile_loop [of "(0, sm_states sm)" now run ?ks] l assms(2) by simp
  ultimately show ?thesis using persisted_loop [OF assms(1) _ assms(3)] by (simp add: Reconcile_def l)
qed

lemma persisted_ClearStale:
  assumes "good_disk env" and "well_keyed (sm_states sm)" and "persisted sm"
  shows "persisted (snd (ClearStale env sm))"
proof -
  let ?ks = "de_order env (sm_states sm)"
  have d: "distinct ?ks" using good_order [OF assms(1,2)] by (simp add: key_order_def)
  obtain n m where l: "clear_loop ?ks (0, sm_states sm) = (n, m)" by fastforce
  then have "n = 0 \<Longrightarrow> m = sm_states sm" by (auto simp: clear_loop_eq [OF d] filter_empty_conv intro!: ext)
  moreover have "well_keyed m" using well_keyed_clear_loop [of "(0, sm_states sm)" ?ks] l assms(2) by simp
  ultimately show ?thesis using persisted_loop [OF assms(1) _ assms(3)] by (simp add: ClearStale_def l)
qed

lemma persisted_Add:
  assumes "good_disk env" and "well_keyed (sm_states sm)" and "persisted sm"
  shows "persisted (snd (sm_Add env now st sm))"
  using persisted_save [OF assms(1), of "sm\<lparr>sm_states := (sm_states sm)(vs_ID st \<mapsto> with_defaults now st)\<rparr>"] assms(2,3)
  by (auto simp: sm_Add_def well_keyed_upd split: prod.splits sum.splits)

lemma persisted_Remove:
  assumes "good_disk env" and "well_keyed (sm_states sm)" and "persisted sm"
  shows "persisted (snd (sm_Remove env i sm))"
  using persisted_save [OF assms(1), of "sm\<lparr>sm_states := (sm_states sm)(i := None)\<rparr>"] assms(2,3)
  by (simp add: sm_Remove_def well_keyed_del)

lemma persisted_Load: "persisted sm \<Longrightarrow> persisted (snd (sm_Load sm))"
  by (auto simp: persisted_def sm_Load_def on_disk_def split: state_doc.splits if_splits)

lemma persisted_step:
  assumes "good_disk (fst eo)" and "well_keyed (sm_states sm)" and "persisted sm"
  shows "persisted (sm_step eo sm)"
  using assms by (cases eo; cases "snd eo")
    (auto simp: sm_step_def UpdateStatus_def UpdateError_def intro: persisted_update persisted_Reconcile persisted_ClearStale
      persisted_Add persisted_Remove persisted_Load)

lemma persisted_run:
  "\<forall>eo \<in> set ops. good_disk (fst eo) \<Longrightarrow> well_keyed (sm_states sm) \<Longrightarrow> persisted sm \<Longrightarrow> persisted (fold sm_step ops sm)"
  by (induction ops arbitrary: sm) (simp_all add: persisted_step well_keyed_step)

text \<open>
  Claim C9. A restart loses nothing: on a disk that works, the manager that is created from the file after any
  sequence of operations has the states that the old one had.
\<close>

theorem restart_keeps_states:
  assumes "NewStateManager root home mkdir d = Inr sm" and "\<forall>eo \<in> set ops. good_disk (fst eo)"
    and "root' \<or> home' \<noteq> None"
  shows "\<exists>sm'. NewStateManager root' home' True (sm_disk (fold sm_step ops sm)) = Inr sm' \<and>
    sm_states sm' = sm_states (fold sm_step ops sm)"
proof -
  have "persisted sm" using on_disk_new [OF assms(1)] by (simp add: persisted_def)
  with assms(2) well_keyed_new [OF assms(1)] have "persisted (fold sm_step ops sm)" by (intro persisted_run)
  then show ?thesis using new_on_disk assms(3) by (simp add: persisted_def)
qed

text \<open>
  A failed \<open>Add\<close> of a VM that is known already forgets it: its earlier state leaves the memory,
  while the file still has it.
\<close>

theorem failed_add_forgets:
  assumes "persisted sm" and "sm_states sm (vs_ID st) = Some old" and "vs_ID st \<noteq> []" and "\<not> de_write env"
  shows "sm_Get (vs_ID st) (snd (sm_Add env now st sm)) = Inl (VMNotFound (vs_ID st)) \<and>
    (\<exists>m. on_disk (sm_disk (snd (sm_Add env now st sm))) = Some m \<and> m (vs_ID st) = Some old)"
  using assms by (auto simp: sm_Add_def sm_save_def sm_Get_def persisted_def)

text \<open>
  Claim C33. \<open>Reconcile\<close> stops exactly the VMs that are marked as running and do not run, returns their number,
  and finds nothing more to do when it is called again.
\<close>

theorem reconcile_exact:
  assumes "key_order (sm_states sm) (de_order env (sm_states sm))" and "Reconcile env now run sm = (n, sm')"
    and "key_order (sm_states sm') (de_order env' (sm_states sm'))"
  shows "sm_states sm' = (\<lambda>i. if stale_at run (sm_states sm) i then map_option (stopped_state now) (sm_states sm i) else sm_states sm i)
    \<and> n = card {i. stale_at run (sm_states sm) i} \<and> Reconcile env' now' run sm' = (0, sm')"
proof -
  let ?m = "sm_states sm"
  have d: "distinct (de_order env ?m)" "set (de_order env ?m) = dom ?m" using assms(1) by (simp_all add: key_order_def)
  have s: "stale_at run ?m i \<Longrightarrow> i \<in> dom ?m" for i by (auto simp: stale_at_def)
  have r: "reconcile_loop now run (de_order env ?m) (0, ?m) =
      (length (filter (stale_at run ?m) (de_order env ?m)),
       \<lambda>i. if stale_at run ?m i then map_option (stopped_state now) (?m i) else ?m i)"
    using reconcile_loop_eq [OF d(1), of now run 0 ?m] d(2) s by (auto simp: fun_eq_iff)
  then have 1: "sm_states sm' = (\<lambda>i. if stale_at run ?m i then map_option (stopped_state now) (?m i) else ?m i)"
    and n: "n = length (filter (stale_at run ?m) (de_order env ?m))"
    using assms(2) by (auto simp: Reconcile_def)
  have "n = card (set (filter (stale_at run ?m) (de_order env ?m)))" using n distinct_card [OF distinct_filter [OF d(1)]] by metis
  moreover have "set (filter (stale_at run ?m) (de_order env ?m)) = {i. stale_at run ?m i}" using d(2) s by auto
  ultimately have 2: "n = card {i. stale_at run ?m i}" by simp
  have no: "\<not> stale_at run (sm_states sm') i" for i by (auto simp: 1 stale_at_def stopped_state_def)
  have "distinct (de_order env' (sm_states sm'))" using assms(3) by (simp add: key_order_def)
  from reconcile_loop_eq [OF this, of now' run 0 "sm_states sm'"] have "Reconcile env' now' run sm' = (0, sm')"
    by (simp add: no Reconcile_def)
  then show ?thesis using 1 2 by blast
qed

subsection \<open>Examples\<close>

definition sorted_disk :: "bool \<Rightarrow> disk_env" where
  "sorted_disk ok = \<lparr>de_marshal = True, de_write = ok, de_rename = True, de_order = (\<lambda>m. sorted_list_of_set (dom m))\<rparr>"

lemma sorted_disk_good: "good_disk (sorted_disk True)"
  by (simp add: good_disk_def sorted_disk_def key_order_def)

definition example_vm :: vm_state where
  "example_vm = \<lparr>vs_ID = ''v1'', vs_PID = 7, vs_SocketPath = [], vs_Image = [], vs_Status = [], vs_StartTime = 0, vs_Command = [],
     vs_VCPUs = 1, vs_MemoryMB = 512, vs_KernelPath = [], vs_RootfsPath = [], vs_LogPath = [], vs_NetworkID = [], vs_IPAddresses = [],
     vs_LastError = [], vs_ErrorTime = 0\<rparr>"

definition fresh_manager :: state_manager where
  "fresh_manager = \<lparr>sm_states = Map.empty, sm_stateFile = ''/var/run/swarmcracker/state.json'', sm_disk = NoDoc\<rparr>"

lemma fresh_new: "NewStateManager True None True NoDoc = Inr fresh_manager"
  by (simp add: NewStateManager_def sm_Load_def fresh_manager_def)

abbreviation example_run :: "(disk_env \<times> sm_op) list" where
  "example_run \<equiv> [(sorted_disk True, OpAdd 1 example_vm), (sorted_disk True, OpStatus ''v1'' ''paused'')]"

lemma example_states:
  "sm_states (fold sm_step example_run fresh_manager) = [''v1'' \<mapsto> (with_defaults 1 example_vm)\<lparr>vs_Status := ''paused''\<rparr>]"
  by (auto simp: sm_step_def sm_Add_def UpdateStatus_def update_state_def sm_save_def sorted_disk_def fresh_manager_def
      example_vm_def fun_eq_iff)

theorem states_well_keyed_witness:
  "NewStateManager True None True NoDoc = Inr fresh_manager \<and>
   (\<exists>st. sm_states (fold sm_step example_run fresh_manager) ''v1'' = Some st \<and> vs_Status st = ''paused'' \<and> vs_ID st = ''v1'')"
proof -
  have s: "sm_states (fold sm_step example_run fresh_manager) ''v1'' = Some ((with_defaults 1 example_vm)\<lparr>vs_Status := ''paused''\<rparr>)"
    by (simp only: example_states) simp
  from states_well_keyed [OF fresh_new s] s fresh_new show ?thesis by simp
qed

theorem restart_keeps_states_witness:
  "\<exists>sm'. NewStateManager True None True (sm_disk (fold sm_step example_run fresh_manager)) = Inr sm' \<and>
     sm_states sm' = [''v1'' \<mapsto> (with_defaults 1 example_vm)\<lparr>vs_Status := ''paused''\<rparr>]"
  using restart_keeps_states [OF fresh_new, of example_run True None] sorted_disk_good
  unfolding example_states by simp

theorem failed_add_forgets_witness:
  "sm_Get ''v1'' (snd (sm_Add (sorted_disk False) 2 example_vm (fold sm_step example_run fresh_manager))) = Inl (VMNotFound ''v1'')"
proof -
  have "persisted fresh_manager" by (simp add: persisted_def fresh_manager_def on_disk_def)
  then have p: "persisted (fold sm_step example_run fresh_manager)"
    by (intro persisted_run) (simp_all add: sorted_disk_good fresh_manager_def)
  have i: "vs_ID example_vm = ''v1''" "\<not> de_write (sorted_disk False)" by (simp_all add: example_vm_def sorted_disk_def)
  have "sm_states (fold sm_step example_run fresh_manager) (vs_ID example_vm) = Some ((with_defaults 1 example_vm)\<lparr>vs_Status := ''paused''\<rparr>)"
    by (simp only: example_states i) simp
  from failed_add_forgets [OF p this _ i(2), of 2] show ?thesis by (simp add: i(1))
qed

theorem reconcile_exact_witness:
  "\<exists>n sm'. Reconcile (sorted_disk True) 5 (\<lambda>_. False) (snd (sm_Add (sorted_disk True) 1 example_vm fresh_manager)) = (n, sm') \<and>
     n = 1"
proof -
  let ?sm = "snd (sm_Add (sorted_disk True) 1 example_vm fresh_manager)"
  have m: "sm_states ?sm = [''v1'' \<mapsto> with_defaults 1 example_vm]"
    by (simp add: sm_Add_def sm_save_def sorted_disk_def fresh_manager_def example_vm_def)
  have k: "finite (dom m) \<Longrightarrow> key_order m (de_order (sorted_disk True) m)" for m
    by (simp add: sorted_disk_def key_order_def)
  obtain n sm' where r: "Reconcile (sorted_disk True) 5 (\<lambda>_. False) ?sm = (n, sm')" by fastforce
  have wk: "well_keyed (sm_states ?sm)" unfolding m by (simp add: well_keyed_def example_vm_def)
  have "well_keyed (sm_states sm')"
    using well_keyed_step [OF wk, of "(sorted_disk True, OpReconcile 5 [])"] r by (simp add: sm_step_def)
  then have f: "finite (dom (sm_states ?sm))" "finite (dom (sm_states sm'))" using wk by (simp_all add: well_keyed_def)
  have "{i. stale_at (\<lambda>_. False) (sm_states ?sm) i} = {''v1''}"
    unfolding m by (auto simp: stale_at_def with_defaults_def example_vm_def split: if_splits)
  with reconcile_exact [OF k [OF f(1)] r k [OF f(2)]] r show ?thesis by simp
qed

end
