(* ===== verification/Node_Config.thy ===== *)
theory Node_Config
  imports Net_Manager
begin

text \<open>
  The configuration of a node, \<open>pkg/config/config.go\<close>: defaults, validation, migration of the fields
  of earlier versions and merging. Decoding and printing YAML is a parameter: a document is the
  configuration it decodes to, if it does. Durations are numbers of nanoseconds.
\<close>

subsection \<open>Structures\<close>

record jail_config =
  jc_UID :: int
  jc_GID :: int
  jc_ChrootBaseDir :: string
  jc_NetNS :: string

record executor_section =
  es_Name :: string
  es_KernelPath :: string
  es_InitrdPath :: string
  es_RootfsDir :: string
  es_SocketDir :: string
  es_DefaultVCPUs :: int
  es_DefaultMemoryMB :: int
  es_EnableJailer :: bool
  es_Jailer :: jail_config
  es_InitSystem :: string
  es_InitGracePeriod :: int

record network_section =
  nw_BridgeName :: string
  nw_EnableRateLimit :: bool
  nw_MaxPacketsPerSec :: int
  nw_Subnet :: string
  nw_BridgeIP :: string
  nw_IPMode :: string
  nw_NATEnabled :: "bool option"
  nw_VXLANEnabled :: bool
  nw_VXLANStaticPeers :: "string list"

record logging_section =
  lg_Level :: string
  lg_Format :: string
  lg_Output :: string

record images_section =
  im_CacheDir :: string
  im_MaxCacheSizeMB :: int
  im_EnableLayerCache :: bool

record metrics_section =
  mt_Enabled :: bool
  mt_Address :: string
  mt_Format :: string

record snapshot_section =
  sn_Enabled :: bool
  sn_SnapshotDir :: string
  sn_MaxSnapshots :: int
  sn_MaxAge :: int
  sn_AutoSnapshot :: bool
  sn_Compress :: bool

record node_config =
  cf_Version :: int
  cf_Executor :: executor_section
  cf_Network :: network_section
  cf_Logging :: logging_section
  cf_Images :: images_section
  cf_Metrics :: metrics_section
  cf_Snapshot :: snapshot_section
  cf_KernelPath :: string
  cf_InitrdPath :: string
  cf_RootfsDir :: string
  cf_SocketDir :: string
  cf_DefaultVCPUs :: int
  cf_DefaultMemoryMB :: int
  cf_EnableJailer :: bool
  cf_Jailer :: jail_config

definition zero_jail :: jail_config where
  "zero_jail = \<lparr>jc_UID = 0, jc_GID = 0, jc_ChrootBaseDir = [], jc_NetNS = []\<rparr>"

definition zero_config :: node_config where
  "zero_config = \<lparr>cf_Version = 0,
     cf_Executor = \<lparr>es_Name = [], es_KernelPath = [], es_InitrdPath = [], es_RootfsDir = [], es_SocketDir = [], es_DefaultVCPUs = 0,
       es_DefaultMemoryMB = 0, es_EnableJailer = False, es_Jailer = zero_jail, es_InitSystem = [], es_InitGracePeriod = 0\<rparr>,
     cf_Network = \<lparr>nw_BridgeName = [], nw_EnableRateLimit = False, nw_MaxPacketsPerSec = 0, nw_Subnet = [], nw_BridgeIP = [],
       nw_IPMode = [], nw_NATEnabled = None, nw_VXLANEnabled = False, nw_VXLANStaticPeers = []\<rparr>,
     cf_Logging = \<lparr>lg_Level = [], lg_Format = [], lg_Output = []\<rparr>,
     cf_Images = \<lparr>im_CacheDir = [], im_MaxCacheSizeMB = 0, im_EnableLayerCache = False\<rparr>,
     cf_Metrics = \<lparr>mt_Enabled = False, mt_Address = [], mt_Format = []\<rparr>,
     cf_Snapshot = \<lparr>sn_Enabled = False, sn_SnapshotDir = [], sn_MaxSnapshots = 0, sn_MaxAge = 0, sn_AutoSnapshot = False,
       sn_Compress = False\<rparr>,
     cf_KernelPath = [], cf_InitrdPath = [], cf_RootfsDir = [], cf_SocketDir = [], cf_DefaultVCPUs = 0, cf_DefaultMemoryMB = 0,
     cf_EnableJailer = False, cf_Jailer = zero_jail\<rparr>"

datatype config_error =
    ConfigUnreadable
  | ConfigUnparsable
  | ConfigVersion int
  | KernelPathRequired
  | RootfsDirRequired
  | VCPUsNotPositive
  | MemoryNotPositive
  | BridgeNameRequired
  | PacketsNotPositive
  | IPModeInvalid
  | JailerUIDRequired
  | JailerGIDRequired
  | JailerChrootRequired
  | ConfigSaveFailed

subsection \<open>Validation\<close>

definition jailer_Validate :: "jail_config \<Rightarrow> (config_error, unit) res" where
  "jailer_Validate j =
     (if jc_UID j = 0 then Inl JailerUIDRequired
      else if jc_GID j = 0 then Inl JailerGIDRequired
      else if jc_ChrootBaseDir j = [] then Inl JailerChrootRequired
      else Inr ())"

definition network_Validate :: "network_section \<Rightarrow> (config_error, unit) res" where
  "network_Validate n =
     (if nw_BridgeName n = [] then Inl BridgeNameRequired
      else if nw_EnableRateLimit n \<and> nw_MaxPacketsPerSec n \<le> 0 then Inl PacketsNotPositive
      else if nw_IPMode n \<noteq> [] \<and> nw_IPMode n \<noteq> ''static'' \<and> nw_IPMode n \<noteq> ''dhcp'' then Inl IPModeInvalid
      else Inr ())"

definition cfg_Validate :: "node_config \<Rightarrow> (config_error, unit) res" where
  "cfg_Validate c =
     (let e = cf_Executor c; n = cf_Network c in
      if es_KernelPath e = [] \<and> cf_KernelPath c = [] then Inl KernelPathRequired
      else if es_RootfsDir e = [] \<and> cf_RootfsDir c = [] then Inl RootfsDirRequired
      else if es_DefaultVCPUs e \<le> 0 \<and> cf_DefaultVCPUs c \<le> 0 then Inl VCPUsNotPositive
      else if es_DefaultMemoryMB e \<le> 0 \<and> cf_DefaultMemoryMB c \<le> 0 then Inl MemoryNotPositive
      else if nw_BridgeName n = [] then Inl BridgeNameRequired
      else if nw_EnableRateLimit n \<and> nw_MaxPacketsPerSec n \<le> 0 then Inl PacketsNotPositive
      else if es_EnableJailer e \<or> cf_EnableJailer c then jailer_Validate (es_Jailer e)
      else Inr ())"

subsection \<open>Defaults\<close>

definition or_string :: "string \<Rightarrow> string \<Rightarrow> string" where
  "or_string s d = (if s = [] then d else s)"

definition or_int :: "int \<Rightarrow> int \<Rightarrow> int" where
  "or_int i d = (if i = 0 then d else i)"

definition executor_defaults :: "node_config \<Rightarrow> executor_section" where
  "executor_defaults c =
     (let e = cf_Executor c in e\<lparr>
        es_KernelPath := or_string (es_KernelPath e) (cf_KernelPath c),
        es_RootfsDir := or_string (es_RootfsDir e) (cf_RootfsDir c),
        es_SocketDir := or_string (es_SocketDir e) (or_string (cf_SocketDir c) ''/var/run/firecracker''),
        es_DefaultVCPUs := or_int (or_int (es_DefaultVCPUs e) (cf_DefaultVCPUs c)) 1,
        es_DefaultMemoryMB := or_int (or_int (es_DefaultMemoryMB e) (cf_DefaultMemoryMB c)) 512\<rparr>)"

definition network_defaults :: "network_section \<Rightarrow> network_section" where
  "network_defaults n = n\<lparr>
     nw_BridgeName := or_string (nw_BridgeName n) ''swarm-br0'',
     nw_Subnet := or_string (nw_Subnet n) ''192.168.127.0/24'',
     nw_BridgeIP := or_string (nw_BridgeIP n) ''192.168.127.1/24'',
     nw_IPMode := or_string (nw_IPMode n) ''static'',
     nw_NATEnabled := (case nw_NATEnabled n of None \<Rightarrow> Some True | Some b \<Rightarrow> Some b)\<rparr>"

definition SetDefaults :: "node_config \<Rightarrow> node_config" where
  "SetDefaults c = c\<lparr>
     cf_Executor := executor_defaults c,
     cf_Network := network_defaults (cf_Network c),
     cf_Logging := (let l = cf_Logging c in l\<lparr>lg_Level := or_string (lg_Level l) ''info'', lg_Format := or_string (lg_Format l) ''json'',
       lg_Output := or_string (lg_Output l) ''stdout''\<rparr>),
     cf_Images := (let i = cf_Images c in i\<lparr>im_CacheDir := or_string (im_CacheDir i) ''/var/cache/swarmcracker''\<rparr>),
     cf_Snapshot := (let s = cf_Snapshot c in s\<lparr>sn_SnapshotDir := or_string (sn_SnapshotDir s) ''/var/lib/firecracker/snapshots'',
       sn_MaxSnapshots := or_int (sn_MaxSnapshots s) 3, sn_MaxAge := or_int (sn_MaxAge s) (168 * 3600 * 1000000000)\<rparr>)\<rparr>"

subsection \<open>Loading, merging, saving\<close>

definition migrate :: "node_config \<Rightarrow> executor_section" where
  "migrate c =
     (let e = cf_Executor c in e\<lparr>
        es_KernelPath := or_string (es_KernelPath e) (cf_KernelPath c),
        es_RootfsDir := or_string (es_RootfsDir e) (cf_RootfsDir c),
        es_InitrdPath := or_string (es_InitrdPath e) (cf_InitrdPath c),
        es_SocketDir := or_string (es_SocketDir e) (cf_SocketDir c),
        es_DefaultVCPUs := if 0 < cf_DefaultVCPUs c then or_int (es_DefaultVCPUs e) (cf_DefaultVCPUs c) else es_DefaultVCPUs e,
        es_DefaultMemoryMB :=
          if 0 < cf_DefaultMemoryMB c then or_int (es_DefaultMemoryMB e) (cf_DefaultMemoryMB c) else es_DefaultMemoryMB e,
        es_EnableJailer := es_EnableJailer e \<or> cf_EnableJailer c\<rparr>)"

text \<open>A file: missing or unreadable, or a document with the configuration it decodes to.\<close>

definition LoadConfig :: "node_config option option \<Rightarrow> (config_error, node_config) res" where
  "LoadConfig file =
     (case file of
        None \<Rightarrow> Inl ConfigUnreadable
      | Some None \<Rightarrow> Inl ConfigUnparsable
      | Some (Some c) \<Rightarrow>
          let c1 = (if cf_Version c = 0 then c\<lparr>cf_Version := 1\<rparr> else c) in
          if 1 < cf_Version c1 then Inl (ConfigVersion (cf_Version c1))
          else Inr (c1\<lparr>cf_Executor := migrate c1\<rparr>))"

definition GetDefaultConfigPath :: "string \<Rightarrow> string" where
  "GetDefaultConfigPath env = (if env \<noteq> [] then env else ''/etc/swarmcracker/config.yaml'')"

text \<open>\<open>Save\<close>, when the directory and the file can be written, leaves the document of the configuration.\<close>

definition cfg_Save :: "bool \<Rightarrow> node_config \<Rightarrow> node_config option option \<Rightarrow> (config_error, unit) res \<times> node_config option option" where
  "cfg_Save ok c file = (if ok then (Inr (), Some (Some c)) else (Inl ConfigSaveFailed, file))"

definition EnsureDefaultConfig :: "bool \<Rightarrow> node_config option option \<Rightarrow> (config_error, bool) res \<times> node_config option option" where
  "EnsureDefaultConfig ok file =
     (if file \<noteq> None then (Inr False, file)
      else case cfg_Save ok (SetDefaults zero_config) file of
        (Inl e, file') \<Rightarrow> (Inl e, file')
      | (Inr _, file') \<Rightarrow> (Inr True, file'))"

definition cfg_Merge :: "node_config \<Rightarrow> node_config \<Rightarrow> node_config" where
  "cfg_Merge c other =
     (let e = cf_Executor c; oe = cf_Executor other; n = cf_Network c; on = cf_Network other in
      c\<lparr>cf_Executor := e\<lparr>
          es_KernelPath := or_string (es_KernelPath oe) (es_KernelPath e),
          es_InitrdPath := or_string (es_InitrdPath oe) (es_InitrdPath e),
          es_RootfsDir := or_string (es_RootfsDir oe) (es_RootfsDir e),
          es_SocketDir := or_string (es_SocketDir oe) (es_SocketDir e),
          es_DefaultVCPUs := if 0 < es_DefaultVCPUs oe then es_DefaultVCPUs oe else es_DefaultVCPUs e,
          es_DefaultMemoryMB := if 0 < es_DefaultMemoryMB oe then es_DefaultMemoryMB oe else es_DefaultMemoryMB e,
          es_EnableJailer := es_EnableJailer oe\<rparr>,
        cf_Network := n\<lparr>
          nw_BridgeName := or_string (nw_BridgeName on) (nw_BridgeName n),
          nw_EnableRateLimit := nw_EnableRateLimit on,
          nw_MaxPacketsPerSec := if 0 < nw_MaxPacketsPerSec on then nw_MaxPacketsPerSec on else nw_MaxPacketsPerSec n\<rparr>\<rparr>)"

subsection \<open>Properties\<close>

lemma or_string_idem [simp]: "or_string (or_string s d) d = or_string s d"
  by (simp add: or_string_def)

lemma or_string_assoc: "or_string (or_string a b) c = or_string a (or_string b c)"
  by (simp add: or_string_def)

lemma or_string_Nil [simp]: "or_string s d = [] \<longleftrightarrow> s = [] \<and> d = []"
  by (simp add: or_string_def)

text \<open>Setting the defaults twice is setting them once.\<close>

lemma SetDefaults_idem: "SetDefaults (SetDefaults c) = SetDefaults c"
  by (simp add: SetDefaults_def executor_defaults_def network_defaults_def or_string_def or_int_def Let_def split: option.splits)

lemma jailer_Validate_ok:
  "jailer_Validate j = Inr () \<longleftrightarrow> jc_UID j \<noteq> 0 \<and> jc_GID j \<noteq> 0 \<and> jc_ChrootBaseDir j \<noteq> []"
  by (simp add: jailer_Validate_def)

lemma cfg_Validate_ok:
  "cfg_Validate c = Inr () \<longleftrightarrow>
     (es_KernelPath (cf_Executor c) \<noteq> [] \<or> cf_KernelPath c \<noteq> []) \<and> (es_RootfsDir (cf_Executor c) \<noteq> [] \<or> cf_RootfsDir c \<noteq> []) \<and>
     (0 < es_DefaultVCPUs (cf_Executor c) \<or> 0 < cf_DefaultVCPUs c) \<and>
     (0 < es_DefaultMemoryMB (cf_Executor c) \<or> 0 < cf_DefaultMemoryMB c) \<and> nw_BridgeName (cf_Network c) \<noteq> [] \<and>
     (nw_EnableRateLimit (cf_Network c) \<longrightarrow> 0 < nw_MaxPacketsPerSec (cf_Network c)) \<and>
     (es_EnableJailer (cf_Executor c) \<or> cf_EnableJailer c \<longrightarrow> jailer_Validate (es_Jailer (cf_Executor c)) = Inr ())"
  unfolding cfg_Validate_def Let_def by (cases "es_EnableJailer (cf_Executor c) \<or> cf_EnableJailer c") (auto simp: not_le)

lemma SetDefaults_sel:
  "es_KernelPath (cf_Executor (SetDefaults c)) = or_string (es_KernelPath (cf_Executor c)) (cf_KernelPath c)"
  "es_RootfsDir (cf_Executor (SetDefaults c)) = or_string (es_RootfsDir (cf_Executor c)) (cf_RootfsDir c)"
  "es_DefaultVCPUs (cf_Executor (SetDefaults c)) = or_int (or_int (es_DefaultVCPUs (cf_Executor c)) (cf_DefaultVCPUs c)) 1"
  "es_DefaultMemoryMB (cf_Executor (SetDefaults c)) = or_int (or_int (es_DefaultMemoryMB (cf_Executor c)) (cf_DefaultMemoryMB c)) 512"
  "es_EnableJailer (cf_Executor (SetDefaults c)) = es_EnableJailer (cf_Executor c)"
  "es_Jailer (cf_Executor (SetDefaults c)) = es_Jailer (cf_Executor c)"
  "nw_BridgeName (cf_Network (SetDefaults c)) = or_string (nw_BridgeName (cf_Network c)) ''swarm-br0''"
  "nw_EnableRateLimit (cf_Network (SetDefaults c)) = nw_EnableRateLimit (cf_Network c)"
  "nw_MaxPacketsPerSec (cf_Network (SetDefaults c)) = nw_MaxPacketsPerSec (cf_Network c)"
  "cf_KernelPath (SetDefaults c) = cf_KernelPath c" "cf_RootfsDir (SetDefaults c) = cf_RootfsDir c"
  "cf_DefaultVCPUs (SetDefaults c) = cf_DefaultVCPUs c" "cf_DefaultMemoryMB (SetDefaults c) = cf_DefaultMemoryMB c"
  "cf_EnableJailer (SetDefaults c) = cf_EnableJailer c"
  by (simp_all add: SetDefaults_def executor_defaults_def network_defaults_def Let_def)

lemma or_int_pos: "0 \<le> a \<Longrightarrow> 0 \<le> b \<Longrightarrow> 0 < d \<Longrightarrow> 0 < or_int (or_int a b) d"
  by (simp add: or_int_def)

text \<open>
  A configuration without negative numbers is valid with its defaults exactly when it names a kernel
  and a directory for root file systems, sets a rate where it limits one and configures the jailer in
  the executor section where it enables it.
\<close>

theorem defaults_validate_iff:
  assumes "0 \<le> es_DefaultVCPUs (cf_Executor c)" and "0 \<le> cf_DefaultVCPUs c"
    and "0 \<le> es_DefaultMemoryMB (cf_Executor c)" and "0 \<le> cf_DefaultMemoryMB c"
  shows "cfg_Validate (SetDefaults c) = Inr () \<longleftrightarrow>
    (es_KernelPath (cf_Executor c) \<noteq> [] \<or> cf_KernelPath c \<noteq> []) \<and> (es_RootfsDir (cf_Executor c) \<noteq> [] \<or> cf_RootfsDir c \<noteq> []) \<and>
    (nw_EnableRateLimit (cf_Network c) \<longrightarrow> 0 < nw_MaxPacketsPerSec (cf_Network c)) \<and>
    (es_EnableJailer (cf_Executor c) \<or> cf_EnableJailer c \<longrightarrow>
       jc_UID (es_Jailer (cf_Executor c)) \<noteq> 0 \<and> jc_GID (es_Jailer (cf_Executor c)) \<noteq> 0 \<and>
       jc_ChrootBaseDir (es_Jailer (cf_Executor c)) \<noteq> [])"
  using assms by (simp add: cfg_Validate_ok jailer_Validate_ok SetDefaults_sel or_int_pos)

text \<open>
  The configuration file that \<open>EnsureDefaultConfig\<close> creates loads, but is not valid: it names no kernel.
\<close>

theorem default_file_invalid:
  assumes "EnsureDefaultConfig ok None = (Inr True, file)"
  shows "\<exists>c. LoadConfig file = Inr c \<and> cfg_Validate c = Inl KernelPathRequired \<and> cfg_Validate (SetDefaults c) = Inl KernelPathRequired"
proof -
  have f: "file = Some (Some (SetDefaults zero_config))"
    using assms by (auto simp: EnsureDefaultConfig_def cfg_Save_def split: if_splits)
  show ?thesis
    by (simp add: f LoadConfig_def migrate_def cfg_Validate_def SetDefaults_def executor_defaults_def zero_config_def
        or_string_def Let_def)
qed

text \<open>
  The jailer section of earlier versions is not migrated: a file that enables and configures the jailer
  only at the top level loads and is then refused.
\<close>

theorem legacy_jailer_refused:
  assumes "LoadConfig (Some (Some c)) = Inr c'" and "cf_EnableJailer c" and "jailer_Validate (cf_Jailer c) = Inr ()"
    and "es_Jailer (cf_Executor c) = zero_jail"
    and "es_KernelPath (cf_Executor c) \<noteq> []" "es_RootfsDir (cf_Executor c) \<noteq> []" "0 < es_DefaultVCPUs (cf_Executor c)"
      "0 < es_DefaultMemoryMB (cf_Executor c)" "nw_BridgeName (cf_Network c) \<noteq> []" "\<not> nw_EnableRateLimit (cf_Network c)"
  shows "cfg_Validate c' = Inl JailerUIDRequired"
proof -
  define c1 where "c1 = (if cf_Version c = 0 then c\<lparr>cf_Version := 1\<rparr> else c)"
  have c': "c' = c1\<lparr>cf_Executor := migrate c1\<rparr>"
    using assms(1) by (simp add: LoadConfig_def Let_def c1_def split: if_splits)
  have "cf_Executor c1 = cf_Executor c" "cf_Network c1 = cf_Network c" "cf_EnableJailer c1" using assms(2) by (simp_all add: c1_def)
  then show ?thesis
    using assms(4-) by (simp add: c' cfg_Validate_def migrate_def or_string_def or_int_def jailer_Validate_def zero_jail_def Let_def)
qed

text \<open>
  Merging is associative and merging with itself changes nothing, so that a list of configurations can
  be merged in any grouping.
\<close>

theorem merge_assoc_idem:
  "cfg_Merge (cfg_Merge a b) c = cfg_Merge a (cfg_Merge b c) \<and> cfg_Merge a a = a"
  by (simp add: cfg_Merge_def or_string_def Let_def)

subsection \<open>Examples\<close>

definition example_config :: node_config where
  "example_config = zero_config\<lparr>cf_KernelPath := ''/k'', cf_RootfsDir := ''/r''\<rparr>"

theorem defaults_validate_iff_witness: "cfg_Validate (SetDefaults example_config) = Inr ()"
  using defaults_validate_iff [of example_config] by (simp add: example_config_def zero_config_def)

theorem default_file_invalid_witness:
  "\<exists>c. LoadConfig (snd (EnsureDefaultConfig True None)) = Inr c \<and> cfg_Validate c = Inl KernelPathRequired"
proof -
  have "EnsureDefaultConfig True None = (Inr True, snd (EnsureDefaultConfig True None))"
    by (simp add: EnsureDefaultConfig_def cfg_Save_def)
  from default_file_invalid [OF this] show ?thesis by blast
qed

definition legacy_config :: node_config where
  "legacy_config = SetDefaults (example_config\<lparr>cf_EnableJailer := True,
     cf_Jailer := \<lparr>jc_UID = 1000, jc_GID = 1000, jc_ChrootBaseDir = ''/srv/jailer'', jc_NetNS = []\<rparr>\<rparr>)"

theorem legacy_jailer_refused_witness:
  "\<exists>c'. LoadConfig (Some (Some legacy_config)) = Inr c' \<and> cfg_Validate c' = Inl JailerUIDRequired"
proof -
  obtain c' where c: "LoadConfig (Some (Some legacy_config)) = Inr c'"
    by (simp add: LoadConfig_def legacy_config_def SetDefaults_def example_config_def zero_config_def Let_def)
  have "cfg_Validate c' = Inl JailerUIDRequired"
    by (rule legacy_jailer_refused [OF c])
      (simp_all add: legacy_config_def SetDefaults_def executor_defaults_def network_defaults_def example_config_def zero_config_def
        jailer_Validate_def or_string_def or_int_def Let_def)
  with c show ?thesis by blast
qed

end
