(* ===== verification/Go_Tree.thy ===== *)
theory Go_Tree
  imports Go_Os
begin

text \<open>
  A file system with directories, for the components that keep directory trees (snapshots and
  volumes). A location is the cleaned form of a path, its elements; a tree maps locations to files and
  directories. The roots \<open>/\<close> and \<open>.\<close> always are directories. Every operation of Go's package \<open>os\<close> may
  fail at the locations that the argument \<open>deny\<close> names for it, and then changes nothing. Permissions
  are left out, and so are symbolic links and special files: a tree holds regular files and directories only. (The
  file system of \<open>Go_Link\<close>, which the jail and the images use, has links.)
\<close>

datatype loc = Loc (l_root: bool) (l_elems: "string list")

definition loc_of :: "string \<Rightarrow> loc" where
  "loc_of p = Loc (prefix ''/'' p) (path_elems p)"

datatype 'd fnode = FDir | FFile (fdata: 'd)

type_synonym 'd tree = "(loc \<times> 'd fnode) list"

datatype os_op = OpStat | OpMkdir | OpWrite | OpRead | OpRemove | OpRename | OpReadDir

type_synonym denials = "os_op \<Rightarrow> loc \<Rightarrow> bool"

datatype tree_error = NotExist | OtherError

definition node_at :: "'d tree \<Rightarrow> loc \<Rightarrow> 'd fnode option" where
  "node_at t l = (if l_elems l = [] then Some FDir else map_of t l)"

definition below :: "loc \<Rightarrow> loc \<Rightarrow> bool" where
  "below d l \<longleftrightarrow> l_root d = l_root l \<and> prefix (l_elems d) (l_elems l)"

definition parent :: "loc \<Rightarrow> loc" where
  "parent l = Loc (l_root l) (butlast (l_elems l))"

definition child :: "loc \<Rightarrow> string \<Rightarrow> loc" where
  "child l x = Loc (l_root l) (l_elems l @ [x])"

text \<open>A file stands where a directory above the location is needed.\<close>

definition blocked :: "'d tree \<Rightarrow> loc \<Rightarrow> bool" where
  "blocked t l \<longleftrightarrow>
     list_ex (\<lambda>k. case node_at t (Loc (l_root l) (take k (l_elems l))) of Some (FFile _) \<Rightarrow> True | _ \<Rightarrow> False) [0..<length (l_elems l)]"

definition lookup_node :: "'d tree \<Rightarrow> loc \<Rightarrow> (tree_error, 'd fnode) res" where
  "lookup_node t l =
     (case node_at t l of Some n \<Rightarrow> Inr n | None \<Rightarrow> Inl (if blocked t l then OtherError else NotExist))"

definition tree_Stat :: "denials \<Rightarrow> string \<Rightarrow> 'd tree \<Rightarrow> (tree_error, 'd fnode) res" where
  "tree_Stat deny p t = (if deny OpStat (loc_of p) then Inl OtherError else lookup_node t (loc_of p))"

text \<open>The location and the directories above it, as directories.\<close>

definition dirs_to :: "loc \<Rightarrow> 'd tree" where
  "dirs_to l = map (\<lambda>k. (Loc (l_root l) (take k (l_elems l)), FDir)) [1..<Suc (length (l_elems l))]"

definition tree_MkdirAll :: "denials \<Rightarrow> string \<Rightarrow> 'd tree \<Rightarrow> (tree_error, unit) res \<times> 'd tree" where
  "tree_MkdirAll deny p t =
     (let l = loc_of p
      in if deny OpMkdir l \<or> blocked t l then (Inl OtherError, t)
         else case node_at t l of
                Some (FFile _) \<Rightarrow> (Inl OtherError, t)
              | Some FDir \<Rightarrow> (Inr (), t)
              | None \<Rightarrow> (Inr (), dirs_to l @ t))"

text \<open>\<open>os.WriteFile\<close>, which creates or replaces a file.\<close>

definition put_file :: "loc \<Rightarrow> 'd \<Rightarrow> 'd tree \<Rightarrow> (tree_error, unit) res \<times> 'd tree" where
  "put_file l d t =
     (case lookup_node t (parent l) of
        Inl e \<Rightarrow> (Inl e, t)
      | Inr (FFile _) \<Rightarrow> (Inl OtherError, t)
      | Inr FDir \<Rightarrow>
          if node_at t l = Some FDir then (Inl OtherError, t) else (Inr (), (l, FFile d) # t))"

definition tree_WriteFile :: "denials \<Rightarrow> string \<Rightarrow> 'd \<Rightarrow> 'd tree \<Rightarrow> (tree_error, unit) res \<times> 'd tree" where
  "tree_WriteFile deny p d t =
     (if deny OpWrite (loc_of p) then (Inl OtherError, t) else put_file (loc_of p) d t)"

definition tree_ReadFile :: "denials \<Rightarrow> string \<Rightarrow> 'd tree \<Rightarrow> (tree_error, 'd) res" where
  "tree_ReadFile deny p t =
     (if deny OpRead (loc_of p) then Inl OtherError
      else case lookup_node t (loc_of p) of
             Inl e \<Rightarrow> Inl e
           | Inr FDir \<Rightarrow> Inl OtherError
           | Inr (FFile d) \<Rightarrow> Inr d)"

definition drop_tree :: "loc \<Rightarrow> 'd tree \<Rightarrow> 'd tree" where
  "drop_tree l t = filter (\<lambda>(l', _). \<not> below l l') t"

text \<open>\<open>os.RemoveAll\<close>; what is not there is removed.\<close>

definition tree_RemoveAll :: "denials \<Rightarrow> string \<Rightarrow> 'd tree \<Rightarrow> (tree_error, unit) res \<times> 'd tree" where
  "tree_RemoveAll deny p t =
     (if deny OpRemove (loc_of p) then (Inl OtherError, t) else (Inr (), drop_tree (loc_of p) t))"

definition children :: "'d tree \<Rightarrow> loc \<Rightarrow> string list" where
  "children t l =
     sort (remdups (map (\<lambda>(l', _). last (l_elems l'))
       (filter (\<lambda>(l', _). l_elems l' \<noteq> [] \<and> parent l' = l) t)))"

text \<open>\<open>os.Remove\<close>: a file or an empty directory.\<close>

definition tree_Remove :: "denials \<Rightarrow> string \<Rightarrow> 'd tree \<Rightarrow> (tree_error, unit) res \<times> 'd tree" where
  "tree_Remove deny p t =
     (let l = loc_of p
      in if deny OpRemove l then (Inl OtherError, t)
         else case lookup_node t l of
                Inl e \<Rightarrow> (Inl e, t)
              | Inr n \<Rightarrow> if n = FDir \<and> (children t l \<noteq> [] \<or> l_elems l = []) then (Inl OtherError, t)
                         else (Inr (), drop_tree l t))"

text \<open>\<open>os.Rename\<close> of a file.\<close>

definition tree_Rename :: "denials \<Rightarrow> string \<Rightarrow> string \<Rightarrow> 'd tree \<Rightarrow> (tree_error, unit) res \<times> 'd tree" where
  "tree_Rename deny p q t =
     (if deny OpRename (loc_of p) then (Inl OtherError, t)
      else case lookup_node t (loc_of p) of
             Inl e \<Rightarrow> (Inl e, t)
           | Inr FDir \<Rightarrow> (Inl OtherError, t)
           | Inr (FFile d) \<Rightarrow>
               (case put_file (loc_of q) d t of
                  (Inl e, _) \<Rightarrow> (Inl e, t)
                | (Inr _, _) \<Rightarrow> (Inr (), (loc_of q, FFile d) # drop_tree (loc_of p) t)))"

definition tree_ReadDir :: "denials \<Rightarrow> string \<Rightarrow> 'd tree \<Rightarrow> (tree_error, (string \<times> bool) list) res" where
  "tree_ReadDir deny p t =
     (let l = loc_of p
      in if deny OpReadDir l then Inl OtherError
         else case lookup_node t l of
                Inl e \<Rightarrow> Inl e
              | Inr (FFile _) \<Rightarrow> Inl OtherError
              | Inr FDir \<Rightarrow> Inr (map (\<lambda>x. (x, node_at t (child l x) = Some FDir)) (children t l)))"

subsection \<open>Locations\<close>

definition plain_name :: "string \<Rightarrow> bool" where
  "plain_name x \<longleftrightarrow> x \<noteq> [] \<and> x \<noteq> ''.'' \<and> x \<noteq> ''..'' \<and> CHR ''/'' \<notin> set x"

lemma loc_eq_iff: "l = l' \<longleftrightarrow> l_root l = l_root l' \<and> l_elems l = l_elems l'"
  by (cases l; cases l') simp

lemma root_child [simp]: "l_root (child l x) = l_root l" and elems_child [simp]: "l_elems (child l x) = l_elems l @ [x]"
  by (simp_all add: child_def)

lemma parent_child [simp]: "parent (child l x) = l"
  by (simp add: parent_def)

lemma child_inj [simp]: "child l x = child l y \<longleftrightarrow> x = y"
  by (simp add: child_def)

lemma child_neq [simp]: "child l x \<noteq> l" "l \<noteq> child l x"
  by (metis append_self_conv list.distinct(1) elems_child)+

lemma below_refl [simp]: "below l l"
  by (simp add: below_def)

lemma below_child [simp]: "below l (child l x)"
  by (simp add: below_def)

lemma below_trans: "below a b \<Longrightarrow> below b c \<Longrightarrow> below a c"
  by (auto simp: below_def)

lemma below_children: "below (child l x) (child l y) \<longleftrightarrow> x = y"
  by (auto simp: below_def)

lemma below_under: "below (child l x) l' \<Longrightarrow> below l l'"
  using below_trans [of l "child l x" l'] by simp

lemma not_below_parent [simp]: "\<not> below (child l x) l"
  by (auto simp: below_def prefix_def)

lemma below_parent: "below l (parent l') \<Longrightarrow> below l l'"
  using prefix_order.trans [OF _ prefixeq_butlast [of "l_elems l'"]] by (simp add: below_def parent_def)

lemma loc_child:
  assumes "plain_name x" and "d \<noteq> []"
  shows "loc_of (path_Join [d, x]) = child (loc_of d) x"
proof -
  have j: "path_Join [d, x] = path_of (prefix ''/'' d) (path_elems d @ [x])"
    using assms by (intro path_Join_name) (simp_all add: plain_name_def)
  have "clean_elems (prefix ''/'' d) (path_elems d @ [x])"
    using assms by (intro clean_elems_snoc clean_elems_path) (simp_all add: plain_name_def)
  then show ?thesis by (simp add: j loc_of_def path_elems_path_of child_def)
qed

lemma fst_loc_abs: "path_IsAbs p \<Longrightarrow> l_root (loc_of p)"
  by (simp add: loc_of_def path_IsAbs_def)

lemma abs_nonempty: "path_IsAbs p \<Longrightarrow> p \<noteq> []"
  by (auto simp: path_IsAbs_def)

lemma path_Join_nonempty [simp]: "path_Join [d, x] = [] \<longleftrightarrow> d = [] \<and> x = []"
proof -
  have "path_of r es \<noteq> []" if "clean_elems r es" for r es
    using that clean_elems_names [OF that] by (cases es rule: remdups_adj.cases) (auto simp: path_of_def)
  then have "path_Clean p \<noteq> []" for p unfolding path_Clean_def using clean_elems_path by blast
  then show ?thesis by (auto simp: path_Join_def)
qed

lemma path_IsAbs_Join: "path_IsAbs d \<Longrightarrow> plain_name x \<Longrightarrow> path_IsAbs (path_Join [d, x])"
  using loc_child [of x d] abs_nonempty [of d] by (simp add: loc_of_def path_IsAbs_def child_def)

subsection \<open>Operations and nodes\<close>

lemma node_at_Cons: "l_elems l \<noteq> [] \<Longrightarrow> node_at ((l, n) # t) l' = (if l' = l then Some n else node_at t l')"
  by (auto simp: node_at_def)

lemma map_of_const: "map_of (map (\<lambda>k. (f k, v)) ks) x = (if x \<in> f ` set ks then Some v else None)"
  by (induction ks) auto

lemma node_at_dirs_to:
  fixes t :: "'d tree"
  shows "node_at (dirs_to l @ t) l' = (if below l' l then Some FDir else node_at t l')"
proof (cases "l_elems l' = []")
  case False
  have "l' \<in> (\<lambda>k. Loc (l_root l) (take k (l_elems l))) ` {1..<Suc (length (l_elems l))} \<longleftrightarrow> below l' l"
  proof
    assume b: "below l' l"
    then have "l' = Loc (l_root l) (take (length (l_elems l')) (l_elems l))" by (auto simp: below_def prefix_def loc_eq_iff)
    moreover have "length (l_elems l') \<in> {1..<Suc (length (l_elems l))}"
      using b False prefix_length_le [of "l_elems l'" "l_elems l"] by (auto simp: below_def Suc_le_eq)
    ultimately show "l' \<in> (\<lambda>k. Loc (l_root l) (take k (l_elems l))) ` {1..<Suc (length (l_elems l))}" by blast
  qed (auto simp: below_def take_is_prefix)
  then have "map_of (dirs_to l :: 'd tree) l' = (if below l' l then Some FDir else None)"
    unfolding dirs_to_def map_of_const by (simp only: set_upt)
  then show ?thesis using False by (simp add: node_at_def map_add_def)
qed (simp add: node_at_def)

lemma node_at_drop: "node_at (drop_tree l t) l' = (if below l l' \<and> l_elems l' \<noteq> [] then None else node_at t l')"
  by (induction t) (auto simp: node_at_def drop_tree_def)

lemma set_children: "x \<in> set (children t l) \<longleftrightarrow> node_at t (child l x) \<noteq> None"
proof -
  have "x \<in> set (children t l) \<longleftrightarrow> child l x \<in> fst ` set t"
    by (force simp: children_def child_def parent_def image_iff snoc_eq_iff_butlast loc_eq_iff)
  then show ?thesis by (simp add: node_at_def map_of_eq_None_iff)
qed

lemma children_sorted: "sorted (children t l)" "distinct (children t l)"
  by (simp_all add: children_def)

lemma children_eqI: "(\<And>x. (node_at t (child l x) = None) = (node_at t' (child l x) = None)) \<Longrightarrow> children t l = children t' l"
  by (rule sorted_distinct_set_unique) (auto simp: children_sorted set_children)

lemma children_drop: "children (drop_tree (child l x) t) l = filter (\<lambda>y. y \<noteq> x) (children t l)"
  by (rule sorted_distinct_set_unique)
    (auto simp: children_sorted set_children node_at_drop below_children sorted_filter [of "\<lambda>x. x", simplified] split: if_splits)

lemma case_file: "(case n of Some (FFile _) \<Rightarrow> True | _ \<Rightarrow> False) \<longleftrightarrow> (\<exists>d. n = Some (FFile d))"
  by (auto split: option.splits fnode.splits)

lemma blocked_below:
  "blocked t l \<longleftrightarrow> (\<exists>a d. below a l \<and> a \<noteq> l \<and> node_at t a = Some (FFile d))"
proof
  assume "blocked t l"
  then obtain k d where "k < length (l_elems l)" "node_at t (Loc (l_root l) (take k (l_elems l))) = Some (FFile d)"
    by (auto simp: blocked_def list_ex_iff case_file)
  moreover from this(1) have "Loc (l_root l) (take k (l_elems l)) \<noteq> l" by (auto simp: loc_eq_iff)
  ultimately show "\<exists>a d. below a l \<and> a \<noteq> l \<and> node_at t a = Some (FFile d)"
    by (metis below_def loc.sel take_is_prefix)
next
  assume "\<exists>a d. below a l \<and> a \<noteq> l \<and> node_at t a = Some (FFile d)"
  then obtain a d where a: "below a l" "a \<noteq> l" "node_at t a = Some (FFile d)" by blast
  then have "a = Loc (l_root l) (take (length (l_elems a)) (l_elems l))" "length (l_elems a) < length (l_elems l)"
    by (auto simp: below_def prefix_def loc_eq_iff)
  then show "blocked t l" using a(3) by (auto simp: blocked_def list_ex_iff case_file intro!: bexI [of _ "length (l_elems a)"])
qed

text \<open>
  A tree is in order when above every file and directory there are directories, and the names on its
  locations are names.
\<close>

definition tree_ok :: "'d tree \<Rightarrow> bool" where
  "tree_ok t \<longleftrightarrow> (\<forall>l a. node_at t l \<noteq> None \<longrightarrow> below a l \<longrightarrow> a \<noteq> l \<longrightarrow> node_at t a = Some FDir) \<and>
     (\<forall>l. node_at t l \<noteq> None \<longrightarrow> l_root l \<longrightarrow> (\<forall>x \<in> set (l_elems l). plain_name x))"

lemma tree_ok_above: "tree_ok t \<Longrightarrow> node_at t l = Some n \<Longrightarrow> below a l \<Longrightarrow> a \<noteq> l \<Longrightarrow> node_at t a = Some FDir"
  unfolding tree_ok_def by blast

lemma tree_ok_children: "tree_ok t \<Longrightarrow> l_root l \<Longrightarrow> x \<in> set (children t l) \<Longrightarrow> plain_name x"
  unfolding tree_ok_def set_children by (metis root_child in_set_conv_decomp elems_child)

lemma tree_ok_not_blocked: "tree_ok t \<Longrightarrow> node_at t l \<noteq> None \<Longrightarrow> \<not> blocked t l"
  by (auto simp: blocked_below tree_ok_above)

lemma tree_ok_drop: "tree_ok t \<Longrightarrow> tree_ok (drop_tree l t)"
proof -
  assume ok: "tree_ok t"
  have "node_at (drop_tree l t) a = Some FDir" if "node_at (drop_tree l t) l' = Some n" "below a l'" "a \<noteq> l'" for l' a n
  proof (cases "l_elems a = []")
    case False
    then have "l_elems l' \<noteq> []" "node_at t l' = Some n" "\<not> below l l'"
      using that by (auto simp: below_def node_at_drop split: if_splits)
    then show ?thesis using tree_ok_above [OF ok _ that(2,3)] that(2) below_trans [of l a l'] by (auto simp: node_at_drop)
  qed (simp add: node_at_def)
  moreover have "plain_name x" if "node_at (drop_tree l t) l' = Some n" "l_root l'" "x \<in> set (l_elems l')" for l' n x
    using ok that unfolding tree_ok_def by (metis node_at_drop option.distinct(1))
  ultimately show ?thesis unfolding tree_ok_def by (metis not_Some_eq)
qed

lemma put_file_ok: "put_file l d t = (Inr u, t') \<Longrightarrow> t' = (l, FFile d) # t \<and> node_at t (parent l) = Some FDir \<and> node_at t l \<noteq> Some FDir"
  by (auto simp: put_file_def lookup_node_def split: sum.splits option.splits fnode.splits if_splits)

lemma put_file_nonempty: "node_at t l \<noteq> Some FDir \<Longrightarrow> l_elems l \<noteq> []"
  by (auto simp: node_at_def)

lemma below_cases: "below a l \<Longrightarrow> a \<noteq> l \<Longrightarrow> below a (parent l)"
  by (cases "l_elems l" rule: rev_cases) (auto simp: below_def parent_def loc_eq_iff)

lemma plain_elems: "l_root (loc_of p) \<Longrightarrow> x \<in> set (l_elems (loc_of p)) \<Longrightarrow> plain_name x"
  using clean_elems_path [of p] by (auto simp: loc_of_def clean_elems_def plain_name_def)

lemma tree_okI:
  assumes "\<And>l a. node_at t l \<noteq> None \<Longrightarrow> below a l \<Longrightarrow> a \<noteq> l \<Longrightarrow> node_at t a = Some FDir"
    and "\<And>l x. node_at t l \<noteq> None \<Longrightarrow> l_root l \<Longrightarrow> x \<in> set (l_elems l) \<Longrightarrow> plain_name x"
  shows "tree_ok t"
  using assms unfolding tree_ok_def by blast

lemma tree_ok_plain: "tree_ok t \<Longrightarrow> node_at t l = Some n \<Longrightarrow> l_root l \<Longrightarrow> x \<in> set (l_elems l) \<Longrightarrow> plain_name x"
  unfolding tree_ok_def by blast

text \<open>A file or a directory is added where its parent is a directory.\<close>

lemma tree_ok_add:
  assumes ok: "tree_ok t" and p: "node_at t (parent l) = Some FDir" and l: "l_elems l \<noteq> []"
    and n: "n = FDir \<or> node_at t l \<noteq> Some FDir" and x: "l_root l \<Longrightarrow> plain_name (last (l_elems l))"
  shows "tree_ok ((l, n) # t)"
proof (rule tree_okI)
  fix l' a assume l': "node_at ((l, n) # t) l' \<noteq> None" "below a l'" "a \<noteq> l'"
  show "node_at ((l, n) # t) a = Some FDir"
  proof (cases "l' = l")
    case True
    then have "below a (parent l)" using l'(2,3) below_cases by blast
    then have "node_at t a = Some FDir" using p tree_ok_above [OF ok p, of a] by (cases "a = parent l") simp_all
    then show ?thesis using True l'(3) l by (simp add: node_at_Cons)
  next
    case False
    then obtain n' where "node_at t l' = Some n'" using l'(1) l by (auto simp: node_at_Cons)
    then have "node_at t a = Some FDir" using tree_ok_above [OF ok _ l'(2,3)] by blast
    then show ?thesis using n l by (auto simp: node_at_Cons)
  qed
next
  fix l' y assume l': "node_at ((l, n) # t) l' \<noteq> None" "l_root l'" "y \<in> set (l_elems l')"
  show "plain_name y"
  proof (cases "l' = l")
    case True
    have "set (l_elems l) = insert (last (l_elems l)) (set (l_elems (parent l)))"
      using l by (metis append_butlast_last_id insert_is_Un list.simps(15) parent_def rotate1.simps(2) set_rotate1 loc.sel(2))
    then show ?thesis using True l' x tree_ok_plain [OF ok p] by (auto simp: parent_def)
  next
    case False
    then show ?thesis using l' l tree_ok_plain [OF ok _ l'(2,3)] by (auto simp: node_at_Cons)
  qed
qed

lemma tree_ok_dirs:
  assumes ok: "tree_ok t" and x: "\<And>x. l_root l \<Longrightarrow> x \<in> set (l_elems l) \<Longrightarrow> plain_name x"
  shows "tree_ok (dirs_to l @ t)"
proof (rule tree_okI)
  fix l' a assume l': "node_at (dirs_to l @ t) l' \<noteq> None" "below a l'" "a \<noteq> l'"
  then show "node_at (dirs_to l @ t) a = Some FDir"
    using below_trans [OF l'(2), of l] tree_ok_above [OF ok _ l'(2,3)] by (auto simp: node_at_dirs_to split: if_splits)
next
  fix l' y assume l': "node_at (dirs_to l @ t) l' \<noteq> None" "l_root l'" "y \<in> set (l_elems l')"
  show "plain_name y"
  proof (cases "below l' l")
    case True
    then show ?thesis using l' x set_mono_prefix [of "l_elems l'" "l_elems l"] by (auto simp: below_def)
  next
    case False
    then show ?thesis using l' tree_ok_plain [OF ok _ l'(2,3)] by (auto simp: node_at_dirs_to)
  qed
qed

text \<open>Nothing is below a file.\<close>

lemma drop_file:
  assumes "tree_ok t" and "node_at t l = Some (FFile d)"
  shows "node_at (drop_tree l t) l' = (if l' = l then None else node_at t l')"
proof (cases "below l l' \<and> l' \<noteq> l")
  case True
  then have "node_at t l' = None"
    using tree_ok_above [OF assms(1), of l' _ l] assms(2) by (cases "node_at t l'") auto
  then show ?thesis using True by (simp add: node_at_drop)
next
  case False
  moreover have "l_elems l \<noteq> []" using assms(2) by (auto simp: node_at_def)
  ultimately show ?thesis by (auto simp: node_at_drop)
qed

lemma node_at_fresh: "tree_ok t \<Longrightarrow> node_at t l = None \<Longrightarrow> below l l' \<Longrightarrow> node_at t l' = None"
  by (metis option.exhaust option.distinct(1) tree_ok_above)

lemma MkdirAll_ok:
  assumes ok: "tree_ok t" and "tree_MkdirAll deny p t = (Inr u, t')"
  shows "node_at t' l = (if below l (loc_of p) then Some FDir else node_at t l)" and "tree_ok t'"
proof -
  have "t' = dirs_to (loc_of p) @ t \<or> t' = t \<and> node_at t (loc_of p) = Some FDir"
    using assms(2) by (auto simp: tree_MkdirAll_def Let_def split: if_splits option.splits fnode.splits)
  then have "node_at t' l = (if below l (loc_of p) then Some FDir else node_at t l) \<and> tree_ok t'"
  proof
    assume "t' = dirs_to (loc_of p) @ t"
    then show ?thesis using tree_ok_dirs [OF ok plain_elems] by (simp add: node_at_dirs_to)
  next
    assume "t' = t \<and> node_at t (loc_of p) = Some FDir"
    then show ?thesis using ok tree_ok_above [OF ok, of "loc_of p" _ l] by (cases "l = loc_of p") simp_all
  qed
  then show "node_at t' l = (if below l (loc_of p) then Some FDir else node_at t l)" and "tree_ok t'" by simp_all
qed

lemma Rename_ok:
  assumes ok: "tree_ok t" and r: "tree_Rename deny p q t = (Inr u, t')" and q: "l_root (loc_of q) \<Longrightarrow> plain_name (last (l_elems (loc_of q)))"
  shows "\<exists>d. node_at t (loc_of p) = Some (FFile d) \<and> node_at t (parent (loc_of q)) = Some FDir \<and> tree_ok t' \<and>
    (\<forall>l. node_at t' l = (if l = loc_of q then Some (FFile d) else if l = loc_of p then None else node_at t l))"
proof -
  from r obtain d t1 where d: "node_at t (loc_of p) = Some (FFile d)" and f: "put_file (loc_of q) d t = (Inr (), t1)"
      and t': "t' = (loc_of q, FFile d) # drop_tree (loc_of p) t"
    by (auto simp: tree_Rename_def lookup_node_def split: if_splits sum.splits option.splits fnode.splits prod.splits)
  have par: "node_at t (parent (loc_of q)) = Some FDir" and nd: "node_at t (loc_of q) \<noteq> Some FDir" using put_file_ok [OF f] by blast+
  have ne: "l_elems (loc_of q) \<noteq> []" using nd by (rule put_file_nonempty)
  have node: "node_at t' l = (if l = loc_of q then Some (FFile d) else if l = loc_of p then None else node_at t l)" for l
    using drop_file [OF ok d, of l] ne by (simp add: t' node_at_Cons)
  have "node_at (drop_tree (loc_of p) t) (parent (loc_of q)) = Some FDir" "node_at (drop_tree (loc_of p) t) (loc_of q) \<noteq> Some FDir"
    using drop_file [OF ok d] par nd d by auto
  then have "tree_ok t'" unfolding t' using ne q by (intro tree_ok_add tree_ok_drop ok) auto
  then show ?thesis using d par node by blast
qed

lemma WriteFile_ok:
  assumes ok: "tree_ok t" and w: "tree_WriteFile deny p d t = (Inr u, t')" and x: "l_root (loc_of p) \<Longrightarrow> plain_name (last (l_elems (loc_of p)))"
  shows "node_at t' l = (if l = loc_of p then Some (FFile d) else node_at t l)" and "tree_ok t'"
    and "node_at t (parent (loc_of p)) = Some FDir"
proof -
  have f: "put_file (loc_of p) d t = (Inr u, t')" using w by (simp add: tree_WriteFile_def split: if_splits)
  have t': "t' = (loc_of p, FFile d) # t" and par: "node_at t (parent (loc_of p)) = Some FDir"
      and nd: "node_at t (loc_of p) \<noteq> Some FDir" using put_file_ok [OF f] by blast+
  have ne: "l_elems (loc_of p) \<noteq> []" using nd by (rule put_file_nonempty)
  show "node_at t' l = (if l = loc_of p then Some (FFile d) else node_at t l)" using ne by (simp add: t' node_at_Cons)
  show "tree_ok t'" unfolding t' using ok par nd ne x by (intro tree_ok_add) auto
  show "node_at t (parent (loc_of p)) = Some FDir" by (fact par)
qed

text \<open>A failed operation changes nothing.\<close>

lemma tree_fail:
  "tree_MkdirAll deny p t = (Inl e, t') \<Longrightarrow> t' = t"
  "tree_Rename deny p q t = (Inl e, t') \<Longrightarrow> t' = t"
  "tree_WriteFile deny p d t = (Inl e, t') \<Longrightarrow> t' = t"
  by (auto simp: tree_MkdirAll_def tree_Rename_def tree_WriteFile_def put_file_def Let_def
      split: if_splits option.splits fnode.splits sum.splits prod.splits)

lemma RemoveAll_node:
  "node_at (snd (tree_RemoveAll deny p t)) l = node_at t l \<or>
   below (loc_of p) l \<and> node_at (snd (tree_RemoveAll deny p t)) l = None"
  by (auto simp: tree_RemoveAll_def node_at_drop)

lemma tree_ok_RemoveAll: "tree_ok t \<Longrightarrow> tree_ok (snd (tree_RemoveAll deny p t))"
  by (simp add: tree_RemoveAll_def tree_ok_drop)

text \<open>When the operations succeed.\<close>

lemma MkdirAll_works:
  assumes "tree_ok t" and "node_at t (parent (loc_of p)) = Some FDir" and "node_at t (loc_of p) = None" and "\<not> deny OpMkdir (loc_of p)"
  shows "\<exists>t'. tree_MkdirAll deny p t = (Inr (), t')"
proof -
  have "node_at t a \<noteq> Some (FFile d)" if "below a (loc_of p)" "a \<noteq> loc_of p" for a d
    using tree_ok_above [OF assms(1,2), of a] below_cases [OF that] assms(2) by (cases "a = parent (loc_of p)") auto
  then have "\<not> blocked t (loc_of p)" by (auto simp: blocked_below)
  then show ?thesis using assms(3,4) by (simp add: tree_MkdirAll_def)
qed

lemma Rename_works:
  assumes "node_at t (loc_of p) = Some (FFile d)" and "node_at t (parent (loc_of q)) = Some FDir" and "node_at t (loc_of q) \<noteq> Some FDir"
    and "\<not> deny OpRename (loc_of p)"
  shows "\<exists>t'. tree_Rename deny p q t = (Inr (), t')"
  using assms by (simp add: tree_Rename_def put_file_def lookup_node_def)

lemma WriteFile_works:
  assumes "node_at t (parent (loc_of p)) = Some FDir" and "node_at t (loc_of p) \<noteq> Some FDir" and "\<not> deny OpWrite (loc_of p)"
  shows "\<exists>t'. tree_WriteFile deny p d t = (Inr (), t')"
  using assms by (simp add: tree_WriteFile_def put_file_def lookup_node_def)

end
