(* ===== verification/Vm_Snapshot.thy ===== *)
theory Vm_Snapshot
  imports Go_Tree Swarm_Translator "HOL-Library.Multiset"
begin

text \<open>
  The snapshot manager of \<open>pkg/snapshot/snapshot.go\<close>: snapshots of VMs are directories with a state
  file, a memory file and a metadata document. The file system is a tree; the answers of Firecracker,
  the contents it writes, the clock and the algorithm of \<open>sort.Slice\<close> are arguments. Times are numbers,
  zero the zero time.
\<close>

subsection \<open>Data\<close>

record snapshot_info =
  si_ID :: string
  si_TaskID :: string
  si_ServiceID :: string
  si_NodeID :: string
  si_CreatedAt :: int
  si_MemoryPath :: string
  si_StatePath :: string
  si_SizeBytes :: int
  si_VCPUCount :: int
  si_MemoryMB :: int
  si_RootfsPath :: string
  si_Checksum :: string
  si_Metadata :: "string \<rightharpoonup> string"

record snapshot_filter =
  sf_TaskID :: string
  sf_ServiceID :: string
  sf_NodeID :: string
  sf_Since :: int
  sf_Before :: int

record snapshot_config =
  sc_Enabled :: bool
  sc_SnapshotDir :: string
  sc_MaxSnapshots :: int
  sc_MaxAge :: int
  sc_AutoSnapshot :: bool
  sc_Compress :: bool

definition DefaultSnapshotConfig :: snapshot_config where
  "DefaultSnapshotConfig = \<lparr>sc_Enabled = False, sc_SnapshotDir = ''/var/lib/firecracker/snapshots'',
     sc_MaxSnapshots = 3, sc_MaxAge = 168 * 3600 * 1000000000, sc_AutoSnapshot = False, sc_Compress = False\<rparr>"

definition snapshot_SetDefaults :: "snapshot_config \<Rightarrow> snapshot_config" where
  "snapshot_SetDefaults c = c\<lparr>
     sc_SnapshotDir := if sc_SnapshotDir c = [] then ''/var/lib/firecracker/snapshots'' else sc_SnapshotDir c,
     sc_MaxSnapshots := if sc_MaxSnapshots c = 0 then 3 else sc_MaxSnapshots c,
     sc_MaxAge := if sc_MaxAge c = 0 then 168 * 3600 * 1000000000 else sc_MaxAge c\<rparr>"

record snapshot_options =
  so_ServiceID :: string
  so_NodeID :: string
  so_VCPUCount :: int
  so_MemoryMB :: int
  so_RootfsPath :: string
  so_Metadata :: "string \<rightharpoonup> string"

record snapshot_manager =
  sg_config :: snapshot_config
  sg_restored :: "string \<rightharpoonup> int"

text \<open>The contents of a file: bytes, or a metadata document.\<close>

datatype snap_data = Raw string | MetaDoc snapshot_info

datatype snap_error =
    SnapshotDirFailed
  | SocketPathRequired
  | SnapSocketNotFound
  | StagingFailed
  | PauseFailed
  | ApiFailed string
  | MoveFailed
  | StatFailed
  | ChecksumFailed
  | SaveMetadataFailed
  | ReadDirFailed
  | SnapshotNotFound
  | DeleteFailed
  | InfoRequired
  | StateFileNotFound
  | MemoryFileNotFound
  | ChecksumMismatch
  | BinaryNotFound
  | RestoreStartFailed
  | RestoreNotReady
  | ProcessKillFailed

text \<open>
  What the host answers: failures of the file system, the order of \<open>sort.Slice\<close>, the suffix of the
  temporary directory, the verdict of the API on a request, the state and memory files that
  Firecracker has written when it answers, the readings of the clock, and the start of a process.
\<close>

record snap_env =
  sx_deny :: denials
  sx_sort :: "snapshot_info list \<Rightarrow> snapshot_info list"
  sx_temp :: string
  sx_api :: "string \<Rightarrow> string \<Rightarrow> json \<Rightarrow> bool"
  sx_state :: "string option"
  sx_mem :: "string option"
  sx_json :: "snapshot_info \<Rightarrow> string"
  sx_nano :: int
  sx_now :: int
  sx_binary :: bool
  sx_spawn :: "int option"
  sx_ready :: bool
  sx_kill :: "int \<Rightarrow> bool"

record snap_world =
  sw_tree :: "snap_data tree"
  sw_requests :: "(string \<times> string \<times> string \<times> json) list"
  sw_alive :: "int list"

subsection \<open>Metadata and helpers\<close>

definition file_bytes :: "snap_env \<Rightarrow> snap_data \<Rightarrow> string" where
  "file_bytes env d = (case d of Raw s \<Rightarrow> s | MetaDoc i \<Rightarrow> sx_json env i)"

definition sha256File :: "snap_env \<Rightarrow> string \<Rightarrow> snap_data tree \<Rightarrow> (tree_error, string) res" where
  "sha256File env p t =
     (case tree_ReadFile (sx_deny env) p t of
        Inl e \<Rightarrow> Inl e
      | Inr d \<Rightarrow> Inr (hex_encode (Sum256 (string_bytes (file_bytes env d)))))"

text \<open>\<open>fileSize\<close>; the size that \<open>Stat\<close> gives for a directory does not occur, since the files are renamed.\<close>

definition fileSize :: "snap_env \<Rightarrow> string \<Rightarrow> snap_data tree \<Rightarrow> (tree_error, int) res" where
  "fileSize env p t =
     (case tree_Stat (sx_deny env) p t of
        Inl e \<Rightarrow> Inl e
      | Inr FDir \<Rightarrow> Inr 0
      | Inr (FFile d) \<Rightarrow> Inr (int (length (file_bytes env d))))"

definition generateSnapshotID :: "int \<Rightarrow> string \<Rightarrow> string" where
  "generateSnapshotID nano taskID =
     ''snap-'' @ take 16 (hex_encode (Sum256 (string_bytes (taskID @ ''-'' @ dec_of_int nano))))"

definition metadataFile :: string where
  "metadataFile = ''metadata.json''"

definition saveMetadata :: "snap_env \<Rightarrow> string \<Rightarrow> snapshot_info \<Rightarrow> snap_data tree \<Rightarrow> (tree_error, unit) res \<times> snap_data tree" where
  "saveMetadata env dir info t = tree_WriteFile (sx_deny env) (path_Join [dir, metadataFile]) (MetaDoc info) t"

definition resolve_paths :: "string \<Rightarrow> snapshot_info \<Rightarrow> snapshot_info" where
  "resolve_paths dir i = i\<lparr>
     si_MemoryPath := if path_IsAbs (si_MemoryPath i) then si_MemoryPath i else path_Join [dir, ''vm.mem''],
     si_StatePath := if path_IsAbs (si_StatePath i) then si_StatePath i else path_Join [dir, ''vm.state'']\<rparr>"

definition loadMetadata :: "snap_env \<Rightarrow> string \<Rightarrow> snap_data tree \<Rightarrow> snapshot_info option" where
  "loadMetadata env dir t =
     (case tree_ReadFile (sx_deny env) (path_Join [dir, metadataFile]) t of
        Inr (MetaDoc i) \<Rightarrow> Some (resolve_paths dir i)
      | _ \<Rightarrow> None)"

definition matchesFilter :: "snapshot_filter \<Rightarrow> snapshot_info \<Rightarrow> bool" where
  "matchesFilter f i \<longleftrightarrow>
     \<not> (sf_TaskID f \<noteq> [] \<and> si_TaskID i \<noteq> sf_TaskID f) \<and>
     \<not> (sf_ServiceID f \<noteq> [] \<and> si_ServiceID i \<noteq> sf_ServiceID f) \<and>
     \<not> (sf_NodeID f \<noteq> [] \<and> si_NodeID i \<noteq> sf_NodeID f) \<and>
     \<not> (sf_Since f \<noteq> 0 \<and> si_CreatedAt i < sf_Since f) \<and>
     \<not> (sf_Before f \<noteq> 0 \<and> sf_Before f < si_CreatedAt i)"

definition no_filter :: snapshot_filter where
  "no_filter = \<lparr>sf_TaskID = [], sf_ServiceID = [], sf_NodeID = [], sf_Since = 0, sf_Before = 0\<rparr>"

subsection \<open>Listing and deleting\<close>

definition snapshots_in :: "snap_env \<Rightarrow> string \<Rightarrow> snapshot_filter \<Rightarrow> snap_data tree \<Rightarrow> (string \<times> bool) list \<Rightarrow> snapshot_info list" where
  "snapshots_in env dir f t es =
     filter (matchesFilter f) (List.map_filter (\<lambda>(x, isdir). if isdir then loadMetadata env (path_Join [dir, x]) t else None) es)"

definition listSnapshotsUnlocked ::
    "snapshot_manager \<Rightarrow> snap_env \<Rightarrow> snapshot_filter \<Rightarrow> snap_data tree \<Rightarrow> (snap_error, snapshot_info list) res" where
  "listSnapshotsUnlocked m env f t =
     (let dir = sc_SnapshotDir (sg_config m)
      in case tree_ReadDir (sx_deny env) dir t of
           Inl NotExist \<Rightarrow> Inr []
         | Inl OtherError \<Rightarrow> Inl ReadDirFailed
         | Inr es \<Rightarrow> Inr (sx_sort env (snapshots_in env dir f t es)))"

definition ListSnapshots ::
    "snapshot_manager \<Rightarrow> snap_env \<Rightarrow> snapshot_filter \<Rightarrow> snap_world \<Rightarrow> (snap_error, snapshot_info list) res" where
  "ListSnapshots m env f w = listSnapshotsUnlocked m env f (sw_tree w)"

definition DeleteSnapshot :: "snapshot_manager \<Rightarrow> snap_env \<Rightarrow> string \<Rightarrow> snap_world \<Rightarrow> (snap_error, unit) res \<times> snap_world" where
  "DeleteSnapshot m env i w =
     (let dir = path_Join [sc_SnapshotDir (sg_config m), i]
      in if tree_Stat (sx_deny env) dir (sw_tree w) = Inl NotExist then (Inl SnapshotNotFound, w)
         else case tree_RemoveAll (sx_deny env) dir (sw_tree w) of
                (Inl _, t) \<Rightarrow> (Inl DeleteFailed, w\<lparr>sw_tree := t\<rparr>)
              | (Inr _, t) \<Rightarrow> (Inr (), w\<lparr>sw_tree := t\<rparr>))"

fun cleanup_loop :: "snapshot_manager \<Rightarrow> snap_env \<Rightarrow> int \<Rightarrow> snapshot_info list \<Rightarrow> nat \<times> int \<Rightarrow> snap_world \<Rightarrow> (nat \<times> int) \<times> snap_world" where
  "cleanup_loop m env cutoff [] (n, freed) w = ((n, freed), w)"
| "cleanup_loop m env cutoff (s # ss) (n, freed) w =
     (if si_CreatedAt s < cutoff then
        (case DeleteSnapshot m env (si_ID s) w of
           (Inl _, w1) \<Rightarrow> cleanup_loop m env cutoff ss (n, freed) w1
         | (Inr _, w1) \<Rightarrow> cleanup_loop m env cutoff ss (Suc n, freed + si_SizeBytes s) w1)
      else cleanup_loop m env cutoff ss (n, freed) w)"

definition CleanupOldSnapshots ::
    "snapshot_manager \<Rightarrow> snap_env \<Rightarrow> int \<Rightarrow> snap_world \<Rightarrow> (snap_error, nat \<times> int) res \<times> snap_world" where
  "CleanupOldSnapshots m env maxAge w =
     (let age = (if maxAge \<le> 0 then sc_MaxAge (sg_config m) else maxAge)
      in if age \<le> 0 then (Inr (0, 0), w)
         else case ListSnapshots m env no_filter w of
                Inl e \<Rightarrow> (Inl e, w)
              | Inr ss \<Rightarrow> map_prod Inr id (cleanup_loop m env (sx_now env - age) ss (0, 0) w))"

text \<open>\<open>enforceMaxSnapshots\<close>: the loop runs from the end of the list, which is sorted newest first.\<close>

definition remove_snapshot :: "snapshot_manager \<Rightarrow> snap_env \<Rightarrow> snapshot_info \<Rightarrow> snap_data tree \<Rightarrow> snap_data tree" where
  "remove_snapshot m env s t = snd (tree_RemoveAll (sx_deny env) (path_Join [sc_SnapshotDir (sg_config m), si_ID s]) t)"

definition enforceMaxSnapshots :: "snapshot_manager \<Rightarrow> snap_env \<Rightarrow> string \<Rightarrow> snap_data tree \<Rightarrow> snap_data tree" where
  "enforceMaxSnapshots m env serviceID t =
     (case listSnapshotsUnlocked m env (no_filter\<lparr>sf_ServiceID := serviceID\<rparr>) t of
        Inl _ \<Rightarrow> t
      | Inr ss \<Rightarrow>
          let k = sc_MaxSnapshots (sg_config m)
          in if k \<le> 0 \<or> int (length ss) \<le> k then t
             else fold (remove_snapshot m env) (rev (drop (nat k) ss)) t)"

subsection \<open>The Firecracker API\<close>

text \<open>
  A request that is recorded was attempted; one that failed may not have reached Firecracker, because there was no
  connection or its context was over.
\<close>

definition call_api :: "snap_env \<Rightarrow> string \<Rightarrow> string \<Rightarrow> string \<Rightarrow> json \<Rightarrow> snap_world \<Rightarrow> (snap_error, unit) res \<times> snap_world" where
  "call_api env sock meth path body w =
     ((if sx_api env meth path body then Inr () else Inl (ApiFailed path)),
      w\<lparr>sw_requests := sw_requests w @ [(sock, meth, path, body)]\<rparr>)"

definition putFirecrackerAPI :: "snap_env \<Rightarrow> string \<Rightarrow> string \<Rightarrow> json \<Rightarrow> snap_world \<Rightarrow> (snap_error, unit) res \<times> snap_world" where
  "putFirecrackerAPI env sock = call_api env sock ''PUT''"

definition patchFirecrackerAPI :: "snap_env \<Rightarrow> string \<Rightarrow> string \<Rightarrow> json \<Rightarrow> snap_world \<Rightarrow> (snap_error, unit) res \<times> snap_world" where
  "patchFirecrackerAPI env sock = call_api env sock ''PATCH''"

definition pauseVM :: "snap_env \<Rightarrow> string \<Rightarrow> snap_world \<Rightarrow> (snap_error, unit) res \<times> snap_world" where
  "pauseVM env sock = patchFirecrackerAPI env sock ''/vm'' (JObj [(''state'', JStr ''Paused'')])"

definition resumeVM :: "snap_env \<Rightarrow> string \<Rightarrow> snap_world \<Rightarrow> (snap_error, unit) res \<times> snap_world" where
  "resumeVM env sock = patchFirecrackerAPI env sock ''/vm'' (JObj [(''state'', JStr ''Resumed'')])"

text \<open>The files Firecracker has written when it answers the request.\<close>

definition dump_file :: "string \<Rightarrow> string option \<Rightarrow> snap_data tree \<Rightarrow> snap_data tree" where
  "dump_file p c t = (case c of None \<Rightarrow> t | Some s \<Rightarrow> (loc_of p, FFile (Raw s)) # t)"

definition callSnapshotCreate ::
    "snap_env \<Rightarrow> string \<Rightarrow> string \<Rightarrow> string \<Rightarrow> snap_world \<Rightarrow> (snap_error, unit) res \<times> snap_world" where
  "callSnapshotCreate env sock statePath memoryPath w =
     (case pauseVM env sock w of
        (Inl _, w1) \<Rightarrow> (Inl PauseFailed, w1)
      | (Inr _, w1) \<Rightarrow>
          (case putFirecrackerAPI env sock ''/snapshot/create''
                  (JObj [(''mem_file_path'', JStr memoryPath), (''snapshot_path'', JStr statePath), (''snapshot_type'', JStr ''Full'')]) w1 of
             (r, w2) \<Rightarrow>
               let w3 = w2\<lparr>sw_tree := dump_file memoryPath (sx_mem env) (dump_file statePath (sx_state env) (sw_tree w2))\<rparr>
               in (r, snd (resumeVM env sock w3))))"

definition callSnapshotLoad :: "snap_env \<Rightarrow> string \<Rightarrow> string \<Rightarrow> string \<Rightarrow> snap_world \<Rightarrow> (snap_error, unit) res \<times> snap_world" where
  "callSnapshotLoad env sock statePath memoryPath =
     putFirecrackerAPI env sock ''/snapshot/load''
       (JObj [(''mem_file_path'', JStr memoryPath), (''resume_vm'', JBool True), (''snapshot_path'', JStr statePath)])"

definition callInstanceStart :: "snap_env \<Rightarrow> string \<Rightarrow> snap_world \<Rightarrow> (snap_error, unit) res \<times> snap_world" where
  "callInstanceStart env sock = putFirecrackerAPI env sock ''/actions'' (JObj [(''action_type'', JStr ''InstanceStart'')])"

subsection \<open>Creating a snapshot\<close>

text \<open>The errors after which the directory of the snapshot is removed.\<close>

definition abandon :: "snap_env \<Rightarrow> string \<Rightarrow> snap_error \<Rightarrow> snap_data tree \<Rightarrow> (snap_error, 'a) res \<times> snap_data tree" where
  "abandon env dir e t = (Inl e, snd (tree_RemoveAll (sx_deny env) dir t))"

definition move_files ::
    "snap_env \<Rightarrow> string \<Rightarrow> string \<Rightarrow> snap_data tree \<Rightarrow> (snap_error, string \<times> string) res \<times> snap_data tree" where
  "move_files env staging dir t =
     (let st = path_Join [dir, ''vm.state'']; mem = path_Join [dir, ''vm.mem'']
      in case tree_Rename (sx_deny env) (path_Join [staging, ''vm.state'']) st t of
           (Inl _, t1) \<Rightarrow> abandon env dir MoveFailed t1
         | (Inr _, t1) \<Rightarrow>
             (case tree_Rename (sx_deny env) (path_Join [staging, ''vm.mem'']) mem t1 of
                (Inl _, t2) \<Rightarrow> abandon env dir MoveFailed t2
              | (Inr _, t2) \<Rightarrow> (Inr (st, mem), t2)))"

definition describe_files ::
    "snap_env \<Rightarrow> string \<Rightarrow> string \<times> string \<Rightarrow> snap_data tree \<Rightarrow> (snap_error, int \<times> string) res" where
  "describe_files env dir p t =
     (case fileSize env (fst p) t of
        Inl _ \<Rightarrow> Inl StatFailed
      | Inr n \<Rightarrow>
          (case fileSize env (snd p) t of
             Inl _ \<Rightarrow> Inl StatFailed
           | Inr n' \<Rightarrow>
               (case sha256File env (fst p) t of
                  Inl _ \<Rightarrow> Inl ChecksumFailed
                | Inr c \<Rightarrow> Inr (n + n', c))))"

definition commit_snapshot ::
    "snapshot_manager \<Rightarrow> snap_env \<Rightarrow> string \<Rightarrow> snapshot_options \<Rightarrow> string \<Rightarrow> snap_data tree \<Rightarrow>
       (snap_error, snapshot_info) res \<times> snap_data tree" where
  "commit_snapshot m env taskID opts staging t =
     (let i = generateSnapshotID (sx_nano env) taskID; dir = path_Join [sc_SnapshotDir (sg_config m), i]
      in case tree_MkdirAll (sx_deny env) dir t of
           (Inl _, t1) \<Rightarrow> (Inl SnapshotDirFailed, t1)
         | (Inr _, t1) \<Rightarrow>
             (case move_files env staging dir t1 of
                (Inl e, t2) \<Rightarrow> (Inl e, t2)
              | (Inr (st, mem), t2) \<Rightarrow>
                  (case describe_files env dir (st, mem) t2 of
                     Inl e \<Rightarrow> abandon env dir e t2
                   | Inr (n, c) \<Rightarrow>
                       let info = \<lparr>si_ID = i, si_TaskID = taskID, si_ServiceID = so_ServiceID opts,
                             si_NodeID = so_NodeID opts, si_CreatedAt = sx_now env, si_MemoryPath = mem,
                             si_StatePath = st, si_SizeBytes = n, si_VCPUCount = so_VCPUCount opts,
                             si_MemoryMB = so_MemoryMB opts, si_RootfsPath = so_RootfsPath opts,
                             si_Checksum = c, si_Metadata = so_Metadata opts\<rparr>
                       in case saveMetadata env dir info t2 of
                            (Inl _, t3) \<Rightarrow> abandon env dir SaveMetadataFailed t3
                          | (Inr _, t3) \<Rightarrow>
                              (Inr info,
                               if 0 < sc_MaxSnapshots (sg_config m) \<and> si_ServiceID info \<noteq> []
                               then enforceMaxSnapshots m env (si_ServiceID info) t3 else t3))))"

text \<open>\<open>os.MkdirTemp\<close>: the directory must not exist yet, and its parent must.\<close>

definition make_staging :: "snap_env \<Rightarrow> string \<Rightarrow> snap_data tree \<Rightarrow> (tree_error, string) res \<times> snap_data tree" where
  "make_staging env dir t =
     (let p = path_Join [dir, ''snapshot-staging-'' @ sx_temp env]
      in if sx_deny env OpMkdir (loc_of p) \<or> node_at t (loc_of p) \<noteq> None \<or> node_at t (loc_of dir) \<noteq> Some FDir
         then (Inl OtherError, t)
         else (Inr p, (loc_of p, FDir) # t))"

definition CreateSnapshot ::
    "snapshot_manager \<Rightarrow> snap_env \<Rightarrow> string \<Rightarrow> string \<Rightarrow> snapshot_options \<Rightarrow> snap_world \<Rightarrow>
       (snap_error, snapshot_info) res \<times> snap_world" where
  "CreateSnapshot m env taskID sock opts w =
     (if sock = [] then (Inl SocketPathRequired, w)
      else if tree_Stat (sx_deny env) sock (sw_tree w) = Inl NotExist then (Inl SnapSocketNotFound, w)
      else case make_staging env (sc_SnapshotDir (sg_config m)) (sw_tree w) of
             (Inl _, t) \<Rightarrow> (Inl StagingFailed, w\<lparr>sw_tree := t\<rparr>)
           | (Inr staging, t) \<Rightarrow>
               (case callSnapshotCreate env sock (path_Join [staging, ''vm.state'']) (path_Join [staging, ''vm.mem'']) (w\<lparr>sw_tree := t\<rparr>) of
                  (Inl e, w1) \<Rightarrow> (Inl e, w1\<lparr>sw_tree := snd (tree_RemoveAll (sx_deny env) staging (sw_tree w1))\<rparr>)
                | (Inr _, w1) \<Rightarrow>
                    (case commit_snapshot m env taskID opts staging (sw_tree w1) of
                       (r, t2) \<Rightarrow> (r, w1\<lparr>sw_tree := snd (tree_RemoveAll (sx_deny env) staging t2)\<rparr>))))"

subsection \<open>Restoring a snapshot\<close>

definition NewManager :: "snapshot_config \<Rightarrow> denials \<Rightarrow> snap_data tree \<Rightarrow> (snap_error, snapshot_manager) res \<times> snap_data tree" where
  "NewManager cfg deny t =
     (let cfg' = (if sc_SnapshotDir cfg = [] then cfg\<lparr>sc_SnapshotDir := sc_SnapshotDir DefaultSnapshotConfig\<rparr> else cfg)
      in case tree_MkdirAll deny (sc_SnapshotDir cfg') t of
           (Inl _, t1) \<Rightarrow> (Inl SnapshotDirFailed, t1)
         | (Inr _, t1) \<Rightarrow> (Inr \<lparr>sg_config = cfg', sg_restored = Map.empty\<rparr>, t1))"

definition TrackRestoredProcess :: "string \<Rightarrow> int \<Rightarrow> snapshot_manager \<Rightarrow> snapshot_manager" where
  "TrackRestoredProcess i pid m = m\<lparr>sg_restored := (sg_restored m)(i \<mapsto> pid)\<rparr>"

definition kill_process :: "snap_env \<Rightarrow> int \<Rightarrow> snap_world \<Rightarrow> (snap_error, unit) res \<times> snap_world" where
  "kill_process env pid w =
     (if sx_kill env pid then (Inr (), w\<lparr>sw_alive := removeAll pid (sw_alive w)\<rparr>) else (Inl ProcessKillFailed, w))"

definition StopRestoredProcess ::
    "snap_env \<Rightarrow> string \<Rightarrow> snapshot_manager \<Rightarrow> snap_world \<Rightarrow> (snap_error, unit) res \<times> snapshot_manager \<times> snap_world" where
  "StopRestoredProcess env i m w =
     (case sg_restored m i of
        None \<Rightarrow> (Inr (), m, w)
      | Some pid \<Rightarrow>
          (case kill_process env pid w of (r, w1) \<Rightarrow> (r, m\<lparr>sg_restored := (sg_restored m)(i := None)\<rparr>, w1)))"

definition check_snapshot :: "snap_env \<Rightarrow> snapshot_info \<Rightarrow> snap_data tree \<Rightarrow> (snap_error, unit) res" where
  "check_snapshot env info t =
     (if tree_Stat (sx_deny env) (si_StatePath info) t = Inl NotExist then Inl StateFileNotFound
      else if tree_Stat (sx_deny env) (si_MemoryPath info) t = Inl NotExist then Inl MemoryFileNotFound
      else if si_Checksum info = [] then Inr ()
      else case sha256File env (si_StatePath info) t of
             Inl _ \<Rightarrow> Inl ChecksumFailed
           | Inr c \<Rightarrow> if c \<noteq> si_Checksum info then Inl ChecksumMismatch else Inr ())"

definition undo_restore :: "snap_env \<Rightarrow> int \<Rightarrow> string \<Rightarrow> snap_world \<Rightarrow> snap_world" where
  "undo_restore env pid sock w =
     (let w1 = snd (kill_process env pid w) in w1\<lparr>sw_tree := snd (tree_Remove (sx_deny env) sock (sw_tree w1))\<rparr>)"

definition RestoreFromSnapshot ::
    "snap_env \<Rightarrow> snapshot_info option \<Rightarrow> string \<Rightarrow> snapshot_manager \<Rightarrow> snap_world \<Rightarrow>
       (snap_error, unit) res \<times> snapshot_manager \<times> snap_world" where
  "RestoreFromSnapshot env oi sock m w =
     (case oi of
        None \<Rightarrow> (Inl InfoRequired, m, w)
      | Some info \<Rightarrow>
          (case check_snapshot env info (sw_tree w) of
             Inl e \<Rightarrow> (Inl e, m, w)
           | Inr _ \<Rightarrow>
               let w1 = w\<lparr>sw_tree := snd (tree_Remove (sx_deny env) sock (sw_tree w))\<rparr>
               in if \<not> sx_binary env then (Inl BinaryNotFound, m, w1)
                  else case sx_spawn env of
                         None \<Rightarrow> (Inl RestoreStartFailed, m, w1)
                       | Some pid \<Rightarrow>
                           let m1 = TrackRestoredProcess (si_TaskID info) pid m;
                               w2 = w1\<lparr>sw_alive := pid # sw_alive w1\<rparr>
                           in if \<not> sx_ready env then (Inl RestoreNotReady, m1, undo_restore env pid sock w2)
                              else case callSnapshotLoad env sock (si_StatePath info) (si_MemoryPath info) w2 of
                                     (Inl e, w3) \<Rightarrow> (Inl e, m1, undo_restore env pid sock w3)
                                   | (Inr _, w3) \<Rightarrow>
                                       (case callInstanceStart env sock w3 of
                                          (Inl e, w4) \<Rightarrow> (Inl e, m1, undo_restore env pid sock w4)
                                        | (Inr _, w4) \<Rightarrow> (Inr (), m1, w4))))"

end
