(* ===== verification/Vm_Snapshot_Correct.thy ===== *)
theory Vm_Snapshot_Correct
  imports Vm_Snapshot
begin

text \<open>
  What the snapshot manager keeps: the snapshots of a tree as a map from identifiers, and what creating,
  deleting, retention, cleaning up and restoring do to it.
\<close>

subsection \<open>The snapshots of a tree\<close>

abbreviation snap_dir :: "snapshot_manager \<Rightarrow> string" where
  "snap_dir m \<equiv> sc_SnapshotDir (sg_config m)"

definition snap_loc :: "snapshot_manager \<Rightarrow> string \<Rightarrow> loc" where
  "snap_loc m x = child (loc_of (snap_dir m)) x"

definition stored :: "snapshot_manager \<Rightarrow> snap_data tree \<Rightarrow> string \<Rightarrow> snapshot_info option" where
  "stored m t x =
     (case node_at t (child (snap_loc m x) metadataFile) of
        Some (FFile (MetaDoc i)) \<Rightarrow> Some (resolve_paths (path_Join [snap_dir m, x]) i)
      | _ \<Rightarrow> None)"

text \<open>
  The snapshot directory is an absolute path, it is a directory of a tree in order, and every snapshot
  lies in the directory with its identifier.
\<close>

definition store_ok :: "snapshot_manager \<Rightarrow> snap_data tree \<Rightarrow> bool" where
  "store_ok m t \<longleftrightarrow> tree_ok t \<and> path_IsAbs (snap_dir m) \<and> node_at t (loc_of (snap_dir m)) = Some FDir \<and>
     (\<forall>x i. stored m t x = Some i \<longrightarrow> si_ID i = x)"

definition reads_ok :: "snap_env \<Rightarrow> bool" where
  "reads_ok env \<longleftrightarrow> (\<forall>l. \<not> sx_deny env OpRead l \<and> \<not> sx_deny env OpReadDir l \<and> \<not> sx_deny env OpStat l)"

definition removes_ok :: "snap_env \<Rightarrow> bool" where
  "removes_ok env \<longleftrightarrow> (\<forall>l. \<not> sx_deny env OpRemove l)"

text \<open>What is documented of \<open>sort.Slice\<close>.\<close>

definition newest_first :: "(snapshot_info list \<Rightarrow> snapshot_info list) \<Rightarrow> bool" where
  "newest_first srt \<longleftrightarrow>
     (\<forall>xs. mset (srt xs) = mset xs \<and> sorted_wrt (\<lambda>a b. si_CreatedAt b \<le> si_CreatedAt a) (srt xs))"

lemma plain_metadata [simp]: "plain_name metadataFile" "plain_name ''vm.state''" "plain_name ''vm.mem''"
  by (simp_all add: plain_name_def metadataFile_def)

lemma file_names [simp]: "metadataFile \<noteq> ''vm.state''" "metadataFile \<noteq> ''vm.mem''" "''vm.state'' \<noteq> metadataFile" "''vm.mem'' \<noteq> metadataFile"
  by (simp_all add: metadataFile_def)

lemma loc_snap:
  assumes "snap_dir m \<noteq> []" and "plain_name x"
  shows "loc_of (path_Join [snap_dir m, x]) = snap_loc m x"
    and "plain_name y \<Longrightarrow> loc_of (path_Join [path_Join [snap_dir m, x], y]) = child (snap_loc m x) y"
  using assms by (simp_all add: snap_loc_def loc_child)

lemma stored_child: "tree_ok t \<Longrightarrow> stored m t x = Some i \<Longrightarrow> node_at t (snap_loc m x) = Some FDir"
  by (auto simp: stored_def intro!: tree_ok_above [of t "child (snap_loc m x) metadataFile"] split: option.splits fnode.splits)

lemma stored_plain: "store_ok m t \<Longrightarrow> stored m t x = Some i \<Longrightarrow> plain_name x"
  using stored_child [of t m x i] tree_ok_plain [of t "snap_loc m x" FDir x]
  by (auto simp: store_ok_def snap_loc_def fst_loc_abs)

lemma loaded_eq:
  assumes ok: "store_ok m t" and "reads_ok env" and x: "x \<in> set (children t (loc_of (snap_dir m)))"
  shows "(if node_at t (child (loc_of (snap_dir m)) x) = Some FDir then loadMetadata env (path_Join [snap_dir m, x]) t else None) = stored m t x"
proof -
  have "plain_name x" using ok tree_ok_children [OF _ _ x] by (simp add: store_ok_def fst_loc_abs)
  then have l: "loc_of (path_Join [path_Join [snap_dir m, x], metadataFile]) = child (snap_loc m x) metadataFile"
    using ok by (intro loc_snap(2)) (auto simp: store_ok_def abs_nonempty)
  have "loadMetadata env (path_Join [snap_dir m, x]) t = stored m t x"
    using assms(2) by (auto simp: loadMetadata_def tree_ReadFile_def l stored_def lookup_node_def reads_ok_def
        split: option.splits fnode.splits snap_data.splits)
  moreover have "node_at t (child (loc_of (snap_dir m)) x) = Some FDir" if "stored m t x = Some i" for i
    using stored_child [OF _ that] ok by (simp add: store_ok_def snap_loc_def)
  ultimately show ?thesis by (cases "stored m t x") simp_all
qed

definition snapshots :: "snapshot_manager \<Rightarrow> snap_data tree \<Rightarrow> snapshot_info list" where
  "snapshots m t = List.map_filter (stored m t) (children t (loc_of (snap_dir m)))"

lemma list_eq:
  assumes "store_ok m t" and "reads_ok env"
  shows "listSnapshotsUnlocked m env f t = Inr (sx_sort env (filter (matchesFilter f) (snapshots m t)))"
proof -
  let ?L = "loc_of (snap_dir m)"
  have "tree_ReadDir (sx_deny env) (snap_dir m) t = Inr (map (\<lambda>x. (x, node_at t (child ?L x) = Some FDir)) (children t ?L))"
    using assms by (simp add: tree_ReadDir_def Let_def reads_ok_def lookup_node_def store_ok_def)
  moreover have "List.map_filter (\<lambda>(x, isdir). if isdir then loadMetadata env (path_Join [snap_dir m, x]) t else None)
      (map (\<lambda>x. (x, node_at t (child ?L x) = Some FDir)) (children t ?L)) = snapshots m t"
    using loaded_eq [OF assms] unfolding snapshots_def
    by (auto simp: List.map_filter_def filter_map comp_def cong: filter_cong map_cong)
  ultimately show ?thesis by (simp add: listSnapshotsUnlocked_def Let_def snapshots_in_def)
qed

lemma set_snapshots:
  assumes ok: "store_ok m t"
  shows "i \<in> set (snapshots m t) \<longleftrightarrow> stored m t (si_ID i) = Some i"
proof -
  have "i \<in> set (snapshots m t) \<longleftrightarrow> (\<exists>x \<in> set (children t (loc_of (snap_dir m))). stored m t x = Some i)"
    by (force simp: snapshots_def List.map_filter_def)
  also have "\<dots> \<longleftrightarrow> (\<exists>x. stored m t x = Some i)"
    using ok stored_child [of t m] by (metis option.distinct(1) set_children snap_loc_def store_ok_def)
  also have "\<dots> \<longleftrightarrow> stored m t (si_ID i) = Some i" using ok unfolding store_ok_def by metis
  finally show ?thesis .
qed

lemma distinct_snapshots: "store_ok m t \<Longrightarrow> distinct (map si_ID (snapshots m t))"
proof -
  assume ok: "store_ok m t"
  have "map si_ID (List.map_filter (stored m t) xs) = filter (\<lambda>x. stored m t x \<noteq> None) xs" for xs
    using ok by (induction xs) (auto simp: List.map_filter_simps store_ok_def split: option.splits)
  then show ?thesis by (simp add: snapshots_def children_sorted)
qed

text \<open>The list depends on the snapshots only, not on what else the directory holds.\<close>

lemma snapshots_eqI:
  assumes "tree_ok t" and "tree_ok t'" and "stored m t = stored m t'"
  shows "snapshots m t = snapshots m t'"
proof -
  have eq: "List.map_filter f xs = map (the \<circ> f) (filter (\<lambda>x. f x \<noteq> None) xs)" for f :: "string \<Rightarrow> snapshot_info option" and xs
    by (simp add: List.map_filter_def comp_def)
  have d: "x \<in> set (children u (loc_of (snap_dir m)))" if "tree_ok u" "stored m u x \<noteq> None" for u x
    using that stored_child [of u m x] by (auto simp: set_children snap_loc_def)
  have "filter (\<lambda>x. stored m t x \<noteq> None) (children t (loc_of (snap_dir m))) =
      filter (\<lambda>x. stored m t x \<noteq> None) (children t' (loc_of (snap_dir m)))"
    using d [OF assms(1)] d [OF assms(2)] assms(3)
    by (intro sorted_distinct_set_unique) (auto simp: children_sorted sorted_filter [of "\<lambda>x. x", simplified])
  then show ?thesis unfolding snapshots_def eq by (simp add: assms(3))
qed

subsection \<open>Removing snapshots\<close>

lemma stored_drop:
  "stored m (drop_tree (snap_loc m y) t) x = (if x = y then None else stored m t x)"
proof -
  have "below (snap_loc m y) (child (snap_loc m x) metadataFile) \<longleftrightarrow> x = y"
    by (auto simp: below_def snap_loc_def)
  then show ?thesis by (simp add: stored_def node_at_drop)
qed

lemma store_ok_drop:
  assumes "store_ok m t"
  shows "store_ok m (drop_tree (snap_loc m y) t)"
proof -
  have "node_at (drop_tree (snap_loc m y) t) (loc_of (snap_dir m)) = node_at t (loc_of (snap_dir m))"
    by (simp add: node_at_drop snap_loc_def)
  then show ?thesis using assms by (simp add: store_ok_def tree_ok_drop stored_drop)
qed

lemma remove_snapshot_eq:
  assumes "store_ok m t" and "removes_ok env" and "plain_name (si_ID s)"
  shows "remove_snapshot m env s t = drop_tree (snap_loc m (si_ID s)) t"
proof -
  have "snap_dir m \<noteq> []" using assms(1) by (auto simp: store_ok_def abs_nonempty)
  then show ?thesis
    using assms by (simp add: remove_snapshot_def tree_RemoveAll_def removes_ok_def loc_snap)
qed

lemma remove_snapshots:
  assumes "store_ok m t" and "removes_ok env" and "\<And>s. s \<in> set ss \<Longrightarrow> plain_name (si_ID s)"
  shows "store_ok m (fold (remove_snapshot m env) ss t)"
    and "stored m (fold (remove_snapshot m env) ss t) x = (if x \<in> si_ID ` set ss then None else stored m t x)"
proof -
  have "store_ok m (fold (remove_snapshot m env) ss t) \<and>
      stored m (fold (remove_snapshot m env) ss t) x = (if x \<in> si_ID ` set ss then None else stored m t x)"
    using assms
  proof (induction ss arbitrary: t)
    case (Cons s ss)
    then show ?case
      using Cons.IH [OF store_ok_drop [OF Cons.prems(1), of "si_ID s"] Cons.prems(2)]
      by (simp add: remove_snapshot_eq stored_drop)
  qed simp
  then show "store_ok m (fold (remove_snapshot m env) ss t)"
    and "stored m (fold (remove_snapshot m env) ss t) x = (if x \<in> si_ID ` set ss then None else stored m t x)"
    by simp_all
qed

abbreviation of_service :: "string \<Rightarrow> snapshot_filter" where
  "of_service s \<equiv> no_filter\<lparr>sf_ServiceID := s\<rparr>"

lemma matches_service: "s \<noteq> [] \<Longrightarrow> matchesFilter (of_service s) i \<longleftrightarrow> si_ServiceID i = s"
  by (simp add: matchesFilter_def no_filter_def)

lemma no_filter_all [simp]: "matchesFilter no_filter i"
  by (simp add: matchesFilter_def no_filter_def)

text \<open>
  Retention: of the snapshots of the service the first ones of the list stay, which are the newest, and
  no other snapshot is removed.
\<close>

lemma enforce_exact:
  assumes ok: "store_ok m t" and "reads_ok env" and rm: "removes_ok env" and srt: "newest_first (sx_sort env)"
    and k: "0 < sc_MaxSnapshots (sg_config m)" and s: "s \<noteq> []"
    and ss: "listSnapshotsUnlocked m env (of_service s) t = Inr ss"
  defines "t' \<equiv> enforceMaxSnapshots m env s t"
  shows "store_ok m t'"
    and "stored m t' x = (case stored m t x of None \<Rightarrow> None
           | Some i \<Rightarrow> if si_ServiceID i = s \<and> i \<notin> set (take (nat (sc_MaxSnapshots (sg_config m))) ss) then None else Some i)"
proof -
  let ?k = "nat (sc_MaxSnapshots (sg_config m))"
  have ss_eq: "ss = sx_sort env (filter (matchesFilter (of_service s)) (snapshots m t))"
    using ss list_eq [OF ok assms(2)] by simp
  then have m_ss: "mset ss = mset (filter (matchesFilter (of_service s)) (snapshots m t))"
    using srt by (simp add: newest_first_def)
  have set_ss: "i \<in> set ss \<longleftrightarrow> stored m t (si_ID i) = Some i \<and> si_ServiceID i = s" for i
    using arg_cong [OF m_ss, of set_mset] set_snapshots [OF ok] matches_service [OF s] by auto
  have "distinct (map si_ID (filter P (snapshots m t)))" for P
    using distinct_snapshots [OF ok] by (simp add: distinct_map_filter)
  then have dist: "distinct (map si_ID ss)"
    by (metis m_ss mset_eq_imp_distinct_iff mset_map)
  have t': "t' = fold (remove_snapshot m env) (rev (drop ?k ss)) t"
    using k ss by (auto simp: t'_def enforceMaxSnapshots_def Let_def)
  have plain: "plain_name (si_ID i)" if "i \<in> set (rev (drop ?k ss))" for i
    using that set_ss [of i] stored_plain [OF ok] by (auto dest: in_set_dropD)
  show "store_ok m t'" unfolding t' by (rule remove_snapshots(1) [OF ok rm plain])
  have st: "stored m t' x = (if x \<in> si_ID ` set (rev (drop ?k ss)) then None else stored m t x)"
    unfolding t' by (rule remove_snapshots(2) [OF ok rm plain])
  have "x \<in> si_ID ` set (drop ?k ss) \<longleftrightarrow> si_ServiceID i = s \<and> i \<notin> set (take ?k ss)" if x: "stored m t x = Some i" for i
  proof -
    have id: "si_ID i = x" using ok x by (simp add: store_ok_def)
    have u: "j = i" if "j \<in> set ss" "si_ID j = x" for j using that set_ss [of j] x by simp
    have in_ss: "i \<in> set ss \<longleftrightarrow> si_ServiceID i = s" using set_ss [of i] id x by simp
    have split: "set ss = set (take ?k ss) \<union> set (drop ?k ss)" by (metis append_take_drop_id set_append)
    have "distinct ss" using dist by (simp add: distinct_map)
    then have "set (take ?k ss) \<inter> set (drop ?k ss) = {}" by (simp add: set_take_disj_set_drop_if_distinct)
    moreover have "x \<in> si_ID ` set (drop ?k ss) \<longleftrightarrow> i \<in> set (drop ?k ss)" using u id split by blast
    ultimately show ?thesis using in_ss split by blast
  qed
  then show "stored m t' x = (case stored m t x of None \<Rightarrow> None
      | Some i \<Rightarrow> if si_ServiceID i = s \<and> i \<notin> set (take ?k ss) then None else Some i)"
    by (cases "stored m t x") (simp_all add: st)
qed

subsection \<open>Creating a snapshot\<close>

lemma plain_hex:
  assumes "c \<in> set (hex_encode bs)"
  shows "c \<noteq> CHR ''/''"
proof -
  from assms obtain b :: byte and k where k: "c = lower_hex k" "k = unat b div 16 \<or> k = unat b mod 16"
    by (auto simp: hex_encode_def)
  have "k < 16" using k(2) byte_lt_256 [of b] by (auto simp: div_less_iff_less_mult)
  then have "(of_char c :: nat) = (if k < 10 then 48 + k else 87 + k)" by (simp add: k(1) lower_hex_def)
  moreover have "(of_char CHR ''/'' :: nat) = 47" by simp
  ultimately show ?thesis by (auto split: if_splits)
qed

lemma plain_ID: "plain_name (generateSnapshotID n x)"
proof -
  have "CHR ''/'' \<notin> set (take 16 (hex_encode bs))" for bs
    by (rule notI, drule in_set_takeD, drule plain_hex) simp
  then show ?thesis by (simp add: generateSnapshotID_def plain_name_def)
qed

lemma node_below_meta: "\<not> below (child (snap_loc m x) metadataFile) (snap_loc m y)"
  by (auto simp: below_def snap_loc_def)

definition snapshot_id :: "snap_env \<Rightarrow> string \<Rightarrow> string" where
  "snapshot_id env taskID = generateSnapshotID (sx_nano env) taskID"

lemma commit_ok:
  assumes ok: "store_ok m t" and sg: "plain_name sg" "sg \<noteq> snapshot_id env taskID"
    and c: "commit_snapshot m env taskID opts (path_Join [snap_dir m, sg]) t = (Inr info, t')"
  obtains t3 d d' where "store_ok m t3" "stored m t3 = (stored m t)(snapshot_id env taskID \<mapsto> info)"
    and "t' = (if 0 < sc_MaxSnapshots (sg_config m) \<and> si_ServiceID info \<noteq> [] then enforceMaxSnapshots m env (si_ServiceID info) t3 else t3)"
    and "node_at t3 (loc_of (si_StatePath info)) = Some (FFile d)" "node_at t3 (loc_of (si_MemoryPath info)) = Some (FFile d')"
    and "si_Checksum info = hex_encode (Sum256 (string_bytes (file_bytes env d)))"
    and "si_TaskID info = taskID" "si_ServiceID info = so_ServiceID opts" "si_CreatedAt info = sx_now env"
    and "loc_of (si_StatePath info) = child (snap_loc m (snapshot_id env taskID)) ''vm.state''"
    and "loc_of (si_MemoryPath info) = child (snap_loc m (snapshot_id env taskID)) ''vm.mem''"
proof -
  let ?i = "snapshot_id env taskID" let ?d = "path_Join [snap_dir m, ?i]" let ?sg = "path_Join [snap_dir m, sg]"
  let ?st = "path_Join [?d, ''vm.state'']" and ?mem = "path_Join [?d, ''vm.mem'']"
  have nd: "snap_dir m \<noteq> []" and ab: "path_IsAbs (snap_dir m)" using ok by (auto simp: store_ok_def abs_nonempty)
  have p: "plain_name ?i" by (simp add: snapshot_id_def plain_ID)
  note locs = loc_snap(1) [OF nd p] loc_snap(2) [OF nd p plain_metadata(1)] loc_snap(2) [OF nd p plain_metadata(2)]
    loc_snap(2) [OF nd p plain_metadata(3)] loc_snap(2) [OF nd sg(1) plain_metadata(2)] loc_snap(2) [OF nd sg(1) plain_metadata(3)]
  from c obtain t1 t2a t2 t3 n ck where 1: "tree_MkdirAll (sx_deny env) ?d t = (Inr (), t1)"
      and 2: "tree_Rename (sx_deny env) (path_Join [?sg, ''vm.state'']) ?st t1 = (Inr (), t2a)"
      and 3: "tree_Rename (sx_deny env) (path_Join [?sg, ''vm.mem'']) ?mem t2a = (Inr (), t2)"
      and 4: "describe_files env ?d (?st, ?mem) t2 = Inr (n, ck)"
      and info: "info = \<lparr>si_ID = ?i, si_TaskID = taskID, si_ServiceID = so_ServiceID opts,
          si_NodeID = so_NodeID opts, si_CreatedAt = sx_now env, si_MemoryPath = ?mem,
          si_StatePath = ?st, si_SizeBytes = n, si_VCPUCount = so_VCPUCount opts,
          si_MemoryMB = so_MemoryMB opts, si_RootfsPath = so_RootfsPath opts,
          si_Checksum = ck, si_Metadata = so_Metadata opts\<rparr>"
      and 5: "saveMetadata env ?d info t2 = (Inr (), t3)"
      and t': "t' = (if 0 < sc_MaxSnapshots (sg_config m) \<and> si_ServiceID info \<noteq> [] then enforceMaxSnapshots m env (si_ServiceID info) t3 else t3)"
    by (auto simp: commit_snapshot_def move_files_def abandon_def Let_def snapshot_id_def split: prod.splits sum.splits)
  have n1: "node_at t1 l = (if below l (snap_loc m ?i) then Some FDir else node_at t l)" and o1: "tree_ok t1" for l
    using MkdirAll_ok [OF _ 1, unfolded locs] ok by (auto simp: store_ok_def)
  obtain d where n2: "node_at t2a l = (if l = child (snap_loc m ?i) ''vm.state'' then Some (FFile d)
        else if l = child (snap_loc m sg) ''vm.state'' then None else node_at t1 l)" and o2: "tree_ok t2a" for l
    using Rename_ok [OF o1 2, unfolded locs] by auto
  obtain d' where n3: "node_at t2 l = (if l = child (snap_loc m ?i) ''vm.mem'' then Some (FFile d')
        else if l = child (snap_loc m sg) ''vm.mem'' then None else node_at t2a l)" and o3: "tree_ok t2" for l
    using Rename_ok [OF o2 3, unfolded locs] by auto
  have n4: "node_at t3 l = (if l = child (snap_loc m ?i) metadataFile then Some (FFile (MetaDoc info)) else node_at t2 l)"
      and o4: "tree_ok t3" for l
    using WriteFile_ok [OF o3 5 [unfolded saveMetadata_def], unfolded locs] by auto
  have ne: "child (snap_loc m a) b \<noteq> loc_of (snap_dir m)" "child (snap_loc m a) b = child (snap_loc m a') b' \<longleftrightarrow> a = a' \<and> b = b'" for a b a' b'
    by (auto simp: snap_loc_def child_def loc_eq_iff)
  have "path_IsAbs ?st" "path_IsAbs ?mem" using ab p by (simp_all add: path_IsAbs_Join)
  then have "resolve_paths ?d info = info" by (simp add: resolve_paths_def info)
  then have st: "stored m t3 = (stored m t)(?i \<mapsto> info)"
    using sg(2) by (auto simp: fun_eq_iff stored_def n1 n2 n3 n4 ne node_below_meta)
  moreover have "node_at t3 (loc_of (snap_dir m)) = Some FDir"
    using ok ne(1) by (simp add: n1 n2 n3 n4 ne(1) [THEN not_sym] store_ok_def)
  ultimately have "store_ok m t3" using ok o4 ab by (auto simp: store_ok_def info)
  moreover have f: "node_at t3 (loc_of ?st) = Some (FFile d)" "node_at t3 (loc_of ?mem) = Some (FFile d')"
    using sg(2) by (simp_all add: locs n1 n2 n3 n4 ne)
  moreover have "ck = hex_encode (Sum256 (string_bytes (file_bytes env d)))"
    using 4 sg(2) by (auto simp: describe_files_def sha256File_def tree_ReadFile_def lookup_node_def locs n2 n3 ne
        split: sum.splits if_splits)
  ultimately show thesis using st t' by (intro that [of t3 d d']) (simp_all add: info locs)
qed

text \<open>The operations of \<open>CreateSnapshot\<close> on the tree that leave the snapshots as they are.\<close>

definition keeps :: "snapshot_manager \<Rightarrow> (string \<rightharpoonup> snapshot_info) \<Rightarrow> snap_data tree \<Rightarrow> bool" where
  "keeps m sto t \<longleftrightarrow> tree_ok t \<and> stored m t = sto \<and> node_at t (loc_of (snap_dir m)) = Some FDir"

lemma store_ok_keeps: "store_ok m t \<Longrightarrow> keeps m (stored m t) t"
  by (simp add: keeps_def store_ok_def)

lemma keeps_store_ok: "store_ok m t \<Longrightarrow> keeps m (stored m t) u \<Longrightarrow> store_ok m u"
  by (simp add: keeps_def store_ok_def)

lemma child_snap_neq: "child (snap_loc m a) b \<noteq> loc_of (snap_dir m)" "loc_of (snap_dir m) \<noteq> child (snap_loc m a) b"
  "child (snap_loc m a) b \<noteq> snap_loc m c" "snap_loc m c \<noteq> child (snap_loc m a) b"
  "child (snap_loc m a) b = child (snap_loc m a') b' \<longleftrightarrow> a = a' \<and> b = b'"
  by (auto simp: snap_loc_def child_def loc_eq_iff)

lemma keepsI:
  assumes "keeps m sto t" and "tree_ok u"
    and "\<And>x. node_at u (child (snap_loc m x) metadataFile) = node_at t (child (snap_loc m x) metadataFile)"
    and "node_at u (loc_of (snap_dir m)) = node_at t (loc_of (snap_dir m))"
  shows "keeps m sto u"
  using assms by (auto simp: keeps_def stored_def fun_eq_iff)

lemma keeps_MkdirAll:
  assumes k: "keeps m sto t" and n: "snap_dir m \<noteq> []" "plain_name x"
    and r: "tree_MkdirAll deny (path_Join [snap_dir m, x]) t = (r, t')"
  shows "keeps m sto t'"
proof (cases r)
  case Inl
  then show ?thesis using r k tree_fail(1) by blast
next
  case (Inr u)
  have ok: "tree_ok t" using k by (simp add: keeps_def)
  have "node_at t' l = (if below l (snap_loc m x) then Some FDir else node_at t l)" "tree_ok t'" for l
    using MkdirAll_ok [OF ok, of deny "path_Join [snap_dir m, x]" u t'] r Inr loc_snap(1) [OF n] by auto
  then show ?thesis using k by (intro keepsI [OF k]) (auto simp: node_below_meta keeps_def)
qed

lemma keeps_Rename:
  assumes k: "keeps m sto t" and n: "snap_dir m \<noteq> []" "plain_name x" "plain_name z" "plain_name y" "y \<noteq> metadataFile"
    and r: "tree_Rename deny (path_Join [path_Join [snap_dir m, x], y]) (path_Join [path_Join [snap_dir m, z], y]) t = (r, t')"
  shows "keeps m sto t'"
proof (cases r)
  case Inl
  then show ?thesis using r k tree_fail(2) by blast
next
  case (Inr u)
  have ok: "tree_ok t" using k by (simp add: keeps_def)
  note l = loc_snap(2) [OF n(1,2,4)] loc_snap(2) [OF n(1,3,4)]
  obtain d where "node_at t' l = (if l = child (snap_loc m z) y then Some (FFile d)
      else if l = child (snap_loc m x) y then None else node_at t l)" "tree_ok t'" for l
    using Rename_ok [OF ok r [unfolded Inr], unfolded l] n(4) by auto
  then show ?thesis using n(5) by (intro keepsI [OF k]) (auto simp: child_snap_neq)
qed

lemma keeps_RemoveAll:
  assumes k: "keeps m sto t" and n: "snap_dir m \<noteq> []" "plain_name x" and x: "sto x = None"
  shows "keeps m sto (snd (tree_RemoveAll deny (path_Join [snap_dir m, x]) t))"
proof -
  have "snd (tree_RemoveAll deny (path_Join [snap_dir m, x]) t) \<in> {t, drop_tree (snap_loc m x) t}"
    by (simp add: tree_RemoveAll_def loc_snap(1) [OF n])
  moreover have "keeps m sto (drop_tree (snap_loc m x) t)"
    using k x by (auto simp: keeps_def tree_ok_drop stored_drop fun_eq_iff node_at_drop) (simp add: snap_loc_def)
  ultimately show ?thesis using k by auto
qed

lemma commit_fail:
  assumes k: "keeps m sto t" and n: "snap_dir m \<noteq> []" and sg: "plain_name sg" and i: "sto (snapshot_id env taskID) = None"
    and c: "commit_snapshot m env taskID opts (path_Join [snap_dir m, sg]) t = (Inl e, t')"
  shows "keeps m sto t'"
proof -
  let ?i = "snapshot_id env taskID" let ?d = "path_Join [snap_dir m, ?i]"
  have p: "plain_name ?i" by (simp add: snapshot_id_def plain_ID)
  have rm: "keeps m sto (snd (tree_RemoveAll (sx_deny env) ?d u))" if "keeps m sto u" for u
    using keeps_RemoveAll [OF that n p] i by blast
  obtain r1 t1 where 1: "tree_MkdirAll (sx_deny env) ?d t = (r1, t1)" by force
  have k1: "keeps m sto t1" by (rule keeps_MkdirAll [OF k n p 1])
  obtain r2 t2 where 2: "tree_Rename (sx_deny env) (path_Join [path_Join [snap_dir m, sg], ''vm.state'']) (path_Join [?d, ''vm.state'']) t1 = (r2, t2)" by force
  have k2: "keeps m sto t2" by (rule keeps_Rename [OF k1 n sg p _ _ 2]) simp_all
  obtain r3 t3 where 3: "tree_Rename (sx_deny env) (path_Join [path_Join [snap_dir m, sg], ''vm.mem'']) (path_Join [?d, ''vm.mem'']) t2 = (r3, t3)" by force
  have k3: "keeps m sto t3" by (rule keeps_Rename [OF k2 n sg p _ _ 3]) simp_all
  have w: "t4 = t3" if "saveMetadata env ?d info t3 = (Inl e', t4)" for info e' t4
    by (rule tree_fail(3) [OF that [unfolded saveMetadata_def]])
  from c 1 2 3 k1 rm [OF k2] rm [OF k3] show ?thesis
    by (auto simp: commit_snapshot_def move_files_def abandon_def Let_def snapshot_id_def [symmetric]
        split: prod.splits sum.splits dest!: w)
qed

definition staging_name :: "snap_env \<Rightarrow> string" where
  "staging_name env = ''snapshot-staging-'' @ sx_temp env"

lemma staging_facts: "CHR ''/'' \<notin> set (sx_temp env) \<Longrightarrow> plain_name (staging_name env)" "staging_name env \<noteq> snapshot_id env' i"
  by (simp_all add: staging_name_def plain_name_def snapshot_id_def generateSnapshotID_def)

lemma keeps_dump:
  assumes k: "keeps m sto t" and n: "snap_dir m \<noteq> []" "plain_name x" "plain_name y" "y \<noteq> metadataFile"
    and d: "node_at t (snap_loc m x) = Some FDir" "node_at t (child (snap_loc m x) y) \<noteq> Some FDir"
  shows "keeps m sto (dump_file (path_Join [path_Join [snap_dir m, x], y]) c t)"
proof (cases c)
  case (Some s)
  let ?l = "child (snap_loc m x) y"
  have "tree_ok ((?l, FFile (Raw s)) # t)" using k d n by (intro tree_ok_add) (auto simp: keeps_def)
  moreover have "l_elems ?l \<noteq> []" by simp
  ultimately show ?thesis
    using n by (simp add: dump_file_def Some loc_snap(2) [OF n(1,2,3)])
      (rule keepsI [OF k], auto simp: node_at_Cons child_snap_neq)
qed (simp add: dump_file_def k)

lemma node_dump: "c \<noteq> None \<Longrightarrow> l_elems (loc_of p) \<noteq> [] \<Longrightarrow> node_at (dump_file p c t) l = (if l = loc_of p then Some (FFile (Raw (the c))) else node_at t l)"
  by (auto simp: dump_file_def node_at_Cons)

lemma node_dump_other: "l \<noteq> loc_of p \<Longrightarrow> node_at (dump_file p c t) l = node_at t l"
  by (auto simp: dump_file_def node_at_def split: option.splits)

lemma staged:
  assumes ok: "store_ok m t" and tmp: "CHR ''/'' \<notin> set (sx_temp env)" and r: "make_staging env (snap_dir m) t = (Inr p, t1)"
  shows "p = path_Join [snap_dir m, staging_name env]" and "stored m t (staging_name env) = None"
    and "keeps m (stored m t) (dump_file (path_Join [p, ''vm.mem'']) c' (dump_file (path_Join [p, ''vm.state'']) c t1))"
proof -
  let ?sg = "staging_name env"
  have n: "snap_dir m \<noteq> []" using ok by (auto simp: store_ok_def abs_nonempty)
  note pl = staging_facts(1) [OF tmp] and l = loc_snap [OF n staging_facts(1) [OF tmp]]
  have tok: "tree_ok t" using ok by (simp add: store_ok_def)
  show p: "p = path_Join [snap_dir m, ?sg]" using r by (auto simp: make_staging_def Let_def staging_name_def split: if_splits)
  have fresh: "node_at t (snap_loc m ?sg) = None" and t1: "t1 = (snap_loc m ?sg, FDir) # t"
    using r [unfolded make_staging_def, folded staging_name_def] l(1) by (auto simp: Let_def split: if_splits)
  show "stored m t ?sg = None"
    using node_at_fresh [OF tok fresh, of "child (snap_loc m ?sg) metadataFile"] by (simp add: stored_def)
  have par: "parent (snap_loc m ?sg) = loc_of (snap_dir m)" and ne: "l_elems (snap_loc m ?sg) \<noteq> []" by (simp_all add: snap_loc_def)
  have "tree_ok t1" unfolding t1 using ok pl ne par by (intro tree_ok_add tok) (auto simp: store_ok_def snap_loc_def)
  moreover have node: "node_at t1 l = (if l = snap_loc m ?sg then Some FDir else node_at t l)" for l
    unfolding t1 by (rule node_at_Cons [OF ne])
  moreover have "loc_of (snap_dir m) \<noteq> snap_loc m ?sg" by (simp add: snap_loc_def)
  ultimately have k: "keeps m (stored m t) t1"
    by (intro keepsI [OF store_ok_keeps [OF ok]]) (simp_all add: child_snap_neq)
  have d: "node_at t1 (snap_loc m ?sg) = Some FDir" "node_at t1 (child (snap_loc m ?sg) y) = None" for y
    using node_at_fresh [OF tok fresh, of "child (snap_loc m ?sg) y"] by (simp_all add: node child_snap_neq)
  have "keeps m (stored m t) (dump_file (path_Join [p, ''vm.state'']) c t1)"
    unfolding p using d by (intro keeps_dump [OF k n pl]) simp_all
  moreover have "node_at (dump_file (path_Join [p, ''vm.state'']) c t1) l' = node_at t1 l'"
    if "l' \<noteq> child (snap_loc m ?sg) ''vm.state''" for l'
    using that node_dump_other [of l' "path_Join [p, ''vm.state'']"] l(2) by (simp add: p)
  ultimately show "keeps m (stored m t) (dump_file (path_Join [p, ''vm.mem'']) c' (dump_file (path_Join [p, ''vm.state'']) c t1))"
    unfolding p using d by - (rule keeps_dump [OF _ n pl], simp_all add: child_snap_neq)
qed

lemma requests_call [simp]: "sw_requests (snd (call_api env sock a b c w)) = sw_requests w @ [(sock, a, b, c)]"
  by (simp add: call_api_def)

abbreviation pause_request :: "string \<Rightarrow> string \<times> string \<times> string \<times> json" where
  "pause_request sock \<equiv> (sock, ''PATCH'', ''/vm'', JObj [(''state'', JStr ''Paused'')])"

abbreviation resume_request :: "string \<Rightarrow> string \<times> string \<times> string \<times> json" where
  "resume_request sock \<equiv> (sock, ''PATCH'', ''/vm'', JObj [(''state'', JStr ''Resumed'')])"

text \<open>What \<open>callSnapshotCreate\<close> asks Firecracker for, and what it leaves in the tree.\<close>

lemma snapshot_create_cases:
  assumes "callSnapshotCreate env sock p q w = (r, w')"
  obtains (refused) "r = Inl PauseFailed" "w' = w\<lparr>sw_requests := sw_requests w @ [pause_request sock]\<rparr>"
      "\<not> sx_api env ''PATCH'' ''/vm'' (JObj [(''state'', JStr ''Paused'')])"
  | (sent) body where "sw_requests w' = sw_requests w @ [pause_request sock, (sock, ''PUT'', ''/snapshot/create'', body), resume_request sock]"
      "sw_tree w' = dump_file q (sx_mem env) (dump_file p (sx_state env) (sw_tree w))" "sw_alive w' = sw_alive w"
  using assms
  by (auto simp: callSnapshotCreate_def pauseVM_def resumeVM_def putFirecrackerAPI_def patchFirecrackerAPI_def call_api_def Let_def
      split: if_splits)

lemma refused_create:
  assumes "\<And>a b c. \<not> sx_api env a b c"
  shows "\<exists>e w'. CreateSnapshot m env taskID sock opts w = (Inl e, w')"
proof -
  have "callSnapshotCreate env sock p q w = (Inl PauseFailed, w\<lparr>sw_requests := sw_requests w @ [pause_request sock]\<rparr>)" for p q w
    using assms by (simp add: callSnapshotCreate_def pauseVM_def patchFirecrackerAPI_def call_api_def)
  then show ?thesis by (auto simp: CreateSnapshot_def split: prod.splits sum.splits)
qed

text \<open>A successful and a failed \<open>CreateSnapshot\<close>, in terms of the snapshots in the tree.\<close>

lemma create_cases:
  assumes ok: "store_ok m (sw_tree w)" and tmp: "CHR ''/'' \<notin> set (sx_temp env)"
    and c: "CreateSnapshot m env taskID sock opts w = (r, w')"
  obtains (early) e where "r = Inl e" "keeps m (stored m (sw_tree w)) (sw_tree w')"
  | (commit) t u where "keeps m (stored m (sw_tree w)) t" "stored m (sw_tree w) (staging_name env) = None"
      "commit_snapshot m env taskID opts (path_Join [snap_dir m, staging_name env]) t = (r, u)"
      "sw_tree w' = snd (tree_RemoveAll (sx_deny env) (path_Join [snap_dir m, staging_name env]) u)"
proof -
  let ?sg = "path_Join [snap_dir m, staging_name env]"
  have n: "snap_dir m \<noteq> []" using ok by (auto simp: store_ok_def abs_nonempty)
  note k = store_ok_keeps [OF ok] and pl = staging_facts(1) [OF tmp]
  obtain sr t1 where ms: "make_staging env (snap_dir m) (sw_tree w) = (sr, t1)" by force
  show thesis
  proof (cases "\<exists>e. r = Inl e \<and> sw_tree w' = sw_tree w")
    case True
    then show thesis using early k by auto
  next
    case False
    then obtain p where sr: "sr = Inr p"
      using c ms by (cases sr) (auto simp: CreateSnapshot_def make_staging_def Let_def split: if_splits)
    note st = staged [OF ok tmp ms [unfolded sr]]
    obtain rc w1 where call: "callSnapshotCreate env sock (path_Join [p, ''vm.state'']) (path_Join [p, ''vm.mem'']) (w\<lparr>sw_tree := t1\<rparr>) = (rc, w1)"
      by force
    have k1: "keeps m (stored m (sw_tree w)) (sw_tree w1)"
      using call
    proof (cases rule: snapshot_create_cases)
      case refused
      then show ?thesis using st(3) [of None None] by (simp add: dump_file_def)
    next
      case sent
      then show ?thesis using st(3) by simp
    qed
    from c False ms sr call have res: "(case rc of Inl e \<Rightarrow> r = Inl e \<and> sw_tree w' = snd (tree_RemoveAll (sx_deny env) ?sg (sw_tree w1))
        | Inr _ \<Rightarrow> \<exists>u. commit_snapshot m env taskID opts ?sg (sw_tree w1) = (r, u) \<and>
            sw_tree w' = snd (tree_RemoveAll (sx_deny env) ?sg u))"
      by (auto simp: CreateSnapshot_def st(1) split: if_splits sum.splits prod.splits)
    show thesis
    proof (cases rc)
      case (Inl e)
      then show thesis using res early keeps_RemoveAll [OF k1 n pl] st(2) by auto
    next
      case (Inr x)
      then show thesis using res commit k1 st(2) by auto
    qed
  qed
qed

lemma create_failed:
  assumes ok: "store_ok m (sw_tree w)" and tmp: "CHR ''/'' \<notin> set (sx_temp env)"
    and new: "stored m (sw_tree w) (snapshot_id env taskID) = None"
    and c: "CreateSnapshot m env taskID sock opts w = (Inl e, w')"
  shows "keeps m (stored m (sw_tree w)) (sw_tree w')"
proof -
  have n: "snap_dir m \<noteq> []" using ok by (auto simp: store_ok_def abs_nonempty)
  from ok tmp c show ?thesis
  proof (cases rule: create_cases)
    case (commit t u)
    have "keeps m (stored m (sw_tree w)) u" by (rule commit_fail [OF commit(1) n staging_facts(1) [OF tmp] new commit(3)])
    from keeps_RemoveAll [OF this n staging_facts(1) [OF tmp]] show ?thesis using commit(2,4) by simp
  qed
qed

lemma keeps_list:
  assumes "store_ok m t" and "keeps m (stored m t) u" and "reads_ok env"
  shows "listSnapshotsUnlocked m env f u = listSnapshotsUnlocked m env f t"
  using assms list_eq [OF assms(1,3)] list_eq [OF keeps_store_ok [OF assms(1,2)] assms(3)] snapshots_eqI [of u t m]
  by (simp add: keeps_def store_ok_def)

lemma node_remove_snapshots:
  assumes "store_ok m t" and "removes_ok env" and "\<And>s. s \<in> set ss \<Longrightarrow> plain_name (si_ID s)" and "x \<notin> si_ID ` set ss"
  shows "node_at (fold (remove_snapshot m env) ss t) (child (snap_loc m x) y) = node_at t (child (snap_loc m x) y)"
  using assms
proof (induction ss arbitrary: t)
  case (Cons s ss)
  have "\<not> below (snap_loc m (si_ID s)) (child (snap_loc m x) y)" using Cons.prems(4) by (auto simp: below_def snap_loc_def)
  then show ?case
    using Cons.IH [OF store_ok_drop [OF Cons.prems(1), of "si_ID s"] Cons.prems(2)] Cons.prems
    by (simp add: remove_snapshot_eq node_at_drop)
qed simp

text \<open>The files of a snapshot that retention keeps stay as they are.\<close>

lemma enforce_files:
  assumes ok: "store_ok m t" and "reads_ok env" and rm: "removes_ok env" and srt: "newest_first (sx_sort env)"
    and kept: "stored m (enforceMaxSnapshots m env s t) x \<noteq> None"
  shows "node_at (enforceMaxSnapshots m env s t) (child (snap_loc m x) y) = node_at t (child (snap_loc m x) y)"
proof -
  let ?k = "nat (sc_MaxSnapshots (sg_config m))"
  define ss where "ss = sx_sort env (filter (matchesFilter (of_service s)) (snapshots m t))"
  have "set_mset (mset ss) = set_mset (mset (filter (matchesFilter (of_service s)) (snapshots m t)))"
    using srt by (simp add: newest_first_def ss_def)
  then have plain: "plain_name (si_ID i)" if "i \<in> set (rev (drop ?k ss))" for i
    using that set_snapshots [OF ok, of i] stored_plain [OF ok] by (auto dest: in_set_dropD)
  have "enforceMaxSnapshots m env s t = t \<or> enforceMaxSnapshots m env s t = fold (remove_snapshot m env) (rev (drop ?k ss)) t"
    using list_eq [OF ok assms(2)] by (simp add: enforceMaxSnapshots_def ss_def Let_def)
  then show ?thesis
  proof
    assume e: "enforceMaxSnapshots m env s t = fold (remove_snapshot m env) (rev (drop ?k ss)) t"
    have "stored m (enforceMaxSnapshots m env s t) x = (if x \<in> si_ID ` set (rev (drop ?k ss)) then None else stored m t x)"
      unfolding e by (rule remove_snapshots(2) [OF ok rm plain])
    then have x: "x \<notin> si_ID ` set (rev (drop ?k ss))" using kept by (auto split: if_splits)
    show ?thesis unfolding e by (rule node_remove_snapshots [OF ok rm plain x])
  qed simp
qed

text \<open>A created snapshot, before and after retention.\<close>

lemma create_succeeded:
  assumes ok: "store_ok m (sw_tree w)" and tmp: "CHR ''/'' \<notin> set (sx_temp env)"
    and c: "CreateSnapshot m env taskID sock opts w = (Inr info, w')"
  obtains t3 u d d' where "store_ok m t3" "stored m t3 = (stored m (sw_tree w))(snapshot_id env taskID \<mapsto> info)"
    and "u = (if 0 < sc_MaxSnapshots (sg_config m) \<and> si_ServiceID info \<noteq> [] then enforceMaxSnapshots m env (si_ServiceID info) t3 else t3)"
    and "sw_tree w' = snd (tree_RemoveAll (sx_deny env) (path_Join [snap_dir m, staging_name env]) u)"
    and "stored m t3 (staging_name env) = None"
    and "node_at t3 (loc_of (si_StatePath info)) = Some (FFile d)" "node_at t3 (loc_of (si_MemoryPath info)) = Some (FFile d')"
    and "si_Checksum info = hex_encode (Sum256 (string_bytes (file_bytes env d)))"
    and "si_TaskID info = taskID" "si_ServiceID info = so_ServiceID opts" "si_CreatedAt info = sx_now env"
    and "loc_of (si_StatePath info) = child (snap_loc m (snapshot_id env taskID)) ''vm.state''"
    and "loc_of (si_MemoryPath info) = child (snap_loc m (snapshot_id env taskID)) ''vm.mem''"
  using ok tmp c
proof (cases rule: create_cases)
  case (commit t u)
  have ok1: "store_ok m t" by (rule keeps_store_ok [OF ok commit(1)])
  have eq: "stored m t = stored m (sw_tree w)" using commit(1) by (simp add: keeps_def)
  from commit_ok [OF ok1 staging_facts(1) [OF tmp] staging_facts(2) commit(3)] show thesis
    using that commit(2,4) unfolding eq by (smt (verit) fun_upd_other staging_facts(2))
qed simp

subsection \<open>A host that does as it is asked\<close>

definition willing_host :: "snap_env \<Rightarrow> bool" where
  "willing_host env \<longleftrightarrow> (\<forall>p l. \<not> sx_deny env p l) \<and> (\<forall>a b c. sx_api env a b c) \<and> sx_state env \<noteq> None \<and> sx_mem env \<noteq> None \<and>
     CHR ''/'' \<notin> set (sx_temp env) \<and> newest_first (sx_sort env)"

lemma willing_reads: "willing_host env \<Longrightarrow> reads_ok env" and willing_removes: "willing_host env \<Longrightarrow> removes_ok env"
  and willing_temp: "willing_host env \<Longrightarrow> CHR ''/'' \<notin> set (sx_temp env)" and willing_sort: "willing_host env \<Longrightarrow> newest_first (sx_sort env)"
  by (simp_all add: willing_host_def reads_ok_def removes_ok_def)

lemma commit_works:
  assumes ok: "store_ok m t" and env: "\<And>p l. \<not> sx_deny env p l" and sg: "plain_name sg" "sg \<noteq> snapshot_id env taskID"
    and f: "node_at t (child (snap_loc m sg) ''vm.state'') = Some (FFile d)" "node_at t (child (snap_loc m sg) ''vm.mem'') = Some (FFile d')"
    and new: "node_at t (snap_loc m (snapshot_id env taskID)) = None"
  shows "\<exists>info u. commit_snapshot m env taskID opts (path_Join [snap_dir m, sg]) t = (Inr info, u)"
proof -
  let ?i = "snapshot_id env taskID" let ?d = "path_Join [snap_dir m, ?i]" let ?sg = "path_Join [snap_dir m, sg]"
  let ?st = "path_Join [?d, ''vm.state'']" and ?mem = "path_Join [?d, ''vm.mem'']"
  have nd: "snap_dir m \<noteq> []" and tok: "tree_ok t" using ok by (auto simp: store_ok_def abs_nonempty)
  have p: "plain_name ?i" by (simp add: snapshot_id_def plain_ID)
  note locs = loc_snap(1) [OF nd p] loc_snap(2) [OF nd p plain_metadata(1)] loc_snap(2) [OF nd p plain_metadata(2)]
    loc_snap(2) [OF nd p plain_metadata(3)] loc_snap(2) [OF nd sg(1) plain_metadata(2)] loc_snap(2) [OF nd sg(1) plain_metadata(3)]
  have "node_at t (parent (snap_loc m ?i)) = Some FDir" using ok by (simp add: snap_loc_def store_ok_def)
  then obtain t1 where 1: "tree_MkdirAll (sx_deny env) ?d t = (Inr (), t1)"
    using MkdirAll_works [of t ?d "sx_deny env"] tok new env by (auto simp: locs)
  have n1: "node_at t1 l = (if below l (snap_loc m ?i) then Some FDir else node_at t l)" and o1: "tree_ok t1" for l
    using MkdirAll_ok [OF tok 1, unfolded locs] by auto
  have nb: "\<not> below (child (snap_loc m a) b) (snap_loc m c)" for a b c by (auto simp: below_def snap_loc_def)
  have fr: "node_at t (child (snap_loc m ?i) y) = None" for y using node_at_fresh [OF tok new] by simp
  obtain t2 where 2: "tree_Rename (sx_deny env) (path_Join [?sg, ''vm.state'']) ?st t1 = (Inr (), t2)"
    using Rename_works [of t1 "path_Join [?sg, ''vm.state'']" d ?st "sx_deny env"] env f(1) by (auto simp: locs n1 nb fr)
  obtain e where n2: "node_at t2 l = (if l = child (snap_loc m ?i) ''vm.state'' then Some (FFile e)
        else if l = child (snap_loc m sg) ''vm.state'' then None else node_at t1 l)" and o2: "tree_ok t2" for l
    using Rename_ok [OF o1 2, unfolded locs] by auto
  obtain t3 where 3: "tree_Rename (sx_deny env) (path_Join [?sg, ''vm.mem'']) ?mem t2 = (Inr (), t3)"
    using Rename_works [of t2 "path_Join [?sg, ''vm.mem'']" d' ?mem "sx_deny env"] env f(2) by (auto simp: locs n1 n2 nb fr child_snap_neq)
  obtain e' where n3: "node_at t3 l = (if l = child (snap_loc m ?i) ''vm.mem'' then Some (FFile e')
        else if l = child (snap_loc m sg) ''vm.mem'' then None else node_at t2 l)" and o3: "tree_ok t3" for l
    using Rename_ok [OF o2 3, unfolded locs] by auto
  obtain n c where 4: "describe_files env ?d (?st, ?mem) t3 = Inr (n, c)"
    using env sg(2) by (auto simp: describe_files_def fileSize_def sha256File_def tree_Stat_def tree_ReadFile_def lookup_node_def locs n2 n3 child_snap_neq)
  have 5: "\<exists>t4. saveMetadata env ?d info t3 = (Inr (), t4)" for info
    unfolding saveMetadata_def using env by (intro WriteFile_works) (auto simp: locs n1 n2 n3 nb fr child_snap_neq)
  show ?thesis
    using 1 2 3 4 5 by (auto simp: commit_snapshot_def move_files_def Let_def snapshot_id_def [symmetric] split: prod.splits sum.splits)
      (metis Inl_Inr_False fst_conv)+
qed

text \<open>On such a host a snapshot is created when its identifier and the temporary directory are new.\<close>

lemma create_works:
  assumes ok: "store_ok m (sw_tree w)" and env: "willing_host env" and sock: "sock \<noteq> []" "node_at (sw_tree w) (loc_of sock) \<noteq> None"
    and new: "node_at (sw_tree w) (snap_loc m (staging_name env)) = None" "node_at (sw_tree w) (snap_loc m (snapshot_id env taskID)) = None"
  shows "\<exists>info w'. CreateSnapshot m env taskID sock opts w = (Inr info, w')"
proof -
  let ?sg = "path_Join [snap_dir m, staging_name env]" let ?t1 = "(snap_loc m (staging_name env), FDir) # sw_tree w"
  have n: "snap_dir m \<noteq> []" using ok by (auto simp: store_ok_def abs_nonempty)
  note tmp = willing_temp [OF env]
  note pl = staging_facts(1) [OF tmp] and l = loc_snap(1) [OF n staging_facts(1) [OF tmp]]
    loc_snap(2) [OF n staging_facts(1) [OF tmp] plain_metadata(2)] loc_snap(2) [OF n staging_facts(1) [OF tmp] plain_metadata(3)]
  have d: "\<not> sx_deny env p x" and api: "sx_api env a b c" for p x a b c using env by (simp_all add: willing_host_def)
  have ms: "make_staging env (snap_dir m) (sw_tree w) = (Inr ?sg, ?t1)"
    using ok d new(1) l(1) unfolding make_staging_def Let_def staging_name_def [symmetric] by (simp add: store_ok_def)
  let ?t2 = "dump_file (path_Join [?sg, ''vm.mem'']) (sx_mem env) (dump_file (path_Join [?sg, ''vm.state'']) (sx_state env) ?t1)"
  obtain w1 where call: "callSnapshotCreate env sock (path_Join [?sg, ''vm.state'']) (path_Join [?sg, ''vm.mem'']) (w\<lparr>sw_tree := ?t1\<rparr>) = (Inr (), w1)"
      and w1: "sw_tree w1 = ?t2"
    using api by (simp add: callSnapshotCreate_def pauseVM_def resumeVM_def putFirecrackerAPI_def patchFirecrackerAPI_def call_api_def)
  have ok2: "store_ok m ?t2" by (rule keeps_store_ok [OF ok staged(3) [OF ok tmp ms]])
  obtain s s' where s: "sx_state env = Some s" "sx_mem env = Some s'" using env by (auto simp: willing_host_def)
  have f: "node_at ?t2 (child (snap_loc m (staging_name env)) ''vm.state'') = Some (FFile (Raw s))"
    "node_at ?t2 (child (snap_loc m (staging_name env)) ''vm.mem'') = Some (FFile (Raw s'))"
    "node_at ?t2 (snap_loc m (snapshot_id env taskID)) = None"
    using new(2) staging_facts(2) [of env env taskID]
    by (auto simp: s dump_file_def l node_at_Cons child_snap_neq) (auto simp: snap_loc_def node_at_Cons)
  obtain info u where "commit_snapshot m env taskID opts ?sg ?t2 = (Inr info, u)"
    using commit_works [OF ok2 d pl staging_facts(2) f] by blast
  then show ?thesis
    using sock ms call w1 by (auto simp: CreateSnapshot_def tree_Stat_def lookup_node_def d)
qed

subsection \<open>An example\<close>

text \<open>A directory with one snapshot of the service, and a limit.\<close>

definition old_snapshot :: snapshot_info where
  "old_snapshot = \<lparr>si_ID = ''old'', si_TaskID = ''t0'', si_ServiceID = ''web'', si_NodeID = ''n1'', si_CreatedAt = 1,
     si_MemoryPath = ''/s/old/vm.mem'', si_StatePath = ''/s/old/vm.state'', si_SizeBytes = 10, si_VCPUCount = 1,
     si_MemoryMB = 128, si_RootfsPath = ''/r'', si_Checksum = [], si_Metadata = Map.empty\<rparr>"

definition snap_manager :: "int \<Rightarrow> snapshot_manager" where
  "snap_manager k = \<lparr>sg_config = DefaultSnapshotConfig\<lparr>sc_SnapshotDir := ''/s'', sc_MaxSnapshots := k\<rparr>, sg_restored = Map.empty\<rparr>"

definition snap_tree :: "snap_data tree" where
  "snap_tree = [(Loc True [''s''], FDir), (Loc True [''fc.sock''], FFile (Raw [])), (Loc True [''s'', ''old''], FDir),
     (Loc True [''s'', ''old'', ''metadata.json''], FFile (MetaDoc old_snapshot))]"

definition snap_example :: snap_world where
  "snap_example = \<lparr>sw_tree = snap_tree, sw_requests = [], sw_alive = []\<rparr>"

definition snap_host :: snap_env where
  "snap_host = \<lparr>sx_deny = (\<lambda>_ _. False), sx_sort = sort_key (\<lambda>i. - si_CreatedAt i), sx_temp = ''1'', sx_api = (\<lambda>_ _ _. True),
     sx_state = Some ''state'', sx_mem = Some ''memory'', sx_json = (\<lambda>_. ''{}''), sx_nano = 7, sx_now = 7, sx_binary = True,
     sx_spawn = Some 42, sx_ready = True, sx_kill = (\<lambda>_. True)\<rparr>"

definition snap_opts :: snapshot_options where
  "snap_opts = \<lparr>so_ServiceID = ''web'', so_NodeID = ''n1'', so_VCPUCount = 1, so_MemoryMB = 128, so_RootfsPath = ''/r'', so_Metadata = Map.empty\<rparr>"

lemma sort_key_newest: "newest_first (sort_key (\<lambda>i. - si_CreatedAt i))"
  unfolding newest_first_def
proof
  fix xs
  have "sorted (map (\<lambda>i. - si_CreatedAt i) (sort_key (\<lambda>i. - si_CreatedAt i) xs))" by (rule sorted_sort_key)
  then show "mset (sort_key (\<lambda>i. - si_CreatedAt i) xs) = mset xs \<and>
      sorted_wrt (\<lambda>a b. si_CreatedAt b \<le> si_CreatedAt a) (sort_key (\<lambda>i. - si_CreatedAt i) xs)"
    by (simp add: sorted_wrt_map)
qed

lemma snap_host_willing: "willing_host snap_host"
  by (simp add: willing_host_def snap_host_def sort_key_newest)

lemma snap_paths: "loc_of (snap_dir (snap_manager k)) = Loc True [''s'']" "loc_of ''/fc.sock'' = Loc True [''fc.sock'']"
  by (simp_all add: snap_manager_def loc_of_def path_elems_def clean_elem_def)

lemma snap_node:
  "node_at snap_tree l =
     (if l_elems l = [] \<or> l = Loc True [''s''] \<or> l = Loc True [''s'', ''old''] then Some FDir
      else if l = Loc True [''fc.sock''] then Some (FFile (Raw []))
      else if l = Loc True [''s'', ''old'', ''metadata.json''] then Some (FFile (MetaDoc old_snapshot)) else None)"
  by (simp add: node_at_def snap_tree_def)

lemma old_resolved: "resolve_paths p old_snapshot = old_snapshot"
  by (simp add: resolve_paths_def old_snapshot_def path_IsAbs_def)

lemma snap_stored: "stored (snap_manager k) snap_tree x = (if x = ''old'' then Some old_snapshot else None)"
  by (simp add: stored_def snap_loc_def snap_paths snap_node child_def metadataFile_def old_resolved)

lemma snap_tree_ok: "tree_ok snap_tree"
proof (rule tree_okI)
  fix l a assume "node_at snap_tree l \<noteq> None" "below a l" "a \<noteq> l"
  then show "node_at snap_tree a = Some FDir"
    by (cases l; cases a) (auto simp: snap_node below_def prefix_Cons split: if_splits)
next
  fix l x assume "node_at snap_tree l \<noteq> None" "l_root l" "x \<in> set (l_elems l)"
  then show "plain_name x" by (cases l) (auto simp: snap_node plain_name_def split: if_splits)
qed

lemma snap_store_ok: "store_ok (snap_manager k) (sw_tree snap_example)"
proof -
  have "path_IsAbs (snap_dir (snap_manager k))" by (simp add: path_IsAbs_def snap_manager_def)
  moreover have "node_at snap_tree (Loc True [''s'']) = Some FDir" by (simp add: snap_node)
  moreover have "si_ID old_snapshot = ''old''" by (simp add: old_snapshot_def)
  ultimately show ?thesis by (simp add: store_ok_def snap_tree_ok snap_paths snap_stored snap_example_def)
qed

lemma snap_new: "x \<noteq> ''old'' \<Longrightarrow> node_at snap_tree (snap_loc (snap_manager k) x) = None"
  by (simp add: snap_loc_def snap_paths child_def snap_node)

lemma snap_id_new: "generateSnapshotID n i \<noteq> ''old''"
  by (simp add: generateSnapshotID_def)

lemma snap_created: "\<exists>info w'. CreateSnapshot (snap_manager k) snap_host ''t1'' ''/fc.sock'' snap_opts snap_example = (Inr info, w')"
proof (rule create_works [OF snap_store_ok snap_host_willing])
  show "node_at (sw_tree snap_example) (loc_of ''/fc.sock'') \<noteq> None"
    by (simp add: snap_example_def snap_paths snap_node)
qed (simp_all add: snap_example_def snap_new snap_id_new snapshot_id_def, simp add: snap_new staging_name_def)

lemma snap_listed: "ListSnapshots (snap_manager k) snap_host no_filter snap_example = Inr [old_snapshot]"
proof -
  have "children snap_tree (Loc True [''s'']) = [''old'']" by code_simp
  then have "snapshots (snap_manager k) snap_tree = [old_snapshot]" by (simp add: snapshots_def snap_paths snap_stored List.map_filter_simps)
  then show ?thesis
    using list_eq [OF snap_store_ok [of k] willing_reads [OF snap_host_willing], of no_filter]
    by (simp add: ListSnapshots_def snap_example_def snap_host_def)
qed

lemmas snap_host_facts = willing_reads [OF snap_host_willing] willing_removes [OF snap_host_willing] willing_sort [OF snap_host_willing]

subsection \<open>Properties\<close>

text \<open>
  Claim C38. A VM is not left paused: when Firecracker accepts the request of \<open>CreateSnapshot\<close> to pause
  the VM, the last request that \<open>CreateSnapshot\<close> sends is the one to resume it, whatever fails.
\<close>

theorem snapshot_resumes_vm:
  assumes "CreateSnapshot m env taskID sock opts w = (r, w')"
  shows "\<exists>rs. sw_requests w' = sw_requests w @ rs \<and>
    (pause_request sock \<in> set rs \<longrightarrow> sx_api env ''PATCH'' ''/vm'' (JObj [(''state'', JStr ''Paused'')]) \<longrightarrow> last rs = resume_request sock)"
proof -
  consider (no) "sw_requests w' = sw_requests w"
    | (yes) staging t rc w1 where
      "callSnapshotCreate env sock (path_Join [staging, ''vm.state'']) (path_Join [staging, ''vm.mem'']) (w\<lparr>sw_tree := t\<rparr>) = (rc, w1)"
      "sw_requests w' = sw_requests w1"
    using assms by (auto simp: CreateSnapshot_def split: if_splits prod.splits sum.splits)
  then show ?thesis
  proof cases
    case no
    then show ?thesis by (intro exI [of _ "[]"]) simp
  next
    case yes
    from yes(1) show ?thesis
    proof (cases rule: snapshot_create_cases)
      case refused
      then show ?thesis using yes(2) by (intro exI [of _ "[pause_request sock]"]) simp
    next
      case (sent body)
      then show ?thesis
        using yes(2) by (intro exI [of _ "[pause_request sock, (sock, ''PUT'', ''/snapshot/create'', body), resume_request sock]"]) simp
    qed
  qed
qed

theorem snapshot_resumes_vm_witness:
  "\<exists>info w' rs. CreateSnapshot (snap_manager 1) snap_host ''t1'' ''/fc.sock'' snap_opts snap_example = (Inr info, w') \<and>
     sw_requests w' = rs \<and> (pause_request ''/fc.sock'' \<in> set rs \<longrightarrow> last rs = resume_request ''/fc.sock'')"
proof -
  obtain info w' where c: "CreateSnapshot (snap_manager 1) snap_host ''t1'' ''/fc.sock'' snap_opts snap_example = (Inr info, w')"
    using snap_created by blast
  from snapshot_resumes_vm [OF this] show ?thesis using c by (auto simp: snap_example_def snap_host_def)
qed

text \<open>
  Claim C39. A failed \<open>CreateSnapshot\<close> leaves no trace in the list of snapshots, whichever step failed and
  whether or not what was written could be removed again.
\<close>

theorem failed_snapshot_unlisted:
  assumes "CreateSnapshot m env taskID sock opts w = (Inl e, w')"
    and "store_ok m (sw_tree w)" and "CHR ''/'' \<notin> set (sx_temp env)"
    and "stored m (sw_tree w) (generateSnapshotID (sx_nano env) taskID) = None" and "reads_ok env'"
  shows "ListSnapshots m env' f w' = ListSnapshots m env' f w"
  using keeps_list [OF assms(2) create_failed [OF assms(2,3) _ assms(1)] assms(5)] assms(4)
  by (simp add: ListSnapshots_def snapshot_id_def)

theorem failed_snapshot_unlisted_witness:
  "\<exists>e w'. CreateSnapshot (snap_manager 1) (snap_host\<lparr>sx_api := (\<lambda>_ _ _. False)\<rparr>) ''t1'' ''/fc.sock'' snap_opts snap_example = (Inl e, w') \<and>
     ListSnapshots (snap_manager 1) snap_host no_filter w' = Inr [old_snapshot]"
proof -
  let ?env = "snap_host\<lparr>sx_api := (\<lambda>_ _ _. False)\<rparr>"
  obtain e w' where c: "CreateSnapshot (snap_manager 1) ?env ''t1'' ''/fc.sock'' snap_opts snap_example = (Inl e, w')"
    using refused_create [of ?env "snap_manager 1" "''t1''" "''/fc.sock''" snap_opts snap_example] by auto
  have t: "CHR ''/'' \<notin> set (sx_temp ?env)" "stored (snap_manager 1) (sw_tree snap_example) (generateSnapshotID (sx_nano ?env) ''t1'') = None"
    by (simp_all add: snap_host_def snap_example_def snap_stored snap_id_new)
  show ?thesis
    using failed_snapshot_unlisted [OF c snap_store_ok t snap_host_facts(1), of no_filter] c snap_listed by simp
qed

text \<open>The listing after a removal of the staging directory.\<close>

lemma listed:
  assumes "store_ok m t" and "reads_ok env" and "newest_first (sx_sort env)"
  obtains ss where "listSnapshotsUnlocked m env f t = Inr ss" and "sorted_wrt (\<lambda>a b. si_CreatedAt b \<le> si_CreatedAt a) ss"
    and "\<And>i. i \<in> set ss \<longleftrightarrow> stored m t (si_ID i) = Some i \<and> matchesFilter f i" and "distinct ss"
proof -
  let ?ss = "sx_sort env (filter (matchesFilter f) (snapshots m t))"
  have m: "mset ?ss = mset (filter (matchesFilter f) (snapshots m t))" using assms(3) by (simp add: newest_first_def)
  from arg_cong [OF m, of set_mset] have "i \<in> set ?ss \<longleftrightarrow> stored m t (si_ID i) = Some i \<and> matchesFilter f i" for i
    using set_snapshots [OF assms(1), of i] by auto
  moreover have "sorted_wrt (\<lambda>a b. si_CreatedAt b \<le> si_CreatedAt a) ?ss" using assms(3) by (simp add: newest_first_def)
  moreover have "distinct ?ss"
    using distinct_snapshots [OF assms(1)] mset_eq_imp_distinct_iff [OF m] by (simp add: distinct_map)
  ultimately show thesis using that list_eq [OF assms(1,2)] by blast
qed

lemma sorted_take_drop:
  assumes "sorted_wrt R xs" and "a \<in> set (take k xs)" and "b \<in> set (drop k xs)"
  shows "R a b"
  using assms by (metis append_take_drop_id sorted_wrt_append)

text \<open>A list that keeps of the elements with \<open>Q\<close> only the first \<open>k\<close> of a sorted list of them.\<close>

lemma first_kept:
  assumes ss: "sorted_wrt R ss" "distinct ss" "\<And>i. i \<in> set ss \<longleftrightarrow> P i \<and> Q i"
    and news: "distinct news" "\<And>i. i \<in> set news \<longleftrightarrow> P i \<and> (Q i \<longrightarrow> i \<in> set (take k ss))"
  shows "length (filter Q news) = min (length ss) k"
    and "P i \<Longrightarrow> i \<notin> set news \<Longrightarrow> Q i \<and> k < length ss \<and> (\<forall>j \<in> set news. Q j \<longrightarrow> R j i)"
proof -
  have "set (filter Q news) = set (take k ss)" using ss(3) in_set_takeD [of _ k ss] by (auto simp: news(2))
  then have "length (filter Q news) = length (take k ss)"
    using distinct_card [OF distinct_filter [OF news(1)]] distinct_card [OF distinct_take [OF ss(2)]] by metis
  then show "length (filter Q news) = min (length ss) k" by simp
next
  assume i: "P i" "i \<notin> set news"
  then have q: "Q i" "i \<in> set ss" "i \<notin> set (take k ss)" using ss(3) [of i] news(2) [of i] by blast+
  then have d: "i \<in> set (drop k ss)" by (metis Un_iff append_take_drop_id set_append)
  then have "k < length ss" by (metis drop_all empty_iff empty_set not_le)
  then show "Q i \<and> k < length ss \<and> (\<forall>j \<in> set news. Q j \<longrightarrow> R j i)" using q(1) sorted_take_drop [OF ss(1) _ d] news(2) by blast
qed

text \<open>
  Claim C11. Retention of snapshots: after a snapshot of a service was created under a limit, the
  snapshots of the service are at most as many as the limit allows; only snapshots of this service were
  removed, none when the limit was not exceeded, and every one that was removed is no newer than
  every one that stayed.
\<close>

theorem snapshot_retention:
  assumes "CreateSnapshot m env taskID sock opts w = (Inr info, w')"
    and "store_ok m (sw_tree w)" and "CHR ''/'' \<notin> set (sx_temp env)"
    and "stored m (sw_tree w) (generateSnapshotID (sx_nano env) taskID) = None"
    and "reads_ok env" and "removes_ok env" and "newest_first (sx_sort env)"
    and "0 < sc_MaxSnapshots (sg_config m)" and "so_ServiceID opts \<noteq> []"
    and "ListSnapshots m env no_filter w = Inr olds"
  shows "\<exists>news. ListSnapshots m env no_filter w' = Inr news \<and> set news \<subseteq> insert info (set olds) \<and>
    int (length (filter (\<lambda>i. si_ServiceID i = so_ServiceID opts) news)) \<le> sc_MaxSnapshots (sg_config m) \<and>
    (\<forall>i \<in> insert info (set olds) - set news. si_ServiceID i = so_ServiceID opts \<and>
       int (length (filter (\<lambda>i. si_ServiceID i = so_ServiceID opts) news)) = sc_MaxSnapshots (sg_config m) \<and>
       (\<forall>j \<in> set news. si_ServiceID j = so_ServiceID opts \<longrightarrow> si_CreatedAt i \<le> si_CreatedAt j))"
proof -
  let ?s = "so_ServiceID opts" let ?k = "nat (sc_MaxSnapshots (sg_config m))"
  have n: "snap_dir m \<noteq> []" using assms(2) by (auto simp: store_ok_def abs_nonempty)
  obtain t3 u where t3: "store_ok m t3" "stored m t3 = (stored m (sw_tree w))(snapshot_id env taskID \<mapsto> info)"
      and u: "u = (if 0 < sc_MaxSnapshots (sg_config m) \<and> si_ServiceID info \<noteq> [] then enforceMaxSnapshots m env (si_ServiceID info) t3 else t3)"
      and w': "sw_tree w' = snd (tree_RemoveAll (sx_deny env) (path_Join [snap_dir m, staging_name env]) u)"
      and sg: "stored m t3 (staging_name env) = None" and s: "si_ServiceID info = ?s"
    by (rule create_succeeded [OF assms(2,3,1)])
  have id: "si_ID info = snapshot_id env taskID" using t3 by (simp add: store_ok_def)
  obtain ss where ss: "listSnapshotsUnlocked m env (of_service ?s) t3 = Inr ss"
      "sorted_wrt (\<lambda>a b. si_CreatedAt b \<le> si_CreatedAt a) ss"
      "\<And>i. i \<in> set ss \<longleftrightarrow> stored m t3 (si_ID i) = Some i \<and> si_ServiceID i = ?s" "distinct ss"
    by (rule listed [OF t3(1) assms(5,7), of "of_service ?s"]) (simp only: matches_service [OF assms(9)])
  have u': "u = enforceMaxSnapshots m env ?s t3" using u s assms(8,9) by simp
  note ex = enforce_exact [OF t3(1) assms(5-9) ss(1), folded u']
  have "keeps m (stored m u) (sw_tree w')"
    unfolding w' using sg by (intro keeps_RemoveAll [OF store_ok_keeps [OF ex(1)] n staging_facts(1) [OF assms(3)]]) (simp add: ex(2))
  then have ok': "store_ok m (sw_tree w')" and st': "stored m (sw_tree w') = stored m u"
    using keeps_store_ok [OF ex(1)] by (simp_all add: keeps_def)
  obtain news where news: "listSnapshotsUnlocked m env no_filter (sw_tree w') = Inr news"
      "\<And>i. i \<in> set news \<longleftrightarrow> stored m u (si_ID i) = Some i" "distinct news"
    by (rule listed [OF ok' assms(5,7), of no_filter]) (simp add: st')
  obtain os where "listSnapshotsUnlocked m env no_filter (sw_tree w) = Inr os"
      "\<And>i. i \<in> set os \<longleftrightarrow> stored m (sw_tree w) (si_ID i) = Some i"
    by (rule listed [OF assms(2,5,7), of no_filter]) simp
  then have olds: "i \<in> set olds \<longleftrightarrow> stored m (sw_tree w) (si_ID i) = Some i" for i
    using assms(10) by (simp add: ListSnapshots_def)
  have all: "i \<in> insert info (set olds) \<longleftrightarrow> stored m t3 (si_ID i) = Some i" for i
    using assms(4) id by (auto simp: olds t3(2) snapshot_id_def)
  have new: "i \<in> set news \<longleftrightarrow> stored m t3 (si_ID i) = Some i \<and> (si_ServiceID i = ?s \<longrightarrow> i \<in> set (take ?k ss))" for i
    unfolding news(2) ex(2) by (auto split: option.splits)
  note kept = first_kept [OF ss(2,4,3) news(3) new]
  show ?thesis
  proof (intro exI [of _ news] conjI ballI)
    show "ListSnapshots m env no_filter w' = Inr news" using news(1) by (simp add: ListSnapshots_def)
    show "set news \<subseteq> insert info (set olds)" using new all by blast
    show "int (length (filter (\<lambda>i. si_ServiceID i = ?s) news)) \<le> sc_MaxSnapshots (sg_config m)"
      using assms(8) unfolding kept(1) by simp
  next
    fix i assume "i \<in> insert info (set olds) - set news"
    then have i: "si_ServiceID i = ?s \<and> ?k < length ss \<and> (\<forall>j \<in> set news. si_ServiceID j = ?s \<longrightarrow> si_CreatedAt i \<le> si_CreatedAt j)"
      using all [of i] kept(2) [of i] by blast
    then show "si_ServiceID i = ?s" by blast
    show "si_ServiceID j = ?s \<longrightarrow> si_CreatedAt i \<le> si_CreatedAt j" if "j \<in> set news" for j using i that by blast
    show "int (length (filter (\<lambda>i. si_ServiceID i = ?s) news)) = sc_MaxSnapshots (sg_config m)"
      using i assms(8) unfolding kept(1) by simp
  qed
qed

theorem snapshot_retention_witness:
  "\<exists>info w' news. CreateSnapshot (snap_manager 1) snap_host ''t1'' ''/fc.sock'' snap_opts snap_example = (Inr info, w') \<and>
     ListSnapshots (snap_manager 1) snap_host no_filter w' = Inr news \<and> set news \<subseteq> {info, old_snapshot} \<and>
     length (filter (\<lambda>i. si_ServiceID i = ''web'') news) \<le> 1"
proof -
  obtain info w' where c: "CreateSnapshot (snap_manager 1) snap_host ''t1'' ''/fc.sock'' snap_opts snap_example = (Inr info, w')"
    using snap_created by blast
  have t: "stored (snap_manager 1) (sw_tree snap_example) (generateSnapshotID (sx_nano snap_host) ''t1'') = None"
    by (simp add: snap_example_def snap_stored snap_id_new)
  have k: "0 < sc_MaxSnapshots (sg_config (snap_manager 1))" "so_ServiceID snap_opts \<noteq> []" by (simp_all add: snap_manager_def snap_opts_def)
  show ?thesis
    using snapshot_retention [OF c snap_store_ok willing_temp [OF snap_host_willing] t snap_host_facts k snap_listed] c
    by (auto simp: snap_manager_def snap_opts_def)
qed

subsection \<open>Restoring and cleaning up\<close>

lemma limited_store:
  assumes ok: "store_ok m t" and "reads_ok env" and "removes_ok env" and "newest_first (sx_sort env)"
    and u: "u = (if 0 < sc_MaxSnapshots (sg_config m) \<and> s \<noteq> [] then enforceMaxSnapshots m env s t else t)"
    and x: "stored m t x = None" "plain_name x"
  shows "store_ok m (snd (tree_RemoveAll deny (path_Join [snap_dir m, x]) u))"
proof -
  have "store_ok m u \<and> stored m u x = None"
  proof (cases "0 < sc_MaxSnapshots (sg_config m) \<and> s \<noteq> []")
    case True
    then show ?thesis using enforce_exact [OF assms(1-4) _ _ list_eq [OF ok assms(2)], of s] x u by simp
  next
    case False
    then have "u = t" using u by auto
    then show ?thesis using ok x by simp
  qed
  moreover from this have "snap_dir m \<noteq> []" by (auto simp: store_ok_def abs_nonempty)
  ultimately show ?thesis using keeps_store_ok keeps_RemoveAll [OF store_ok_keeps _ x(2)] by blast
qed

lemma check_snapshot_ok:
  assumes "node_at t (loc_of (si_StatePath i)) = Some (FFile d)" and "node_at t (loc_of (si_MemoryPath i)) = Some n"
    and "reads_ok env" and "si_Checksum i = hex_encode (Sum256 (string_bytes (file_bytes env d)))"
  shows "check_snapshot env i t = Inr ()"
  using assms by (simp add: check_snapshot_def tree_Stat_def lookup_node_def sha256File_def tree_ReadFile_def reads_ok_def)

text \<open>A restored VM has a state file with the recorded checksum.\<close>

lemma restore_verified:
  assumes "RestoreFromSnapshot env (Some i) sock m w = (Inr (), m', w')" and "si_Checksum i \<noteq> []"
  shows "sha256File env (si_StatePath i) (sw_tree w) = Inr (si_Checksum i)"
  using assms by (auto simp: RestoreFromSnapshot_def check_snapshot_def split: sum.splits if_splits)

lemma restore_runs:
  assumes "check_snapshot env i (sw_tree w) = Inr ()" and "sx_binary env" and "sx_spawn env = Some pid" and "sx_ready env"
    and "\<And>a b c. sx_api env a b c"
  shows "\<exists>w'. RestoreFromSnapshot env (Some i) sock m w = (Inr (), TrackRestoredProcess (si_TaskID i) pid m, w') \<and>
    sw_alive w' = pid # sw_alive w \<and>
    sw_requests w' = sw_requests w @
      [(sock, ''PUT'', ''/snapshot/load'', JObj [(''mem_file_path'', JStr (si_MemoryPath i)), (''resume_vm'', JBool True),
          (''snapshot_path'', JStr (si_StatePath i))]),
       (sock, ''PUT'', ''/actions'', JObj [(''action_type'', JStr ''InstanceStart'')])]"
  using assms by (simp add: RestoreFromSnapshot_def Let_def callSnapshotLoad_def callInstanceStart_def putFirecrackerAPI_def call_api_def)

lemma unlimited_listed:
  assumes "CreateSnapshot m env taskID sock opts w = (Inr info, w')" and "store_ok m (sw_tree w)" and "willing_host env"
    and "sc_MaxSnapshots (sg_config m) \<le> 0"
  shows "\<exists>ss. ListSnapshots m env no_filter w' = Inr ss \<and> info \<in> set ss"
proof -
  let ?i = "snapshot_id env taskID"
  have n: "snap_dir m \<noteq> []" using assms(2) by (auto simp: store_ok_def abs_nonempty)
  obtain t3 u where t3: "store_ok m t3" "stored m t3 = (stored m (sw_tree w))(?i \<mapsto> info)"
      and u: "u = (if 0 < sc_MaxSnapshots (sg_config m) \<and> si_ServiceID info \<noteq> [] then enforceMaxSnapshots m env (si_ServiceID info) t3 else t3)"
      and w': "sw_tree w' = snd (tree_RemoveAll (sx_deny env) (path_Join [snap_dir m, staging_name env]) u)"
      and sg: "stored m t3 (staging_name env) = None"
    by (rule create_succeeded [OF assms(2) willing_temp [OF assms(3)] assms(1)])
  have "u = t3" using u assms(4) by simp
  then have k: "keeps m (stored m t3) (sw_tree w')"
    unfolding w' using keeps_RemoveAll [OF store_ok_keeps [OF t3(1)] n staging_facts(1) [OF willing_temp [OF assms(3)]] sg] by simp
  have "stored m (sw_tree w') (si_ID info) = Some info" using k t3 by (simp add: keeps_def store_ok_def)
  moreover obtain os where "listSnapshotsUnlocked m env no_filter (sw_tree w') = Inr os"
      "\<And>i. i \<in> set os \<longleftrightarrow> stored m (sw_tree w') (si_ID i) = Some i"
    by (rule listed [OF keeps_store_ok [OF t3(1) k] willing_reads [OF assms(3)] willing_sort [OF assms(3)], of no_filter]) simp
  ultimately show ?thesis by (simp add: ListSnapshots_def)
qed

text \<open>
  Claim C12. A snapshot can be restored: while a snapshot that was created is still listed,
  \<open>RestoreFromSnapshot\<close> accepts it on a host that starts Firecracker and answers its requests. It loads the
  recorded files and tracks the new process for the task.
\<close>

theorem created_snapshot_restores:
  assumes "CreateSnapshot m env taskID sock opts w = (Inr info, w')"
    and "store_ok m (sw_tree w)" and "CHR ''/'' \<notin> set (sx_temp env)"
    and "reads_ok env" and "removes_ok env" and "newest_first (sx_sort env)"
    and "ListSnapshots m env no_filter w' = Inr ss" and "info \<in> set ss"
    and "reads_ok env'" and "sx_json env' = sx_json env" and "sx_binary env'" and "sx_spawn env' = Some pid" and "sx_ready env'"
    and "\<And>a b c. sx_api env' a b c"
  shows "\<exists>w2. RestoreFromSnapshot env' (Some info) sock' m w' = (Inr (), TrackRestoredProcess taskID pid m, w2) \<and>
    sw_alive w2 = pid # sw_alive w' \<and>
    sw_requests w2 = sw_requests w' @
      [(sock', ''PUT'', ''/snapshot/load'', JObj [(''mem_file_path'', JStr (si_MemoryPath info)), (''resume_vm'', JBool True),
          (''snapshot_path'', JStr (si_StatePath info))]),
       (sock', ''PUT'', ''/actions'', JObj [(''action_type'', JStr ''InstanceStart'')])]"
proof -
  let ?i = "snapshot_id env taskID"
  have n: "snap_dir m \<noteq> []" using assms(2) by (auto simp: store_ok_def abs_nonempty)
  obtain t3 u d d' where t3: "store_ok m t3" "stored m t3 = (stored m (sw_tree w))(?i \<mapsto> info)"
      and u: "u = (if 0 < sc_MaxSnapshots (sg_config m) \<and> si_ServiceID info \<noteq> [] then enforceMaxSnapshots m env (si_ServiceID info) t3 else t3)"
      and w': "sw_tree w' = snd (tree_RemoveAll (sx_deny env) (path_Join [snap_dir m, staging_name env]) u)"
      and sg: "stored m t3 (staging_name env) = None"
      and f: "node_at t3 (loc_of (si_StatePath info)) = Some (FFile d)" "node_at t3 (loc_of (si_MemoryPath info)) = Some (FFile d')"
      and ck: "si_Checksum info = hex_encode (Sum256 (string_bytes (file_bytes env d)))" and tk: "si_TaskID info = taskID"
      and l: "loc_of (si_StatePath info) = child (snap_loc m ?i) ''vm.state''" "loc_of (si_MemoryPath info) = child (snap_loc m ?i) ''vm.mem''"
    by (rule create_succeeded [OF assms(2,3,1)])
  have id: "si_ID info = ?i" using t3 by (simp add: store_ok_def)
  have node: "node_at (sw_tree w') (child (snap_loc m ?i) y) = node_at u (child (snap_loc m ?i) y)" for y
  proof -
    have "\<not> below (snap_loc m (staging_name env)) (child (snap_loc m ?i) y)"
      using staging_facts(2) [of env env taskID] by (auto simp: below_def snap_loc_def)
    then show ?thesis
      by (simp add: w' tree_RemoveAll_def loc_snap(1) [OF n staging_facts(1) [OF assms(3)]] node_at_drop)
  qed
  have ok': "store_ok m (sw_tree w')"
    unfolding w' by (rule limited_store [OF t3(1) assms(4-6) u sg staging_facts(1) [OF assms(3)]])
  obtain os where "listSnapshotsUnlocked m env no_filter (sw_tree w') = Inr os"
      "\<And>i. i \<in> set os \<longleftrightarrow> stored m (sw_tree w') (si_ID i) = Some i"
    by (rule listed [OF ok' assms(4,6), of no_filter]) simp
  then have "stored m (sw_tree w') ?i \<noteq> None" using assms(7,8) id by (simp add: ListSnapshots_def)
  then have "stored m u ?i \<noteq> None" using node [of metadataFile] by (simp add: stored_def)
  then have "node_at u (child (snap_loc m ?i) y) = node_at t3 (child (snap_loc m ?i) y)" for y
    using enforce_files [OF t3(1) assms(4-6), of "si_ServiceID info" ?i y] u by (auto split: if_splits)
  moreover have same: "file_bytes env' d = file_bytes env d" by (simp add: file_bytes_def assms(10) split: snap_data.split)
  ultimately have "check_snapshot env' info (sw_tree w') = Inr ()"
    using f ck assms(9) same by (intro check_snapshot_ok [of _ _ d]) (simp_all add: l node)
  from restore_runs [OF this assms(11-14)] show ?thesis by (simp only: tk)
qed

theorem created_snapshot_restores_witness:
  "\<exists>info w' w2. CreateSnapshot (snap_manager 0) snap_host ''t1'' ''/fc.sock'' snap_opts snap_example = (Inr info, w') \<and>
     RestoreFromSnapshot snap_host (Some info) ''/new.sock'' (snap_manager 0) w' = (Inr (), TrackRestoredProcess ''t1'' 42 (snap_manager 0), w2)"
proof -
  obtain info w' where c: "CreateSnapshot (snap_manager 0) snap_host ''t1'' ''/fc.sock'' snap_opts snap_example = (Inr info, w')"
    using snap_created by blast
  have "sc_MaxSnapshots (sg_config (snap_manager 0)) \<le> 0" by (simp add: snap_manager_def)
  from unlimited_listed [OF c snap_store_ok snap_host_willing this] obtain ss where
    ss: "ListSnapshots (snap_manager 0) snap_host no_filter w' = Inr ss" "info \<in> set ss" by blast
  have h: "sx_binary snap_host" "sx_spawn snap_host = Some 42" "sx_ready snap_host" "sx_api snap_host a b d" for a b d
    by (simp_all add: snap_host_def)
  from created_snapshot_restores [OF c snap_store_ok willing_temp [OF snap_host_willing] snap_host_facts ss snap_host_facts(1) refl h(1-3), of "''/new.sock''"] h(4)
  show ?thesis using c by blast
qed

text \<open>Cleaning up deletes the snapshots older than the age limit, and counts them.\<close>

lemma delete_stored:
  assumes ok: "store_ok m (sw_tree w)" and "reads_ok env" and "removes_ok env" and x: "stored m (sw_tree w) x = Some i"
  shows "DeleteSnapshot m env x w = (Inr (), w\<lparr>sw_tree := drop_tree (snap_loc m x) (sw_tree w)\<rparr>)"
proof -
  have n: "snap_dir m \<noteq> []" using ok by (auto simp: store_ok_def abs_nonempty)
  have "node_at (sw_tree w) (snap_loc m x) = Some FDir" using stored_child [OF _ x] ok by (simp add: store_ok_def)
  then show ?thesis
    using assms(2,3) by (simp add: DeleteSnapshot_def Let_def tree_Stat_def lookup_node_def reads_ok_def removes_ok_def
        tree_RemoveAll_def loc_snap(1) [OF n stored_plain [OF ok x]])
qed

lemma cleanup_loop_exact:
  assumes "store_ok m (sw_tree w)" and "reads_ok env" and "removes_ok env"
    and "\<And>i. i \<in> set ss \<Longrightarrow> stored m (sw_tree w) (si_ID i) = Some i" and "distinct ss"
  shows "\<exists>t. cleanup_loop m env cutoff ss (n, b) w =
      ((n + length (filter (\<lambda>i. si_CreatedAt i < cutoff) ss), b + sum_list (map si_SizeBytes (filter (\<lambda>i. si_CreatedAt i < cutoff) ss))),
       w\<lparr>sw_tree := t\<rparr>) \<and> store_ok m t \<and>
    (\<forall>x. stored m t x = (if \<exists>i \<in> set ss. si_ID i = x \<and> si_CreatedAt i < cutoff then None else stored m (sw_tree w) x))"
  using assms
proof (induction ss arbitrary: n b w)
  case Nil
  then show ?case by (intro exI [of _ "sw_tree w"]) simp
next
  case (Cons s ss)
  have IH: "\<exists>t. cleanup_loop m env cutoff ss (n', b') w1 =
      ((n' + length (filter (\<lambda>i. si_CreatedAt i < cutoff) ss), b' + sum_list (map si_SizeBytes (filter (\<lambda>i. si_CreatedAt i < cutoff) ss))),
       w1\<lparr>sw_tree := t\<rparr>) \<and> store_ok m t \<and>
    (\<forall>x. stored m t x = (if \<exists>i \<in> set ss. si_ID i = x \<and> si_CreatedAt i < cutoff then None else stored m (sw_tree w1) x))"
    if "store_ok m (sw_tree w1)" "\<forall>i \<in> set ss. stored m (sw_tree w1) (si_ID i) = Some i" for n' b' w1
    using Cons.IH [OF that(1) Cons.prems(2,3)] that(2) Cons.prems(5) by simp
  have s: "stored m (sw_tree w) (si_ID s) = Some s" using Cons.prems(4) by simp
  show ?case
  proof (cases "si_CreatedAt s < cutoff")
    case True
    let ?w1 = "w\<lparr>sw_tree := drop_tree (snap_loc m (si_ID s)) (sw_tree w)\<rparr>"
    have "si_ID i \<noteq> si_ID s" if i: "i \<in> set ss" for i
    proof
      assume e: "si_ID i = si_ID s"
      have "stored m (sw_tree w) (si_ID i) = Some i" using Cons.prems(4) i by simp
      then have "i = s" using s unfolding e by simp
      then show False using i Cons.prems(5) by simp
    qed
    then have q: "\<forall>i \<in> set ss. stored m (sw_tree ?w1) (si_ID i) = Some i"
      using Cons.prems(4) by (simp add: stored_drop)
    have "store_ok m (sw_tree ?w1)" using Cons.prems(1) by (simp add: store_ok_drop)
    from IH [OF this q, of "Suc n" "b + si_SizeBytes s"] obtain t where t: "cleanup_loop m env cutoff ss (Suc n, b + si_SizeBytes s) ?w1 =
        ((Suc n + length (filter (\<lambda>i. si_CreatedAt i < cutoff) ss),
          b + si_SizeBytes s + sum_list (map si_SizeBytes (filter (\<lambda>i. si_CreatedAt i < cutoff) ss))), ?w1\<lparr>sw_tree := t\<rparr>)"
        "store_ok m t"
        "\<forall>x. stored m t x = (if \<exists>i \<in> set ss. si_ID i = x \<and> si_CreatedAt i < cutoff then None else stored m (sw_tree ?w1) x)"
      by (elim exE conjE)
    then show ?thesis
      using True delete_stored [OF Cons.prems(1-3) s] by (intro exI [of _ t]) (auto simp: stored_drop)
  next
    case False
    then show ?thesis using IH [OF Cons.prems(1), of n b] Cons.prems(4) by auto
  qed
qed

text \<open>
  \<open>CleanupOldSnapshots\<close> is exact: it removes the snapshots that are older than the given age, or
  than the configured one when none is given, and no others, and it reports their number and size.
\<close>

theorem snapshot_cleanup_exact:
  assumes "store_ok m (sw_tree w)" and "reads_ok env" and "removes_ok env" and "newest_first (sx_sort env)"
    and "ListSnapshots m env no_filter w = Inr olds"
    and "age = (if maxAge \<le> 0 then sc_MaxAge (sg_config m) else maxAge)" and "0 < age"
  shows "\<exists>w' news. CleanupOldSnapshots m env maxAge w =
      (Inr (length (filter (\<lambda>i. si_CreatedAt i < sx_now env - age) olds),
            sum_list (map si_SizeBytes (filter (\<lambda>i. si_CreatedAt i < sx_now env - age) olds))), w') \<and>
    ListSnapshots m env no_filter w' = Inr news \<and>
    set news = {i \<in> set olds. sx_now env - age \<le> si_CreatedAt i}"
proof -
  let ?c = "sx_now env - age"
  obtain os where "listSnapshotsUnlocked m env no_filter (sw_tree w) = Inr os" "distinct os"
      "\<And>i. i \<in> set os \<longleftrightarrow> stored m (sw_tree w) (si_ID i) = Some i"
    by (rule listed [OF assms(1,2,4), of no_filter]) simp
  then have olds: "i \<in> set olds \<longleftrightarrow> stored m (sw_tree w) (si_ID i) = Some i" and d: "distinct olds" for i
    using assms(5) by (simp_all add: ListSnapshots_def)
  obtain t where loop: "cleanup_loop m env ?c olds (0, 0) w =
      ((length (filter (\<lambda>i. si_CreatedAt i < ?c) olds), sum_list (map si_SizeBytes (filter (\<lambda>i. si_CreatedAt i < ?c) olds))),
       w\<lparr>sw_tree := t\<rparr>)" and t: "store_ok m t"
      "\<And>x. stored m t x = (if \<exists>i \<in> set olds. si_ID i = x \<and> si_CreatedAt i < ?c then None else stored m (sw_tree w) x)"
    using cleanup_loop_exact [OF assms(1-3) _ d, of ?c 0 0] olds by auto
  obtain news where news: "listSnapshotsUnlocked m env no_filter t = Inr news" "\<And>i. i \<in> set news \<longleftrightarrow> stored m t (si_ID i) = Some i"
    by (rule listed [OF t(1) assms(2,4), of no_filter]) simp
  have "CleanupOldSnapshots m env maxAge w =
      (Inr (length (filter (\<lambda>i. si_CreatedAt i < ?c) olds), sum_list (map si_SizeBytes (filter (\<lambda>i. si_CreatedAt i < ?c) olds))),
       w\<lparr>sw_tree := t\<rparr>)"
    using assms(5-7) loop by (simp add: CleanupOldSnapshots_def Let_def)
  moreover have "set news = {i \<in> set olds. ?c \<le> si_CreatedAt i}"
  proof -
    have "i \<in> set news \<longleftrightarrow> i \<in> set olds \<and> ?c \<le> si_CreatedAt i" for i
    proof (cases "i \<in> set olds")
      case True
      then have "j = i" if "j \<in> set olds" "si_ID j = si_ID i" for j using that olds [of j] olds [of i] by simp
      then have "(\<exists>j \<in> set olds. si_ID j = si_ID i \<and> si_CreatedAt j < ?c) \<longleftrightarrow> si_CreatedAt i < ?c" using True by metis
      then show ?thesis using True olds [of i] by (simp add: news(2) t(2) not_less)
    next
      case False
      then show ?thesis using olds [of i] by (simp add: news(2) t(2))
    qed
    then show ?thesis by blast
  qed
  moreover have "ListSnapshots m env no_filter (w\<lparr>sw_tree := t\<rparr>) = Inr news" using news(1) by (simp add: ListSnapshots_def)
  ultimately show ?thesis by blast
qed

theorem snapshot_cleanup_exact_witness:
  "\<exists>w' news. CleanupOldSnapshots (snap_manager 1) snap_host 2 snap_example = (Inr (1, 10), w') \<and>
     ListSnapshots (snap_manager 1) snap_host no_filter w' = Inr news \<and> news = []"
proof -
  have "2 = (if (2 :: int) \<le> 0 then sc_MaxAge (sg_config (snap_manager 1)) else 2)" "(0 :: int) < 2" by simp_all
  note e = snapshot_cleanup_exact [OF snap_store_ok snap_host_facts snap_listed this]
  have o: "si_CreatedAt old_snapshot = 1" "si_SizeBytes old_snapshot = 10" "sx_now snap_host = 7"
    by (simp_all add: old_snapshot_def snap_host_def)
  then obtain w' news where r: "CleanupOldSnapshots (snap_manager 1) snap_host 2 snap_example = (Inr (1, 10), w')"
      "ListSnapshots (snap_manager 1) snap_host no_filter w' = Inr news" "set news = {i. i = old_snapshot \<and> 5 \<le> si_CreatedAt i}"
    using e by auto
  moreover have "{i. i = old_snapshot \<and> 5 \<le> si_CreatedAt i} = {}" using o(1) by auto
  with r(3) have "news = []" by simp
  ultimately show ?thesis by blast
qed

subsection \<open>Deviations\<close>

text \<open>
  The identifier given to \<open>DeleteSnapshot\<close> is not checked: the empty one deletes the snapshot directory
  itself, with all snapshots.
\<close>

lemma delete_empty_removes_all:
  assumes "store_ok m (sw_tree w)" and "willing_host env"
  shows "\<exists>w'. DeleteSnapshot m env [] w = (Inr (), w') \<and> stored m (sw_tree w') x = None"
proof -
  have n: "snap_dir m \<noteq> []" and d: "node_at (sw_tree w) (loc_of (snap_dir m)) = Some FDir"
    using assms(1) by (auto simp: store_ok_def abs_nonempty)
  have l: "loc_of (path_Join [snap_dir m, []]) = loc_of (snap_dir m)"
    using n path_elems_path_of [OF clean_elems_path [of "snap_dir m"]] by (simp add: path_Join_def loc_of_def path_Clean_def)
  have "DeleteSnapshot m env [] w = (Inr (), w\<lparr>sw_tree := drop_tree (loc_of (snap_dir m)) (sw_tree w)\<rparr>)"
    using assms(2) d by (simp add: DeleteSnapshot_def Let_def tree_Stat_def tree_RemoveAll_def l lookup_node_def willing_host_def)
  moreover have "below (loc_of (snap_dir m)) (child (snap_loc m x) metadataFile)"
    by (simp add: below_def snap_loc_def)
  ultimately show ?thesis by (simp add: stored_def node_at_drop)
qed

text \<open>A restore that fails after the start leaves the killed process tracked for the task.\<close>

lemma failed_restore_stays_tracked:
  assumes "check_snapshot env i (sw_tree w) = Inr ()" and "sx_binary env" and "sx_spawn env = Some pid" and "\<not> sx_ready env"
  shows "\<exists>w'. RestoreFromSnapshot env (Some i) sock m w = (Inl RestoreNotReady, TrackRestoredProcess (si_TaskID i) pid m, w')"
  using assms by (simp add: RestoreFromSnapshot_def Let_def)

end
