(* ===== verification/Volume_Store.thy ===== *)
theory Volume_Store
  imports Go_Tree
begin

text \<open>
  Volumes (\<open>pkg/storage\<close>): the metadata store of \<open>volume_meta.go\<close>, the quota checks of \<open>volume_quota.go\<close>,
  the directory driver of \<open>volume_dir.go\<close> and the helpers of \<open>volume.go\<close>. Volumes lie in a tree of files; the
  contents of a file are bytes, a metadata document, an archive or a sparse image. Failures of the file
  system, sizes, the clock and the programs that are run are arguments. Times are numbers, zero the zero
  time. File modes have no effect in the tree, which has no symbolic links and no special files.
\<close>

subsection \<open>Data\<close>

record volume_meta =
  mt_Name :: string
  mt_Type :: string
  mt_SizeMB :: int
  mt_CreatedAt :: int
  mt_LastUsedAt :: int
  mt_TaskID :: string

record volume_options =
  vo_Type :: string
  vo_SizeMB :: int

record volume_info =
  vi_Name :: string
  vi_Type :: string
  vi_Path :: string
  vi_SizeMB :: int
  vi_CreatedAt :: int
  vi_LastUsedAt :: int
  vi_TaskID :: string
  vi_UsedMB :: int

record vol_snapshot =
  vp_SnapID :: string
  vp_Volume :: string
  vp_Path :: string
  vp_CreatedAt :: int
  vp_SizeMB :: int

definition VolumeTypeDir :: string where
  "VolumeTypeDir = ''dir''"

definition VolumeTypeBlock :: string where
  "VolumeTypeBlock = ''block''"

datatype tar_type = TypeDir | TypeReg | TypeOther

datatype 'd tar_entry =
  TarEntry (te_Name: string) (te_Linkname: string) (te_Mode: "64 word") (te_Typeflag: tar_type) (te_Data: 'd)

text \<open>An archive is its entries, and whether it ends as it should.\<close>

datatype vol_data = VRaw string | VMeta volume_meta | VSparse int | VArchive "vol_data tar_entry list" bool

type_synonym vol_tree = "vol_data tree"

datatype vol_error =
    NameEmpty
  | VolIO tree_error
  | VolNotFound
  | MetaCorrupt
  | DataDirNotFound
  | NotAnArchive
  | ArchiveTruncated
  | EntryRefused string
  | SnapshotNil
  | SizeNegative
  | SizeTooLarge
  | QuotaExceeded string int int
  | CopyTooDeep
  | CommandFailed "string list"
  | ImageNotFound
  | DriverMissing string
  | VolumeNil

record vol_env =
  ve_deny :: denials
  ve_size :: "vol_data \<Rightarrow> int"
  ve_now :: int
  ve_milli :: int
  ve_exec :: "string list \<Rightarrow> vol_tree \<Rightarrow> bool \<times> vol_tree"

text \<open>Operations on the tree with the error of the volume layer.\<close>

definition vol_io :: "(tree_error, 'a) res \<times> vol_tree \<Rightarrow> (vol_error, 'a) res \<times> vol_tree" where
  "vol_io p = (map_sum VolIO id (fst p), snd p)"

subsection \<open>Helpers\<close>

definition trim_dots :: "string \<Rightarrow> string" where
  "trim_dots s = (let cut = dropWhile (\<lambda>c. c \<in> {CHR ''.'', CHR '' ''}) in rev (cut (rev (cut s))))"

definition sanitizeVolumeName :: "string \<Rightarrow> string" where
  "sanitizeVolumeName name =
     (let n1 = replace_all ''/'' ''_'' name;
          n2 = replace_all [CHR 0x5C] ''_'' n1;
          n3 = replace_all ''..'' ''_'' n2;
          n4 = replace_all '':'' ''_'' n3;
          n5 = trim_dots n4
      in if n5 = [] then ''unnamed'' else n5)"

definition ensureAbsolutePath :: "string \<Rightarrow> string" where
  "ensureAbsolutePath target = (if target = [] then ''/'' else if path_IsAbs target then target else CHR ''/'' # target)"

text \<open>\<open>dirSizeBytes\<close>: the walk over all files at and below the path.\<close>

definition dirSizeBytes :: "vol_env \<Rightarrow> string \<Rightarrow> vol_tree \<Rightarrow> (tree_error, int) res" where
  "dirSizeBytes env p t =
     (if ve_deny env OpStat (loc_of p) \<or> ve_deny env OpReadDir (loc_of p) then Inl OtherError
      else case lookup_node t (loc_of p) of
             Inl e \<Rightarrow> Inl e
           | Inr _ \<Rightarrow> Inr (\<Sum>l \<leftarrow> remdups (filter (below (loc_of p)) (map fst t)).
               case node_at t l of Some (FFile d) \<Rightarrow> ve_size env d | _ \<Rightarrow> 0))"

definition dirSizeMB :: "vol_env \<Rightarrow> string \<Rightarrow> vol_tree \<Rightarrow> (tree_error, int) res" where
  "dirSizeMB env p t = map_sum id (\<lambda>b. b div (1024 * 1024)) (dirSizeBytes env p t)"

definition copyFile :: "vol_env \<Rightarrow> string \<Rightarrow> string \<Rightarrow> vol_tree \<Rightarrow> (vol_error, unit) res \<times> vol_tree" where
  "copyFile env src dst t =
     (case tree_ReadFile (ve_deny env) src t of
        Inl e \<Rightarrow> (Inl (VolIO e), t)
      | Inr d \<Rightarrow>
          (case tree_Stat (ve_deny env) src t of
             Inl e \<Rightarrow> (Inl (VolIO e), t)
           | Inr _ \<Rightarrow> vol_io (tree_WriteFile (ve_deny env) dst d t)))"

text \<open>
  \<open>copyDirectory\<close>. The first argument bounds the depth of the recursion: the copy of a directory into
  itself goes on until the paths are too long.
\<close>

fun copy_dir :: "nat \<Rightarrow> vol_env \<Rightarrow> string \<Rightarrow> string \<Rightarrow> vol_tree \<Rightarrow> (vol_error, unit) res \<times> vol_tree"
  and copy_entries :: "nat \<Rightarrow> vol_env \<Rightarrow> string \<Rightarrow> string \<Rightarrow> (string \<times> bool) list \<Rightarrow> vol_tree \<Rightarrow> (vol_error, unit) res \<times> vol_tree" where
  "copy_dir 0 env src dst t = (Inl CopyTooDeep, t)"
| "copy_dir (Suc n) env src dst t =
     (case tree_Stat (ve_deny env) src t of
        Inl e \<Rightarrow> (Inl (VolIO e), t)
      | Inr _ \<Rightarrow>
          (case tree_MkdirAll (ve_deny env) dst t of
             (Inl e, t1) \<Rightarrow> (Inl (VolIO e), t1)
           | (Inr _, t1) \<Rightarrow>
               (case tree_ReadDir (ve_deny env) src t1 of
                  Inl e \<Rightarrow> (Inl (VolIO e), t1)
                | Inr es \<Rightarrow> copy_entries n env src dst es t1)))"
| "copy_entries n env src dst [] t = (Inr (), t)"
| "copy_entries n env src dst ((x, isdir) # es) t =
     (case (if isdir then copy_dir n env (path_Join [src, x]) (path_Join [dst, x]) t
            else copyFile env (path_Join [src, x]) (path_Join [dst, x]) t) of
        (Inl e, t1) \<Rightarrow> (Inl e, t1)
      | (Inr _, t1) \<Rightarrow> copy_entries n env src dst es t1)"

definition tree_depth :: "'d tree \<Rightarrow> nat" where
  "tree_depth t = fold max (map (\<lambda>(l, _). length (l_elems l)) t) 0"

definition copyDirectory :: "vol_env \<Rightarrow> string \<Rightarrow> string \<Rightarrow> vol_tree \<Rightarrow> (vol_error, unit) res \<times> vol_tree" where
  "copyDirectory env src dst t = copy_dir (Suc (tree_depth t)) env src dst t"

subsection \<open>Metadata\<close>

definition metadataFileName :: string where
  "metadataFileName = ''meta.json''"

definition NewMetaStore :: "vol_env \<Rightarrow> string \<Rightarrow> vol_tree \<Rightarrow> (vol_error, string) res \<times> vol_tree" where
  "NewMetaStore env baseDir t =
     (case tree_MkdirAll (ve_deny env) baseDir t of (Inl e, t1) \<Rightarrow> (Inl (VolIO e), t1) | (Inr _, t1) \<Rightarrow> (Inr baseDir, t1))"

definition volumeDir :: "string \<Rightarrow> string \<Rightarrow> string" where
  "volumeDir base name = path_Join [base, sanitizeVolumeName name]"

definition metaPath :: "string \<Rightarrow> string \<Rightarrow> string" where
  "metaPath base name = path_Join [volumeDir base name, metadataFileName]"

definition meta_Write :: "vol_env \<Rightarrow> string \<Rightarrow> volume_meta \<Rightarrow> vol_tree \<Rightarrow> (vol_error, unit) res \<times> vol_tree" where
  "meta_Write env base m t =
     (case tree_MkdirAll (ve_deny env) (volumeDir base (mt_Name m)) t of
        (Inl e, t1) \<Rightarrow> (Inl (VolIO e), t1)
      | (Inr _, t1) \<Rightarrow> vol_io (tree_WriteFile (ve_deny env) (metaPath base (mt_Name m)) (VMeta m) t1))"

definition meta_Read :: "vol_env \<Rightarrow> string \<Rightarrow> string \<Rightarrow> vol_tree \<Rightarrow> (vol_error, volume_meta) res" where
  "meta_Read env base name t =
     (case tree_ReadFile (ve_deny env) (metaPath base name) t of
        Inl NotExist \<Rightarrow> Inl VolNotFound
      | Inl OtherError \<Rightarrow> Inl (VolIO OtherError)
      | Inr (VMeta m) \<Rightarrow> Inr m
      | Inr _ \<Rightarrow> Inl MetaCorrupt)"

definition meta_Delete :: "vol_env \<Rightarrow> string \<Rightarrow> string \<Rightarrow> vol_tree \<Rightarrow> (vol_error, unit) res \<times> vol_tree" where
  "meta_Delete env base name t =
     (case tree_Remove (ve_deny env) (metaPath base name) t of
        (Inl OtherError, t1) \<Rightarrow> (Inl (VolIO OtherError), t1)
      | (_, t1) \<Rightarrow> (Inr (), t1))"

definition meta_List :: "vol_env \<Rightarrow> string \<Rightarrow> vol_tree \<Rightarrow> (vol_error, volume_meta list) res" where
  "meta_List env base t =
     (case tree_ReadDir (ve_deny env) base t of
        Inl NotExist \<Rightarrow> Inr []
      | Inl OtherError \<Rightarrow> Inl (VolIO OtherError)
      | Inr es \<Rightarrow> Inr (List.map_filter (\<lambda>(x, isdir).
            if isdir then (case tree_ReadFile (ve_deny env) (path_Join [base, x, metadataFileName]) t of Inr (VMeta m) \<Rightarrow> Some m | _ \<Rightarrow> None)
            else None) es))"

definition TouchLastUsed :: "vol_env \<Rightarrow> string \<Rightarrow> string \<Rightarrow> vol_tree \<Rightarrow> (vol_error, unit) res \<times> vol_tree" where
  "TouchLastUsed env base name t =
     (case meta_Read env base name t of Inl e \<Rightarrow> (Inl e, t) | Inr m \<Rightarrow> meta_Write env base (m\<lparr>mt_LastUsedAt := ve_now env\<rparr>) t)"

definition UpdateTaskID :: "vol_env \<Rightarrow> string \<Rightarrow> string \<Rightarrow> string \<Rightarrow> vol_tree \<Rightarrow> (vol_error, unit) res \<times> vol_tree" where
  "UpdateTaskID env base name taskID t =
     (case meta_Read env base name t of Inl e \<Rightarrow> (Inl e, t) | Inr m \<Rightarrow> meta_Write env base (m\<lparr>mt_TaskID := taskID\<rparr>) t)"

definition RemoveVolumeDir :: "vol_env \<Rightarrow> string \<Rightarrow> string \<Rightarrow> vol_tree \<Rightarrow> (vol_error, unit) res \<times> vol_tree" where
  "RemoveVolumeDir env base name t = vol_io (tree_RemoveAll (ve_deny env) (volumeDir base name) t)"

subsection \<open>Quota\<close>

definition CheckCreate :: "int \<Rightarrow> (vol_error, unit) res" where
  "CheckCreate sizeMB =
     (if sizeMB < 0 then Inl SizeNegative else if 1024 * 1024 < sizeMB then Inl SizeTooLarge else Inr ())"

definition CheckSync :: "vol_env \<Rightarrow> string \<Rightarrow> string \<Rightarrow> int \<Rightarrow> vol_tree \<Rightarrow> (vol_error, unit) res" where
  "CheckSync env name src limitMB t =
     (if limitMB \<le> 0 then Inr ()
      else case dirSizeBytes env src t of
             Inl _ \<Rightarrow> Inr ()
           | Inr b \<Rightarrow> if limitMB < b div (1024 * 1024) then Inl (QuotaExceeded name limitMB (b div (1024 * 1024))) else Inr ())"

definition CheckCapacity :: "vol_env \<Rightarrow> string \<Rightarrow> string \<Rightarrow> int \<Rightarrow> vol_tree \<Rightarrow> (vol_error, unit) res" where
  "CheckCapacity env name dataPath limitMB t =
     (if limitMB \<le> 0 then Inr ()
      else case dirSizeBytes env dataPath t of
             Inl _ \<Rightarrow> Inr ()
           | Inr b \<Rightarrow> if limitMB < b div (1024 * 1024) then Inl (QuotaExceeded name limitMB (b div (1024 * 1024))) else Inr ())"

text \<open>The loop of \<open>EnforceDirLimit\<close> over the files of the directory, which \<open>ReadDir\<close> sorts by name.\<close>

fun trim_files :: "vol_env \<Rightarrow> string \<Rightarrow> int \<Rightarrow> (string \<times> int) list \<Rightarrow> int \<Rightarrow> nat \<Rightarrow> vol_tree \<Rightarrow> nat \<times> vol_tree" where
  "trim_files env p limit [] used n t = (n, t)"
| "trim_files env p limit ((x, sz) # fs) used n t =
     (if used \<le> limit then (n, t)
      else case tree_Remove (ve_deny env) (path_Join [p, x]) t of
             (Inl _, t1) \<Rightarrow> trim_files env p limit fs used n t1
           | (Inr _, t1) \<Rightarrow> trim_files env p limit fs (used - sz) (Suc n) t1)"

definition top_files :: "vol_env \<Rightarrow> string \<Rightarrow> vol_tree \<Rightarrow> (string \<times> bool) list \<Rightarrow> (string \<times> int) list" where
  "top_files env p t es =
     List.map_filter (\<lambda>(x, isdir). if isdir then None
       else case tree_Stat (ve_deny env) (path_Join [p, x]) t of Inr (FFile d) \<Rightarrow> Some (x, ve_size env d) | _ \<Rightarrow> None) es"

definition EnforceDirLimit :: "vol_env \<Rightarrow> string \<Rightarrow> int \<Rightarrow> vol_tree \<Rightarrow> (vol_error, nat) res \<times> vol_tree" where
  "EnforceDirLimit env p limitMB t =
     (if limitMB \<le> 0 then (Inr 0, t)
      else case dirSizeBytes env p t of
             Inl e \<Rightarrow> (Inl (VolIO e), t)
           | Inr used \<Rightarrow>
               if used \<le> limitMB * 1024 * 1024 then (Inr 0, t)
               else case tree_ReadDir (ve_deny env) p t of
                      Inl e \<Rightarrow> (Inl (VolIO e), t)
                    | Inr es \<Rightarrow> map_prod Inr id (trim_files env p (limitMB * 1024 * 1024) (top_files env p t es) used 0 t))"

subsection \<open>The directory driver\<close>

definition dirDataSubdir :: string where
  "dirDataSubdir = ''data''"

definition dataPath :: "string \<Rightarrow> string \<Rightarrow> string" where
  "dataPath base name = path_Join [volumeDir base name, dirDataSubdir]"

definition new_meta :: "vol_env \<Rightarrow> string \<Rightarrow> string \<Rightarrow> int \<Rightarrow> volume_meta" where
  "new_meta env name ty sizeMB = \<lparr>mt_Name = name, mt_Type = ty, mt_SizeMB = sizeMB, mt_CreatedAt = ve_now env, mt_LastUsedAt = 0, mt_TaskID = []\<rparr>"

definition dir_Create :: "vol_env \<Rightarrow> string \<Rightarrow> string \<Rightarrow> volume_options \<Rightarrow> vol_tree \<Rightarrow> (vol_error, string) res \<times> vol_tree" where
  "dir_Create env base name opts t =
     (if name = [] then (Inl NameEmpty, t)
      else let dir = volumeDir base name
           in case tree_MkdirAll (ve_deny env) (path_Join [dir, dirDataSubdir]) t of
                (Inl e, t1) \<Rightarrow> (Inl (VolIO e), t1)
              | (Inr _, t1) \<Rightarrow>
                  (case meta_Write env base (new_meta env name VolumeTypeDir (vo_SizeMB opts)) t1 of
                     (Inl e, t2) \<Rightarrow> (Inl e, snd (tree_RemoveAll (ve_deny env) dir t2))
                   | (Inr _, t2) \<Rightarrow> (Inr dir, t2)))"

definition dir_Delete :: "vol_env \<Rightarrow> string \<Rightarrow> string \<Rightarrow> vol_tree \<Rightarrow> (vol_error, unit) res \<times> vol_tree" where
  "dir_Delete env base name t = RemoveVolumeDir env base name t"

definition dir_Mount :: "vol_env \<Rightarrow> string \<Rightarrow> string \<Rightarrow> string \<Rightarrow> string \<Rightarrow> vol_tree \<Rightarrow> (vol_error, unit) res \<times> vol_tree" where
  "dir_Mount env base name rootfs target t =
     (case tree_Stat (ve_deny env) (dataPath base name) t of
        Inl NotExist \<Rightarrow> (Inl DataDirNotFound, t)
      | Inl OtherError \<Rightarrow> (Inl (VolIO OtherError), t)
      | Inr _ \<Rightarrow>
          let dest = path_Join [rootfs, ensureAbsolutePath target]
          in case tree_MkdirAll (ve_deny env) dest t of
               (Inl e, t1) \<Rightarrow> (Inl (VolIO e), t1)
             | (Inr _, t1) \<Rightarrow>
                 (case copyDirectory env (dataPath base name) dest t1 of
                    (Inl e, t2) \<Rightarrow> (Inl e, t2)
                  | (Inr _, t2) \<Rightarrow> (Inr (), snd (TouchLastUsed env base name t2))))"

definition dir_Unmount :: "vol_env \<Rightarrow> string \<Rightarrow> string \<Rightarrow> string \<Rightarrow> string \<Rightarrow> bool \<Rightarrow> vol_tree \<Rightarrow> (vol_error, unit) res \<times> vol_tree" where
  "dir_Unmount env base name rootfs target readOnly t =
     (if readOnly then (Inr (), t)
      else let src = path_Join [rootfs, ensureAbsolutePath target]; dest = dataPath base name
           in case tree_Stat (ve_deny env) src t of
                Inl NotExist \<Rightarrow> (Inr (), t)
              | Inl OtherError \<Rightarrow> (Inl (VolIO OtherError), t)
              | Inr _ \<Rightarrow>
                  (case tree_MkdirAll (ve_deny env) dest t of
                     (Inl e, t1) \<Rightarrow> (Inl (VolIO e), t1)
                   | (Inr _, t1) \<Rightarrow> copyDirectory env src dest t1))"

definition volume_info_of :: "volume_meta \<Rightarrow> string \<Rightarrow> int \<Rightarrow> volume_info" where
  "volume_info_of m path used = \<lparr>vi_Name = mt_Name m, vi_Type = mt_Type m, vi_Path = path, vi_SizeMB = mt_SizeMB m,
     vi_CreatedAt = mt_CreatedAt m, vi_LastUsedAt = mt_LastUsedAt m, vi_TaskID = mt_TaskID m, vi_UsedMB = used\<rparr>"

definition dir_Stat :: "vol_env \<Rightarrow> string \<Rightarrow> string \<Rightarrow> vol_tree \<Rightarrow> (vol_error, volume_info) res" where
  "dir_Stat env base name t =
     (case meta_Read env base name t of
        Inl e \<Rightarrow> Inl e
      | Inr m \<Rightarrow> Inr (volume_info_of m (volumeDir base name) (case dirSizeMB env (dataPath base name) t of Inl _ \<Rightarrow> 0 | Inr u \<Rightarrow> u)))"

definition dir_Capacity :: "vol_env \<Rightarrow> string \<Rightarrow> string \<Rightarrow> vol_tree \<Rightarrow> (vol_error, int \<times> int) res" where
  "dir_Capacity env base name t =
     (case meta_Read env base name t of
        Inl e \<Rightarrow> Inl e
      | Inr m \<Rightarrow>
          (case dirSizeBytes env (dataPath base name) t of
             Inl e \<Rightarrow> Inl (VolIO e)
           | Inr b \<Rightarrow> Inr (b, if 0 < mt_SizeMB m then mt_SizeMB m * 1024 * 1024 else 0)))"

end
