(* ===== verification/Volume_Archive.thy ===== *)
theory Volume_Archive
  imports Volume_Store
begin

text \<open>
  The rest of the directory driver (\<open>volume_dir.go\<close>): snapshots of a volume and their restoration, export
  and import. A compressed archive is a value with the entries in the order in which \<open>filepath.Walk\<close> visits
  the files. The trees hold regular files and directories only, so that \<open>walk\<close> and \<open>entry_of\<close> have no case for the
  header without data that a symbolic link or a special file gets; archives to be restored may have such entries.
\<close>

subsection \<open>Writing archives\<close>

text \<open>The elements of the locations below a directory in lexical order: a directory comes before what it holds.\<close>

definition walk :: "'d tree \<Rightarrow> loc \<Rightarrow> string list list" where
  "walk t l = sort (remdups (map (\<lambda>(l', _). l_elems l') (filter (\<lambda>(l', _). below l l' \<and> l' \<noteq> l) t)))"

definition entry_of :: "vol_tree \<Rightarrow> loc \<Rightarrow> string list \<Rightarrow> vol_data tar_entry" where
  "entry_of t l es =
     (let name = join ''/'' (drop (length (l_elems l)) es)
      in case node_at t (Loc (l_root l) es) of
           Some (FFile d) \<Rightarrow> TarEntry name [] 0 TypeReg d
         | _ \<Rightarrow> TarEntry name [] 0 TypeDir (VRaw []))"

definition archive_of :: "vol_env \<Rightarrow> string \<Rightarrow> vol_tree \<Rightarrow> (vol_error, vol_data tar_entry list) res" where
  "archive_of env p t =
     (let l = loc_of p
      in if ve_deny env OpReadDir l \<or>
            list_ex (\<lambda>es. case node_at t (Loc (l_root l) es) of
                Some (FFile _) \<Rightarrow> ve_deny env OpStat (Loc (l_root l) es) \<or> ve_deny env OpRead (Loc (l_root l) es)
              | _ \<Rightarrow> ve_deny env OpStat (Loc (l_root l) es) \<or> ve_deny env OpReadDir (Loc (l_root l) es)) (walk t l)
         then Inl (VolIO OtherError)
         else Inr (map (entry_of t l) (walk t l)))"

definition snapshots_dir :: "string \<Rightarrow> string" where
  "snapshots_dir base = path_Join [base, ''.snapshots'']"

definition dir_Snapshot :: "vol_env \<Rightarrow> string \<Rightarrow> string \<Rightarrow> vol_tree \<Rightarrow> (vol_error, vol_snapshot) res \<times> vol_tree" where
  "dir_Snapshot env base name t =
     (case tree_Stat (ve_deny env) (dataPath base name) t of
        Inl _ \<Rightarrow> (Inl DataDirNotFound, t)
      | Inr _ \<Rightarrow>
          (case tree_MkdirAll (ve_deny env) (snapshots_dir base) t of
             (Inl e, t1) \<Rightarrow> (Inl (VolIO e), t1)
           | (Inr _, t1) \<Rightarrow>
               let i = name @ ''-'' @ dec_of_int (ve_milli env); p = path_Join [snapshots_dir base, i @ ''.tar.gz'']
               in case tree_WriteFile (ve_deny env) p (VArchive [] False) t1 of
                    (Inl e, t2) \<Rightarrow> (Inl (VolIO e), t2)
                  | (Inr _, t2) \<Rightarrow>
                      (case archive_of env (dataPath base name) t2 of
                         Inl e \<Rightarrow> (Inl e, t2)
                       | Inr es \<Rightarrow>
                           (Inr \<lparr>vp_SnapID = i, vp_Volume = name, vp_Path = p, vp_CreatedAt = ve_now env,
                                 vp_SizeMB = ve_size env (VArchive es True) div (1024 * 1024)\<rparr>,
                            (loc_of p, FFile (VArchive es True)) # t2))))"

definition dir_Export :: "vol_env \<Rightarrow> string \<Rightarrow> string \<Rightarrow> vol_tree \<Rightarrow> (vol_error, vol_data) res" where
  "dir_Export env base name t =
     (case tree_Stat (ve_deny env) (dataPath base name) t of
        Inl _ \<Rightarrow> Inl DataDirNotFound
      | Inr _ \<Rightarrow> map_sum id (\<lambda>es. VArchive es True) (archive_of env (dataPath base name) t))"

subsection \<open>Reading archives\<close>

definition validateTarPath :: "string \<Rightarrow> string \<Rightarrow> (vol_error, unit) res" where
  "validateTarPath dest name =
     (if CHR 0x00 \<in> set name then Inl (EntryRefused name)
      else let cleanName = path_Clean name
           in if sublist ''..'' cleanName then Inl (EntryRefused name)
              else let cleanDest = path_Clean dest; cleanFull = path_Clean (path_Join [dest, cleanName])
                   in if \<not> prefix (cleanDest @ ''/'') cleanFull \<and> cleanFull \<noteq> cleanDest then Inl (EntryRefused name)
                      else Inr ())"

definition stripSetuidSetgid :: "64 word \<Rightarrow> 64 word" where
  "stripSetuidSetgid mode = mode AND NOT 0xC00"

text \<open>A file that is opened without truncation keeps what lies beyond the end of what is written.\<close>

definition overwrite :: "vol_data fnode option \<Rightarrow> vol_data \<Rightarrow> vol_data" where
  "overwrite old new =
     (case (old, new) of (Some (FFile (VRaw a)), VRaw b) \<Rightarrow> VRaw (b @ drop (length b) a) | _ \<Rightarrow> new)"

definition open_write :: "vol_env \<Rightarrow> string \<Rightarrow> vol_data \<Rightarrow> vol_tree \<Rightarrow> (vol_error, unit) res \<times> vol_tree" where
  "open_write env p d t = vol_io (tree_WriteFile (ve_deny env) p (overwrite (node_at t (loc_of p)) d) t)"

definition extract_entry :: "vol_env \<Rightarrow> string \<Rightarrow> vol_data tar_entry \<Rightarrow> vol_tree \<Rightarrow> (vol_error, unit) res \<times> vol_tree" where
  "extract_entry env dest e t =
     (case validateTarPath dest (te_Name e) of
        Inl err \<Rightarrow> (Inl err, t)
      | Inr _ \<Rightarrow>
          (case (if te_Linkname e \<noteq> [] then validateTarPath dest (te_Linkname e) else Inr ()) of
             Inl err \<Rightarrow> (Inl err, t)
           | Inr _ \<Rightarrow>
               let target = path_Join [dest, te_Name e]
               in case te_Typeflag e of
                    TypeDir \<Rightarrow> vol_io (tree_MkdirAll (ve_deny env) target t)
                  | TypeReg \<Rightarrow>
                      (case tree_MkdirAll (ve_deny env) (path_Dir target) t of
                         (Inl err, t1) \<Rightarrow> (Inl (VolIO err), t1)
                       | (Inr _, t1) \<Rightarrow> open_write env target (te_Data e) t1)
                  | TypeOther \<Rightarrow> (Inr (), t)))"

fun extract_all :: "vol_env \<Rightarrow> string \<Rightarrow> vol_data tar_entry list \<Rightarrow> bool \<Rightarrow> vol_tree \<Rightarrow> (vol_error, unit) res \<times> vol_tree" where
  "extract_all env dest [] ends t = ((if ends then Inr () else Inl ArchiveTruncated), t)"
| "extract_all env dest (e # es) ends t =
     (case extract_entry env dest e t of
        (Inl err, t1) \<Rightarrow> (Inl err, t1)
      | (Inr _, t1) \<Rightarrow> extract_all env dest es ends t1)"

definition extract_data :: "vol_env \<Rightarrow> string \<Rightarrow> vol_data \<Rightarrow> vol_tree \<Rightarrow> (vol_error, unit) res \<times> vol_tree" where
  "extract_data env dest d t = (case d of VArchive es ends \<Rightarrow> extract_all env dest es ends t | _ \<Rightarrow> (Inl NotAnArchive, t))"

definition dir_Restore :: "vol_env \<Rightarrow> string \<Rightarrow> string \<Rightarrow> vol_snapshot option \<Rightarrow> vol_tree \<Rightarrow> (vol_error, unit) res \<times> vol_tree" where
  "dir_Restore env base name osnap t =
     (case osnap of
        None \<Rightarrow> (Inl SnapshotNil, t)
      | Some snap \<Rightarrow>
          let dir = dataPath base name
          in case tree_RemoveAll (ve_deny env) dir t of
               (Inl e, t1) \<Rightarrow> (Inl (VolIO e), t1)
             | (Inr _, t1) \<Rightarrow>
                 (case tree_MkdirAll (ve_deny env) dir t1 of
                    (Inl e, t2) \<Rightarrow> (Inl (VolIO e), t2)
                  | (Inr _, t2) \<Rightarrow>
                      (case tree_ReadFile (ve_deny env) (vp_Path snap) t2 of
                         Inl e \<Rightarrow> (Inl (VolIO e), t2)
                       | Inr d \<Rightarrow> extract_data env dir d t2)))"

definition dir_Import :: "vol_env \<Rightarrow> string \<Rightarrow> string \<Rightarrow> vol_data \<Rightarrow> int \<Rightarrow> vol_tree \<Rightarrow> (vol_error, unit) res \<times> vol_tree" where
  "dir_Import env base name stream sizeMB t =
     (case dir_Create env base name \<lparr>vo_Type = VolumeTypeDir, vo_SizeMB = sizeMB\<rparr> t of
        (Inl e, t1) \<Rightarrow> (Inl e, t1)
      | (Inr _, t1) \<Rightarrow> extract_data env (dataPath base name) stream t1)"


end
