(* ===== verification/Volume_Manager.thy ===== *)
theory Volume_Manager
  imports Volume_Archive
begin

text \<open>
  The block driver (\<open>volume_block.go\<close>) and the volume manager (\<open>volume.go\<close>). The programs the block driver
  runs (\<open>mkfs.ext4\<close>, \<open>mount\<close>, \<open>umount\<close>, \<open>cp\<close>, \<open>e2fsck\<close>, \<open>mountpoint\<close>) are the argument \<open>ve_exec\<close>: they succeed or
  fail and may change the tree. What was run is kept in a log.
\<close>

subsection \<open>The block driver\<close>

record vol_world =
  vw_tree :: vol_tree
  vw_log :: "(string list \<times> bool) list"

definition run_vol_cmd :: "vol_env \<Rightarrow> string list \<Rightarrow> vol_world \<Rightarrow> bool \<times> vol_world" where
  "run_vol_cmd env cmd w =
     (case ve_exec env cmd (vw_tree w) of (ok, t) \<Rightarrow> (ok, \<lparr>vw_tree = t, vw_log = vw_log w @ [(cmd, ok)]\<rparr>))"

definition on_tree :: "(vol_tree \<Rightarrow> 'a \<times> vol_tree) \<Rightarrow> vol_world \<Rightarrow> 'a \<times> vol_world" where
  "on_tree f w = (case f (vw_tree w) of (r, t) \<Rightarrow> (r, w\<lparr>vw_tree := t\<rparr>))"

record block_driver =
  bd_base :: string
  bd_mountDir :: string

definition blockImageFile :: string where
  "blockImageFile = ''image.ext4''"

definition NewBlockDriver :: "vol_env \<Rightarrow> string \<Rightarrow> vol_tree \<Rightarrow> (vol_error, block_driver) res \<times> vol_tree" where
  "NewBlockDriver env baseDir t =
     (case NewMetaStore env baseDir t of
        (Inl e, t1) \<Rightarrow> (Inl e, t1)
      | (Inr b, t1) \<Rightarrow>
          let mountDir = path_Join [baseDir, ''.mounts'']
          in case tree_MkdirAll (ve_deny env) mountDir t1 of
               (Inl e, t2) \<Rightarrow> (Inl (VolIO e), t2)
             | (Inr _, t2) \<Rightarrow> (Inr \<lparr>bd_base = b, bd_mountDir = mountDir\<rparr>, t2))"

definition imagePath :: "block_driver \<Rightarrow> string \<Rightarrow> string" where
  "imagePath d name = path_Join [volumeDir (bd_base d) name, blockImageFile]"

definition mountPoint :: "block_driver \<Rightarrow> string \<Rightarrow> string" where
  "mountPoint d name = path_Join [bd_mountDir d, sanitizeVolumeName name]"

definition ensureUnmounted :: "vol_env \<Rightarrow> block_driver \<Rightarrow> string \<Rightarrow> vol_world \<Rightarrow> (vol_error, unit) res \<times> vol_world" where
  "ensureUnmounted env d name w =
     (let mnt = mountPoint d name
      in case run_vol_cmd env [''mountpoint'', ''-q'', mnt] w of
           (False, w1) \<Rightarrow> (Inr (), w1)
         | (True, w1) \<Rightarrow>
             (case run_vol_cmd env [''umount'', mnt] w1 of
                (False, w2) \<Rightarrow> (Inl (CommandFailed [''umount'', mnt]), w2)
              | (True, w2) \<Rightarrow> (Inr (), w2)))"

text \<open>\<open>createSparseFile\<close>: creating, truncating and syncing fail together.\<close>

definition createSparseFile :: "vol_env \<Rightarrow> string \<Rightarrow> int \<Rightarrow> vol_tree \<Rightarrow> (tree_error, unit) res \<times> vol_tree" where
  "createSparseFile env p n t = tree_WriteFile (ve_deny env) p (VSparse n) t"

definition remove_dir :: "vol_env \<Rightarrow> string \<Rightarrow> vol_world \<Rightarrow> vol_world" where
  "remove_dir env dir w = snd (on_tree (tree_RemoveAll (ve_deny env) dir) w)"

definition block_Create :: "vol_env \<Rightarrow> block_driver \<Rightarrow> string \<Rightarrow> volume_options \<Rightarrow> vol_world \<Rightarrow> (vol_error, string) res \<times> vol_world" where
  "block_Create env d name opts w =
     (if name = [] then (Inl NameEmpty, w)
      else let sizeMB = (if vo_SizeMB opts \<le> 0 then 1024 else vo_SizeMB opts); dir = volumeDir (bd_base d) name
           in case CheckCreate sizeMB of
                Inl e \<Rightarrow> (Inl e, w)
              | Inr _ \<Rightarrow>
                  (case on_tree (tree_MkdirAll (ve_deny env) dir) w of
                     (Inl e, w1) \<Rightarrow> (Inl (VolIO e), w1)
                   | (Inr _, w1) \<Rightarrow>
                       (case on_tree (createSparseFile env (imagePath d name) (sizeMB * 1024 * 1024)) w1 of
                          (Inl e, w2) \<Rightarrow> (Inl (VolIO e), remove_dir env dir w2)
                        | (Inr _, w2) \<Rightarrow>
                            (case run_vol_cmd env [''mkfs.ext4'', ''-F'', ''-q'', imagePath d name] w2 of
                               (False, w3) \<Rightarrow> (Inl (CommandFailed [''mkfs.ext4'', ''-F'', ''-q'', imagePath d name]), remove_dir env dir w3)
                             | (True, w3) \<Rightarrow>
                                 (case on_tree (meta_Write env (bd_base d) (new_meta env name VolumeTypeBlock sizeMB)) w3 of
                                    (Inl e, w4) \<Rightarrow> (Inl e, remove_dir env dir w4)
                                  | (Inr _, w4) \<Rightarrow> (Inr dir, w4))))))"

definition block_Delete :: "vol_env \<Rightarrow> block_driver \<Rightarrow> string \<Rightarrow> vol_world \<Rightarrow> (vol_error, unit) res \<times> vol_world" where
  "block_Delete env d name w =
     on_tree (RemoveVolumeDir env (bd_base d) name) (snd (ensureUnmounted env d name w))"

fun clear_entries :: "vol_env \<Rightarrow> string \<Rightarrow> string list \<Rightarrow> vol_tree \<Rightarrow> (tree_error, unit) res \<times> vol_tree" where
  "clear_entries env dir [] t = (Inr (), t)"
| "clear_entries env dir (x # xs) t =
     (case tree_RemoveAll (ve_deny env) (path_Join [dir, x]) t of
        (Inl e, t1) \<Rightarrow> (Inl e, t1)
      | (Inr _, t1) \<Rightarrow> clear_entries env dir xs t1)"

definition clearDirectory :: "vol_env \<Rightarrow> string \<Rightarrow> vol_tree \<Rightarrow> (tree_error, unit) res \<times> vol_tree" where
  "clearDirectory env dir t =
     (case tree_ReadDir (ve_deny env) dir t of Inl e \<Rightarrow> (Inl e, t) | Inr es \<Rightarrow> clear_entries env dir (map fst es) t)"

definition mount_cmd :: "string \<Rightarrow> string \<Rightarrow> string list" where
  "mount_cmd img mnt = [''mount'', ''-o'', ''loop'', img, mnt]"

definition umount_cmd :: "string \<Rightarrow> string list" where
  "umount_cmd mnt = [''umount'', mnt]"

definition fsck :: "vol_env \<Rightarrow> string \<Rightarrow> vol_world \<Rightarrow> bool \<times> vol_world" where
  "fsck env img = run_vol_cmd env [''e2fsck'', ''-p'', ''-f'', img]"

definition block_Mount :: "vol_env \<Rightarrow> block_driver \<Rightarrow> string \<Rightarrow> string \<Rightarrow> string \<Rightarrow> vol_world \<Rightarrow> (vol_error, unit) res \<times> vol_world" where
  "block_Mount env d name rootfs target w =
     (let img = imagePath d name; mnt = mountPoint d name; dest = path_Join [rootfs, ensureAbsolutePath target];
          umount = (\<lambda>w. snd (run_vol_cmd env (umount_cmd mnt) w))
      in case tree_Stat (ve_deny env) img (vw_tree w) of
           Inl _ \<Rightarrow> (Inl ImageNotFound, w)
         | Inr _ \<Rightarrow>
             (case on_tree (tree_MkdirAll (ve_deny env) mnt) w of
                (Inl e, w1) \<Rightarrow> (Inl (VolIO e), w1)
              | (Inr _, w1) \<Rightarrow>
                  (case run_vol_cmd env (mount_cmd img mnt) w1 of
                     (False, w2) \<Rightarrow> (Inl (CommandFailed (mount_cmd img mnt)), w2)
                   | (True, w2) \<Rightarrow>
                       (case on_tree (tree_MkdirAll (ve_deny env) dest) w2 of
                          (Inl e, w3) \<Rightarrow> (Inl (VolIO e), umount w3)
                        | (Inr _, w3) \<Rightarrow>
                            (case on_tree (copyDirectory env mnt dest) w3 of
                               (Inl e, w4) \<Rightarrow> (Inl e, umount w4)
                             | (Inr _, w4) \<Rightarrow>
                                 (Inr (), snd (on_tree (TouchLastUsed env (bd_base d) name) (umount w4))))))))"

definition block_Unmount :: "vol_env \<Rightarrow> block_driver \<Rightarrow> string \<Rightarrow> string \<Rightarrow> string \<Rightarrow> bool \<Rightarrow> vol_world \<Rightarrow> (vol_error, unit) res \<times> vol_world" where
  "block_Unmount env d name rootfs target readOnly w =
     (let img = imagePath d name; mnt = mountPoint d name; src = path_Join [rootfs, ensureAbsolutePath target];
          umount = (\<lambda>w. snd (run_vol_cmd env (umount_cmd mnt) w))
      in if readOnly then (Inr (), w)
         else case tree_Stat (ve_deny env) img (vw_tree w) of
           Inl _ \<Rightarrow> (Inl ImageNotFound, w)
         | Inr _ \<Rightarrow>
             (case meta_Read env (bd_base d) name (vw_tree w) of
                Inl e \<Rightarrow> (Inl e, w)
              | Inr m \<Rightarrow>
                  (case CheckSync env name src (mt_SizeMB m) (vw_tree w) of
                     Inl e \<Rightarrow> (Inl e, w)
                   | Inr _ \<Rightarrow>
                       (case on_tree (tree_MkdirAll (ve_deny env) mnt) w of
                          (Inl e, w1) \<Rightarrow> (Inl (VolIO e), w1)
                        | (Inr _, w1) \<Rightarrow>
                            (case run_vol_cmd env (mount_cmd img mnt) w1 of
                               (False, w2) \<Rightarrow> (Inl (CommandFailed (mount_cmd img mnt)), w2)
                             | (True, w2) \<Rightarrow>
                                 (case on_tree (clearDirectory env mnt) w2 of
                                    (Inl e, w3) \<Rightarrow> (Inl (VolIO e), umount w3)
                                  | (Inr _, w3) \<Rightarrow>
                                      (case on_tree (copyDirectory env src mnt) w3 of
                                         (Inl e, w4) \<Rightarrow> (Inl e, umount w4)
                                       | (Inr _, w4) \<Rightarrow>
                                           (case run_vol_cmd env (umount_cmd mnt) w4 of
                                              (False, w5) \<Rightarrow> (Inl (CommandFailed (umount_cmd mnt)), w5)
                                            | (True, w5) \<Rightarrow> (Inr (), snd (fsck env img w5))))))))))"

definition image_size :: "vol_env \<Rightarrow> string \<Rightarrow> vol_tree \<Rightarrow> (tree_error, int) res" where
  "image_size env p t =
     (case tree_Stat (ve_deny env) p t of
        Inl e \<Rightarrow> Inl e
      | Inr n \<Rightarrow> Inr (case n of FFile d \<Rightarrow> ve_size env d | FDir \<Rightarrow> 0))"

definition block_Stat :: "vol_env \<Rightarrow> block_driver \<Rightarrow> string \<Rightarrow> vol_tree \<Rightarrow> (vol_error, volume_info) res" where
  "block_Stat env d name t =
     (case meta_Read env (bd_base d) name t of
        Inl e \<Rightarrow> Inl e
      | Inr m \<Rightarrow> Inr (volume_info_of m (imagePath d name)
          (case image_size env (imagePath d name) t of Inl _ \<Rightarrow> 0 | Inr n \<Rightarrow> n div (1024 * 1024))))"

definition block_Capacity :: "vol_env \<Rightarrow> block_driver \<Rightarrow> string \<Rightarrow> vol_tree \<Rightarrow> (vol_error, int \<times> int) res" where
  "block_Capacity env d name t =
     (case meta_Read env (bd_base d) name t of
        Inl e \<Rightarrow> Inl e
      | Inr m \<Rightarrow>
          (case image_size env (imagePath d name) t of
             Inl e \<Rightarrow> Inl (VolIO e)
           | Inr n \<Rightarrow> Inr (n, mt_SizeMB m * 1024 * 1024)))"

definition block_Snapshot :: "vol_env \<Rightarrow> block_driver \<Rightarrow> string \<Rightarrow> vol_world \<Rightarrow> (vol_error, vol_snapshot) res \<times> vol_world" where
  "block_Snapshot env d name w =
     (case tree_Stat (ve_deny env) (imagePath d name) (vw_tree w) of
        Inl _ \<Rightarrow> (Inl ImageNotFound, w)
      | Inr _ \<Rightarrow>
          (case on_tree (tree_MkdirAll (ve_deny env) (snapshots_dir (bd_base d))) w of
             (Inl e, w1) \<Rightarrow> (Inl (VolIO e), w1)
           | (Inr _, w1) \<Rightarrow>
               let i = name @ ''-'' @ dec_of_int (ve_milli env);
                   p = path_Join [snapshots_dir (bd_base d), i @ ''.ext4''];
                   cmd = [''cp'', imagePath d name, p]
               in case run_vol_cmd env cmd w1 of
                    (False, w2) \<Rightarrow> (Inl (CommandFailed cmd), w2)
                  | (True, w2) \<Rightarrow>
                      (Inr \<lparr>vp_SnapID = i, vp_Volume = name, vp_Path = p, vp_CreatedAt = ve_now env,
                            vp_SizeMB = (case image_size env p (vw_tree w2) of Inl _ \<Rightarrow> 0 | Inr n \<Rightarrow> n div (1024 * 1024))\<rparr>, w2)))"

definition block_Restore :: "vol_env \<Rightarrow> block_driver \<Rightarrow> string \<Rightarrow> vol_snapshot option \<Rightarrow> vol_world \<Rightarrow> (vol_error, unit) res \<times> vol_world" where
  "block_Restore env d name osnap w =
     (case osnap of
        None \<Rightarrow> (Inl SnapshotNil, w)
      | Some snap \<Rightarrow>
          let cmd = [''cp'', vp_Path snap, imagePath d name]
          in case run_vol_cmd env cmd (snd (ensureUnmounted env d name w)) of
               (False, w1) \<Rightarrow> (Inl (CommandFailed cmd), w1)
             | (True, w1) \<Rightarrow> (Inr (), snd (fsck env (imagePath d name) w1)))"

definition block_Export :: "vol_env \<Rightarrow> block_driver \<Rightarrow> string \<Rightarrow> vol_tree \<Rightarrow> (vol_error, vol_data) res" where
  "block_Export env d name t = map_sum VolIO id (tree_ReadFile (ve_deny env) (imagePath d name) t)"

definition block_Import :: "vol_env \<Rightarrow> block_driver \<Rightarrow> string \<Rightarrow> vol_data \<Rightarrow> int \<Rightarrow> vol_world \<Rightarrow> (vol_error, unit) res \<times> vol_world" where
  "block_Import env d name stream sizeMB w =
     (let img = imagePath d name;
          w1 = (case block_Create env d name \<lparr>vo_Type = VolumeTypeBlock, vo_SizeMB = sizeMB\<rparr> w of
                  (Inl _, w') \<Rightarrow> snd (ensureUnmounted env d name w')
                | (Inr _, w') \<Rightarrow> w')
      in case on_tree (tree_WriteFile (ve_deny env) img stream) w1 of
           (Inl e, w2) \<Rightarrow> (Inl (VolIO e), w2)
         | (Inr _, w2) \<Rightarrow>
             (case fsck env img w2 of
                (False, w3) \<Rightarrow> (Inl (CommandFailed [''e2fsck'', ''-p'', ''-f'', img]), w3)
              | (True, w3) \<Rightarrow> (Inr (), w3)))"

subsection \<open>The manager\<close>

datatype vol_driver = DirectoryDriver string | BlockDriver block_driver

record vol_manager =
  vg_drivers :: "string \<rightharpoonup> vol_driver"
  vg_defaultType :: string

record volume =
  vol_ID :: string
  vol_Name :: string
  vol_Path :: string
  vol_TaskID :: string

text \<open>The interface \<open>VolumeDriver\<close>.\<close>

definition drv_base :: "vol_driver \<Rightarrow> string" where
  "drv_base d = (case d of DirectoryDriver b \<Rightarrow> b | BlockDriver bd \<Rightarrow> bd_base bd)"

definition drv_Create :: "vol_env \<Rightarrow> vol_driver \<Rightarrow> string \<Rightarrow> volume_options \<Rightarrow> vol_world \<Rightarrow> (vol_error, string) res \<times> vol_world" where
  "drv_Create env d name opts w =
     (case d of DirectoryDriver b \<Rightarrow> on_tree (dir_Create env b name opts) w | BlockDriver bd \<Rightarrow> block_Create env bd name opts w)"

definition drv_Delete :: "vol_env \<Rightarrow> vol_driver \<Rightarrow> string \<Rightarrow> vol_world \<Rightarrow> (vol_error, unit) res \<times> vol_world" where
  "drv_Delete env d name w =
     (case d of DirectoryDriver b \<Rightarrow> on_tree (dir_Delete env b name) w | BlockDriver bd \<Rightarrow> block_Delete env bd name w)"

definition drv_Mount :: "vol_env \<Rightarrow> vol_driver \<Rightarrow> string \<Rightarrow> string \<Rightarrow> string \<Rightarrow> vol_world \<Rightarrow> (vol_error, unit) res \<times> vol_world" where
  "drv_Mount env d name rootfs target w =
     (case d of DirectoryDriver b \<Rightarrow> on_tree (dir_Mount env b name rootfs target) w
      | BlockDriver bd \<Rightarrow> block_Mount env bd name rootfs target w)"

definition drv_Unmount :: "vol_env \<Rightarrow> vol_driver \<Rightarrow> string \<Rightarrow> string \<Rightarrow> string \<Rightarrow> bool \<Rightarrow> vol_world \<Rightarrow> (vol_error, unit) res \<times> vol_world" where
  "drv_Unmount env d name rootfs target readOnly w =
     (case d of DirectoryDriver b \<Rightarrow> on_tree (dir_Unmount env b name rootfs target readOnly) w
      | BlockDriver bd \<Rightarrow> block_Unmount env bd name rootfs target readOnly w)"

definition drv_Stat :: "vol_env \<Rightarrow> vol_driver \<Rightarrow> string \<Rightarrow> vol_world \<Rightarrow> (vol_error, volume_info) res" where
  "drv_Stat env d name w =
     (case d of DirectoryDriver b \<Rightarrow> dir_Stat env b name (vw_tree w) | BlockDriver bd \<Rightarrow> block_Stat env bd name (vw_tree w))"

definition drv_Snapshot :: "vol_env \<Rightarrow> vol_driver \<Rightarrow> string \<Rightarrow> vol_world \<Rightarrow> (vol_error, vol_snapshot) res \<times> vol_world" where
  "drv_Snapshot env d name w =
     (case d of DirectoryDriver b \<Rightarrow> on_tree (dir_Snapshot env b name) w | BlockDriver bd \<Rightarrow> block_Snapshot env bd name w)"

definition drv_Restore :: "vol_env \<Rightarrow> vol_driver \<Rightarrow> string \<Rightarrow> vol_snapshot option \<Rightarrow> vol_world \<Rightarrow> (vol_error, unit) res \<times> vol_world" where
  "drv_Restore env d name snap w =
     (case d of DirectoryDriver b \<Rightarrow> on_tree (dir_Restore env b name snap) w | BlockDriver bd \<Rightarrow> block_Restore env bd name snap w)"

definition NewVolumeManager :: "vol_env \<Rightarrow> string \<Rightarrow> vol_tree \<Rightarrow> (vol_error, vol_manager) res \<times> vol_tree" where
  "NewVolumeManager env dir t =
     (let volumesDir = (if dir = [] then ''/var/lib/swarmcracker/volumes'' else dir)
      in case NewMetaStore env volumesDir t of
           (Inl e, t1) \<Rightarrow> (Inl e, t1)
         | (Inr b, t1) \<Rightarrow>
             (case NewBlockDriver env volumesDir t1 of
                (Inl _, t2) \<Rightarrow> (Inr \<lparr>vg_drivers = [VolumeTypeDir \<mapsto> DirectoryDriver b], vg_defaultType = VolumeTypeDir\<rparr>, t2)
              | (Inr bd, t2) \<Rightarrow> (Inr \<lparr>vg_drivers = [VolumeTypeDir \<mapsto> DirectoryDriver b, VolumeTypeBlock \<mapsto> BlockDriver bd],
                    vg_defaultType = VolumeTypeDir\<rparr>, t2)))"

definition getDriver :: "vol_manager \<Rightarrow> string \<Rightarrow> (vol_error, vol_driver) res" where
  "getDriver vm ty =
     (let t = (if ty = [] then vg_defaultType vm else ty)
      in case vg_drivers vm t of None \<Rightarrow> Inl (DriverMissing t) | Some d \<Rightarrow> Inr d)"

definition CreateVolumeWithOptions ::
    "vol_env \<Rightarrow> vol_manager \<Rightarrow> string \<Rightarrow> string \<Rightarrow> volume_options \<Rightarrow> vol_world \<Rightarrow> (vol_error, volume) res \<times> vol_world" where
  "CreateVolumeWithOptions env vm name taskID opts w =
     (if name = [] then (Inl NameEmpty, w)
      else case getDriver vm (vo_Type opts) of
             Inl e \<Rightarrow> (Inl e, w)
           | Inr d \<Rightarrow>
               (case drv_Create env d name opts w of
                  (Inl e, w1) \<Rightarrow> (Inl e, w1)
                | (Inr path, w1) \<Rightarrow>
                    (Inr \<lparr>vol_ID = sanitizeVolumeName name, vol_Name = name, vol_Path = path, vol_TaskID = taskID\<rparr>,
                     snd (on_tree (UpdateTaskID env (drv_base d) name taskID) w1))))"

definition CreateVolume :: "vol_env \<Rightarrow> vol_manager \<Rightarrow> string \<Rightarrow> string \<Rightarrow> int \<Rightarrow> vol_world \<Rightarrow> (vol_error, volume) res \<times> vol_world" where
  "CreateVolume env vm name taskID sizeMB w =
     CreateVolumeWithOptions env vm name taskID \<lparr>vo_Type = vg_defaultType vm, vo_SizeMB = sizeMB\<rparr> w"

text \<open>The loop over the driver types that most operations start with: the first driver that has metadata of the volume.\<close>

fun first_driver :: "vol_env \<Rightarrow> vol_manager \<Rightarrow> string \<Rightarrow> string list \<Rightarrow> vol_world \<Rightarrow> (vol_driver \<times> volume_info) option" where
  "first_driver env vm name [] w = None"
| "first_driver env vm name (ty # tys) w =
     (case getDriver vm ty of
        Inl _ \<Rightarrow> first_driver env vm name tys w
      | Inr d \<Rightarrow>
          (case drv_Stat env d name w of
             Inl _ \<Rightarrow> first_driver env vm name tys w
           | Inr info \<Rightarrow> Some (d, info)))"

definition driver_for :: "vol_env \<Rightarrow> vol_manager \<Rightarrow> string \<Rightarrow> vol_world \<Rightarrow> (vol_driver \<times> volume_info) option" where
  "driver_for env vm name w = first_driver env vm name [VolumeTypeDir, VolumeTypeBlock] w"

definition GetVolume :: "vol_env \<Rightarrow> vol_manager \<Rightarrow> string \<Rightarrow> vol_world \<Rightarrow> (vol_error, volume) res" where
  "GetVolume env vm name w =
     (case driver_for env vm name w of
        None \<Rightarrow> Inl VolNotFound
      | Some (d, info) \<Rightarrow> Inr \<lparr>vol_ID = sanitizeVolumeName name, vol_Name = name, vol_Path = vi_Path info, vol_TaskID = []\<rparr>)"

definition GetVolumeInfo :: "vol_env \<Rightarrow> vol_manager \<Rightarrow> string \<Rightarrow> string \<Rightarrow> vol_world \<Rightarrow> (vol_error, volume_info) res" where
  "GetVolumeInfo env vm name ty w = (case getDriver vm ty of Inl e \<Rightarrow> Inl e | Inr d \<Rightarrow> drv_Stat env d name w)"

definition MountVolume :: "vol_env \<Rightarrow> vol_manager \<Rightarrow> volume option \<Rightarrow> string \<Rightarrow> string \<Rightarrow> vol_world \<Rightarrow> (vol_error, unit) res \<times> vol_world" where
  "MountVolume env vm ov rootfs target w =
     (case ov of
        None \<Rightarrow> (Inl VolumeNil, w)
      | Some v \<Rightarrow>
          (case driver_for env vm (vol_Name v) w of
             None \<Rightarrow> (Inl VolNotFound, w)
           | Some (d, _) \<Rightarrow> drv_Mount env d (vol_Name v) rootfs target w))"

definition UnmountVolume ::
    "vol_env \<Rightarrow> vol_manager \<Rightarrow> volume option \<Rightarrow> string \<Rightarrow> string \<Rightarrow> bool \<Rightarrow> vol_world \<Rightarrow> (vol_error, unit) res \<times> vol_world" where
  "UnmountVolume env vm ov rootfs target readOnly w =
     (case ov of
        None \<Rightarrow> (Inl VolumeNil, w)
      | Some v \<Rightarrow>
          (case driver_for env vm (vol_Name v) w of
             None \<Rightarrow> (Inl VolNotFound, w)
           | Some (d, _) \<Rightarrow> drv_Unmount env d (vol_Name v) rootfs target readOnly w))"

definition DeleteVolume :: "vol_env \<Rightarrow> vol_manager \<Rightarrow> string \<Rightarrow> vol_world \<Rightarrow> (vol_error, unit) res \<times> vol_world" where
  "DeleteVolume env vm name w =
     (case driver_for env vm name w of None \<Rightarrow> (Inl VolNotFound, w) | Some (d, _) \<Rightarrow> drv_Delete env d name w)"

definition SnapshotVolume :: "vol_env \<Rightarrow> vol_manager \<Rightarrow> string \<Rightarrow> vol_world \<Rightarrow> (vol_error, vol_snapshot) res \<times> vol_world" where
  "SnapshotVolume env vm name w =
     (case driver_for env vm name w of None \<Rightarrow> (Inl VolNotFound, w) | Some (d, _) \<Rightarrow> drv_Snapshot env d name w)"

definition RestoreVolume :: "vol_env \<Rightarrow> vol_manager \<Rightarrow> string \<Rightarrow> vol_snapshot option \<Rightarrow> vol_world \<Rightarrow> (vol_error, unit) res \<times> vol_world" where
  "RestoreVolume env vm name snap w =
     (case driver_for env vm name w of None \<Rightarrow> (Inl VolNotFound, w) | Some (d, _) \<Rightarrow> drv_Restore env d name snap w)"

text \<open>The listings visit the directory driver only.\<close>

definition dir_metas :: "vol_env \<Rightarrow> vol_manager \<Rightarrow> vol_world \<Rightarrow> (string \<times> volume_meta) list" where
  "dir_metas env vm w =
     concat (map (\<lambda>ty. case getDriver vm ty of
         Inr (DirectoryDriver b) \<Rightarrow> (case meta_List env b (vw_tree w) of Inr ms \<Rightarrow> map (\<lambda>m. (b, m)) ms | Inl _ \<Rightarrow> [])
       | _ \<Rightarrow> []) [VolumeTypeDir, VolumeTypeBlock])"

definition ListVolumes :: "vol_env \<Rightarrow> vol_manager \<Rightarrow> vol_world \<Rightarrow> volume list" where
  "ListVolumes env vm w =
     map (\<lambda>(b, m). \<lparr>vol_ID = sanitizeVolumeName (mt_Name m), vol_Name = mt_Name m, vol_Path = [], vol_TaskID = mt_TaskID m\<rparr>)
       (dir_metas env vm w)"

definition ListVolumeInfos :: "vol_env \<Rightarrow> vol_manager \<Rightarrow> vol_world \<Rightarrow> volume_info list" where
  "ListVolumeInfos env vm w =
     map (\<lambda>(b, m). volume_info_of m [] (case dirSizeMB env (dataPath b (mt_Name m)) (vw_tree w) of Inl _ \<Rightarrow> 0 | Inr n \<Rightarrow> n))
       (dir_metas env vm w)"

end
