(* ===== verification/Volume_Copy.thy ===== *)
theory Volume_Copy
  imports Volume_Manager
begin

text \<open>
  What the directory driver does to a tree: the names of volumes stay inside the directory of the volumes,
  and \<open>copyDirectory\<close> lays the tree below its source over the tree below its destination.
\<close>

subsection \<open>Names of volumes\<close>

lemma set_replace_all: "set (replace_all p r s) \<subseteq> set s \<union> set r"
proof (induction p r s rule: replace_all.induct)
  case (1 p r s)
  have "set (drop (length p) s) \<subseteq> set s" "set (tl s) \<subseteq> set s"
    by (simp_all add: set_drop_subset) (cases s, auto)
  then show ?case
    using 1 by (subst replace_all.simps) (auto simp: list.set_sel(1))
qed

lemma replace_all_char:
  assumes "c \<notin> set r"
  shows "c \<notin> set (replace_all [c] r s)"
proof (induction s)
  case (Cons a s)
  then show ?case using assms by (subst replace_all.simps) (cases "a = c", auto)
qed (simp add: replace_all.simps)

lemma dropWhile_split: "dropWhile P s = xs \<Longrightarrow> s = takeWhile P s @ xs"
  by auto

lemma trim_dots_split:
  obtains a b where "s = a @ trim_dots s @ b" and "trim_dots s \<noteq> [] \<Longrightarrow> hd (trim_dots s) \<noteq> CHR ''.''"
proof -
  define P where "P = (\<lambda>c. c \<in> {CHR ''.'', CHR '' ''})"
  define u where "u = dropWhile P s"
  have t: "trim_dots s = rev (dropWhile P (rev u))" by (simp add: trim_dots_def Let_def P_def u_def)
  have "rev u = takeWhile P (rev u) @ dropWhile P (rev u)" by simp
  then have u: "u = trim_dots s @ rev (takeWhile P (rev u))" by (metis rev_append rev_rev_ident t)
  have "hd (trim_dots s) \<noteq> CHR ''.''" if "trim_dots s \<noteq> []"
  proof -
    have "u \<noteq> []" using u that by auto
    then have "\<not> P (hd u)" unfolding u_def by (rule hd_dropWhile)
    then show ?thesis using u that by (metis P_def hd_append2 insertI1)
  qed
  moreover have "s = takeWhile P s @ u" by (simp add: u_def)
  ultimately show thesis using that u by metis
qed

lemma set_trim_dots: "set (trim_dots s) \<subseteq> set s"
  by (rule trim_dots_split [of s]) (metis UnCI set_append subsetI)

lemma hd_trim_dots: "trim_dots s \<noteq> [] \<Longrightarrow> hd (trim_dots s) \<noteq> CHR ''.''"
  by (rule trim_dots_split [of s])

lemma sanitized: "plain_name (sanitizeVolumeName name)" "hd (sanitizeVolumeName name) \<noteq> CHR ''.''"
proof -
  define n3 where "n3 = replace_all ''..'' ''_'' (replace_all [CHR 0x5C] ''_'' (replace_all ''/'' ''_'' name))"
  define n5 where "n5 = trim_dots (replace_all '':'' ''_'' n3)"
  have "CHR ''/'' \<notin> set (replace_all ''/'' ''_'' name)" by (rule replace_all_char) simp
  then have "CHR ''/'' \<notin> set n5"
    using set_replace_all [of "[CHR 0x5C]" "''_''" "replace_all ''/'' ''_'' name"]
      set_replace_all [of "''..''" "''_''" "replace_all [CHR 0x5C] ''_'' (replace_all ''/'' ''_'' name)"]
      set_replace_all [of "'':''" "''_''" n3] set_trim_dots [of "replace_all '':'' ''_'' n3"]
    unfolding n5_def n3_def by auto
  moreover have s: "sanitizeVolumeName name = (if n5 = [] then ''unnamed'' else n5)"
    by (simp add: sanitizeVolumeName_def n3_def n5_def Let_def)
  moreover have h: "hd n5 \<noteq> CHR ''.''" if "n5 \<noteq> []" using hd_trim_dots that unfolding n5_def by blast
  ultimately show "plain_name (sanitizeVolumeName name)" "hd (sanitizeVolumeName name) \<noteq> CHR ''.''"
    by (auto simp: plain_name_def)
qed

lemma loc_volumeDir: "base \<noteq> [] \<Longrightarrow> loc_of (volumeDir base name) = child (loc_of base) (sanitizeVolumeName name)"
  unfolding volumeDir_def by (rule loc_child [OF sanitized(1)])

subsection \<open>Locations below a directory\<close>

definition beneath :: "loc \<Rightarrow> string list \<Rightarrow> loc" where
  "beneath l r = Loc (l_root l) (l_elems l @ r)"

lemma beneath_simps [simp]: "beneath l [] = l" "beneath (child l x) r = beneath l (x # r)" "beneath (beneath l a) r = beneath l (a @ r)"
  "l_root (beneath l r) = l_root l" "below l (beneath l r)"
  by (simp_all add: beneath_def below_def)

lemma beneath_inj [simp]: "beneath l r = beneath l r' \<longleftrightarrow> r = r'"
  by (simp add: beneath_def)

lemma child_beneath: "child (beneath l r) x = beneath l (r @ [x])" "child l x = beneath l [x]"
  by (simp_all add: beneath_def child_def)

lemma below_iff: "below l l' \<longleftrightarrow> (\<exists>r. l' = beneath l r)"
  by (cases l') (auto simp: below_def beneath_def prefix_def)

lemma below_linear: "below a c \<Longrightarrow> below b c \<Longrightarrow> below a b \<or> below b a"
  using prefix_same_cases by (fastforce simp: below_def)

text \<open>Two directories that do not contain each other.\<close>

definition apart :: "loc \<Rightarrow> loc \<Rightarrow> bool" where
  "apart a b \<longleftrightarrow> \<not> below a b \<and> \<not> below b a"

lemma apart_sym: "apart a b \<longleftrightarrow> apart b a"
  by (auto simp: apart_def)

lemma apart_below: "apart a b \<Longrightarrow> below a l \<Longrightarrow> \<not> below b l \<and> \<not> below l b"
  unfolding apart_def using below_linear below_trans by blast

lemma apart_beneath: "apart a b \<Longrightarrow> apart (beneath a r) (beneath b r')"
proof -
  assume ab: "apart a b"
  have "\<not> below (beneath a r) (beneath b r')" if "apart a b" for a b r r'
    using apart_below [OF that, of "beneath b r'"] below_trans [of a "beneath a r" "beneath b r'"] by auto
  then show ?thesis using ab apart_sym [of a b] by (simp add: apart_def)
qed

lemma node_below_file: "tree_ok t \<Longrightarrow> node_at t l = Some (FFile d) \<Longrightarrow> r \<noteq> [] \<Longrightarrow> node_at t (beneath l r) = None"
  using tree_ok_above [of t "beneath l r" _ l] by (cases "node_at t (beneath l r)") (auto simp: beneath_def loc_eq_iff below_def)

subsection \<open>Copying\<close>

lemma copyFile_ok:
  assumes ok: "tree_ok t" and c: "copyFile env src dst t = (Inr u, t')" and p: "plain_name (last (l_elems (loc_of dst)))"
  shows "\<exists>d. node_at t (loc_of src) = Some (FFile d) \<and> tree_ok t' \<and>
    (\<forall>l. node_at t' l = (if l = loc_of dst then Some (FFile d) else node_at t l))"
proof -
  from c obtain d where d: "node_at t (loc_of src) = Some (FFile d)" and w: "tree_WriteFile (ve_deny env) dst d t = (Inr u, t')"
    by (auto simp: copyFile_def tree_ReadFile_def lookup_node_def vol_io_def prod_eq_iff map_sum_def
        split: sum.splits if_splits option.splits fnode.splits)
  from WriteFile_ok [OF ok w p] d show ?thesis by auto
qed

lemma copy_overlay:
  "copy_dir n env src dst t = (Inr u, t') \<Longrightarrow> tree_ok t \<Longrightarrow> path_IsAbs src \<Longrightarrow> path_IsAbs dst \<Longrightarrow>
     apart (loc_of src) (loc_of dst) \<Longrightarrow> node_at t (loc_of src) = Some FDir \<Longrightarrow>
     tree_ok t' \<and>
     (\<forall>r. node_at t' (beneath (loc_of dst) r) =
        (if node_at t (beneath (loc_of src) r) \<noteq> None then node_at t (beneath (loc_of src) r) else node_at t (beneath (loc_of dst) r))) \<and>
     (\<forall>l. \<not> below (loc_of dst) l \<longrightarrow> node_at t' l = (if below l (loc_of dst) then Some FDir else node_at t l))"
  "copy_entries n env src dst es t = (Inr u, t') \<Longrightarrow> tree_ok t \<Longrightarrow> path_IsAbs src \<Longrightarrow> path_IsAbs dst \<Longrightarrow>
     apart (loc_of src) (loc_of dst) \<Longrightarrow> node_at t (loc_of dst) = Some FDir \<Longrightarrow>
     \<forall>(x, b) \<in> set es. plain_name x \<and> b = (node_at t (child (loc_of src) x) = Some FDir) \<Longrightarrow>
     tree_ok t' \<and>
     (\<forall>x r. node_at t' (beneath (loc_of dst) (x # r)) =
        (if x \<in> fst ` set es \<and> node_at t (beneath (loc_of src) (x # r)) \<noteq> None then node_at t (beneath (loc_of src) (x # r))
         else node_at t (beneath (loc_of dst) (x # r)))) \<and>
     (\<forall>l. (\<forall>x r. l \<noteq> beneath (loc_of dst) (x # r)) \<longrightarrow> node_at t' l = node_at t l)"
proof (induction n env src dst t and n env src dst es t arbitrary: u t' and u t' rule: copy_dir_copy_entries.induct)
  case (1 env src dst t)
  then show ?case by simp
next
  case (2 n env src dst t)
  let ?S = "loc_of src" and ?D = "loc_of dst"
  from "2.prems"(1) obtain n0 t1 es where s0: "tree_Stat (ve_deny env) src t = Inr n0"
      and m: "tree_MkdirAll (ve_deny env) dst t = (Inr (), t1)"
      and rd: "tree_ReadDir (ve_deny env) src t1 = Inr es" and c: "copy_entries n env src dst es t1 = (Inr u, t')"
    by (auto split: sum.splits prod.splits)
  have n1: "node_at t1 l = (if below l ?D then Some FDir else node_at t l)" and o1: "tree_ok t1" for l
    using MkdirAll_ok [OF "2.prems"(2) m] by auto
  have es: "es = map (\<lambda>x. (x, node_at t1 (child ?S x) = Some FDir)) (children t1 ?S)"
    using rd by (auto simp: tree_ReadDir_def Let_def split: if_splits sum.splits fnode.splits)
  have src: "node_at t1 (beneath ?S r) = node_at t (beneath ?S r)" for r
    using apart_below [OF "2.prems"(5), of "beneath ?S r"] by (simp add: n1)
  have "\<forall>(x, b) \<in> set es. plain_name x \<and> b = (node_at t1 (child ?S x) = Some FDir)"
    using tree_ok_children [OF o1 fst_loc_abs [OF "2.prems"(3)]] by (auto simp: es)
  then have ih: "tree_ok t' \<and>
     (\<forall>x r. node_at t' (beneath ?D (x # r)) =
        (if x \<in> fst ` set es \<and> node_at t1 (beneath ?S (x # r)) \<noteq> None then node_at t1 (beneath ?S (x # r))
         else node_at t1 (beneath ?D (x # r)))) \<and>
     (\<forall>l. (\<forall>x r. l \<noteq> beneath ?D (x # r)) \<longrightarrow> node_at t' l = node_at t1 l)"
    using "2.IH" [OF s0 m [symmetric] refl rd c o1 "2.prems"(3,4,5)] by (simp add: n1)
  have listed: "x \<in> fst ` set es" if "node_at t (beneath ?S (x # r)) \<noteq> None" for x r
  proof -
    have "node_at t (child ?S x) \<noteq> None"
      using that tree_ok_above [OF "2.prems"(2), of "beneath ?S (x # r)" _ "child ?S x"] by (cases r) (auto simp: child_beneath below_def beneath_def)
    then have "x \<in> set (children t1 ?S)" using src [of "[x]"] by (simp add: set_children child_beneath)
    then show ?thesis by (force simp: es)
  qed
  have top: "node_at t' (beneath ?D (x # r)) =
      (if node_at t (beneath ?S (x # r)) \<noteq> None then node_at t (beneath ?S (x # r)) else node_at t (beneath ?D (x # r)))" for x r
  proof -
    have "\<not> below (beneath ?D (x # r)) ?D" by (simp add: below_def beneath_def)
    then show ?thesis using ih src listed n1 by auto
  qed
  show ?case
  proof (intro conjI allI impI)
    show "tree_ok t'" using ih by blast
    show "node_at t' (beneath ?D r) = (if node_at t (beneath ?S r) \<noteq> None then node_at t (beneath ?S r) else node_at t (beneath ?D r))" for r
    proof (cases r)
      case Nil
      have "\<forall>x r. ?D \<noteq> beneath ?D (x # r)" by (simp add: beneath_def loc_eq_iff)
      then show ?thesis using ih Nil "2.prems"(6) by (simp add: n1)
    qed (simp add: top)
    show "node_at t' l = (if below l ?D then Some FDir else node_at t l)" if "\<not> below ?D l" for l
    proof -
      have "\<forall>x r. l \<noteq> beneath ?D (x # r)" using that by (auto simp: below_iff)
      then show ?thesis using ih by (simp add: n1)
    qed
  qed
next
  case (3 n env src dst t)
  then show ?case by simp
next
  case (4 n env src dst x isdir es t)
  let ?S = "loc_of src" and ?D = "loc_of dst"
  have p: "plain_name x" and b: "isdir = (node_at t (child ?S x) = Some FDir)" using "4.prems"(7) by auto
  have ne: "src \<noteq> []" "dst \<noteq> []" using "4.prems"(3,4) by (auto simp: path_IsAbs_def)
  note lx = loc_child [OF p ne(1)] loc_child [OF p ne(2)]
  from "4.prems"(1) obtain t1 u1 where c1: "(if isdir then copy_dir n env (path_Join [src, x]) (path_Join [dst, x]) t
        else copyFile env (path_Join [src, x]) (path_Join [dst, x]) t) = (Inr u1, t1)"
      and c2: "copy_entries n env src dst es t1 = (Inr u, t')"
    by (auto split: prod.splits sum.splits)
  have ap: "apart (child ?S x) (child ?D x)" using apart_beneath [OF "4.prems"(5), of "[x]" "[x]"] by (simp add: child_beneath)
  have above: "node_at t l = Some FDir" if "below l ?D" for l
    using that tree_ok_above [OF "4.prems"(2,6) that] "4.prems"(6) by (cases "l = ?D") simp_all
  have step: "tree_ok t1 \<and> (\<forall>r. node_at t1 (beneath ?D (x # r)) =
        (if node_at t (beneath ?S (x # r)) \<noteq> None then node_at t (beneath ?S (x # r)) else node_at t (beneath ?D (x # r)))) \<and>
      (\<forall>l. \<not> below (child ?D x) l \<longrightarrow> node_at t1 l = node_at t l)"
  proof (cases isdir)
    case True
    then have d: "node_at t (loc_of (path_Join [src, x])) = Some FDir" and c: "copy_dir n env (path_Join [src, x]) (path_Join [dst, x]) t = (Inr u1, t1)"
      using b c1 by (simp_all add: lx)
    have "below l ?D" if "below l (child ?D x)" "\<not> below (child ?D x) l" for l
      using that below_cases [of l "child ?D x"] by (cases "l = child ?D x") simp_all
    then show ?thesis
      using "4.IH"(1) [OF True c "4.prems"(2) _ _ _ d] "4.prems"(3,4) p ap above by (auto simp: path_IsAbs_Join lx)
  next
    case False
    then have c: "copyFile env (path_Join [src, x]) (path_Join [dst, x]) t = (Inr u1, t1)" using c1 by simp
    obtain d where d: "node_at t (child ?S x) = Some (FFile d)" "tree_ok t1"
        "\<And>l. node_at t1 l = (if l = child ?D x then Some (FFile d) else node_at t l)"
      using copyFile_ok [OF "4.prems"(2) c] p by (auto simp: lx)
    have "node_at t (beneath ?S (x # r)) = (if r = [] then Some (FFile d) else None)" for r
      using node_below_file [OF "4.prems"(2) d(1), of r] d(1) by (cases r) (simp_all add: child_beneath)
    moreover have "beneath ?D (x # r) = child ?D x \<longleftrightarrow> r = []" for r by (simp add: child_beneath)
    ultimately show ?thesis using d(2,3) by auto
  qed
  have src: "node_at t1 (beneath ?S r) = node_at t (beneath ?S r)" for r
    using step apart_below [OF "4.prems"(5), of "beneath ?S r"] below_under [of ?D x "beneath ?S r"] by auto
  have D: "node_at t1 ?D = Some FDir" using step "4.prems"(6) by simp
  have es: "\<forall>(y, b) \<in> set es. plain_name y \<and> b = (node_at t1 (child ?S y) = Some FDir)"
    using "4.prems"(7) src by (auto simp: child_beneath)
  have rest: "node_at t1 (beneath ?D (y # r)) = (if y = x \<and> node_at t (beneath ?S (x # r)) \<noteq> None then node_at t (beneath ?S (x # r))
      else node_at t (beneath ?D (y # r)))" for y r
  proof (cases "y = x")
    case False
    then have "\<not> below (child ?D x) (beneath ?D (y # r))" by (simp add: below_def beneath_def)
    then show ?thesis using step False by simp
  qed (use step in simp)
  show ?case
  proof -
    have ih: "tree_ok t' \<and>
       (\<forall>y r. node_at t' (beneath ?D (y # r)) =
          (if y \<in> fst ` set es \<and> node_at t1 (beneath ?S (y # r)) \<noteq> None then node_at t1 (beneath ?S (y # r))
           else node_at t1 (beneath ?D (y # r)))) \<and>
       (\<forall>l. (\<forall>y r. l \<noteq> beneath ?D (y # r)) \<longrightarrow> node_at t' l = node_at t1 l)"
      using "4.IH"(2) [OF c1 [symmetric] refl c2 _ "4.prems"(3,4,5) D es] step by blast
    have other: "node_at t1 l = node_at t l" if "\<forall>y r. l \<noteq> beneath ?D (y # r)" for l
      using step that by (auto simp: below_iff)
    show ?thesis
    proof (intro conjI allI impI)
      show "tree_ok t'" using ih by blast
      show "node_at t' (beneath ?D (y # r)) = (if y \<in> fst ` set ((x, isdir) # es) \<and> node_at t (beneath ?S (y # r)) \<noteq> None
          then node_at t (beneath ?S (y # r)) else node_at t (beneath ?D (y # r)))" for y r
        using ih rest [of y r] src by auto
      show "node_at t' l = node_at t l" if "\<forall>y r. l \<noteq> beneath ?D (y # r)" for l
        using ih other [OF that] that by simp
    qed
  qed
qed

text \<open>
  The copy succeeds when nothing is denied, no file stands where a directory is needed or the other way
  round, and the depth suffices.
\<close>

definition no_clash :: "vol_tree \<Rightarrow> loc \<Rightarrow> loc \<Rightarrow> bool" where
  "no_clash t S D \<longleftrightarrow> (\<forall>r n n'. node_at t (beneath S r) = Some n \<longrightarrow> node_at t (beneath D r) = Some n' \<longrightarrow> (n = FDir \<longleftrightarrow> n' = FDir))"

lemma no_clashD: "no_clash t S D \<Longrightarrow> node_at t (beneath S r) = Some n \<Longrightarrow> node_at t (beneath D r) = Some n' \<Longrightarrow> n = FDir \<longleftrightarrow> n' = FDir"
  unfolding no_clash_def by blast

lemma MkdirAll_free:
  assumes "\<not> deny OpMkdir (loc_of p)" and "\<not> blocked t (loc_of p)" and "\<And>d. node_at t (loc_of p) \<noteq> Some (FFile d)"
  shows "\<exists>t'. tree_MkdirAll deny p t = (Inr (), t')"
proof (cases "node_at t (loc_of p)")
  case (Some n)
  then show ?thesis using assms by (cases n) (simp_all add: tree_MkdirAll_def)
qed (use assms in \<open>simp add: tree_MkdirAll_def\<close>)

lemma no_clash_child: "no_clash t S D \<Longrightarrow> no_clash t (child S x) (child D x)"
  unfolding no_clash_def by simp

lemma no_clash_overlay:
  assumes c: "no_clash t S D" and s: "\<And>r. node_at t' (beneath S r) = node_at t (beneath S r)"
    and d: "\<And>r. node_at t' (beneath D r) = node_at t (beneath S r) \<or> node_at t' (beneath D r) = node_at t (beneath D r)"
  shows "no_clash t' S D"
  unfolding no_clash_def
proof (intro allI impI)
  fix r n n'
  assume a: "node_at t' (beneath S r) = Some n" "node_at t' (beneath D r) = Some n'"
  show "n = FDir \<longleftrightarrow> n' = FDir"
    using d [of r] a s [of r] no_clashD [OF c, of r n n'] by auto
qed

lemma copyFile_works:
  assumes "\<And>p l. \<not> ve_deny env p l" and "node_at t (loc_of src) = Some (FFile d)" and "node_at t (parent (loc_of dst)) = Some FDir"
    and "node_at t (loc_of dst) \<noteq> Some FDir"
  shows "\<exists>t'. copyFile env src dst t = (Inr (), t')"
proof -
  obtain t' where "tree_WriteFile (ve_deny env) dst d t = (Inr (), t')" using WriteFile_works [OF assms(3,4), of "ve_deny env" d] assms(1) by auto
  then show ?thesis using assms(1,2) by (simp add: copyFile_def tree_ReadFile_def tree_Stat_def lookup_node_def vol_io_def)
qed

lemma copy_works:
  "\<forall>p l. \<not> ve_deny env p l \<Longrightarrow> tree_ok t \<Longrightarrow> path_IsAbs src \<Longrightarrow> path_IsAbs dst \<Longrightarrow>
     apart (loc_of src) (loc_of dst) \<Longrightarrow> node_at t (loc_of src) = Some FDir \<Longrightarrow> no_clash t (loc_of src) (loc_of dst) \<Longrightarrow>
     \<not> blocked t (loc_of dst) \<Longrightarrow>
     \<forall>r. node_at t (beneath (loc_of src) r) \<noteq> None \<longrightarrow> length r < n \<Longrightarrow> \<exists>t'. copy_dir n env src dst t = (Inr (), t')"
  "\<forall>p l. \<not> ve_deny env p l \<Longrightarrow> tree_ok t \<Longrightarrow> path_IsAbs src \<Longrightarrow> path_IsAbs dst \<Longrightarrow>
     apart (loc_of src) (loc_of dst) \<Longrightarrow> node_at t (loc_of dst) = Some FDir \<Longrightarrow> no_clash t (loc_of src) (loc_of dst) \<Longrightarrow>
     \<forall>(x, b) \<in> set es. plain_name x \<and> b = (node_at t (child (loc_of src) x) = Some FDir) \<and> node_at t (child (loc_of src) x) \<noteq> None \<Longrightarrow>
     \<forall>x r. node_at t (beneath (loc_of src) (x # r)) \<noteq> None \<longrightarrow> length r < n \<Longrightarrow>
     \<exists>t'. copy_entries n env src dst es t = (Inr (), t')"
proof (induction n env src dst t and n env src dst es t rule: copy_dir_copy_entries.induct)
  case (1 env src dst t)
  from "1.prems"(9) have "node_at t (beneath (loc_of src) []) = None" by blast
  then show ?case using "1.prems"(6) by simp
next
  case (2 n env src dst t)
  let ?S = "loc_of src" and ?D = "loc_of dst"
  have s0: "tree_Stat (ve_deny env) src t = Inr FDir" using "2.prems"(1,6) by (simp add: tree_Stat_def lookup_node_def)
  have "node_at t ?D \<noteq> Some (FFile d)" for d
    using no_clashD [OF "2.prems"(7), of "[]" FDir "FFile d"] "2.prems"(6) by auto
  then obtain t1 where m: "tree_MkdirAll (ve_deny env) dst t = (Inr (), t1)"
    using MkdirAll_free [of "ve_deny env" dst t] "2.prems"(1,8) by blast
  have n1: "node_at t1 l = (if below l ?D then Some FDir else node_at t l)" and o1: "tree_ok t1" for l
    using MkdirAll_ok [OF "2.prems"(2) m] by auto
  have src: "node_at t1 (beneath ?S r) = node_at t (beneath ?S r)" for r
    using apart_below [OF "2.prems"(5), of "beneath ?S r"] by (simp add: n1)
  have dst: "node_at t1 (beneath ?D r) = node_at t (beneath ?S r) \<or> node_at t1 (beneath ?D r) = node_at t (beneath ?D r)" for r
    using "2.prems"(6) by (cases r) (auto simp: n1 below_def beneath_def)
  define es where "es = map (\<lambda>x. (x, node_at t1 (child ?S x) = Some FDir)) (children t1 ?S)"
  have rd: "tree_ReadDir (ve_deny env) src t1 = Inr es"
    using "2.prems"(1,6) src [of "[]"] by (simp add: tree_ReadDir_def Let_def lookup_node_def es_def)
  have e: "\<forall>(x, b) \<in> set es. plain_name x \<and> b = (node_at t1 (child ?S x) = Some FDir) \<and> node_at t1 (child ?S x) \<noteq> None"
    using tree_ok_children [OF o1 fst_loc_abs [OF "2.prems"(3)]] by (auto simp: es_def set_children)
  have dep: "\<forall>x r. node_at t1 (beneath ?S (x # r)) \<noteq> None \<longrightarrow> length r < n"
    using "2.prems"(9) src by fastforce
  have "\<exists>t'. copy_entries n env src dst es t1 = (Inr (), t')"
    by (rule "2.IH" [OF s0 m [symmetric] refl rd "2.prems"(1) o1 "2.prems"(3,4,5) _ no_clash_overlay [OF "2.prems"(7) src dst] e dep])
      (simp add: n1)
  then show ?case using s0 m rd by simp
next
  case (3 n env src dst t)
  then show ?case by simp
next
  case (4 n env src dst x isdir es t)
  let ?S = "loc_of src" and ?D = "loc_of dst"
  have p: "plain_name x" and b: "isdir = (node_at t (child ?S x) = Some FDir)" "node_at t (child ?S x) \<noteq> None" using "4.prems"(8) by auto
  have ne: "src \<noteq> []" "dst \<noteq> []" using "4.prems"(3,4) by (auto simp: path_IsAbs_def)
  note lx = loc_child [OF p ne(1)] loc_child [OF p ne(2)]
  note ab = path_IsAbs_Join [OF "4.prems"(3) p] path_IsAbs_Join [OF "4.prems"(4) p]
  have ap: "apart (child ?S x) (child ?D x)" using apart_beneath [OF "4.prems"(5), of "[x]" "[x]"] by (simp add: child_beneath)
  have nc: "no_clash t (child ?S x) (child ?D x)" by (rule no_clash_child [OF "4.prems"(7)])
  have above: "node_at t l = Some FDir" if "below l ?D" for l
    using that tree_ok_above [OF "4.prems"(2,6) that] "4.prems"(6) by (cases "l = ?D") simp_all
  have up: "below l ?D" if "below l (child ?D x)" "l \<noteq> child ?D x" for l using below_cases [OF that] by simp
  have "\<exists>t1. (if isdir then copy_dir n env (path_Join [src, x]) (path_Join [dst, x]) t
      else copyFile env (path_Join [src, x]) (path_Join [dst, x]) t) = (Inr (), t1) \<and> tree_ok t1 \<and>
      (\<forall>l. \<not> below (child ?D x) l \<longrightarrow> node_at t1 l = node_at t l) \<and>
      (\<forall>r. node_at t1 (beneath (child ?D x) r) = node_at t (beneath (child ?S x) r) \<or>
        node_at t1 (beneath (child ?D x) r) = node_at t (beneath (child ?D x) r))"
  proof (cases isdir)
    case True
    then have d: "node_at t (loc_of (path_Join [src, x])) = Some FDir" using b by (simp add: lx)
    have nb: "\<not> blocked t (child ?D x)" using above up by (fastforce simp: blocked_below)
    have "\<exists>t1. copy_dir n env (path_Join [src, x]) (path_Join [dst, x]) t = (Inr (), t1)"
      using "4.IH"(1) [OF True "4.prems"(1,2) ab _ d] ap nc nb "4.prems"(9) by (simp add: lx)
    then obtain t1 where c: "copy_dir n env (path_Join [src, x]) (path_Join [dst, x]) t = (Inr (), t1)" by blast
    have "node_at t l = Some FDir" if "below l (child ?D x)" "\<not> below (child ?D x) l" for l
      using above [OF up [OF that(1)]] that(2) by (cases "l = child ?D x") simp_all
    then show ?thesis
      using copy_overlay(1) [OF c "4.prems"(2) ab _ d, unfolded lx] ap c True by (intro exI [of _ t1]) auto
  next
    case False
    then obtain d where d: "node_at t (child ?S x) = Some (FFile d)" using b by (metis fnode.exhaust option.exhaust)
    have "node_at t (child ?D x) \<noteq> Some FDir"
      using no_clashD [OF nc, of "[]" "FFile d" FDir] d by auto
    then obtain t1 where c: "copyFile env (path_Join [src, x]) (path_Join [dst, x]) t = (Inr (), t1)"
      using copyFile_works [of env t "path_Join [src, x]" d "path_Join [dst, x]"] "4.prems"(1,6) d by (auto simp: lx)
    obtain d' where d': "node_at t (child ?S x) = Some (FFile d')" "tree_ok t1"
        "\<And>l. node_at t1 l = (if l = child ?D x then Some (FFile d') else node_at t l)"
      using copyFile_ok [OF "4.prems"(2) c] p by (auto simp: lx)
    have "node_at t1 (beneath (child ?D x) r) = node_at t (beneath (child ?S x) r) \<or>
        node_at t1 (beneath (child ?D x) r) = node_at t (beneath (child ?D x) r)" for r
      using d'(1) by (cases r) (simp_all add: d'(3) child_beneath)
    then show ?thesis using c False d'(2,3) by (intro exI [of _ t1]) auto
  qed
  then obtain t1 where c1: "(if isdir then copy_dir n env (path_Join [src, x]) (path_Join [dst, x]) t
      else copyFile env (path_Join [src, x]) (path_Join [dst, x]) t) = (Inr (), t1)" and o1: "tree_ok t1"
      and n1: "\<And>l. \<not> below (child ?D x) l \<Longrightarrow> node_at t1 l = node_at t l"
      and n2: "\<And>r. node_at t1 (beneath (child ?D x) r) = node_at t (beneath (child ?S x) r) \<or>
        node_at t1 (beneath (child ?D x) r) = node_at t (beneath (child ?D x) r)"
    by blast
  have src: "node_at t1 (beneath ?S r) = node_at t (beneath ?S r)" for r
    using apart_below [OF "4.prems"(5), of "beneath ?S r"] below_under [of ?D x "beneath ?S r"] n1 by auto
  have dst: "node_at t1 (beneath ?D r) = node_at t (beneath ?S r) \<or> node_at t1 (beneath ?D r) = node_at t (beneath ?D r)" for r
  proof (cases "below (child ?D x) (beneath ?D r)")
    case True
    then obtain r' where "r = x # r'" by (auto simp: below_iff)
    then show ?thesis using n2 [of r'] by simp
  qed (simp add: n1)
  have D: "node_at t1 ?D = Some FDir" using n1 [of ?D] "4.prems"(6) by simp
  have e: "\<forall>(y, b) \<in> set es. plain_name y \<and> b = (node_at t1 (child ?S y) = Some FDir) \<and> node_at t1 (child ?S y) \<noteq> None"
    using "4.prems"(8) src by (auto simp: child_beneath)
  have dep: "\<forall>y r. node_at t1 (beneath ?S (y # r)) \<noteq> None \<longrightarrow> length r < n" using "4.prems"(9) src by simp
  have "\<exists>t'. copy_entries n env src dst es t1 = (Inr (), t')"
    by (rule "4.IH"(2) [OF c1 [symmetric] refl "4.prems"(1) o1 "4.prems"(3,4,5) D no_clash_overlay [OF "4.prems"(7) src dst] e dep])
  then show ?case using c1 by simp
qed

end
