(* ===== verification/Volume_Correct.thy ===== *)
theory Volume_Correct
  imports Volume_Copy
begin

text \<open>
  What volumes promise: they stay in their directory, data survives the life of a VM, a block image is not
  left mounted. The interface of the drivers is the locale \<open>volume_store\<close>.
\<close>

lemma child_eq: "child l x = child l' x' \<longleftrightarrow> l = l' \<and> x = x'"
  by (cases l; cases l') (simp add: child_def)

lemma path_IsAbs_Join_any: "path_IsAbs d \<Longrightarrow> path_IsAbs (path_Join [d, x])"
  by (cases d; cases "x = []") (simp_all add: path_IsAbs_def path_Join_def path_Clean_def path_of_def)

subsection \<open>Copying with enough depth\<close>

lemma fold_max_mono: "(a :: nat) \<le> fold max xs a"
  by (induction xs arbitrary: a) (auto intro: order_trans [OF max.cobounded2])

lemma fold_max_upper: "x \<in> set xs \<Longrightarrow> (x :: nat) \<le> fold max xs a"
  by (induction xs arbitrary: a) (auto intro: order_trans [OF max.cobounded1 fold_max_mono])

lemma depth_bound:
  assumes "node_at t l = Some n"
  shows "length (l_elems l) \<le> tree_depth t"
proof (cases "l_elems l = []")
  case False
  then have "(l, n) \<in> set t" using assms by (simp add: node_at_def map_of_SomeD)
  then have "length (l_elems l) \<in> set (map (\<lambda>(l, _). length (l_elems l)) t)" by force
  then show ?thesis unfolding tree_depth_def by (rule fold_max_upper)
qed simp

definition kind_env :: "vol_env \<Rightarrow> bool" where
  "kind_env env \<longleftrightarrow> (\<forall>p l. \<not> ve_deny env p l)"

lemma copyDirectory_overlay:
  assumes "copyDirectory env src dst t = (Inr u, t')" and "tree_ok t" and "path_IsAbs src" and "path_IsAbs dst"
    and "apart (loc_of src) (loc_of dst)" and "node_at t (loc_of src) = Some FDir"
  shows "tree_ok t'"
    and "node_at t' (beneath (loc_of dst) r) =
      (if node_at t (beneath (loc_of src) r) \<noteq> None then node_at t (beneath (loc_of src) r) else node_at t (beneath (loc_of dst) r))"
    and "\<not> below (loc_of dst) l \<Longrightarrow> node_at t' l = (if below l (loc_of dst) then Some FDir else node_at t l)"
  using copy_overlay(1) [OF assms(1) [unfolded copyDirectory_def] assms(2-6)] by blast+

lemma copyDirectory_works:
  assumes "kind_env env" and "tree_ok t" and "path_IsAbs src" and "path_IsAbs dst"
    and "apart (loc_of src) (loc_of dst)" and "node_at t (loc_of src) = Some FDir" and "no_clash t (loc_of src) (loc_of dst)"
    and "\<not> blocked t (loc_of dst)"
  shows "\<exists>t'. copyDirectory env src dst t = (Inr (), t')"
  unfolding copyDirectory_def
proof (rule copy_works(1) [OF assms(1) [unfolded kind_env_def] assms(2-8)], intro allI impI)
  fix r assume "node_at t (beneath (loc_of src) r) \<noteq> None"
  then have "length (l_elems (beneath (loc_of src) r)) \<le> tree_depth t" using depth_bound by blast
  then show "length r < Suc (tree_depth t)" by (simp add: beneath_def)
qed

subsection \<open>Metadata\<close>

abbreviation vol_loc :: "string \<Rightarrow> string \<Rightarrow> loc" where
  "vol_loc base name \<equiv> child (loc_of base) (sanitizeVolumeName name)"

lemma plain_volume_names [simp]: "plain_name metadataFileName" "plain_name dirDataSubdir" "plain_name blockImageFile"
  by (simp_all add: plain_name_def metadataFileName_def dirDataSubdir_def blockImageFile_def)

lemma volume_names_differ [simp]: "metadataFileName \<noteq> dirDataSubdir" "dirDataSubdir \<noteq> metadataFileName"
  "metadataFileName \<noteq> blockImageFile" "blockImageFile \<noteq> metadataFileName"
  by (simp_all add: metadataFileName_def dirDataSubdir_def blockImageFile_def)

lemma volume_locs:
  assumes "base \<noteq> []"
  shows "loc_of (volumeDir base name) = vol_loc base name"
    and "loc_of (metaPath base name) = child (vol_loc base name) metadataFileName"
    and "loc_of (dataPath base name) = child (vol_loc base name) dirDataSubdir"
proof -
  have "volumeDir base name \<noteq> []" using assms by (simp add: volumeDir_def)
  then show "loc_of (volumeDir base name) = vol_loc base name"
    and "loc_of (metaPath base name) = child (vol_loc base name) metadataFileName"
    and "loc_of (dataPath base name) = child (vol_loc base name) dirDataSubdir"
    using loc_volumeDir [OF assms] by (simp_all add: metaPath_def dataPath_def loc_child)
qed

lemma volume_abs: "path_IsAbs base \<Longrightarrow> path_IsAbs (volumeDir base name)" "path_IsAbs base \<Longrightarrow> path_IsAbs (dataPath base name)"
  by (simp_all add: volumeDir_def dataPath_def path_IsAbs_Join sanitized(1))

text \<open>Every metadata document lies in the directory of the volume it names.\<close>

definition named_volumes :: "string \<Rightarrow> vol_tree \<Rightarrow> bool" where
  "named_volumes base t \<longleftrightarrow>
     (\<forall>x m. node_at t (child (child (loc_of base) x) metadataFileName) = Some (FFile (VMeta m)) \<longrightarrow> sanitizeVolumeName (mt_Name m) = x)"

lemma meta_Read_iff:
  assumes "base \<noteq> []" and "kind_env env"
  shows "meta_Read env base name t = Inr m \<longleftrightarrow> node_at t (child (vol_loc base name) metadataFileName) = Some (FFile (VMeta m))"
  using assms(2) by (auto simp: meta_Read_def tree_ReadFile_def volume_locs [OF assms(1)] lookup_node_def kind_env_def
      split: option.splits fnode.splits vol_data.splits sum.splits tree_error.splits if_splits)

lemma meta_Write_ok:
  assumes b: "base \<noteq> []" and ok: "tree_ok t" and w: "meta_Write env base m t = (Inr u, t')"
  shows "tree_ok t'"
    and "node_at t' l = (if l = child (vol_loc base (mt_Name m)) metadataFileName then Some (FFile (VMeta m))
      else if below l (vol_loc base (mt_Name m)) then Some FDir else node_at t l)"
proof -
  from w obtain t1 where 1: "tree_MkdirAll (ve_deny env) (volumeDir base (mt_Name m)) t = (Inr (), t1)"
      and 2: "tree_WriteFile (ve_deny env) (metaPath base (mt_Name m)) (VMeta m) t1 = (Inr u, t')"
    by (auto simp: meta_Write_def vol_io_def prod_eq_iff map_sum_def split: prod.splits sum.splits)
  have p: "plain_name (last (l_elems (loc_of (metaPath base (mt_Name m)))))" by (simp add: volume_locs [OF b])
  note a = MkdirAll_ok [OF ok 1, unfolded volume_locs [OF b]]
  note c = WriteFile_ok [OF a(2) 2 p, unfolded volume_locs [OF b]]
  show "tree_ok t'" by (rule c(2))
  show "node_at t' l = (if l = child (vol_loc base (mt_Name m)) metadataFileName then Some (FFile (VMeta m))
      else if below l (vol_loc base (mt_Name m)) then Some FDir else node_at t l)"
    by (simp add: c(1) a(1))
qed

lemma meta_Write_works:
  assumes b: "path_IsAbs base" and ok: "tree_ok t" and k: "kind_env env" and d: "node_at t (vol_loc base (mt_Name m)) = Some FDir"
    and f: "node_at t (child (vol_loc base (mt_Name m)) metadataFileName) \<noteq> Some FDir"
  shows "\<exists>t'. meta_Write env base m t = (Inr (), t')"
proof -
  have ne: "base \<noteq> []" using b by (rule abs_nonempty)
  have 1: "tree_MkdirAll (ve_deny env) (volumeDir base (mt_Name m)) t = (Inr (), t)"
    using k d tree_ok_not_blocked [OF ok, of "vol_loc base (mt_Name m)"] by (simp add: tree_MkdirAll_def volume_locs [OF ne] kind_env_def)
  obtain t' where "tree_WriteFile (ve_deny env) (metaPath base (mt_Name m)) (VMeta m) t = (Inr (), t')"
    using WriteFile_works [of t "metaPath base (mt_Name m)" "ve_deny env" "VMeta m"] k d f by (auto simp: volume_locs [OF ne] kind_env_def)
  then show ?thesis using 1 by (simp add: meta_Write_def vol_io_def)
qed

text \<open>\<open>TouchLastUsed\<close> and \<open>UpdateTaskID\<close> change the metadata document of the volume only.\<close>

lemma meta_update:
  assumes b: "path_IsAbs base" and ok: "tree_ok t" and n: "named_volumes base t"
    and w: "(case meta_Read env base name t of Inl e \<Rightarrow> (Inl e, t) | Inr m \<Rightarrow> meta_Write env base (f m) t) = (r, t')"
    and f: "\<And>m. mt_Name (f m) = mt_Name m" and k: "kind_env env"
  shows "tree_ok t'" and "l \<noteq> child (vol_loc base name) metadataFileName \<Longrightarrow> node_at t' l = node_at t l"
    and "named_volumes base t'"
proof -
  have ne: "base \<noteq> []" using b by (rule abs_nonempty)
  have "tree_ok t' \<and> (\<forall>l. l \<noteq> child (vol_loc base name) metadataFileName \<longrightarrow> node_at t' l = node_at t l) \<and> named_volumes base t'"
  proof (cases "meta_Read env base name t")
    case (Inr m)
    have m: "node_at t (child (vol_loc base name) metadataFileName) = Some (FFile (VMeta m))" using Inr meta_Read_iff [OF ne k] by blast
    then have nm: "vol_loc base (mt_Name m) = vol_loc base name" using n unfolding named_volumes_def by metis
    have d: "node_at t l = Some FDir" if "below l (vol_loc base name)" for l
      using tree_ok_above [OF ok m, of l] that below_trans [OF that below_child] by (cases "l = child (vol_loc base name) metadataFileName") auto
    have nf: "vol_loc base (mt_Name (f m)) = vol_loc base name" using nm by (simp add: f)
    obtain t1 where w1: "meta_Write env base (f m) t = (Inr (), t1)"
      using meta_Write_works [OF b ok k, of "f m"] m d [OF below_refl] by (auto simp: nf)
    then have t1: "t1 = t'" using w Inr by simp
    note c = meta_Write_ok [OF ne ok w1 [unfolded t1], unfolded nf]
    have "node_at t' l = (if l = child (vol_loc base name) metadataFileName then Some (FFile (VMeta (f m))) else node_at t l)" for l
      using c(2) [of l] d [of l] by simp
    moreover from this have "named_volumes base t'" using n nf by (auto simp: named_volumes_def f child_eq)
    ultimately show ?thesis using c(1) by simp
  qed (use w ok n in simp)
  then show "tree_ok t'" "l \<noteq> child (vol_loc base name) metadataFileName \<Longrightarrow> node_at t' l = node_at t l" "named_volumes base t'"
    by blast+
qed

subsection \<open>The life of a volume\<close>

text \<open>The two steps of \<open>Mount\<close> and of \<open>Unmount\<close>: the destination is created, then the source laid over it.\<close>

lemma mkdir_copy:
  assumes k: "kind_env env" and ok: "tree_ok t" and a: "path_IsAbs src" "path_IsAbs dst" and ap: "apart (loc_of src) (loc_of dst)"
    and s: "node_at t (loc_of src) = Some FDir" and nc: "no_clash t (loc_of src) (loc_of dst)" and nb: "\<not> blocked t (loc_of dst)"
  shows "\<exists>t1 t2. tree_MkdirAll (ve_deny env) dst t = (Inr (), t1) \<and> copyDirectory env src dst t1 = (Inr (), t2) \<and> tree_ok t2 \<and>
    (\<forall>r. node_at t2 (beneath (loc_of dst) r) =
      (if node_at t (beneath (loc_of src) r) \<noteq> None then node_at t (beneath (loc_of src) r) else node_at t (beneath (loc_of dst) r))) \<and>
    (\<forall>l. \<not> below (loc_of dst) l \<longrightarrow> node_at t2 l = (if below l (loc_of dst) then Some FDir else node_at t l))"
proof -
  let ?S = "loc_of src" and ?D = "loc_of dst"
  have "node_at t ?D \<noteq> Some (FFile d)" for d
    using no_clashD [OF nc, of "[]" FDir "FFile d"] s by auto
  then obtain t1 where m: "tree_MkdirAll (ve_deny env) dst t = (Inr (), t1)"
    using MkdirAll_free [of "ve_deny env" dst t] k nb by (auto simp: kind_env_def)
  have n1: "node_at t1 l = (if below l ?D then Some FDir else node_at t l)" and o1: "tree_ok t1" for l
    using MkdirAll_ok [OF ok m] by auto
  have src: "node_at t1 (beneath ?S r) = node_at t (beneath ?S r)" for r
    using apart_below [OF ap, of "beneath ?S r"] by (simp add: n1)
  have dst: "node_at t1 (beneath ?D r) = (if r = [] then Some FDir else node_at t (beneath ?D r))" for r
    by (cases r) (auto simp: n1 below_def beneath_def)
  have nc1: "no_clash t1 ?S ?D" by (rule no_clash_overlay [OF nc src]) (use s dst in auto)
  have s1: "node_at t1 ?S = Some FDir" using src [of "[]"] s by simp
  have nb1: "\<not> blocked t1 ?D" using tree_ok_not_blocked [OF o1] dst [of "[]"] by simp
  obtain t2 where c: "copyDirectory env src dst t1 = (Inr (), t2)"
    using copyDirectory_works [OF k o1 a ap s1 nc1 nb1] by blast
  note o = copyDirectory_overlay [OF c o1 a ap s1]
  have "node_at t2 (beneath ?D r) = (if node_at t (beneath ?S r) \<noteq> None then node_at t (beneath ?S r) else node_at t (beneath ?D r))" for r
    using o(2) [of r] s s1 by (cases "r = []") (simp_all add: src dst)
  moreover have "node_at t2 l = (if below l ?D then Some FDir else node_at t l)" if "\<not> below ?D l" for l
    using o(3) [OF that] n1 [of l] by simp
  ultimately show ?thesis using m c o(1) by blast
qed

lemma TouchLastUsed_ok:
  assumes "path_IsAbs base" and "tree_ok t" and "named_volumes base t" and "kind_env env"
  shows "tree_ok (snd (TouchLastUsed env base name t))" and "named_volumes base (snd (TouchLastUsed env base name t))"
    and "l \<noteq> child (vol_loc base name) metadataFileName \<Longrightarrow> node_at (snd (TouchLastUsed env base name t)) l = node_at t l"
proof -
  obtain r t' where w: "TouchLastUsed env base name t = (r, t')" by fastforce
  note u = meta_update [OF assms(1-3) w [unfolded TouchLastUsed_def] _ assms(4)]
  show "tree_ok (snd (TouchLastUsed env base name t))" "named_volumes base (snd (TouchLastUsed env base name t))"
    "l \<noteq> child (vol_loc base name) metadataFileName \<Longrightarrow> node_at (snd (TouchLastUsed env base name t)) l = node_at t l"
    using u by (simp_all add: w)
qed

lemma named_volumes_cong:
  assumes "named_volumes base t" and "\<And>l. below (loc_of base) l \<Longrightarrow> node_at t' l = node_at t l"
  shows "named_volumes base t'"
proof -
  have "below (loc_of base) (child (child (loc_of base) x) metadataFileName)" for x by (auto simp: below_def)
  then show ?thesis using assms unfolding named_volumes_def by metis
qed

abbreviation mount_dest :: "string \<Rightarrow> string \<Rightarrow> string" where
  "mount_dest rootfs target \<equiv> path_Join [rootfs, ensureAbsolutePath target]"

lemma data_below: "below (loc_of base) (child (vol_loc base name) x)"
  by (auto simp: below_def)

lemma mount_works:
  assumes k: "kind_env env" and ok: "tree_ok t" and b: "path_IsAbs base" and a: "path_IsAbs rootfs" and nv: "named_volumes base t"
    and ap: "apart (loc_of base) (loc_of (mount_dest rootfs target))" and s: "node_at t (loc_of (dataPath base name)) = Some FDir"
    and nc: "no_clash t (loc_of (dataPath base name)) (loc_of (mount_dest rootfs target))"
    and nb: "\<not> blocked t (loc_of (mount_dest rootfs target))"
  shows "\<exists>t'. dir_Mount env base name rootfs target t = (Inr (), t') \<and> tree_ok t' \<and> named_volumes base t' \<and>
    (\<forall>r. node_at t' (beneath (loc_of (mount_dest rootfs target)) r) =
      (if node_at t (beneath (loc_of (dataPath base name)) r) \<noteq> None then node_at t (beneath (loc_of (dataPath base name)) r)
       else node_at t (beneath (loc_of (mount_dest rootfs target)) r))) \<and>
    (\<forall>l. \<not> below (loc_of (mount_dest rootfs target)) l \<longrightarrow> l \<noteq> loc_of (metaPath base name) \<longrightarrow>
      node_at t' l = (if below l (loc_of (mount_dest rootfs target)) then Some FDir else node_at t l))"
proof -
  let ?D = "loc_of (mount_dest rootfs target)" and ?S = "loc_of (dataPath base name)"
  note ne = abs_nonempty [OF b]
  have S: "below (loc_of base) ?S" "below (loc_of base) (loc_of (metaPath base name))" by (simp_all add: volume_locs [OF ne] data_below)
  have apS: "apart ?S ?D" using apart_below [OF ap S(1)] by (simp add: apart_def)
  obtain t1 t2 where m: "tree_MkdirAll (ve_deny env) (mount_dest rootfs target) t = (Inr (), t1)"
      and c: "copyDirectory env (dataPath base name) (mount_dest rootfs target) t1 = (Inr (), t2)" and o2: "tree_ok t2"
      and n2: "\<And>r. node_at t2 (beneath ?D r) = (if node_at t (beneath ?S r) \<noteq> None then node_at t (beneath ?S r) else node_at t (beneath ?D r))"
      and n3: "\<And>l. \<not> below ?D l \<Longrightarrow> node_at t2 l = (if below l ?D then Some FDir else node_at t l)"
    using mkdir_copy [OF k ok volume_abs(2) [OF b] path_IsAbs_Join_any [OF a] apS s nc nb] by blast
  have base: "node_at t2 l = node_at t l" if "below (loc_of base) l" for l
    using n3 apart_below [OF ap that] by simp
  have nv2: "named_volumes base t2" by (rule named_volumes_cong [OF nv base])
  note u = TouchLastUsed_ok [OF b o2 nv2 k, where name = name]
  have "beneath ?D r \<noteq> loc_of (metaPath base name)" for r
    using apart_below [OF ap S(2)] by (metis beneath_simps(5))
  then have "node_at (snd (TouchLastUsed env base name t2)) (beneath ?D r) = node_at t2 (beneath ?D r)" for r
    using u(3) [of "beneath ?D r"] by (simp add: volume_locs [OF ne])
  moreover have "dir_Mount env base name rootfs target t = (Inr (), snd (TouchLastUsed env base name t2))"
    using k s m c by (simp add: dir_Mount_def tree_Stat_def lookup_node_def kind_env_def Let_def)
  ultimately show ?thesis
    using u n2 n3 by (intro exI [of _ "snd (TouchLastUsed env base name t2)"]) (simp add: volume_locs [OF ne])
qed

lemma unmount_works:
  assumes k: "kind_env env" and ok: "tree_ok t" and b: "path_IsAbs base" and a: "path_IsAbs rootfs"
    and ap: "apart (loc_of base) (loc_of (mount_dest rootfs target))" and s: "node_at t (loc_of (mount_dest rootfs target)) = Some FDir"
    and d: "node_at t (loc_of (dataPath base name)) = Some FDir"
    and nc: "no_clash t (loc_of (mount_dest rootfs target)) (loc_of (dataPath base name))"
  shows "\<exists>t'. dir_Unmount env base name rootfs target False t = (Inr (), t') \<and> tree_ok t' \<and>
    (\<forall>r. node_at t' (beneath (loc_of (dataPath base name)) r) =
      (if node_at t (beneath (loc_of (mount_dest rootfs target)) r) \<noteq> None then node_at t (beneath (loc_of (mount_dest rootfs target)) r)
       else node_at t (beneath (loc_of (dataPath base name)) r))) \<and>
    (\<forall>l. \<not> below (loc_of (dataPath base name)) l \<longrightarrow> node_at t' l = node_at t l)"
proof -
  let ?D = "loc_of (mount_dest rootfs target)" and ?S = "loc_of (dataPath base name)"
  note ne = abs_nonempty [OF b]
  have S: "below (loc_of base) ?S" by (simp add: volume_locs [OF ne] data_below)
  have apS: "apart ?D ?S" using apart_below [OF ap S] by (simp add: apart_def)
  have nb: "\<not> blocked t ?S" using tree_ok_not_blocked [OF ok] d by simp
  obtain t1 t2 where m: "tree_MkdirAll (ve_deny env) (dataPath base name) t = (Inr (), t1)"
      and c: "copyDirectory env (mount_dest rootfs target) (dataPath base name) t1 = (Inr (), t2)" and o2: "tree_ok t2"
      and n2: "\<forall>r. node_at t2 (beneath ?S r) = (if node_at t (beneath ?D r) \<noteq> None then node_at t (beneath ?D r) else node_at t (beneath ?S r))"
      and n3: "\<And>l. \<not> below ?S l \<Longrightarrow> node_at t2 l = (if below l ?S then Some FDir else node_at t l)"
    using mkdir_copy [OF k ok path_IsAbs_Join_any [OF a] volume_abs(2) [OF b] apS s nc nb] by blast
  have "node_at t2 l = node_at t l" if "\<not> below ?S l" for l
    using n3 [OF that] tree_ok_above [OF ok d, of l] that by (cases "l = ?S") auto
  moreover have "dir_Unmount env base name rootfs target False t = (Inr (), t2)"
    using k s m c by (simp add: dir_Unmount_def tree_Stat_def lookup_node_def kind_env_def Let_def)
  ultimately show ?thesis using o2 n2 by blast
qed

text \<open>What the VM does while a volume is mounted: anything below the place of the volume, nothing elsewhere.\<close>

definition vm_session :: "loc \<Rightarrow> vol_tree \<Rightarrow> vol_tree \<Rightarrow> bool" where
  "vm_session D t t' \<longleftrightarrow> tree_ok t' \<and> node_at t' D = Some FDir \<and> (\<forall>l. \<not> below D l \<longrightarrow> node_at t' l = node_at t l)"

lemma vm_sessionD:
  assumes "vm_session D t t'"
  shows "tree_ok t'" and "node_at t' D = Some FDir" and "\<not> below D l \<Longrightarrow> node_at t' l = node_at t l"
  using assms unfolding vm_session_def by blast+

text \<open>Deciding the conditions on concrete trees.\<close>

lemma tree_ok_check:
  assumes "list_all (\<lambda>(l, _). list_all plain_name (l_elems l) \<and>
      list_all (\<lambda>k. node_at t (Loc (l_root l) (take k (l_elems l))) = Some FDir) [0..<length (l_elems l)]) t"
  shows "tree_ok t"
proof (rule tree_okI)
  have e: "list_all plain_name (l_elems l)" "\<And>k. k < length (l_elems l) \<Longrightarrow> node_at t (Loc (l_root l) (take k (l_elems l))) = Some FDir"
    if n: "node_at t l \<noteq> None" "l_elems l \<noteq> []" for l
  proof -
    obtain m where "(l, m) \<in> set t" using n by (auto simp: node_at_def map_of_eq_None_iff dest: map_of_SomeD)
    then show "list_all plain_name (l_elems l)" "\<And>k. k < length (l_elems l) \<Longrightarrow> node_at t (Loc (l_root l) (take k (l_elems l))) = Some FDir"
      using assms by (auto simp: list_all_iff)
  qed
  fix l assume n: "node_at t l \<noteq> None"
  show "node_at t a = Some FDir" if a: "below a l" "a \<noteq> l" for a
  proof -
    have "length (l_elems a) < length (l_elems l)" "a = Loc (l_root l) (take (length (l_elems a)) (l_elems l))"
      using a by (auto simp: below_def prefix_def loc_eq_iff)
    moreover from this(1) have "l_elems l \<noteq> []" by auto
    ultimately show ?thesis using e(2) [OF n, of "length (l_elems a)"] by simp
  qed
  show "plain_name x" if "x \<in> set (l_elems l)" for x
    using e(1) [OF n] that by (cases "l_elems l = []") (auto simp: list_all_iff)
qed

lemma no_clash_check:
  assumes "list_all (\<lambda>(l, _). below S l \<longrightarrow> (case (node_at t l, node_at t (beneath D (drop (length (l_elems S)) (l_elems l)))) of
      (Some n, Some n') \<Rightarrow> (n = FDir) = (n' = FDir) | _ \<Rightarrow> True)) ((S, FDir) # t)"
  shows "no_clash t S D"
  unfolding no_clash_def
proof (intro allI impI)
  fix r n n' assume n: "node_at t (beneath S r) = Some n" "node_at t (beneath D r) = Some n'"
  have "beneath S r = S \<or> (\<exists>m. (beneath S r, m) \<in> set t)"
    using n(1) by (cases S) (auto simp: node_at_def beneath_def split: if_splits dest: map_of_SomeD)
  then obtain m where "(beneath S r, m) \<in> set ((S, FDir) # t)" by auto
  then have "below S (beneath S r) \<longrightarrow> (case (node_at t (beneath S r), node_at t (beneath D (drop (length (l_elems S)) (l_elems (beneath S r))))) of
      (Some n, Some n') \<Rightarrow> (n = FDir) = (n' = FDir) | _ \<Rightarrow> True)" using assms unfolding list_all_iff by blast
  then show "n = FDir \<longleftrightarrow> n' = FDir" using n by (simp add: beneath_def below_def)
qed

definition vol_base :: string where
  "vol_base = ''/v''"

definition db_meta :: volume_meta where
  "db_meta = \<lparr>mt_Name = ''db'', mt_Type = ''dir'', mt_SizeMB = 0, mt_CreatedAt = 1, mt_LastUsedAt = 0, mt_TaskID = []\<rparr>"

definition db_tree :: vol_tree where
  "db_tree = [(Loc True [''v''], FDir), (Loc True [''r''], FDir), (Loc True [''v'', ''db''], FDir), (Loc True [''v'', ''db'', ''data''], FDir),
     (Loc True [''v'', ''db'', ''meta.json''], FFile (VMeta db_meta)), (Loc True [''v'', ''db'', ''data'', ''f''], FFile (VRaw ''a''))]"

definition easy_env :: vol_env where
  "easy_env = \<lparr>ve_deny = (\<lambda>_ _. False), ve_size = (\<lambda>_. 0), ve_now = 5, ve_milli = 5, ve_exec = (\<lambda>_ t. (True, t))\<rparr>"

lemma easy_kind: "kind_env easy_env"
  by (simp add: kind_env_def easy_env_def)

lemma db_tree_ok: "tree_ok db_tree"
  by (rule tree_ok_check) code_simp

lemma db_locs:
  "loc_of vol_base = Loc True [''v'']" "loc_of (dataPath vol_base ''db'') = Loc True [''v'', ''db'', ''data'']"
  "loc_of (mount_dest ''/r'' ''m'') = Loc True [''r'', ''m'']" "sanitizeVolumeName ''db'' = ''db''" "path_IsAbs vol_base"
  by code_simp+

lemma db_named: "named_volumes vol_base db_tree"
  by (auto simp: named_volumes_def db_locs node_at_def child_def db_tree_def metadataFileName_def db_meta_def split: if_splits)

lemma mounted_no_clash:
  assumes "\<And>r. node_at t (beneath D r) = (if node_at t (beneath S r) \<noteq> None then node_at t (beneath S r) else g r)"
  shows "no_clash t D S"
  unfolding no_clash_def using assms by (metis option.distinct(1) option.inject)

subsection \<open>Properties\<close>

text \<open>
  Whatever the name of a volume, slashes and dots included, its directory lies directly in the
  directory of the volumes: it is never that directory itself, never outside, and never one of the hidden
  directories \<open>.snapshots\<close> and \<open>.mounts\<close> that are kept beside the volumes.
\<close>

theorem volume_names_contained:
  assumes "path_IsAbs base"
  shows "parent (loc_of (volumeDir base name)) = loc_of base \<and> loc_of (volumeDir base name) \<noteq> loc_of base \<and>
    (\<forall>x. apart (loc_of (volumeDir base name)) (loc_of (path_Join [base, CHR ''.'' # x])) \<or> \<not> plain_name (CHR ''.'' # x))"
proof -
  note ne = abs_nonempty [OF assms]
  have "apart (vol_loc base name) (child (loc_of base) (CHR ''.'' # x))" for x
    using sanitized(2) [of name] by (metis apart_def below_children list.sel(1))
  then show ?thesis by (auto simp: volume_locs [OF ne] loc_child [OF _ ne])
qed

theorem volume_names_contained_witness:
  "parent (loc_of (volumeDir ''/v'' ''../../etc'')) = loc_of ''/v'' \<and> loc_of (volumeDir ''/v'' ''../../etc'') \<noteq> loc_of ''/v''"
proof -
  have "path_IsAbs ''/v''" by code_simp
  from volume_names_contained [OF this, of "''../../etc''"] show ?thesis by blast
qed

text \<open>
  Claim C18. In a tree of regular files and directories, the recursive copy ends and succeeds whenever the file system
  refuses nothing, source and destination are absolute paths that do not contain each other, no file stands where the
  other side has a directory, and none above the destination: everything
  below the source is then below the destination, what only the destination had is kept, and nothing
  outside changes but for the directories above the destination.
\<close>

theorem copy_directory_total:
  assumes "kind_env env" and "tree_ok t" and "path_IsAbs src" and "path_IsAbs dst" and "apart (loc_of src) (loc_of dst)"
    and "node_at t (loc_of src) = Some FDir" and "no_clash t (loc_of src) (loc_of dst)" and "\<not> blocked t (loc_of dst)"
  shows "\<exists>t'. copyDirectory env src dst t = (Inr (), t') \<and>
    (\<forall>r. node_at t' (beneath (loc_of dst) r) =
      (case node_at t (beneath (loc_of src) r) of Some n \<Rightarrow> Some n | None \<Rightarrow> node_at t (beneath (loc_of dst) r))) \<and>
    (\<forall>l. \<not> below (loc_of dst) l \<longrightarrow> node_at t' l = (if below l (loc_of dst) then Some FDir else node_at t l))"
proof -
  obtain t' where c: "copyDirectory env src dst t = (Inr (), t')" using copyDirectory_works [OF assms] by blast
  note o = copyDirectory_overlay [OF c assms(2-6)]
  have "node_at t' (beneath (loc_of dst) r) =
      (case node_at t (beneath (loc_of src) r) of Some n \<Rightarrow> Some n | None \<Rightarrow> node_at t (beneath (loc_of dst) r))" for r
    using o(2) [of r] by (auto split: option.splits)
  then show ?thesis using c o(3) by blast
qed

lemma db_apart: "apart (loc_of vol_base) (loc_of (mount_dest ''/r'' ''m''))" "apart (loc_of (dataPath vol_base ''db'')) (loc_of ''/r/m'')"
  by code_simp+

lemma db_empty: "node_at db_tree (beneath (Loc True [''r'', ''m'']) r) = None"
  by (simp add: node_at_def beneath_def db_tree_def)

lemma db_free: "no_clash db_tree l (Loc True [''r'', ''m''])" "\<not> blocked db_tree (Loc True [''r'', ''m''])"
  by (simp add: no_clash_def db_empty) code_simp

theorem copy_directory_total_witness:
  "\<exists>t'. copyDirectory easy_env (dataPath vol_base ''db'') ''/r/m'' db_tree = (Inr (), t') \<and>
     node_at t' (Loc True [''r'', ''m'', ''f'']) = Some (FFile (VRaw ''a''))"
proof -
  have l: "loc_of ''/r/m'' = Loc True [''r'', ''m'']" and a: "path_IsAbs ''/r/m''" "path_IsAbs (dataPath vol_base ''db'')"
    and d: "node_at db_tree (loc_of (dataPath vol_base ''db'')) = Some FDir"
    and f: "node_at db_tree (Loc True [''v'', ''db'', ''data'', ''f'']) = Some (FFile (VRaw ''a''))" by code_simp+
  obtain t' where c: "copyDirectory easy_env (dataPath vol_base ''db'') ''/r/m'' db_tree = (Inr (), t')"
      and n: "\<And>r. node_at t' (beneath (loc_of ''/r/m'') r) =
        (case node_at db_tree (beneath (loc_of (dataPath vol_base ''db'')) r) of Some n \<Rightarrow> Some n
         | None \<Rightarrow> node_at db_tree (beneath (loc_of ''/r/m'') r))"
    using copy_directory_total [OF easy_kind db_tree_ok a(2,1) db_apart(2) d] db_free by (auto simp: l)
  have "node_at t' (Loc True [''r'', ''m'', ''f'']) = Some (FFile (VRaw ''a''))"
    using n [of "[''f'']"] f by (simp add: l db_locs beneath_def)
  then show ?thesis using c by blast
qed

lemma other_volume:
  assumes "base \<noteq> []" and "sanitizeVolumeName other \<noteq> sanitizeVolumeName name" and "below (loc_of (volumeDir base other)) l"
  shows "\<not> below (loc_of (dataPath base name)) l" and "l \<noteq> loc_of (metaPath base name)" and "below (loc_of base) l"
proof -
  note locs = volume_locs [OF assms(1)]
  have "apart (vol_loc base other) (vol_loc base name)" using assms(2) by (simp add: apart_def below_children)
  then have "\<not> below (vol_loc base name) l" using apart_below assms(3) by (simp add: locs)
  moreover have "below (vol_loc base name) (loc_of (dataPath base name))" "below (vol_loc base name) (loc_of (metaPath base name))" by (simp_all add: locs)
  ultimately show "\<not> below (loc_of (dataPath base name)) l" "l \<noteq> loc_of (metaPath base name)" using below_trans by blast+
  show "below (loc_of base) l" using below_under assms(3) by (simp add: locs)
qed

text \<open>
  Claim C16. The data of a directory volume survives the VM that uses it, in trees of regular files and directories.
  Mounting lays the data over the place in the root file system. Whatever files and directories the VM then writes and
  removes there, provided that it puts no file where the volume has a directory and no directory where the volume has
  a file, unmounting brings every file the VM left back into the volume, keeps the files of the volume that the VM
  no longer has, and touches no other volume. The file system refuses nothing, the volumes and the root file system do
  not contain each other, and neither is there such a clash when the volume is mounted.
\<close>

theorem volume_survives_vm:
  assumes "kind_env env" and "tree_ok t" and "path_IsAbs base" and "path_IsAbs rootfs" and "named_volumes base t"
    and "apart (loc_of base) (loc_of (mount_dest rootfs target))" and "node_at t (loc_of (dataPath base name)) = Some FDir"
    and "no_clash t (loc_of (dataPath base name)) (loc_of (mount_dest rootfs target))"
    and "\<not> blocked t (loc_of (mount_dest rootfs target))"
  shows "\<exists>t1. dir_Mount env base name rootfs target t = (Inr (), t1) \<and> tree_ok t1 \<and>
    (\<forall>r. node_at t (beneath (loc_of (dataPath base name)) r) \<noteq> None \<longrightarrow>
      node_at t1 (beneath (loc_of (mount_dest rootfs target)) r) = node_at t (beneath (loc_of (dataPath base name)) r)) \<and>
    (\<forall>t2. vm_session (loc_of (mount_dest rootfs target)) t1 t2 \<longrightarrow>
      no_clash t2 (loc_of (mount_dest rootfs target)) (loc_of (dataPath base name)) \<longrightarrow>
      (\<exists>t3. dir_Unmount env base name rootfs target False t2 = (Inr (), t3) \<and>
        (\<forall>r. node_at t3 (beneath (loc_of (dataPath base name)) r) =
          (if node_at t2 (beneath (loc_of (mount_dest rootfs target)) r) \<noteq> None
           then node_at t2 (beneath (loc_of (mount_dest rootfs target)) r) else node_at t (beneath (loc_of (dataPath base name)) r))) \<and>
        (\<forall>other l. sanitizeVolumeName other \<noteq> sanitizeVolumeName name \<longrightarrow> below (loc_of (volumeDir base other)) l \<longrightarrow>
          node_at t3 l = node_at t l)))"
proof -
  let ?D = "loc_of (mount_dest rootfs target)" and ?S = "loc_of (dataPath base name)"
  note ne = abs_nonempty [OF assms(3)]
  obtain t1 where m: "dir_Mount env base name rootfs target t = (Inr (), t1)" and o1: "tree_ok t1"
      and n1: "\<And>r. node_at t1 (beneath ?D r) = (if node_at t (beneath ?S r) \<noteq> None then node_at t (beneath ?S r) else node_at t (beneath ?D r))"
      and n2: "\<And>l. \<not> below ?D l \<Longrightarrow> l \<noteq> loc_of (metaPath base name) \<Longrightarrow> node_at t1 l = (if below l ?D then Some FDir else node_at t l)"
    using mount_works [OF assms] by blast
  have in_base: "node_at t1 l = node_at t l" if "below (loc_of base) l" "l \<noteq> loc_of (metaPath base name)" for l
    using n2 [OF _ that(2)] apart_below [OF assms(6) that(1)] by simp
  have S: "below (loc_of base) (beneath ?S r)" "beneath ?S r \<noteq> loc_of (metaPath base name)" for r
    by (simp_all add: volume_locs [OF ne] below_def beneath_def child_def)
  have "\<exists>t3. dir_Unmount env base name rootfs target False t2 = (Inr (), t3) \<and>
      (\<forall>r. node_at t3 (beneath ?S r) = (if node_at t2 (beneath ?D r) \<noteq> None then node_at t2 (beneath ?D r) else node_at t (beneath ?S r))) \<and>
      (\<forall>other l. sanitizeVolumeName other \<noteq> sanitizeVolumeName name \<longrightarrow> below (loc_of (volumeDir base other)) l \<longrightarrow> node_at t3 l = node_at t l)"
    if v: "vm_session ?D t1 t2" and nc: "no_clash t2 ?D ?S" for t2
  proof -
    have b2: "node_at t2 l = node_at t l" if "below (loc_of base) l" "l \<noteq> loc_of (metaPath base name)" for l
      using vm_sessionD(3) [OF v] in_base [OF that] apart_below [OF assms(6) that(1)] by simp
    have d2: "node_at t2 ?S = Some FDir" using b2 [OF S, of "[]"] assms(7) by simp
    obtain t3 where u: "dir_Unmount env base name rootfs target False t2 = (Inr (), t3)"
        and n3: "\<And>r. node_at t3 (beneath ?S r) = (if node_at t2 (beneath ?D r) \<noteq> None then node_at t2 (beneath ?D r) else node_at t2 (beneath ?S r))"
        and n4: "\<And>l. \<not> below ?S l \<Longrightarrow> node_at t3 l = node_at t2 l"
      using unmount_works [OF assms(1) vm_sessionD(1) [OF v] assms(3,4,6) vm_sessionD(2) [OF v] d2 nc] by blast
    have "node_at t3 l = node_at t l" if o: "sanitizeVolumeName other \<noteq> sanitizeVolumeName name" "below (loc_of (volumeDir base other)) l" for other l
      using other_volume [OF ne o] n4 b2 by simp
    moreover have "node_at t3 (beneath ?S r) = (if node_at t2 (beneath ?D r) \<noteq> None then node_at t2 (beneath ?D r) else node_at t (beneath ?S r))" for r
      using n3 [of r] b2 [OF S, of r] by simp
    ultimately show ?thesis using u by blast
  qed
  then show ?thesis using m o1 n1 by (intro exI [of _ t1]) simp
qed

theorem volume_survives_vm_witness:
  "\<exists>t1 t2 t3. dir_Mount easy_env vol_base ''db'' ''/r'' ''m'' db_tree = (Inr (), t1) \<and>
     t2 = (Loc True [''r'', ''m'', ''g''], FFile (VRaw ''new'')) # t1 \<and>
     dir_Unmount easy_env vol_base ''db'' ''/r'' ''m'' False t2 = (Inr (), t3) \<and>
     node_at t3 (Loc True [''v'', ''db'', ''data'', ''g'']) = Some (FFile (VRaw ''new'')) \<and>
     node_at t3 (Loc True [''v'', ''db'', ''data'', ''f'']) = Some (FFile (VRaw ''a''))"
proof -
  let ?D = "loc_of (mount_dest ''/r'' ''m'')" and ?S = "loc_of (dataPath vol_base ''db'')"
  have a: "path_IsAbs ''/r''" and d: "node_at db_tree ?S = Some FDir"
    and f: "node_at db_tree (Loc True [''v'', ''db'', ''data'', ''f'']) = Some (FFile (VRaw ''a''))"
    and m: "dir_Mount easy_env vol_base ''db'' ''/r'' ''m'' db_tree = (Inr (), snd (dir_Mount easy_env vol_base ''db'' ''/r'' ''m'' db_tree))"
    by code_simp+
  define t1 where "t1 = snd (dir_Mount easy_env vol_base ''db'' ''/r'' ''m'' db_tree)"
  define t2 where "t2 = (Loc True [''r'', ''m'', ''g''], FFile (VRaw ''new'')) # t1"
  have "tree_ok t2" by (rule tree_ok_check, unfold t2_def t1_def) code_simp
  moreover have "node_at t2 ?D = Some FDir" unfolding t2_def t1_def by code_simp
  moreover have "node_at t2 l = node_at t1 l" if "\<not> below ?D l" for l
    using that by (auto simp: t2_def node_at_def db_locs below_def)
  ultimately have v: "vm_session ?D t1 t2" by (simp add: vm_session_def)
  have nc: "no_clash t2 ?D ?S" by (rule no_clash_check, unfold t2_def t1_def) code_simp
  have g: "node_at t2 (Loc True [''r'', ''m'', ''g'']) = Some (FFile (VRaw ''new''))" by (simp add: t2_def node_at_def)
  have f2: "node_at t2 (Loc True [''r'', ''m'', ''f'']) = Some (FFile (VRaw ''a''))" unfolding t2_def t1_def by code_simp
  obtain t3 where u: "dir_Unmount easy_env vol_base ''db'' ''/r'' ''m'' False t2 = (Inr (), t3)"
      and n: "\<And>r. node_at t3 (beneath ?S r) = (if node_at t2 (beneath ?D r) \<noteq> None then node_at t2 (beneath ?D r) else node_at db_tree (beneath ?S r))"
    using volume_survives_vm [OF easy_kind db_tree_ok db_locs(5) a db_named db_apart(1) d] db_free v nc m
    by (auto simp: db_locs(3) t1_def)
  have "node_at t3 (Loc True [''v'', ''db'', ''data'', ''g'']) = Some (FFile (VRaw ''new''))"
    "node_at t3 (Loc True [''v'', ''db'', ''data'', ''f'']) = Some (FFile (VRaw ''a''))"
    using n [of "[''g'']"] n [of "[''f'']"] g f2 by (simp_all add: db_locs beneath_def)
  then show ?thesis using m u by (auto simp: t1_def t2_def)
qed

subsection \<open>Block images\<close>

text \<open>The mount points in use after a sequence of commands.\<close>

definition mount_step :: "string list \<times> bool \<Rightarrow> string list \<Rightarrow> string list" where
  "mount_step c ms =
     (case c of
        ([a, _, _, _, mnt], True) \<Rightarrow> if a = ''mount'' then mnt # ms else ms
      | ([a, mnt], True) \<Rightarrow> if a = ''umount'' then remove1 mnt ms else ms
      | _ \<Rightarrow> ms)"

definition in_use :: "(string list \<times> bool) list \<Rightarrow> string list" where
  "in_use log = fold mount_step log []"

lemma in_use_append [simp]: "in_use (log @ cs) = fold mount_step cs (in_use log)"
  by (simp add: in_use_def)

lemma mount_steps [simp]:
  "mount_step (mount_cmd img mnt, b) ms = (if b then mnt # ms else ms)"
  "mount_step (umount_cmd mnt, b) ms = (if b then remove1 mnt ms else ms)"
  "mount_step ([c1, c2, c3, c4], b) ms = ms"
  by (cases b; simp add: mount_step_def mount_cmd_def umount_cmd_def)+

lemma log_on_tree: "on_tree f w = (r, w') \<Longrightarrow> vw_log w' = vw_log w" "vw_log (snd (on_tree f w)) = vw_log w"
  by (auto simp: on_tree_def split: prod.splits)

lemma log_run_vol_cmd: "run_vol_cmd env cmd w = (b, w') \<Longrightarrow> vw_log w' = vw_log w @ [(cmd, b)]"
  "vw_log (snd (run_vol_cmd env cmd w)) = vw_log w @ [(cmd, fst (run_vol_cmd env cmd w))]"
  by (auto simp: run_vol_cmd_def split: prod.splits)

lemma umount_works: "(\<And>t. fst (ve_exec env (umount_cmd mnt) t)) \<Longrightarrow> fst (run_vol_cmd env (umount_cmd mnt) w)"
  by (simp add: run_vol_cmd_def split: prod.splits) (metis fst_conv)

text \<open>
  Claim C36. Mounting and unmounting a block volume never leaves its image mounted on the host: on every
  path, also when creating the destination or copying fails, the mount points in use are those that were in
  use before, provided that \<open>umount\<close> works.
\<close>

theorem block_mounts_released:
  assumes "\<And>t. fst (ve_exec env (umount_cmd (mountPoint d name)) t)"
  shows "in_use (vw_log (snd (block_Mount env d name rootfs target w))) = in_use (vw_log w) \<and>
    in_use (vw_log (snd (block_Unmount env d name rootfs target readOnly w))) = in_use (vw_log w)"
proof -
  note u = umount_works [OF assms]
  have nf: "run_vol_cmd env (umount_cmd (mountPoint d name)) w1 \<noteq> (False, w2)" for w1 w2 using u by (metis fst_conv)
  have "in_use (vw_log (snd (block_Mount env d name rootfs target w))) = in_use (vw_log w)"
    using u by (auto simp: block_Mount_def Let_def log_on_tree log_run_vol_cmd split: sum.splits prod.splits bool.splits)
  moreover have "in_use (vw_log (snd (block_Unmount env d name rootfs target readOnly w))) = in_use (vw_log w)"
    using u nf by (auto simp: block_Unmount_def Let_def log_on_tree log_run_vol_cmd fsck_def split: sum.splits prod.splits bool.splits)
  ultimately show ?thesis by blast
qed

theorem block_mounts_released_witness:
  "in_use (vw_log (snd (block_Mount (easy_env\<lparr>ve_deny := (\<lambda>p l. p = OpReadDir)\<rparr>) \<lparr>bd_base = vol_base, bd_mountDir = ''/v/.mounts''\<rparr> ''db'' ''/r'' ''m''
     \<lparr>vw_tree = (Loc True [''v'', ''db'', ''image.ext4''], FFile (VSparse 1)) # db_tree, vw_log = []\<rparr>))) = []"
  using block_mounts_released [of "easy_env\<lparr>ve_deny := (\<lambda>p l. p = OpReadDir)\<rparr>" "\<lparr>bd_base = vol_base, bd_mountDir = ''/v/.mounts''\<rparr>" "''db''" "''/r''" "''m''"
      "\<lparr>vw_tree = (Loc True [''v'', ''db'', ''image.ext4''], FFile (VSparse 1)) # db_tree, vw_log = []\<rparr>"]
  by (simp add: easy_env_def in_use_def)

end
