(* ===== verification/Volume_Archive_Correct.thy ===== *)
theory Volume_Archive_Correct
  imports Volume_Correct
begin

text \<open>
  Archives of volumes: entries with relative names are unpacked below the data directory, and restoring a
  snapshot gives back the data that was archived.
\<close>

subsection \<open>Names in archives\<close>

lemma clean_elem_keeps_up: "''..'' \<in> set st \<Longrightarrow> ''..'' \<in> set (clean_elem False st e)"
  by (cases st) (auto simp: clean_elem_def)

lemma foldl_keeps_up: "''..'' \<in> set st \<Longrightarrow> ''..'' \<in> set (foldl (clean_elem False) st es)"
  by (induction es arbitrary: st) (simp_all add: clean_elem_keeps_up)

text \<open>A relative name that does not climb is cleaned the same way below every directory.\<close>

lemma foldl_clean_inner:
  "''..'' \<notin> set (foldl (clean_elem False) st es) \<Longrightarrow> ''..'' \<notin> set st \<Longrightarrow>
   foldl (clean_elem r) (st @ D) es = foldl (clean_elem False) st es @ D"
proof (induction es arbitrary: st)
  case (Cons e es)
  have up: "\<not> (e = ''..'' \<and> st = [])"
    using Cons.prems(1) foldl_keeps_up [of "clean_elem False st e" es] by (auto simp: clean_elem_def [of False "[]"])
  have st': "''..'' \<notin> set (clean_elem False st e)"
    using Cons.prems(1) foldl_keeps_up [of "clean_elem False st e" es] by auto
  have "hd st \<noteq> ''..''" if "st \<noteq> []" using Cons.prems(2) that by (metis hd_in_set)
  then have "clean_elem r (st @ D) e = clean_elem False st e @ D"
    using up Cons.prems(2) by (auto simp: clean_elem_def)
  then show ?case using Cons.IH [OF _ st'] Cons.prems(1) by simp
qed simp

lemma path_elems_Join:
  assumes "d \<noteq> []" and "\<not> path_IsAbs x" and "''..'' \<notin> set (path_elems x)"
  shows "loc_of (path_Join [d, x]) = beneath (loc_of d) (path_elems x)"
proof (cases "x = []")
  case True
  have "loc_of (path_Clean d) = loc_of d"
    using path_elems_path_of [OF clean_elems_path [of d]] by (simp add: path_Clean_def loc_of_def)
  then show ?thesis using True assms(1) by (simp add: path_Join_def path_elems_def clean_elem_def beneath_def)
next
  case False
  have r: "prefix ''/'' (d @ CHR ''/'' # x) = prefix ''/'' d" using assms(1) by (cases d) auto
  have x: "path_elems x = rev (foldl (clean_elem False) [] (split_on (CHR ''/'') x))"
    using assms(2) by (simp add: path_elems_def path_IsAbs_def)
  have "path_elems (d @ CHR ''/'' # x) = path_elems d @ path_elems x"
    using foldl_clean_inner [of "[]" "split_on (CHR ''/'') x" "prefix ''/'' d" "foldl (clean_elem (prefix ''/'' d)) [] (split_on (CHR ''/'') d)"] assms(3)
    by (simp add: x) (simp add: path_elems_def r split_on_snoc_sep)
  moreover have "path_Join [d, x] = path_Clean (d @ CHR ''/'' # x)" using assms(1) False by (simp add: path_Join_def)
  ultimately show ?thesis
    using path_elems_path_of [OF clean_elems_path [of "d @ CHR ''/'' # x"]] r by (simp add: loc_of_def path_Clean_def beneath_def)
qed

lemma sublist_join: "x \<in> set es \<Longrightarrow> sublist x (join ''/'' es)"
proof (induction es rule: induct_list012)
  case (3 a b es)
  then have "x = a \<or> sublist x (join ''/'' (b # es))" by auto
  then show ?case
  proof
    assume "sublist x (join ''/'' (b # es))"
    then show ?thesis by (metis append_assoc join.simps(3) sublist_append)
  qed auto
qed simp_all

lemma not_climbing: "\<not> sublist ''..'' (path_Clean x) \<Longrightarrow> ''..'' \<notin> set (path_elems x)"
  using sublist_join [of "''..''" "path_elems x"] by (auto simp: path_Clean_def path_of_def sublist_Cons_right split: if_splits)

lemma entry_target:
  assumes "validateTarPath dest x = Inr u" and "\<not> path_IsAbs x" and "dest \<noteq> []"
  shows "loc_of (path_Join [dest, x]) = beneath (loc_of dest) (path_elems x)"
  using assms by (intro path_elems_Join not_climbing) (auto simp: validateTarPath_def Let_def split: if_splits)

lemma loc_path_of: "clean_elems r es \<Longrightarrow> loc_of (path_of r es) = Loc r es"
  by (simp add: loc_of_def path_elems_path_of)

lemma loc_Clean [simp]: "loc_of (path_Clean p) = loc_of p"
  by (simp add: path_Clean_def loc_path_of [OF clean_elems_path]) (simp add: loc_of_def)

lemma loc_Dir:
  assumes "l_root (loc_of p)" and "path_Clean p = p"
  shows "loc_of (path_Dir p) = parent (loc_of p)"
proof -
  have r: "prefix ''/'' p" and p: "p = path_of True (path_elems p)" using assms by (simp_all add: loc_of_def path_Clean_def)
  show ?thesis
  proof (cases "path_elems p" rule: rev_cases)
    case Nil
    then have "p = ''/''" using p by (simp add: path_of_def)
    moreover have "loc_of (path_Dir ''/'') = parent (loc_of ''/'')" by code_simp
    ultimately show ?thesis by simp
  next
    case (snoc ds x)
    have c: "clean_elems True (ds @ [x])" using clean_elems_path [of p] r snoc by simp
    have x: "plain_name x" using plain_elems [of p x] assms(1) snoc by (simp add: loc_of_def)
    have cd: "clean_elems True ds" by (rule clean_elems_butlast [OF c]) (use x in \<open>simp add: plain_name_def\<close>)
    have ne: "path_of True ds \<noteq> []" by (simp add: path_of_def)
    have "p = path_Join [path_of True ds, x]"
      using p snoc x path_Join_name [of x "path_of True ds"] ne path_elems_path_of [OF cd] by (simp add: plain_name_def)
    then have "path_Dir p = path_Clean (path_of True ds)" using path_Dir_Join [of x "path_of True ds"] x ne by (simp add: plain_name_def)
    then have "loc_of (path_Dir p) = Loc True ds" using loc_path_of [OF cd] by simp
    then show ?thesis using snoc r by (simp add: parent_def loc_of_def)
  qed
qed

lemma Join_clean: "path_Clean (path_Join [d, x]) = path_Join [d, x]" if "d \<noteq> []"
  using that by (simp add: path_Join_def)

subsection \<open>Unpacking\<close>

definition relative_entries :: "vol_data tar_entry list \<Rightarrow> bool" where
  "relative_entries es \<longleftrightarrow> list_all (\<lambda>e. \<not> path_IsAbs (te_Name e)) es"

lemma mkdir_within:
  assumes "tree_ok t" and "node_at t D = Some FDir" and "tree_MkdirAll deny p t = (r, t')" and "below D (loc_of p) \<or> below (loc_of p) D"
  shows "tree_ok t'" and "node_at t' D = Some FDir" and "\<not> below D l \<Longrightarrow> node_at t' l = node_at t l"
proof -
  have "tree_ok t' \<and> node_at t' D = Some FDir \<and> (\<not> below D l \<longrightarrow> node_at t' l = node_at t l)"
  proof (cases r)
    case (Inl e)
    have "t' = t" by (rule tree_fail(1) [OF assms(3) [unfolded Inl]])
    then show ?thesis using assms(1,2) by simp
  next
    case (Inr u)
    note m = MkdirAll_ok [OF assms(1) assms(3) [unfolded Inr]]
    have "node_at t l = Some FDir" if "below l (loc_of p)" "\<not> below D l"
    proof -
      have "below l D" using assms(4) below_linear [OF that(1), of D] below_trans [OF that(1), of D] that(2) by metis
      then show ?thesis using tree_ok_above [OF assms(1,2), of l] that(2) by (cases "l = D") auto
    qed
    then show ?thesis using m(1) [of D] m(1) [of l] m(2) assms(2) by simp
  qed
  then show "tree_ok t'" "node_at t' D = Some FDir" "\<not> below D l \<Longrightarrow> node_at t' l = node_at t l" by blast+
qed

lemma write_within:
  assumes "tree_ok t" and "node_at t D = Some FDir" and "tree_WriteFile deny p d t = (r, t')" and "below D (loc_of p)" and "path_IsAbs p"
  shows "tree_ok t'" and "node_at t' D = Some FDir" and "\<not> below D l \<Longrightarrow> node_at t' l = node_at t l"
proof -
  have "tree_ok t' \<and> node_at t' D = Some FDir \<and> (\<not> below D l \<longrightarrow> node_at t' l = node_at t l)"
  proof (cases r)
    case (Inl e)
    have "t' = t" by (rule tree_fail(3) [OF assms(3) [unfolded Inl]])
    then show ?thesis using assms(1,2) by simp
  next
    case (Inr u)
    have nd: "node_at t (loc_of p) \<noteq> Some FDir"
      using assms(3) Inr by (auto simp: tree_WriteFile_def put_file_def split: if_splits sum.splits fnode.splits)
    then have "l_elems (loc_of p) \<noteq> []" by (auto simp: node_at_def)
    then have "plain_name (last (l_elems (loc_of p)))" using plain_elems fst_loc_abs [OF assms(5)] last_in_set by blast
    note m = WriteFile_ok [OF assms(1) assms(3) [unfolded Inr] this]
    show ?thesis using m(1) [of D] m(1) [of l] m(2) nd assms(2,4) by auto
  qed
  then show "tree_ok t'" "node_at t' D = Some FDir" "\<not> below D l \<Longrightarrow> node_at t' l = node_at t l" by blast+
qed

definition within :: "loc \<Rightarrow> vol_tree \<Rightarrow> vol_tree \<Rightarrow> bool" where
  "within D t t' \<longleftrightarrow> tree_ok t' \<and> node_at t' D = Some FDir \<and> (\<forall>l. \<not> below D l \<longrightarrow> node_at t' l = node_at t l)"

lemma within_refl: "tree_ok t \<Longrightarrow> node_at t D = Some FDir \<Longrightarrow> within D t t"
  by (simp add: within_def)

lemma within_trans: "within D t t1 \<Longrightarrow> within D t1 t2 \<Longrightarrow> within D t t2"
  by (simp add: within_def)

lemma within_mkdir:
  assumes "within D t0 t" and "tree_MkdirAll deny p t = (r, t')" and "below D (loc_of p) \<or> below (loc_of p) D"
  shows "within D t0 t'"
  using mkdir_within [OF _ _ assms(2,3)] assms(1) by (simp add: within_def)

lemma within_write:
  assumes "within D t0 t" and "tree_WriteFile deny p d t = (r, t')" and "below D (loc_of p)" and "path_IsAbs p"
  shows "within D t0 t'"
  using write_within [OF _ _ assms(2-4)] assms(1) by (simp add: within_def)

lemma extract_entry_within:
  assumes "path_IsAbs dest" and "\<not> path_IsAbs (te_Name e)" and w: "within (loc_of dest) t0 t" and x: "extract_entry env dest e t = (r, t')"
  shows "within (loc_of dest) t0 t'"
proof (cases "validateTarPath dest (te_Name e)")
  case (Inr u)
  let ?p = "path_Join [dest, te_Name e]"
  have ne: "dest \<noteq> []" using abs_nonempty assms(1) by blast
  have p: "below (loc_of dest) (loc_of ?p)" using entry_target [OF Inr assms(2) ne] by simp
  have ab: "path_IsAbs ?p" by (rule path_IsAbs_Join_any [OF assms(1)])
  have "loc_of (path_Dir ?p) = parent (loc_of ?p)" by (rule loc_Dir [OF fst_loc_abs [OF ab] Join_clean [OF ne]])
  then have d: "below (loc_of dest) (loc_of (path_Dir ?p)) \<or> below (loc_of (path_Dir ?p)) (loc_of dest)"
    using below_cases [of "loc_of dest" "loc_of ?p"] p below_parent [of "parent (loc_of ?p)" "loc_of ?p"]
    by (cases "loc_of dest = loc_of ?p") auto
  show ?thesis
  proof (cases "(if te_Linkname e \<noteq> [] then validateTarPath dest (te_Linkname e) else Inr ()) = Inr () \<and> te_Typeflag e \<noteq> TypeOther")
    case True
    show ?thesis
    proof (cases "te_Typeflag e")
      case TypeDir
      then obtain r1 where "tree_MkdirAll (ve_deny env) ?p t = (r1, t')"
        using x Inr True by (auto simp: extract_entry_def Let_def vol_io_def prod_eq_iff split: sum.splits)
      then show ?thesis by (rule within_mkdir [OF w]) (use p in blast)
    next
      case TypeReg
      obtain r1 t1 where m: "tree_MkdirAll (ve_deny env) (path_Dir ?p) t = (r1, t1)" by fastforce
      have w1: "within (loc_of dest) t0 t1" by (rule within_mkdir [OF w m d])
      show ?thesis
      proof (cases r1)
        case (Inl e1)
        then show ?thesis using x Inr True TypeReg m w1 by (auto simp: extract_entry_def Let_def split: sum.splits)
      next
        case (Inr u1)
        obtain r2 t2 where o: "tree_WriteFile (ve_deny env) ?p (overwrite (node_at t1 (loc_of ?p)) (te_Data e)) t1 = (r2, t2)" by fastforce
        then have "t' = t2" using x \<open>validateTarPath dest (te_Name e) = Inr u\<close> True TypeReg m Inr
          by (auto simp: extract_entry_def Let_def open_write_def vol_io_def split: sum.splits)
        then show ?thesis using within_write [OF w1 o p ab] by simp
      qed
    qed (use True in simp)
  qed (use x Inr w in \<open>auto simp: extract_entry_def Let_def split: sum.splits if_splits tar_type.splits\<close>)
qed (use x w in \<open>simp add: extract_entry_def\<close>)

lemma extract_all_within:
  assumes "path_IsAbs dest"
  shows "relative_entries es \<Longrightarrow> within (loc_of dest) t0 t \<Longrightarrow> extract_all env dest es ends t = (r, t') \<Longrightarrow> within (loc_of dest) t0 t'"
proof (induction es arbitrary: t)
  case (Cons e es)
  obtain r1 t1 where x: "extract_entry env dest e t = (r1, t1)" by fastforce
  have "within (loc_of dest) t0 t1"
    by (rule extract_entry_within [OF assms _ Cons.prems(2) x]) (use Cons.prems(1) in \<open>simp add: relative_entries_def\<close>)
  then show ?case using Cons.IH [of t1] Cons.prems(1,3) x by (cases r1) (auto simp: relative_entries_def)
qed simp

subsection \<open>Unpacking what was packed\<close>

lemma join_append: "a \<noteq> [] \<Longrightarrow> b \<noteq> [] \<Longrightarrow> join ''/'' (a @ b) = join ''/'' a @ ''/'' @ join ''/'' b"
proof (induction a rule: induct_list012)
  case (2 x)
  then show ?case by (cases b) simp_all
qed simp_all

text \<open>The relative paths that the archive accepts.\<close>

definition archivable :: "string list \<Rightarrow> bool" where
  "archivable r \<longleftrightarrow> CHR 0x00 \<notin> set (join ''/'' r) \<and> \<not> sublist ''..'' (join ''/'' r)"

lemma packed_name:
  assumes "r \<noteq> []" and "\<forall>x \<in> set r. plain_name x"
  shows "path_elems (join ''/'' r) = r" and "path_Clean (join ''/'' r) = join ''/'' r" and "\<not> path_IsAbs (join ''/'' r)"
    and "''..'' \<notin> set r" and "join ''/'' r \<noteq> []"
proof -
  have "clean_elems False r"
    unfolding clean_elems_def by (rule conjI, rule exI [of _ 0]) (use assms(2) in \<open>auto simp: plain_name_def\<close>)
  moreover have "path_of False r = join ''/'' r" using assms(1) by (simp add: path_of_def)
  ultimately show "path_elems (join ''/'' r) = r" "path_Clean (join ''/'' r) = join ''/'' r" "\<not> path_IsAbs (join ''/'' r)"
    using path_elems_path_of [of False r] path_Clean_path_of [of False r] by (simp_all add: path_IsAbs_def)
  show "''..'' \<notin> set r" using assms(2) by (auto simp: plain_name_def)
  show "join ''/'' r \<noteq> []" using assms by (cases r rule: remdups_adj.cases) (auto simp: plain_name_def)
qed

lemma packed_valid:
  assumes "path_IsAbs dest" and "path_elems dest \<noteq> []" and "r \<noteq> []" and "\<forall>x \<in> set r. plain_name x" and "archivable r"
  shows "validateTarPath dest (join ''/'' r) = Inr ()" and "loc_of (path_Join [dest, join ''/'' r]) = beneath (loc_of dest) r"
proof -
  note pn = packed_name [OF assms(3,4)]
  have ne: "dest \<noteq> []" using abs_nonempty assms(1) by blast
  show l: "loc_of (path_Join [dest, join ''/'' r]) = beneath (loc_of dest) r"
    using path_elems_Join [OF ne pn(3)] pn(1,4) by simp
  let ?full = "path_Join [dest, join ''/'' r]"
  have "path_Clean ?full = path_of True (path_elems dest @ r)"
    using l assms(1) path_IsAbs_Join_any [OF assms(1)] by (simp add: path_Clean_def loc_of_def beneath_def path_IsAbs_def)
  moreover have "path_Clean dest = path_of True (path_elems dest)" using assms(1) by (simp add: path_Clean_def path_IsAbs_def)
  ultimately have "prefix (path_Clean dest @ ''/'') (path_Clean ?full)"
    using join_append [OF assms(2,3)] by (simp add: path_of_def prefix_def)
  then show "validateTarPath dest (join ''/'' r) = Inr ()"
    using assms(5) pn(2) by (simp add: validateTarPath_def Let_def archivable_def)
qed

lemma overwrite_same: "old = None \<or> old = Some (FFile d) \<Longrightarrow> overwrite old d = d"
  by (auto simp: overwrite_def split: vol_data.splits)

text \<open>Of the tree below \<open>S\<close>, what lies on the way to the paths in \<open>R\<close> is below \<open>D\<close>.\<close>

definition unpacked :: "loc \<Rightarrow> loc \<Rightarrow> vol_tree \<Rightarrow> string list set \<Rightarrow> vol_tree \<Rightarrow> bool" where
  "unpacked D S t0 R t \<longleftrightarrow>
     (\<forall>q. node_at t (beneath D q) = (if q = [] \<or> (\<exists>r \<in> R. prefix q r) then node_at t0 (beneath S q) else None))"

lemma unpackedD: "unpacked D S t0 R t \<Longrightarrow> node_at t (beneath D q) = (if q = [] \<or> (\<exists>r \<in> R. prefix q r) then node_at t0 (beneath S q) else None)"
  by (simp add: unpacked_def)

lemma beneath_above: "tree_ok t \<Longrightarrow> node_at t (beneath S r) \<noteq> None \<Longrightarrow> prefix q r \<Longrightarrow> q \<noteq> r \<Longrightarrow> node_at t (beneath S q) = Some FDir"
  using tree_ok_above [of t "beneath S r" _ "beneath S q"] by (auto simp: beneath_def below_def)

text \<open>Creating a directory of the archive.\<close>

lemma unpack_mkdir:
  assumes k: "kind_env env" and ok0: "tree_ok t0" and ok: "tree_ok t" and D: "node_at t D = Some FDir" and u: "unpacked D S t0 R t"
    and p: "loc_of p = beneath D q" and q: "node_at t0 (beneath S q) = Some FDir"
  shows "\<exists>t'. tree_MkdirAll (ve_deny env) p t = (Inr (), t') \<and> tree_ok t' \<and> unpacked D S t0 (insert q R) t'"
proof -
  have up: "node_at t0 (beneath S a) = Some FDir" if "prefix a q" for a
    using beneath_above [OF ok0, of S q a] q that by (cases "a = q") auto
  have "node_at t (beneath D a) \<noteq> Some (FFile d)" if "prefix a q" for a d using unpackedD [OF u, of a] up [OF that] by simp
  moreover have "node_at t a = Some FDir \<or> (\<exists>b. a = beneath D b \<and> prefix b q)" if "below a (beneath D q)" for a
  proof (cases "below D a")
    case True
    then show ?thesis using that by (auto simp: below_iff)
  next
    case False
    then have "below a D" using below_linear [OF that, of D] by simp
    then show ?thesis using tree_ok_above [OF ok D, of a] False by (cases "a = D") auto
  qed
  ultimately have nf: "node_at t a \<noteq> Some (FFile d)" if "below a (beneath D q)" for a d using that by fastforce
  have "\<not> blocked t (beneath D q)" using nf by (auto simp: blocked_below)
  then obtain t' where m: "tree_MkdirAll (ve_deny env) p t = (Inr (), t')"
    using MkdirAll_free [of "ve_deny env" p t] k nf [of "beneath D q"] by (auto simp: p kind_env_def)
  note n = MkdirAll_ok [OF ok m, unfolded p]
  have "below (beneath D a) (beneath D q) \<longleftrightarrow> prefix a q" for a by (simp add: below_def beneath_def)
  then have "unpacked D S t0 (insert q R) t'" unfolding unpacked_def using unpackedD [OF u] up up [of "[]"] by (auto simp: n(1))
  then show ?thesis using m n(2) by blast
qed

lemma entry_of_beneath:
  "entry_of t S (l_elems S @ r) =
     (case node_at t (beneath S r) of Some (FFile d) \<Rightarrow> TarEntry (join ''/'' r) [] 0 TypeReg d
      | _ \<Rightarrow> TarEntry (join ''/'' r) [] 0 TypeDir (VRaw []))"
  by (simp add: entry_of_def beneath_def Let_def)

lemma unpacked_insert_up: "unpacked D S t0 (insert (butlast r) (insert r R)) t \<longleftrightarrow> unpacked D S t0 (insert r R) t"
  using prefix_order.trans [OF _ prefixeq_butlast [of r]] by (auto simp: unpacked_def)

lemma unpack_entry:
  assumes k: "kind_env env" and a: "path_IsAbs dest" "path_elems dest \<noteq> []" and ok0: "tree_ok t0" and ok: "tree_ok t"
    and D: "node_at t (loc_of dest) = Some FDir" and u: "unpacked (loc_of dest) S t0 R t" and S: "l_root S"
    and r: "r \<noteq> []" "node_at t0 (beneath S r) \<noteq> None" "archivable r"
  shows "\<exists>t'. extract_entry env dest (entry_of t0 S (l_elems S @ r)) t = (Inr (), t') \<and> tree_ok t' \<and> unpacked (loc_of dest) S t0 (insert r R) t'"
proof -
  let ?p = "path_Join [dest, join ''/'' r]" and ?D = "loc_of dest"
  have pl: "\<forall>x \<in> set r. plain_name x"
    using tree_ok_plain [OF ok0, of "beneath S r"] r(2) S by (auto simp: beneath_def)
  note v = packed_valid [OF a r(1) pl r(3)]
  have ne: "dest \<noteq> []" using abs_nonempty a(1) by blast
  show ?thesis
  proof (cases "node_at t0 (beneath S r) = Some FDir")
    case True
    then show ?thesis using unpack_mkdir [OF k ok0 ok D u v(2) True] v(1)
      by (auto simp: entry_of_beneath extract_entry_def Let_def vol_io_def)
  next
    case False
    then obtain d where d: "node_at t0 (beneath S r) = Some (FFile d)" using r(2) by (metis fnode.exhaust option.exhaust)
    have "loc_of (path_Dir ?p) = parent (loc_of ?p)" by (rule loc_Dir [OF fst_loc_abs [OF path_IsAbs_Join_any [OF a(1)]] Join_clean [OF ne]])
    then have pd: "loc_of (path_Dir ?p) = beneath ?D (butlast r)" using r(1) by (simp add: v(2) parent_def beneath_def butlast_append)
    have bl: "prefix (butlast r) r" "butlast r \<noteq> r" using r(1) by (simp_all add: prefixeq_butlast) (metis append_butlast_last_id not_Cons_self2 self_append_conv)
    obtain t1 where m: "tree_MkdirAll (ve_deny env) (path_Dir ?p) t = (Inr (), t1)" and o1: "tree_ok t1" and u1: "unpacked ?D S t0 (insert (butlast r) R) t1"
      using unpack_mkdir [OF k ok0 ok D u pd beneath_above [OF ok0 r(2) bl]] by blast
    have old: "node_at t1 (beneath ?D r) = None \<or> node_at t1 (beneath ?D r) = Some (FFile d)" using unpackedD [OF u1, of r] d by auto
    have par: "node_at t1 (parent (loc_of ?p)) = Some FDir"
      using unpackedD [OF u1, of "butlast r"] beneath_above [OF ok0 r(2) bl] r(1) by (simp add: v(2) parent_def beneath_def butlast_append)
    have nd: "node_at t1 (loc_of ?p) \<noteq> Some FDir" using old by (auto simp: v(2))
    obtain t' where w: "tree_WriteFile (ve_deny env) ?p d t1 = (Inr (), t')"
      using WriteFile_works [OF par nd, of "ve_deny env" d] k by (auto simp: kind_env_def)
    have "plain_name (last (l_elems (loc_of ?p)))" using pl r(1) by (simp add: v(2) beneath_def)
    note n = WriteFile_ok [OF o1 w this, unfolded v(2)]
    have "prefix q r \<longleftrightarrow> q = r \<or> prefix q (butlast r)" for q using r(1) prefix_snoc [of q "butlast r" "last r"] by simp
    then have "unpacked ?D S t0 (insert (butlast r) (insert r R)) t'"
      unfolding unpacked_def using unpackedD [OF u1] unpackedD [OF u1, of "[]"] d r(1) by (auto simp: n(1))
    then have "unpacked ?D S t0 (insert r R) t'" by (simp only: unpacked_insert_up)
    moreover have "extract_entry env dest (entry_of t0 S (l_elems S @ r)) t = (Inr (), t')"
      using d v(1) m w overwrite_same [OF old] by (simp add: entry_of_beneath extract_entry_def Let_def open_write_def vol_io_def v(2))
    ultimately show ?thesis using n(2) by blast
  qed
qed

lemma set_walk:
  "es \<in> set (walk t S) \<longleftrightarrow> (\<exists>r. r \<noteq> [] \<and> es = l_elems S @ r \<and> node_at t (beneath S r) \<noteq> None)"
proof -
  have "es \<in> set (walk t S) \<longleftrightarrow> (\<exists>l. l \<in> fst ` set t \<and> below S l \<and> l \<noteq> S \<and> es = l_elems l)"
    by (force simp: walk_def)
  also have "\<dots> \<longleftrightarrow> (\<exists>r. r \<noteq> [] \<and> es = l_elems S @ r \<and> beneath S r \<in> fst ` set t)"
  proof -
    have b: "below S l \<and> l \<noteq> S \<longleftrightarrow> (\<exists>r. r \<noteq> [] \<and> l = beneath S r)" for l by (cases S; cases l) (auto simp: below_def beneath_def prefix_def)
    have e: "l_elems (beneath S r) = l_elems S @ r" for r by (simp add: beneath_def)
    show ?thesis
    proof (intro iffI; elim exE conjE)
      fix l assume l: "l \<in> fst ` set t" "below S l" "l \<noteq> S" "es = l_elems l"
      then obtain r where "r \<noteq> []" "l = beneath S r" using b by blast
      then show "\<exists>r. r \<noteq> [] \<and> es = l_elems S @ r \<and> beneath S r \<in> fst ` set t" using l(1,4) e by blast
    next
      fix r assume r: "r \<noteq> []" "es = l_elems S @ r" "beneath S r \<in> fst ` set t"
      then show "\<exists>l. l \<in> fst ` set t \<and> below S l \<and> l \<noteq> S \<and> es = l_elems l" using b [of "beneath S r"] e [of r] by metis
    qed
  qed
  also have "\<dots> \<longleftrightarrow> (\<exists>r. r \<noteq> [] \<and> es = l_elems S @ r \<and> node_at t (beneath S r) \<noteq> None)"
  proof -
    have "beneath S r \<in> fst ` set t \<longleftrightarrow> node_at t (beneath S r) \<noteq> None" if "r \<noteq> []" for r
      using that map_of_eq_None_iff [of t "beneath S r"] by (simp add: node_at_def beneath_def)
    then show ?thesis by blast
  qed
  finally show ?thesis .
qed

lemma extract_walk:
  assumes k: "kind_env env" and a: "path_IsAbs dest" "path_elems dest \<noteq> []" and ok0: "tree_ok t0" and S: "l_root S" "node_at t0 S = Some FDir"
  shows "tree_ok t \<Longrightarrow> unpacked (loc_of dest) S t0 R t \<Longrightarrow>
    \<forall>r \<in> set rs. r \<noteq> [] \<and> node_at t0 (beneath S r) \<noteq> None \<and> archivable r \<Longrightarrow>
    \<exists>t'. extract_all env dest (map (\<lambda>r. entry_of t0 S (l_elems S @ r)) rs) True t = (Inr (), t') \<and> tree_ok t' \<and>
      unpacked (loc_of dest) S t0 (set rs \<union> R) t'"
proof (induction rs arbitrary: t R)
  case (Cons r rs)
  have D: "node_at t (loc_of dest) = Some FDir" using unpackedD [OF Cons.prems(2), of "[]"] S(2) by simp
  obtain t1 where x: "extract_entry env dest (entry_of t0 S (l_elems S @ r)) t = (Inr (), t1)" and o1: "tree_ok t1"
      and u1: "unpacked (loc_of dest) S t0 (insert r R) t1"
    using unpack_entry [OF k a ok0 Cons.prems(1) D Cons.prems(2) S(1), of r] Cons.prems(3) by auto
  show ?case using Cons.IH [OF o1 u1] Cons.prems(3) x by simp
qed simp

lemma relative_walk:
  assumes "tree_ok t" and "l_root S"
  shows "relative_entries (map (entry_of t S) (walk t S))"
proof -
  have "\<not> path_IsAbs (te_Name (entry_of t S es))" if "es \<in> set (walk t S)" for es
  proof -
    from that obtain r where r: "r \<noteq> []" "es = l_elems S @ r" "node_at t (beneath S r) \<noteq> None" by (auto simp: set_walk)
    then have "\<forall>x \<in> set r. plain_name x" using tree_ok_plain [OF assms(1), of "beneath S r"] assms(2) by (auto simp: beneath_def)
    then show ?thesis using packed_name(3) [OF r(1)] by (auto simp: r(2) entry_of_beneath split: option.splits fnode.splits)
  qed
  then show ?thesis by (auto simp: relative_entries_def list_all_iff)
qed

text \<open>The archive of a directory unpacks into an empty directory as what was archived.\<close>

lemma extract_archive:
  assumes "kind_env env" and "path_IsAbs dest" and "path_elems dest \<noteq> []" and "tree_ok t0" and "l_root S" and "node_at t0 S = Some FDir"
    and names: "\<And>r. node_at t0 (beneath S r) \<noteq> None \<Longrightarrow> archivable r"
    and "tree_ok t" and empty: "\<And>q. node_at t (beneath (loc_of dest) q) = (if q = [] then Some FDir else None)"
  shows "\<exists>t'. extract_all env dest (map (entry_of t0 S) (walk t0 S)) True t = (Inr (), t') \<and> tree_ok t' \<and>
    (\<forall>q. node_at t' (beneath (loc_of dest) q) = node_at t0 (beneath S q)) \<and> (\<forall>l. \<not> below (loc_of dest) l \<longrightarrow> node_at t' l = node_at t l)"
proof -
  define rs where "rs = map (drop (length (l_elems S))) (walk t0 S)"
  have "map (\<lambda>es. entry_of t0 S (l_elems S @ drop (length (l_elems S)) es)) (walk t0 S) = map (entry_of t0 S) (walk t0 S)"
    by (rule map_cong) (auto simp: set_walk)
  then have m: "map (\<lambda>r. entry_of t0 S (l_elems S @ r)) rs = map (entry_of t0 S) (walk t0 S)" by (simp add: rs_def comp_def)
  have rs: "r \<in> set rs \<longleftrightarrow> r \<noteq> [] \<and> node_at t0 (beneath S r) \<noteq> None" for r
    by (force simp: rs_def set_walk image_iff)
  have u: "unpacked (loc_of dest) S t0 {} t" using empty assms(6) by (simp add: unpacked_def)
  obtain t' where x: "extract_all env dest (map (entry_of t0 S) (walk t0 S)) True t = (Inr (), t')" and o: "tree_ok t'"
      and u': "unpacked (loc_of dest) S t0 (set rs) t'"
    using extract_walk [OF assms(1-6,8) u, of rs] rs names by (auto simp: m)
  have "node_at t' (beneath (loc_of dest) q) = node_at t0 (beneath S q)" for q
    using unpackedD [OF u', of q] rs by auto
  moreover have "within (loc_of dest) t t'"
    using extract_all_within [OF assms(2) relative_walk [OF assms(4,5)] _ x] within_refl [OF assms(8)] empty [of "[]"] by simp
  ultimately show ?thesis using x o by (auto simp: within_def)
qed

subsection \<open>Restoring and importing\<close>

text \<open>Emptying the data directory.\<close>

lemma renew_dir:
  assumes k: "kind_env env" and ok: "tree_ok t" and b: "base \<noteq> []" and v: "node_at t (vol_loc base name) = Some FDir"
  shows "\<exists>t1. tree_RemoveAll (ve_deny env) (dataPath base name) t = (Inr (), drop_tree (loc_of (dataPath base name)) t) \<and>
    tree_MkdirAll (ve_deny env) (dataPath base name) (drop_tree (loc_of (dataPath base name)) t) = (Inr (), t1) \<and> tree_ok t1 \<and>
    (\<forall>q. node_at t1 (beneath (loc_of (dataPath base name)) q) = (if q = [] then Some FDir else None)) \<and>
    (\<forall>l. \<not> below (loc_of (dataPath base name)) l \<longrightarrow> node_at t1 l = node_at t l)"
proof -
  let ?D = "loc_of (dataPath base name)"
  note locs = volume_locs [OF b]
  have ok1: "tree_ok (drop_tree ?D t)" by (rule tree_ok_drop [OF ok])
  have par: "node_at (drop_tree ?D t) (parent ?D) = Some FDir" using v by (simp add: locs node_at_drop)
  have no: "node_at (drop_tree ?D t) ?D = None" by (simp add: locs node_at_drop)
  obtain t1 where m: "tree_MkdirAll (ve_deny env) (dataPath base name) (drop_tree ?D t) = (Inr (), t1)"
    using MkdirAll_works [OF ok1 par no, of "ve_deny env"] k by (auto simp: kind_env_def)
  note n = MkdirAll_ok [OF ok1 m]
  have up: "node_at (drop_tree ?D t) l = Some FDir" if "below l ?D" "l \<noteq> ?D" for l
  proof -
    have "below l (parent ?D)" using below_cases [OF that] by simp
    then show ?thesis using tree_ok_above [OF ok1 par, of l] par by (cases "l = parent ?D") simp_all
  qed
  have "node_at t1 (beneath ?D q) = (if q = [] then Some FDir else None)" for q
    by (cases q) (auto simp: n(1) node_at_drop below_def beneath_def locs)
  moreover have "node_at t1 l = node_at t l" if "\<not> below ?D l" for l
    using n(1) [of l] up [of l] that node_at_drop [of ?D t l] by (cases "l = ?D") auto
  moreover have "tree_RemoveAll (ve_deny env) (dataPath base name) t = (Inr (), drop_tree ?D t)"
    using k by (simp add: tree_RemoveAll_def kind_env_def)
  ultimately show ?thesis using m n(2) by blast
qed

text \<open>
  Claim C34. Restoring a snapshot of a directory volume changes nothing outside the data directory of that
  volume, whatever the archive holds, as long as the names in it are relative: a name that climbs out with
  \<open>..\<close> is refused before anything is written.
\<close>

theorem restore_stays_inside:
  assumes "kind_env env" and "path_IsAbs base" and "tree_ok t" and "node_at t (loc_of (volumeDir base name)) = Some FDir"
    and "\<And>es ends. node_at t (loc_of (vp_Path snap)) = Some (FFile (VArchive es ends)) \<Longrightarrow> relative_entries es"
    and "dir_Restore env base name (Some snap) t = (r, t')" and "\<not> below (loc_of (dataPath base name)) l"
  shows "node_at t' l = node_at t l"
proof -
  let ?D = "loc_of (dataPath base name)"
  have b: "base \<noteq> []" using abs_nonempty assms(2) by blast
  obtain t1 where m: "tree_RemoveAll (ve_deny env) (dataPath base name) t = (Inr (), drop_tree ?D t)"
      "tree_MkdirAll (ve_deny env) (dataPath base name) (drop_tree ?D t) = (Inr (), t1)" and o1: "tree_ok t1"
      and n1: "\<And>q. node_at t1 (beneath ?D q) = (if q = [] then Some FDir else None)" and n2: "\<And>l. \<not> below ?D l \<Longrightarrow> node_at t1 l = node_at t l"
    using renew_dir [OF assms(1,3) b, of name] assms(4) by (auto simp: volume_locs [OF b])
  have w: "within ?D t t1" using o1 n1 [of "[]"] n2 by (simp add: within_def)
  have doc: "node_at t (loc_of (vp_Path snap)) = Some (FFile d)" if "tree_ReadFile (ve_deny env) (vp_Path snap) t1 = Inr d" for d
  proof -
    have "node_at t1 (loc_of (vp_Path snap)) = Some (FFile d)"
      using that by (auto simp: tree_ReadFile_def lookup_node_def split: if_splits sum.splits option.splits fnode.splits)
    moreover from this have "\<not> below ?D (loc_of (vp_Path snap))" using n1 by (auto simp: below_iff split: if_splits)
    ultimately show ?thesis using n2 by simp
  qed
  have "within ?D t t'"
  proof (cases "tree_ReadFile (ve_deny env) (vp_Path snap) t1")
    case (Inr d)
    show ?thesis
    proof (cases d)
      case (VArchive es ends)
      then have "extract_all env (dataPath base name) es ends t1 = (r, t')" using assms(6) m Inr by (simp add: dir_Restore_def Let_def extract_data_def)
      then show ?thesis
        using extract_all_within [OF volume_abs(2) [OF assms(2)] assms(5) w] doc [OF Inr] VArchive by blast
    qed (use assms(6) m Inr w in \<open>simp_all add: dir_Restore_def Let_def extract_data_def\<close>)
  qed (use assms(6) m w in \<open>simp add: dir_Restore_def Let_def\<close>)
  then show ?thesis using assms(7) by (simp add: within_def)
qed

definition tar_example :: "vol_data tar_entry list" where
  "tar_example = [TarEntry ''d/g'' [] 0 TypeReg (VRaw ''x''), TarEntry ''../meta.json'' [] 0 TypeReg (VRaw ''bad'')]"

definition vol_snap_example :: vol_snapshot where
  "vol_snap_example = \<lparr>vp_SnapID = ''s'', vp_Volume = ''db'', vp_Path = ''/a.tar.gz'', vp_CreatedAt = 0, vp_SizeMB = 0\<rparr>"

theorem restore_stays_inside_witness:
  "node_at (snd (dir_Restore easy_env vol_base ''db'' (Some vol_snap_example) ((Loc True [''a.tar.gz''], FFile (VArchive tar_example True)) # db_tree)))
     (Loc True [''v'', ''db'', ''meta.json'']) = Some (FFile (VMeta db_meta))"
proof -
  let ?t = "(Loc True [''a.tar.gz''], FFile (VArchive tar_example True)) # db_tree"
  have ok: "tree_ok ?t" by (rule tree_ok_check) code_simp
  have v: "node_at ?t (loc_of (volumeDir vol_base ''db'')) = Some FDir" by code_simp
  have "relative_entries tar_example" by code_simp
  moreover have "loc_of (vp_Path vol_snap_example) = Loc True [''a.tar.gz'']" by code_simp
  ultimately have r: "relative_entries es" if "node_at ?t (loc_of (vp_Path vol_snap_example)) = Some (FFile (VArchive es ends))" for es ends
    using that by (simp add: node_at_def)
  obtain r t' where x: "dir_Restore easy_env vol_base ''db'' (Some vol_snap_example) ?t = (r, t')" by fastforce
  have nb: "\<not> below (loc_of (dataPath vol_base ''db'')) (Loc True [''v'', ''db'', ''meta.json''])" by code_simp
  have "node_at t' (Loc True [''v'', ''db'', ''meta.json'']) = node_at ?t (Loc True [''v'', ''db'', ''meta.json''])"
    by (rule restore_stays_inside [OF easy_kind db_locs(5) ok v r x nb])
  then show ?thesis using x by (simp add: node_at_def db_tree_def)
qed

lemma dec_of_int_slash [simp]: "CHR ''/'' \<notin> set (dec_of_int n)"
  by (simp add: dec_of_int_def non_digit_notin_dec is_digit_def)

definition snapshot_file :: "vol_env \<Rightarrow> string \<Rightarrow> string" where
  "snapshot_file env name = (name @ ''-'' @ dec_of_int (ve_milli env)) @ ''.tar.gz''"

lemma plain_snapshot_file: "CHR ''/'' \<notin> set name \<Longrightarrow> plain_name (snapshot_file env name)"
  by (cases name) (auto simp: snapshot_file_def plain_name_def)

lemma loc_snapshots:
  assumes "base \<noteq> []"
  shows "loc_of (snapshots_dir base) = child (loc_of base) ''.snapshots''" and "snapshots_dir base \<noteq> []"
    and "CHR ''/'' \<notin> set name \<Longrightarrow> loc_of (path_Join [snapshots_dir base, snapshot_file env name]) = child (child (loc_of base) ''.snapshots'') (snapshot_file env name)"
proof -
  have p: "plain_name ''.snapshots''" by (simp add: plain_name_def)
  show l: "loc_of (snapshots_dir base) = child (loc_of base) ''.snapshots''" and n: "snapshots_dir base \<noteq> []"
    using loc_child [OF p assms] assms by (simp_all add: snapshots_dir_def)
  show "CHR ''/'' \<notin> set name \<Longrightarrow> loc_of (path_Join [snapshots_dir base, snapshot_file env name]) = child (child (loc_of base) ''.snapshots'') (snapshot_file env name)"
    using loc_child [OF plain_snapshot_file n] l by simp
qed

lemma snapshots_apart: "apart (child (loc_of base) ''.snapshots'') (child (vol_loc base name) x)"
proof -
  have "apart (child (loc_of base) ''.snapshots'') (vol_loc base name)"
    using sanitized(2) [of name] by (metis apart_def below_children list.sel(1))
  from apart_beneath [OF this, of "[]" "[x]"] show ?thesis by (simp add: child_beneath)
qed

text \<open>Taking a snapshot writes the archive of the data directory, and nothing else.\<close>

lemma snapshot_works:
  assumes k: "kind_env env" and b: "path_IsAbs base" and ok: "tree_ok t" and d: "node_at t (loc_of (dataPath base name)) = Some FDir"
    and nm: "CHR ''/'' \<notin> set name" and nf: "\<And>x. node_at t (loc_of (snapshots_dir base)) \<noteq> Some (FFile x)"
    and nd: "node_at t (loc_of (path_Join [snapshots_dir base, snapshot_file env name])) \<noteq> Some FDir"
  shows "\<exists>snap t0 t'. dir_Snapshot env base name t = (Inr snap, t') \<and> vp_Path snap = path_Join [snapshots_dir base, snapshot_file env name] \<and>
    tree_ok t0 \<and> (\<forall>q. node_at t0 (beneath (loc_of (dataPath base name)) q) = node_at t (beneath (loc_of (dataPath base name)) q)) \<and>
    node_at t' (loc_of (vp_Path snap)) =
      Some (FFile (VArchive (map (entry_of t0 (loc_of (dataPath base name))) (walk t0 (loc_of (dataPath base name)))) True))"
proof -
  have ne: "base \<noteq> []" using abs_nonempty b by blast
  note locs = loc_snapshots(1) [OF ne] loc_snapshots(3) [OF ne nm] volume_locs [OF ne]
  let ?s = "child (loc_of base) ''.snapshots''" and ?p = "path_Join [snapshots_dir base, snapshot_file env name]"
  let ?S = "loc_of (dataPath base name)"
  have "node_at t (loc_of base) = Some FDir" 
    by (rule tree_ok_above [OF ok d], simp add: locs data_below) (simp add: locs child_def loc_eq_iff)
  then have nb: "\<not> blocked t ?s"
    using tree_ok_above [OF ok, of "loc_of base"] below_cases by (fastforce simp: blocked_below)
  then obtain t1 where m: "tree_MkdirAll (ve_deny env) (snapshots_dir base) t = (Inr (), t1)"
    using MkdirAll_free [of "ve_deny env" "snapshots_dir base" t] k nf by (auto simp: kind_env_def locs(1))
  note n1 = MkdirAll_ok [OF ok m, unfolded locs(1)]
  have nd1: "node_at t1 (loc_of ?p) \<noteq> Some FDir" using nd by (simp add: n1(1) locs(2))
  have par: "node_at t1 (parent (loc_of ?p)) = Some FDir" by (simp add: n1(1) locs(2))
  obtain t2 where w: "tree_WriteFile (ve_deny env) ?p (VArchive [] False) t1 = (Inr (), t2)"
    using WriteFile_works [OF par nd1, of "ve_deny env" "VArchive [] False"] k by (auto simp: kind_env_def)
  have "plain_name (last (l_elems (loc_of ?p)))" using plain_snapshot_file [OF nm] by (simp add: locs(2))
  note n2 = WriteFile_ok [OF n1(2) w this, unfolded locs(2)]
  have data: "node_at t2 (beneath ?S q) = node_at t (beneath ?S q)" for q
  proof -
    have a: "apart ?s ?S" using snapshots_apart by (simp add: locs)
    have "\<not> below ?s (beneath ?S q) \<and> \<not> below (beneath ?S q) ?s" using apart_below [of ?S ?s "beneath ?S q"] a apart_sym by simp
    then show ?thesis using n1(1) [of "beneath ?S q"] n2(1) [of "beneath ?S q"] by (metis below_child)
  qed
  have ar: "archive_of env (dataPath base name) t2 = Inr (map (entry_of t2 ?S) (walk t2 ?S))"
    using k by (auto simp: archive_of_def Let_def kind_env_def list_ex_iff split: option.splits fnode.splits)
  have st: "tree_Stat (ve_deny env) (dataPath base name) t = Inr FDir" using k d by (simp add: tree_Stat_def lookup_node_def kind_env_def)
  obtain snap t' where "dir_Snapshot env base name t = (Inr snap, t')" "vp_Path snap = ?p"
      "t' = (loc_of ?p, FFile (VArchive (map (entry_of t2 ?S) (walk t2 ?S)) True)) # t2"
    using st m w ar by (simp add: dir_Snapshot_def Let_def snapshot_file_def)
  moreover have "l_elems (loc_of ?p) \<noteq> []" by (simp add: locs(2))
  ultimately show ?thesis using n2(2) data by (intro exI [of _ snap] exI [of _ t2] exI [of _ t']) (simp add: node_at_Cons)
qed

text \<open>
  Claim C17. A snapshot of a directory volume can be restored at any later time: whatever happened to the data
  directory since, it then holds exactly the files and directories it held when the snapshot was taken, and
  nothing else changes. The data directory holds regular files and directories only, and none of their names contains
  two dots in a row: such a name makes the restoration fail after the old data are gone. The file system refuses
  nothing, and the archive itself is unchanged.
\<close>

theorem volume_snapshot_roundtrip:
  assumes "kind_env env" and "path_IsAbs base" and "tree_ok t" and "node_at t (loc_of (dataPath base name)) = Some FDir"
    and "CHR ''/'' \<notin> set name" and "\<And>x. node_at t (loc_of (snapshots_dir base)) \<noteq> Some (FFile x)"
    and "node_at t (loc_of (path_Join [snapshots_dir base, snapshot_file env name])) \<noteq> Some FDir"
    and "\<And>r. node_at t (beneath (loc_of (dataPath base name)) r) \<noteq> None \<Longrightarrow> archivable r"
  shows "\<exists>snap t1. dir_Snapshot env base name t = (Inr snap, t1) \<and>
    (\<forall>u. tree_ok u \<longrightarrow> node_at u (loc_of (volumeDir base name)) = Some FDir \<longrightarrow>
      node_at u (loc_of (vp_Path snap)) = node_at t1 (loc_of (vp_Path snap)) \<longrightarrow>
      (\<exists>u'. dir_Restore env base name (Some snap) u = (Inr (), u') \<and>
        (\<forall>r. node_at u' (beneath (loc_of (dataPath base name)) r) = node_at t (beneath (loc_of (dataPath base name)) r)) \<and>
        (\<forall>l. \<not> below (loc_of (dataPath base name)) l \<longrightarrow> node_at u' l = node_at u l)))"
proof -
  let ?S = "loc_of (dataPath base name)"
  have b: "base \<noteq> []" using abs_nonempty assms(2) by blast
  obtain snap t0 t1 where s: "dir_Snapshot env base name t = (Inr snap, t1)" "vp_Path snap = path_Join [snapshots_dir base, snapshot_file env name]"
      and o0: "tree_ok t0" and n0: "\<And>q. node_at t0 (beneath ?S q) = node_at t (beneath ?S q)"
      and ar: "node_at t1 (loc_of (vp_Path snap)) = Some (FFile (VArchive (map (entry_of t0 ?S) (walk t0 ?S)) True))"
    using snapshot_works [OF assms(1-7)] by blast
  have S0: "node_at t0 ?S = Some FDir" using n0 [of "[]"] assms(4) by simp
  have root: "l_root ?S" using volume_abs(2) [OF assms(2)] by (rule fst_loc_abs)
  have el: "path_elems (dataPath base name) \<noteq> []" using volume_locs(3) [OF b, of name] by (simp add: loc_of_def child_def)
  have off: "\<not> below ?S (loc_of (vp_Path snap))"
    using apart_below [OF snapshots_apart [of base name dirDataSubdir]] loc_snapshots(3) [OF b assms(5)] by (simp add: s(2) volume_locs [OF b])
  have "\<exists>u'. dir_Restore env base name (Some snap) u = (Inr (), u') \<and> (\<forall>r. node_at u' (beneath ?S r) = node_at t (beneath ?S r)) \<and>
      (\<forall>l. \<not> below ?S l \<longrightarrow> node_at u' l = node_at u l)"
    if u: "tree_ok u" "node_at u (loc_of (volumeDir base name)) = Some FDir" "node_at u (loc_of (vp_Path snap)) = node_at t1 (loc_of (vp_Path snap))" for u
  proof -
    obtain u1 where m: "tree_RemoveAll (ve_deny env) (dataPath base name) u = (Inr (), drop_tree ?S u)"
        "tree_MkdirAll (ve_deny env) (dataPath base name) (drop_tree ?S u) = (Inr (), u1)" and o1: "tree_ok u1"
        and e: "\<And>q. node_at u1 (beneath ?S q) = (if q = [] then Some FDir else None)" and n1: "\<And>l. \<not> below ?S l \<Longrightarrow> node_at u1 l = node_at u l"
      using renew_dir [OF assms(1) u(1) b, of name] u(2) by (auto simp: volume_locs [OF b])
    have "archivable r" if "node_at t0 (beneath ?S r) \<noteq> None" for r using assms(8) n0 that by simp
    from extract_archive [OF assms(1) volume_abs(2) [OF assms(2)] el o0 root S0 this o1 e]
    obtain u' where x: "extract_all env (dataPath base name) (map (entry_of t0 ?S) (walk t0 ?S)) True u1 = (Inr (), u')"
        and n: "\<And>q. node_at u' (beneath ?S q) = node_at t0 (beneath ?S q)" "\<And>l. \<not> below ?S l \<Longrightarrow> node_at u' l = node_at u1 l" by blast
    have "tree_ReadFile (ve_deny env) (vp_Path snap) u1 = Inr (VArchive (map (entry_of t0 ?S) (walk t0 ?S)) True)"
      using assms(1) n1 [OF off] u(3) ar by (simp add: tree_ReadFile_def lookup_node_def kind_env_def)
    then have "dir_Restore env base name (Some snap) u = (Inr (), u')" using m x by (simp add: dir_Restore_def Let_def extract_data_def)
    then show ?thesis using n n0 n1 by simp
  qed
  then show ?thesis using s(1) by blast
qed

theorem volume_snapshot_roundtrip_witness:
  "\<exists>snap t1 u'. dir_Snapshot easy_env vol_base ''db'' db_tree = (Inr snap, t1) \<and>
     dir_Restore easy_env vol_base ''db'' (Some snap) ((Loc True [''v'', ''db'', ''data'', ''f''], FFile (VRaw ''lost'')) # t1) = (Inr (), u') \<and>
     node_at u' (Loc True [''v'', ''db'', ''data'', ''f'']) = Some (FFile (VRaw ''a''))"
proof -
  let ?S = "loc_of (dataPath vol_base ''db'')" and ?f = "Loc True [''v'', ''db'', ''data'', ''f'']"
  let ?p = "path_Join [snapshots_dir vol_base, snapshot_file easy_env ''db'']"
  define t1 where "t1 = snd (dir_Snapshot easy_env vol_base ''db'' db_tree)"
  have d: "node_at db_tree ?S = Some FDir" and f: "node_at db_tree ?f = Some (FFile (VRaw ''a''))"
    and s: "node_at db_tree (loc_of (snapshots_dir vol_base)) = None" "node_at db_tree (loc_of ?p) = None" by code_simp+
  have "r = [] \<or> r = [''f'']" if "node_at db_tree (beneath ?S r) \<noteq> None" for r
    using that by (auto simp: db_locs beneath_def node_at_def db_tree_def split: if_splits)
  moreover have "archivable []" "archivable [''f'']" by code_simp+
  ultimately have ar: "archivable r" if "node_at db_tree (beneath ?S r) \<noteq> None" for r using that by blast
  have s0: "CHR ''/'' \<notin> set ''db''" "node_at db_tree (loc_of (snapshots_dir vol_base)) \<noteq> Some (FFile x)" "node_at db_tree (loc_of ?p) \<noteq> Some FDir" for x
    by (simp_all add: s)
  obtain snap t2 where c: "dir_Snapshot easy_env vol_base ''db'' db_tree = (Inr snap, t2)"
      and r: "\<And>u. tree_ok u \<Longrightarrow> node_at u (loc_of (volumeDir vol_base ''db'')) = Some FDir \<Longrightarrow> node_at u (loc_of (vp_Path snap)) = node_at t2 (loc_of (vp_Path snap)) \<Longrightarrow>
        \<exists>u'. dir_Restore easy_env vol_base ''db'' (Some snap) u = (Inr (), u') \<and> (\<forall>r. node_at u' (beneath ?S r) = node_at db_tree (beneath ?S r))"
    using volume_snapshot_roundtrip [OF easy_kind db_locs(5) db_tree_ok d s0 ar] by blast
  let ?u = "(?f, FFile (VRaw ''lost'')) # t2"
  have t2: "t2 = t1" using c by (simp add: t1_def)
  have u1: "tree_ok ?u" unfolding t2 t1_def by (rule tree_ok_check) code_simp
  have u2: "node_at ?u (loc_of (volumeDir vol_base ''db'')) = Some FDir" unfolding t2 t1_def by code_simp
  have "loc_of (vp_Path (projr (fst (dir_Snapshot easy_env vol_base ''db'' db_tree)))) \<noteq> ?f" by code_simp
  then have u3: "node_at ?u (loc_of (vp_Path snap)) = node_at t2 (loc_of (vp_Path snap))" using c by (simp add: node_at_def)
  obtain u' where x: "dir_Restore easy_env vol_base ''db'' (Some snap) ?u = (Inr (), u')" and n: "\<And>r. node_at u' (beneath ?S r) = node_at db_tree (beneath ?S r)"
    using r [OF u1 u2 u3] by blast
  have "node_at u' ?f = Some (FFile (VRaw ''a''))" using n [of "[''f'']"] f by (simp add: db_locs beneath_def)
  then show ?thesis using c x by blast
qed

subsection \<open>Deviations\<close>

text \<open>
  The check of the names in an archive cleans the name, the code that unpacks joins the name as it is: an
  absolute name with dots passes the check and is written outside the data directory.
\<close>

lemma tar_name_escapes:
  "validateTarPath (dataPath vol_base ''db'') ''/../../x'' = Inr ()"
  "node_at (snd (dir_Import easy_env vol_base ''db'' (VArchive [TarEntry ''/../../x'' [] 0 TypeReg (VRaw ''bad'')] True) 0 db_tree)) (Loc True [''v'', ''x''])
     = Some (FFile (VRaw ''bad''))"
  by code_simp+

text \<open>A file whose name has two dots in a row is archived, but the archive cannot be restored; the data is lost.\<close>

lemma dotted_name_lost:
  "let t = (Loc True [''v'', ''db'', ''data'', ''a..b''], FFile (VRaw ''x'')) # db_tree;
       (r, t1) = dir_Snapshot easy_env vol_base ''db'' t;
       (r2, t2) = dir_Restore easy_env vol_base ''db'' (Some (projr r)) t1
   in r2 = Inl (EntryRefused ''a..b'') \<and> node_at t2 (Loc True [''v'', ''db'', ''data'', ''f'']) = None"
  by code_simp

text \<open>An imported file that is shorter than the one it replaces keeps the old end.\<close>

lemma import_keeps_tail:
  "node_at (snd (dir_Import easy_env vol_base ''db'' (VArchive [TarEntry ''f'' [] 0 TypeReg (VRaw ''new'')] True) 0
      ((Loc True [''v'', ''db'', ''data'', ''f''], FFile (VRaw ''longer'')) # db_tree))) (Loc True [''v'', ''db'', ''data'', ''f''])
     = Some (FFile (VRaw ''newger''))"
  by code_simp

text \<open>Both drivers keep their metadata in the same place, and the directory driver is asked first: a block volume cannot be mounted.\<close>

lemma block_volume_unusable:
  "let w = \<lparr>vw_tree = [], vw_log = []\<rparr>;
       (m, t) = NewVolumeManager easy_env ''/v'' [];
       (v, w1) = CreateVolumeWithOptions easy_env (projr m) ''disk'' ''t1'' \<lparr>vo_Type = VolumeTypeBlock, vo_SizeMB = 1\<rparr> (w\<lparr>vw_tree := t\<rparr>);
       (r, w2) = MountVolume easy_env (projr m) (Some (projr v)) ''/r'' ''m'' w1
   in r = Inl DataDirNotFound"
  by code_simp

text \<open>Different names can share a directory.\<close>

lemma volume_names_collide: "volumeDir base ''a/b'' = volumeDir base ''a_b''"
proof -
  have "sanitizeVolumeName ''a/b'' = sanitizeVolumeName ''a_b''" by code_simp
  then show ?thesis by (simp add: volumeDir_def)
qed

end
