(* ===== verification/Volume_Account.thy ===== *)
theory Volume_Account
  imports Volume_Correct
begin

text \<open>
  The volume manager and its drivers: what creating and deleting a volume promise, whichever driver does it.
\<close>

text \<open>
  The interface \<open>VolumeDriver\<close> as far as the manager relies on it: a driver keeps the metadata of its volumes in
  a store, and creating, deleting and asking agree on it.
\<close>

locale volume_driver =
  fixes store :: "'d \<Rightarrow> string"
    and create :: "vol_env \<Rightarrow> 'd \<Rightarrow> string \<Rightarrow> volume_options \<Rightarrow> vol_world \<Rightarrow> (vol_error, string) res \<times> vol_world"
    and delete :: "vol_env \<Rightarrow> 'd \<Rightarrow> string \<Rightarrow> vol_world \<Rightarrow> (vol_error, unit) res \<times> vol_world"
    and stat :: "vol_env \<Rightarrow> 'd \<Rightarrow> string \<Rightarrow> vol_world \<Rightarrow> (vol_error, volume_info) res"
  assumes create_found: "kind_env env \<Longrightarrow> create env d name opts w = (Inr p, w') \<Longrightarrow>
      \<exists>m. meta_Read env (store d) name (vw_tree w') = Inr m \<and> mt_Name m = name"
    and delete_gone: "kind_env env \<Longrightarrow> delete env d name w = (Inr (), w') \<Longrightarrow> meta_Read env (store d) name (vw_tree w') \<noteq> Inr m"
    and stat_meta: "stat env d name w = Inl e \<longleftrightarrow> meta_Read env (store d) name (vw_tree w) = Inl e"
    and stat_name: "meta_Read env (store d) name (vw_tree w) = Inr m \<Longrightarrow> \<exists>i. stat env d name w = Inr i \<and> vi_Name i = mt_Name m"
begin

text \<open>Drivers with the same store see each other's volumes.\<close>

lemma created_seen:
  "kind_env env \<Longrightarrow> store d = store d' \<Longrightarrow> create env d name opts w = (Inr p, w') \<Longrightarrow> \<exists>i. stat env d' name w' = Inr i \<and> vi_Name i = name"
  using create_found stat_name by metis

lemma deleted_unseen:
  "kind_env env \<Longrightarrow> store d = store d' \<Longrightarrow> delete env d name w = (Inr (), w') \<Longrightarrow> \<exists>e. stat env d' name w' = Inl e"
  using delete_gone stat_meta by (metis sum.exhaust)

end

lemma loc_metaPath: "loc_of (metaPath base name) = child (loc_of (volumeDir base name)) metadataFileName"
proof -
  have "sanitizeVolumeName name \<noteq> []" using sanitized(1) [of name] by (auto simp: plain_name_def)
  then have "volumeDir base name \<noteq> []" by (simp add: volumeDir_def)
  then show ?thesis by (simp add: metaPath_def loc_child)
qed

lemma meta_Write_Read:
  assumes "kind_env env" and "meta_Write env base m t = (Inr u, t')"
  shows "meta_Read env base (mt_Name m) t' = Inr m"
proof -
  from assms(2) obtain t1 where w: "put_file (loc_of (metaPath base (mt_Name m))) (VMeta m) t1 = (Inr u, t')"
    using assms(1) by (auto simp: meta_Write_def vol_io_def prod_eq_iff map_sum_def tree_WriteFile_def kind_env_def split: prod.splits sum.splits)
  have "node_at t' (loc_of (metaPath base (mt_Name m))) = Some (FFile (VMeta m))"
    using put_file_ok [OF w] put_file_nonempty by (metis node_at_Cons)
  then show ?thesis using assms(1) by (simp add: meta_Read_def tree_ReadFile_def lookup_node_def kind_env_def)
qed

lemma RemoveVolumeDir_Read:
  assumes "RemoveVolumeDir env base name t = (Inr u, t')"
  shows "meta_Read env base name t' \<noteq> Inr m"
proof -
  have t': "t' = drop_tree (loc_of (volumeDir base name)) t"
    using assms by (auto simp: RemoveVolumeDir_def vol_io_def tree_RemoveAll_def split: if_splits)
  have "node_at t' (loc_of (metaPath base name)) = None" by (simp add: t' node_at_drop loc_metaPath)
  then show ?thesis by (simp add: meta_Read_def tree_ReadFile_def lookup_node_def split: tree_error.splits)
qed

lemma write_fail: "fst (tree_WriteFile deny p d t) = Inl e \<Longrightarrow> snd (tree_WriteFile deny p d t) = t"
  using tree_fail(3) [of deny p d t e] by (simp add: prod_eq_iff)

lemma tree_on_tree: "vw_tree (snd (on_tree f w)) = snd (f (vw_tree w))"
  by (simp add: on_tree_def split: prod.splits)

lemma UpdateTaskID_Read:
  assumes "kind_env env" and "meta_Read env base name t = Inr m" and "mt_Name m = name"
  shows "\<exists>m'. meta_Read env base name (snd (UpdateTaskID env base name i t)) = Inr m' \<and> mt_Name m' = name"
proof -
  obtain r t' where w: "meta_Write env base (m\<lparr>mt_TaskID := i\<rparr>) t = (r, t')" by fastforce
  show ?thesis
  proof (cases r)
    case (Inr u)
    then have "meta_Read env base (mt_Name (m\<lparr>mt_TaskID := i\<rparr>)) t' = Inr (m\<lparr>mt_TaskID := i\<rparr>)" using meta_Write_Read [OF assms(1)] w by blast
    then show ?thesis using w assms(2,3) by (simp add: UpdateTaskID_def)
  next
    case (Inl e)
    let ?d = "loc_of (volumeDir base name)" and ?m = "loc_of (metaPath base name)"
    obtain r1 t1 where m1: "tree_MkdirAll (ve_deny env) (volumeDir base name) t = (r1, t1)" by fastforce
    have "t' = t1"
      using w Inl m1 assms(3) write_fail [of "ve_deny env" "metaPath base name" "VMeta (m\<lparr>mt_TaskID := i\<rparr>)" t1]
      by (cases r1) (auto simp: meta_Write_def vol_io_def map_sum_def split: sum.splits)
    then have "t' = t \<or> t' = dirs_to ?d @ t"
      using m1 by (auto simp: tree_MkdirAll_def Let_def split: if_splits option.splits fnode.splits)
    moreover have "\<not> below ?m ?d" using loc_metaPath [of base name] by simp
    ultimately have "node_at t' ?m = node_at t ?m" by (auto simp: node_at_dirs_to)
    then have "meta_Read env base name t' = Inr m" using assms(1,2)
      by (auto simp: meta_Read_def tree_ReadFile_def lookup_node_def kind_env_def split: option.splits fnode.splits vol_data.splits sum.splits tree_error.splits if_splits)
    then show ?thesis using w assms(2,3) by (simp add: UpdateTaskID_def)
  qed
qed

lemma dir_create_found:
  assumes "kind_env env" and "dir_Create env base name opts t = (Inr p, t')"
  shows "\<exists>m. meta_Read env base name t' = Inr m \<and> mt_Name m = name"
proof -
  from assms(2) obtain t1 u where w: "meta_Write env base (new_meta env name VolumeTypeDir (vo_SizeMB opts)) t1 = (Inr u, t')"
    by (auto simp: dir_Create_def Let_def split: if_splits prod.splits sum.splits)
  from meta_Write_Read [OF assms(1) w] show ?thesis by (simp add: new_meta_def)
qed

lemma block_create_found:
  assumes "kind_env env" and "block_Create env d name opts w = (Inr p, w')"
  shows "\<exists>m. meta_Read env (bd_base d) name (vw_tree w') = Inr m \<and> mt_Name m = name"
proof -
  from assms(2) obtain n t1 u where w: "meta_Write env (bd_base d) (new_meta env name VolumeTypeBlock n) t1 = (Inr u, vw_tree w')"
    by (auto simp: block_Create_def on_tree_def Let_def split: if_splits prod.splits sum.splits bool.splits)
  from meta_Write_Read [OF assms(1) w] show ?thesis by (simp add: new_meta_def)
qed

interpretation dir_drv: volume_driver "\<lambda>b. b" "\<lambda>env b name opts. on_tree (dir_Create env b name opts)" "\<lambda>env b name. on_tree (dir_Delete env b name)"
  "\<lambda>env b name w. dir_Stat env b name (vw_tree w)"
proof unfold_locales
  show "kind_env env \<Longrightarrow> on_tree (dir_Create env d name opts) w = (Inr p, w') \<Longrightarrow> \<exists>m. meta_Read env d name (vw_tree w') = Inr m \<and> mt_Name m = name"
    for env d name opts w p w' using dir_create_found by (fastforce simp: on_tree_def split: prod.splits)
  show "kind_env env \<Longrightarrow> on_tree (dir_Delete env d name) w = (Inr (), w') \<Longrightarrow> meta_Read env d name (vw_tree w') \<noteq> Inr m"
    for env d name w w' m using RemoveVolumeDir_Read by (fastforce simp: on_tree_def dir_Delete_def split: prod.splits)
qed (auto simp: dir_Stat_def volume_info_of_def split: sum.splits)

interpretation block_drv: volume_driver bd_base block_Create block_Delete "\<lambda>env d name w. block_Stat env d name (vw_tree w)"
proof unfold_locales
  show "kind_env env \<Longrightarrow> block_Create env d name opts w = (Inr p, w') \<Longrightarrow> \<exists>m. meta_Read env (bd_base d) name (vw_tree w') = Inr m \<and> mt_Name m = name"
    for env d name opts w p w' by (rule block_create_found)
  show "kind_env env \<Longrightarrow> block_Delete env d name w = (Inr (), w') \<Longrightarrow> meta_Read env (bd_base d) name (vw_tree w') \<noteq> Inr m"
    for env d name w w' m using RemoveVolumeDir_Read by (fastforce simp: on_tree_def block_Delete_def split: prod.splits)
qed (auto simp: block_Stat_def volume_info_of_def split: sum.splits)

interpretation drv: volume_driver drv_base drv_Create drv_Delete drv_Stat
proof unfold_locales
  show "kind_env env \<Longrightarrow> drv_Create env d name opts w = (Inr p, w') \<Longrightarrow> \<exists>m. meta_Read env (drv_base d) name (vw_tree w') = Inr m \<and> mt_Name m = name"
    for env d name opts w p w'
    by (cases d) (auto simp: drv_Create_def drv_base_def intro: dir_drv.create_found block_drv.create_found)
  show "kind_env env \<Longrightarrow> drv_Delete env d name w = (Inr (), w') \<Longrightarrow> meta_Read env (drv_base d) name (vw_tree w') \<noteq> Inr m"
    for env d name w w' m
    by (cases d) (use dir_drv.delete_gone block_drv.delete_gone in \<open>auto simp: drv_Delete_def drv_base_def\<close>)
  show "drv_Stat env d name w = Inl e \<longleftrightarrow> meta_Read env (drv_base d) name (vw_tree w) = Inl e" for env d name w e
    by (cases d) (simp_all add: drv_Stat_def drv_base_def dir_drv.stat_meta block_drv.stat_meta)
  show "meta_Read env (drv_base d) name (vw_tree w) = Inr m \<Longrightarrow> \<exists>i. drv_Stat env d name w = Inr i \<and> vi_Name i = mt_Name m" for env d name w m
    by (cases d) (auto simp: drv_Stat_def drv_base_def dest: dir_drv.stat_name block_drv.stat_name)
qed

lemma manager_drivers:
  assumes "NewVolumeManager env dir t0 = (Inr vm, t1)"
  shows "\<exists>b. (\<exists>d. vg_drivers vm VolumeTypeDir = Some d) \<and> (\<forall>ty d. vg_drivers vm ty = Some d \<longrightarrow> drv_base d = b \<and> ty \<in> {VolumeTypeDir, VolumeTypeBlock})"
  using assms by (auto simp: NewVolumeManager_def NewBlockDriver_def NewMetaStore_def drv_base_def Let_def VolumeTypeDir_def VolumeTypeBlock_def
      split: prod.splits sum.splits if_splits)

text \<open>
  Claim C37. The manager that \<open>NewVolumeManager\<close> makes keeps account of its volumes, of either type: a volume that
  was created is found under its name, and a volume that was deleted is not found any more, by whichever
  driver it was made.
\<close>

theorem volume_account:
  assumes "kind_env env" and "NewVolumeManager env dir t0 = (Inr vm, t1)"
  shows "(CreateVolumeWithOptions env vm name taskID opts w = (Inr v, w1) \<longrightarrow> (\<exists>v'. GetVolume env vm name w1 = Inr v' \<and> vol_ID v' = vol_ID v)) \<and>
    (DeleteVolume env vm name w = (Inr (), w2) \<longrightarrow> GetVolume env vm name w2 = Inl VolNotFound)"
proof -
  obtain b d0 where d0: "vg_drivers vm VolumeTypeDir = Some d0" and ds: "\<And>ty d. vg_drivers vm ty = Some d \<Longrightarrow> drv_base d = b"
    using manager_drivers [OF assms(2)] by blast
  have ne: "VolumeTypeDir \<noteq> []" "VolumeTypeBlock \<noteq> []" by (simp_all add: VolumeTypeDir_def VolumeTypeBlock_def)
  have "\<exists>v'. GetVolume env vm name w1 = Inr v' \<and> vol_ID v' = vol_ID v" if c: "CreateVolumeWithOptions env vm name taskID opts w = (Inr v, w1)"
  proof -
    from c obtain ty d p w' where d: "vg_drivers vm ty = Some d" and x: "drv_Create env d name opts w = (Inr p, w')"
        and v: "vol_ID v = sanitizeVolumeName name" and w1: "w1 = snd (on_tree (UpdateTaskID env (drv_base d) name taskID) w')"
      by (auto simp: CreateVolumeWithOptions_def getDriver_def Let_def split: if_splits sum.splits prod.splits option.splits)
    from drv.create_found [OF assms(1) x] obtain m where m: "meta_Read env b name (vw_tree w') = Inr m" "mt_Name m = name" using ds [OF d] by auto
    obtain m' where "meta_Read env b name (vw_tree w1) = Inr m'"
      using UpdateTaskID_Read [OF assms(1) m] ds [OF d] by (auto simp: w1 tree_on_tree)
    then obtain i where "drv_Stat env d0 name w1 = Inr i" using drv.stat_name [of env d0] ds [OF d0] by blast
    then show ?thesis using d0 ne v by (simp add: GetVolume_def driver_for_def getDriver_def Let_def)
  qed
  moreover have "GetVolume env vm name w2 = Inl VolNotFound" if x: "DeleteVolume env vm name w = (Inr (), w2)"
  proof -
    from x obtain d ty where d: "vg_drivers vm ty = Some d" "drv_Delete env d name w = (Inr (), w2)"
      by (auto simp: DeleteVolume_def driver_for_def getDriver_def Let_def split: if_splits sum.splits option.splits)
    have "drv_Stat env d' name w2 \<noteq> Inr i" if "vg_drivers vm ty' = Some d'" for ty' d' i
      using drv.deleted_unseen [OF assms(1) _ d(2), of d'] ds [OF that] ds [OF d(1)] by auto
    then have "first_driver env vm name tys w2 = None" for tys
      by (induction tys) (auto simp: getDriver_def Let_def split: option.splits sum.splits)
    then show ?thesis unfolding GetVolume_def driver_for_def by (simp only: option.case)
  qed
  ultimately show ?thesis by blast
qed

theorem volume_account_witness:
  "\<exists>vm t1 v w1 w2. NewVolumeManager easy_env ''/v'' [] = (Inr vm, t1) \<and>
     CreateVolumeWithOptions easy_env vm ''db'' ''task'' \<lparr>vo_Type = VolumeTypeBlock, vo_SizeMB = 1\<rparr> \<lparr>vw_tree = t1, vw_log = []\<rparr> = (Inr v, w1) \<and>
     (\<exists>v'. GetVolume easy_env vm ''db'' w1 = Inr v' \<and> vol_ID v' = ''db'') \<and>
     DeleteVolume easy_env vm ''db'' w1 = (Inr (), w2) \<and> GetVolume easy_env vm ''db'' w2 = Inl VolNotFound"
proof -
  let ?o = "\<lparr>vo_Type = VolumeTypeBlock, vo_SizeMB = 1\<rparr>"
  define vm where "vm = projr (fst (NewVolumeManager easy_env ''/v'' []))"
  define w where "w = \<lparr>vw_tree = snd (NewVolumeManager easy_env ''/v'' []), vw_log = []\<rparr>"
  define w1 where "w1 = snd (CreateVolumeWithOptions easy_env vm ''db'' ''task'' ?o w)"
  define w2 where "w2 = snd (DeleteVolume easy_env vm ''db'' w1)"
  have "\<not> isl (fst (NewVolumeManager easy_env ''/v'' []))" by code_simp
  then have n: "NewVolumeManager easy_env ''/v'' [] = (Inr vm, vw_tree w)" by (simp add: vm_def w_def prod_eq_iff)
  have "\<not> isl (fst (CreateVolumeWithOptions easy_env vm ''db'' ''task'' ?o w))" unfolding vm_def w_def by code_simp
  then obtain v where c: "CreateVolumeWithOptions easy_env vm ''db'' ''task'' ?o w = (Inr v, w1)" unfolding w1_def by (metis prod.collapse sum.collapse(2))
  have "vol_ID (projr (fst (CreateVolumeWithOptions easy_env vm ''db'' ''task'' ?o w))) = ''db''" unfolding vm_def w_def by code_simp
  then have v: "vol_ID v = ''db''" using c by simp
  have "fst (DeleteVolume easy_env vm ''db'' w1) = Inr ()" unfolding w1_def vm_def w_def by code_simp
  then have d: "DeleteVolume easy_env vm ''db'' w1 = (Inr (), w2)" by (simp add: w2_def prod_eq_iff)
  have "\<exists>v'. GetVolume easy_env vm ''db'' w1 = Inr v' \<and> vol_ID v' = ''db''" using volume_account [OF easy_kind n] c v by metis
  moreover have "GetVolume easy_env vm ''db'' w2 = Inl VolNotFound" using volume_account [OF easy_kind n] d by blast
  moreover have "w = \<lparr>vw_tree = vw_tree w, vw_log = []\<rparr>" by (simp add: w_def)
  ultimately show ?thesis using n c d by metis
qed

end
