(* ===== verification/Go_Link.thy ===== *)
theory Go_Link
  imports Go_Tree "HOL-Library.Word"
begin

text \<open>
  A file system with symbolic and hard links, for the root file systems that are unpacked from images. Locations
  are absolute, as lists of names. A name leads to a directory, a file or a symbolic link; files are kept by
  number, so that hard links share them. The modes of directories are left out. As in the kernel, a path is
  followed from the root, symbolic links are expanded where they are met, forty of them at most.
\<close>

datatype inode = IDir | IFile nat | ILink string

record host_fs =
  hf_nodes :: "(string list \<times> inode) list"
  hf_files :: "(nat \<times> 32 word \<times> string) list"
  hf_next :: nat

type_synonym refusals = "os_op \<Rightarrow> string \<Rightarrow> bool"

definition inode_at :: "host_fs \<Rightarrow> string list \<Rightarrow> inode option" where
  "inode_at fs l = (if l = [] then Some IDir else map_of (hf_nodes fs) l)"

definition file_of :: "host_fs \<Rightarrow> nat \<Rightarrow> 32 word \<times> string" where
  "file_of fs n = (case map_of (hf_files fs) n of Some f \<Rightarrow> f | None \<Rightarrow> (0, []))"

function follow :: "nat \<Rightarrow> host_fs \<Rightarrow> bool \<Rightarrow> string list \<Rightarrow> string list \<Rightarrow> (tree_error, string list) res" where
  "follow n fs final at [] = Inr at"
| "follow n fs final at (x # xs) =
     (if x = [] \<or> x = ''.'' then follow n fs final at xs
      else if x = ''..'' then follow n fs final (butlast at) xs
      else case inode_at fs (at @ [x]) of
             None \<Rightarrow> if xs = [] then Inr (at @ [x]) else Inl NotExist
           | Some IDir \<Rightarrow> follow n fs final (at @ [x]) xs
           | Some (IFile _) \<Rightarrow> if xs = [] then Inr (at @ [x]) else Inl OtherError
           | Some (ILink t) \<Rightarrow>
               if xs = [] \<and> \<not> final then Inr (at @ [x])
               else case n of
                      0 \<Rightarrow> Inl OtherError
                    | Suc m \<Rightarrow> follow m fs final (if prefix ''/'' t then [] else at) (split_on (CHR ''/'') t @ xs))"
  by pat_completeness auto
termination
  by (relation "measures [\<lambda>(n, fs, final, at, xs). n, \<lambda>(n, fs, final, at, xs). length xs]") auto

definition lk_path :: "host_fs \<Rightarrow> bool \<Rightarrow> string \<Rightarrow> (tree_error, string list) res" where
  "lk_path fs final p = follow 40 fs final [] (split_on (CHR ''/'') p)"

definition lk_look :: "os_op \<Rightarrow> refusals \<Rightarrow> bool \<Rightarrow> string \<Rightarrow> host_fs \<Rightarrow> (tree_error, inode) res" where
  "lk_look op deny final p fs =
     (if deny op p then Inl OtherError
      else case lk_path fs final p of
             Inl e \<Rightarrow> Inl e
           | Inr l \<Rightarrow> (case inode_at fs l of None \<Rightarrow> Inl NotExist | Some i \<Rightarrow> Inr i))"

definition lk_Stat :: "refusals \<Rightarrow> string \<Rightarrow> host_fs \<Rightarrow> (tree_error, inode) res" where
  "lk_Stat deny p fs = lk_look OpStat deny True p fs"

definition lk_Lstat :: "refusals \<Rightarrow> string \<Rightarrow> host_fs \<Rightarrow> (tree_error, inode) res" where
  "lk_Lstat deny p fs = lk_look OpStat deny False p fs"

definition lk_Readlink :: "refusals \<Rightarrow> string \<Rightarrow> host_fs \<Rightarrow> (tree_error, string) res" where
  "lk_Readlink deny p fs =
     (case lk_look OpRead deny False p fs of Inl e \<Rightarrow> Inl e | Inr (ILink t) \<Rightarrow> Inr t | Inr _ \<Rightarrow> Inl OtherError)"

definition lk_ReadFile :: "refusals \<Rightarrow> string \<Rightarrow> host_fs \<Rightarrow> (tree_error, string) res" where
  "lk_ReadFile deny p fs =
     (case lk_look OpRead deny True p fs of Inl e \<Rightarrow> Inl e | Inr (IFile n) \<Rightarrow> Inr (snd (file_of fs n)) | Inr _ \<Rightarrow> Inl OtherError)"

definition names_in :: "host_fs \<Rightarrow> string list \<Rightarrow> string list" where
  "names_in fs l = sort (remdups (map (\<lambda>(l', _). last l') (filter (\<lambda>(l', _). l' \<noteq> [] \<and> butlast l' = l) (hf_nodes fs))))"

text \<open>\<open>os.ReadDir\<close>: the names, and whether they are directories (and not links).\<close>

definition lk_ReadDir :: "refusals \<Rightarrow> string \<Rightarrow> host_fs \<Rightarrow> (tree_error, (string \<times> bool) list) res" where
  "lk_ReadDir deny p fs =
     (if deny OpReadDir p then Inl OtherError
      else case lk_path fs True p of
             Inl e \<Rightarrow> Inl e
           | Inr l \<Rightarrow> (case inode_at fs l of
                 None \<Rightarrow> Inl NotExist
               | Some IDir \<Rightarrow> Inr (map (\<lambda>x. (x, inode_at fs (l @ [x]) = Some IDir)) (names_in fs l))
               | Some _ \<Rightarrow> Inl OtherError))"

subsection \<open>Changes\<close>

definition set_node :: "string list \<Rightarrow> inode \<Rightarrow> host_fs \<Rightarrow> host_fs" where
  "set_node l i fs = fs\<lparr>hf_nodes := (l, i) # hf_nodes fs\<rparr>"

definition set_file :: "nat \<Rightarrow> 32 word \<times> string \<Rightarrow> host_fs \<Rightarrow> host_fs" where
  "set_file n f fs = fs\<lparr>hf_files := (n, f) # hf_files fs\<rparr>"

text \<open>\<open>os.WriteFile\<close>: an existing file keeps its mode, a symbolic link is followed.\<close>

definition lk_WriteFile :: "refusals \<Rightarrow> string \<Rightarrow> 32 word \<Rightarrow> string \<Rightarrow> host_fs \<Rightarrow> (tree_error, unit) res \<times> host_fs" where
  "lk_WriteFile deny p mode d fs =
     (if deny OpWrite p then (Inl OtherError, fs)
      else case lk_path fs True p of
             Inl e \<Rightarrow> (Inl e, fs)
           | Inr l \<Rightarrow>
               (case inode_at fs l of
                  None \<Rightarrow> (Inr (), set_node l (IFile (hf_next fs)) (set_file (hf_next fs) (mode, d) (fs\<lparr>hf_next := Suc (hf_next fs)\<rparr>)))
                | Some (IFile n) \<Rightarrow> (Inr (), set_file n (fst (file_of fs n), d) fs)
                | Some _ \<Rightarrow> (Inl OtherError, fs)))"

definition lk_Mkdir :: "refusals \<Rightarrow> string \<Rightarrow> host_fs \<Rightarrow> (tree_error, unit) res \<times> host_fs" where
  "lk_Mkdir deny p fs =
     (if deny OpMkdir p then (Inl OtherError, fs)
      else case lk_path fs False p of
             Inl e \<Rightarrow> (Inl e, fs)
           | Inr l \<Rightarrow> if inode_at fs l = None then (Inr (), set_node l IDir fs) else (Inl OtherError, fs))"

text \<open>\<open>os.MkdirAll\<close>: the directories on the way from the root, each of them checked first.\<close>

fun mkdir_steps :: "refusals \<Rightarrow> string list \<Rightarrow> host_fs \<Rightarrow> (tree_error, unit) res \<times> host_fs" where
  "mkdir_steps deny [] fs = (Inr (), fs)"
| "mkdir_steps deny (p # ps) fs =
     (case lk_Stat deny p fs of
        Inr IDir \<Rightarrow> mkdir_steps deny ps fs
      | Inr _ \<Rightarrow> (Inl OtherError, fs)
      | Inl _ \<Rightarrow> (case lk_Mkdir deny p fs of (Inl e, fs1) \<Rightarrow> (Inl e, fs1) | (Inr _, fs1) \<Rightarrow> mkdir_steps deny ps fs1))"

definition lk_MkdirAll :: "refusals \<Rightarrow> string \<Rightarrow> host_fs \<Rightarrow> (tree_error, unit) res \<times> host_fs" where
  "lk_MkdirAll deny p fs =
     mkdir_steps deny (map (\<lambda>k. path_of True (take k (path_elems p))) [1..<Suc (length (path_elems p))]) fs"

definition lk_Symlink :: "refusals \<Rightarrow> string \<Rightarrow> string \<Rightarrow> host_fs \<Rightarrow> (tree_error, unit) res \<times> host_fs" where
  "lk_Symlink deny t p fs =
     (if deny OpWrite p then (Inl OtherError, fs)
      else case lk_path fs False p of
             Inl e \<Rightarrow> (Inl e, fs)
           | Inr l \<Rightarrow> if inode_at fs l = None then (Inr (), set_node l (ILink t) fs) else (Inl OtherError, fs))"

text \<open>\<open>os.Link\<close>: the new name leads to what the old one leads to; directories cannot be linked.\<close>

definition lk_Link :: "refusals \<Rightarrow> string \<Rightarrow> string \<Rightarrow> host_fs \<Rightarrow> (tree_error, unit) res \<times> host_fs" where
  "lk_Link deny old new fs =
     (case lk_look OpWrite deny False old fs of
        Inl e \<Rightarrow> (Inl e, fs)
      | Inr IDir \<Rightarrow> (Inl OtherError, fs)
      | Inr i \<Rightarrow>
          (case lk_path fs False new of
             Inl e \<Rightarrow> (Inl e, fs)
           | Inr l \<Rightarrow> if inode_at fs l = None then (Inr (), set_node l i fs) else (Inl OtherError, fs)))"

definition drop_nodes :: "string list \<Rightarrow> host_fs \<Rightarrow> host_fs" where
  "drop_nodes l fs = fs\<lparr>hf_nodes := filter (\<lambda>(l', _). \<not> prefix l l') (hf_nodes fs)\<rparr>"

definition lk_Remove :: "refusals \<Rightarrow> string \<Rightarrow> host_fs \<Rightarrow> (tree_error, unit) res \<times> host_fs" where
  "lk_Remove deny p fs =
     (if deny OpRemove p then (Inl OtherError, fs)
      else case lk_path fs False p of
             Inl e \<Rightarrow> (Inl e, fs)
           | Inr l \<Rightarrow>
               (case inode_at fs l of
                  None \<Rightarrow> (Inl NotExist, fs)
                | Some i \<Rightarrow> if i = IDir \<and> (names_in fs l \<noteq> [] \<or> l = []) then (Inl OtherError, fs) else (Inr (), drop_nodes l fs)))"

definition lk_RemoveAll :: "refusals \<Rightarrow> string \<Rightarrow> host_fs \<Rightarrow> host_fs" where
  "lk_RemoveAll deny p fs =
     (if deny OpRemove p then fs else case lk_path fs False p of Inl _ \<Rightarrow> fs | Inr l \<Rightarrow> if l = [] then fs else drop_nodes l fs)"

subsection \<open>Facts\<close>

lemma inode_set_node: "l \<noteq> [] \<Longrightarrow> inode_at (set_node l i fs) l' = (if l' = l then Some i else inode_at fs l')"
  by (simp add: inode_at_def set_node_def)

lemma inode_set_file [simp]: "inode_at (set_file n f fs) l = inode_at fs l"
  by (simp add: inode_at_def set_file_def)

lemma file_set_file: "file_of (set_file n f fs) m = (if m = n then f else file_of fs m)"
  by (simp add: file_of_def set_file_def)

lemma file_set_node [simp]: "file_of (set_node l i fs) m = file_of fs m"
  by (simp add: file_of_def set_node_def)

lemma hf_next_set [simp]: "hf_next (set_node l i fs) = hf_next fs" "hf_next (set_file n f fs) = hf_next fs"
  by (simp_all add: set_node_def set_file_def)

lemma inode_next [simp]: "inode_at (fs\<lparr>hf_next := k\<rparr>) l = inode_at fs l" "file_of (fs\<lparr>hf_next := k\<rparr>) m = file_of fs m"
  by (simp_all add: inode_at_def file_of_def)

lemma inode_drop: "inode_at (drop_nodes l fs) l' = (if prefix l l' \<and> l' \<noteq> [] then None else inode_at fs l')"
proof -
  have "map_of (filter (\<lambda>(l', _). \<not> prefix l l') ns) l' = (if prefix l l' then None else map_of ns l')" for ns :: "(string list \<times> inode) list"
    by (induction ns) auto
  then show ?thesis by (simp add: inode_at_def drop_nodes_def)
qed

end
