(* ===== verification/Image_Wrapper.thy ===== *)
theory Image_Wrapper
  imports Go_Os
begin

text \<open>
  The configuration of an image (\<open>pkg/image/oci_info.go\<close>) and the script that a VM runs first
  (\<open>wrapper.go\<close>). The configuration file of the registry library is a record of the fields that are read.
  What a POSIX shell makes of a line of words is specified below, for the correctness of the quoting.
\<close>

subsection \<open>Image configuration\<close>

record oci_config =
  oc_Entrypoint :: "string list"
  oc_Cmd :: "string list"
  oc_Env :: "string list"
  oc_User :: string
  oc_WorkingDir :: string
  oc_StopSignal :: string
  oc_OS :: string
  oc_Architecture :: string

record oci_info =
  oi_Entrypoint :: "string list"
  oi_Cmd :: "string list"
  oi_Env :: "string list"
  oi_User :: string
  oi_WorkDir :: string
  oi_StopSignal :: string
  oi_OS :: string
  oi_Architecture :: string
  oi_ImageRef :: string

definition DefaultStopSignal :: string where
  "DefaultStopSignal = ''SIGTERM''"

definition ParseOCIImageConfig :: "oci_config option \<Rightarrow> string \<Rightarrow> oci_info" where
  "ParseOCIImageConfig ocfg imageRef =
     (case ocfg of
        None \<Rightarrow> \<lparr>oi_Entrypoint = [], oi_Cmd = [], oi_Env = [], oi_User = [], oi_WorkDir = [], oi_StopSignal = DefaultStopSignal,
          oi_OS = [], oi_Architecture = [], oi_ImageRef = imageRef\<rparr>
      | Some cfg \<Rightarrow>
          \<lparr>oi_Entrypoint = oc_Entrypoint cfg, oi_Cmd = oc_Cmd cfg, oi_Env = oc_Env cfg, oi_User = oc_User cfg,
           oi_WorkDir = oc_WorkingDir cfg,
           oi_StopSignal = (if oc_StopSignal cfg \<noteq> [] then oc_StopSignal cfg else DefaultStopSignal),
           oi_OS = oc_OS cfg, oi_Architecture = oc_Architecture cfg, oi_ImageRef = imageRef\<rparr>)"

definition FullCommand :: "oci_info option \<Rightarrow> string list" where
  "FullCommand oinfo =
     (case oinfo of
        None \<Rightarrow> [''/bin/sh'']
      | Some info \<Rightarrow>
          if oi_Entrypoint info \<noteq> [] \<and> oi_Cmd info \<noteq> [] then oi_Entrypoint info @ oi_Cmd info
          else if oi_Entrypoint info \<noteq> [] then oi_Entrypoint info
          else if oi_Cmd info \<noteq> [] then oi_Cmd info
          else [''/bin/sh''])"

definition HasEntrypoint :: "oci_info option \<Rightarrow> bool" where
  "HasEntrypoint oinfo = (case oinfo of None \<Rightarrow> False | Some info \<Rightarrow> oi_Entrypoint info \<noteq> [])"

definition HasCmd :: "oci_info option \<Rightarrow> bool" where
  "HasCmd oinfo = (case oinfo of None \<Rightarrow> False | Some info \<Rightarrow> oi_Cmd info \<noteq> [])"

definition info_IsEmpty :: "oci_info option \<Rightarrow> bool" where
  "info_IsEmpty oinfo =
     (case oinfo of None \<Rightarrow> True | Some info \<Rightarrow> oi_Entrypoint info = [] \<and> oi_Cmd info = [] \<and> oi_Env info = [])"

subsection \<open>Quoting\<close>

definition shellEscapeValue :: "string \<Rightarrow> string" where
  "shellEscapeValue s =
     (let e1 = replace_all [CHR 0x5C] [CHR 0x5C, CHR 0x5C] s;
          e2 = replace_all [CHR 0x22] [CHR 0x5C, CHR 0x22] e1;
          e3 = replace_all [CHR ''$''] [CHR 0x5C, CHR ''$''] e2;
          e4 = replace_all [CHR 0x60] [CHR 0x5C, CHR 0x60] e3
      in [CHR 0x22] @ e4 @ [CHR 0x22])"

definition escaped_chars :: "char list" where
  "escaped_chars = [CHR '' '', CHR 0x09, CHR 0x22, CHR 0x27, CHR 0x5C, CHR ''$'', CHR 0x60, CHR ''!'', CHR ''*'', CHR ''?'',
     CHR ''['', CHR '']'', CHR ''('', CHR '')'', CHR ''<'', CHR ''>'', CHR ''&'', CHR ''|'', CHR '';'', CHR 0x0A]"

definition needsShellEscaping :: "string \<Rightarrow> bool" where
  "needsShellEscaping s = list_ex (\<lambda>c. c \<in> set escaped_chars) s"

definition already_quoted :: "string \<Rightarrow> bool" where
  "already_quoted s \<longleftrightarrow> 2 \<le> length s \<and> (hd s = CHR 0x22 \<or> hd s = CHR 0x27) \<and> last s = hd s"

definition shellEscape :: "string \<Rightarrow> string" where
  "shellEscape s =
     (if already_quoted s then s
      else if s = [] \<or> \<not> needsShellEscaping s then s
      else shellEscapeValue s)"

definition parseEnvVar :: "string \<Rightarrow> string \<times> string" where
  "parseEnvVar env = (case cut (CHR ''='') env of None \<Rightarrow> (env, []) | Some (k, v) \<Rightarrow> (k, v))"

definition buildCommandString :: "string list \<Rightarrow> string" where
  "buildCommandString cmd = (if cmd = [] then ''/bin/sh'' else join '' '' (map shellEscape cmd))"

subsection \<open>The wrapper\<close>

definition quoted :: "string \<Rightarrow> string" where
  "quoted s = [CHR 0x22] @ s @ [CHR 0x22]"

definition wrapper_header :: "oci_info option \<Rightarrow> string list" where
  "wrapper_header oinfo =
     (let imageRef = (case oinfo of Some info \<Rightarrow> if oi_ImageRef info \<noteq> [] then oi_ImageRef info else ''unknown'' | None \<Rightarrow> ''unknown'')
      in [''#!/bin/sh'',
          ''# SwarmCracker init wrapper '' @ [CHR 0xE2, CHR 0x80, CHR 0x94] @ '' auto-generated'',
          ''# Image: '' @ imageRef,
          [],
          ''# Mount essential filesystems'',
          ''mount -t proc proc /proc 2>/dev/null || true'',
          ''mount -t sysfs sysfs /sys 2>/dev/null || true'',
          ''mount -t devpts devpts /dev/pts 2>/dev/null || true'',
          ''mount -t tmpfs tmpfs /dev/shm 2>/dev/null || true'',
          ''if [ ! -d /tmp ]; then'',
          ''    mount -t tmpfs tmpfs /tmp 2>/dev/null || mkdir -p /tmp'',
          ''fi'',
          [],
          ''# Fallback device nodes if devtmpfs failed'',
          ''if [ ! -e /dev/urandom ]; then'',
          ''    mknod /dev/urandom c 1 9 2>/dev/null || true'',
          ''fi'',
          []])"

definition export_line :: "string \<times> string \<Rightarrow> string" where
  "export_line = (\<lambda>(key, value). ''export '' @ shellEscape key @ ''='' @ shellEscapeValue value)"

definition wrapper_env :: "oci_info option \<Rightarrow> string list" where
  "wrapper_env oinfo =
     (case oinfo of
        None \<Rightarrow> []
      | Some info \<Rightarrow>
          if oi_Env info = [] then []
          else [''# Environment''] @ map export_line (filter (\<lambda>(key, _). key \<noteq> []) (map parseEnvVar (oi_Env info))) @ [[]])"

definition wrapper_workdir :: "oci_info option \<Rightarrow> string list" where
  "wrapper_workdir oinfo =
     (case oinfo of
        None \<Rightarrow> []
      | Some info \<Rightarrow>
          if oi_WorkDir info = [] then []
          else let workDir = shellEscapeValue (oi_WorkDir info)
               in [''# Working directory'', ''mkdir -p '' @ workDir @ '' 2>/dev/null || true'', ''cd '' @ workDir @ '' || true'', []])"

definition wrapper_user :: "oci_info option \<Rightarrow> string list \<times> string" where
  "wrapper_user oinfo =
     (case oinfo of
        None \<Rightarrow> ([], [])
      | Some info \<Rightarrow>
          if oi_User info = [] then ([], [])
          else ([''# User directive'',
                 ''if command -v su-exec >/dev/null 2>&1; then'',
                 ''    USER_CMD='' @ quoted (''su-exec '' @ shellEscape (oi_User info)),
                 ''elif command -v gosu >/dev/null 2>&1; then'',
                 ''    USER_CMD='' @ quoted (''gosu '' @ shellEscape (oi_User info)),
                 ''else'',
                 ''    echo '' @ quoted ''Warning: USER directive set but no su-exec/gosu available, running as root'',
                 ''    USER_CMD='' @ quoted [],
                 ''fi'',
                 []], ''$USER_CMD ''))"

definition stop_signal_arg :: "oci_info option \<Rightarrow> string" where
  "stop_signal_arg oinfo =
     (case oinfo of
        None \<Rightarrow> []
      | Some info \<Rightarrow>
          if oi_StopSignal info \<noteq> [] \<and> oi_StopSignal info \<noteq> DefaultStopSignal
          then ''-e '' @ trim_prefix ''SIG'' (oi_StopSignal info) else [])"

definition exec_line :: "oci_info option \<Rightarrow> int \<Rightarrow> string" where
  "exec_line oinfo gracePeriod =
     (let cmdStr = buildCommandString (FullCommand oinfo);
          tiniArgs = (if 0 < gracePeriod then ''-s -g '' @ dec_of_int gracePeriod else ''-s'');
          stopSignal = stop_signal_arg oinfo;
          tiniCmd = (if stopSignal \<noteq> [] then ''/sbin/tini '' @ stopSignal else ''/sbin/tini'')
      in ''exec '' @ snd (wrapper_user oinfo) @ '' '' @ tiniCmd @ '' '' @ tiniArgs @ '' -- '' @ cmdStr)"

definition wrapper_lines :: "oci_info option \<Rightarrow> int \<Rightarrow> string list" where
  "wrapper_lines oinfo gracePeriod =
     wrapper_header oinfo @ wrapper_env oinfo @ wrapper_workdir oinfo @ fst (wrapper_user oinfo) @
     [''# Execute'', exec_line oinfo gracePeriod]"

definition generateWrapperScript :: "oci_info option \<Rightarrow> int \<Rightarrow> string" where
  "generateWrapperScript oinfo gracePeriod = join [CHR 0x0A] (wrapper_lines oinfo gracePeriod)"

subsection \<open>How a shell reads words\<close>

text \<open>
  Within double quotes the backslash keeps its meaning before \<open>$\<close>, the backquote, the double quote, the
  backslash and the end of the line; an expansion is not a literal word. \<open>None\<close> stands for a line that
  is not a plain list of words.
\<close>

fun sh_dq :: "string \<Rightarrow> (string \<times> string) option" where
  "sh_dq [] = None"
| "sh_dq (c # s) =
     (if c = CHR 0x22 then Some ([], s)
      else if c = CHR ''$'' \<or> c = CHR 0x60 then None
      else if c = CHR 0x5C then
        (case s of
           [] \<Rightarrow> None
         | d # s' \<Rightarrow>
             if d \<in> {CHR ''$'', CHR 0x60, CHR 0x22, CHR 0x5C} then map_option (apfst (Cons d)) (sh_dq s')
             else if d = CHR 0x0A then sh_dq s'
             else map_option (apfst (\<lambda>x. c # d # x)) (sh_dq s'))
      else map_option (apfst (Cons c)) (sh_dq s))"

definition sh_blank :: "char \<Rightarrow> bool" where
  "sh_blank c \<longleftrightarrow> c = CHR '' '' \<or> c = CHR 0x09"

definition sh_special :: "char \<Rightarrow> bool" where
  "sh_special c \<longleftrightarrow> c \<in> set [CHR ''|'', CHR ''&'', CHR '';'', CHR ''<'', CHR ''>'', CHR ''('', CHR '')'', CHR ''$'', CHR 0x60, CHR 0x5C,
     CHR 0x27, CHR ''*'', CHR ''?'', CHR ''['', CHR 0x0A]"

lemma sh_dq_length: "sh_dq s = Some (x, r) \<Longrightarrow> length r < length s"
  by (induction s arbitrary: x rule: sh_dq.induct) (fastforce split: if_splits list.splits)+

function sh_word :: "string \<Rightarrow> (string \<times> string) option" where
  "sh_word [] = Some ([], [])"
| "sh_word (c # s) =
     (if sh_blank c then Some ([], c # s)
      else if c = CHR 0x22 then
        (case sh_dq s of None \<Rightarrow> None | Some (x, r) \<Rightarrow> map_option (apfst (\<lambda>y. x @ y)) (sh_word r))
      else if sh_special c then None
      else map_option (apfst (Cons c)) (sh_word s))"
  by pat_completeness auto
termination
  by (relation "measure length") (auto dest!: sh_dq_length)

text \<open>A word that begins with \<open>#\<close> starts a comment, one that begins with a tilde is expanded.\<close>

function sh_words :: "string \<Rightarrow> string list option" where
  "sh_words [] = Some []"
| "sh_words (c # s) =
     (if sh_blank c then sh_words s
      else if c = CHR ''#'' \<or> c = CHR ''~'' then None
      else case sh_word (c # s) of
             None \<Rightarrow> None
           | Some (x, r) \<Rightarrow> if length r < length (c # s) then map_option (Cons x) (sh_words r) else None)"
  by pat_completeness auto
termination
  by (relation "measure length") auto

subsection \<open>The quoting is right\<close>

definition esc_char :: "char \<Rightarrow> string" where
  "esc_char c = (if c \<in> {CHR 0x5C, CHR 0x22, CHR ''$'', CHR 0x60} then [CHR 0x5C, c] else [c])"

lemma replace_all_one: "replace_all [c] r s = concat (map (\<lambda>x. if x = c then r else [x]) s)"
proof (induction s)
  case (Cons a s)
  then show ?case by (subst replace_all.simps) auto
qed (simp add: replace_all.simps)

lemma escape_value: "shellEscapeValue s = CHR 0x22 # concat (map esc_char s) @ [CHR 0x22]"
proof -
  have cc: "concat (map f (concat (map g s))) = concat (map (\<lambda>x. concat (map f (g x))) s)" for f g :: "char \<Rightarrow> string"
    by (induction s) simp_all
  show ?thesis
    unfolding shellEscapeValue_def Let_def replace_all_one cc by (auto intro!: arg_cong [where f = concat] map_cong simp: esc_char_def)
qed

lemma sh_dq_escaped: "sh_dq (concat (map esc_char s) @ CHR 0x22 # r) = Some (s, r)"
  by (induction s) (simp_all add: esc_char_def)

lemma sh_word_quoted: "sh_word (shellEscapeValue s @ r) = map_option (apfst (\<lambda>y. s @ y)) (sh_word r)"
  by (simp add: escape_value sh_dq_escaped sh_blank_def)

lemma sh_word_literal:
  assumes "\<forall>c \<in> set s. \<not> sh_blank c \<and> c \<noteq> CHR 0x22 \<and> \<not> sh_special c"
  shows "sh_word (s @ r) = map_option (apfst (\<lambda>y. s @ y)) (sh_word r)"
  using assms by (induction s) (auto simp: option.map_comp comp_def apfst_def option.map_id [unfolded id_def] map_prod_def split_def)

lemma literal_word: "\<not> needsShellEscaping s \<Longrightarrow> \<forall>c \<in> set s. \<not> sh_blank c \<and> c \<noteq> CHR 0x22 \<and> \<not> sh_special c"
  by (auto simp: needsShellEscaping_def list_ex_iff escaped_chars_def sh_blank_def sh_special_def)

text \<open>The arguments that the quoting is meant for.\<close>

definition plain_arg :: "string \<Rightarrow> bool" where
  "plain_arg s \<longleftrightarrow> s \<noteq> [] \<and> \<not> already_quoted s \<and> (needsShellEscaping s \<or> hd s \<noteq> CHR ''#'' \<and> hd s \<noteq> CHR ''~'')"

lemma sh_word_escape: "plain_arg s \<Longrightarrow> sh_word (shellEscape s @ r) = map_option (apfst (\<lambda>y. s @ y)) (sh_word r)"
  using sh_word_quoted sh_word_literal [OF literal_word] by (auto simp: shellEscape_def plain_arg_def)

lemma escape_first:
  assumes "plain_arg s"
  shows "\<exists>c s'. shellEscape s = c # s' \<and> \<not> sh_blank c \<and> c \<noteq> CHR ''#'' \<and> c \<noteq> CHR ''~''"
  using assms literal_word [of s] by (cases s) (auto simp: shellEscape_def plain_arg_def escape_value sh_blank_def)

lemma sh_words_cons:
  assumes "plain_arg s" and "r = [] \<or> sh_blank (hd r)"
  shows "sh_words (shellEscape s @ r) = map_option (Cons s) (sh_words r)"
proof -
  obtain c s' where c: "shellEscape s = c # s'" "\<not> sh_blank c" "c \<noteq> CHR ''#''" "c \<noteq> CHR ''~''" using escape_first [OF assms(1)] by blast
  have "sh_word r = Some ([], r)" using assms(2) by (cases r) auto
  then have "sh_word (c # s' @ r) = Some (s, r)" using sh_word_escape [OF assms(1), of r] c(1) by simp
  then show ?thesis using c by simp
qed

lemma sh_words_join:
  assumes "cmd \<noteq> []" and "\<forall>s \<in> set cmd. plain_arg s"
  shows "sh_words (join '' '' (map shellEscape cmd)) = Some cmd"
  using assms
proof (induction cmd rule: induct_list012)
  case (2 x)
  then show ?case using sh_words_cons [of x "[]"] by simp
next
  case (3 x y zs)
  have "sh_words (shellEscape x @ '' '' @ join '' '' (map shellEscape (y # zs))) = Some (x # y # zs)"
    using sh_words_cons [of x "'' '' @ join '' '' (map shellEscape (y # zs))"] 3 by (simp add: sh_blank_def)
  then show ?case by simp
qed simp

text \<open>Words without any character of meaning stand for themselves.\<close>

definition bare :: "string \<Rightarrow> bool" where
  "bare s \<longleftrightarrow> s \<noteq> [] \<and> hd s \<noteq> CHR ''#'' \<and> hd s \<noteq> CHR ''~'' \<and> \<not> needsShellEscaping s"

lemma bare_plain: "bare s \<Longrightarrow> plain_arg s" and bare_escape: "bare s \<Longrightarrow> shellEscape s = s"
proof -
  assume b: "bare s"
  then have "hd s \<in> set s" by (simp add: bare_def)
  then have "hd s \<noteq> CHR 0x22 \<and> \<not> sh_special (hd s)" using b literal_word [of s] unfolding bare_def by blast
  moreover have "sh_special CHR 0x27" by (simp add: sh_special_def)
  ultimately have "\<not> already_quoted s" unfolding already_quoted_def by metis
  then show "plain_arg s" and "shellEscape s = s" using b by (simp_all add: plain_arg_def bare_def shellEscape_def)
qed

lemma sh_words_bare: "bare s \<Longrightarrow> r = [] \<or> sh_blank (hd r) \<Longrightarrow> sh_words (s @ r) = map_option (Cons s) (sh_words r)"
  using sh_words_cons [OF bare_plain] by (simp add: bare_escape)

lemma sh_words_space [simp]: "sh_words (CHR '' '' # s) = sh_words s"
  by (simp add: sh_blank_def)

lemma sh_words_word: "bare s \<Longrightarrow> sh_words (s @ CHR '' '' # r) = map_option (Cons s) (sh_words r)"
  using sh_words_bare [of s "CHR '' '' # r"] by (simp add: sh_blank_def)

lemma bare_number: "0 < n \<Longrightarrow> bare (dec_of_int n)"
proof -
  assume n: "0 < n"
  have "is_digit c" if "c \<in> set (dec_of_int n)" for c using that n by (auto simp: dec_of_int_def intro: dec_of_nat_digits)
  then have d: "\<forall>c \<in> set (dec_of_int n). is_digit c" by blast
  have "dec_of_int n \<noteq> []" using n by (simp add: dec_of_int_def)
  then have "is_digit (hd (dec_of_int n))" using d by simp
  moreover have "\<not> needsShellEscaping (dec_of_int n)" using d by (auto simp: needsShellEscaping_def list_ex_iff escaped_chars_def is_digit_def)
  ultimately show ?thesis using \<open>dec_of_int n \<noteq> []\<close> by (auto simp: bare_def is_digit_def)
qed

lemma bare_words: "bare ''exec''" "bare ''/sbin/tini''" "bare ''-s''" "bare ''-g''" "bare ''--''" "bare ''export''"
  by code_simp+

lemma exec_line_words:
  assumes "snd (wrapper_user oinfo) = []" and "stop_signal_arg oinfo = []" and "\<forall>s \<in> set (FullCommand oinfo). plain_arg s"
  shows "sh_words (exec_line oinfo g) =
    Some ([''exec'', ''/sbin/tini'', ''-s''] @ (if 0 < g then [''-g'', dec_of_int g] else []) @ [''--''] @ FullCommand oinfo)"
proof -
  have "FullCommand oinfo \<noteq> []" by (simp add: FullCommand_def split: option.splits)
  then have c: "sh_words (buildCommandString (FullCommand oinfo)) = Some (FullCommand oinfo)"
    using sh_words_join assms(3) by (simp add: buildCommandString_def)
  note w = bare_words [THEN sh_words_word]
  show ?thesis
  proof (cases "0 < g")
    case True
    have e: "exec_line oinfo g = ''exec'' @ CHR '' '' # CHR '' '' # ''/sbin/tini'' @ CHR '' '' # ''-s'' @ CHR '' '' # ''-g'' @ CHR '' '' # dec_of_int g @
        CHR '' '' # ''--'' @ CHR '' '' # buildCommandString (FullCommand oinfo)"
      using assms True by (simp add: exec_line_def Let_def)
    show ?thesis unfolding e w sh_words_space sh_words_word [OF bare_number [OF True]] c using True by simp
  next
    case False
    have e: "exec_line oinfo g = ''exec'' @ CHR '' '' # CHR '' '' # ''/sbin/tini'' @ CHR '' '' # ''-s'' @
        CHR '' '' # ''--'' @ CHR '' '' # buildCommandString (FullCommand oinfo)"
      using assms False by (simp add: exec_line_def Let_def)
    show ?thesis unfolding e w sh_words_space c using False by simp
  qed
qed

lemma export_line_words:
  assumes "bare k"
  shows "sh_words (export_line (k, v)) = Some [''export'', k @ ''='' @ v]"
proof -
  have k: "shellEscape k = k" using assms by (rule bare_escape)
  obtain c k' where ck: "k = c # k'" "c \<noteq> CHR ''#''" "c \<noteq> CHR ''~''" using assms by (cases k) (auto simp: bare_def)
  have "sh_word (k @ ''='' @ shellEscapeValue v) = Some (k @ ''='' @ v, [])"
  proof -
    have "sh_word (shellEscapeValue v) = Some (v, [])" using sh_word_quoted [of v "[]"] by simp
    then have "sh_word (''='' @ shellEscapeValue v) = Some (''='' @ v, [])" by (simp add: sh_blank_def sh_special_def)
    then show ?thesis using sh_word_literal [OF literal_word, of k "''='' @ shellEscapeValue v"] assms by (simp add: bare_def)
  qed
  moreover have "\<not> sh_blank c" using literal_word [of k] assms ck(1) by (simp add: bare_def)
  ultimately have "sh_words (k @ ''='' @ shellEscapeValue v) = Some [k @ ''='' @ v]" using ck by simp
  moreover have e: "export_line (k, v) = ''export'' @ CHR '' '' # k @ ''='' @ shellEscapeValue v" by (simp add: export_line_def k)
  ultimately show ?thesis unfolding e sh_words_word [OF bare_words(6)] by simp
qed


definition nginx_info :: oci_info where
  "nginx_info = \<lparr>oi_Entrypoint = [''/bin/sh'', ''-c''], oi_Cmd = [''echo $HOME; exec nginx''], oi_Env = [''A=x y''], oi_User = [], oi_WorkDir = [],
     oi_StopSignal = DefaultStopSignal, oi_OS = ''linux'', oi_Architecture = ''amd64'', oi_ImageRef = ''nginx''\<rparr>"


subsection \<open>Deviations\<close>

text \<open>An empty argument disappears, an argument in quotes loses them, and one that begins with \<open>#\<close> becomes a comment.\<close>

lemma empty_argument_lost: "sh_words (buildCommandString [''a'', [], ''b'']) = Some [''a'', ''b'']"
  by code_simp

lemma quoted_argument_changed:
  "sh_words (buildCommandString [''a'', [CHR 0x22, CHR ''x'', CHR 0x22]]) = Some [''a'', ''x'']"
  by code_simp

lemma hash_argument_not_plain: "sh_words (buildCommandString [''a'', ''#b'']) = None"
  by code_simp

end
