(* ===== verification/Image_Rootfs.thy ===== *)
theory Image_Rootfs
  imports Go_Link Go_Sha256 Image_Wrapper
begin

text \<open>
  What is done to the directory into which an image was unpacked (\<open>pkg/image\<close>): unpacking itself
  (\<open>extractTarStream\<close> of \<open>preparer.go\<close>), the recognition of the init system (\<open>detector.go\<close>), the injection of
  an init system (\<open>init.go\<close>, \<open>busybox.go\<close>) and of essential files (\<open>essentials.go\<close>). The embedded binaries are
  arguments.
\<close>

record img_env =
  ie_deny :: refusals
  ie_tini :: string
  ie_busybox :: string

datatype img_error =
    ImgIO string tree_error
  | Incompatible string
  | ShellMissing
  | ShellDangling
  | ShellNotExecutable
  | TarTruncated

definition lines_nl :: "string list \<Rightarrow> string" where
  "lines_nl ls = concat (map (\<lambda>l. l @ [CHR 0x0A]) ls)"

subsection \<open>Unpacking\<close>

datatype itar_type = TDir | TReg | TSymlink | TLink | TXGlobal | TOther

record itar_entry =
  it_Name :: string
  it_Linkname :: string
  it_Mode :: "32 word"
  it_Type :: itar_type
  it_Data :: string

definition unpack_step :: "refusals \<Rightarrow> string \<Rightarrow> itar_entry \<Rightarrow> host_fs \<Rightarrow> (img_error, unit) res \<times> host_fs" where
  "unpack_step deny dest e fs =
     (let target = path_Join [dest, it_Name e]
      in if \<not> prefix (path_Clean dest @ ''/'') (path_Clean target) then (Inr (), fs)
         else case it_Type e of
                TDir \<Rightarrow> (case lk_MkdirAll deny target fs of (Inl x, fs1) \<Rightarrow> (Inl (ImgIO target x), fs1) | (Inr _, fs1) \<Rightarrow> (Inr (), fs1))
              | TReg \<Rightarrow>
                  (case lk_MkdirAll deny (path_Dir target) fs of
                     (Inl x, fs1) \<Rightarrow> (Inl (ImgIO target x), fs1)
                   | (Inr _, fs1) \<Rightarrow>
                       (case lk_WriteFile deny target (it_Mode e AND 0x1FF) (it_Data e) fs1 of
                          (Inl x, fs2) \<Rightarrow> (Inl (ImgIO target x), fs2)
                        | (Inr _, fs2) \<Rightarrow> (Inr (), fs2)))
              | TSymlink \<Rightarrow> (Inr (), snd (lk_Symlink deny (it_Linkname e) target fs))
              | TLink \<Rightarrow> (Inr (), snd (lk_Link deny (path_Join [dest, it_Linkname e]) target fs))
              | TXGlobal \<Rightarrow> (Inr (), fs)
              | TOther \<Rightarrow> (Inr (), fs))"

fun extractTarStream :: "refusals \<Rightarrow> string \<Rightarrow> itar_entry list \<Rightarrow> bool \<Rightarrow> host_fs \<Rightarrow> (img_error, unit) res \<times> host_fs" where
  "extractTarStream deny dest [] ends fs = ((if ends then Inr () else Inl TarTruncated), fs)"
| "extractTarStream deny dest (e # es) ends fs =
     (case unpack_step deny dest e fs of
        (Inl x, fs1) \<Rightarrow> (Inl x, fs1)
      | (Inr _, fs1) \<Rightarrow> extractTarStream deny dest es ends fs1)"

subsection \<open>Recognition\<close>

datatype InitType =
    InitTypeNone | InitTypeSystemd | InitTypeOpenRC | InitTypeSysvinit | InitTypeTini | InitTypeDumbInit | InitTypeScratch
  | InitTypeUnknown | InitTypeIncompatible

definition found :: "refusals \<Rightarrow> string list \<Rightarrow> host_fs \<Rightarrow> bool" where
  "found deny ps fs = (case lk_Stat deny (path_Join ps) fs of Inr _ \<Rightarrow> True | Inl _ \<Rightarrow> False)"

definition missing :: "refusals \<Rightarrow> string list \<Rightarrow> host_fs \<Rightarrow> bool" where
  "missing deny ps fs = (lk_Stat deny (path_Join ps) fs = Inl NotExist)"

definition found_dir :: "refusals \<Rightarrow> string list \<Rightarrow> host_fs \<Rightarrow> bool" where
  "found_dir deny ps fs = (lk_Stat deny (path_Join ps) fs = Inr IDir)"

definition executable :: "host_fs \<Rightarrow> inode \<Rightarrow> bool" where
  "executable fs i = (case i of IFile n \<Rightarrow> fst (file_of fs n) AND 0x49 \<noteq> 0 | _ \<Rightarrow> True)"

definition found_exec :: "refusals \<Rightarrow> string list \<Rightarrow> host_fs \<Rightarrow> bool" where
  "found_exec deny ps fs = (case lk_Stat deny (path_Join ps) fs of Inr i \<Rightarrow> executable fs i | Inl _ \<Rightarrow> False)"

definition isScratch :: "refusals \<Rightarrow> string \<Rightarrow> host_fs \<Rightarrow> bool" where
  "isScratch deny tmpDir fs =
     (case lk_ReadDir deny tmpDir fs of
        Inl _ \<Rightarrow> False
      | Inr es \<Rightarrow>
          filter (\<lambda>(x, _). x \<notin> {''lost+found'', ''.'', ''..''}) es = [] \<or>
          missing deny [tmpDir, ''bin'', ''sh''] fs \<and> missing deny [tmpDir, ''bin''] fs \<and> missing deny [tmpDir, ''usr'', ''bin''] fs)"

definition strContains :: "string \<Rightarrow> string \<Rightarrow> bool" where
  "strContains s sub \<longleftrightarrow> length sub \<le> length s \<and> list_ex (\<lambda>i. take (length sub) (drop i s) = sub) [0..<Suc (length s - length sub)]"

definition containsSystemd :: "string \<Rightarrow> bool" where
  "containsSystemd path \<longleftrightarrow>
     (let n = length ''systemd''
      in n \<le> length path \<and>
         (path = ''systemd'' \<or>
          n < length path \<and>
          (take n path = ''systemd'' \<or> drop (length path - n) path = ''systemd'' \<or> strContains path ''/systemd'' \<or> strContains path ''systemd/systemd'')))"

definition systemdPaths :: "string \<Rightarrow> string list list" where
  "systemdPaths tmpDir = [[tmpDir, ''lib'', ''systemd'', ''systemd''], [tmpDir, ''usr'', ''lib'', ''systemd'', ''systemd''], [tmpDir, ''lib64'', ''systemd'', ''systemd'']]"

definition isSystemd :: "refusals \<Rightarrow> string \<Rightarrow> host_fs \<Rightarrow> bool" where
  "isSystemd deny tmpDir fs \<longleftrightarrow>
     list_ex (\<lambda>p. case lk_Stat deny (path_Join p) fs of Inr i \<Rightarrow> i \<noteq> IDir | Inl _ \<Rightarrow> False) (systemdPaths tmpDir) \<or>
     (case lk_Readlink deny (path_Join [tmpDir, ''sbin'', ''init'']) fs of Inr target \<Rightarrow> containsSystemd target | Inl _ \<Rightarrow> False) \<or>
     found_dir deny [tmpDir, ''etc'', ''systemd''] fs \<and> list_ex (\<lambda>p. found deny p fs) (systemdPaths tmpDir)"

definition hasTini :: "refusals \<Rightarrow> string \<Rightarrow> host_fs \<Rightarrow> bool" where
  "hasTini deny tmpDir fs = list_ex (\<lambda>p. found_exec deny p fs) [[tmpDir, ''sbin'', ''tini''], [tmpDir, ''usr'', ''bin'', ''tini''], [tmpDir, ''bin'', ''tini'']]"

definition hasDumbInit :: "refusals \<Rightarrow> string \<Rightarrow> host_fs \<Rightarrow> bool" where
  "hasDumbInit deny tmpDir fs =
     list_ex (\<lambda>p. found_exec deny p fs) [[tmpDir, ''sbin'', ''dumb-init''], [tmpDir, ''usr'', ''bin'', ''dumb-init''], [tmpDir, ''bin'', ''dumb-init'']]"

definition openrcPaths :: "string \<Rightarrow> string list list" where
  "openrcPaths tmpDir = [[tmpDir, ''sbin'', ''openrc''], [tmpDir, ''sbin'', ''rc'']]"

definition hasOpenRC :: "refusals \<Rightarrow> string \<Rightarrow> host_fs \<Rightarrow> bool" where
  "hasOpenRC deny tmpDir fs \<longleftrightarrow>
     list_ex (\<lambda>p. found_exec deny p fs) (openrcPaths tmpDir) \<or>
     (found_dir deny [tmpDir, ''etc'', ''init.d''] fs \<or> found_dir deny [tmpDir, ''etc'', ''runlevels''] fs) \<and>
     (found deny [tmpDir, ''sbin'', ''rc-status''] fs \<or> list_ex (\<lambda>p. found deny p fs) (openrcPaths tmpDir))"

definition hasSysvinit :: "refusals \<Rightarrow> string \<Rightarrow> host_fs \<Rightarrow> bool" where
  "hasSysvinit deny tmpDir fs \<longleftrightarrow>
     \<not> isSystemd deny tmpDir fs \<and>
     ((case lk_Stat deny (path_Join [tmpDir, ''sbin'', ''init'']) fs of
         Inr (IFile _) \<Rightarrow> True
       | Inr (ILink _) \<Rightarrow>
           (case lk_Readlink deny (path_Join [tmpDir, ''sbin'', ''init'']) fs of Inr target \<Rightarrow> \<not> containsSystemd target | Inl _ \<Rightarrow> False)
       | _ \<Rightarrow> False) \<or>
      found_dir deny [tmpDir, ''etc'', ''init.d''] fs \<and> missing deny [tmpDir, ''etc'', ''runlevels''] fs \<and> missing deny [tmpDir, ''sbin'', ''rc''] fs)"

definition DetectInitType :: "refusals \<Rightarrow> string \<Rightarrow> host_fs \<Rightarrow> InitType" where
  "DetectInitType deny tmpDir fs =
     (if isScratch deny tmpDir fs then InitTypeScratch
      else if isSystemd deny tmpDir fs then InitTypeIncompatible
      else if hasTini deny tmpDir fs then InitTypeTini
      else if hasDumbInit deny tmpDir fs then InitTypeDumbInit
      else if hasOpenRC deny tmpDir fs then InitTypeOpenRC
      else if hasSysvinit deny tmpDir fs then InitTypeSysvinit
      else InitTypeNone)"

definition isGlibc :: "refusals \<Rightarrow> string \<Rightarrow> host_fs \<Rightarrow> bool" where
  "isGlibc deny tmpDir fs =
     list_ex (\<lambda>p. found deny p fs)
       [[tmpDir, ''lib'', ''x86_64-linux-gnu'', ''libc.so.6''], [tmpDir, ''lib64'', ''libc.so.6''], [tmpDir, ''lib'', ''libc.so.6''],
        [tmpDir, ''usr'', ''lib'', ''x86_64-linux-gnu'', ''libc.so.6''], [tmpDir, ''usr'', ''lib64'', ''libc.so.6''],
        [tmpDir, ''lib64'', ''ld-linux-x86-64.so.2''], [tmpDir, ''lib'', ''x86_64-linux-gnu'', ''ld-linux-x86-64.so.2''],
        [tmpDir, ''lib'', ''ld-linux-x86-64.so.2'']]"

text \<open>A link whose end cannot be reached is dangling; \<open>EvalSymlinks\<close> and \<open>Stat\<close> agree on that.\<close>

definition validateCriticalSymlinks :: "refusals \<Rightarrow> string \<Rightarrow> host_fs \<Rightarrow> (img_error, unit) res" where
  "validateCriticalSymlinks deny tmpDir fs =
     (let sh = path_Join [tmpDir, ''bin'', ''sh'']
      in case lk_Lstat deny sh fs of
           Inl NotExist \<Rightarrow> Inl ShellMissing
         | Inl OtherError \<Rightarrow> Inl (ImgIO sh OtherError)
         | Inr i \<Rightarrow>
             (case lk_Stat deny sh fs of
                Inl _ \<Rightarrow> if (case i of ILink _ \<Rightarrow> True | _ \<Rightarrow> False) then Inl ShellDangling else Inr ()
              | Inr j \<Rightarrow> if executable fs j then Inr () else Inl ShellNotExecutable))"

definition nonCriticalLinks :: "string \<Rightarrow> (string \<times> string) list" where
  "nonCriticalLinks tmpDir = [(path_Join [tmpDir, ''bin'', ''sh''], ''/bin/sh''), (path_Join [tmpDir, ''bin'', ''bash''], ''/bin/bash''),
     (path_Join [tmpDir, ''usr'', ''bin'', ''env''], ''/usr/bin/env'')]"

definition validateNonCriticalSymlinks :: "refusals \<Rightarrow> string \<Rightarrow> host_fs \<Rightarrow> string list" where
  "validateNonCriticalSymlinks deny tmpDir fs =
     concat (map (\<lambda>(p, rel). case lk_Lstat deny p fs of
         Inr (ILink _) \<Rightarrow> (case lk_Stat deny p fs of Inl _ \<Rightarrow> [rel @ '' is a dangling symlink''] | Inr _ \<Rightarrow> [])
       | _ \<Rightarrow> []) (nonCriticalLinks tmpDir))"

end
