(* ===== verification/Image_Init.thy ===== *)
theory Image_Init
  imports Image_Rootfs Swarm_Translator
begin

text \<open>
  The injection of an init system (\<open>pkg/image/init.go\<close>, \<open>busybox.go\<close>), of essential files (\<open>essentials.go\<close>) and
  of a network configuration (\<open>injectNetworkConfig\<close> of \<open>preparer.go\<close>) into an unpacked image.
\<close>

text \<open>Operations of the file system with the error of this layer; one after the other, up to the first failure.\<close>

type_synonym fs_step = "host_fs \<Rightarrow> (img_error, unit) res \<times> host_fs"

definition at_path :: "string \<Rightarrow> (host_fs \<Rightarrow> (tree_error, unit) res \<times> host_fs) \<Rightarrow> fs_step" where
  "at_path p f fs = (case f fs of (Inl e, fs1) \<Rightarrow> (Inl (ImgIO p e), fs1) | (Inr _, fs1) \<Rightarrow> (Inr (), fs1))"

definition ignoring :: "(host_fs \<Rightarrow> 'a \<times> host_fs) \<Rightarrow> fs_step" where
  "ignoring f fs = (Inr (), snd (f fs))"

fun seq_steps :: "fs_step list \<Rightarrow> fs_step" where
  "seq_steps [] fs = (Inr (), fs)"
| "seq_steps (f # fs') fs = (case f fs of (Inl e, fs1) \<Rightarrow> (Inl e, fs1) | (Inr _, fs1) \<Rightarrow> seq_steps fs' fs1)"

definition mkdir_at :: "refusals \<Rightarrow> string \<Rightarrow> fs_step" where
  "mkdir_at deny p = at_path p (lk_MkdirAll deny p)"

definition write_at :: "refusals \<Rightarrow> string \<Rightarrow> 32 word \<Rightarrow> string \<Rightarrow> fs_step" where
  "write_at deny p mode d = at_path p (lk_WriteFile deny p mode d)"

definition symlink_at :: "refusals \<Rightarrow> string \<Rightarrow> string \<Rightarrow> fs_step" where
  "symlink_at deny t p = at_path p (lk_Symlink deny t p)"

subsection \<open>Busybox\<close>

definition busybox_applets :: "string list" where
  "busybox_applets = [''sh'', ''ash'', ''ls'', ''cat'', ''mkdir'', ''rmdir'', ''rm'', ''cp'', ''mv'', ''ln'', ''chmod'', ''chown'', ''echo'', ''printf'',
     ''pwd'', ''cd'', ''env'', ''sleep'', ''true'', ''false'', ''test'', ''['', ''ps'', ''kill'', ''top'', ''mount'', ''umount'',
     ''grep'', ''sed'', ''awk'', ''head'', ''tail'', ''wc'', ''tr'', ''tar'', ''gzip'', ''gunzip'', ''ip'', ''ifconfig'', ''netstat'', ''ping'',
     ''df'', ''du'', ''free'', ''date'', ''uname'', ''hostname'', ''id'', ''whoami'', ''clear'', ''reset'', ''vi'', ''ed'']"

definition injectBusybox :: "img_env \<Rightarrow> string \<Rightarrow> fs_step" where
  "injectBusybox env tmpDir =
     (let deny = ie_deny env; binDir = path_Join [tmpDir, ''bin'']; etcDir = path_Join [tmpDir, ''etc'']
      in seq_steps
           ([mkdir_at deny binDir,
             write_at deny (path_Join [binDir, ''busybox'']) 0x1ED (ie_busybox env)] @
            map (\<lambda>a. ignoring (lk_Symlink deny ''busybox'' (path_Join [binDir, a]))) busybox_applets @
            map (\<lambda>d. ignoring (lk_MkdirAll deny (path_Join [tmpDir, d]))) [''proc'', ''sys'', ''dev'', ''tmp'', ''run'', ''var'', ''etc''] @
            [ignoring (lk_MkdirAll deny etcDir),
             ignoring (lk_WriteFile deny (path_Join [etcDir, ''passwd'']) 0x1A4 (lines_nl [''root:x:0:0:root:/root:/bin/sh''])),
             ignoring (lk_WriteFile deny (path_Join [etcDir, ''group'']) 0x1A4 (lines_nl [''root:x:0:'']))]))"

definition minimal_shell :: string where
  "minimal_shell = lines_nl [''#!/bin/busybox sh'', ''# Minimal shell for scratch images'', ''# If we have any arguments, try to exec them'',
     ''if [ $# -gt 0 ]; then'', ''    exec '' @ quoted ''$@'', ''fi'', [], ''# Interactive mode - just echo a message'',
     ''echo '' @ quoted ''Minimal shell - no interactive mode available'', ''exit 0'']"

definition injectBusyboxMinimal :: "img_env \<Rightarrow> string \<Rightarrow> fs_step" where
  "injectBusyboxMinimal env tmpDir =
     (let binDir = path_Join [tmpDir, ''bin'']
      in seq_steps [mkdir_at (ie_deny env) binDir, write_at (ie_deny env) (path_Join [binDir, ''sh'']) 0x1ED minimal_shell])"

subsection \<open>Init systems\<close>

definition InitSystemNone :: string where
  "InitSystemNone = ''none''"

definition InitSystemTini :: string where
  "InitSystemTini = ''tini''"

definition InitSystemDumbInit :: string where
  "InitSystemDumbInit = ''dumb-init''"

record init_config =
  ic_Type :: string
  ic_GracePeriodSec :: int

definition NewInitInjector :: "init_config option \<Rightarrow> init_config" where
  "NewInitInjector ocfg =
     (let c = (case ocfg of None \<Rightarrow> \<lparr>ic_Type = InitSystemTini, ic_GracePeriodSec = 10\<rparr> | Some c \<Rightarrow> c)
      in if ic_GracePeriodSec c = 0 \<and> ic_Type c \<noteq> InitSystemNone then c\<lparr>ic_GracePeriodSec := 10\<rparr> else c)"

definition init_IsEnabled :: "init_config \<Rightarrow> bool" where
  "init_IsEnabled ii \<longleftrightarrow> ic_Type ii \<noteq> InitSystemNone"

definition GetInitPath :: "init_config \<Rightarrow> string" where
  "GetInitPath ii =
     (if ic_Type ii = InitSystemTini then ''/sbin/tini''
      else if ic_Type ii = InitSystemDumbInit then ''/sbin/dumb-init''
      else if ic_Type ii = InitSystemNone then []
      else ''/sbin/init'')"

definition GetInitArgs :: "init_config \<Rightarrow> string list \<Rightarrow> string list" where
  "GetInitArgs ii containerArgs =
     (if ic_Type ii = InitSystemTini then [''/sbin/tini'', ''--''] @ containerArgs
      else if ic_Type ii = InitSystemDumbInit then [''/sbin/dumb-init''] @ containerArgs
      else containerArgs)"

definition createGenericInitWrapper :: "img_env \<Rightarrow> string \<Rightarrow> oci_info option \<Rightarrow> int \<Rightarrow> fs_step" where
  "createGenericInitWrapper env tmpDir info gracePeriod =
     (let sbinDir = path_Join [tmpDir, ''sbin'']
      in seq_steps [mkdir_at (ie_deny env) sbinDir,
           write_at (ie_deny env) (path_Join [sbinDir, ''init'']) 0x1ED (generateWrapperScript info gracePeriod)])"

text \<open>The link \<open>/init\<close> is replaced.\<close>

definition link_init :: "img_env \<Rightarrow> string \<Rightarrow> fs_step" where
  "link_init env tmpDir =
     (let initLink = path_Join [tmpDir, ''init'']
      in seq_steps [ignoring (lk_Remove (ie_deny env) initLink), symlink_at (ie_deny env) ''/sbin/init'' initLink])"

definition injectTiniIntoDir :: "img_env \<Rightarrow> init_config \<Rightarrow> string \<Rightarrow> oci_info option \<Rightarrow> fs_step" where
  "injectTiniIntoDir env ii tmpDir info =
     (let sbinDir = path_Join [tmpDir, ''sbin'']
      in seq_steps [mkdir_at (ie_deny env) sbinDir,
           write_at (ie_deny env) (path_Join [sbinDir, ''tini'']) 0x1ED (ie_tini env),
           createGenericInitWrapper env tmpDir info (ic_GracePeriodSec ii),
           link_init env tmpDir])"

definition dumb_init_script :: string where
  "dumb_init_script = lines_nl [''#!/bin/sh'', ''# Minimal dumb-init compatible init'', ''# Reaps zombies and forwards signals'', [],
     ''trap '' @ [CHR 0x27] @ ''kill -TERM -$PID 2>/dev/null; wait $PID; exit $?'' @ [CHR 0x27] @ '' TERM INT'',
     ''trap '' @ [CHR 0x27] @ ''kill -HUP -$PID 2>/dev/null'' @ [CHR 0x27] @ '' HUP'', [], ''exec '' @ quoted ''$@'']"

definition injectDumbInitIntoDir :: "img_env \<Rightarrow> string \<Rightarrow> fs_step" where
  "injectDumbInitIntoDir env tmpDir =
     (let sbinDir = path_Join [tmpDir, ''sbin'']
      in seq_steps [mkdir_at (ie_deny env) sbinDir,
           write_at (ie_deny env) (path_Join [sbinDir, ''dumb-init'']) 0x1ED dumb_init_script,
           write_at (ie_deny env) (path_Join [sbinDir, ''init'']) 0x1ED (lines_nl [''#!/bin/sh'', ''exec /sbin/dumb-init -- /bin/sh'']),
           link_init env tmpDir])"

definition minimal_init_script :: string where
  "minimal_init_script = lines_nl [''#!/bin/sh'', ''# Minimal init for container lifecycle'', ''# Reaps zombies and forwards signals'', [],
     ''# Setup signal handlers'',
     ''trap '' @ [CHR 0x27] @ ''kill -TERM -$PID 2>/dev/null; wait $PID; exit $?'' @ [CHR 0x27] @ '' TERM INT'',
     ''trap '' @ [CHR 0x27] @ ''kill -HUP -$PID 2>/dev/null'' @ [CHR 0x27] @ '' HUP'', [], ''# Run the command'', ''exec '' @ quoted ''$@'']"

definition createMinimalInit :: "img_env \<Rightarrow> string \<Rightarrow> string \<Rightarrow> fs_step" where
  "createMinimalInit env mountDir initName =
     seq_steps [mkdir_at (ie_deny env) (path_Join [mountDir, ''sbin'']),
       write_at (ie_deny env) (path_Join [mountDir, ''sbin'', initName]) 0x1ED minimal_init_script,
       ignoring (lk_Symlink (ie_deny env) (''/sbin/'' @ initName) (path_Join [mountDir, ''init'']))]"

definition InjectIntoDir :: "img_env \<Rightarrow> init_config \<Rightarrow> string \<Rightarrow> oci_info option \<Rightarrow> fs_step" where
  "InjectIntoDir env ii tmpDir info fs =
     (if \<not> init_IsEnabled ii then (Inr (), fs)
      else case DetectInitType (ie_deny env) tmpDir fs of
             InitTypeIncompatible \<Rightarrow> (Inl (Incompatible ''systemd detected: Firecracker cannot run systemd (requires cgroups v2)''), fs)
           | InitTypeScratch \<Rightarrow> seq_steps [injectBusybox env tmpDir, injectTiniIntoDir env ii tmpDir info] fs
           | InitTypeTini \<Rightarrow> link_init env tmpDir fs
           | InitTypeDumbInit \<Rightarrow> link_init env tmpDir fs
           | InitTypeOpenRC \<Rightarrow> link_init env tmpDir fs
           | InitTypeSysvinit \<Rightarrow> link_init env tmpDir fs
           | _ \<Rightarrow> injectTiniIntoDir env ii tmpDir info fs)"

subsection \<open>Essential files\<close>

text \<open>A file that is written unless \<open>Stat\<close> finds it.\<close>

definition write_missing :: "refusals \<Rightarrow> string \<Rightarrow> 32 word \<Rightarrow> string \<Rightarrow> fs_step" where
  "write_missing deny p mode d fs =
     (case lk_Stat deny p fs of
        Inr _ \<Rightarrow> (Inr (), fs)
      | Inl _ \<Rightarrow> seq_steps [mkdir_at deny (path_Dir p), write_at deny p mode d] fs)"

definition injectResolvConf :: "img_env \<Rightarrow> string \<Rightarrow> fs_step" where
  "injectResolvConf env tmpDir =
     write_missing (ie_deny env) (path_Join [tmpDir, ''etc'', ''resolv.conf'']) 0x1A4
       (lines_nl [''nameserver 8.8.8.8'', ''nameserver 8.8.4.4'', ''options timeout:2 attempts:3''])"

definition injectHosts :: "img_env \<Rightarrow> string \<Rightarrow> fs_step" where
  "injectHosts env tmpDir =
     write_missing (ie_deny env) (path_Join [tmpDir, ''etc'', ''hosts'']) 0x1A4
       (lines_nl [''127.0.0.1 localhost localhost.localdomain'', ''::1       localhost''])"

definition injectNsswitch :: "img_env \<Rightarrow> string \<Rightarrow> fs_step" where
  "injectNsswitch env tmpDir fs =
     (let p = path_Join [tmpDir, ''etc'', ''nsswitch.conf'']
      in if isGlibc (ie_deny env) tmpDir fs then write_missing (ie_deny env) p 0x1A4 (lines_nl [''hosts:     files dns myhostname'']) fs
         else (Inr (), fs))"

definition machine_id :: "string \<Rightarrow> string" where
  "machine_id imageID = hex_encode (take 16 (Sum256 (string_bytes imageID)))"

definition injectMachineID :: "img_env \<Rightarrow> string \<Rightarrow> string \<Rightarrow> fs_step" where
  "injectMachineID env tmpDir imageID =
     write_missing (ie_deny env) (path_Join [tmpDir, ''etc'', ''machine-id'']) 0x124 (lines_nl [machine_id imageID])"

text \<open>
  The modes of directories are left out, but changing the mode of a directory that was just made may fail, at the
  paths where \<open>ie_deny\<close> refuses writing; only for \<open>/tmp\<close> this is an error.
\<close>

definition essential_dir :: "refusals \<Rightarrow> string \<Rightarrow> string \<Rightarrow> fs_step" where
  "essential_dir deny tmpDir d fs =
     (let p = path_Join [tmpDir, d]
      in case lk_Stat deny p fs of
           Inr _ \<Rightarrow> (Inr (), fs)
         | Inl _ \<Rightarrow>
             (case lk_MkdirAll deny p fs of
                (Inl e, fs1) \<Rightarrow> (if d = ''/tmp'' then Inl (ImgIO p e) else Inr (), fs1)
              | (Inr _, fs1) \<Rightarrow> (if deny OpWrite p \<and> d = ''/tmp'' then Inl (ImgIO p OtherError) else Inr (), fs1)))"

definition essentialDirs :: "string list" where
  "essentialDirs = [''/tmp'', ''/run'', ''/var/run'', ''/var/log'', ''/var/tmp'', ''/var/cache'', ''/root'']"

definition createEssentialDirs :: "img_env \<Rightarrow> string \<Rightarrow> fs_step" where
  "createEssentialDirs env tmpDir = seq_steps (map (essential_dir (ie_deny env) tmpDir) essentialDirs)"

definition injectEssentialFiles :: "img_env \<Rightarrow> string \<Rightarrow> string \<Rightarrow> fs_step" where
  "injectEssentialFiles env tmpDir imageID =
     seq_steps [injectResolvConf env tmpDir, injectHosts env tmpDir, ignoring (injectNsswitch env tmpDir),
       injectMachineID env tmpDir imageID, createEssentialDirs env tmpDir]"

subsection \<open>Network configuration of Alpine images\<close>

definition interfaces_file :: string where
  "interfaces_file = lines_nl [''# Network interfaces for Firecracker VM'', ''auto lo'', ''iface lo inet loopback'', [], ''auto eth0'', ''iface eth0 inet dhcp'']"

definition inittab_file :: string where
  "inittab_file = lines_nl [''# /etc/inittab - Modified for Firecracker VM'', [],
     ''::sysinit:/bin/busybox mount -t proc proc /proc'', ''::sysinit:/bin/busybox mount -t sysfs sysfs /sys'',
     ''::sysinit:/bin/busybox mount -t devtmpfs devtmpfs /dev'', ''::sysinit:/bin/busybox hostname firecracker-vm'',
     ''::sysinit:/sbin/ifconfig eth0 up'', ''::sysinit:/usr/sbin/udhcpc -i eth0 -s /usr/share/udhcpc/default.script -q -n'', [],
     ''# Serial console'', ''ttyS0::respawn:/sbin/getty -L 115200 ttyS0 vt100'', [], ''# Shutdown'', ''::ctrlaltdel:/sbin/reboot'',
     ''::shutdown:/bin/busybox umount -a -r'']"

definition networking_script :: string where
  "networking_script = lines_nl [''#!/sbin/openrc-run'', [], ''name='' @ quoted ''networking'', ''description='' @ quoted ''Configure network interfaces'', [],
     ''depend() {'', ''    need localmount'', ''    after bootmisc'', ''}'', [],
     ''start() {'', ''    ebegin '' @ quoted ''Configuring network interfaces'', ''    if [ -f /etc/network/interfaces ]; then'',
     ''        ifconfig eth0 up'', ''        udhcpc -i eth0 -s /usr/share/udhcpc/default.script -q -n'', ''    fi'', ''    eend $?'', ''}'', [],
     ''stop() {'', ''    ebegin '' @ quoted ''Stopping network interfaces'', ''    ifconfig eth0 down'', ''    eend $?'', ''}'']"

definition unless_there :: "bool \<Rightarrow> fs_step \<Rightarrow> fs_step" where
  "unless_there b f fs = (if b then (Inr (), fs) else f fs)"

definition network_steps :: "refusals \<Rightarrow> string \<Rightarrow> fs_step list" where
  "network_steps deny rootfsDir =
     (let networkDir = path_Join [rootfsDir, ''etc/network'']; initDir = path_Join [rootfsDir, ''etc/init.d''];
          script = path_Join [initDir, ''networking'']; runlevel = path_Join [rootfsDir, ''etc/runlevels/default''];
          link = path_Join [runlevel, ''networking'']
      in [mkdir_at deny networkDir,
          write_at deny (path_Join [networkDir, ''interfaces'']) 0x1A4 interfaces_file,
          write_at deny (path_Join [rootfsDir, ''etc/inittab'']) 0x1A4 inittab_file,
          mkdir_at deny initDir,
          (\<lambda>fs. unless_there (case lk_Stat deny script fs of Inr _ \<Rightarrow> True | Inl _ \<Rightarrow> False) (write_at deny script 0x1ED networking_script) fs),
          mkdir_at deny runlevel,
          (\<lambda>fs. unless_there (case lk_Lstat deny link fs of Inr _ \<Rightarrow> True | Inl _ \<Rightarrow> False) (symlink_at deny ''../../init.d/networking'' link) fs)])"

definition injectNetworkConfig :: "img_env \<Rightarrow> string \<Rightarrow> fs_step" where
  "injectNetworkConfig env rootfsDir fs =
     (let deny = ie_deny env; inittab = path_Join [rootfsDir, ''etc/inittab'']
      in case lk_Stat deny inittab fs of
           Inl _ \<Rightarrow> (Inr (), fs)
         | Inr _ \<Rightarrow>
             (case lk_ReadFile deny inittab fs of
                Inl _ \<Rightarrow> (Inr (), fs)
              | Inr d \<Rightarrow> if \<not> sublist ''openrc'' d then (Inr (), fs) else seq_steps (network_steps deny rootfsDir) fs))"

end
