(* ===== verification/Image_Prepare.thy ===== *)
theory Image_Prepare
  imports Image_Init Go_Space Swarm_Controller
begin

text \<open>
  The preparation of an image for a task (\<open>pkg/image/preparer.go\<close>, \<open>validator.go\<close>, \<open>verify.go\<close>, \<open>auth.go\<close>) and the
  injection of secrets and configs (\<open>pkg/storage/credential_store.go\<close>). The registry library, external
  commands, the names of temporary directories and what other processes do while a lock is waited for are
  arguments. The locks serialise the operations, so they are run one after the other. Messages of the log are
  left out. Sizes are integers: they would exceed 64 bits only for images of more than 60 petabytes.
\<close>

subsection \<open>Registry access\<close>

record registry_auth =
  ra_Username :: string
  ra_Password :: string
  ra_Token :: string
  ra_Keychain :: "string option"

datatype auth_option = DefaultKeychain | CustomKeychain string | Bearer string | Basic string string

definition buildRemoteOptions :: "registry_auth option \<Rightarrow> auth_option" where
  "buildRemoteOptions oauth =
     (case oauth of
        None \<Rightarrow> DefaultKeychain
      | Some a \<Rightarrow>
          (case ra_Keychain a of
             Some k \<Rightarrow> CustomKeychain k
           | None \<Rightarrow>
               if ra_Token a \<noteq> [] then Bearer (ra_Token a)
               else if ra_Username a \<noteq> [] \<and> ra_Password a \<noteq> [] then Basic (ra_Username a) (ra_Password a)
               else DefaultKeychain))"

definition NewRegistryAuth :: "string \<Rightarrow> string \<Rightarrow> registry_auth" where
  "NewRegistryAuth username password = \<lparr>ra_Username = username, ra_Password = password, ra_Token = [], ra_Keychain = None\<rparr>"

definition NewTokenAuth :: "string \<Rightarrow> registry_auth" where
  "NewTokenAuth token = \<lparr>ra_Username = [], ra_Password = [], ra_Token = token, ra_Keychain = None\<rparr>"

definition NewKeychainAuth :: "string \<Rightarrow> registry_auth" where
  "NewKeychainAuth k = \<lparr>ra_Username = [], ra_Password = [], ra_Token = [], ra_Keychain = Some k\<rparr>"

text \<open>
  A pulled image: its configuration file, where it can be read, whether its layers can be listed, and the stream of
  its flattened file system.
\<close>

record pulled_image =
  pi_config :: "oci_config option"
  pi_layers :: bool
  pi_entries :: "itar_entry list"
  pi_ends :: bool

subsection \<open>The environment\<close>

text \<open>
  \<open>pe_parse\<close> is \<open>name.ParseReference\<close>, \<open>pe_image\<close> is \<open>remote.Image\<close>; \<open>pe_run\<close> runs an external command, with its
  success and its output, \<open>pe_look\<close> looks it up; \<open>pe_temp\<close> chooses the name of a new temporary directory.
\<close>

record prep_env =
  pe_img :: img_env
  pe_GOARCH :: string
  pe_parse :: "string \<Rightarrow> bool"
  pe_image :: "auth_option \<Rightarrow> string option \<Rightarrow> string \<Rightarrow> pulled_image option"
  pe_look :: "string \<Rightarrow> bool"
  pe_run :: "string list \<Rightarrow> host_fs \<Rightarrow> (bool \<times> string) \<times> host_fs"
  pe_temp :: "string \<Rightarrow> host_fs \<Rightarrow> string"
  pe_avail :: "string \<Rightarrow> int option"
  pe_flock :: "string \<Rightarrow> bool"
  pe_wait :: "host_fs \<Rightarrow> host_fs"

abbreviation pe_deny :: "prep_env \<Rightarrow> refusals" where
  "pe_deny env \<equiv> ie_deny (pe_img env)"

datatype prep_error =
    PrepIO string
  | BadArchitecture string
  | BadReference string
  | BadOS string
  | WrongArch string string
  | PullFailed string
  | NoMethod
  | PrepImg img_error
  | ToolMissing string
  | NoSpace int int
  | ToolFailed string
  | BadRuntime runtime_error
  | EmptyArgument
  | BadTarget string

text \<open>\<open>os.MkdirTemp\<close>.\<close>

definition mkdir_temp :: "prep_env \<Rightarrow> string \<Rightarrow> host_fs \<Rightarrow> string option \<times> host_fs" where
  "mkdir_temp env pattern fs =
     (let p = pe_temp env pattern fs
      in case lk_Mkdir (pe_deny env) p fs of (Inl _, fs1) \<Rightarrow> (None, fs1) | (Inr _, fs1) \<Rightarrow> (Some p, fs1))"

subsection \<open>Validation\<close>

definition archAliases :: "(string \<times> string) list" where
  "archAliases = [(''x86_64'', ''amd64''), (''amd64'', ''amd64''), (''aarch64'', ''arm64''), (''arm64'', ''arm64''),
     (''armhf'', ''arm''), (''armv7l'', ''arm''), (''arm'', ''arm''), (''i386'', ''386''), (''i686'', ''386''), (''x86'', ''386''), (''386'', ''386'')]"

text \<open>
  \<open>strings.ToLower\<close>. Beyond ASCII only the characters whose lower case is in ASCII are converted (U+0130 and
  U+212A); the result is compared to names in ASCII only.
\<close>

definition to_lower :: "string \<Rightarrow> string" where
  "to_lower s =
     map (\<lambda>c. if 65 \<le> (of_char c :: nat) \<and> (of_char c :: nat) \<le> 90 then char_of ((of_char c :: nat) + 32) else c)
       (replace_all (byte_string [0xE2, 0x84, 0xAA]) ''k'' (replace_all (byte_string [0xC4, 0xB0]) ''i'' s))"

definition normalizeArch :: "string \<Rightarrow> string" where
  "normalizeArch arch = (let a = to_lower (trim_space arch) in case map_of archAliases a of Some n \<Rightarrow> n | None \<Rightarrow> a)"

definition full_ref :: "string \<Rightarrow> string" where
  "full_ref imageRef =
     (if \<not> sublist ''/'' imageRef then ''docker.io/library/'' @ imageRef
      else if \<not> sublist ''.'' imageRef then ''docker.io/'' @ imageRef
      else imageRef)"

definition validateArchitecture :: "prep_env \<Rightarrow> (prep_error, unit) res" where
  "validateArchitecture env = (if pe_GOARCH env \<in> {''amd64'', ''arm64''} then Inr () else Inl (BadArchitecture (pe_GOARCH env)))"

text \<open>What cannot be read is not validated. The options of this call have no platform.\<close>

definition validateImageManifest :: "prep_env \<Rightarrow> string \<Rightarrow> auth_option \<Rightarrow> (prep_error, unit) res" where
  "validateImageManifest env imageRef opts =
     (let ref = full_ref imageRef
      in if imageRef = [] then Inl EmptyArgument
         else if \<not> pe_parse env ref then Inl (BadReference ref)
         else case pe_image env opts None ref of
                None \<Rightarrow> Inr ()
              | Some img \<Rightarrow>
                  (case pi_config img of
                     None \<Rightarrow> Inr ()
                   | Some cfg \<Rightarrow>
                       if oc_Architecture cfg = [] then Inr ()
                       else let imageOS = to_lower (trim_space (oc_OS cfg)); imageArch = normalizeArch (oc_Architecture cfg);
                                hostArch = normalizeArch (pe_GOARCH env)
                            in if imageOS \<noteq> ''linux'' then Inl (BadOS imageOS)
                               else if imageArch \<noteq> hostArch then Inl (WrongArch imageArch hostArch)
                               else Inr ()))"

subsection \<open>Pulling and unpacking\<close>

text \<open>The third component is the parsed configuration that the preparer keeps.\<close>

definition extractWithGGCR :: "prep_env \<Rightarrow> registry_auth option \<Rightarrow> string \<Rightarrow> string \<Rightarrow> oci_info option \<Rightarrow> host_fs
    \<Rightarrow> (prep_error, unit) res \<times> oci_info option \<times> host_fs" where
  "extractWithGGCR env auth imageRef destPath info fs =
     (let ref = full_ref imageRef
      in if imageRef = [] \<or> destPath = [] then (Inl EmptyArgument, info, fs)
         else if \<not> pe_parse env ref then (Inl (BadReference ref), info, fs)
         else case pe_image env (buildRemoteOptions auth) (Some (''linux/'' @ pe_GOARCH env)) ref of
                None \<Rightarrow> (Inl (PullFailed ref), info, fs)
              | Some img \<Rightarrow>
                  let info' = (case pi_config img of Some cfg \<Rightarrow> Some (ParseOCIImageConfig (Some cfg) ref) | None \<Rightarrow> info)
                  in if \<not> pi_layers img then (Inl (PullFailed ref), info', fs)
                     else case extractTarStream (pe_deny env) destPath (pi_entries img) (pi_ends img) fs of
                            (Inl e, fs1) \<Rightarrow> (Inl (PrepImg e), info', fs1)
                          | (Inr _, fs1) \<Rightarrow> (Inr (), info', fs1))"

text \<open>The container that is made for the export is removed when the function returns.\<close>

definition extractWithDockerCLI :: "prep_env \<Rightarrow> string \<Rightarrow> string \<Rightarrow> host_fs \<Rightarrow> (prep_error, unit) res \<times> host_fs" where
  "extractWithDockerCLI env imageRef destPath fs =
     (let rt = (if pe_look env ''docker'' then ''docker'' else ''podman'');
          ((ok1, out1), fs1) = pe_run env [rt, ''create'', ''--quiet'', imageRef, ''/bin/true''] fs
      in if \<not> ok1 then (Inl (ToolFailed (rt @ '' create'')), fs1)
         else let containerID = trim_space (last (split_on (CHR 0x0A) (trim_space out1)))
              in if length containerID < 12 then (Inl (ToolFailed (rt @ '' create'')), fs1)
                 else let tarPath = path_Join [destPath, ''fs.tar''];
                          rm = (\<lambda>fs. snd (pe_run env [rt, ''rm'', ''-f'', containerID] fs));
                          ((ok2, _), fs2) = pe_run env [rt, ''export'', containerID, ''-o'', tarPath] fs1
                      in if \<not> ok2 then (Inl (ToolFailed (rt @ '' export'')), rm fs2)
                         else let ((ok3, _), fs3) = pe_run env [''tar'', ''xf'', tarPath, ''-C'', destPath] fs2
                              in if \<not> ok3 then (Inl (ToolFailed ''tar''), rm fs3)
                                 else (Inr (), rm (snd (lk_Remove (pe_deny env) tarPath fs3))))"

text \<open>The methods in their order: the registry, then the command line tools that are there.\<close>

fun try_cli :: "prep_env \<Rightarrow> string list \<Rightarrow> string \<Rightarrow> string \<Rightarrow> host_fs \<Rightarrow> (prep_error, unit) res \<times> host_fs" where
  "try_cli env [] imageRef destPath fs = (Inl NoMethod, fs)"
| "try_cli env (m # ms) imageRef destPath fs =
     (if \<not> pe_look env m then try_cli env ms imageRef destPath fs
      else case extractWithDockerCLI env imageRef destPath fs of
             (Inl _, fs1) \<Rightarrow> try_cli env ms imageRef destPath fs1
           | (Inr _, fs1) \<Rightarrow> (Inr (), fs1))"

definition extractOCIImage :: "prep_env \<Rightarrow> registry_auth option \<Rightarrow> string \<Rightarrow> string \<Rightarrow> oci_info option \<Rightarrow> host_fs
    \<Rightarrow> (prep_error, unit) res \<times> oci_info option \<times> host_fs" where
  "extractOCIImage env auth imageRef destPath info fs =
     (case extractWithGGCR env auth imageRef destPath info fs of
        (Inr _, info1, fs1) \<Rightarrow> (Inr (), info1, fs1)
      | (Inl _, info1, fs1) \<Rightarrow>
          (case try_cli env [''docker'', ''podman''] imageRef destPath fs1 of (r, fs2) \<Rightarrow> (r, info1, fs2)))"

subsection \<open>The image of the root file system\<close>

text \<open>The sizes of all that is below a directory and is no directory; the walk is taken to succeed.\<close>

definition inode_size :: "host_fs \<Rightarrow> inode \<Rightarrow> int" where
  "inode_size fs i = (case i of IDir \<Rightarrow> 0 | IFile n \<Rightarrow> int (length (snd (file_of fs n))) | ILink t \<Rightarrow> int (length t))"

definition getDirSize :: "host_fs \<Rightarrow> string list \<Rightarrow> int" where
  "getDirSize fs d =
     sum_list (map (\<lambda>l. case inode_at fs l of Some i \<Rightarrow> inode_size fs i | None \<Rightarrow> 0) (filter (prefix d) (remdups (map fst (hf_nodes fs)))))"

definition ext4_total :: "int \<Rightarrow> int \<Rightarrow> int" where
  "ext4_total dirSize overheadPercent = (let total = dirSize * (100 + overheadPercent) div 100 in if total < 104857600 then 104857600 else total)"

definition ext4_blocks :: "int \<Rightarrow> int" where
  "ext4_blocks totalSize = (totalSize + 4095) div 4096"

definition ext4_inode_ratio :: "int \<Rightarrow> int \<Rightarrow> int" where
  "ext4_inode_ratio dirSize totalSize =
     (let inodeCount = (if dirSize div 4096 * 2 < 2048 then 2048 else dirSize div 4096 * 2); ratio = totalSize div inodeCount
      in if ratio < 4096 then 4096 else ratio)"

definition mkfs_command :: "string \<Rightarrow> string \<Rightarrow> int \<Rightarrow> int \<Rightarrow> string list" where
  "mkfs_command sourceDir outputPath ratio blocks =
     [''mkfs.ext4'', ''-d'', sourceDir, ''-b'', ''4096'', ''-L'', ''rootfs'', ''-i'', dec_of_int ratio, outputPath, dec_of_int blocks]"

definition createExt4ImageWithOverhead :: "prep_env \<Rightarrow> string \<Rightarrow> string \<Rightarrow> int \<Rightarrow> host_fs \<Rightarrow> (prep_error, unit) res \<times> host_fs" where
  "createExt4ImageWithOverhead env sourceDir outputPath overhead fs =
     (if sourceDir = [] \<or> outputPath = [] then (Inl EmptyArgument, fs)
      else case lk_Stat (pe_deny env) sourceDir fs of
             Inl _ \<Rightarrow> (Inl (PrepIO sourceDir), fs)
           | Inr _ \<Rightarrow>
               if \<not> pe_look env ''mkfs.ext4'' then (Inl (ToolMissing ''mkfs.ext4''), fs)
               else let dirSize = getDirSize fs (path_elems sourceDir);
                        totalSize = ext4_total dirSize (if overhead \<le> 0 then 50 else overhead)
                    in case pe_avail env (path_Dir outputPath) of
                         Some available \<Rightarrow>
                           if totalSize > available then (Inl (NoSpace totalSize available), fs)
                           else (case pe_run env (mkfs_command sourceDir outputPath (ext4_inode_ratio dirSize totalSize) (ext4_blocks totalSize)) fs of
                                   ((True, _), fs1) \<Rightarrow> (Inr (), fs1)
                                 | ((False, _), fs1) \<Rightarrow> (Inl (ToolFailed ''mkfs.ext4''), snd (lk_Remove (pe_deny env) outputPath fs1)))
                       | None \<Rightarrow>
                           (case pe_run env (mkfs_command sourceDir outputPath (ext4_inode_ratio dirSize totalSize) (ext4_blocks totalSize)) fs of
                              ((True, _), fs1) \<Rightarrow> (Inr (), fs1)
                            | ((False, _), fs1) \<Rightarrow> (Inl (ToolFailed ''mkfs.ext4''), snd (lk_Remove (pe_deny env) outputPath fs1))))"

definition createExt4Image :: "prep_env \<Rightarrow> string \<Rightarrow> string \<Rightarrow> host_fs \<Rightarrow> (prep_error, unit) res \<times> host_fs" where
  "createExt4Image env sourceDir outputPath fs = createExt4ImageWithOverhead env sourceDir outputPath 50 fs"

text \<open>\<open>debugfs\<close> without \<open>-w\<close> opens the image read-only; of what it does, only its success is kept.\<close>

definition debugfs_stat :: "prep_env \<Rightarrow> string \<Rightarrow> string \<Rightarrow> host_fs \<Rightarrow> bool" where
  "debugfs_stat env path rootfsPath fs = fst (fst (pe_run env [''debugfs'', ''-R'', ''stat '' @ path, rootfsPath] fs))"

definition verifyCachedRootfs :: "prep_env \<Rightarrow> string \<Rightarrow> host_fs \<Rightarrow> bool" where
  "verifyCachedRootfs env rootfsPath fs =
     (case lk_Stat (pe_deny env) rootfsPath fs of
        Inl _ \<Rightarrow> False
      | Inr _ \<Rightarrow> \<not> pe_look env ''debugfs'' \<or> debugfs_stat env ''/init'' rootfsPath fs)"

definition VerifyBootable :: "prep_env \<Rightarrow> string \<Rightarrow> host_fs \<Rightarrow> string list" where
  "VerifyBootable env rootfsPath fs =
     (if \<not> pe_look env ''debugfs'' then []
      else filter (\<lambda>p. \<not> debugfs_stat env p rootfsPath fs) [''/init'', ''/sbin/init'', ''/sbin/tini'', ''/bin/sh'', ''/etc/resolv.conf''])"

text \<open>The part of the reference after the last colon is the tag; only the name is made safe.\<close>

definition generateImageID :: "string \<Rightarrow> string" where
  "generateImageID imageRef =
     (let parts = split_on (CHR '':'') imageRef; name = join '':'' (butlast parts)
      in if length parts > 1 \<and> name \<noteq> [] then replace_all ''/'' ''-'' name @ ''-'' @ last parts
         else replace_all ''/'' ''-'' imageRef @ ''-latest'')"

subsection \<open>The preparer\<close>

record preparer_config =
  pc_RootfsDir :: string
  pc_InitSystem :: string
  pc_InitGracePeriod :: int
  pc_MaxImageAgeDays :: int
  pc_RegistryAuth :: "registry_auth option"

record preparer =
  ip_config :: preparer_config
  ip_init :: init_config
  ip_ociInfo :: "oci_info option"
  ip_volumes :: bool

definition NewImagePreparer :: "prep_env \<Rightarrow> preparer_config option \<Rightarrow> bool \<Rightarrow> host_fs \<Rightarrow> preparer \<times> host_fs" where
  "NewImagePreparer env config volumes fs =
     (let c0 = (case config of Some c \<Rightarrow> c
                | None \<Rightarrow> \<lparr>pc_RootfsDir = ''/var/lib/firecracker/rootfs'', pc_InitSystem = ''tini'', pc_InitGracePeriod = 10,
                    pc_MaxImageAgeDays = 0, pc_RegistryAuth = None\<rparr>);
          c = c0\<lparr>pc_InitSystem := (if pc_InitSystem c0 = [] then ''tini'' else pc_InitSystem c0),
                 pc_InitGracePeriod := (if pc_InitGracePeriod c0 = 0 then 10 else pc_InitGracePeriod c0),
                 pc_MaxImageAgeDays := (if pc_MaxImageAgeDays c0 = 0 then 7 else pc_MaxImageAgeDays c0)\<rparr>;
          fs1 = snd (lk_MkdirAll (pe_deny env) (pc_RootfsDir c) fs);
          fs2 = snd (lk_MkdirAll (pe_deny env) ''/var/lib/swarmcracker/secrets'' fs1);
          fs3 = snd (lk_MkdirAll (pe_deny env) ''/var/lib/swarmcracker/configs'' fs2)
      in (\<lparr>ip_config = c, ip_init = NewInitInjector (Some \<lparr>ic_Type = pc_InitSystem c, ic_GracePeriodSec = pc_InitGracePeriod c\<rparr>),
           ip_ociInfo = None, ip_volumes = volumes\<rparr>, fs3))"

text \<open>
  The steps on the unpacked directory, from the validation of the shell to the image. The network configuration may
  fail.
\<close>

definition finish_rootfs :: "prep_env \<Rightarrow> init_config \<Rightarrow> oci_info option \<Rightarrow> string \<Rightarrow> string \<Rightarrow> string \<Rightarrow> host_fs \<Rightarrow> (prep_error, unit) res \<times> host_fs" where
  "finish_rootfs env ii info imageID tmpDir outputPath fs =
     (case validateCriticalSymlinks (pe_deny env) tmpDir fs of
        Inl e \<Rightarrow> (Inl (PrepImg e), fs)
      | Inr _ \<Rightarrow>
          (case (if init_IsEnabled ii then InjectIntoDir (pe_img env) ii tmpDir info fs else (Inr (), fs)) of
             (Inl e, fs1) \<Rightarrow> (Inl (PrepImg e), fs1)
           | (Inr _, fs1) \<Rightarrow>
               (case injectEssentialFiles (pe_img env) tmpDir imageID fs1 of
                  (Inl e, fs2) \<Rightarrow> (Inl (PrepImg e), fs2)
                | (Inr _, fs2) \<Rightarrow> createExt4Image env tmpDir outputPath (snd (injectNetworkConfig (pe_img env) tmpDir fs2)))))"

definition prepareImage :: "prep_env \<Rightarrow> preparer \<Rightarrow> string \<Rightarrow> string \<Rightarrow> string \<Rightarrow> host_fs \<Rightarrow> (prep_error, unit) res \<times> preparer \<times> host_fs" where
  "prepareImage env ip imageRef imageID outputPath fs =
     (case mkdir_temp env ''swarmcracker-extract-'' fs of
        (None, fs1) \<Rightarrow> (Inl (PrepIO ''swarmcracker-extract-''), ip, fs1)
      | (Some tmpDir, fs1) \<Rightarrow>
          (case validateImageManifest env imageRef (buildRemoteOptions (pc_RegistryAuth (ip_config ip))) of
             Inl e \<Rightarrow> (Inl e, ip, lk_RemoveAll (pe_deny env) tmpDir fs1)
           | Inr _ \<Rightarrow>
               (case extractOCIImage env (pc_RegistryAuth (ip_config ip)) imageRef tmpDir (ip_ociInfo ip) fs1 of
                  (Inl e, info, fs2) \<Rightarrow> (Inl e, ip\<lparr>ip_ociInfo := info\<rparr>, lk_RemoveAll (pe_deny env) tmpDir fs2)
                | (Inr _, info, fs2) \<Rightarrow>
                    (case finish_rootfs env (ip_init ip) info imageID tmpDir outputPath fs2 of
                       (r, fs3) \<Rightarrow> (r, ip\<lparr>ip_ociInfo := info\<rparr>, lk_RemoveAll (pe_deny env) tmpDir fs3)))))"

text \<open>Opening the lock file makes it; the lock is waited for, and then the cache is looked at again.\<close>

definition prepareWithLock :: "prep_env \<Rightarrow> preparer \<Rightarrow> string \<Rightarrow> string \<Rightarrow> string \<Rightarrow> host_fs \<Rightarrow> (prep_error, unit) res \<times> preparer \<times> host_fs" where
  "prepareWithLock env ip imageRef imageID rootfsPath fs =
     (let lockPath = rootfsPath @ ''.lock''
      in case lk_MkdirAll (pe_deny env) (path_Dir lockPath) fs of
           (Inl _, fs1) \<Rightarrow> (Inl (PrepIO (path_Dir lockPath)), ip, fs1)
         | (Inr _, fs1) \<Rightarrow>
             (case (case lk_Stat (pe_deny env) lockPath fs1 of Inr (IFile _) \<Rightarrow> (Inr (), fs1) | _ \<Rightarrow> lk_WriteFile (pe_deny env) lockPath 0x1A4 [] fs1) of
                (Inl _, fs2) \<Rightarrow> (Inl (PrepIO lockPath), ip, fs2)
              | (Inr _, fs2) \<Rightarrow>
                  if \<not> pe_flock env lockPath then (Inl (PrepIO lockPath), ip, fs2)
                  else let fs3 = pe_wait env fs2
                       in if verifyCachedRootfs env rootfsPath fs3 then (Inr (), ip, fs3)
                          else prepareImage env ip imageRef imageID rootfsPath fs3))"

subsection \<open>Secrets and configs\<close>

definition validateInjectionPath :: "string \<Rightarrow> (prep_error, unit) res" where
  "validateInjectionPath path =
     (if CHR 0x00 \<in> set path then Inl (BadTarget path)
      else if sublist ''..'' (path_Clean path) then Inl (BadTarget path)
      else if path = [] \<or> path_Clean path = ''.'' then Inl (BadTarget path)
      else Inr ())"

definition data_string :: "bytes \<Rightarrow> string" where
  "data_string d = map (\<lambda>b. char_of (unat b)) d"

text \<open>\<open>debugfs\<close> may fail and say so in its output only.\<close>

definition injectFileViaDebugfs :: "prep_env \<Rightarrow> string \<Rightarrow> string \<Rightarrow> string \<Rightarrow> bytes \<Rightarrow> 32 word \<Rightarrow> host_fs \<Rightarrow> (prep_error, unit) res \<times> host_fs" where
  "injectFileViaDebugfs env ext4Path target defaultName d mode fs =
     (let targetPath = (if target = [] then defaultName else target)
      in case validateInjectionPath targetPath of
           Inl e \<Rightarrow> (Inl e, fs)
         | Inr _ \<Rightarrow>
             (case mkdir_temp env ''swarmcracker-inject-'' fs of
                (None, fs1) \<Rightarrow> (Inl (PrepIO ''swarmcracker-inject-''), fs1)
              | (Some tmp, fs1) \<Rightarrow>
                  let filePath = path_Join [tmp, path_Base targetPath]; done_with = lk_RemoveAll (pe_deny env) tmp
                  in (case lk_WriteFile (pe_deny env) filePath mode (data_string d) fs1 of
                        (Inl _, fs2) \<Rightarrow> (Inl (PrepIO filePath), done_with fs2)
                      | (Inr _, fs2) \<Rightarrow>
                          (case pe_run env [''debugfs'', ''-w'', ''-R'', ''write '' @ filePath @ '' '' @ targetPath, ext4Path] fs2 of
                             ((False, _), fs3) \<Rightarrow> (Inl (ToolFailed ''debugfs''), done_with fs3)
                           | ((True, out), fs3) \<Rightarrow>
                               if sublist ''Filesystem not open'' out \<or> sublist ''No such file or directory'' out \<or> sublist ''while trying to open'' out
                               then (Inl (ToolFailed ''debugfs''), done_with fs3)
                               else (Inr (), done_with fs3)))))"

fun InjectSecrets :: "prep_env \<Rightarrow> secret_ref list \<Rightarrow> string \<Rightarrow> host_fs \<Rightarrow> (prep_error, unit) res \<times> host_fs" where
  "InjectSecrets env [] rootfsPath fs = (Inr (), fs)"
| "InjectSecrets env (s # ss) rootfsPath fs =
     (case injectFileViaDebugfs env rootfsPath (sec_Target s) (''/run/secrets/'' @ sec_Name s) (sec_Data s) 0x100 fs of
        (Inl e, fs1) \<Rightarrow> (Inl e, fs1)
      | (Inr _, fs1) \<Rightarrow> InjectSecrets env ss rootfsPath fs1)"

fun InjectConfigs :: "prep_env \<Rightarrow> config_ref list \<Rightarrow> string \<Rightarrow> host_fs \<Rightarrow> (prep_error, unit) res \<times> host_fs" where
  "InjectConfigs env [] rootfsPath fs = (Inr (), fs)"
| "InjectConfigs env (c # cs) rootfsPath fs =
     (case injectFileViaDebugfs env rootfsPath (cref_Target c) (''/config/'' @ cref_Name c) (cref_Data c) 0x124 fs of
        (Inl e, fs1) \<Rightarrow> (Inl e, fs1)
      | (Inr _, fs1) \<Rightarrow> InjectConfigs env cs rootfsPath fs1)"

text \<open>The two functions on a mounted root file system.\<close>

definition inject_mounted :: "refusals \<Rightarrow> string \<Rightarrow> string \<Rightarrow> string \<Rightarrow> 32 word \<Rightarrow> host_fs \<Rightarrow> (prep_error, unit) res \<times> host_fs" where
  "inject_mounted deny mountDir targetPath d mode fs =
     (case validateInjectionPath targetPath of
        Inl e \<Rightarrow> (Inl e, fs)
      | Inr _ \<Rightarrow>
          let fullPath = path_Join [mountDir, targetPath]
          in if \<not> prefix (path_Clean mountDir) (path_Clean fullPath) then (Inl (BadTarget fullPath), fs)
             else case lk_MkdirAll deny (path_Dir fullPath) fs of
                    (Inl _, fs1) \<Rightarrow> (Inl (PrepIO fullPath), fs1)
                  | (Inr _, fs1) \<Rightarrow>
                      (case lk_WriteFile deny fullPath mode d fs1 of (Inl _, fs2) \<Rightarrow> (Inl (PrepIO fullPath), fs2) | (Inr _, fs2) \<Rightarrow> (Inr (), fs2)))"

definition injectSecret :: "refusals \<Rightarrow> string \<Rightarrow> secret_ref \<Rightarrow> host_fs \<Rightarrow> (prep_error, unit) res \<times> host_fs" where
  "injectSecret deny mountDir s =
     inject_mounted deny mountDir (if sec_Target s = [] then path_Join [''/run/secrets'', sec_Name s] else sec_Target s) (data_string (sec_Data s)) 0x100"

definition injectConfig :: "refusals \<Rightarrow> string \<Rightarrow> config_ref \<Rightarrow> host_fs \<Rightarrow> (prep_error, unit) res \<times> host_fs" where
  "injectConfig deny mountDir c =
     inject_mounted deny mountDir (if cref_Target c = [] then path_Join [''/config'', cref_Name c] else cref_Target c) (data_string (cref_Data c)) 0x124"

subsection \<open>Mounts\<close>

text \<open>A failed mount leaves no directory behind.\<close>

definition mountExt4 :: "prep_env \<Rightarrow> string \<Rightarrow> host_fs \<Rightarrow> string option \<times> host_fs" where
  "mountExt4 env imagePath fs =
     (case mkdir_temp env ''swarmcracker-mount-'' fs of
        (None, fs1) \<Rightarrow> (None, fs1)
      | (Some dir, fs1) \<Rightarrow>
          (case pe_run env [''mount'', ''-o'', ''loop'', imagePath, dir] fs1 of
             ((True, _), fs2) \<Rightarrow> (Some dir, fs2)
           | ((False, _), fs2) \<Rightarrow> (None, lk_RemoveAll (pe_deny env) dir fs2)))"

definition unmountExt4 :: "prep_env \<Rightarrow> string \<Rightarrow> host_fs \<Rightarrow> host_fs" where
  "unmountExt4 env mountDir fs = lk_RemoveAll (pe_deny env) mountDir (snd (pe_run env [''umount'', mountDir] fs))"

definition img_copyFile :: "refusals \<Rightarrow> string \<Rightarrow> string \<Rightarrow> 32 word \<Rightarrow> host_fs \<Rightarrow> (tree_error, unit) res \<times> host_fs" where
  "img_copyFile deny src dst mode fs =
     (case lk_ReadFile deny src fs of Inl e \<Rightarrow> (Inl e, fs) | Inr d \<Rightarrow> lk_WriteFile deny dst mode d fs)"

text \<open>
  The recursion of \<open>copyDirectory\<close> need not end, where the destination is below the source; the depth is bounded by
  fuel, and running out of it is an error.
\<close>

fun img_copyDirectory :: "nat \<Rightarrow> refusals \<Rightarrow> string \<Rightarrow> string \<Rightarrow> host_fs \<Rightarrow> (tree_error, unit) res \<times> host_fs"
  and img_copy_entries :: "nat \<Rightarrow> refusals \<Rightarrow> string \<Rightarrow> string \<Rightarrow> (string \<times> bool) list \<Rightarrow> host_fs \<Rightarrow> (tree_error, unit) res \<times> host_fs" where
  "img_copyDirectory 0 deny src dst fs = (Inl OtherError, fs)"
| "img_copyDirectory (Suc k) deny src dst fs =
     (case lk_Stat deny src fs of
        Inl e \<Rightarrow> (Inl e, fs)
      | Inr _ \<Rightarrow>
          (case lk_MkdirAll deny dst fs of
             (Inl e, fs1) \<Rightarrow> (Inl e, fs1)
           | (Inr _, fs1) \<Rightarrow> (case lk_ReadDir deny src fs1 of Inl e \<Rightarrow> (Inl e, fs1) | Inr es \<Rightarrow> img_copy_entries k deny src dst es fs1)))"
| "img_copy_entries k deny src dst [] fs = (Inr (), fs)"
| "img_copy_entries k deny src dst ((x, isDir) # es) fs =
     (let srcPath = path_Join [src, x]; dstPath = path_Join [dst, x]
      in case (if isDir then img_copyDirectory k deny srcPath dstPath fs else img_copyFile deny srcPath dstPath 0x1A4 fs) of
           (Inl e, fs1) \<Rightarrow> (Inl e, fs1)
         | (Inr _, fs1) \<Rightarrow> img_copy_entries k deny src dst es fs1)"

definition mode_of :: "host_fs \<Rightarrow> inode \<Rightarrow> 32 word" where
  "mode_of fs i = (case i of IFile n \<Rightarrow> fst (file_of fs n) | _ \<Rightarrow> 0x1ED)"

definition handleBindMount :: "nat \<Rightarrow> refusals \<Rightarrow> string \<Rightarrow> mount \<Rightarrow> host_fs \<Rightarrow> (tree_error, unit) res \<times> host_fs" where
  "handleBindMount fuel deny rootfsPath m fs =
     (case lk_Stat deny (mnt_Source m) fs of
        Inl NotExist \<Rightarrow> (Inr (), fs)
      | Inl e \<Rightarrow> (Inl e, fs)
      | Inr _ \<Rightarrow>
          let targetPath = path_Join [rootfsPath, mnt_Target m]
          in (case lk_MkdirAll deny (path_Dir targetPath) fs of
                (Inl e, fs1) \<Rightarrow> (Inl e, fs1)
              | (Inr _, fs1) \<Rightarrow>
                  (case lk_Stat deny (mnt_Source m) fs1 of
                     Inl e \<Rightarrow> (Inl e, fs1)
                   | Inr IDir \<Rightarrow> img_copyDirectory fuel deny (mnt_Source m) targetPath fs1
                   | Inr i \<Rightarrow> img_copyFile deny (mnt_Source m) targetPath (mode_of fs1 i) fs1)))"

text \<open>
  The volume manager as this component calls it: \<open>GetVolume\<close>, \<open>CreateVolume\<close> for a task, and \<open>MountVolume\<close> into a
  directory.
\<close>

record volume_calls =
  vc_Get :: "string \<Rightarrow> host_fs \<Rightarrow> bool"
  vc_Create :: "string \<Rightarrow> string \<Rightarrow> host_fs \<Rightarrow> bool \<times> host_fs"
  vc_Mount :: "string \<Rightarrow> string \<Rightarrow> string \<Rightarrow> host_fs \<Rightarrow> bool \<times> host_fs"

definition handleVolumeMount :: "volume_calls \<Rightarrow> string \<Rightarrow> string \<Rightarrow> mount \<Rightarrow> host_fs \<Rightarrow> bool \<times> host_fs" where
  "handleVolumeMount vc taskID rootfsPath m fs =
     (let volumeName = ExtractVolumeName (mnt_Source m);
          (ok, fs1) = (if vc_Get vc volumeName fs then (True, fs) else vc_Create vc volumeName taskID fs)
      in if \<not> ok then (False, fs1) else vc_Mount vc volumeName rootfsPath (mnt_Target m) fs1)"

text \<open>Mounts that fail are skipped.\<close>

definition handle_mount :: "nat \<Rightarrow> refusals \<Rightarrow> volume_calls \<Rightarrow> string \<Rightarrow> string \<Rightarrow> mount \<Rightarrow> host_fs \<Rightarrow> host_fs" where
  "handle_mount fuel deny vc taskID mountDir m fs =
     (if mnt_Target m = [] then fs
      else if IsVolumeReference (mnt_Source m) then snd (handleVolumeMount vc taskID mountDir m fs)
      else snd (handleBindMount fuel deny mountDir m fs))"

definition handleMounts :: "nat \<Rightarrow> prep_env \<Rightarrow> volume_calls \<Rightarrow> string \<Rightarrow> string \<Rightarrow> mount list \<Rightarrow> host_fs \<Rightarrow> host_fs" where
  "handleMounts fuel env vc taskID rootfsPath mounts fs =
     (case mountExt4 env rootfsPath fs of
        (None, fs1) \<Rightarrow> fs1
      | (Some dir, fs1) \<Rightarrow> unmountExt4 env dir (fold (handle_mount fuel (pe_deny env) vc taskID dir) mounts fs1))"

subsection \<open>Preparing a task\<close>

definition prep_rootfs_path :: "preparer \<Rightarrow> string \<Rightarrow> string" where
  "prep_rootfs_path ip imageRef = path_Join [pc_RootfsDir (ip_config ip), generateImageID imageRef @ ''.ext4'']"

definition annotate :: "string \<Rightarrow> string \<Rightarrow> task \<Rightarrow> task" where
  "annotate k v t = t\<lparr>task_Annotations := (task_Annotations t)(k \<mapsto> v)\<rparr>"

definition annotate_init :: "preparer \<Rightarrow> task \<Rightarrow> task" where
  "annotate_init ip t =
     (if init_IsEnabled (ip_init ip) then annotate ''init_path'' (GetInitPath (ip_init ip)) (annotate ''init_system'' (ic_Type (ip_init ip)) t) else t)"

text \<open>What follows the preparation of the root file system. A task is never nil here.\<close>

definition prep_inject :: "nat \<Rightarrow> prep_env \<Rightarrow> volume_calls \<Rightarrow> preparer \<Rightarrow> container \<Rightarrow> string \<Rightarrow> task \<Rightarrow> host_fs \<Rightarrow> (prep_error, unit) res \<times> task \<times> host_fs" where
  "prep_inject fuel env vc ip ctr rootfsPath t fs =
     (let fs1 = (if ip_volumes ip \<and> ctr_Mounts ctr \<noteq> [] then handleMounts fuel env vc (task_ID t) rootfsPath (ctr_Mounts ctr) fs else fs)
      in case InjectSecrets env (task_Secrets t) rootfsPath fs1 of
           (Inl e, fs2) \<Rightarrow> (Inl e, t, fs2)
         | (Inr _, fs2) \<Rightarrow>
             (case InjectConfigs env (task_Configs t) rootfsPath fs2 of
                (Inl e, fs3) \<Rightarrow> (Inl e, t, fs3)
              | (Inr _, fs3) \<Rightarrow> (Inr (), annotate ''rootfs'' rootfsPath t, fs3)))"

definition img_Prepare :: "nat \<Rightarrow> prep_env \<Rightarrow> volume_calls \<Rightarrow> preparer \<Rightarrow> task \<Rightarrow> host_fs \<Rightarrow> (prep_error, unit) res \<times> task \<times> preparer \<times> host_fs" where
  "img_Prepare fuel env vc ip t fs =
     (case GetContainer (task_Spec t) of
        Inl e \<Rightarrow> (Inl (BadRuntime e), t, ip, fs)
      | Inr ctr \<Rightarrow>
          (case validateArchitecture env of
             Inl e \<Rightarrow> (Inl e, t, ip, fs)
           | Inr _ \<Rightarrow>
               let rootfsPath = prep_rootfs_path ip (ctr_Image ctr)
               in if verifyCachedRootfs env rootfsPath fs then (Inr (), annotate ''rootfs'' rootfsPath t, ip, fs)
                  else case prepareWithLock env ip (ctr_Image ctr) (generateImageID (ctr_Image ctr)) rootfsPath fs of
                         (Inl e, ip1, fs1) \<Rightarrow> (Inl e, t, ip1, fs1)
                       | (Inr _, ip1, fs1) \<Rightarrow>
                           (case prep_inject fuel env vc ip1 ctr rootfsPath (annotate_init ip1 t) fs1 of (r, t1, fs2) \<Rightarrow> (r, t1, ip1, fs2))))"

subsection \<open>Old images\<close>

text \<open>
  The times of the last changes are an argument, in seconds; a day of the calendar has 24 hours here, as it does in UTC.
  The results are the numbers of files and bytes.
\<close>

definition cleanup_old :: "(string \<Rightarrow> int) \<Rightarrow> int \<Rightarrow> int \<Rightarrow> string \<Rightarrow> bool" where
  "cleanup_old mtime now keepDays p \<longleftrightarrow> \<not> mtime p > now - 86400 \<and> mtime p < now - keepDays * 86400"

fun cleanup_entries :: "refusals \<Rightarrow> (string \<Rightarrow> int) \<Rightarrow> int \<Rightarrow> int \<Rightarrow> string \<Rightarrow> (string \<times> bool) list \<Rightarrow> int \<Rightarrow> int \<Rightarrow> host_fs \<Rightarrow> int \<times> int \<times> host_fs" where
  "cleanup_entries deny mtime now keepDays dir [] files freed fs = (files, freed, fs)"
| "cleanup_entries deny mtime now keepDays dir ((x, isDir) # es) files freed fs =
     (let p = path_Join [dir, x]; skip = cleanup_entries deny mtime now keepDays dir es files freed
      in if isDir \<or> \<not> suffix ''.ext4'' x then skip fs
         else case lk_Stat deny p fs of
                Inl _ \<Rightarrow> skip fs
              | Inr i \<Rightarrow>
                  if \<not> cleanup_old mtime now keepDays p then skip fs
                  else case lk_Remove deny p fs of
                         (Inl _, fs1) \<Rightarrow> skip fs1
                       | (Inr _, fs1) \<Rightarrow> cleanup_entries deny mtime now keepDays dir es (files + 1) (freed + inode_size fs i) fs1)"

definition img_Cleanup :: "refusals \<Rightarrow> (string \<Rightarrow> int) \<Rightarrow> int \<Rightarrow> int \<Rightarrow> preparer \<Rightarrow> host_fs \<Rightarrow> (prep_error, int \<times> int) res \<times> host_fs" where
  "img_Cleanup deny mtime now keepDays ip fs =
     (let dir = pc_RootfsDir (ip_config ip)
      in if keepDays \<le> 0 then (Inl EmptyArgument, fs)
         else if lk_Stat deny dir fs = Inl NotExist then (Inr (0, 0), fs)
         else case lk_ReadDir deny dir fs of
                Inl _ \<Rightarrow> (Inl (PrepIO dir), fs)
              | Inr es \<Rightarrow> (case cleanup_entries deny mtime now keepDays dir es 0 0 fs of (n, b, fs1) \<Rightarrow> (Inr (n, b), fs1)))"

end
