(* ===== verification/Image_Init_Correct.thy ===== *)
theory Image_Init_Correct
  imports Image_Init
begin

text \<open>
  What unpacking an image and injecting an init system and files do to the file system of the host.
\<close>

subsection \<open>Following paths\<close>

text \<open>Directories all the way, no links.\<close>

definition real_dir :: "host_fs \<Rightarrow> string list \<Rightarrow> bool" where
  "real_dir fs d \<longleftrightarrow> (\<forall>k \<le> length d. inode_at fs (take k d) = Some IDir) \<and> (\<forall>x \<in> set d. plain_name x)"

lemma follow_dirs:
  "(\<And>k. k \<le> length d \<Longrightarrow> inode_at fs (at @ take k d) = Some IDir) \<Longrightarrow> \<forall>x \<in> set d. plain_name x \<Longrightarrow>
   follow n fs b at (d @ xs) = follow n fs b (at @ d) xs"
proof (induction d arbitrary: at)
  case (Cons x d)
  have "inode_at fs (at @ [x]) = Some IDir" using Cons.prems(1) [of 1] by simp
  moreover have "follow n fs b (at @ [x]) (d @ xs) = follow n fs b ((at @ [x]) @ d) xs"
    by (rule Cons.IH) (use Cons.prems(1) [of "Suc k" for k] Cons.prems(2) in auto)
  ultimately show ?case using Cons.prems(2) by (simp add: plain_name_def)
qed simp

lemma follow_real: "real_dir fs d \<Longrightarrow> follow n fs b [] (d @ xs) = follow n fs b d xs"
  using follow_dirs [of d fs "[]" n b xs] by (simp add: real_dir_def)

lemma real_dir_child:
  assumes "real_dir fs d" and "inode_at fs (d @ [x]) = Some IDir" and "plain_name x"
  shows "real_dir fs (d @ [x])"
  unfolding real_dir_def
proof (intro conjI allI impI)
  fix k assume "k \<le> length (d @ [x])"
  then show "inode_at fs (take k (d @ [x])) = Some IDir"
    using assms by (cases "k \<le> length d") (auto simp: real_dir_def)
qed (use assms in \<open>auto simp: real_dir_def\<close>)

lemma real_dir_at: "real_dir fs d \<Longrightarrow> inode_at fs d = Some IDir"
  unfolding real_dir_def by (metis order_refl take_all)

lemma real_dir_prefix: "real_dir fs d \<Longrightarrow> prefix a d \<Longrightarrow> inode_at fs a = Some IDir"
  unfolding real_dir_def by (metis append_eq_conv_conj prefix_def prefix_length_le)

lemma plain_clean: "\<forall>x \<in> set es. plain_name x \<Longrightarrow> clean_elems True es"
  unfolding clean_elems_def by (rule conjI, rule exI [of _ 0]) (auto simp: plain_name_def)

lemma lk_path_of:
  assumes "\<forall>x \<in> set es. plain_name x"
  shows "lk_path fs b (path_of True es) = follow 40 fs b [] es"
proof (cases "es = []")
  case False
  have "split_on (CHR ''/'') (join ''/'' es) = es" using split_on_join [OF False] assms by (auto simp: plain_name_def)
  then show ?thesis by (simp add: lk_path_def path_of_def)
qed (simp add: lk_path_def path_of_def)

lemma path_Join_child:
  assumes "path_IsAbs d" and "plain_name x"
  shows "path_Join [d, x] = path_of True (path_elems d @ [x])" and "path_IsAbs (path_Join [d, x])"
    and "path_elems (path_Join [d, x]) = path_elems d @ [x]"
proof -
  have l: "loc_of (path_Join [d, x]) = child (loc_of d) x" by (rule loc_child [OF assms(2) abs_nonempty [OF assms(1)]])
  show "path_Join [d, x] = path_of True (path_elems d @ [x])"
    using path_Join_name [of x d] assms abs_nonempty [OF assms(1)] by (simp add: plain_name_def path_IsAbs_def)
  show "path_IsAbs (path_Join [d, x])" by (rule path_IsAbs_Join [OF assms])
  show "path_elems (path_Join [d, x]) = path_elems d @ [x]" using l by (simp add: loc_of_def child_def)
qed

lemma path_Join_child2:
  assumes a: "path_IsAbs d" and x: "plain_name x" and y: "plain_name y"
  shows "path_Join [d, x, y] = path_of True (path_elems d @ [x, y])"
proof -
  have n: "x \<noteq> []" "y \<noteq> []" "x \<noteq> ''.''" "x \<noteq> ''..''" "y \<noteq> ''.''" "y \<noteq> ''..''" "CHR ''/'' \<notin> set x" "CHR ''/'' \<notin> set y" "d \<noteq> []"
    using assms by (auto simp: plain_name_def path_IsAbs_def)
  have "path_elems ((d @ CHR ''/'' # x) @ CHR ''/'' # y) = path_elems d @ [x, y]"
    using n by (subst path_elems_snoc) (simp_all add: path_elems_snoc)
  moreover have "prefix ''/'' (d @ z)" for z using a by (simp add: path_IsAbs_def)
  ultimately show ?thesis using n by (simp add: path_Join_def path_Clean_def)
qed

lemma lk_path_child:
  assumes "path_IsAbs d" and "plain_name x" and "real_dir fs (path_elems d)"
  shows "lk_path fs b (path_Join [d, x]) = follow 40 fs b (path_elems d) [x]"
proof -
  have "\<forall>y \<in> set (path_elems d @ [x]). plain_name y" using assms(2,3) by (auto simp: real_dir_def)
  then show ?thesis using path_Join_child(1) [OF assms(1,2)] lk_path_of follow_real [OF assms(3)] by simp
qed

text \<open>A new name in a real directory; for an existing link it matters whether it is followed.\<close>

lemma lk_path_entry:
  assumes "path_IsAbs d" and "plain_name x" and "real_dir fs (path_elems d)"
    and "b \<Longrightarrow> \<forall>t. inode_at fs (path_elems d @ [x]) \<noteq> Some (ILink t)"
  shows "lk_path fs b (path_Join [d, x]) = Inr (path_elems d @ [x])"
  using assms(2,4) lk_path_child [OF assms(1-3), of b] by (cases b) (auto simp: plain_name_def split: option.splits inode.splits)

subsection \<open>Growing\<close>

text \<open>Nothing that was there has changed, but for the contents of files.\<close>

definition grows :: "host_fs \<Rightarrow> host_fs \<Rightarrow> bool" where
  "grows fs fs' \<longleftrightarrow> (\<forall>l i. inode_at fs l = Some i \<longrightarrow> inode_at fs' l = Some i)"

lemma grows_refl [simp]: "grows fs fs"
  by (simp add: grows_def)

lemma grows_trans: "grows fs fs1 \<Longrightarrow> grows fs1 fs2 \<Longrightarrow> grows fs fs2"
  by (simp add: grows_def)

lemma growsD: "grows fs fs' \<Longrightarrow> inode_at fs l = Some i \<Longrightarrow> inode_at fs' l = Some i"
  by (simp add: grows_def)

lemma grows_real_dir: "grows fs fs' \<Longrightarrow> real_dir fs d \<Longrightarrow> real_dir fs' d"
  by (simp add: grows_def real_dir_def)

lemma grows_set_node: "inode_at fs l = None \<Longrightarrow> grows fs (set_node l i fs)"
  by (cases "l = []") (auto simp: grows_def inode_set_node, simp add: inode_at_def)

lemma grows_Mkdir: "lk_Mkdir deny p fs = (r, fs') \<Longrightarrow> grows fs fs'"
  by (auto simp: lk_Mkdir_def grows_set_node split: if_splits sum.splits)

lemma grows_steps: "mkdir_steps deny ps fs = (r, fs') \<Longrightarrow> grows fs fs'"
proof (induction ps arbitrary: fs)
  case (Cons p ps)
  show ?case
  proof (cases "lk_Stat deny p fs")
    case (Inl e)
    obtain r1 fs1 where m: "lk_Mkdir deny p fs = (r1, fs1)" by fastforce
    then show ?thesis using Cons.prems Inl Cons.IH [of fs1] grows_Mkdir [OF m] grows_trans by (cases r1) auto
  next
    case (Inr i)
    then show ?thesis using Cons.prems Cons.IH [of fs] by (cases i) auto
  qed
qed simp

lemma grows_MkdirAll: "lk_MkdirAll deny p fs = (r, fs') \<Longrightarrow> grows fs fs'"
  unfolding lk_MkdirAll_def by (rule grows_steps)

lemma grows_Symlink: "lk_Symlink deny t p fs = (r, fs') \<Longrightarrow> grows fs fs'"
  by (auto simp: lk_Symlink_def grows_set_node split: if_splits sum.splits)

lemma grows_WriteFile: "lk_WriteFile deny p m d fs = (r, fs') \<Longrightarrow> grows fs fs'"
proof -
  have "grows fs (set_node l (IFile n) (set_file n f (fs\<lparr>hf_next := k\<rparr>)))" if "inode_at fs l = None" for l n f k
    using grows_set_node [of "set_file n f (fs\<lparr>hf_next := k\<rparr>)" l "IFile n"] that by (simp add: grows_def)
  moreover have "grows fs (set_file n f fs)" for n f by (simp add: grows_def)
  ultimately show "lk_WriteFile deny p m d fs = (r, fs') \<Longrightarrow> grows fs fs'"
    by (auto simp: lk_WriteFile_def split: if_splits sum.splits option.splits inode.splits)
qed

text \<open>Sequences of steps.\<close>

definition growing :: "fs_step \<Rightarrow> bool" where
  "growing f \<longleftrightarrow> (\<forall>fs. grows fs (snd (f fs)))"

lemma growing_seq: "\<forall>f \<in> set steps. growing f \<Longrightarrow> growing (seq_steps steps)"
proof (induction steps)
  case (Cons f steps)
  have "grows fs (snd (seq_steps (f # steps) fs))" for fs
  proof -
    obtain r fs1 where f: "f fs = (r, fs1)" by fastforce
    then have "grows fs fs1" using Cons.prems by (auto simp: growing_def dest: spec [of _ fs])
    moreover have "grows fs1 (snd (seq_steps steps fs1))" using Cons by (simp add: growing_def)
    ultimately show ?thesis using f grows_trans by (cases r) auto
  qed
  then show ?case by (simp add: growing_def)
qed (simp add: growing_def)

lemma growing_ops [simp]: "growing (mkdir_at deny p)" "growing (write_at deny p m d)" "growing (symlink_at deny t p)"
  "growing (ignoring (lk_MkdirAll deny p))" "growing (ignoring (lk_WriteFile deny p m d))" "growing (ignoring (lk_Symlink deny t p))"
  unfolding growing_def mkdir_at_def write_at_def symlink_at_def at_path_def ignoring_def
  using grows_MkdirAll grows_WriteFile grows_Symlink by (auto split: prod.splits sum.splits simp: prod_eq_iff)

subsection \<open>The init system\<close>

lemma look_real:
  assumes "real_dir fs d" and "b \<or> \<not> b"
  shows "lk_path fs b (path_of True d) = Inr d"
  using follow_real [OF assms(1), of 40 b "[]"] lk_path_of [of d fs b] assms(1) by (simp add: real_dir_def)

lemma mkdir_steps_real:
  assumes "\<forall>d \<in> set ds. real_dir fs d"
  shows "mkdir_steps deny (map (path_of True) ds @ ps) fs = (Inr u, fs') \<Longrightarrow> mkdir_steps deny ps fs = (Inr u, fs')"
  using assms
proof (induction ds)
  case (Cons d ds)
  have r: "real_dir fs d" using Cons.prems by simp
  have "lk_Mkdir deny (path_of True d) fs = (Inl OtherError, fs)"
    using look_real [OF r, of False] real_dir_at [OF r] by (simp add: lk_Mkdir_def)
  moreover have "lk_Stat deny (path_of True d) fs = Inl OtherError \<or> lk_Stat deny (path_of True d) fs = Inr IDir"
    using look_real [OF r, of True] real_dir_at [OF r] by (simp add: lk_Stat_def lk_look_def)
  ultimately show ?case using Cons by auto
qed simp

lemma MkdirAll_last:
  assumes a: "path_IsAbs d" and x: "plain_name x" and r: "real_dir fs (path_elems d)"
    and n: "\<forall>t. inode_at fs (path_elems d @ [x]) \<noteq> Some (ILink t)" and m: "lk_MkdirAll deny (path_Join [d, x]) fs = (Inr u, fs')"
  shows "inode_at fs (path_elems d @ [x]) = Some IDir \<and> fs' = fs \<or> inode_at fs (path_elems d @ [x]) = None \<and> fs' = set_node (path_elems d @ [x]) IDir fs"
proof -
  let ?D = "path_elems d" and ?p = "path_Join [d, x]"
  have el: "path_elems ?p = ?D @ [x]" and pj: "?p = path_of True (?D @ [x])" using path_Join_child [OF a x] by simp_all
  have "map (\<lambda>k. path_of True (take k (?D @ [x]))) [1..<Suc (length (?D @ [x]))] = map (path_of True) (map (\<lambda>k. take k ?D) [1..<Suc (length ?D)]) @ [?p]"
    by (auto simp: pj)
  moreover have "\<forall>a \<in> set (map (\<lambda>k. take k ?D) [1..<Suc (length ?D)]). real_dir fs a"
    using r by (auto simp: real_dir_def dest: in_set_takeD)
  ultimately have s: "mkdir_steps deny [?p] fs = (Inr u, fs')"
    using m mkdir_steps_real unfolding lk_MkdirAll_def el by metis
  have lp: "lk_path fs b ?p = Inr (?D @ [x])" for b using lk_path_entry [OF a x r] n by blast
  show ?thesis
  proof (cases "lk_Stat deny ?p fs")
    case (Inl e)
    obtain r1 fs1 where "lk_Mkdir deny ?p fs = (r1, fs1)" by fastforce
    then show ?thesis using s Inl lp [of False] by (cases r1) (auto simp: lk_Mkdir_def split: if_splits)
  next
    case (Inr i)
    then show ?thesis using s lp [of True] by (cases i) (auto simp: lk_Stat_def lk_look_def split: if_splits option.splits)
  qed
qed

lemma MkdirAll_child:
  assumes a: "path_IsAbs d" and x: "plain_name x" and r: "real_dir fs (path_elems d)"
    and n: "\<forall>t. inode_at fs (path_elems d @ [x]) \<noteq> Some (ILink t)" and m: "lk_MkdirAll deny (path_Join [d, x]) fs = (Inr u, fs')"
  shows "real_dir fs' (path_elems d @ [x])"
proof -
  have "inode_at fs' (path_elems d @ [x]) = Some IDir" using MkdirAll_last [OF assms] by (auto simp: inode_set_node)
  then show ?thesis using real_dir_child [OF grows_real_dir [OF grows_MkdirAll [OF m] r]] x by blast
qed

lemma WriteFile_child:
  assumes a: "path_IsAbs d" and x: "plain_name x" and r: "real_dir fs (path_elems d)"
    and n: "\<forall>t. inode_at fs (path_elems d @ [x]) \<noteq> Some (ILink t)" and w: "lk_WriteFile deny (path_Join [d, x]) m c fs = (Inr u, fs')"
  shows "\<exists>k. inode_at fs' (path_elems d @ [x]) = Some (IFile k) \<and> snd (file_of fs' k) = c"
  using w lk_path_entry [OF a x r, of True] n
  by (auto simp: lk_WriteFile_def inode_set_node file_set_file split: if_splits option.splits inode.splits)

lemma seq_steps_iff: "seq_steps (f # steps) fs = (Inr u, fs') \<longleftrightarrow> (\<exists>fs1. f fs = (Inr (), fs1) \<and> seq_steps steps fs1 = (Inr u, fs'))"
  by (auto split: prod.splits sum.splits)

lemma seq_steps_nil: "seq_steps [] fs = (Inr u, fs') \<longleftrightarrow> fs' = fs"
  by auto

lemma file_drop [simp]: "file_of (drop_nodes l fs) n = file_of fs n"
  by (simp add: file_of_def drop_nodes_def)

lemma at_path_ok: "at_path p f fs = (Inr u, fs') \<Longrightarrow> f fs = (Inr (), fs')"
  by (auto simp: at_path_def split: prod.splits sum.splits)

lemma Remove_keeps:
  assumes "lk_Remove deny p fs = (r, fs')" and "lk_path fs False p = Inr l"
  shows "\<not> prefix l l' \<Longrightarrow> inode_at fs' l' = inode_at fs l'" and "file_of fs' n = file_of fs n"
  using assms by (auto simp: lk_Remove_def inode_drop split: if_splits option.splits)

lemma link_init_ok:
  assumes a: "path_IsAbs tmp" and r: "real_dir fs (path_elems tmp)" and l: "link_init env tmp fs = (Inr u, fs')"
  shows "inode_at fs' (path_elems tmp @ [''init'']) = Some (ILink ''/sbin/init'')"
    and "\<not> prefix (path_elems tmp @ [''init'']) l' \<Longrightarrow> inode_at fs' l' = inode_at fs l'" and "file_of fs' n = file_of fs n"
proof -
  let ?D = "path_elems tmp" and ?p = "path_Join [tmp, ''init'']"
  have x: "plain_name ''init''" by (simp add: plain_name_def)
  obtain fs1 where 1: "ignoring (lk_Remove (ie_deny env) ?p) fs = (Inr (), fs1)" and 2: "symlink_at (ie_deny env) ''/sbin/init'' ?p fs1 = (Inr (), fs')"
    using l unfolding link_init_def Let_def seq_steps_iff seq_steps_nil by blast
  obtain r1 where rm: "lk_Remove (ie_deny env) ?p fs = (r1, fs1)" using 1 by (auto simp: ignoring_def prod_eq_iff)
  have lp: "lk_path fs False ?p = Inr (?D @ [''init''])" by (rule lk_path_entry [OF a x r]) simp
  note k = Remove_keeps [OF rm lp]
  have r1: "real_dir fs1 ?D"
    unfolding real_dir_def
  proof (intro conjI allI impI)
    fix j assume "j \<le> length ?D"
    then have "\<not> prefix (?D @ [''init'']) (take j ?D)" using prefix_length_le [of "?D @ [''init'']" "take j ?D"] by auto
    then show "inode_at fs1 (take j ?D) = Some IDir" using k(1) r \<open>j \<le> length ?D\<close> by (simp add: real_dir_def)
  qed (use r in \<open>auto simp: real_dir_def\<close>)
  have lp1: "lk_path fs1 False ?p = Inr (?D @ [''init''])" by (rule lk_path_entry [OF a x r1]) simp
  have s: "fs' = set_node (?D @ [''init'']) (ILink ''/sbin/init'') fs1"
    using at_path_ok [OF 2 [unfolded symlink_at_def]] lp1 by (auto simp: lk_Symlink_def split: if_splits)
  show "inode_at fs' (?D @ [''init'']) = Some (ILink ''/sbin/init'')" by (simp add: s inode_set_node)
  show "inode_at fs' l' = inode_at fs l'" if "\<not> prefix (?D @ [''init'']) l'" using that k(1) [OF that] by (auto simp: s inode_set_node)
  show "file_of fs' n = file_of fs n" using k(2) by (simp add: s)
qed

text \<open>Directories and files are made, but no links.\<close>

definition linkless :: "host_fs \<Rightarrow> string list \<Rightarrow> bool" where
  "linkless fs l \<longleftrightarrow> (\<forall>t. inode_at fs l \<noteq> Some (ILink t))"

lemma linkless_Mkdir: "lk_Mkdir deny p fs = (r, fs') \<Longrightarrow> linkless fs l \<Longrightarrow> linkless fs' l"
  by (auto simp: lk_Mkdir_def linkless_def inode_at_def set_node_def split: if_splits sum.splits)

lemma linkless_steps: "mkdir_steps deny ps fs = (r, fs') \<Longrightarrow> linkless fs l \<Longrightarrow> linkless fs' l"
proof (induction ps arbitrary: fs)
  case (Cons p ps)
  show ?case
  proof (cases "lk_Stat deny p fs")
    case (Inl e)
    obtain r1 fs1 where m: "lk_Mkdir deny p fs = (r1, fs1)" by fastforce
    then show ?thesis using Cons.prems Inl Cons.IH [of fs1] linkless_Mkdir [OF m] by (cases r1) auto
  next
    case (Inr i)
    then show ?thesis using Cons.prems Cons.IH [of fs] by (cases i) auto
  qed
qed simp

lemma linkless_MkdirAll: "lk_MkdirAll deny p fs = (r, fs') \<Longrightarrow> linkless fs l \<Longrightarrow> linkless fs' l"
  unfolding lk_MkdirAll_def by (rule linkless_steps)

lemma linkless_WriteFile: "lk_WriteFile deny p m d fs = (r, fs') \<Longrightarrow> linkless fs l \<Longrightarrow> linkless fs' l"
  by (auto simp: lk_WriteFile_def linkless_def inode_at_def set_node_def set_file_def split: if_splits sum.splits option.splits inode.splits)

lemma plain_init_names: "plain_name ''sbin''" "plain_name ''init''" "plain_name ''tini''"
  by (simp_all add: plain_name_def)

lemma grows_injectTini:
  assumes "injectTiniIntoDir env ii tmp info fs = (Inr (), fs')"
  obtains fs3 where "grows fs fs3" and "link_init env tmp fs3 = (Inr (), fs')"
proof -
  let ?c = "createGenericInitWrapper env tmp info (ic_GracePeriodSec ii)"
  let ?s = "[mkdir_at (ie_deny env) (path_Join [tmp, ''sbin'']), write_at (ie_deny env) (path_Join [path_Join [tmp, ''sbin''], ''tini'']) 0x1ED (ie_tini env), ?c]"
  obtain fs3 where s: "seq_steps ?s fs = (Inr (), fs3)" and l: "link_init env tmp fs3 = (Inr (), fs')"
    using assms unfolding injectTiniIntoDir_def Let_def seq_steps_iff seq_steps_nil by blast
  have "growing ?c" unfolding createGenericInitWrapper_def Let_def by (rule growing_seq) simp
  then have "growing (seq_steps ?s)" by (intro growing_seq) simp
  then have "grows fs fs3" unfolding growing_def using s by (metis snd_conv)
  then show thesis using l that by blast
qed

lemma wrapper_written:
  assumes a: "path_IsAbs tmp" and r: "real_dir fs (path_elems tmp)" and t: "injectTiniIntoDir env ii tmp info fs = (Inr (), fs')"
    and n: "linkless fs (path_elems tmp @ [''sbin''])" "linkless fs (path_elems tmp @ [''sbin'', ''init''])"
  shows "\<exists>n. inode_at fs' (path_elems tmp @ [''sbin'', ''init'']) = Some (IFile n) \<and> snd (file_of fs' n) = generateWrapperScript info (ic_GracePeriodSec ii)"
proof -
  let ?D = "path_elems tmp" and ?sb = "path_Join [tmp, ''sbin'']" and ?g = "generateWrapperScript info (ic_GracePeriodSec ii)"
  obtain fs1 fs2 fs3 fs4 where s1: "mkdir_at (ie_deny env) ?sb fs = (Inr (), fs1)"
      and s2: "write_at (ie_deny env) (path_Join [?sb, ''tini'']) 0x1ED (ie_tini env) fs1 = (Inr (), fs2)"
      and s3: "mkdir_at (ie_deny env) ?sb fs2 = (Inr (), fs3)" and s4: "write_at (ie_deny env) (path_Join [?sb, ''init'']) 0x1ED ?g fs3 = (Inr (), fs4)"
      and l: "link_init env tmp fs4 = (Inr (), fs')"
    using t unfolding injectTiniIntoDir_def createGenericInitWrapper_def Let_def seq_steps_iff seq_steps_nil by blast
  note o = at_path_ok [OF s1 [unfolded mkdir_at_def]] at_path_ok [OF s2 [unfolded write_at_def]] at_path_ok [OF s3 [unfolded mkdir_at_def]]
    at_path_ok [OF s4 [unfolded write_at_def]]
  have g: "grows fs1 fs3" "grows fs fs4"
    using grows_MkdirAll [OF o(1)] grows_WriteFile [OF o(2)] grows_MkdirAll [OF o(3)] grows_WriteFile [OF o(4)] grows_trans by blast+
  have sb: "path_IsAbs ?sb" "path_elems ?sb = ?D @ [''sbin'']" using path_Join_child [OF a plain_init_names(1)] by simp_all
  have "real_dir fs1 (?D @ [''sbin''])" by (rule MkdirAll_child [OF a plain_init_names(1) r _ o(1)]) (use n(1) in \<open>simp add: linkless_def\<close>)
  then have r3: "real_dir fs3 (path_elems ?sb)" using grows_real_dir [OF g(1)] sb(2) by simp
  have "linkless fs3 (?D @ [''sbin'', ''init''])"
    by (rule linkless_MkdirAll [OF o(3) linkless_WriteFile [OF o(2) linkless_MkdirAll [OF o(1) n(2)]]])
  then obtain k where k: "inode_at fs4 (?D @ [''sbin'', ''init'']) = Some (IFile k)" "snd (file_of fs4 k) = ?g"
    using WriteFile_child [OF sb(1) plain_init_names(2) r3 _ o(4)] by (auto simp: linkless_def sb(2))
  note f = link_init_ok [OF a grows_real_dir [OF g(2) r] l]
  have "\<not> prefix (?D @ [''init'']) (?D @ [''sbin'', ''init''])" by simp
  then show ?thesis using k f(2,3) by auto
qed

lemma inject_boots:
  assumes e: "init_IsEnabled ii" and a: "path_IsAbs tmp" and r: "real_dir fs (path_elems tmp)"
    and i: "InjectIntoDir env ii tmp info fs = (Inr (), fs')"
  shows "inode_at fs' (path_elems tmp @ [''init'']) = Some (ILink ''/sbin/init'')"
proof -
  let ?D = "path_elems tmp"
  have tini: "inode_at fs' (?D @ [''init'']) = Some (ILink ''/sbin/init'')"
    if t: "injectTiniIntoDir env ii tmp info fs0 = (Inr (), fs')" and g0: "grows fs fs0" for fs0
  proof -
    obtain fs3 where g: "grows fs0 fs3" and l: "link_init env tmp fs3 = (Inr (), fs')" by (rule grows_injectTini [OF t])
    show ?thesis by (rule link_init_ok(1) [OF a grows_real_dir [OF grows_trans [OF g0 g] r] l])
  qed
  have bb: "growing (injectBusybox env tmp)" unfolding injectBusybox_def Let_def by (rule growing_seq) auto
  show ?thesis
  proof (cases "DetectInitType (ie_deny env) tmp fs")
    case InitTypeScratch
    then obtain fs0 where "injectBusybox env tmp fs = (Inr (), fs0)" "injectTiniIntoDir env ii tmp info fs0 = (Inr (), fs')"
      using i e unfolding InjectIntoDir_def by (auto simp: seq_steps_iff seq_steps_nil simp del: seq_steps.simps)
    then show ?thesis using tini bb unfolding growing_def by (metis snd_conv)
  qed (use i e tini [OF _ grows_refl] link_init_ok(1) [OF a r] in \<open>simp_all add: InjectIntoDir_def\<close>)
qed

text \<open>
  An image into which an init system was injected boots into it. After a successful injection \<open>/init\<close> is a
  symbolic link to \<open>/sbin/init\<close>; and where the image had no init system, \<open>/sbin/init\<close> is a file with the wrapper that
  runs the command of the image. The directory of the image must be a real one, and \<open>/sbin\<close> and \<open>/sbin/init\<close>
  must not be links.
\<close>

theorem injected_image_boots:
  assumes e: "init_IsEnabled ii" and a: "path_IsAbs tmp" and r: "real_dir fs (path_elems tmp)"
    and i: "InjectIntoDir env ii tmp info fs = (Inr (), fs')"
  shows "inode_at fs' (path_elems tmp @ [''init'']) = Some (ILink ''/sbin/init'') \<and>
    (DetectInitType (ie_deny env) tmp fs = InitTypeNone \<longrightarrow>
     (\<forall>t. inode_at fs (path_elems tmp @ [''sbin'']) \<noteq> Some (ILink t)) \<longrightarrow> (\<forall>t. inode_at fs (path_elems tmp @ [''sbin'', ''init'']) \<noteq> Some (ILink t)) \<longrightarrow>
     (\<exists>n. inode_at fs' (path_elems tmp @ [''sbin'', ''init'']) = Some (IFile n) \<and>
       snd (file_of fs' n) = generateWrapperScript info (ic_GracePeriodSec ii)))"
proof -
  have "inode_at fs' (path_elems tmp @ [''init'']) = Some (ILink ''/sbin/init'')" by (rule inject_boots [OF e a r i])
  moreover have "injectTiniIntoDir env ii tmp info fs = (Inr (), fs')" if "DetectInitType (ie_deny env) tmp fs = InitTypeNone"
    using that i e by (simp add: InjectIntoDir_def)
  ultimately show ?thesis using wrapper_written [OF a r] unfolding linkless_def by blast
qed

text \<open>A directory with a shell and no init system.\<close>

definition boot_env :: img_env where
  "boot_env = \<lparr>ie_deny = (\<lambda>_ _. False), ie_tini = ''ELF'', ie_busybox = ''ELF''\<rparr>"

definition boot_fs :: host_fs where
  "boot_fs = \<lparr>hf_nodes = [([''t''], IDir), ([''t'', ''bin''], IDir), ([''t'', ''bin'', ''sh''], IFile 0)], hf_files = [(0, 0x1ED, ''sh'')], hf_next = 1\<rparr>"

definition boot_init :: init_config where
  "boot_init = NewInitInjector None"

lemma boot_real: "real_dir boot_fs (path_elems ''/t'')"
proof -
  have e: "path_elems ''/t'' = [''t'']" by code_simp
  have n: "inode_at boot_fs [] = Some IDir" "inode_at boot_fs [''t''] = Some IDir" by code_simp+
  have "inode_at boot_fs (take k [''t'']) = Some IDir" for k using n by (cases k) auto
  then show ?thesis by (simp add: e real_dir_def plain_name_def)
qed

theorem injected_image_boots_witness:
  "\<exists>fs' n. InjectIntoDir boot_env boot_init ''/t'' None boot_fs = (Inr (), fs') \<and>
     inode_at fs' [''t'', ''init''] = Some (ILink ''/sbin/init'') \<and>
     inode_at fs' [''t'', ''sbin'', ''init''] = Some (IFile n) \<and> snd (file_of fs' n) = generateWrapperScript None 10"
proof -
  have e: "path_elems ''/t'' = [''t'']" "path_IsAbs ''/t''" "init_IsEnabled boot_init" "ic_GracePeriodSec boot_init = 10" by code_simp+
  have d: "DetectInitType (ie_deny boot_env) ''/t'' boot_fs = InitTypeNone" by code_simp
  have "fst (InjectIntoDir boot_env boot_init ''/t'' None boot_fs) = Inr ()" by code_simp
  then have i: "InjectIntoDir boot_env boot_init ''/t'' None boot_fs = (Inr (), snd (InjectIntoDir boot_env boot_init ''/t'' None boot_fs))"
    by (metis prod.collapse)
  have n: "inode_at boot_fs [''t'', ''sbin''] = None" "inode_at boot_fs [''t'', ''sbin'', ''init''] = None" by code_simp+
  show ?thesis using injected_image_boots [OF e(3,2) boot_real i] i d n by (auto simp: e)
qed

end
