(* ===== verification/Image_Unpack.thy ===== *)
theory Image_Unpack
  imports Image_Init_Correct Volume_Archive_Correct
begin

text \<open>
  Unpacking an image (\<open>extractTarStream\<close> of \<open>pkg/image/preparer.go\<close>) changes nothing outside of its directory, as
  long as the archive has no links. With links it does, as examples show.
\<close>

subsection \<open>Paths below a directory\<close>

lemma abs_path_of: "path_IsAbs p \<Longrightarrow> path_Clean p = path_of True (path_elems p)"
  by (simp add: path_Clean_def path_IsAbs_def)

lemma abs_plain: "path_IsAbs p \<Longrightarrow> x \<in> set (path_elems p) \<Longrightarrow> plain_name x"
  using plain_elems [of p x] by (simp add: loc_of_def path_IsAbs_def)

lemma abs_Clean: "path_IsAbs p \<Longrightarrow> path_IsAbs (path_Clean p)" and elems_Clean: "path_elems (path_Clean p) = path_elems p"
  using loc_Clean [of p] by (simp_all add: loc_of_def path_IsAbs_def)

text \<open>The test on the strings of the two paths is one on their elements.\<close>

lemma prefix_below:
  assumes a: "path_IsAbs d" "path_IsAbs t" and p: "prefix (path_Clean d @ ''/'') (path_Clean t)"
  shows "\<exists>es. path_elems t = path_elems d @ es \<and> es \<noteq> []"
proof -
  let ?D = "path_elems d" and ?T = "path_elems t"
  have nd: "\<forall>x \<in> set ?D. CHR ''/'' \<notin> set x" and nt: "\<forall>x \<in> set ?T. CHR ''/'' \<notin> set x"
    using abs_plain [OF a(1)] abs_plain [OF a(2)] by (auto simp: plain_name_def)
  obtain u where "path_of True ?T = path_of True ?D @ ''/'' @ u" using p a by (auto simp: abs_path_of prefix_def)
  then have u: "join ''/'' ?T = join ''/'' ?D @ CHR ''/'' # u" by (simp add: path_of_def)
  then have ne: "?T \<noteq> []" by auto
  show ?thesis
  proof (cases "?D = []")
    case True
    then show ?thesis using ne by simp
  next
    case False
    have "?T = split_on (CHR ''/'') (join ''/'' ?T)" using split_on_join [OF ne nt] by simp
    also have "\<dots> = ?D @ split_on (CHR ''/'') u" using u split_on_join [OF False nd] by (simp add: split_on_snoc_sep)
    finally show ?thesis by (metis split_on_ne)
  qed
qed

subsection \<open>A directory with no way out\<close>

text \<open>No links in it, no file in it has a name outside, and the numbers of new files are new.\<close>

definition enclosed :: "host_fs \<Rightarrow> string list \<Rightarrow> bool" where
  "enclosed fs D \<longleftrightarrow> real_dir fs D \<and> (\<forall>l t. prefix D l \<longrightarrow> inode_at fs l \<noteq> Some (ILink t)) \<and>
     (\<forall>l l' n. prefix D l \<longrightarrow> inode_at fs l = Some (IFile n) \<longrightarrow> inode_at fs l' = Some (IFile n) \<longrightarrow> prefix D l') \<and>
     (\<forall>l n. inode_at fs l = Some (IFile n) \<longrightarrow> n < hf_next fs)"

text \<open>What is outside stays as it was.\<close>

definition unchanged_outside :: "string list \<Rightarrow> host_fs \<Rightarrow> host_fs \<Rightarrow> bool" where
  "unchanged_outside D fs fs' \<longleftrightarrow>
     (\<forall>l. \<not> prefix D l \<longrightarrow> inode_at fs' l = inode_at fs l \<and> (\<forall>n. inode_at fs l = Some (IFile n) \<longrightarrow> file_of fs' n = file_of fs n))"

definition inside_step :: "string list \<Rightarrow> host_fs \<Rightarrow> host_fs \<Rightarrow> bool" where
  "inside_step D fs fs' \<longleftrightarrow> enclosed fs' D \<and> unchanged_outside D fs fs'"

lemma inside_refl: "enclosed fs D \<Longrightarrow> inside_step D fs fs"
  by (simp add: inside_step_def unchanged_outside_def)

lemma inside_trans: "inside_step D fs fs1 \<Longrightarrow> inside_step D fs1 fs2 \<Longrightarrow> inside_step D fs fs2"
  unfolding inside_step_def unchanged_outside_def by metis

lemma follow_linkless:
  assumes "\<forall>l t. prefix D l \<longrightarrow> inode_at fs l \<noteq> Some (ILink t)"
  shows "prefix D at \<Longrightarrow> \<forall>x \<in> set es. plain_name x \<Longrightarrow> follow n fs b at es = Inr l \<Longrightarrow> l = at @ es"
proof (induction es arbitrary: at)
  case (Cons x es)
  have x: "x \<noteq> []" "x \<noteq> ''.''" "x \<noteq> ''..''" using Cons.prems(2) by (simp_all add: plain_name_def)
  have p: "prefix D (at @ [x])" using Cons.prems(1) by simp
  then have "l = at @ [x] \<and> es = [] \<or> follow n fs b (at @ [x]) es = Inr l"
    using Cons.prems(3) x assms by (auto split: option.splits inode.splits if_splits)
  then show ?case using Cons.IH [OF p] Cons.prems(2) by auto
qed simp

lemma enclosed_path:
  assumes "enclosed fs D" and "\<forall>x \<in> set es. plain_name x" and "lk_path fs b (path_of True (D @ es)) = Inr l"
  shows "l = D @ es"
proof -
  have r: "real_dir fs D" and n: "\<forall>l t. prefix D l \<longrightarrow> inode_at fs l \<noteq> Some (ILink t)" using assms(1) by (auto simp: enclosed_def)
  have "\<forall>x \<in> set (D @ es). plain_name x" using r assms(2) by (auto simp: real_dir_def)
  then have "follow 40 fs b D es = Inr l" using assms(3) follow_real [OF r] by (simp add: lk_path_of)
  then show ?thesis using follow_linkless [OF n] assms(2) by simp
qed

lemma inside_dir:
  assumes e: "enclosed fs D" and p: "prefix D l" and n: "inode_at fs l = None"
  shows "inside_step D fs (set_node l IDir fs)"
proof -
  have l: "l \<noteq> []" using n by (auto simp: inode_at_def)
  have "real_dir (set_node l IDir fs) D" using grows_real_dir [OF grows_set_node [OF n]] e by (auto simp: enclosed_def)
  then show ?thesis using e p by (auto simp: inside_step_def unchanged_outside_def enclosed_def inode_set_node [OF l] split: if_splits)
qed

lemma inside_file:
  assumes e: "enclosed fs D" and p: "prefix D l" and w: "lk_path fs True q = Inr l" and r: "lk_WriteFile deny q m d fs = (r, fs')"
  shows "inside_step D fs fs'"
proof (cases "inode_at fs l")
  case None
  have l: "l \<noteq> []" using None by (auto simp: inode_at_def)
  have g: "real_dir fs' D" using grows_real_dir [OF grows_WriteFile [OF r]] e by (auto simp: enclosed_def)
  have f: "\<And>l n. inode_at fs l = Some (IFile n) \<Longrightarrow> n < hf_next fs" using e by (simp add: enclosed_def)
  have "fs' = fs \<or> fs' = set_node l (IFile (hf_next fs)) (set_file (hf_next fs) (m, d) (fs\<lparr>hf_next := Suc (hf_next fs)\<rparr>))" (is "_ \<or> fs' = ?n")
    using r w None by (auto simp: lk_WriteFile_def split: if_splits)
  moreover have "inside_step D fs ?n" if "fs' = ?n"
  proof -
    have "hf_next fs \<noteq> n" if "inode_at fs l' = Some (IFile n)" for l' n using f [OF that] by simp
    then have "enclosed ?n D" using e g that p f unfolding enclosed_def
      by (auto simp: inode_set_node [OF l] less_Suc_eq split: if_splits)
    moreover have "unchanged_outside D fs ?n" using p f by (fastforce simp: unchanged_outside_def inode_set_node [OF l] file_set_file)
    ultimately show ?thesis by (simp add: inside_step_def)
  qed
  ultimately show ?thesis using inside_refl [OF e] by blast
next
  case (Some i)
  then have "fs' = fs \<or> (\<exists>n f. i = IFile n \<and> fs' = set_file n f fs)"
    using r w by (cases i) (auto simp: lk_WriteFile_def split: if_splits)
  moreover have "inside_step D fs (set_file n f fs)" if "i = IFile n" for n f
    using e that Some p unfolding inside_step_def enclosed_def unchanged_outside_def real_dir_def inode_set_file
    by (auto simp: file_set_file)
  ultimately show ?thesis using inside_refl [OF e] by auto
qed

lemma inside_Mkdir:
  assumes e: "enclosed fs D" and q: "prefix q D \<or> prefix D q" and n: "\<forall>x \<in> set q. plain_name x" and m: "lk_Mkdir deny (path_of True q) fs = (r, fs')"
  shows "inside_step D fs fs'"
proof (cases "prefix q D")
  case True
  then obtain zs where D: "D = q @ zs" by (auto simp: prefix_def)
  have "inode_at fs (take k q) = Some IDir" for k
    by (rule real_dir_prefix [OF _ prefix_order.trans [OF take_is_prefix True]]) (use e in \<open>simp add: enclosed_def\<close>)
  then have "real_dir fs q" using n by (simp add: real_dir_def)
  then have "fs' = fs" using m look_real [of fs q False] real_dir_at [of fs q] by (auto simp: lk_Mkdir_def split: if_splits)
  then show ?thesis using inside_refl [OF e] by simp
next
  case False
  then obtain es where es: "q = D @ es" using q by (auto simp: prefix_def)
  have "fs' = fs \<or> inode_at fs q = None \<and> fs' = set_node q IDir fs"
    using m enclosed_path [OF e, of es False] n by (auto simp: lk_Mkdir_def es split: if_splits sum.splits)
  then show ?thesis using inside_refl [OF e] inside_dir [OF e, of q] by (auto simp: es)
qed

lemma inside_steps:
  "enclosed fs D \<Longrightarrow> \<forall>q \<in> set qs. (prefix q D \<or> prefix D q) \<and> (\<forall>x \<in> set q. plain_name x) \<Longrightarrow>
   mkdir_steps deny (map (path_of True) qs) fs = (r, fs') \<Longrightarrow> inside_step D fs fs'"
proof (induction qs arbitrary: fs)
  case Nil
  then show ?case using inside_refl by simp
next
  case (Cons q qs)
  show ?case
  proof (cases "lk_Stat deny (path_of True q) fs")
    case (Inl x)
    obtain r1 fs1 where m: "lk_Mkdir deny (path_of True q) fs = (r1, fs1)" by fastforce
    have i: "inside_step D fs fs1" by (rule inside_Mkdir [OF Cons.prems(1) _ _ m]) (use Cons.prems(2) in auto)
    then have "enclosed fs1 D" by (simp add: inside_step_def)
    then show ?thesis using Cons.prems Inl m i Cons.IH [of fs1] inside_trans [OF i] by (cases r1) auto
  next
    case (Inr j)
    then show ?thesis using Cons.prems Cons.IH [of fs] inside_refl [OF Cons.prems(1)] by (cases j) auto
  qed
qed

lemma inside_MkdirAll:
  assumes e: "enclosed fs D" and T: "path_elems p = D @ es" "path_IsAbs p" and m: "lk_MkdirAll deny p fs = (r, fs')"
  shows "inside_step D fs fs'"
proof (rule inside_steps [OF e])
  let ?qs = "map (\<lambda>k. take k (D @ es)) [1..<Suc (length (D @ es))]"
  show "mkdir_steps deny (map (path_of True) ?qs) fs = (r, fs')" using m by (simp add: lk_MkdirAll_def T(1) comp_def)
  have "prefix (take k (D @ es)) D \<or> prefix D (take k (D @ es))" for k
    by (rule prefix_same_cases [OF take_is_prefix [of k "D @ es"]]) simp_all
  then show "\<forall>q \<in> set ?qs. (prefix q D \<or> prefix D q) \<and> (\<forall>x \<in> set q. plain_name x)"
    using abs_plain [OF T(2)] T(1) by (auto dest: in_set_takeD)
qed

lemma inside_WriteFile:
  assumes e: "enclosed fs D" and T: "path_elems p = D @ es" "path_IsAbs p" "path_Clean p = p" and w: "lk_WriteFile deny p m d fs = (r, fs')"
  shows "inside_step D fs fs'"
proof (cases "lk_path fs True p")
  case (Inl x)
  then show ?thesis using w inside_refl [OF e] by (auto simp: lk_WriteFile_def split: if_splits)
next
  case (Inr l)
  have "p = path_of True (D @ es)" using abs_path_of [OF T(2)] T(1,3) by simp
  then have "l = D @ es" using enclosed_path [OF e _, of es True l] Inr abs_plain [OF T(2)] T(1) by auto
  then show ?thesis using inside_file [OF e _ Inr w] by simp
qed

lemma inside_unpack_step:
  assumes e: "enclosed fs (path_elems dest)" and a: "path_IsAbs dest" and t: "it_Type x \<notin> {TSymlink, TLink}" and u: "unpack_step deny dest x fs = (r, fs')"
  shows "inside_step (path_elems dest) fs fs'"
proof (cases "prefix (path_Clean dest @ ''/'') (path_Clean (path_Join [dest, it_Name x]))")
  case False
  then show ?thesis using u inside_refl [OF e] by (simp add: unpack_step_def)
next
  case True
  let ?t = "path_Join [dest, it_Name x]" and ?D = "path_elems dest"
  have c: "path_Clean ?t = ?t" using Join_clean [OF abs_nonempty [OF a]] .
  have at: "path_IsAbs ?t" using True abs_Clean [OF a] c by (metis path_IsAbs_def prefix_order.trans prefix_prefix)
  obtain es where es: "path_elems ?t = ?D @ es" "es \<noteq> []" using prefix_below [OF a at True] by blast
  have "loc_of (path_Dir ?t) = parent (loc_of ?t)" using loc_Dir [of ?t] at c by (simp add: loc_of_def path_IsAbs_def)
  then have d: "path_IsAbs (path_Dir ?t)" "path_elems (path_Dir ?t) = ?D @ butlast es"
    using at es by (auto simp: loc_of_def parent_def path_IsAbs_def butlast_append)
  obtain r1 fs1 where m: "lk_MkdirAll deny (path_Dir ?t) fs = (r1, fs1)" by fastforce
  have i1: "inside_step ?D fs fs1" by (rule inside_MkdirAll [OF e d(2,1) m])
  have i2: "inside_step ?D fs fs2" if "lk_WriteFile deny ?t w v fs1 = (r2, fs2)" for r2 w v fs2
    using inside_trans [OF i1 inside_WriteFile [OF _ es(1) at c that]] i1 by (simp add: inside_step_def)
  have i3: "inside_step ?D fs fs2" if "lk_MkdirAll deny ?t fs = (r2, fs2)" for r2 fs2
    by (rule inside_MkdirAll [OF e es(1) at that])
  show ?thesis using u t True i1 i2 i3 m inside_refl [OF e] unfolding unpack_step_def Let_def
    by (auto split: itar_type.splits prod.splits sum.splits)
qed

text \<open>
  Claim C15. Unpacking an archive without link entries into a directory without links leaves everything outside of
  this directory as it was: no name appears, goes away or leads to another thing, and no file changes its contents,
  whatever the names of the entries are, and however the unpacking ends.
\<close>

theorem unpack_stays_inside:
  assumes a: "path_IsAbs dest" and e: "enclosed fs (path_elems dest)"
    and t: "\<forall>x \<in> set entries. it_Type x \<noteq> TSymlink \<and> it_Type x \<noteq> TLink"
    and u: "extractTarStream deny dest entries ends fs = (r, fs')"
  shows "\<forall>l. \<not> prefix (path_elems dest) l \<longrightarrow>
     inode_at fs' l = inode_at fs l \<and> (\<forall>n. inode_at fs l = Some (IFile n) \<longrightarrow> file_of fs' n = file_of fs n)"
proof -
  have "inside_step (path_elems dest) fs fs'" using e t u
  proof (induction entries arbitrary: fs)
    case Nil
    then show ?case using inside_refl by simp
  next
    case (Cons x entries)
    obtain r1 fs1 where s: "unpack_step deny dest x fs = (r1, fs1)" by fastforce
    have i: "inside_step (path_elems dest) fs fs1" by (rule inside_unpack_step [OF Cons.prems(1) a _ s]) (use Cons.prems(2) in simp)
    then have "enclosed fs1 (path_elems dest)" by (simp add: inside_step_def)
    then show ?case using Cons.prems(2,3) s i Cons.IH [of fs1] inside_trans [OF i] by (cases r1) auto
  qed
  then show ?thesis by (simp add: inside_step_def unchanged_outside_def)
qed

text \<open>A directory for an image, beside a file of the host.\<close>

definition unpack_fs :: host_fs where
  "unpack_fs = \<lparr>hf_nodes = [([''t''], IDir), ([''etc''], IDir), ([''etc'', ''passwd''], IFile 0)], hf_files = [(0, 0x1A4, ''root'')], hf_next = 1\<rparr>"

definition regular :: "string \<Rightarrow> string \<Rightarrow> itar_entry" where
  "regular x d = \<lparr>it_Name = x, it_Linkname = [], it_Mode = 0x1A4, it_Type = TReg, it_Data = d\<rparr>"

lemma unpack_fs_cases: "inode_at unpack_fs l = Some i \<Longrightarrow> l = [] \<and> i = IDir \<or> l = [''t''] \<and> i = IDir \<or> l = [''etc''] \<and> i = IDir \<or> l = [''etc'', ''passwd''] \<and> i = IFile 0"
  by (auto simp: inode_at_def unpack_fs_def split: if_splits)

lemma unpack_fs_enclosed: "enclosed unpack_fs (path_elems ''/t'')"
proof -
  have e: "path_elems ''/t'' = [''t'']" by code_simp
  have n: "inode_at unpack_fs [] = Some IDir" "inode_at unpack_fs [''t''] = Some IDir" by code_simp+
  have "inode_at unpack_fs (take k [''t'']) = Some IDir" for k using n by (cases k) auto
  then have "real_dir unpack_fs [''t'']" by (simp add: real_dir_def plain_name_def)
  moreover have "hf_next unpack_fs = 1" by code_simp
  ultimately show ?thesis unfolding enclosed_def e by (auto dest!: unpack_fs_cases)
qed

theorem unpack_stays_inside_witness:
  "let (r, fs') = extractTarStream (\<lambda>_ _. False) ''/t'' [regular ''../etc/passwd'' ''x'', regular ''a'' ''1''] True unpack_fs
   in r = Inr () \<and> inode_at fs' [''t'', ''a''] = Some (IFile 1) \<and> inode_at fs' [''etc'', ''passwd''] = Some (IFile 0) \<and> file_of fs' 0 = (0x1A4, ''root'')"
proof -
  let ?x = "extractTarStream (\<lambda>_ _. False) ''/t'' [regular ''../etc/passwd'' ''x'', regular ''a'' ''1''] True unpack_fs"
  have e: "path_elems ''/t'' = [''t'']" and a: "path_IsAbs ''/t''" and r: "fst ?x = Inr ()" "inode_at (snd ?x) [''t'', ''a''] = Some (IFile 1)" by code_simp+
  have n: "inode_at unpack_fs [''etc'', ''passwd''] = Some (IFile 0)" "file_of unpack_fs 0 = (0x1A4, ''root'')" by code_simp+
  have "\<not> prefix (path_elems ''/t'') [''etc'', ''passwd'']" by (simp add: e)
  then have "inode_at (snd ?x) [''etc'', ''passwd''] = Some (IFile 0) \<and> file_of (snd ?x) 0 = (0x1A4, ''root'')"
    using unpack_stays_inside [OF a unpack_fs_enclosed, where r = "fst ?x" and fs' = "snd ?x" and deny = "\<lambda>_ _. False" and ends = True
        and entries = "[regular ''../etc/passwd'' ''x'', regular ''a'' ''1'']"] n
    by (simp add: regular_def)
  then show ?thesis using r by (simp add: case_prod_beta)
qed

subsection \<open>Links lead out\<close>

text \<open>A symbolic link of the archive is followed by later entries.\<close>

lemma symlink_escapes:
  "let (r, fs') = extractTarStream (\<lambda>_ _. False) ''/t'' [(regular ''a'' [])\<lparr>it_Type := TSymlink, it_Linkname := ''/etc''\<rparr>, regular ''a/passwd'' ''x''] True unpack_fs
   in r = Inr () \<and> inode_at fs' [''etc'', ''passwd''] = Some (IFile 0) \<and> file_of fs' 0 = (0x1A4, ''x'')"
  by code_simp

text \<open>The target of a hard link is not checked: a file of the host gets a name in the image, and is then overwritten.\<close>

lemma hardlink_escapes:
  "let (r, fs') = extractTarStream (\<lambda>_ _. False) ''/t'' [(regular ''a'' [])\<lparr>it_Type := TLink, it_Linkname := ''../etc/passwd''\<rparr>, regular ''a'' ''x''] True unpack_fs
   in r = Inr () \<and> inode_at fs' [''etc'', ''passwd''] = Some (IFile 0) \<and> file_of fs' 0 = (0x1A4, ''x'')"
  by code_simp

text \<open>
  The injection follows links of the image as well: with \<open>/sbin/tini\<close> a link to a file of the host that cannot be
  executed, this file is overwritten with the binary.
\<close>

lemma injection_escapes:
  "let fs = set_node [''t'', ''bin''] IDir (set_node [''t'', ''sbin''] IDir (set_node [''t'', ''sbin'', ''tini''] (ILink ''/etc/passwd'') unpack_fs));
       (r, fs') = InjectIntoDir boot_env boot_init ''/t'' None fs
   in r = Inr () \<and> inode_at fs' [''etc'', ''passwd''] = Some (IFile 0) \<and> file_of fs' 0 = (0x1A4, ''ELF'')"
  by code_simp

end
