(* ===== verification/Image_Prepare_Correct.thy ===== *)
theory Image_Prepare_Correct
  imports Image_Prepare Image_Unpack
begin

text \<open>
  The preparation of images: what the image of the root file system is made from, images that are never prepared,
  and what the cleanup removes.
\<close>

unbundle bit_operations_syntax

subsection \<open>Steps that only add\<close>

lemma grows_Link: "lk_Link deny old new fs = (r, fs') \<Longrightarrow> grows fs fs'"
  by (auto simp: lk_Link_def grows_set_node split: if_splits sum.splits inode.splits)

lemma grows_unpack_step: "unpack_step deny dest e fs = (r, fs') \<Longrightarrow> grows fs fs'"
proof -
  let ?t = "path_Join [dest, it_Name e]"
  obtain r1 fs1 where m: "lk_MkdirAll deny ?t fs = (r1, fs1)" by fastforce
  obtain r2 fs2 where d: "lk_MkdirAll deny (path_Dir ?t) fs = (r2, fs2)" by fastforce
  obtain r3 fs3 where w: "lk_WriteFile deny ?t (it_Mode e AND 0x1FF) (it_Data e) fs2 = (r3, fs3)" by fastforce
  obtain r4 fs4 where s: "lk_Symlink deny (it_Linkname e) ?t fs = (r4, fs4)" by fastforce
  obtain r5 fs5 where h: "lk_Link deny (path_Join [dest, it_Linkname e]) ?t fs = (r5, fs5)" by fastforce
  have g: "grows fs fs1" "grows fs fs2" "grows fs fs3" "grows fs fs4" "grows fs fs5"
    using grows_MkdirAll [OF m] grows_MkdirAll [OF d] grows_trans [OF grows_MkdirAll [OF d] grows_WriteFile [OF w]] grows_Symlink [OF s] grows_Link [OF h]
    by simp_all
  show "unpack_step deny dest e fs = (r, fs') \<Longrightarrow> grows fs fs'"
    using g m d w s h unfolding unpack_step_def Let_def by (cases "it_Type e"; cases r1; cases r2; cases r3) (auto split: if_splits)
qed

lemma grows_extract: "extractTarStream deny dest es ends fs = (r, fs') \<Longrightarrow> grows fs fs'"
proof (induction es arbitrary: fs)
  case (Cons e es)
  obtain r1 fs1 where u: "unpack_step deny dest e fs = (r1, fs1)" by fastforce
  then show ?case using Cons grows_unpack_step [OF u] grows_trans by (cases r1) auto
qed simp

lemma growing_write_missing: "growing (write_missing deny p m d)"
proof -
  have "growing (seq_steps [mkdir_at deny (path_Dir p), write_at deny p m d])" by (rule growing_seq) simp
  then show ?thesis unfolding growing_def write_missing_def by (auto split: sum.splits)
qed

lemma growing_ignoring: "growing f \<Longrightarrow> growing (ignoring f)"
  by (simp add: growing_def ignoring_def)

lemma growing_essential_dir: "growing (essential_dir deny tmp d)"
  unfolding growing_def essential_dir_def Let_def using grows_MkdirAll by (auto split: sum.splits prod.splits)

lemma growing_Nsswitch: "growing (injectNsswitch env tmp)"
  using growing_write_missing unfolding growing_def injectNsswitch_def Let_def by auto

lemma growing_essentials: "growing (injectEssentialFiles env tmp i)"
  unfolding injectEssentialFiles_def injectResolvConf_def injectHosts_def injectMachineID_def createEssentialDirs_def
  using growing_essential_dir growing_Nsswitch growing_write_missing
  by (intro growing_seq) (auto intro!: growing_seq growing_ignoring)

lemma growing_unless: "growing f \<Longrightarrow> growing (\<lambda>fs. unless_there (b fs) f fs)"
  by (simp add: growing_def unless_there_def)

lemma growing_network_steps: "growing (seq_steps (network_steps deny dir))"
  unfolding network_steps_def Let_def by (rule growing_seq) (simp add: growing_unless)

lemma growing_network: "growing (injectNetworkConfig env dir)"
  unfolding growing_def
proof
  fix fs
  have "grows fs (snd (seq_steps (network_steps (ie_deny env) dir) fs))" using growing_network_steps by (simp add: growing_def)
  then show "grows fs (snd (injectNetworkConfig env dir fs))" by (simp add: injectNetworkConfig_def Let_def split: sum.splits)
qed

subsection \<open>The size of the image\<close>

lemma ext4_blocks_enough: "4096 * ext4_blocks n \<ge> n" and ext4_blocks_tight: "4096 * ext4_blocks n < n + 4096"
  using mult_div_mod_eq [of 4096 "n + 4095"] pos_mod_sign [of 4096 "n + 4095"] pos_mod_bound [of 4096 "n + 4095"]
  unfolding ext4_blocks_def by linarith+

lemma ext4_total_bounds: "0 \<le> n \<Longrightarrow> 2 * ext4_total n 50 \<ge> 3 * n - 1" "ext4_total n 50 \<ge> 104857600"
  unfolding ext4_total_def Let_def by (auto split: if_splits)

lemma getDirSize_nonneg: "0 \<le> getDirSize fs d"
  unfolding getDirSize_def by (rule sum_list_nonneg) (auto simp: inode_size_def split: option.splits inode.splits)

lemma createExt4Image_ok:
  assumes "createExt4Image env src out fs = (Inr u, fs')"
  shows "\<exists>o1. pe_run env (mkfs_command src out (ext4_inode_ratio (getDirSize fs (path_elems src)) (ext4_total (getDirSize fs (path_elems src)) 50))
       (ext4_blocks (ext4_total (getDirSize fs (path_elems src)) 50))) fs = ((True, o1), fs')"
  using assms unfolding createExt4Image_def createExt4ImageWithOverhead_def Let_def
  by (auto split: if_splits sum.splits option.splits prod.splits bool.splits)

subsection \<open>The image that is made\<close>

text \<open>
  What is used of the environment: a temporary directory is a new name in a real directory; and the commands that export
  a container and unpack its archive into a directory leave that directory in its place.
\<close>

definition temp_in :: "prep_env \<Rightarrow> string \<Rightarrow> host_fs \<Rightarrow> bool" where
  "temp_in env T fs \<longleftrightarrow> path_IsAbs T \<and> real_dir fs (path_elems T) \<and> (\<exists>x. plain_name x \<and> pe_temp env ''swarmcracker-extract-'' fs = path_Join [T, x])"

definition export_command :: "string \<Rightarrow> string list \<Rightarrow> bool" where
  "export_command dest c \<longleftrightarrow>
     (\<exists>rt x. rt \<in> {''docker'', ''podman''} \<and>
        c \<in> {[rt, ''create'', ''--quiet'', x, ''/bin/true''], [rt, ''export'', x, ''-o'', path_Join [dest, ''fs.tar'']], [rt, ''rm'', ''-f'', x]}) \<or>
     c = [''tar'', ''xf'', path_Join [dest, ''fs.tar''], ''-C'', dest]"

definition export_keeps :: "prep_env \<Rightarrow> string \<Rightarrow> bool" where
  "export_keeps env dest \<longleftrightarrow>
     (\<forall>c fs. export_command dest c \<longrightarrow> real_dir fs (path_elems dest) \<longrightarrow> real_dir (snd (pe_run env c fs)) (path_elems dest))"

lemma mkdir_temp_real:
  assumes t: "temp_in env T fs" and m: "mkdir_temp env ''swarmcracker-extract-'' fs = (Some tmp, fs1)"
  shows "path_IsAbs tmp" and "real_dir fs1 (path_elems tmp)" and "tmp = pe_temp env ''swarmcracker-extract-'' fs"
proof -
  obtain x where T: "path_IsAbs T" "real_dir fs (path_elems T)" and x: "plain_name x" "pe_temp env ''swarmcracker-extract-'' fs = path_Join [T, x]"
    using t by (auto simp: temp_in_def)
  show tmp: "tmp = pe_temp env ''swarmcracker-extract-'' fs" using m by (auto simp: mkdir_temp_def Let_def split: prod.splits sum.splits)
  show "path_IsAbs tmp" using path_Join_child(2) [OF T(1) x(1)] by (simp add: tmp x(2))
  have el: "path_elems tmp = path_elems T @ [x]" using path_Join_child(3) [OF T(1) x(1)] by (simp add: tmp x(2))
  have lp: "lk_path fs False (path_Join [T, x]) = Inr (path_elems T @ [x])" by (rule lk_path_entry [OF T(1) x(1) T(2)]) simp
  have mk: "lk_Mkdir (pe_deny env) (path_Join [T, x]) fs = (Inr (), fs1)" using m x(2) by (auto simp: mkdir_temp_def Let_def split: prod.splits sum.splits)
  then have "inode_at fs1 (path_elems T @ [x]) = Some IDir" using lp by (auto simp: lk_Mkdir_def inode_set_node split: if_splits)
  then show "real_dir fs1 (path_elems tmp)" using real_dir_child [OF grows_real_dir [OF grows_Mkdir [OF mk] T(2)]] x(1) el by simp
qed

lemma Remove_real_dir: "lk_Remove deny p fs = (r, fs') \<Longrightarrow> real_dir fs d \<Longrightarrow> lk_path fs False p = Inr l \<Longrightarrow> \<not> prefix l d \<Longrightarrow> real_dir fs' d"
proof -
  assume r: "lk_Remove deny p fs = (r, fs')" and d: "real_dir fs d" and l: "lk_path fs False p = Inr l" and n: "\<not> prefix l d"
  have "inode_at fs' (take k d) = inode_at fs (take k d)" for k
    using Remove_keeps(1) [OF r l] n prefix_order.trans [OF _ take_is_prefix [of k d]] by blast
  then show "real_dir fs' d" using d by (simp add: real_dir_def)
qed

lemma cli_keeps:
  assumes k: "export_keeps env dest" and a: "path_IsAbs dest" and r: "real_dir fs (path_elems dest)"
  shows "real_dir (snd (extractWithDockerCLI env ref dest fs)) (path_elems dest)"
proof -
  let ?D = "path_elems dest" and ?t = "path_Join [dest, ''fs.tar'']"
  have x: "plain_name ''fs.tar''" by (simp add: plain_name_def)
  have k1: "real_dir fs2 ?D" if "pe_run env c fs1 = (b, fs2)" "export_command dest c" "real_dir fs1 ?D" for c b fs1 fs2
    using k that unfolding export_keeps_def by (metis snd_conv)
  have n: "\<not> prefix (?D @ [''fs.tar'']) ?D" using prefix_length_le by fastforce
  have k2: "real_dir (snd (lk_Remove (pe_deny env) ?t fs1)) ?D" if "real_dir fs1 ?D" for fs1
  proof -
    obtain r1 fs2 where rm: "lk_Remove (pe_deny env) ?t fs1 = (r1, fs2)" by fastforce
    have "lk_path fs1 False ?t = Inr (?D @ [''fs.tar''])" by (rule lk_path_entry [OF a x that]) simp
    then show ?thesis using Remove_real_dir [OF rm that _ n] rm by simp
  qed
  let ?rt = "if pe_look env ''docker'' then ''docker'' else ''podman''"
  have c: "export_command dest [?rt, ''create'', ''--quiet'', i, ''/bin/true'']" "export_command dest [?rt, ''export'', i, ''-o'', ?t]"
      "export_command dest [?rt, ''rm'', ''-f'', i]" "export_command dest [''tar'', ''xf'', ?t, ''-C'', dest]" for i
    by (auto simp: export_command_def)
  have k3: "real_dir (snd (pe_run env [?rt, ''rm'', ''-f'', i] fs1)) ?D" if "real_dir fs1 ?D" for i fs1
    using k that c(3) unfolding export_keeps_def by blast
  obtain ok1 out1 fs1 where 1: "pe_run env [?rt, ''create'', ''--quiet'', ref, ''/bin/true''] fs = ((ok1, out1), fs1)" by (metis surj_pair)
  let ?id = "trim_space (last (split_on (CHR 0x0A) (trim_space out1)))"
  obtain ok2 out2 fs2 where 2: "pe_run env [?rt, ''export'', ?id, ''-o'', ?t] fs1 = ((ok2, out2), fs2)" by (metis surj_pair)
  obtain ok3 out3 fs3 where 3: "pe_run env [''tar'', ''xf'', ?t, ''-C'', dest] fs2 = ((ok3, out3), fs3)" by (metis surj_pair)
  have d: "real_dir fs1 ?D" "real_dir fs2 ?D" "real_dir fs3 ?D" using k1 [OF 1 c(1) r] k1 [OF 2 c(2)] k1 [OF 3 c(4)] by simp_all
  show ?thesis unfolding extractWithDockerCLI_def Let_def 1 2 3 prod.case by (simp add: d k2 k3 del: if_cancel)
qed

lemma try_cli_keeps:
  assumes k: "export_keeps env dest" and a: "path_IsAbs dest"
  shows "real_dir fs (path_elems dest) \<Longrightarrow> real_dir (snd (try_cli env ms ref dest fs)) (path_elems dest)"
proof (induction ms arbitrary: fs)
  case (Cons m ms)
  obtain r fs1 where e: "extractWithDockerCLI env ref dest fs = (r, fs1)" by fastforce
  then have "real_dir fs1 (path_elems dest)" using cli_keeps [OF k a Cons.prems, of ref] by simp
  then show ?case using Cons e by (cases r) auto
qed simp

lemma extract_keeps:
  assumes k: "export_keeps env dest" and a: "path_IsAbs dest" and r: "real_dir fs (path_elems dest)"
    and e: "extractOCIImage env auth ref dest info fs = (res, info', fs')"
  shows "real_dir fs' (path_elems dest)"
proof -
  obtain r1 info1 fs1 where g: "extractWithGGCR env auth ref dest info fs = (r1, info1, fs1)" by (metis prod_cases3)
  have "grows fs fs1" using g grows_extract unfolding extractWithGGCR_def Let_def
    by (auto split: if_splits option.splits prod.splits sum.splits)
  then have "real_dir fs1 (path_elems dest)" using r by (rule grows_real_dir)
  then show ?thesis using try_cli_keeps [OF k a, of fs1 "[''docker'', ''podman'']" ref] e g unfolding extractOCIImage_def
    by (auto split: sum.splits prod.splits simp del: try_cli.simps)
qed

lemma finish_rootfs_ok:
  assumes a: "path_IsAbs tmp" and r: "real_dir fs (path_elems tmp)" and f: "finish_rootfs env ii info imageID tmp out fs = (Inr u, fs')"
  obtains fs1 where "init_IsEnabled ii \<longrightarrow> inode_at fs1 (path_elems tmp @ [''init'']) = Some (ILink ''/sbin/init'')"
    and "createExt4Image env tmp out fs1 = (Inr (), fs')"
proof -
  obtain fs1 fs2 where i: "init_IsEnabled ii \<longrightarrow> InjectIntoDir (pe_img env) ii tmp info fs = (Inr (), fs1)"
      and s: "injectEssentialFiles (pe_img env) tmp imageID fs1 = (Inr (), fs2)"
      and c: "createExt4Image env tmp out (snd (injectNetworkConfig (pe_img env) tmp fs2)) = (Inr (), fs')"
    using f unfolding finish_rootfs_def by (auto split: sum.splits prod.splits if_splits)
  have "grows fs1 fs2" using growing_essentials s unfolding growing_def by (metis snd_conv)
  then have "grows fs1 (snd (injectNetworkConfig (pe_img env) tmp fs2))"
    using growing_network grows_trans unfolding growing_def by blast
  then show thesis using that [OF _ c] growsD inject_boots [OF _ a r] i by blast
qed

lemma prepareImage_ok:
  assumes p: "prepareImage env ip ref imageID out fs = (Inr u, ip', fs')"
  obtains fs1 info fs2 fs3 where "mkdir_temp env ''swarmcracker-extract-'' fs = (Some (pe_temp env ''swarmcracker-extract-'' fs), fs1)"
    and "extractOCIImage env (pc_RegistryAuth (ip_config ip)) ref (pe_temp env ''swarmcracker-extract-'' fs) (ip_ociInfo ip) fs1 = (Inr (), info, fs2)"
    and "finish_rootfs env (ip_init ip) info imageID (pe_temp env ''swarmcracker-extract-'' fs) out fs2 = (Inr (), fs3)"
    and "fs' = lk_RemoveAll (pe_deny env) (pe_temp env ''swarmcracker-extract-'' fs) fs3"
proof -
  obtain otmp fs1 where m: "mkdir_temp env ''swarmcracker-extract-'' fs = (otmp, fs1)" by fastforce
  then obtain tmp where o: "otmp = Some tmp" using p by (cases otmp) (simp_all add: prepareImage_def)
  then have tmp: "tmp = pe_temp env ''swarmcracker-extract-'' fs" using m by (auto simp: mkdir_temp_def Let_def split: prod.splits sum.splits)
  obtain r1 info fs2 where x: "extractOCIImage env (pc_RegistryAuth (ip_config ip)) ref tmp (ip_ociInfo ip) fs1 = (r1, info, fs2)" by (metis prod_cases3)
  obtain r2 fs3 where f: "finish_rootfs env (ip_init ip) info imageID tmp out fs2 = (r2, fs3)" by fastforce
  show thesis using p m o tmp x f that by (cases r1) (auto simp: prepareImage_def split: sum.splits)
qed

text \<open>
  Claim C14. The image of a root file system is large enough, and with an init system it is made from a directory that
  boots. When the preparation of an image succeeds, \<open>mkfs.ext4\<close> succeeded last on the temporary directory: the blocks it
  was told to use hold at least 100 MiB and half as much again as the files of the directory. When an init system is
  enabled, so when it is not \<open>none\<close>, \<open>/init\<close> was at that time the link to \<open>/sbin/init\<close>. The temporary directory is a new
  name in a real directory; the commands of docker or podman that export a container, and \<open>tar\<close> that unpacks the archive
  into the temporary directory, leave the temporary directory in its place; and the walk that adds up the sizes of the
  files reaches all of them.
\<close>

theorem prepared_image_bootable:
  assumes t: "temp_in env T fs" and k: "export_keeps env (pe_temp env ''swarmcracker-extract-'' fs)"
    and p: "prepareImage env ip ref imageID out fs = (Inr u, ip', fs')"
  shows "\<exists>tmp fs1 fs2 ratio blocks o1. tmp = pe_temp env ''swarmcracker-extract-'' fs \<and>
     (init_IsEnabled (ip_init ip) \<longrightarrow> inode_at fs1 (path_elems tmp @ [''init'']) = Some (ILink ''/sbin/init'')) \<and>
     pe_run env (mkfs_command tmp out ratio blocks) fs1 = ((True, o1), fs2) \<and> fs' = lk_RemoveAll (pe_deny env) tmp fs2 \<and>
     4096 * blocks \<ge> 100 * 1024 * 1024 \<and> 2 * (4096 * blocks) \<ge> 3 * getDirSize fs1 (path_elems tmp) - 1"
proof -
  let ?tmp = "pe_temp env ''swarmcracker-extract-'' fs"
  obtain fs1 info fs2 fs3 where m: "mkdir_temp env ''swarmcracker-extract-'' fs = (Some ?tmp, fs1)"
      and x: "extractOCIImage env (pc_RegistryAuth (ip_config ip)) ref ?tmp (ip_ociInfo ip) fs1 = (Inr (), info, fs2)"
      and f: "finish_rootfs env (ip_init ip) info imageID ?tmp out fs2 = (Inr (), fs3)" and fs': "fs' = lk_RemoveAll (pe_deny env) ?tmp fs3"
    using p by (rule prepareImage_ok)
  note d = mkdir_temp_real(1,2) [OF t m]
  obtain fs4 where l: "init_IsEnabled (ip_init ip) \<longrightarrow> inode_at fs4 (path_elems ?tmp @ [''init'']) = Some (ILink ''/sbin/init'')"
      and c: "createExt4Image env ?tmp out fs4 = (Inr (), fs3)"
    by (rule finish_rootfs_ok [OF d(1) extract_keeps [OF k d x] f])
  let ?n = "getDirSize fs4 (path_elems ?tmp)"
  have "4096 * ext4_blocks (ext4_total ?n 50) \<ge> 100 * 1024 * 1024" "2 * (4096 * ext4_blocks (ext4_total ?n 50)) \<ge> 3 * ?n - 1"
    using ext4_blocks_enough [of "ext4_total ?n 50"] ext4_total_bounds(1) [OF getDirSize_nonneg [of fs4 "path_elems ?tmp"]] ext4_total_bounds(2) [of ?n] by linarith+
  then show ?thesis using l createExt4Image_ok [OF c] fs' by blast
qed

text \<open>A registry with one image, which has a shell and \<open>tini\<close>.\<close>

definition shell_image :: pulled_image where
  "shell_image = \<lparr>pi_config = None, pi_layers = True, pi_entries = [(regular ''bin/sh'' [])\<lparr>it_Mode := 0x1ED\<rparr>, (regular ''sbin/tini'' [])\<lparr>it_Mode := 0x1ED\<rparr>,
     regular ''etc/machine-id'' [], regular ''etc/hosts'' []], pi_ends = True\<rparr>"

definition prep_example :: prep_env where
  "prep_example = \<lparr>pe_img = boot_env, pe_GOARCH = ''amd64'', pe_parse = (\<lambda>_. True),
     pe_image = (\<lambda>_ _ ref. if ref = ''docker.io/library/a'' then Some shell_image else None),
     pe_look = (\<lambda>_. True), pe_run = (\<lambda>_ fs. ((True, []), fs)), pe_temp = (\<lambda>_ _. ''/t/x''), pe_avail = (\<lambda>_. None), pe_flock = (\<lambda>_. True), pe_wait = id\<rparr>"

definition prep_example_ip :: preparer where
  "prep_example_ip = fst (NewImagePreparer prep_example None True unpack_fs)"

lemma example_temp: "temp_in prep_example ''/t'' unpack_fs"
proof -
  have a: "path_IsAbs ''/t''" and x: "path_Join [''/t'', ''x''] = ''/t/x''" by code_simp+
  have "real_dir unpack_fs (path_elems ''/t'')" using unpack_fs_enclosed by (simp add: enclosed_def)
  moreover have "plain_name ''x''" by (simp add: plain_name_def)
  ultimately show ?thesis using a x by (auto simp: temp_in_def prep_example_def)
qed

lemma example_essentials:
  assumes "injectResolvConf env tmp fs = (Inr (), fs1)" and "injectHosts env tmp fs1 = (Inr (), fs2)" and "snd (injectNsswitch env tmp fs2) = fs3"
    and "lk_Stat (ie_deny env) (path_Join [tmp, ''etc'', ''machine-id'']) fs3 = Inr i"
  shows "injectEssentialFiles env tmp imageID fs = createEssentialDirs env tmp fs3"
  using assms by (simp add: injectEssentialFiles_def ignoring_def injectMachineID_def write_missing_def split: prod.splits sum.splits)

lemma example_makes_image:
  assumes "lk_Stat (pe_deny prep_example) (x # xs) fs = Inr i"
  shows "fst (createExt4Image prep_example (x # xs) (y # ys) fs) = Inr ()"
proof -
  have "pe_look prep_example p" "pe_avail prep_example d = None" "pe_run prep_example c fs = ((True, []), fs)" for p d c
    by (simp_all add: prep_example_def)
  then show ?thesis using assms by (simp add: createExt4Image_def createExt4ImageWithOverhead_def Let_def)
qed

definition unpacked_fs :: host_fs where
  "unpacked_fs = \<lparr>hf_nodes = [([''t'', ''x'', ''etc'', ''hosts''], IFile 4), ([''t'', ''x'', ''etc'', ''machine-id''], IFile 3), ([''t'', ''x'', ''etc''], IDir),
     ([''t'', ''x'', ''sbin'', ''tini''], IFile 2), ([''t'', ''x'', ''sbin''], IDir), ([''t'', ''x'', ''bin'', ''sh''], IFile 1), ([''t'', ''x'', ''bin''], IDir),
     ([''t'', ''x''], IDir), ([''t''], IDir), ([''etc''], IDir), ([''etc'', ''passwd''], IFile 0)],
     hf_files = [(4, 0x1A4, []), (3, 0x1A4, []), (2, 0x1ED, []), (1, 0x1ED, []), (0, 0x1A4, ''root'')], hf_next = 5\<rparr>"

definition linked_fs :: host_fs where
  "linked_fs = set_node [''t'', ''x'', ''init''] (ILink ''/sbin/init'') unpacked_fs"

lemma example_finishes: "fst (prepareImage prep_example prep_example_ip ''a'' ''a-latest'' ''/r/a-latest.ext4'' unpack_fs) = Inr ()"
proof -
  let ?i = "pe_img prep_example" and ?auth = "pc_RegistryAuth (ip_config prep_example_ip)"
  let ?m = "mkdir_temp prep_example ''swarmcracker-extract-'' unpack_fs"
  let ?x = "extractOCIImage prep_example ?auth ''a'' ''/t/x'' (ip_ociInfo prep_example_ip) (snd ?m)"
  let ?j = "InjectIntoDir ?i (ip_init prep_example_ip) ''/t/x'' None unpacked_fs"
  let ?r = "injectResolvConf ?i ''/t/x'' linked_fs"
  let ?h = "injectHosts ?i ''/t/x'' (snd ?r)"
  let ?n = "injectNsswitch ?i ''/t/x'' (snd ?h)"
  let ?d = "createEssentialDirs ?i ''/t/x'' (snd ?n)"
  have m: "?m = (Some ''/t/x'', snd ?m)" by code_simp
  have v: "validateImageManifest prep_example ''a'' (buildRemoteOptions ?auth) = Inr ()" by code_simp
  have x: "?x = (Inr (), None, unpacked_fs)" by code_simp
  have c: "validateCriticalSymlinks (pe_deny prep_example) ''/t/x'' unpacked_fs = Inr ()" by code_simp
  have e: "init_IsEnabled (ip_init prep_example_ip)" by code_simp
  have j: "?j = (Inr (), linked_fs)" by code_simp
  have r: "?r = (Inr (), snd ?r)" by code_simp
  have h: "?h = (Inr (), snd ?h)" by code_simp
  have s: "(case lk_Stat (pe_deny prep_example) (path_Join [''/t/x'', ''etc'', ''machine-id'']) (snd ?n) of Inr _ \<Rightarrow> True | Inl _ \<Rightarrow> False)" by code_simp
  have d: "?d = (Inr (), snd ?d)" by code_simp
  have "lk_Stat (pe_deny prep_example) ''/t/x'' (snd (injectNetworkConfig ?i ''/t/x'' (snd ?d))) = Inr IDir" by code_simp
  then have t: "fst (createExt4Image prep_example ''/t/x'' ''/r/a-latest.ext4'' (snd (injectNetworkConfig ?i ''/t/x'' (snd ?d)))) = Inr ()"
    by (rule example_makes_image)
  have "injectEssentialFiles ?i ''/t/x'' ''a-latest'' linked_fs = (Inr (), snd ?d)"
    using example_essentials [OF r h refl] s d by (auto split: sum.splits)
  then have "fst (finish_rootfs prep_example (ip_init prep_example_ip) None ''a-latest'' ''/t/x'' ''/r/a-latest.ext4'' unpacked_fs) = Inr ()"
    using t unfolding finish_rootfs_def c by (simp add: e j)
  then show ?thesis unfolding prepareImage_def
    by (subst m, simp only: prod.case option.case v sum.case) (subst x, simp add: case_prod_beta)
qed

theorem prepared_image_bootable_witness:
  "\<exists>ip' fs' fs1 fs2 ratio blocks.
     prepareImage prep_example prep_example_ip ''a'' ''a-latest'' ''/r/a-latest.ext4'' unpack_fs = (Inr (), ip', fs') \<and>
     inode_at fs1 [''t'', ''x'', ''init''] = Some (ILink ''/sbin/init'') \<and>
     pe_run prep_example (mkfs_command ''/t/x'' ''/r/a-latest.ext4'' ratio blocks) fs1 = ((True, []), fs2) \<and>
     fs' = lk_RemoveAll (pe_deny prep_example) ''/t/x'' fs2 \<and>
     4096 * blocks \<ge> 100 * 1024 * 1024 \<and> 2 * (4096 * blocks) \<ge> 3 * getDirSize fs1 [''t'', ''x''] - 1"
proof -
  let ?p = "prepareImage prep_example prep_example_ip ''a'' ''a-latest'' ''/r/a-latest.ext4'' unpack_fs"
  have e: "init_IsEnabled (ip_init prep_example_ip)" and l: "path_elems ''/t/x'' = [''t'', ''x'']" by code_simp+
  have p: "?p = (Inr (), fst (snd ?p), snd (snd ?p))" using example_finishes by (metis prod.collapse)
  have t: "pe_temp prep_example ''swarmcracker-extract-'' unpack_fs = ''/t/x''" by (simp add: prep_example_def)
  have k: "export_keeps prep_example ''/t/x''" by (simp add: export_keeps_def prep_example_def)
  have o: "o1 = []" if "pe_run prep_example c fs1 = ((True, o1), fs2)" for c fs1 fs2 o1 using that by (simp add: prep_example_def)
  obtain fs1 fs2 ratio blocks o1
    where r: "inode_at fs1 [''t'', ''x'', ''init''] = Some (ILink ''/sbin/init'')"
      "pe_run prep_example (mkfs_command ''/t/x'' ''/r/a-latest.ext4'' ratio blocks) fs1 = ((True, o1), fs2)"
      "snd (snd ?p) = lk_RemoveAll (pe_deny prep_example) ''/t/x'' fs2"
      "4096 * blocks \<ge> 100 * 1024 * 1024" "2 * (4096 * blocks) \<ge> 3 * getDirSize fs1 [''t'', ''x''] - 1"
    using prepared_image_bootable [OF example_temp k [folded t] p] e unfolding t l by (clarify, unfold l append.simps, blast)
  show ?thesis using p r o [OF r(2)] by blast
qed

subsection \<open>Images that are never prepared\<close>

text \<open>The parent of every name is a directory.\<close>

definition parented :: "host_fs \<Rightarrow> bool" where
  "parented fs \<longleftrightarrow> (\<forall>l. l \<noteq> [] \<longrightarrow> inode_at fs l \<noteq> None \<longrightarrow> inode_at fs (butlast l) = Some IDir)"

lemma follow_missing:
  "parented fs \<Longrightarrow> inode_at fs at = Some IDir \<Longrightarrow> (case follow n fs True at xs of Inl e \<Rightarrow> e = NotExist | Inr l \<Rightarrow> inode_at fs l = None) \<Longrightarrow>
    y \<noteq> [] \<Longrightarrow> follow n fs b at (xs @ [y]) = Inl NotExist"
proof (induction n fs True at xs rule: follow.induct)
  case (2 n fs at x xs)
  have u: "inode_at fs (butlast at) = Some IDir" using "2.prems" by (cases "at = []") (auto simp: parented_def)
  consider (skip) "x = [] \<or> x = ''.''" | (up) "x = ''..''" | (name) "x \<noteq> []" "x \<noteq> ''.''" "x \<noteq> ''..''" by blast
  then show ?case
  proof cases
    case skip
    then show ?thesis using "2.hyps"(1) "2.prems" by auto
  next
    case up
    then show ?thesis using "2.hyps"(2) "2.prems" u by auto
  next
    case name
    show ?thesis
    proof (cases "inode_at fs (at @ [x])")
      case None
      then show ?thesis using name by auto
    next
      case (Some i)
      show ?thesis
      proof (cases i)
        case IDir
        then show ?thesis using name Some "2.hyps"(3) "2.prems" by auto
      next
        case (IFile k)
        then show ?thesis using name Some "2.prems"(3) by (cases "xs = []") auto
      next
        case (ILink t)
        show ?thesis
        proof (cases n)
          case 0
          then show ?thesis using name Some ILink "2.prems"(3) by auto
        next
          case (Suc m)
          have "inode_at fs (if prefix ''/'' t then [] else at) = Some IDir" using "2.prems"(2) by (auto simp: inode_at_def)
          then show ?thesis using name Some ILink Suc "2.hyps"(4) [of i t m] "2.prems" by auto
        qed
      qed
    qed
  qed
qed simp

lemma names_in_child: "inode_at fs (l @ [x]) \<noteq> None \<Longrightarrow> x \<in> set (names_in fs l)"
  unfolding names_in_def inode_at_def by (force dest: map_of_SomeD)

lemma bin_missing:
  assumes a: "path_IsAbs tmp" "path_Clean tmp = tmp" and r: "real_dir fs (path_elems tmp)" and w: "parented fs" and s: "isScratch deny tmp fs"
  shows "lk_path fs b (path_Join [tmp, ''bin'', ''sh'']) = Inl NotExist"
proof -
  let ?D = "path_elems tmp" and ?m = "\<lambda>x. case x of Inl e \<Rightarrow> e = NotExist | Inr l \<Rightarrow> inode_at fs l = None"
  have p: "plain_name ''bin''" "plain_name ''sh''" by (simp_all add: plain_name_def)
  have "\<forall>x \<in> set (?D @ [''bin'', ''sh'']). plain_name x" using r p by (auto simp: real_dir_def)
  then have lp: "lk_path fs b (path_Join [tmp, ''bin'', ''sh'']) = follow 40 fs b ?D ([''bin''] @ [''sh''])"
    using path_Join_child2 [OF a(1) p] lk_path_of follow_real [OF r] by simp
  have lb: "lk_path fs True (path_Join [tmp, ''bin'']) = follow 40 fs True ?D [''bin'']" by (rule lk_path_child [OF a(1) p(1) r])
  have lt: "lk_path fs True tmp = Inr ?D" using look_real [OF r, of True] abs_path_of [OF a(1)] a(2) by simp
  have none: "?m (follow 40 fs True ?D [''bin''])" if "inode_at fs (?D @ [''bin'']) = None" using that by simp
  have "?m (follow 40 fs True ?D [''bin''])"
  proof (cases "missing deny [tmp, ''bin''] fs")
    case True
    then show ?thesis using lb by (auto simp: missing_def lk_Stat_def lk_look_def split: if_splits sum.splits option.splits)
  next
    case False
    then obtain es where es: "lk_ReadDir deny tmp fs = Inr es" "filter (\<lambda>(x, _). x \<notin> {''lost+found'', ''.'', ''..''}) es = []"
      using s by (auto simp: isScratch_def split: sum.splits)
    have "es = map (\<lambda>x. (x, inode_at fs (?D @ [x]) = Some IDir)) (names_in fs ?D)"
      using es(1) lt real_dir_at [OF r] by (auto simp: lk_ReadDir_def split: if_splits)
    then have "(''bin'', inode_at fs (?D @ [''bin'']) = Some IDir) \<in> set (filter (\<lambda>(x, _). x \<notin> {''lost+found'', ''.'', ''..''}) es)" if "''bin'' \<in> set (names_in fs ?D)"
      using that by simp
    then have "''bin'' \<notin> set (names_in fs ?D)" unfolding es(2) by auto
    then show ?thesis using none names_in_child by blast
  qed
  then show ?thesis using follow_missing [OF w real_dir_at [OF r], of 40 "[''bin'']" "''sh''" b] lp by simp
qed

text \<open>
  The image of a scratch container gets a shell and an init system from \<open>InjectIntoDir\<close>, but the validation of the
  shell comes first: the preparation of such an image always fails.
\<close>

lemma scratch_rejected:
  assumes "path_IsAbs tmp" "path_Clean tmp = tmp" and "real_dir fs (path_elems tmp)" and "parented fs"
    and "DetectInitType (pe_deny env) tmp fs = InitTypeScratch"
  shows "\<exists>e. finish_rootfs env ii info imageID tmp out fs = (Inl (PrepImg e), fs)"
proof -
  have "isScratch (pe_deny env) tmp fs" using assms(5) by (auto simp: DetectInitType_def split: if_splits)
  then have "lk_path fs False (path_Join [tmp, ''bin'', ''sh'']) = Inl NotExist" by (rule bin_missing [OF assms(1-4)])
  then obtain e where "validateCriticalSymlinks (pe_deny env) tmp fs = Inl e"
    by (cases "pe_deny env OpStat (path_Join [tmp, ''bin'', ''sh''])") (simp_all add: validateCriticalSymlinks_def lk_Lstat_def lk_look_def Let_def)
  then show ?thesis by (simp add: finish_rootfs_def)
qed

subsection \<open>What is kept between images\<close>

text \<open>
  When an image cannot be pulled from the registry and is taken from a container tool, the configuration of the image
  that was prepared before is kept, and its command is what the new root file system runs.
\<close>

lemma old_config_kept:
  assumes "pe_image env (buildRemoteOptions auth) (Some (''linux/'' @ pe_GOARCH env)) (full_ref ref) = None"
    and "extractOCIImage env auth ref dest info fs = (r, info', fs')"
  shows "info' = info"
proof -
  obtain e where "extractWithGGCR env auth ref dest info fs = (Inl e, info, fs)" using assms(1)
    by (cases "ref = [] \<or> dest = []"; cases "pe_parse env (full_ref ref)") (auto simp: extractWithGGCR_def Let_def)
  then show ?thesis using assms(2) by (auto simp: extractOCIImage_def split: prod.splits)
qed

text \<open>
  A task whose image is in the cache gets its path and nothing else: no secrets, no configs, no mounts, and no
  annotations for the init system.
\<close>

lemma cached_image_only_path:
  assumes "GetContainer (task_Spec t) = Inr ctr" and "validateArchitecture env = Inr ()" and "verifyCachedRootfs env (prep_rootfs_path ip (ctr_Image ctr)) fs"
  shows "img_Prepare fuel env vc ip t fs = (Inr (), annotate ''rootfs'' (prep_rootfs_path ip (ctr_Image ctr)) t, ip, fs)"
  using assms by (simp add: img_Prepare_def)

text \<open>Different images share a file of the cache; a reference can name a file outside of the directory of the cache.\<close>

lemma image_ids_collide: "generateImageID ''library/redis:7'' = generateImageID ''library-redis:7''"
  "generateImageID ''app-1:2'' = generateImageID ''app:1-2''"
  by code_simp+

lemma image_id_escapes:
  "prep_rootfs_path prep_example_ip ''a:/../../../../../tmp/x'' = ''/tmp/x.ext4''"
  "prep_rootfs_path prep_example_ip ''localhost:5000/app'' = ''/var/lib/firecracker/rootfs/localhost-5000/app.ext4''"
  by code_simp+

text \<open>The number of inodes does not depend on the number of files: images below 4 MiB all get one inode for 51200 bytes.\<close>

lemma few_inodes: "0 \<le> n \<Longrightarrow> n < 4194304 \<Longrightarrow> ext4_total n 50 = 104857600 \<and> ext4_inode_ratio n (ext4_total n 50) = 51200"
  by (auto simp: ext4_total_def ext4_inode_ratio_def Let_def)

subsection \<open>The cleanup\<close>

text \<open>Which entries of the directory of the cache are to go.\<close>

definition outdated :: "(string \<Rightarrow> int) \<Rightarrow> int \<Rightarrow> int \<Rightarrow> string \<Rightarrow> string \<Rightarrow> bool" where
  "outdated mtime now keepDays dir x \<longleftrightarrow> suffix ''.ext4'' x \<and> mtime (path_Join [dir, x]) < now - keepDays * 86400"

lemma cleanup_old_iff: "0 < keepDays \<Longrightarrow> cleanup_old mtime now keepDays p \<longleftrightarrow> mtime p < now - keepDays * 86400"
  by (auto simp: cleanup_old_def)

text \<open>Only entries of the directory go, one by one; the contents of files stay.\<close>

definition entries_gone :: "string list \<Rightarrow> string set \<Rightarrow> host_fs \<Rightarrow> host_fs \<Rightarrow> bool" where
  "entries_gone D X fs fs' \<longleftrightarrow>
     (\<forall>l. inode_at fs' l = (if \<exists>x \<in> X. prefix (D @ [x]) l then None else inode_at fs l)) \<and> (\<forall>n. file_of fs' n = file_of fs n)"

lemma entries_gone_none: "entries_gone D {} fs fs"
  by (simp add: entries_gone_def)

lemma entries_gone_one: "entries_gone D {x} fs (drop_nodes (D @ [x]) fs)"
proof -
  have "l \<noteq> []" if "prefix (D @ [x]) l" for l using that by auto
  then show ?thesis by (auto simp: entries_gone_def inode_drop)
qed

lemma entries_gone_trans: "entries_gone D X fs fs1 \<Longrightarrow> entries_gone D Y fs1 fs2 \<Longrightarrow> entries_gone D (X \<union> Y) fs fs2"
  by (auto simp: entries_gone_def)

lemma entries_gone_dir:
  assumes "entries_gone D X fs fs'" and "real_dir fs D"
  shows "real_dir fs' D"
proof -
  have "\<not> prefix (D @ [x]) (take k D)" for x k using prefix_length_le [of "D @ [x]" "take k D"] by auto
  then show ?thesis using assms by (simp add: entries_gone_def real_dir_def)
qed

text \<open>The loop, with files only and without failures: the outdated ones among the entries go, and are counted.\<close>

lemma cleanup_entries_gone:
  assumes a: "path_IsAbs dir" and k: "0 < keepDays" and ok: "\<And>op p. \<not> deny op p"
  shows "real_dir fs (path_elems dir) \<Longrightarrow> distinct (map fst es) \<Longrightarrow>
    \<forall>(x, d) \<in> set es. plain_name x \<and> (if d then inode_at fs (path_elems dir @ [x]) = Some IDir else \<exists>n. inode_at fs (path_elems dir @ [x]) = Some (IFile n)) \<Longrightarrow>
    cleanup_entries deny mtime now keepDays dir es files freed fs = (files', freed', fs') \<Longrightarrow>
    entries_gone (path_elems dir) {x. (x, False) \<in> set es \<and> outdated mtime now keepDays dir x} fs fs' \<and>
    files' = files + int (length (filter (\<lambda>(x, d). \<not> d \<and> outdated mtime now keepDays dir x) es))"
proof (induction es arbitrary: files freed fs)
  case Nil
  then show ?case by (simp add: entries_gone_none)
next
  case (Cons e es)
  obtain x d where e: "e = (x, d)" by fastforce
  let ?D = "path_elems dir" and ?p = "path_Join [dir, x]" and ?X = "{x. (x, False) \<in> set es \<and> outdated mtime now keepDays dir x}"
  have x: "plain_name x" using Cons.prems(3) by (simp add: e)
  show ?case
  proof (cases "d \<or> \<not> outdated mtime now keepDays dir x")
    case True
    have "cleanup_entries deny mtime now keepDays dir (e # es) files freed fs = cleanup_entries deny mtime now keepDays dir es files freed fs"
      using True cleanup_old_iff [OF k] by (auto simp: e outdated_def Let_def split: sum.splits)
    moreover have "{y. (y, False) \<in> set (e # es) \<and> outdated mtime now keepDays dir y} = ?X" using True by (auto simp: e)
    moreover have "filter (\<lambda>(x, d). \<not> d \<and> outdated mtime now keepDays dir x) (e # es) = filter (\<lambda>(x, d). \<not> d \<and> outdated mtime now keepDays dir x) es"
      using True by (auto simp: e)
    ultimately show ?thesis using Cons.IH [OF Cons.prems(1)] Cons.prems(2-) by (simp del: cleanup_entries.simps filter.simps)
  next
    case False
    then obtain n where n: "inode_at fs (?D @ [x]) = Some (IFile n)" using Cons.prems(3) by (auto simp: e)
    have lp: "lk_path fs b ?p = Inr (?D @ [x])" for b by (rule lk_path_entry [OF a x Cons.prems(1)]) (simp add: n)
    let ?f = "drop_nodes (?D @ [x]) fs"
    have g: "entries_gone ?D {x} fs ?f" by (rule entries_gone_one)
    have st: "lk_Stat deny ?p fs = Inr (IFile n)" using lp n ok by (simp add: lk_Stat_def lk_look_def)
    have rm: "lk_Remove deny ?p fs = (Inr (), ?f)" using lp n ok by (simp add: lk_Remove_def)
    have c: "cleanup_entries deny mtime now keepDays dir (e # es) files freed fs =
        cleanup_entries deny mtime now keepDays dir es (files + 1) (freed + inode_size fs (IFile n)) ?f"
      using False st rm cleanup_old_iff [OF k] by (simp add: e outdated_def)
    have "inode_at ?f (?D @ [y]) = inode_at fs (?D @ [y])" if "y \<noteq> x" for y using that by (simp add: inode_drop)
    then have "\<forall>(y, d) \<in> set es. plain_name y \<and> (if d then inode_at ?f (?D @ [y]) = Some IDir else \<exists>n. inode_at ?f (?D @ [y]) = Some (IFile n))"
    proof (intro ballI, clarify)
      fix y d' assume m: "(y, d') \<in> set es"
      then have "y \<noteq> x" using Cons.prems(2) by (auto simp: e image_iff)
      moreover have "plain_name y \<and> (if d' then inode_at fs (?D @ [y]) = Some IDir else \<exists>n. inode_at fs (?D @ [y]) = Some (IFile n))"
        using Cons.prems(3) m by auto
      ultimately show "plain_name y \<and> (if d' then inode_at ?f (?D @ [y]) = Some IDir else \<exists>n. inode_at ?f (?D @ [y]) = Some (IFile n))"
        by (simp add: inode_drop)
    qed
    then have ih: "entries_gone ?D ?X ?f fs'" "files' = files + 1 + int (length (filter (\<lambda>(x, d). \<not> d \<and> outdated mtime now keepDays dir x) es))"
      using Cons.IH [OF entries_gone_dir [OF g Cons.prems(1)]] Cons.prems(2,4) c by (simp_all add: e del: cleanup_entries.simps)
    have "{y. (y, False) \<in> set (e # es) \<and> outdated mtime now keepDays dir y} = {x} \<union> ?X" using False by (auto simp: e)
    then show ?thesis using entries_gone_trans [OF g ih(1)] ih(2) False by (simp add: e)
  qed
qed

lemma length_distinct_fst: "distinct (map fst xs) \<Longrightarrow> length xs = card (set (map fst xs))"
  by (metis distinct_card length_map)

lemma flagged_names: "set (map fst (filter (\<lambda>(x, d). \<not> d \<and> Q x) es)) = {x. (x, False) \<in> set es \<and> Q x}"
  by force

lemma names_in_iff: "x \<in> set (names_in fs l) \<longleftrightarrow> inode_at fs (l @ [x]) \<noteq> None"
proof
  show "x \<in> set (names_in fs l)" if "inode_at fs (l @ [x]) \<noteq> None" by (rule names_in_child [OF that])
  assume "x \<in> set (names_in fs l)"
  then obtain l' i where l': "(l', i) \<in> set (hf_nodes fs)" "l' \<noteq> []" "butlast l' = l" "x = last l'" by (auto simp: names_in_def)
  then have "l' = l @ [x]" by (metis append_butlast_last_id)
  then show "inode_at fs (l @ [x]) \<noteq> None" using l'(1) weak_map_of_SomeI [of l' i] by (auto simp: inode_at_def)
qed

text \<open>
  The cleanup removes exactly the images that are older than the days to keep: of the directory of the
  cache the files with the suffix \<open>.ext4\<close> that were not changed since then, and nothing else on the host; it returns
  their number. The directory is a real one with files and directories in it, and no operation is refused.
\<close>

theorem image_cleanup_exact:
  assumes a: "path_IsAbs (pc_RootfsDir (ip_config ip))" "path_Clean (pc_RootfsDir (ip_config ip)) = pc_RootfsDir (ip_config ip)"
    and r: "real_dir fs (path_elems (pc_RootfsDir (ip_config ip)))" and k: "0 < keepDays" and ok: "\<And>op p. \<not> deny op p"
    and files: "\<And>x i. inode_at fs (path_elems (pc_RootfsDir (ip_config ip)) @ [x]) = Some i \<Longrightarrow> plain_name x \<and> (i = IDir \<or> (\<exists>n. i = IFile n))"
    and gone: "\<And>x. gone x \<longleftrightarrow> (\<exists>n. inode_at fs (path_elems (pc_RootfsDir (ip_config ip)) @ [x]) = Some (IFile n)) \<and> suffix ''.ext4'' x \<and>
       mtime (path_Join [pc_RootfsDir (ip_config ip), x]) < now - keepDays * 86400"
  shows "\<exists>freed fs'. img_Cleanup deny mtime now keepDays ip fs = (Inr (int (card {x. gone x}), freed), fs') \<and>
    (\<forall>l. inode_at fs' l = (if \<exists>x. gone x \<and> prefix (path_elems (pc_RootfsDir (ip_config ip)) @ [x]) l then None else inode_at fs l)) \<and>
    (\<forall>n. file_of fs' n = file_of fs n)"
proof -
  let ?dir = "pc_RootfsDir (ip_config ip)" let ?D = "path_elems ?dir"
  let ?es = "map (\<lambda>x. (x, inode_at fs (?D @ [x]) = Some IDir)) (names_in fs ?D)"
  let ?P = "\<lambda>(x, d). \<not> d \<and> outdated mtime now keepDays ?dir x"
  have lt: "lk_path fs True ?dir = Inr ?D" using look_real [OF r, of True] abs_path_of [OF a(1)] a(2) by simp
  have rd: "lk_ReadDir deny ?dir fs = Inr ?es" using lt real_dir_at [OF r] ok by (simp add: lk_ReadDir_def)
  have st: "lk_Stat deny ?dir fs = Inr IDir" using lt real_dir_at [OF r] ok by (simp add: lk_Stat_def lk_look_def)
  have es: "\<forall>(x, d) \<in> set ?es. plain_name x \<and> (if d then inode_at fs (?D @ [x]) = Some IDir else \<exists>n. inode_at fs (?D @ [x]) = Some (IFile n))"
    using files by (fastforce simp: names_in_iff)
  have g: "gone x \<longleftrightarrow> (x, False) \<in> set ?es \<and> outdated mtime now keepDays ?dir x" for x
    using files [of x] unfolding gone outdated_def by (auto simp: names_in_iff)
  have ds: "distinct (map fst ?es)" by (simp add: comp_def names_in_def)
  obtain n b fs' where c: "cleanup_entries deny mtime now keepDays ?dir ?es 0 0 fs = (n, b, fs')" by (rule prod_cases3)
  have e: "entries_gone ?D {x. (x, False) \<in> set ?es \<and> outdated mtime now keepDays ?dir x} fs fs'" and n: "n = int (length (filter ?P ?es))"
    using cleanup_entries_gone [OF a(1) k ok r ds es c] by simp_all
  have "distinct (map fst (filter ?P ?es))" using ds by (rule distinct_map_filter)
  then have "length (filter ?P ?es) = card (set (map fst (filter ?P ?es)))" by (rule length_distinct_fst)
  moreover have "set (map fst (filter ?P ?es)) = {x. gone x}" unfolding flagged_names using g by simp
  ultimately have "n = int (card {x. gone x})" using n by simp
  then have "img_Cleanup deny mtime now keepDays ip fs = (Inr (int (card {x. gone x}), b), fs')" using c rd st k by (simp add: img_Cleanup_def)
  moreover have "entries_gone ?D {x. gone x} fs fs'" using e g by simp
  ultimately show ?thesis unfolding entries_gone_def by auto
qed

definition cache_fs :: host_fs where
  "cache_fs = \<lparr>hf_nodes = [([''r''], IDir), ([''r'', ''a.ext4''], IFile 0), ([''r'', ''b.ext4''], IFile 1), ([''r'', ''a.lock''], IFile 2)],
     hf_files = [(0, 0x1A4, ''A''), (1, 0x1A4, ''B''), (2, 0x1A4, [])], hf_next = 3\<rparr>"

definition cache_ip :: preparer where
  "cache_ip = prep_example_ip\<lparr>ip_config := (ip_config prep_example_ip)\<lparr>pc_RootfsDir := ''/r''\<rparr>\<rparr>"

definition cache_mtime :: "string \<Rightarrow> int" where
  "cache_mtime p = (if p = ''/r/b.ext4'' then 900000 else 100)"

lemma cache_cases: "inode_at cache_fs ([''r''] @ [x]) = Some i \<longleftrightarrow> x = ''a.ext4'' \<and> i = IFile 0 \<or> x = ''b.ext4'' \<and> i = IFile 1 \<or> x = ''a.lock'' \<and> i = IFile 2"
  by (auto simp: inode_at_def cache_fs_def)

lemma cache_real: "real_dir cache_fs [''r'']"
proof -
  have n: "inode_at cache_fs [] = Some IDir" "inode_at cache_fs [''r''] = Some IDir" by code_simp+
  have "inode_at cache_fs (take k [''r'']) = Some IDir" for k using n by (cases k) auto
  then show ?thesis by (simp add: real_dir_def plain_name_def)
qed

theorem image_cleanup_exact_witness:
  "\<exists>freed fs'. img_Cleanup (\<lambda>_ _. False) cache_mtime 1000000 7 cache_ip cache_fs = (Inr (1, freed), fs') \<and>
     inode_at fs' [''r'', ''a.ext4''] = None \<and> inode_at fs' [''r'', ''b.ext4''] = Some (IFile 1) \<and> inode_at fs' [''r'', ''a.lock''] = Some (IFile 2)"
proof -
  have d: "pc_RootfsDir (ip_config cache_ip) = ''/r''" "path_elems ''/r'' = [''r'']" "path_IsAbs ''/r''" "path_Clean ''/r'' = ''/r''" by code_simp+
  have p: "path_Join [''/r'', ''a.ext4''] = ''/r/a.ext4''" "path_Join [''/r'', ''b.ext4''] = ''/r/b.ext4''" by code_simp+
  have g: "x = ''a.ext4'' \<longleftrightarrow> (\<exists>n. inode_at cache_fs ([''r''] @ [x]) = Some (IFile n)) \<and> suffix ''.ext4'' x \<and> cache_mtime (path_Join [''/r'', x]) < 1000000 - 7 * 86400" for x
    unfolding cache_cases by (auto simp: p cache_mtime_def suffix_def)
  have f: "plain_name x \<and> (i = IDir \<or> (\<exists>n. i = IFile n))" if "inode_at cache_fs ([''r''] @ [x]) = Some i" for x i
    using that unfolding cache_cases by (auto simp: plain_name_def)
  have "\<exists>freed fs'. img_Cleanup (\<lambda>_ _. False) cache_mtime 1000000 7 cache_ip cache_fs = (Inr (int (card {x. x = ''a.ext4''}), freed), fs') \<and>
      (\<forall>l. inode_at fs' l = (if \<exists>x. x = ''a.ext4'' \<and> prefix ([''r''] @ [x]) l then None else inode_at cache_fs l)) \<and> (\<forall>n. file_of fs' n = file_of cache_fs n)"
    by (rule image_cleanup_exact [of cache_ip cache_fs 7 "\<lambda>_ _. False" "\<lambda>x. x = ''a.ext4''" cache_mtime 1000000, unfolded d(1,2), OF d(3,4) cache_real _ _ f g]) simp_all
  then show ?thesis using cache_cases [of "''b.ext4''" "IFile 1"] cache_cases [of "''a.lock''" "IFile 2"] by auto
qed

end
