(* ===== verification/Jailer.thy ===== *)
theory Jailer
  imports Go_Link Go_Space Image_Wrapper
begin

text \<open>
  The jails of VMs (\<open>pkg/jailer/jailer.go\<close>): a directory with copies of the kernel and the root file system, the
  command line of Firecracker's jailer, the table of processes. The file system has links; processes, the
  search for programs and the file system as it is seen while a socket is waited for are arguments. The mutex
  serialises the operations on the table.
\<close>

unbundle bit_operations_syntax

record jail_settings =
  jl_FirecrackerPath :: string
  jl_JailerPath :: string
  jl_ChrootBaseDir :: string
  jl_UID :: int
  jl_GID :: int
  jl_NetNS :: string
  jl_CgroupVersion :: string
  jl_EnableSeccomp :: bool
  jl_SeccompPolicyPath :: string
  jl_ParentCgroup :: string
  jl_CPUQuotaUs :: int
  jl_MemoryMax :: int
  jl_ExtraArgs :: "string list"

record jail_vm =
  jv_TaskID :: string
  jv_VcpuCount :: int
  jv_MemoryMB :: int
  jv_KernelPath :: string
  jv_RootfsPath :: string
  jv_BootArgs :: string
  jv_HtEnabled :: bool
  jv_NetworkDev :: string
  jv_GuestMac :: string

record jail_process =
  jp_TaskID :: string
  jp_SocketPath :: string
  jp_Pid :: int

record jailer =
  jr_config :: jail_settings
  jr_processes :: "(string \<times> jail_process) list"

text \<open>
  \<open>je_spawn\<close> starts a command, with the process number when it succeeds; \<open>je_seen k\<close> is what became of the file system
  after \<open>k\<close> ticks of waiting; \<open>je_kill\<close> tells whether killing a process succeeds. The killed processes are logged.
\<close>

record jail_env =
  je_deny :: refusals
  je_look :: "string \<Rightarrow> string option"
  je_spawn :: "string list \<Rightarrow> host_fs \<Rightarrow> int option"
  je_seen :: "nat \<Rightarrow> host_fs \<Rightarrow> host_fs"
  je_exits :: "int \<Rightarrow> bool"
  je_kill :: "int \<Rightarrow> bool"

record jail_world =
  jw_fs :: host_fs
  jw_killed :: "int list"
  jw_terminated :: "int list"

datatype jail_error =
    NilConfig
  | RequiredField string
  | BinaryMissing string
  | JailIO string tree_error
  | InvalidVM string
  | SpawnFailed
  | NoSocket string
  | UnknownTask string
  | KillFailed int
  | CloseErrors "string list"

definition on_jail_fs :: "(host_fs \<Rightarrow> 'a \<times> host_fs) \<Rightarrow> jail_world \<Rightarrow> 'a \<times> jail_world" where
  "on_jail_fs f w = (case f (jw_fs w) of (a, fs) \<Rightarrow> (a, w\<lparr>jw_fs := fs\<rparr>))"

subsection \<open>Construction\<close>

definition resolve_binary :: "jail_env \<Rightarrow> string \<Rightarrow> host_fs \<Rightarrow> (jail_error, string) res" where
  "resolve_binary env p fs =
     (case (if path_IsAbs p then Some p else je_look env p) of
        None \<Rightarrow> Inl (BinaryMissing p)
      | Some q \<Rightarrow> (case lk_Stat (je_deny env) q fs of Inl _ \<Rightarrow> Inl (BinaryMissing q) | Inr _ \<Rightarrow> Inr q))"

definition jailer_New :: "jail_env \<Rightarrow> jail_settings option \<Rightarrow> jail_world \<Rightarrow> (jail_error, jailer) res \<times> jail_world" where
  "jailer_New env ocfg w =
     (case ocfg of
        None \<Rightarrow> (Inl NilConfig, w)
      | Some cfg \<Rightarrow>
          if jl_FirecrackerPath cfg = [] then (Inl (RequiredField ''FirecrackerPath''), w)
          else if jl_JailerPath cfg = [] then (Inl (RequiredField ''JailerPath''), w)
          else if jl_ChrootBaseDir cfg = [] then (Inl (RequiredField ''ChrootBaseDir''), w)
          else if jl_UID cfg = 0 then (Inl (RequiredField ''UID''), w)
          else if jl_GID cfg = 0 then (Inl (RequiredField ''GID''), w)
          else case resolve_binary env (jl_FirecrackerPath cfg) (jw_fs w) of
                 Inl e \<Rightarrow> (Inl e, w)
               | Inr fc \<Rightarrow>
                   (case resolve_binary env (jl_JailerPath cfg) (jw_fs w) of
                      Inl e \<Rightarrow> (Inl e, w)
                    | Inr jp \<Rightarrow>
                        (case on_jail_fs (lk_MkdirAll (je_deny env) (jl_ChrootBaseDir cfg)) w of
                           (Inl e, w1) \<Rightarrow> (Inl (JailIO (jl_ChrootBaseDir cfg) e), w1)
                         | (Inr _, w1) \<Rightarrow>
                             (Inr \<lparr>jr_config = cfg\<lparr>jl_CgroupVersion := (if jl_CgroupVersion cfg = [] then ''v2'' else jl_CgroupVersion cfg),
                                      jl_FirecrackerPath := fc, jl_JailerPath := jp\<rparr>, jr_processes = []\<rparr>, w1))))"

subsection \<open>Starting\<close>

definition validateVMConfig :: "jail_env \<Rightarrow> jail_vm \<Rightarrow> host_fs \<Rightarrow> (jail_error, unit) res" where
  "validateVMConfig env vm fs =
     (if jv_TaskID vm = [] then Inl (InvalidVM ''TaskID is required'')
      else if jv_VcpuCount vm \<le> 0 then Inl (InvalidVM ''VcpuCount must be positive'')
      else if jv_MemoryMB vm \<le> 0 then Inl (InvalidVM ''MemoryMB must be positive'')
      else if jv_KernelPath vm = [] then Inl (InvalidVM ''KernelPath is required'')
      else if jv_RootfsPath vm = [] then Inl (InvalidVM ''RootfsPath is required'')
      else case lk_Stat (je_deny env) (jv_KernelPath vm) fs of
             Inl _ \<Rightarrow> Inl (InvalidVM ''kernel not found'')
           | Inr _ \<Rightarrow> (case lk_Stat (je_deny env) (jv_RootfsPath vm) fs of Inl _ \<Rightarrow> Inl (InvalidVM ''rootfs not found'') | Inr _ \<Rightarrow> Inr ()))"

text \<open>The destination is emptied before the source is read, so copying a file onto itself loses it.\<close>

definition jail_copyFile :: "refusals \<Rightarrow> string \<Rightarrow> string \<Rightarrow> host_fs \<Rightarrow> (tree_error, unit) res \<times> host_fs" where
  "jail_copyFile deny src dst fs =
     (case lk_look OpRead deny True src fs of
        Inl e \<Rightarrow> (Inl e, fs)
      | Inr i \<Rightarrow>
          (case lk_WriteFile deny dst 0x180 [] fs of
             (Inl e, fs1) \<Rightarrow> (Inl e, fs1)
           | (Inr _, fs1) \<Rightarrow>
               (case i of
                  IFile n \<Rightarrow> lk_WriteFile deny dst 0x180 (snd (file_of fs1 n)) fs1
                | _ \<Rightarrow> (Inl OtherError, fs1))))"

definition jail_step :: "string \<Rightarrow> (host_fs \<Rightarrow> (tree_error, unit) res \<times> host_fs) \<Rightarrow> host_fs \<Rightarrow> (jail_error, unit) res \<times> host_fs" where
  "jail_step p f fs = (case f fs of (Inl e, fs1) \<Rightarrow> (Inl (JailIO p e), fs1) | (Inr _, fs1) \<Rightarrow> (Inr (), fs1))"

definition then_step :: "(host_fs \<Rightarrow> (jail_error, unit) res \<times> host_fs) \<Rightarrow> (host_fs \<Rightarrow> (jail_error, unit) res \<times> host_fs) \<Rightarrow> host_fs \<Rightarrow> (jail_error, unit) res \<times> host_fs" where
  "then_step f g fs = (case f fs of (Inl e, fs1) \<Rightarrow> (Inl e, fs1) | (Inr _, fs1) \<Rightarrow> g fs1)"

definition prepareChrootResources :: "jail_env \<Rightarrow> string \<Rightarrow> jail_vm \<Rightarrow> host_fs \<Rightarrow> (jail_error, unit) res \<times> host_fs" where
  "prepareChrootResources env chrootDir vm =
     (let deny = je_deny env; kernelDir = path_Join [chrootDir, ''kernel'']; drivesDir = path_Join [chrootDir, ''drives''];
          runDir = path_Join [chrootDir, ''run'', ''firecracker'']; kernelDest = path_Join [kernelDir, ''vmlinux'']; rootfsDest = path_Join [drivesDir, ''rootfs.ext4'']
      in then_step (jail_step kernelDir (lk_MkdirAll deny kernelDir))
           (then_step (jail_step drivesDir (lk_MkdirAll deny drivesDir))
              (then_step (jail_step runDir (lk_MkdirAll deny runDir))
                 (then_step (jail_step kernelDest (jail_copyFile deny (jv_KernelPath vm) kernelDest))
                    (jail_step rootfsDest (jail_copyFile deny (jv_RootfsPath vm) rootfsDest))))))"

definition chroot_dir :: "jail_settings \<Rightarrow> string \<Rightarrow> string" where
  "chroot_dir cfg taskID = path_Join [jl_ChrootBaseDir cfg, ''firecracker'', taskID, ''root'']"

definition jail_socket_rel :: "string \<Rightarrow> string" where
  "jail_socket_rel taskID = path_Join [''run'', ''firecracker'', taskID @ ''.sock'']"

definition jail_socket :: "jail_settings \<Rightarrow> string \<Rightarrow> string" where
  "jail_socket cfg taskID = path_Join [jl_ChrootBaseDir cfg, taskID, jail_socket_rel taskID]"

definition buildJailerCommand :: "jail_settings \<Rightarrow> jail_vm \<Rightarrow> string list \<times> string" where
  "buildJailerCommand cfg vm =
     ([jl_JailerPath cfg, ''--id'', jv_TaskID vm, ''--exec-file'', jl_FirecrackerPath cfg, ''--uid'', dec_of_int (jl_UID cfg), ''--gid'', dec_of_int (jl_GID cfg),
       ''--chroot-base-dir'', jl_ChrootBaseDir cfg, ''--cgroup-version'', trim_prefix ''v'' (jl_CgroupVersion cfg)] @
      (if jl_NetNS cfg \<noteq> [] then [''--netns'', jl_NetNS cfg] else []) @
      (if jl_ParentCgroup cfg \<noteq> [] then [''--parent-cgroup'', jl_ParentCgroup cfg] else []) @
      (if jl_CPUQuotaUs cfg > 0 then [''--cgroup'', ''cpu.max='' @ dec_of_int (jl_CPUQuotaUs cfg) @ '' 100000''] else []) @
      (if jl_MemoryMax cfg > 0 then [''--cgroup'', ''memory.max='' @ dec_of_int (jl_MemoryMax cfg)] else []) @
      jl_ExtraArgs cfg @ [''--'', ''--api-sock'', path_Join [''/'', jail_socket_rel (jv_TaskID vm)]],
      jail_socket cfg (jv_TaskID vm))"

text \<open>A tick every 100 ms, for 10 s. The timeout may come together with the last tick; then the tick is taken here.\<close>

definition waitForSocket :: "jail_env \<Rightarrow> string \<Rightarrow> host_fs \<Rightarrow> nat option" where
  "waitForSocket env socketPath fs = find (\<lambda>k. case lk_Stat (je_deny env) socketPath (je_seen env k fs) of Inr _ \<Rightarrow> True | Inl _ \<Rightarrow> False) [1..<101]"

definition jailer_Start :: "jail_env \<Rightarrow> jail_vm \<Rightarrow> jailer \<Rightarrow> jail_world \<Rightarrow> (jail_error, jail_process) res \<times> jailer \<times> jail_world" where
  "jailer_Start env vm j w =
     (case validateVMConfig env vm (jw_fs w) of
        Inl e \<Rightarrow> (Inl e, j, w)
      | Inr _ \<Rightarrow>
          (case on_jail_fs (prepareChrootResources env (chroot_dir (jr_config j) (jv_TaskID vm)) vm) w of
             (Inl e, w1) \<Rightarrow> (Inl e, j, w1)
           | (Inr _, w1) \<Rightarrow>
               let (cmd, socketPath) = buildJailerCommand (jr_config j) vm
               in (case je_spawn env cmd (jw_fs w1) of
                     None \<Rightarrow> (Inl SpawnFailed, j, w1)
                   | Some pid \<Rightarrow>
                       (case waitForSocket env socketPath (jw_fs w1) of
                          None \<Rightarrow> (Inl (NoSocket socketPath), j, w1\<lparr>jw_fs := je_seen env 100 (jw_fs w1), jw_killed := pid # jw_killed w1\<rparr>)
                        | Some k \<Rightarrow>
                            let p = \<lparr>jp_TaskID = jv_TaskID vm, jp_SocketPath = socketPath, jp_Pid = pid\<rparr>
                            in (Inr p, j\<lparr>jr_processes := AList.update (jv_TaskID vm) p (jr_processes j)\<rparr>, w1\<lparr>jw_fs := je_seen env k (jw_fs w1)\<rparr>)))))"

subsection \<open>Stopping\<close>

definition jailer_GetProcess :: "jailer \<Rightarrow> string \<Rightarrow> jail_process option" where
  "jailer_GetProcess j taskID = map_of (jr_processes j) taskID"

definition jailer_ListProcesses :: "jailer \<Rightarrow> string list" where
  "jailer_ListProcesses j = remdups (map fst (jr_processes j))"

definition jailer_forget :: "string \<Rightarrow> jailer \<Rightarrow> jailer" where
  "jailer_forget taskID j = j\<lparr>jr_processes := AList.delete taskID (jr_processes j)\<rparr>"

text \<open>The process is asked to terminate, and killed when it does not exit within ten seconds; failures are logged.\<close>

definition jailer_Stop :: "jail_env \<Rightarrow> string \<Rightarrow> jailer \<Rightarrow> jail_world \<Rightarrow> (jail_error, unit) res \<times> jailer \<times> jail_world" where
  "jailer_Stop env taskID j w =
     (case jailer_GetProcess j taskID of
        None \<Rightarrow> (Inl (UnknownTask taskID), j, w)
      | Some p \<Rightarrow>
          let w1 = w\<lparr>jw_terminated := jp_Pid p # jw_terminated w\<rparr>;
              w2 = (if je_exits env (jp_Pid p) then w1 else w1\<lparr>jw_killed := jp_Pid p # jw_killed w1\<rparr>)
          in (Inr (), jailer_forget taskID j, w2))"

definition jailer_ForceStop :: "jail_env \<Rightarrow> string \<Rightarrow> jailer \<Rightarrow> jail_world \<Rightarrow> (jail_error, unit) res \<times> jailer \<times> jail_world" where
  "jailer_ForceStop env taskID j w =
     (case jailer_GetProcess j taskID of
        None \<Rightarrow> (Inl (UnknownTask taskID), j, w)
      | Some p \<Rightarrow>
          if \<not> je_kill env (jp_Pid p) then (Inl (KillFailed (jp_Pid p)), j, w)
          else (Inr (), jailer_forget taskID j, w\<lparr>jw_killed := jp_Pid p # jw_killed w\<rparr>))"

text \<open>Every process of the table is killed; the table stays.\<close>

definition jailer_Close :: "jail_env \<Rightarrow> jailer \<Rightarrow> jail_world \<Rightarrow> (jail_error, unit) res \<times> jail_world" where
  "jailer_Close env j w =
     (let ps = map (\<lambda>t. (t, the (map_of (jr_processes j) t))) (jailer_ListProcesses j);
          failed = filter (\<lambda>(_, p). \<not> je_kill env (jp_Pid p)) ps;
          w1 = w\<lparr>jw_killed := rev (map (\<lambda>(_, p). jp_Pid p) (filter (\<lambda>(_, p). je_kill env (jp_Pid p)) ps)) @ jw_killed w\<rparr>
      in (if failed = [] then Inr () else Inl (CloseErrors (map fst failed)), w1))"

subsection \<open>The default policy for system calls\<close>

definition seccomp_names :: "string list list" where
  "seccomp_names =
    [[''accept'', ''accept4'', ''access'', ''arch_prctl'', ''bind'', ''brk''],
     [''capget'', ''capset'', ''chdir'', ''chmod'', ''chown'', ''chown32''],
     [''clock_getres'', ''clock_gettime'', ''clock_nanosleep'', ''clone''],
     [''close'', ''connect'', ''dup'', ''dup2'', ''dup3'', ''epoll_create''],
     [''epoll_create1'', ''epoll_ctl'', ''epoll_pwait'', ''epoll_wait''],
     [''eventfd'', ''eventfd2'', ''execve'', ''exit'', ''exit_group''],
     [''fcntl'', ''fcntl64'', ''fdatasync'', ''fgetxattr'', ''flistxattr''],
     [''flock'', ''fork'', ''fsetxattr'', ''fstat'', ''fstat64'', ''fstatat64''],
     [''fstatfs'', ''fstatfs64'', ''fsync'', ''ftruncate'', ''ftruncate64''],
     [''futex'', ''getcwd'', ''getdents'', ''getdents64'', ''getegid''],
     [''getegid32'', ''geteuid'', ''geteuid32'', ''getgid'', ''getgid32''],
     [''getgroups'', ''getgroups32'', ''getpeername'', ''getpgrp'', ''getpid''],
     [''getppid'', ''getpriority'', ''getrandom'', ''getresgid'', ''getresgid32''],
     [''getresuid'', ''getresuid32'', ''getrlimit'', ''getrusage'', ''getsid''],
     [''getsockname'', ''getsockopt'', ''gettid'', ''gettimeofday'', ''getuid''],
     [''getuid32'', ''getxattr'', ''inotify_add_watch'', ''inotify_init''],
     [''inotify_init1'', ''inotify_rm_watch'', ''ioctl'', ''ioprio_get''],
     [''ioprio_set'', ''kill'', ''lgetxattr'', ''link'', ''linkat'', ''listen''],
     [''llistxattr'', ''lseek'', ''lsetxattr'', ''lstat'', ''lstat64'', ''madvise''],
     [''memfd_create'', ''mincore'', ''mkdir'', ''mkdirat'', ''mknod'', ''mknodat''],
     [''mlock'', ''mlock2'', ''mlockall'', ''mmap'', ''mmap2'', ''mprotect''],
     [''mremap'', ''msync'', ''munlock'', ''munlockall'', ''munmap'', ''nanosleep''],
     [''newfstatat'', ''_newselect'', ''open'', ''openat'', ''pause'', ''pipe''],
     [''pipe2'', ''poll'', ''ppoll'', ''prctl'', ''pread64'', ''preadv'', ''prlimit64''],
     [''pselect6'', ''pwrite64'', ''pwritev'', ''read'', ''readahead'', ''readlink''],
     [''readlinkat'', ''readv'', ''recv'', ''recvfrom'', ''recvmmsg'', ''recvmsg''],
     [''rename'', ''renameat'', ''renameat2'', ''restart_syscall'', ''rmdir''],
     [''rt_sigaction'', ''rt_sigpending'', ''rt_sigprocmask'', ''rt_sigqueueinfo''],
     [''rt_sigreturn'', ''rt_sigsuspend'', ''rt_sigtimedwait'', ''rt_tgsigqueueinfo''],
     [''sched_getaffinity'', ''sched_getattr'', ''sched_getparam'', ''sched_get_priority_max''],
     [''sched_get_priority_min'', ''sched_getscheduler'', ''sched_rr_get_interval''],
     [''sched_setaffinity'', ''sched_setattr'', ''sched_setparam'', ''sched_setscheduler''],
     [''sched_yield'', ''seccomp'', ''select'', ''semctl'', ''semget'', ''semop'', ''semtimedop''],
     [''send'', ''sendfile'', ''sendfile64'', ''sendmmsg'', ''sendmsg'', ''sendto''],
     [''setfsgid'', ''setfsgid32'', ''setfsuid'', ''setfsuid32'', ''setgid'', ''setgid32''],
     [''setgroups'', ''setgroups32'', ''setitimer'', ''setpgid'', ''setpriority''],
     [''setregid'', ''setregid32'', ''setresgid'', ''setresgid32'', ''setresuid''],
     [''setresuid32'', ''setreuid'', ''setreuid32'', ''setrlimit'', ''setsid''],
     [''setsockopt'', ''setuid'', ''setuid32'', ''setxattr'', ''shmat'', ''shmctl''],
     [''shmdt'', ''shmget'', ''shutdown'', ''sigaltstack'', ''signalfd'', ''signalfd4''],
     [''socket'', ''socketcall'', ''socketpair'', ''splice'', ''stat'', ''stat64''],
     [''statfs'', ''statfs64'', ''statx'', ''symlink'', ''symlinkat'', ''sync''],
     [''sync_file_range'', ''syncfs'', ''sysinfo'', ''tee'', ''tgkill'', ''time''],
     [''timer_create'', ''timer_delete'', ''timerfd_create'', ''timerfd_gettime''],
     [''timerfd_settime'', ''timer_getoverrun'', ''timer_gettime'', ''timer_settime''],
     [''times'', ''tkill'', ''truncate'', ''truncate64'', ''ugetrlimit'', ''umask''],
     [''uname'', ''unlink'', ''unlinkat'', ''utime'', ''utimensat'', ''utimes''],
     [''vfork'', ''vmsplice'', ''wait4'', ''waitid'', ''waitpid'', ''write'', ''writev'']]"

definition tabs :: "nat \<Rightarrow> string" where
  "tabs n = replicate n (CHR 0x09)"

definition seccomp_policy :: string where
  "seccomp_policy =
     join [CHR 0x0A]
       ([''{'', tabs 2 @ quoted ''defaultAction'' @ '': '' @ quoted ''kill'' @ '','', tabs 2 @ quoted ''syscalls'' @ '': ['', tabs 3 @ ''{'',
         tabs 4 @ quoted ''action'' @ '': '' @ quoted ''allow'' @ '','', tabs 4 @ quoted ''names'' @ '': ['',
         join ('','' @ [CHR 0x0A]) (map (\<lambda>r. tabs 5 @ join '', '' (map quoted r)) seccomp_names),
         tabs 4 @ '']'', tabs 3 @ ''}'', tabs 2 @ '']'', tabs 1 @ ''}''])"

definition createDefaultSeccompPolicy :: "jail_env \<Rightarrow> string \<Rightarrow> jailer \<Rightarrow> host_fs \<Rightarrow> (jail_error, string) res \<times> host_fs" where
  "createDefaultSeccompPolicy env taskID j fs =
     (let dir = jl_ChrootBaseDir (jr_config j); p = path_Join [dir, taskID @ ''.seccomp.json'']
      in case lk_MkdirAll (je_deny env) dir fs of
           (Inl e, fs1) \<Rightarrow> (Inl (JailIO dir e), fs1)
         | (Inr _, fs1) \<Rightarrow>
             (case lk_WriteFile (je_deny env) p 0x1A4 seccomp_policy fs1 of
                (Inl e, fs2) \<Rightarrow> (Inl (JailIO p e), fs2)
              | (Inr _, fs2) \<Rightarrow> (Inr p, fs2)))"

end
