(* ===== verification/Jailer_Cgroup.thy ===== *)
theory Jailer_Cgroup
  imports Jailer
begin

text \<open>
  The cgroups of jailed VMs (\<open>pkg/jailer/cgroup.go\<close>). A control file holds the text that was last written to it. The
  device numbers of paths are an argument.
\<close>

unbundle bit_operations_syntax

record resource_limits =
  rl_CPUQuotaUs :: int
  rl_CPUMax :: string
  rl_MemoryMax :: int
  rl_MemoryHigh :: int
  rl_IOWeight :: nat
  rl_IOReadBPS :: int
  rl_IOWriteBPS :: int

record cgroup_stats =
  cs_CPUUsageUs :: int
  cs_CPUPeriods :: int
  cs_CPUThrottled :: int
  cs_MemoryAnon :: int
  cs_MemoryFile :: int
  cs_MemoryCurrent :: int
  cs_MemoryMax :: int
  cs_IOReadBytes :: int
  cs_IOWriteBytes :: int

record block_device =
  bd_Major :: int
  bd_Minor :: int
  bd_Path :: string

record cgroup_env =
  ce_deny :: refusals
  ce_dev :: "string \<Rightarrow> 64 word"

datatype cgroup_error = NoCgroupV2 | CgroupIO string tree_error | DeviceMissing int int

type_synonym cgroup_step = "host_fs \<Rightarrow> (cgroup_error, unit) res \<times> host_fs"

subsection \<open>Availability\<close>

definition isCgroupV2Available :: "refusals \<Rightarrow> host_fs \<Rightarrow> bool" where
  "isCgroupV2Available deny fs =
     (case lk_Stat deny ''/sys/fs/cgroup/cgroup.controllers'' fs of
        Inr _ \<Rightarrow> True
      | Inl _ \<Rightarrow>
          (case lk_ReadFile deny ''/proc/mounts'' fs of
             Inl _ \<Rightarrow> False
           | Inr d \<Rightarrow> list_ex (sublist ''cgroup2'') (split_on (CHR 0x0A) d)))"

definition DetectCgroupVersion :: "refusals \<Rightarrow> host_fs \<Rightarrow> string" where
  "DetectCgroupVersion deny fs = (if isCgroupV2Available deny fs then ''v2'' else ''v1'')"

text \<open>The manager is its base path.\<close>

definition NewCgroupManager :: "cgroup_env \<Rightarrow> string \<Rightarrow> host_fs \<Rightarrow> (cgroup_error, string) res \<times> host_fs" where
  "NewCgroupManager env basePath fs =
     (let base = (if basePath = [] then ''/sys/fs/cgroup/swarmcracker'' else basePath)
      in if \<not> isCgroupV2Available (ce_deny env) fs then (Inl NoCgroupV2, fs)
         else case lk_MkdirAll (ce_deny env) base fs of (Inl e, fs1) \<Rightarrow> (Inl (CgroupIO base e), fs1) | (Inr _, fs1) \<Rightarrow> (Inr base, fs1))"

subsection \<open>Limits\<close>

definition control_write :: "refusals \<Rightarrow> string \<Rightarrow> string \<Rightarrow> string \<Rightarrow> cgroup_step" where
  "control_write deny cgroupPath name d fs =
     (let p = path_Join [cgroupPath, name]
      in case lk_WriteFile deny p 0x1A4 d fs of (Inl e, fs1) \<Rightarrow> (Inl (CgroupIO p e), fs1) | (Inr _, fs1) \<Rightarrow> (Inr (), fs1))"

fun control_writes :: "refusals \<Rightarrow> string \<Rightarrow> (string \<times> string) list \<Rightarrow> cgroup_step" where
  "control_writes deny cgroupPath [] fs = (Inr (), fs)"
| "control_writes deny cgroupPath ((name, d) # ws) fs =
     (case control_write deny cgroupPath name d fs of (Inl e, fs1) \<Rightarrow> (Inl e, fs1) | (Inr _, fs1) \<Rightarrow> control_writes deny cgroupPath ws fs1)"

definition cpu_max :: "resource_limits \<Rightarrow> string" where
  "cpu_max lim = (if rl_CPUMax lim = [] \<and> rl_CPUQuotaUs lim > 0 then dec_of_int (rl_CPUQuotaUs lim) @ '' 1000000'' else rl_CPUMax lim)"

definition setCPULimits :: "refusals \<Rightarrow> string \<Rightarrow> resource_limits \<Rightarrow> cgroup_step" where
  "setCPULimits deny cgroupPath lim =
     control_writes deny cgroupPath (if cpu_max lim \<noteq> [] then [(''cpu.max'', cpu_max lim)] else [])"

definition setMemoryLimits :: "refusals \<Rightarrow> string \<Rightarrow> resource_limits \<Rightarrow> cgroup_step" where
  "setMemoryLimits deny cgroupPath lim =
     control_writes deny cgroupPath
       ((if rl_MemoryMax lim > 0 then [(''memory.max'', dec_of_int (rl_MemoryMax lim))] else []) @
        (if rl_MemoryHigh lim > 0 then [(''memory.high'', dec_of_int (rl_MemoryHigh lim))] else []))"

definition block_path :: "int \<Rightarrow> int \<Rightarrow> string" where
  "block_path major minor = ''/sys/dev/block/'' @ dec_of_int major @ '':'' @ dec_of_int minor @ ''/dev''"

definition there :: "refusals \<Rightarrow> string \<Rightarrow> host_fs \<Rightarrow> bool" where
  "there deny p fs = (case lk_Stat deny p fs of Inr _ \<Rightarrow> True | Inl _ \<Rightarrow> False)"

definition getDeviceForPath :: "cgroup_env \<Rightarrow> string \<Rightarrow> host_fs \<Rightarrow> (cgroup_error, block_device) res" where
  "getDeviceForPath env path fs =
     (case lk_Stat (ce_deny env) path fs of
        Inl e \<Rightarrow> Inl (CgroupIO path e)
      | Inr _ \<Rightarrow>
          let dev = ce_dev env path; major = int (unat (drop_bit 8 dev)); minor = int (unat (dev AND 0xFF));
              major2 = int (unat (drop_bit 20 dev AND 0xFFF)); minor2 = int (unat (dev AND 0xFFFFF))
          in if there (ce_deny env) (block_path major minor) fs then Inr \<lparr>bd_Major = major, bd_Minor = minor, bd_Path = path\<rparr>
             else if there (ce_deny env) (block_path major2 minor2) fs then Inr \<lparr>bd_Major = major2, bd_Minor = minor2, bd_Path = path\<rparr>
             else Inl (DeviceMissing major2 minor2))"

definition add_device :: "block_device list \<Rightarrow> block_device \<Rightarrow> block_device list" where
  "add_device devs d = (if list_ex (\<lambda>e. bd_Major e = bd_Major d \<and> bd_Minor e = bd_Minor d) devs then devs else devs @ [d])"

definition discoverBlockDevices :: "cgroup_env \<Rightarrow> host_fs \<Rightarrow> block_device list" where
  "discoverBlockDevices env fs =
     foldl (\<lambda>devs p. case getDeviceForPath env p fs of Inl _ \<Rightarrow> devs | Inr d \<Rightarrow> add_device devs d) []
       [''/var/lib/firecracker'', ''/var/lib/swarmcracker'', ''/var/lib/docker'', ''/'']"

definition io_line :: "resource_limits \<Rightarrow> block_device \<Rightarrow> string" where
  "io_line lim d = dec_of_int (bd_Major d) @ '':'' @ dec_of_int (bd_Minor d) @ '' rbps='' @ dec_of_int (rl_IOReadBPS lim) @ '' wbps='' @ dec_of_int (rl_IOWriteBPS lim)"

definition io_max_lines :: "cgroup_env \<Rightarrow> resource_limits \<Rightarrow> host_fs \<Rightarrow> (string \<times> string) list" where
  "io_max_lines env lim fs =
     (if rl_IOReadBPS lim > 0 \<or> rl_IOWriteBPS lim > 0 then map (\<lambda>d. (''io.max'', io_line lim d)) (discoverBlockDevices env fs) else [])"

definition setIOLimits :: "cgroup_env \<Rightarrow> string \<Rightarrow> resource_limits \<Rightarrow> cgroup_step" where
  "setIOLimits env cgroupPath lim fs =
     (case control_writes (ce_deny env) cgroupPath (if rl_IOWeight lim > 0 then [(''io.weight'', dec_of_nat (rl_IOWeight lim))] else []) fs of
        (Inl e, fs1) \<Rightarrow> (Inl e, fs1)
      | (Inr _, fs1) \<Rightarrow> control_writes (ce_deny env) cgroupPath (io_max_lines env lim fs1) fs1)"

text \<open>Limits on the traffic of devices may fail.\<close>

definition CreateCgroup :: "cgroup_env \<Rightarrow> string \<Rightarrow> string \<Rightarrow> resource_limits \<Rightarrow> cgroup_step" where
  "CreateCgroup env basePath taskID lim fs =
     (let p = path_Join [basePath, taskID]; deny = ce_deny env
      in case lk_MkdirAll deny p fs of
           (Inl e, fs1) \<Rightarrow> (Inl (CgroupIO p e), fs1)
         | (Inr _, fs1) \<Rightarrow>
             (case setCPULimits deny p lim fs1 of
                (Inl e, fs2) \<Rightarrow> (Inl e, fs2)
              | (Inr _, fs2) \<Rightarrow>
                  (case setMemoryLimits deny p lim fs2 of
                     (Inl e, fs3) \<Rightarrow> (Inl e, fs3)
                   | (Inr _, fs3) \<Rightarrow> (Inr (), snd (setIOLimits env p lim fs3)))))"

definition AddProcess :: "cgroup_env \<Rightarrow> string \<Rightarrow> string \<Rightarrow> int \<Rightarrow> cgroup_step" where
  "AddProcess env basePath taskID pid = control_write (ce_deny env) (path_Join [basePath, taskID]) ''cgroup.procs'' (dec_of_int pid)"

definition RemoveCgroup :: "cgroup_env \<Rightarrow> string \<Rightarrow> string \<Rightarrow> cgroup_step" where
  "RemoveCgroup env basePath taskID fs =
     (let p = path_Join [basePath, taskID]; deny = ce_deny env;
          fs1 = (case lk_ReadFile deny (path_Join [p, ''cgroup.procs'']) fs of
                   Inl _ \<Rightarrow> fs
                 | Inr d \<Rightarrow> if trim_space d = [] then fs else snd (lk_WriteFile deny ''/sys/fs/cgroup/cgroup.procs'' 0x1A4 d fs))
      in if deny OpRemove p then (Inl (CgroupIO p OtherError), fs1) else (Inr (), lk_RemoveAll deny p fs1))"

subsection \<open>Statistics\<close>

text \<open>\<open>strconv.ParseInt\<close> in base 10 with 64 bits, where the error is ignored: 0 for no number, and the nearest bound for one that is too large.\<close>

definition ParseInt64 :: "string \<Rightarrow> int" where
  "ParseInt64 s =
     (let neg = prefix ''-'' s; ds = (if prefix ''-'' s \<or> prefix ''+'' s then tl s else s)
      in if ds = [] \<or> \<not> list_all is_digit ds then 0
         else let v = int (dec_val ds)
              in if neg then (if v > 2 ^ 63 then - (2 ^ 63) else - v) else (if v \<ge> 2 ^ 63 then 2 ^ 63 - 1 else v))"

definition stat_lines :: "string \<Rightarrow> (string \<times> int) list" where
  "stat_lines d = concat (map (\<lambda>line. case fields_of line of [k, v] \<Rightarrow> [(k, ParseInt64 v)] | _ \<Rightarrow> []) (split_on (CHR 0x0A) d))"

text \<open>The value of the last line with a key.\<close>

definition stat_of :: "string \<Rightarrow> (tree_error, string) res \<Rightarrow> int" where
  "stat_of k r = (case r of Inl _ \<Rightarrow> 0 | Inr d \<Rightarrow> (case map_of (rev (stat_lines d)) k of None \<Rightarrow> 0 | Some v \<Rightarrow> v))"

definition GetStats :: "cgroup_env \<Rightarrow> string \<Rightarrow> string \<Rightarrow> host_fs \<Rightarrow> cgroup_stats" where
  "GetStats env basePath taskID fs =
     (let p = path_Join [basePath, taskID]; rd = (\<lambda>x. lk_ReadFile (ce_deny env) (path_Join [p, x]) fs);
          cpu = rd ''cpu.stat''; mem = rd ''memory.stat''
      in \<lparr>cs_CPUUsageUs = stat_of ''usage_usec'' cpu, cs_CPUPeriods = stat_of ''nr_periods'' cpu, cs_CPUThrottled = stat_of ''nr_throttled'' cpu,
          cs_MemoryAnon = stat_of ''anon'' mem, cs_MemoryFile = stat_of ''file'' mem,
          cs_MemoryCurrent = (case rd ''memory.current'' of Inl _ \<Rightarrow> 0 | Inr d \<Rightarrow> ParseInt64 (trim_space d)),
          cs_MemoryMax = (case rd ''memory.max'' of Inl _ \<Rightarrow> 0 | Inr d \<Rightarrow> if trim_space d \<noteq> ''max'' then ParseInt64 (trim_space d) else - 1),
          cs_IOReadBytes = 0, cs_IOWriteBytes = 0\<rparr>)"

end
