(* ===== verification/Jailer_Correct.thy ===== *)
theory Jailer_Correct
  imports Jailer_Cgroup Image_Unpack
begin

text \<open>
  The jails: the copies of kernel and root file system, the limits of the cgroups, the numbers of devices, and the
  table of processes.
\<close>

unbundle bit_operations_syntax

subsection \<open>Directories as tables of texts\<close>

text \<open>What the names of a directory lead to, where they lead to files.\<close>

definition dir_view :: "host_fs \<Rightarrow> string list \<Rightarrow> string \<rightharpoonup> string" where
  "dir_view fs D x = (case inode_at fs (D @ [x]) of Some (IFile n) \<Rightarrow> Some (snd (file_of fs n)) | _ \<Rightarrow> None)"

text \<open>A real directory without links, whose files have no second names in it; new files get new numbers.\<close>

definition table_dir :: "host_fs \<Rightarrow> string list \<Rightarrow> bool" where
  "table_dir fs D \<longleftrightarrow> real_dir fs D \<and> (\<forall>x t. inode_at fs (D @ [x]) \<noteq> Some (ILink t)) \<and>
     (\<forall>x y n. inode_at fs (D @ [x]) = Some (IFile n) \<longrightarrow> inode_at fs (D @ [y]) = Some (IFile n) \<longrightarrow> x = y) \<and>
     (\<forall>x n. inode_at fs (D @ [x]) = Some (IFile n) \<longrightarrow> n < hf_next fs)"

lemma write_view:
  assumes a: "path_IsAbs d" and x: "plain_name x" and t: "table_dir fs (path_elems d)" and w: "lk_WriteFile deny (path_Join [d, x]) m c fs = (Inr u, fs')"
  shows "table_dir fs' (path_elems d) \<and> dir_view fs' (path_elems d) = (dir_view fs (path_elems d))(x \<mapsto> c)"
proof -
  let ?D = "path_elems d"
  have r: "real_dir fs ?D" and nl: "\<forall>x t. inode_at fs (?D @ [x]) \<noteq> Some (ILink t)"
    and inj: "\<And>x y n. inode_at fs (?D @ [x]) = Some (IFile n) \<Longrightarrow> inode_at fs (?D @ [y]) = Some (IFile n) \<Longrightarrow> x = y"
    and low: "\<And>x n. inode_at fs (?D @ [x]) = Some (IFile n) \<Longrightarrow> n < hf_next fs" using t by (auto simp: table_dir_def)
  have lp: "lk_path fs True (path_Join [d, x]) = Inr (?D @ [x])" by (rule lk_path_entry [OF a x r]) (use nl in blast)
  have r': "real_dir fs' ?D" by (rule grows_real_dir [OF grows_WriteFile [OF w] r])
  show ?thesis
  proof (cases "inode_at fs (?D @ [x])")
    case None
    have i: "inode_at fs' (?D @ [y]) = (if y = x then Some (IFile (hf_next fs)) else inode_at fs (?D @ [y]))" for y
      using w lp None by (auto simp: lk_WriteFile_def inode_set_node split: if_splits)
    have f: "file_of fs' n = (if n = hf_next fs then (m, c) else file_of fs n)" "hf_next fs' = Suc (hf_next fs)" for n
      using w lp None by (auto simp: lk_WriteFile_def file_set_file split: if_splits)
    have ne: "inode_at fs (?D @ [y]) \<noteq> Some (IFile (hf_next fs))" for y using low [of y "hf_next fs"] by auto
    have "dir_view fs' ?D y = ((dir_view fs ?D)(x \<mapsto> c)) y" for y
      using ne [of y] by (auto simp: dir_view_def i f(1) split: option.splits inode.splits)
    moreover have "table_dir fs' ?D"
      unfolding table_dir_def i f(2) using r' nl inj ne low by (auto split: if_splits simp: less_Suc_eq)
    ultimately show ?thesis by blast
  next
    case (Some j)
    then obtain n where n: "j = IFile n" using w lp nl by (cases j) (auto simp: lk_WriteFile_def split: if_splits)
    have fs': "fs' = set_file n (fst (file_of fs n), c) fs" using w lp Some n by (auto simp: lk_WriteFile_def split: if_splits)
    have ne: "inode_at fs (?D @ [y]) \<noteq> Some (IFile n)" if "y \<noteq> x" for y using inj [of y n x] Some n that by blast
    have "dir_view fs' ?D y = ((dir_view fs ?D)(x \<mapsto> c)) y" for y
    proof (cases "y = x")
      case True
      then show ?thesis using Some n by (simp add: dir_view_def fs' file_set_file)
    next
      case False
      then show ?thesis using ne [OF False] by (simp add: dir_view_def fs' file_set_file split: option.splits inode.splits)
    qed
    moreover have "table_dir fs' ?D" using t r' by (simp add: table_dir_def fs')
    ultimately show ?thesis by blast
  qed
qed

lemma read_view:
  assumes "path_IsAbs d" and "plain_name x" and "table_dir fs (path_elems d)" and "\<And>op p. \<not> deny op p"
  shows "lk_ReadFile deny (path_Join [d, x]) fs = (case dir_view fs (path_elems d) x of Some c \<Rightarrow> Inr c | None \<Rightarrow> lk_ReadFile deny (path_Join [d, x]) fs)"
proof -
  have "lk_path fs True (path_Join [d, x]) = Inr (path_elems d @ [x])"
    by (rule lk_path_entry [OF assms(1,2)]) (use assms(3) in \<open>auto simp: table_dir_def\<close>)
  then show ?thesis using assms(4) by (auto simp: lk_ReadFile_def lk_look_def dir_view_def split: option.splits inode.splits)
qed

subsection \<open>The limits of a cgroup\<close>

lemma control_writes_view:
  assumes a: "path_IsAbs d"
  shows "table_dir fs (path_elems d) \<Longrightarrow> \<forall>(x, c) \<in> set ws. plain_name x \<Longrightarrow> control_writes deny d ws fs = (Inr u, fs') \<Longrightarrow>
    table_dir fs' (path_elems d) \<and> dir_view fs' (path_elems d) = dir_view fs (path_elems d) ++ map_of (rev ws)"
proof (induction ws arbitrary: fs)
  case (Cons w ws)
  obtain x c where w: "w = (x, c)" by fastforce
  obtain r fs1 where s: "lk_WriteFile deny (path_Join [d, x]) 0x1A4 c fs = (r, fs1)" by fastforce
  then have r: "r = Inr ()" using Cons.prems(3) by (cases r) (simp_all add: w control_write_def)
  have v: "table_dir fs1 (path_elems d)" "dir_view fs1 (path_elems d) = (dir_view fs (path_elems d))(x \<mapsto> c)"
    using write_view [OF a _ Cons.prems(1) s [unfolded r]] Cons.prems(2) by (auto simp: w)
  have "control_writes deny d ws fs1 = (Inr u, fs')" using Cons.prems(3) s r by (simp add: w control_write_def)
  then show ?case using Cons.IH [OF v(1)] Cons.prems(2) unfolding v(2) w by (simp del: fun_upd_apply)
qed simp

lemma control_writes_other:
  assumes a: "path_IsAbs d"
  shows "table_dir fs (path_elems d) \<Longrightarrow> \<forall>(x, c) \<in> set ws. plain_name x \<Longrightarrow> control_writes deny d ws fs = (r, fs') \<Longrightarrow>
    table_dir fs' (path_elems d) \<and> (\<forall>y. y \<notin> fst ` set ws \<longrightarrow> dir_view fs' (path_elems d) y = dir_view fs (path_elems d) y)"
proof (induction ws arbitrary: fs)
  case (Cons w ws)
  obtain x c where w: "w = (x, c)" by fastforce
  obtain r1 fs1 where s: "lk_WriteFile deny (path_Join [d, x]) 0x1A4 c fs = (r1, fs1)" by fastforce
  show ?case
  proof (cases r1)
    case (Inl e)
    then have "fs1 = fs" using s by (auto simp: lk_WriteFile_def split: if_splits sum.splits option.splits inode.splits)
    then show ?thesis using Cons.prems s Inl by (simp add: w control_write_def)
  next
    case (Inr u)
    have v: "table_dir fs1 (path_elems d)" "dir_view fs1 (path_elems d) = (dir_view fs (path_elems d))(x \<mapsto> c)"
      using write_view [OF a _ Cons.prems(1) s [unfolded Inr]] Cons.prems(2) by (auto simp: w)
    have "control_writes deny d ws fs1 = (r, fs')" using Cons.prems(3) s Inr by (simp add: w control_write_def)
    then show ?thesis using Cons.IH [OF v(1)] Cons.prems(2) by (simp add: w v(2))
  qed
qed simp

lemma ParseInt64_dec: "0 \<le> n \<Longrightarrow> n < 2 ^ 63 \<Longrightarrow> ParseInt64 (dec_of_int n) = n"
proof -
  assume n: "0 \<le> n" "n < 2 ^ 63"
  have d: "list_all is_digit (dec_of_nat (nat n))" using dec_of_nat_digits by (simp add: list_all_iff)
  have "hd (dec_of_nat (nat n)) \<in> set (dec_of_nat (nat n))" by simp
  then have "is_digit (hd (dec_of_nat (nat n)))" by (rule dec_of_nat_digits)
  then have "\<not> prefix ''-'' (dec_of_nat (nat n))" "\<not> prefix ''+'' (dec_of_nat (nat n))"
    by (cases "dec_of_nat (nat n)"; auto simp: is_digit_def)+
  then show "ParseInt64 (dec_of_int n) = n" using n d by (simp add: ParseInt64_def dec_of_int_def)
qed

lemma trim_space_dec: "0 \<le> n \<Longrightarrow> trim_space (dec_of_int n) = dec_of_int n"
proof -
  assume n: "0 \<le> n"
  have "visible c" if "c \<in> set (dec_of_nat (nat n))" for c using dec_of_nat_digits [OF that] by (simp add: is_digit_def visible_def)
  then show ?thesis using n by (intro trim_space_visible) (simp_all add: dec_of_int_def)
qed

lemma new_table_dir:
  assumes a: "path_IsAbs d" and x: "plain_name x" and r: "real_dir fs (path_elems d)" and n: "\<forall>l. prefix (path_elems d @ [x]) l \<longrightarrow> inode_at fs l = None"
    and m: "lk_MkdirAll deny (path_Join [d, x]) fs = (Inr u, fs')"
  shows "table_dir fs' (path_elems d @ [x]) \<and> dir_view fs' (path_elems d @ [x]) = Map.empty"
proof -
  let ?D = "path_elems d"
  have r': "real_dir fs' (?D @ [x])" by (rule MkdirAll_child [OF a x r _ m]) (use n in auto)
  have "fs' = set_node (?D @ [x]) IDir fs" using MkdirAll_last [OF a x r _ m] n by auto
  then have "inode_at fs' ((?D @ [x]) @ [y]) = None" for y using n by (simp add: inode_set_node)
  then show ?thesis using r' by (simp add: table_dir_def dir_view_def fun_eq_iff)
qed

lemma control_names: "plain_name ''cpu.max''" "plain_name ''memory.max''" "plain_name ''memory.high''" "plain_name ''io.weight''" "plain_name ''io.max''"
  by (simp_all add: plain_name_def)

lemma io_limits_other:
  assumes a: "path_IsAbs d" and t: "table_dir fs (path_elems d)" and y: "y \<noteq> ''io.weight''" "y \<noteq> ''io.max''"
  shows "table_dir (snd (setIOLimits env d lim fs)) (path_elems d) \<and> dir_view (snd (setIOLimits env d lim fs)) (path_elems d) y = dir_view fs (path_elems d) y"
proof -
  let ?w = "if rl_IOWeight lim > 0 then [(''io.weight'', dec_of_nat (rl_IOWeight lim))] else []"
  obtain r1 fs1 where 1: "control_writes (ce_deny env) d ?w fs = (r1, fs1)" by fastforce
  obtain r2 fs2 where 2: "control_writes (ce_deny env) d (io_max_lines env lim fs1) fs1 = (r2, fs2)" by fastforce
  have v1: "table_dir fs1 (path_elems d)" "dir_view fs1 (path_elems d) y = dir_view fs (path_elems d) y"
    using control_writes_other [OF a t _ 1] y control_names by (auto split: if_splits)
  have "\<forall>(x, c) \<in> set (io_max_lines env lim fs1). x = ''io.max''" by (auto simp: io_max_lines_def)
  then have v2: "table_dir fs2 (path_elems d)" "dir_view fs2 (path_elems d) y = dir_view fs1 (path_elems d) y"
    using control_writes_other [OF a v1(1) _ 2] y control_names by fastforce+
  have "setIOLimits env d lim fs = (case r1 of Inl e \<Rightarrow> (Inl e, fs1) | Inr _ \<Rightarrow> (r2, fs2))"
    unfolding setIOLimits_def 1 using 2 by (simp split: sum.splits)
  then show ?thesis using v1 v2 by (cases r1) simp_all
qed

text \<open>
  Claim C35. The cgroup of a VM carries its limits. After a new cgroup was made for a task, its control files hold the
  limits on CPU and memory, exactly where such limits are set, whatever became of the limits on devices; and the
  statistics report the memory limit that was asked for.
\<close>

theorem cgroup_limits_roundtrip:
  assumes a: "path_IsAbs base" and x: "plain_name taskID" and r: "real_dir fs (path_elems base)"
    and n: "\<forall>l. prefix (path_elems base @ [taskID]) l \<longrightarrow> inode_at fs l = None"
    and c: "CreateCgroup env base taskID lim fs = (Inr u, fs')" and ok: "\<And>op p. \<not> ce_deny env op p"
  shows "dir_view fs' (path_elems base @ [taskID]) ''cpu.max'' = (if cpu_max lim \<noteq> [] then Some (cpu_max lim) else None) \<and>
    dir_view fs' (path_elems base @ [taskID]) ''memory.max'' = (if rl_MemoryMax lim > 0 then Some (dec_of_int (rl_MemoryMax lim)) else None) \<and>
    dir_view fs' (path_elems base @ [taskID]) ''memory.high'' = (if rl_MemoryHigh lim > 0 then Some (dec_of_int (rl_MemoryHigh lim)) else None) \<and>
    (0 < rl_MemoryMax lim \<and> rl_MemoryMax lim < 2 ^ 63 \<longrightarrow> cs_MemoryMax (GetStats env base taskID fs') = rl_MemoryMax lim)"
proof -
  let ?p = "path_Join [base, taskID]" and ?D = "path_elems base @ [taskID]"
  have e: "path_elems ?p = ?D" and p: "path_IsAbs ?p" using path_Join_child [OF a x] by simp_all
  obtain fs1 fs2 fs3 where m: "lk_MkdirAll (ce_deny env) ?p fs = (Inr (), fs1)" and s2: "setCPULimits (ce_deny env) ?p lim fs1 = (Inr (), fs2)"
      and s3: "setMemoryLimits (ce_deny env) ?p lim fs2 = (Inr (), fs3)" and s4: "fs' = snd (setIOLimits env ?p lim fs3)"
    using c unfolding CreateCgroup_def Let_def by (auto split: sum.splits prod.splits)
  have v1: "table_dir fs1 ?D" "dir_view fs1 ?D = Map.empty" using new_table_dir [OF a x r n m] by auto
  have v2: "table_dir fs2 ?D" "dir_view fs2 ?D = map_of (if cpu_max lim \<noteq> [] then [(''cpu.max'', cpu_max lim)] else [])"
    using control_writes_view [OF p _ _ s2 [unfolded setCPULimits_def]] v1 control_names unfolding e by (auto split: if_splits)
  have v3: "table_dir fs3 ?D" "dir_view fs3 ?D = dir_view fs2 ?D ++ map_of (rev
      ((if rl_MemoryMax lim > 0 then [(''memory.max'', dec_of_int (rl_MemoryMax lim))] else []) @
       (if rl_MemoryHigh lim > 0 then [(''memory.high'', dec_of_int (rl_MemoryHigh lim))] else [])))"
    using control_writes_view [OF p _ _ s3 [unfolded setMemoryLimits_def]] v2(1) control_names unfolding e by auto
  have v4: "table_dir fs' ?D" "dir_view fs' ?D y = dir_view fs3 ?D y" if "y \<noteq> ''io.weight''" "y \<noteq> ''io.max''" for y
    using io_limits_other [OF p, of fs3 y env lim] v3(1) that unfolding e s4 by auto
  have mm: "dir_view fs' ?D ''memory.max'' = (if rl_MemoryMax lim > 0 then Some (dec_of_int (rl_MemoryMax lim)) else None)"
    using v4(2) [of "''memory.max''"] by (simp add: v3(2) v2(2))
  have "cs_MemoryMax (GetStats env base taskID fs') = rl_MemoryMax lim" if b: "0 < rl_MemoryMax lim" "rl_MemoryMax lim < 2 ^ 63"
  proof -
    have "lk_ReadFile (ce_deny env) (path_Join [?p, ''memory.max'']) fs' = Inr (dec_of_int (rl_MemoryMax lim))"
      using read_view [OF p control_names(2), of fs' "ce_deny env"] v4(1) [of "[]"] ok mm b unfolding e by simp
    moreover have "dec_of_int (rl_MemoryMax lim) \<noteq> ''max''" using ParseInt64_dec [of "rl_MemoryMax lim"] b
      by (auto simp: ParseInt64_def is_digit_def)
    ultimately show ?thesis using b ParseInt64_dec trim_space_dec by (simp add: GetStats_def Let_def)
  qed
  moreover have "dir_view fs' ?D ''cpu.max'' = (if cpu_max lim \<noteq> [] then Some (cpu_max lim) else None)"
    using v4(2) [of "''cpu.max''"] by (simp add: v3(2) v2(2))
  moreover have "dir_view fs' ?D ''memory.high'' = (if rl_MemoryHigh lim > 0 then Some (dec_of_int (rl_MemoryHigh lim)) else None)"
    using v4(2) [of "''memory.high''"] by (simp add: v3(2) v2(2))
  ultimately show ?thesis using mm by simp
qed

definition cgroup_fs :: host_fs where
  "cgroup_fs = \<lparr>hf_nodes = [([''c''], IDir)], hf_files = [], hf_next = 0\<rparr>"

definition cgroup_example :: cgroup_env where
  "cgroup_example = \<lparr>ce_deny = (\<lambda>_ _. False), ce_dev = (\<lambda>_. 0)\<rparr>"

definition limits_example :: resource_limits where
  "limits_example = \<lparr>rl_CPUQuotaUs = 50, rl_CPUMax = [], rl_MemoryMax = 64, rl_MemoryHigh = 0, rl_IOWeight = 0, rl_IOReadBPS = 0, rl_IOWriteBPS = 0\<rparr>"

lemma cgroup_fs_cases: "inode_at cgroup_fs l = (if l = [] \<or> l = [''c''] then Some IDir else None)"
  by (auto simp: inode_at_def cgroup_fs_def)

theorem cgroup_limits_roundtrip_witness:
  "\<exists>fs'. CreateCgroup cgroup_example ''/c'' ''t'' limits_example cgroup_fs = (Inr (), fs') \<and> dir_view fs' [''c'', ''t''] ''cpu.max'' = Some ''50 1000000'' \<and>
     dir_view fs' [''c'', ''t''] ''memory.max'' = Some ''64'' \<and> cs_MemoryMax (GetStats cgroup_example ''/c'' ''t'' fs') = 64"
proof -
  let ?r = "CreateCgroup cgroup_example ''/c'' ''t'' limits_example cgroup_fs"
  have e: "path_elems ''/c'' = [''c'']" and a: "path_IsAbs ''/c''" and k: "fst ?r = Inr ()" by code_simp+
  have l: "cpu_max limits_example = ''50 1000000''" "rl_MemoryMax limits_example = 64" "dec_of_int 64 = ''64''" by code_simp+
  have x: "plain_name ''t''" by (simp add: plain_name_def)
  have "inode_at cgroup_fs (take k [''c'']) = Some IDir" for k by (cases k) (simp_all add: cgroup_fs_cases)
  then have r: "real_dir cgroup_fs (path_elems ''/c'')" by (simp add: e real_dir_def plain_name_def)
  have n: "\<forall>l. prefix (path_elems ''/c'' @ [''t'']) l \<longrightarrow> inode_at cgroup_fs l = None" by (auto simp: e cgroup_fs_cases)
  have c: "?r = (Inr (), snd ?r)" using k by (metis prod.collapse)
  show ?thesis using cgroup_limits_roundtrip [OF a x r n c] c l by (auto simp: e cgroup_example_def)
qed

subsection \<open>New directories and files\<close>

lemma mkdir_steps_append:
  "mkdir_steps deny (ps @ qs) fs = (case mkdir_steps deny ps fs of (Inl e, fs1) \<Rightarrow> (Inl e, fs1) | (Inr _, fs1) \<Rightarrow> mkdir_steps deny qs fs1)"
  by (induction ps arbitrary: fs) (auto split: sum.splits inode.splits prod.splits)

text \<open>Only directories on the way are added.\<close>

definition adds_dirs :: "string list \<Rightarrow> host_fs \<Rightarrow> host_fs \<Rightarrow> bool" where
  "adds_dirs E fs fs' \<longleftrightarrow> (\<forall>l. inode_at fs' l = inode_at fs l \<or> inode_at fs l = None \<and> inode_at fs' l = Some IDir \<and> prefix l E) \<and>
     (\<forall>n. file_of fs' n = file_of fs n) \<and> hf_next fs' = hf_next fs"

lemma adds_dirs_refl: "adds_dirs E fs fs"
  by (simp add: adds_dirs_def)

lemma adds_dirs_trans: "adds_dirs E fs fs1 \<Longrightarrow> adds_dirs E fs1 fs2 \<Longrightarrow> adds_dirs E fs fs2"
  unfolding adds_dirs_def by (metis option.distinct(1))

lemma mkdir_prefixes:
  assumes pl: "\<forall>x \<in> set E. plain_name x" and nl: "\<forall>l. prefix l E \<longrightarrow> linkless fs l"
  shows "m \<le> length E \<Longrightarrow> mkdir_steps deny (map (\<lambda>k. path_of True (take k E)) [1..<Suc m]) fs = (Inr u, fs') \<Longrightarrow>
    real_dir fs' (take m E) \<and> adds_dirs E fs fs'"
proof (induction m arbitrary: fs' u)
  case 0
  then show ?case by (simp add: real_dir_def adds_dirs_refl inode_at_def)
next
  case (Suc m)
  let ?q = "take (Suc m) E" and ?D = "take m E"
  obtain fs1 where s1: "mkdir_steps deny (map (\<lambda>k. path_of True (take k E)) [1..<Suc m]) fs = (Inr (), fs1)"
      and s2: "mkdir_steps deny [path_of True ?q] fs1 = (Inr u, fs')"
    using Suc.prems(2) by (auto simp: mkdir_steps_append split: prod.splits sum.splits simp del: mkdir_steps.simps(2))
  have r1: "real_dir fs1 ?D" and a1: "adds_dirs E fs fs1" using Suc.IH [OF _ s1] Suc.prems(1) by simp_all
  have q: "?q = ?D @ [E ! m]" using Suc.prems(1) by (simp add: take_Suc_conv_app_nth)
  have x: "plain_name (E ! m)" using pl Suc.prems(1) by simp
  have "linkless fs1 ?q" using a1 nl take_is_prefix [of "Suc m" E] unfolding adds_dirs_def linkless_def by (metis inode.distinct(3) option.inject)
  then have fl: "lk_path fs1 b (path_of True ?q) = Inr ?q" for b
  proof -
    have "\<forall>x \<in> set ?q. plain_name x" using pl by (auto dest: in_set_takeD)
    then have "lk_path fs1 b (path_of True ?q) = follow 40 fs1 b ?D [E ! m]" using lk_path_of follow_real [OF r1] q by simp
    then show ?thesis using x \<open>linkless fs1 ?q\<close> unfolding q by (auto simp: plain_name_def linkless_def split: option.splits inode.splits)
  qed
  have "inode_at fs1 ?q = Some IDir \<and> fs' = fs1 \<or> inode_at fs1 ?q = None \<and> fs' = set_node ?q IDir fs1"
  proof (cases "lk_Stat deny (path_of True ?q) fs1")
    case (Inl e)
    obtain r2 fs2 where "lk_Mkdir deny (path_of True ?q) fs1 = (r2, fs2)" by fastforce
    then show ?thesis using s2 Inl fl [of False] by (cases r2) (auto simp: lk_Mkdir_def split: if_splits)
  next
    case (Inr i)
    then show ?thesis using s2 fl [of True] by (cases i) (auto simp: lk_Stat_def lk_look_def split: if_splits option.splits)
  qed
  moreover have "prefix ?q E" by (rule take_is_prefix)
  moreover have "?q \<noteq> []" using q by simp
  ultimately have d: "inode_at fs' ?q = Some IDir" and a2: "adds_dirs E fs1 fs'" and g: "grows fs1 fs'"
    by (auto simp: adds_dirs_def inode_set_node grows_set_node split: if_splits)
  then show ?case using real_dir_child [OF grows_real_dir [OF g r1]] d x adds_dirs_trans [OF a1 a2] unfolding q by simp
qed

lemma MkdirAll_real:
  assumes "path_IsAbs p" and "\<forall>l. prefix l (path_elems p) \<longrightarrow> linkless fs l" and "lk_MkdirAll deny p fs = (Inr u, fs')"
  shows "real_dir fs' (path_elems p) \<and> adds_dirs (path_elems p) fs fs'"
  using mkdir_prefixes [of "path_elems p" fs "length (path_elems p)" deny u fs'] assms abs_plain [OF assms(1)]
  by (simp add: lk_MkdirAll_def)

lemma follow_grows:
  "grows fs fs' \<Longrightarrow> follow n fs b at xs = Inr l \<Longrightarrow> inode_at fs l \<noteq> None \<Longrightarrow> follow n fs' b at xs = Inr l"
proof (induction n fs b at xs rule: follow.induct)
  case (2 n fs b at x xs)
  show ?case
  proof (cases "inode_at fs (at @ [x])")
    case None
    then show ?thesis using "2.prems" "2.IH"(1,2) by (auto split: if_splits)
  next
    case (Some i)
    then have i': "inode_at fs' (at @ [x]) = Some i" using "2.prems"(1) by (simp add: growsD)
    show ?thesis
    proof (cases "x = [] \<or> x = ''.'' \<or> x = ''..''")
      case True
      then show ?thesis using "2.prems" "2.IH"(1,2) by auto
    next
      case False
      show ?thesis
      proof (cases i)
        case (ILink t)
        show ?thesis
        proof (cases "xs = [] \<and> \<not> b")
          case True
          then show ?thesis using False Some i' ILink "2.prems"(2) by simp
        next
          case l: False
          then obtain m where "n = Suc m" using False Some ILink "2.prems"(2) by (cases n) auto
          then show ?thesis using False l Some i' ILink "2.prems" "2.IH"(4) [of i t m] by auto
        qed
      qed (use False Some i' "2.prems" "2.IH"(3) in \<open>auto split: if_splits\<close>)
    qed
  qed
qed simp

lemma read_grows:
  assumes "grows fs fs'" and "lk_look op deny b p fs = Inr i"
  shows "lk_look op deny b p fs' = Inr i"
proof -
  obtain l where "\<not> deny op p" "lk_path fs b p = Inr l" "inode_at fs l = Some i"
    using assms(2) by (auto simp: lk_look_def split: if_splits sum.splits option.splits)
  then show ?thesis using follow_grows [OF assms(1)] growsD [OF assms(1)] unfolding lk_look_def lk_path_def by force
qed

subsection \<open>The files of a jail\<close>

definition numbered :: "host_fs \<Rightarrow> bool" where
  "numbered fs \<longleftrightarrow> (\<forall>l n. inode_at fs l = Some (IFile n) \<longrightarrow> n < hf_next fs)"

lemma grows_adds_dirs: "adds_dirs E fs fs' \<Longrightarrow> grows fs fs'"
  unfolding adds_dirs_def grows_def by (metis option.distinct(1))

lemma numbered_adds_dirs: "adds_dirs E fs fs' \<Longrightarrow> numbered fs \<Longrightarrow> numbered fs'"
  unfolding adds_dirs_def numbered_def by (metis inode.distinct(1) option.inject)

lemma new_file:
  assumes a: "path_IsAbs d" and x: "plain_name x" and r: "real_dir fs (path_elems d)" and n: "inode_at fs (path_elems d @ [x]) = None"
    and w: "lk_WriteFile deny (path_Join [d, x]) m c fs = (Inr u, fs')"
  shows "fs' = set_node (path_elems d @ [x]) (IFile (hf_next fs)) (set_file (hf_next fs) (m, c) (fs\<lparr>hf_next := Suc (hf_next fs)\<rparr>))"
proof -
  have "lk_path fs True (path_Join [d, x]) = Inr (path_elems d @ [x])" by (rule lk_path_entry [OF a x r]) (simp add: n)
  then show ?thesis using w n by (auto simp: lk_WriteFile_def split: if_splits)
qed

text \<open>A copy under a new name is a new file with the contents of the source; nothing else changes.\<close>

definition new_copy :: "string list \<Rightarrow> string \<Rightarrow> host_fs \<Rightarrow> host_fs \<Rightarrow> bool" where
  "new_copy l c fs fs' \<longleftrightarrow> inode_at fs' l = Some (IFile (hf_next fs)) \<and> snd (file_of fs' (hf_next fs)) = c \<and> hf_next fs' = Suc (hf_next fs) \<and>
     (\<forall>l'. l' \<noteq> l \<longrightarrow> inode_at fs' l' = inode_at fs l') \<and> (\<forall>n. n \<noteq> hf_next fs \<longrightarrow> file_of fs' n = file_of fs n)"

lemma copy_new:
  assumes a: "path_IsAbs d" and x: "plain_name x" and r: "real_dir fs (path_elems d)" and n: "inode_at fs (path_elems d @ [x]) = None"
    and u: "numbered fs" and s: "lk_ReadFile deny src fs = Inr c" and w: "jail_copyFile deny src (path_Join [d, x]) fs = (Inr v, fs')"
  shows "new_copy (path_elems d @ [x]) c fs fs'"
proof -
  let ?l = "path_elems d @ [x]"
  obtain k where k: "lk_look OpRead deny True src fs = Inr (IFile k)" "c = snd (file_of fs k)"
    using s by (auto simp: lk_ReadFile_def split: sum.splits inode.splits)
  then obtain l where "inode_at fs l = Some (IFile k)" by (auto simp: lk_look_def split: if_splits sum.splits option.splits)
  then have low: "k \<noteq> hf_next fs" using u unfolding numbered_def by blast
  obtain fs1 where w1: "lk_WriteFile deny (path_Join [d, x]) 0x180 [] fs = (Inr (), fs1)"
      and w2: "lk_WriteFile deny (path_Join [d, x]) 0x180 (snd (file_of fs1 k)) fs1 = (Inr v, fs')"
    using w k(1) by (auto simp: jail_copyFile_def split: prod.splits sum.splits)
  have fs1: "fs1 = set_node ?l (IFile (hf_next fs)) (set_file (hf_next fs) (0x180, []) (fs\<lparr>hf_next := Suc (hf_next fs)\<rparr>))"
    by (rule new_file [OF a x r n w1])
  have i1: "inode_at fs1 ?l = Some (IFile (hf_next fs))" by (simp add: fs1 inode_set_node)
  have "lk_path fs1 True (path_Join [d, x]) = Inr ?l"
    by (rule lk_path_entry [OF a x grows_real_dir [OF grows_WriteFile [OF w1] r]]) (simp add: i1)
  then have fs': "fs' = set_file (hf_next fs) (fst (file_of fs1 (hf_next fs)), snd (file_of fs1 k)) fs1"
    using w2 i1 by (auto simp: lk_WriteFile_def split: if_splits)
  show ?thesis using low k(2) by (auto simp: new_copy_def fs' fs1 inode_set_node file_set_file)
qed

lemma numbered_copy: "new_copy l c fs fs' \<Longrightarrow> numbered fs \<Longrightarrow> numbered fs'"
  unfolding new_copy_def numbered_def by (metis inode.inject(1) less_Suc_eq option.inject)

lemma grows_copy: "new_copy l c fs fs' \<Longrightarrow> inode_at fs l = None \<Longrightarrow> grows fs fs'"
  unfolding new_copy_def grows_def by (metis option.distinct(1))

lemma jail_step_ok: "jail_step p f fs = (Inr u, fs') \<Longrightarrow> f fs = (Inr (), fs')"
  by (auto simp: jail_step_def split: prod.splits sum.splits)

lemma then_step_ok: "then_step f g fs = (Inr u, fs') \<Longrightarrow> \<exists>fs1. f fs = (Inr (), fs1) \<and> g fs1 = (Inr u, fs')"
  by (auto simp: then_step_def split: prod.splits sum.splits)

lemma linkless_adds_dirs: "adds_dirs E fs fs' \<Longrightarrow> linkless fs l \<Longrightarrow> linkless fs' l"
  unfolding adds_dirs_def linkless_def by (metis inode.distinct(3) option.inject)

lemma read_later:
  assumes r: "lk_ReadFile deny p fs = Inr c" and g: "grows fs fs'" and f: "\<And>l n. inode_at fs l = Some (IFile n) \<Longrightarrow> file_of fs' n = file_of fs n"
  shows "lk_ReadFile deny p fs' = Inr c"
proof -
  obtain n where n: "lk_look OpRead deny True p fs = Inr (IFile n)" "c = snd (file_of fs n)"
    using r by (auto simp: lk_ReadFile_def split: sum.splits inode.splits)
  then obtain l where "inode_at fs l = Some (IFile n)" by (auto simp: lk_look_def split: if_splits sum.splits option.splits)
  then show ?thesis using read_grows [OF g n(1)] n(2) f by (simp add: lk_ReadFile_def)
qed

lemma jail_names: "plain_name ''kernel''" "plain_name ''drives''" "plain_name ''run''" "plain_name ''firecracker''" "plain_name ''vmlinux''" "plain_name ''rootfs.ext4''"
  by (simp_all add: plain_name_def)

text \<open>The three directories of a jail.\<close>

lemma jail_dirs:
  assumes a: "path_IsAbs C" and new: "\<forall>l. prefix (path_elems C) l \<longrightarrow> inode_at fs l = None" and nl: "\<forall>l. prefix l (path_elems C) \<longrightarrow> linkless fs l"
    and m1: "lk_MkdirAll deny (path_Join [C, ''kernel'']) fs = (Inr (), fs1)" and m2: "lk_MkdirAll deny (path_Join [C, ''drives'']) fs1 = (Inr (), fs2)"
    and m3: "lk_MkdirAll deny (path_Join [C, ''run'', ''firecracker'']) fs2 = (Inr (), fs3)"
  shows "adds_dirs (path_elems C @ [''kernel'']) fs fs1" and "adds_dirs (path_elems C @ [''drives'']) fs1 fs2"
    and "adds_dirs (path_elems C @ [''run'', ''firecracker'']) fs2 fs3" and "real_dir fs3 (path_elems C @ [''kernel''])"
    and "real_dir fs3 (path_elems C @ [''drives''])" and "real_dir fs3 (path_elems C @ [''run'', ''firecracker''])"
proof -
  let ?C = "path_elems C"
  have ne: "linkless fs (?C @ es)" for es using new by (simp add: linkless_def)
  have nl': "linkless fs l" if "prefix l (?C @ es)" for l es using that nl ne by (auto simp: prefix_append)
  note e1 = path_Join_child(2,3) [OF a jail_names(1)] and e2 = path_Join_child(2,3) [OF a jail_names(2)]
  have pl: "\<forall>x \<in> set (?C @ [''run'', ''firecracker'']). plain_name x" using abs_plain [OF a] jail_names by auto
  have e3: "path_elems (path_Join [C, ''run'', ''firecracker'']) = ?C @ [''run'', ''firecracker'']" "path_IsAbs (path_Join [C, ''run'', ''firecracker''])"
    using path_elems_path_of [OF plain_clean [OF pl]] path_Join_child2 [OF a jail_names(3,4)] by (simp_all add: path_IsAbs_def)
  have a1: "adds_dirs (?C @ [''kernel'']) fs fs1" and r1: "real_dir fs1 (?C @ [''kernel''])"
    using MkdirAll_real [OF e1(1) _ m1] nl' unfolding e1(2) by auto
  have a2: "adds_dirs (?C @ [''drives'']) fs1 fs2" and r2: "real_dir fs2 (?C @ [''drives''])"
    using MkdirAll_real [OF e2(1) _ m2] linkless_adds_dirs [OF a1 nl'] unfolding e2(2) by auto
  have a3: "adds_dirs (?C @ [''run'', ''firecracker'']) fs2 fs3" and r3: "real_dir fs3 (?C @ [''run'', ''firecracker''])"
    using MkdirAll_real [OF e3(2) _ m3] linkless_adds_dirs [OF a2 linkless_adds_dirs [OF a1 nl']] unfolding e3(1) by auto
  show "adds_dirs (?C @ [''kernel'']) fs fs1" "adds_dirs (?C @ [''drives'']) fs1 fs2" "adds_dirs (?C @ [''run'', ''firecracker'']) fs2 fs3"
    "real_dir fs3 (?C @ [''run'', ''firecracker''])" by (fact a1 a2 a3 r3)+
  show "real_dir fs3 (?C @ [''kernel''])" "real_dir fs3 (?C @ [''drives''])"
    using grows_real_dir [OF grows_trans [OF grows_adds_dirs [OF a2] grows_adds_dirs [OF a3]] r1] grows_real_dir [OF grows_adds_dirs [OF a3] r2] by simp_all
qed

text \<open>
  Claim C24. A jail holds what its VM boots from. After the resources of a new jail were prepared, the files under its
  root are a copy of the kernel and a copy of the root file system, byte for byte, and the directory for the socket is
  there; outside of the jail only directories on the way to it were added, and no file has changed.
\<close>

theorem jail_resources_copied:
  assumes a: "path_IsAbs C" and new: "\<forall>l. prefix (path_elems C) l \<longrightarrow> inode_at fs l = None" and nl: "\<forall>l. prefix l (path_elems C) \<longrightarrow> linkless fs l"
    and u: "numbered fs" and k: "lk_ReadFile (je_deny env) (jv_KernelPath vm) fs = Inr kd" and rf: "lk_ReadFile (je_deny env) (jv_RootfsPath vm) fs = Inr rd"
    and p: "prepareChrootResources env C vm fs = (Inr v, fs')"
  shows "dir_view fs' (path_elems C @ [''kernel'']) ''vmlinux'' = Some kd \<and> dir_view fs' (path_elems C @ [''drives'']) ''rootfs.ext4'' = Some rd \<and>
    inode_at fs' (path_elems C @ [''run'', ''firecracker'']) = Some IDir \<and>
    (\<forall>l. \<not> prefix (path_elems C) l \<longrightarrow> inode_at fs' l = inode_at fs l \<or> inode_at fs l = None \<and> inode_at fs' l = Some IDir \<and> prefix l (path_elems C)) \<and>
    (\<forall>l n. inode_at fs l = Some (IFile n) \<longrightarrow> file_of fs' n = file_of fs n)"
proof -
  let ?C = "path_elems C"
  let ?lk = "(?C @ [''kernel'']) @ [''vmlinux'']" and ?lr = "(?C @ [''drives'']) @ [''rootfs.ext4'']"
  obtain fs1 fs2 fs3 fs4 where m1: "lk_MkdirAll (je_deny env) (path_Join [C, ''kernel'']) fs = (Inr (), fs1)"
      and m2: "lk_MkdirAll (je_deny env) (path_Join [C, ''drives'']) fs1 = (Inr (), fs2)"
      and m3: "lk_MkdirAll (je_deny env) (path_Join [C, ''run'', ''firecracker'']) fs2 = (Inr (), fs3)"
      and c1: "jail_copyFile (je_deny env) (jv_KernelPath vm) (path_Join [path_Join [C, ''kernel''], ''vmlinux'']) fs3 = (Inr (), fs4)"
      and c2: "jail_copyFile (je_deny env) (jv_RootfsPath vm) (path_Join [path_Join [C, ''drives''], ''rootfs.ext4'']) fs4 = (Inr (), fs')"
    using p unfolding prepareChrootResources_def Let_def by (blast dest!: then_step_ok jail_step_ok)
  note d = jail_dirs [OF a new nl m1 m2 m3] and e1 = path_Join_child(2,3) [OF a jail_names(1)] and e2 = path_Join_child(2,3) [OF a jail_names(2)]
  have g3: "grows fs fs3" using grows_trans [OF grows_trans [OF grows_adds_dirs [OF d(1)] grows_adds_dirs [OF d(2)]] grows_adds_dirs [OF d(3)]] .
  have n3: "numbered fs3" using numbered_adds_dirs [OF d(3) numbered_adds_dirs [OF d(2) numbered_adds_dirs [OF d(1) u]]] .
  have f3: "file_of fs3 n = file_of fs n" for n using d(1-3) by (simp add: adds_dirs_def)
  have i3: "inode_at fs3 l = inode_at fs l \<or> inode_at fs l = None \<and> inode_at fs3 l = Some IDir \<and>
      (prefix l (?C @ [''kernel'']) \<or> prefix l (?C @ [''drives'']) \<or> prefix l (?C @ [''run'', ''firecracker'']))" for l
    using d(1-3) unfolding adds_dirs_def by metis
  have nk: "inode_at fs3 ?lk = None" "inode_at fs3 ?lr = None" using i3 [of ?lk] i3 [of ?lr] new by auto
  have k1: "new_copy ?lk kd fs3 fs4"
    using copy_new [OF e1(1) jail_names(5) _ _ n3 read_later [OF k g3 f3] c1] d(4) nk(1) unfolding e1(2) by simp
  have g4: "grows fs3 fs4" and n4: "numbered fs4" using grows_copy [OF k1 nk(1)] numbered_copy [OF k1 n3] by simp_all
  have f4: "file_of fs4 n = file_of fs n" if "inode_at fs l = Some (IFile n)" for l n
    using k1 f3 n3 growsD [OF g3 that] unfolding new_copy_def numbered_def by (metis less_irrefl)
  have k2: "new_copy ?lr rd fs4 fs'"
    using copy_new [OF e2(1) jail_names(6) _ _ n4 read_later [OF rf grows_trans [OF g3 g4] f4] c2] grows_real_dir [OF g4 d(5)] nk(2) k1
    unfolding e2(2) by (simp add: new_copy_def)
  have "dir_view fs' (?C @ [''kernel'']) ''vmlinux'' = Some kd" "dir_view fs' (?C @ [''drives'']) ''rootfs.ext4'' = Some rd"
    using k1 k2 by (simp_all add: dir_view_def new_copy_def)
  moreover have i4: "inode_at fs' l = inode_at fs3 l" if "l \<noteq> ?lk" "l \<noteq> ?lr" for l using k1 k2 that by (simp add: new_copy_def)
  moreover have "inode_at fs' (?C @ [''run'', ''firecracker'']) = Some IDir" using i4 real_dir_at [OF d(6)] by simp
  moreover have "inode_at fs' l = inode_at fs l \<or> inode_at fs l = None \<and> inode_at fs' l = Some IDir \<and> prefix l ?C" if "\<not> prefix ?C l" for l
  proof -
    have "l \<noteq> ?lk" "l \<noteq> ?lr" using that by auto
    then show ?thesis using i3 [of l] i4 [of l] that by (auto simp: prefix_append)
  qed
  moreover have "file_of fs' n = file_of fs n" if "inode_at fs l = Some (IFile n)" for l n
    using k2 f4 [OF that] n4 growsD [OF grows_trans [OF g3 g4] that] unfolding new_copy_def numbered_def by (metis less_irrefl)
  ultimately show ?thesis by blast
qed

definition jail_fs :: host_fs where
  "jail_fs = \<lparr>hf_nodes = [([''k''], IFile 0), ([''r''], IFile 1), ([''j''], IDir)], hf_files = [(0, 0x1A4, ''K''), (1, 0x1A4, ''R'')], hf_next = 2\<rparr>"

definition jail_example_env :: jail_env where
  "jail_example_env = \<lparr>je_deny = (\<lambda>_ _. False), je_look = (\<lambda>_. None), je_spawn = (\<lambda>_ _. Some 7), je_seen = (\<lambda>_ fs. fs), je_exits = (\<lambda>_. True), je_kill = (\<lambda>_. True)\<rparr>"

definition jail_example_vm :: jail_vm where
  "jail_example_vm = \<lparr>jv_TaskID = ''t'', jv_VcpuCount = 1, jv_MemoryMB = 128, jv_KernelPath = ''/k'', jv_RootfsPath = ''/r'', jv_BootArgs = [], jv_HtEnabled = False, jv_NetworkDev = [], jv_GuestMac = []\<rparr>"

lemma jail_fs_cases:
  "inode_at jail_fs l = (if l = [] \<or> l = [''j''] then Some IDir else if l = [''k''] then Some (IFile 0) else if l = [''r''] then Some (IFile 1) else None)"
  by (auto simp: inode_at_def jail_fs_def)

theorem jail_resources_copied_witness:
  "\<exists>fs'. prepareChrootResources jail_example_env ''/j/t'' jail_example_vm jail_fs = (Inr (), fs') \<and>
     dir_view fs' [''j'', ''t'', ''kernel''] ''vmlinux'' = Some ''K'' \<and> dir_view fs' [''j'', ''t'', ''drives''] ''rootfs.ext4'' = Some ''R''"
proof -
  let ?r = "prepareChrootResources jail_example_env ''/j/t'' jail_example_vm jail_fs"
  have e: "path_elems ''/j/t'' = [''j'', ''t'']" and a: "path_IsAbs ''/j/t''" and k: "fst ?r = Inr ()" by code_simp+
  have rd: "lk_ReadFile (je_deny jail_example_env) (jv_KernelPath jail_example_vm) jail_fs = Inr ''K''"
    "lk_ReadFile (je_deny jail_example_env) (jv_RootfsPath jail_example_vm) jail_fs = Inr ''R''" by code_simp+
  have new: "\<forall>l. prefix (path_elems ''/j/t'') l \<longrightarrow> inode_at jail_fs l = None" by (auto simp: e jail_fs_cases)
  have nl: "\<forall>l. prefix l (path_elems ''/j/t'') \<longrightarrow> linkless jail_fs l" by (auto simp: linkless_def jail_fs_cases split: if_splits)
  have h: "hf_next jail_fs = 2" by (simp add: jail_fs_def)
  have u: "numbered jail_fs" by (auto simp: numbered_def jail_fs_cases h split: if_splits)
  have c: "?r = (Inr (), snd ?r)" using k by (metis prod.collapse)
  show ?thesis using jail_resources_copied [OF a new nl u rd c] c by (auto simp: e)
qed

subsection \<open>Processes\<close>

lemma GetProcess_update: "jailer_GetProcess (j\<lparr>jr_processes := AList.update k p (jr_processes j)\<rparr>) = (jailer_GetProcess j)(k \<mapsto> p)"
  by (simp add: jailer_GetProcess_def update_conv fun_eq_iff)

lemma GetProcess_forget: "jailer_GetProcess (jailer_forget t j) = (jailer_GetProcess j)(t := None)"
  by (simp add: jailer_GetProcess_def jailer_forget_def delete_conv fun_eq_iff)

text \<open>
  A process that was started for a VM is in the table, under its task and with a socket that exists, or it was
  killed, when the socket did not appear; every other failure comes before a process is started. A start that fails
  leaves the table as it was.
\<close>

theorem jail_start_accounted:
  assumes s: "jailer_Start env vm j w = (r, j', w')"
  shows "case r of
      Inr p \<Rightarrow> jailer_GetProcess j' = (jailer_GetProcess j)(jv_TaskID vm \<mapsto> p) \<and> jw_killed w' = jw_killed w \<and>
        (\<exists>i. lk_Stat (je_deny env) (jp_SocketPath p) (jw_fs w') = Inr i)
    | Inl (NoSocket _) \<Rightarrow> j' = j \<and> (\<exists>pid. jw_killed w' = pid # jw_killed w)
    | Inl _ \<Rightarrow> j' = j \<and> jw_killed w' = jw_killed w"
proof -
  let ?c = "buildJailerCommand (jr_config j) vm"
  obtain r1 w1 where p: "on_jail_fs (prepareChrootResources env (chroot_dir (jr_config j) (jv_TaskID vm)) vm) w = (r1, w1)" by fastforce
  then have k1: "jw_killed w1 = jw_killed w" by (auto simp: on_jail_fs_def split: prod.splits)
  have e1: "\<forall>so. r1 \<noteq> Inl (NoSocket so)" using p
    by (auto simp: on_jail_fs_def prepareChrootResources_def Let_def then_step_def jail_step_def split: prod.splits sum.splits)
  have v: "validateVMConfig env vm (jw_fs w) \<noteq> Inl (NoSocket so)" for so
    by (auto simp: validateVMConfig_def split: if_splits sum.splits)
  have f: "\<exists>i. lk_Stat (je_deny env) so (je_seen env k fs) = Inr i" if "waitForSocket env so fs = Some k" for so fs k
    using find_SomeD(1) [OF that [unfolded waitForSocket_def]] by (auto split: sum.splits)
  consider (invalid) e where "validateVMConfig env vm (jw_fs w) = Inl e" | (unprepared) e where "validateVMConfig env vm (jw_fs w) = Inr ()" "r1 = Inl e"
    | (spawn) "validateVMConfig env vm (jw_fs w) = Inr ()" "r1 = Inr ()"
    by (cases "validateVMConfig env vm (jw_fs w)"; cases r1) auto
  then show ?thesis
  proof cases
    case invalid
    then show ?thesis using s v by (auto simp: jailer_Start_def split: jail_error.splits)
  next
    case unprepared
    then show ?thesis using s p e1 k1 by (auto simp: jailer_Start_def split: jail_error.splits)
  next
    case spawn
    then show ?thesis using s p k1 f GetProcess_update
      by (auto simp: jailer_Start_def Let_def buildJailerCommand_def split: option.splits)
  qed
qed

text \<open>
  The socket that is waited for does not lie in the directory that the jailer confines the VM to, where the
  resources are put: Firecracker makes its socket under the latter.
\<close>

definition jail_example :: jail_settings where
  "jail_example = \<lparr>jl_FirecrackerPath = ''/bin/firecracker'', jl_JailerPath = ''/bin/jailer'', jl_ChrootBaseDir = ''/srv/jailer'', jl_UID = 1000, jl_GID = 1000,
     jl_NetNS = [], jl_CgroupVersion = ''v2'', jl_EnableSeccomp = False, jl_SeccompPolicyPath = [], jl_ParentCgroup = [], jl_CPUQuotaUs = 0, jl_MemoryMax = 0, jl_ExtraArgs = []\<rparr>"

lemma socket_outside_jail:
  "chroot_dir jail_example ''t'' = ''/srv/jailer/firecracker/t/root''" "jail_socket jail_example ''t'' = ''/srv/jailer/t/run/firecracker/t.sock''"
  "last (fst (buildJailerCommand jail_example jail_example_vm)) = ''/run/firecracker/t.sock''"
  by code_simp+

subsection \<open>Device numbers\<close>

text \<open>The encoding of a device number in Linux.\<close>

definition linux_dev :: "nat \<Rightarrow> nat \<Rightarrow> 64 word" where
  "linux_dev major minor = word_of_nat (minor mod 256) OR push_bit 8 (word_of_nat (major mod 4096)) OR push_bit 12 (word_of_nat (minor div 256 * 256))"

text \<open>Minor numbers beyond 255 are not understood: another device gets the limits.\<close>

lemma large_minor_misread: "drop_bit 8 (linux_dev 8 256) = 4104" "linux_dev 8 256 AND 0xFF = 0" "drop_bit 20 (linux_dev 8 256) AND 0xFFF = 1" "linux_dev 8 256 AND 0xFFFFF = 0x800"
  by (simp_all add: linux_dev_def push_bit_eq_mult)

end
