(* ===== verification/Spec2Isabelle.thy ===== *)
theory Spec2Isabelle
  imports Cni_Allocator_Correct Swarm_Resources Node_System Library_Executor Runtime_State Node_Config Vm_Snapshot_Correct Volume_Archive_Correct Volume_Account
    Image_Prepare_Correct Jailer_Correct
begin

text \<open>
  \<^bold>\<open>A verification development for SwarmCracker\<close>

  SwarmCracker runs the tasks of a SwarmKit cluster as Firecracker microVMs. SwarmKit asks the
  executor of a node (\<open>pkg/swarmkit\<close>) for a controller per task; the controller converts the task,
  has its image, volumes and network prepared and has a VM started by the VMM manager, with the
  machine configuration that the translator builds. The network manager (\<open>pkg/network\<close>) creates the
  TAP devices and assigns addresses, by itself or through a CNI plugin (\<open>cmd/swarmcracker-cni\<close>). On
  the managers of the cluster the CNI network allocator (\<open>pkg/cni\<close>) gives networks, services, tasks
  and nodes their addresses.

  \<^bold>\<open>Theories and sources\<close>

  Foundations. \<open>Prelude\<close> has the machine types, results, byte strings as numbers and the orders in
  which maps are iterated. \<open>Go_Strings\<close>, \<open>Go_Space\<close>, \<open>Go_Net\<close>, \<open>Go_Os\<close> and \<open>Go_Sha256\<close> are the parts
  of Go's standard library that the sources use: strings are lists of bytes, a file system is a map
  from paths to contents, JSON documents are values of a datatype. \<open>Addr_Table\<close> and \<open>Resource_Table\<close>
  are the contracts of allocators, as locales.

  Cluster side, \<open>pkg/cni\<close>. \<open>Cni_Types\<close> (\<open>types.go\<close>), \<open>Cni_Ipam\<close> (\<open>ipam.go\<close>), \<open>Cni_Config\<close>
  (\<open>config.go\<close>, \<open>files.go\<close>), \<open>Cni_Plugins\<close> (\<open>plugin_manager.go\<close>, \<open>executor.go\<close>), \<open>Cni_Provider\<close>
  (\<open>provider.go\<close>, with the heap of the network objects that several maps share) and \<open>Cni_Allocator\<close>
  (\<open>allocator.go\<close>). \<open>Cni_Ipam_Correct\<close> interprets the address contract: no address is given twice, the
  gateway never, an allocation succeeds while there is room, and where it leaves the subnet.
  \<open>Cni_Allocator_Correct\<close> interprets the resource contract on networks and on node attachments, which
  gives refinements of an abstract machine on sets of keys, and has the round trips of tasks,
  attachments and services.

  Node side. \<open>Task_Types\<close> (\<open>pkg/types/task.go\<close>), \<open>Swarm_Translator\<close> (\<open>pkg/swarmkit/translator.go\<close>),
  \<open>Vmm_Manager\<close> (\<open>vmm.go\<close>), \<open>Swarm_Controller\<close> and \<open>Swarm_Executor\<close> (\<open>executor.go\<close>), \<open>Swarm_Resources\<close>
  (its resource report). \<open>Vmm_Correct\<close> shows in which order a VM is configured and started and what
  starting and removing it does to the table of processes. \<open>Swarm_Executor\<close> states what the controllers
  rely on as the locale \<open>vm_managers\<close>, a step relation for the calls of the agent and an invariant of
  every reachable state, and interprets the locale on the program's managers; \<open>Swarm_Correct\<close> draws the
  consequences for the program.

  Node network. \<open>Net_Allocator\<close> (the static allocator of \<open>pkg/network/manager.go\<close>), \<open>Net_Manager\<close> (the
  rest of that file) and \<open>Net_Cni_Plugin\<close> (\<open>pkg/network/cni.go\<close>, \<open>cmd/swarmcracker-cni/main.go\<close>).
  \<open>Net_Allocator_Correct\<close> interprets the address contract a second time and shows when probing finds an
  address and which; \<open>Net_Manager_Correct\<close> relates the devices to the machine configuration and shows
  what preparation and cleanup do to devices and addresses.

  Library side. \<open>Runtime_State\<close> (\<open>pkg/runtime/state.go\<close>) has the states of the VMs and their file: what
  survives a restart, that the file is replaced as a whole, what reconciliation changes.
  \<open>Task_Translator\<close> (\<open>pkg/translator/translator.go\<close>), \<open>Lifecycle_Vmm\<close> (\<open>pkg/lifecycle/vmm.go\<close>) and
  \<open>Library_Executor\<close> (\<open>pkg/executor/executor.go\<close>) are the translator, the VM manager and the executor for use
  without SwarmKit. The translator is compared with \<open>Swarm_Translator\<close> and with the network manager. The VM manager
  keeps an instance with a state per task, on the host of \<open>Vmm_Manager\<close>. The executor has a bounded channel of events;
  it states what it relies on as the locale \<open>lib_vms\<close>, interpreted on the managers that the command line program
  gives it, which shows what becomes of the VM of a task that is removed. \<open>Node_Config\<close> (\<open>pkg/config/config.go\<close>) has the defaults, the validation, the
  migration and the merging of the configuration of a node.

  Stored state. \<open>Go_Tree\<close> is a file system of regular files and directories, without links. \<open>Vm_Snapshot\<close> (\<open>pkg/snapshot/snapshot.go\<close>) has
  the snapshots of VMs on it; \<open>Vm_Snapshot_Correct\<close> views a tree as the map of its snapshots and shows what
  creating, limiting, cleaning up and restoring do to it, and that a VM is never left paused. Volumes
  (\<open>pkg/storage\<close>) are in \<open>Volume_Store\<close> (metadata, quota, directory driver, file helpers), \<open>Volume_Archive\<close> (its
  archives) and \<open>Volume_Manager\<close> (block driver and manager). \<open>Volume_Copy\<close> shows that the recursive copy lays
  one tree over another and when it succeeds; \<open>Volume_Correct\<close> that names stay in their directory, that data
  survives the VM and that images are not left mounted; \<open>Volume_Archive_Correct\<close> that snapshots restore and
  archives stay inside; \<open>Volume_Account\<close> states what the manager relies on as the locale \<open>volume_driver\<close> and
  interprets it on both drivers.

  Images (\<open>pkg/image\<close>). \<open>Go_Link\<close> is a file system with symbolic and hard links. \<open>Image_Wrapper\<close> (\<open>oci_info.go\<close>,
  \<open>wrapper.go\<close>) has the script that a VM boots with and shows that the shell reads the command of the image from
  it. \<open>Image_Rootfs\<close> has the unpacking of archives and the detection of init systems (\<open>detector.go\<close>); \<open>Image_Init\<close>
  (\<open>init.go\<close>, \<open>busybox.go\<close>, \<open>essentials.go\<close>) injects what a VM needs, and \<open>Image_Init_Correct\<close> shows that it boots
  into the init system. \<open>Image_Unpack\<close> shows when unpacking stays in its directory and how links lead out of it.
  \<open>Image_Prepare\<close> (\<open>preparer.go\<close>, \<open>validator.go\<close>, \<open>verify.go\<close>, \<open>auth.go\<close>, and \<open>credential_store.go\<close> of
  \<open>pkg/storage\<close>) is the whole preparation; \<open>Image_Prepare_Correct\<close> shows what a prepared image holds, what the cache
  skips and what cleaning it up removes.

  Jails (\<open>pkg/jailer\<close>). \<open>Jailer\<close> (\<open>jailer.go\<close>) has the directories, the commands and the table of jailed
  processes, \<open>Jailer_Cgroup\<close> (\<open>cgroup.go\<close>) their limits. \<open>Jailer_Correct\<close> shows that a jail holds the files of its VM,
  that a cgroup carries the limits, and that no started process is lost.

  The whole node. \<open>Node_System\<close> puts the network manager behind the interface of the controllers, beside arbitrary
  image, secret and volume managers, and the end of this theory has what follows for a VM that was started without
  the jailer.

  \<^bold>\<open>Modelling\<close>

  A structure is a record, an operation takes and returns the state, an error is the left summand of a
  result, and a panic is an error of its own. Operations that hold a lock throughout are one step. What
  the host answers is an argument: the outcome of a command may depend on all commands before
  (\<open>net_env\<close>), the answers of the Firecracker API on the request (\<open>start_env\<close>), a plugin is a function.
  The order in which Go iterates over a map is an argument that is constrained by \<open>key_order\<close> only where
  a result needs it. Log output, contexts, timers and file permissions are left out.

  \<^bold>\<open>Bounds\<close>

  Integers have the width of the source where they can overflow: addresses and hashes are words or
  bytes, a size of a subnet is 32 bits wide. The search loops keep the bounds of the source (256 probes
  of \<open>AllocateIP\<close> and of the static allocator, 16 for a virtual address), so that success is proved for
  subnets of at most 256 addresses, where these suffice. The channel of events holds 100 events, as in the
  source. All functions are total. The recursive copy of directories takes a bound on its depth, one more than
  the depth of the tree, which is proved to suffice when source and destination do not contain each other.

  \<^bold>\<open>Not modelled\<close>

  The VXLAN overlay and peer discovery (kernel interfaces, sockets), the security manager, health, metrics,
  logging and Consul (system calls and clients of external services), the command line programs and the test support.
  Symbolic links and special files do not exist in the trees of volumes and VM snapshots, so that what the copy, the
  archives and the removal of volumes do with them is left out; images and jails have links. JSON documents in files
  are values that decode to what was encoded. Of the configuration, its text (YAML, durations) is left out; of the
  images, the injection through a mounted image that nothing calls. The registry library, \<open>mkfs.ext4\<close> and
  \<open>debugfs\<close> are arguments. Interleavings of goroutines inside one operation are left out: an operation is one
  step.
\<close>

section \<open>Properties of the whole node\<close>

text \<open>
  Claim C3. A VM that was started directly has its network: on a node with its own network manager that does not use
  the jailer, after a controller has prepared and started a task, every interface whose attachment came without an
  address was put to Firecracker under the name of a TAP device that the network manager has created and keeps for
  the task. The image, secret and volume managers are arbitrary; they have no access to the network manager. A
  jailed VM gets no interface at all.
\<close>

theorem started_vm_has_devices:
  assumes "ctl_Prepare (program_managers (with_network env ks om)) c w = (Inr (), c1, w1)"
    and "ctl_Start (program_managers (with_network env ks om)) c1 w1 = (Inr (), c2, w2)"
    and "\<not> c_prepared c" and "\<not> c_started c" and "\<not> v_useJailer (w_vmm w)"
    and "c_internalTask c1 = Some t2" and "i < length (task_Networks t2)"
    and "i < length (task_Networks (convertTask (c_task c))) \<Longrightarrow> nat_Addresses (task_Networks (convertTask (c_task c)) ! i) = []"
  shows "\<exists>tap body. nm_taps (nwd_manager (w_other w2)) (tap_key (api_ID (c_task c)) (tap_Name tap)) = Some tap \<and>
    (''/network-interfaces/eth'' @ dec_of_nat i, body) \<in> set (h_requests (w_host w2)) \<and>
    json_string_field ''host_dev_name'' body = Some (tap_Name tap)"
proof -
  let ?mg = "program_managers (with_network env ks om)"
  obtain t1 t2' nm0 log0 nm log where n: "PrepareNetwork env t1 nm0 log0 = (Inr t2', nm, log)"
      and t1: "task_Networks t1 = task_Networks (convertTask (c_task c))" "task_ID t1 = api_ID (c_task c)"
      and c1: "c_internalTask c1 = Some t2'" "nwd_manager (w_other w1) = nm" "w_vmm w1 = w_vmm w"
        "c_prepared c1" "c_started c1 = c_started c" "c_trans c1 = c_trans c"
    using prepared_network [OF assms(1,3)] .
  have t2: "t2' = t2" using c1(1) assms(6) by simp
  from assms(2,4) c1 t2 obtain cfg where tr: "Translate (c_trans c) t2 = Inr cfg" and m: "mg_Start ?mg t2 cfg w1 = (Inr (), w2)"
    by (auto simp: ctl_Start_def split: sum.splits prod.splits)
  from m obtain senv v' h' where s: "vmm_Start senv t2 cfg (w_vmm w1) (w_host w1) = (Inr (), v', h')"
      and w2: "w_host w2 = h'" "nwd_manager (w_other w2) = nm"
    using c1(2) by (auto simp: lift_vmm_def tick_network split: prod.splits)
  have "(''/network-interfaces/eth'' @ dec_of_nat i, buildNetworkInterfaces t2 ! i) \<in> set (h_requests (w_host w2))"
    using started_interfaces [OF tr s _ assms(7)] c1(3) assms(5) w2 by simp
  moreover obtain tap where "nm_taps nm (tap_key (task_ID t1) (tap_Name tap)) = Some tap"
      "json_string_field ''host_dev_name'' (buildNetworkInterfaces t2 ! i) = Some (tap_Name tap)"
    using prepared_interface [OF n [unfolded t2] assms(7)] assms(8) t1(1) by auto
  ultimately show ?thesis using w2(2) t1(2) by auto
qed

theorem started_vm_has_devices_witness:
  "\<exists>c1 w1 c2 w2 tap body. ctl_Prepare node_example example_controller node_world = (Inr (), c1, w1) \<and>
     ctl_Start node_example c1 w1 = (Inr (), c2, w2) \<and>
     nm_taps (nwd_manager (w_other w2)) (tap_key ''t1'' (tap_Name tap)) = Some tap \<and>
     (''/network-interfaces/eth0'', body) \<in> set (h_requests (w_host w2)) \<and>
     json_string_field ''host_dev_name'' body = Some (tap_Name tap)"
proof -
  obtain c1 w1 c2 w2 t2 where r: "ctl_Prepare node_example example_controller node_world = (Inr (), c1, w1)"
      "ctl_Start node_example c1 w1 = (Inr (), c2, w2)" "c_internalTask c1 = Some t2" "length (task_Networks t2) = 1"
    by (rule node_example_runs)
  have c: "\<not> c_prepared example_controller" "\<not> c_started example_controller" "api_ID (c_task example_controller) = ''t1''"
    by (simp_all add: example_controller_def example_api_task_def)
  have v: "\<not> v_useJailer (w_vmm node_world)" by (simp add: node_world_def example_vmm_def)
  have "task_Networks (convertTask (c_task example_controller)) = []"
    by (simp add: convertTask_def example_controller_def example_api_task_def)
  then have "\<exists>tap body. nm_taps (nwd_manager (w_other w2)) (tap_key (api_ID (c_task example_controller)) (tap_Name tap)) = Some tap \<and>
      (''/network-interfaces/eth'' @ dec_of_nat 0, body) \<in> set (h_requests (w_host w2)) \<and>
      json_string_field ''host_dev_name'' body = Some (tap_Name tap)"
    using r(4) by (intro started_vm_has_devices [OF r(1,2) c(1,2) v r(3)]) simp_all
  then show ?thesis using r(1,2) unfolding c(3) by auto
qed

end
